(* ===== verification/Js_Prelude.thy ===== *)
theory Js_Prelude
  imports Complex_Main "HOL-Library.AList"
begin

text \<open>
  What every component shares: the fragment of the JavaScript language and of its standard
  library that the modelled code uses.
  \<^item> \<open>js_num\<close>, \<open>js_val\<close>: numbers (a double is a rational or not finite) and untyped values,
    for the code that validates \<open>unknown\<close> input.
  \<^item> \<open>js_trim\<close>, \<open>js_lower\<close>: \<open>String.prototype.trim\<close> and \<open>toLowerCase\<close> on strings whose code
    units are below 256 (the type \<open>char\<close>).
  \<^item> \<open>('k, 'v) js_map\<close>: the insertion-ordered \<open>Map\<close>: \<open>set\<close> on a present key keeps its
    position, on a new key appends; \<open>delete\<close> removes. Its keys are distinct (\<open>js_wf\<close>).
  \<^item> \<open>stamp\<close>: an ISO time stamp, or a text that \<open>Date.parse\<close> rejects.
  \<^item> \<open>rbind\<close>: sequencing of results of the type \<open>'e + 'a\<close>, \<open>Inl\<close> being a thrown error.
\<close>

section \<open>Collections of lemmas\<close>

named_theorems js_simps "rewrite rules for the JavaScript collections"

section \<open>Results\<close>

type_synonym ('e, 'a) res = "'e + 'a"

definition rbind :: "('e, 'a) res \<Rightarrow> ('a \<Rightarrow> ('e, 'b) res) \<Rightarrow> ('e, 'b) res" where
  "rbind r f = (case r of Inl e \<Rightarrow> Inl e | Inr a \<Rightarrow> f a)"

lemma rbind_simps [simp]:
  "rbind (Inl e) f = Inl e"
  "rbind (Inr a) f = f a"
  by (simp_all add: rbind_def)

lemma rbind_Inr_iff: "rbind r f = Inr b \<longleftrightarrow> (\<exists>a. r = Inr a \<and> f a = Inr b)"
  by (cases r) auto

lemma rbind_Inl_iff: "rbind r f = Inl e \<longleftrightarrow> r = Inl e \<or> (\<exists>a. r = Inr a \<and> f a = Inl e)"
  by (cases r) auto

text \<open>Mapping a function that may throw over a list, left to right.\<close>

fun res_map :: "('a \<Rightarrow> ('e, 'b) res) \<Rightarrow> 'a list \<Rightarrow> ('e, 'b list) res" where
  "res_map f [] = Inr []"
| "res_map f (x # xs) = rbind (f x) (\<lambda>y. rbind (res_map f xs) (\<lambda>ys. Inr (y # ys)))"

lemma res_map_Inr: "(\<And>x. x \<in> set xs \<Longrightarrow> f x = Inr (g x)) \<Longrightarrow> res_map f xs = Inr (map g xs)"
  by (induction xs) auto

section \<open>Numbers and untyped values\<close>

datatype js_num = Finite rat | NotFinite

datatype js_val =
    JUndef
  | JNull
  | JBool bool
  | JNum js_num
  | JStr string
  | JArr "js_val list"
  | JObj "(string \<times> js_val) list"

abbreviation JInt :: "int \<Rightarrow> js_val" where
  "JInt n \<equiv> JNum (Finite (of_int n))"

text \<open>\<open>Number.MAX_SAFE_INTEGER\<close> and \<open>Number.isSafeInteger\<close>.\<close>

definition max_safe_integer :: int where
  "max_safe_integer = 9007199254740991"

fun safe_integer :: "js_val \<Rightarrow> int option" where
  "safe_integer (JNum (Finite q)) =
     (if of_int \<lfloor>q\<rfloor> = q \<and> \<bar>\<lfloor>q\<rfloor>\<bar> \<le> max_safe_integer then Some \<lfloor>q\<rfloor> else None)"
| "safe_integer _ = None"

lemma safe_integer_JInt [simp]:
  "safe_integer (JInt n) = (if \<bar>n\<bar> \<le> max_safe_integer then Some n else None)"
  by simp

lemma safe_integer_bound: "safe_integer v = Some n \<Longrightarrow> \<bar>n\<bar> \<le> max_safe_integer"
  by (cases v rule: safe_integer.cases) (auto split: if_splits)

text \<open>Property access on an untyped value; a value without the property gives undefined.\<close>

fun js_prop :: "js_val \<Rightarrow> string \<Rightarrow> js_val" where
  "js_prop (JObj ps) k = (case map_of ps k of None \<Rightarrow> JUndef | Some v \<Rightarrow> v)"
| "js_prop _ _ = JUndef"

text \<open>\<open>clampLimit\<close> and \<open>clampOffset\<close> receive numbers; both floor and clamp them.\<close>

definition clamp_int :: "int \<Rightarrow> int \<Rightarrow> int \<Rightarrow> int" where
  "clamp_int lo hi x = max lo (min hi x)"

section \<open>Strings\<close>

definition js_space :: "char \<Rightarrow> bool" where
  "js_space c \<longleftrightarrow> c \<in> set [CHR 0x09, CHR 0x0A, CHR 0x0B, CHR 0x0C, CHR 0x0D, CHR '' '', CHR 0xA0]"

definition js_trim :: "string \<Rightarrow> string" where
  "js_trim s = rev (dropWhile js_space (rev (dropWhile js_space s)))"

definition js_lower_char :: "char \<Rightarrow> char" where
  "js_lower_char c =
     (let n = (of_char c :: nat)
      in if (65 \<le> n \<and> n \<le> 90) \<or> (192 \<le> n \<and> n \<le> 222 \<and> n \<noteq> 215) then char_of (n + 32) else c)"

definition js_lower :: "string \<Rightarrow> string" where
  "js_lower s = map js_lower_char s"

text \<open>The class of the regular expression \<open>[\u0000-\u001f\u007f]\<close>.\<close>

definition js_control :: "char \<Rightarrow> bool" where
  "js_control c = (let n = (of_char c :: nat) in n < 32 \<or> n = 127)"

text \<open>\<open>if (value)\<close> for a \<open>string | null\<close>: neither null nor empty.\<close>

fun js_truthy :: "string option \<Rightarrow> bool" where
  "js_truthy None = False"
| "js_truthy (Some s) = (s \<noteq> [])"

lemma js_trim_edges:
  "js_trim s = [] \<or> (\<not> js_space (hd (js_trim s)) \<and> \<not> js_space (last (js_trim s)))"
proof (cases "js_trim s = []")
  case False
  define d where "d = dropWhile js_space s"
  define e where "e = dropWhile js_space (rev d)"
  have trim: "js_trim s = rev e" by (simp add: js_trim_def d_def e_def)
  with False have e: "e \<noteq> []" by simp
  have "rev d = takeWhile js_space (rev d) @ e" by (simp add: e_def)
  then have split: "d = rev e @ rev (takeWhile js_space (rev d))"
    by (metis rev_append rev_rev_ident)
  with e have d: "d \<noteq> []" by auto
  have "hd d = hd (rev e)" using e by (subst split) (simp add: hd_append)
  moreover have "\<not> js_space (hd d)" using d unfolding d_def by (rule hd_dropWhile)
  moreover have "\<not> js_space (hd e)" using e unfolding e_def by (rule hd_dropWhile)
  ultimately show ?thesis by (simp add: trim last_rev)
qed simp

lemma js_trim_fixed:
  "s = [] \<or> (\<not> js_space (hd s) \<and> \<not> js_space (last s)) \<Longrightarrow> js_trim s = s"
proof (cases s)
  case (Cons x xs)
  assume "s = [] \<or> (\<not> js_space (hd s) \<and> \<not> js_space (last s))"
  with Cons have x: "\<not> js_space x" and l: "\<not> js_space (last s)" by auto
  from x Cons have d: "dropWhile js_space s = s" by simp
  have "dropWhile js_space (rev s) = rev s" using l by (simp add: dropWhile_eq_self_iff hd_rev)
  with d show ?thesis by (simp add: js_trim_def)
qed (simp add: js_trim_def)

lemma js_trim_idem [simp]: "js_trim (js_trim s) = js_trim s"
  using js_trim_edges js_trim_fixed by blast

lemma js_trim_Nil [simp]: "js_trim [] = []"
  by (simp add: js_trim_def)

lemma set_js_trim: "set (js_trim s) \<subseteq> set s"
  unfolding js_trim_def by (auto dest!: set_dropWhileD)

section \<open>Insertion-ordered maps\<close>

type_synonym ('k, 'v) js_map = "('k \<times> 'v) list"

abbreviation js_get :: "('k, 'v) js_map \<Rightarrow> 'k \<Rightarrow> 'v option" where
  "js_get m k \<equiv> map_of m k"

definition js_has :: "('k, 'v) js_map \<Rightarrow> 'k \<Rightarrow> bool" where
  "js_has m k \<longleftrightarrow> js_get m k \<noteq> None"

definition js_set :: "('k, 'v) js_map \<Rightarrow> 'k \<Rightarrow> 'v \<Rightarrow> ('k, 'v) js_map" where
  "js_set m k v = AList.update k v m"

definition js_delete :: "('k, 'v) js_map \<Rightarrow> 'k \<Rightarrow> ('k, 'v) js_map" where
  "js_delete m k = AList.delete k m"

definition js_values :: "('k, 'v) js_map \<Rightarrow> 'v list" where
  "js_values m = map snd m"

text \<open>\<open>[...map.values()].find(predicate)\<close>.\<close>

definition js_find :: "('v \<Rightarrow> bool) \<Rightarrow> ('k, 'v) js_map \<Rightarrow> 'v option" where
  "js_find P m = List.find P (js_values m)"

text \<open>A loop over the entries that rewrites values in place (\<open>set\<close> on the current key).\<close>

definition js_update_each :: "('k \<Rightarrow> 'v \<Rightarrow> 'v) \<Rightarrow> ('k, 'v) js_map \<Rightarrow> ('k, 'v) js_map" where
  "js_update_each f m = map (\<lambda>(k, v). (k, f k v)) m"

text \<open>A loop over the entries that deletes those satisfying a predicate.\<close>

definition js_delete_each :: "('k \<Rightarrow> 'v \<Rightarrow> bool) \<Rightarrow> ('k, 'v) js_map \<Rightarrow> ('k, 'v) js_map" where
  "js_delete_each P m = filter (\<lambda>(k, v). \<not> P k v) m"

definition js_wf :: "('k, 'v) js_map \<Rightarrow> bool" where
  "js_wf m \<longleftrightarrow> distinct (map fst m)"

lemma js_get_set [js_simps, simp]: "js_get (js_set m k v) k' = (if k' = k then Some v else js_get m k')"
  by (simp add: js_set_def AList.update_conv')

lemma js_get_delete [js_simps, simp]: "js_get (js_delete m k) k' = (if k' = k then None else js_get m k')"
  by (simp add: js_delete_def AList.delete_conv')

lemma js_has_set [js_simps, simp]: "js_has (js_set m k v) k' \<longleftrightarrow> k' = k \<or> js_has m k'"
  by (simp add: js_has_def)

lemma js_has_delete [js_simps, simp]: "js_has (js_delete m k) k' \<longleftrightarrow> k' \<noteq> k \<and> js_has m k'"
  by (simp add: js_has_def)

lemma js_get_update_each [js_simps, simp]: "js_get (js_update_each f m) k = map_option (f k) (js_get m k)"
  by (induction m) (auto simp: js_update_each_def)

lemma js_keys_update_each [simp]: "map fst (js_update_each f m) = map fst m"
  by (simp add: js_update_each_def case_prod_beta o_def)

lemma js_wf_Nil [simp]: "js_wf []"
  by (simp add: js_wf_def)

lemma js_set_fresh: "js_get m k = None \<Longrightarrow> js_set m k v = m @ [(k, v)]"
  by (induction m) (auto simp: js_set_def split: if_splits)

lemma js_wf_set [simp]: "js_wf m \<Longrightarrow> js_wf (js_set m k v)"
  by (simp add: js_wf_def js_set_def AList.distinct_update)

lemma js_wf_delete [simp]: "js_wf m \<Longrightarrow> js_wf (js_delete m k)"
  by (simp add: js_wf_def js_delete_def AList.distinct_delete)

lemma js_wf_update_each [simp]: "js_wf (js_update_each f m) = js_wf m"
  by (simp add: js_wf_def)

lemma js_wf_delete_each [simp]: "js_wf m \<Longrightarrow> js_wf (js_delete_each P m)"
  by (induction m) (auto simp: js_wf_def js_delete_each_def)

lemma js_get_delete_each [js_simps, simp]:
  "js_wf m \<Longrightarrow> js_get (js_delete_each P m) k =
     (case js_get m k of None \<Rightarrow> None | Some v \<Rightarrow> if P k v then None else Some v)"
proof (induction m)
  case (Cons e m)
  have "js_get m (fst e) = None" using Cons.prems by (auto simp: js_wf_def map_of_eq_None_iff)
  with Cons show ?case
    by (cases e) (auto simp: js_wf_def js_delete_each_def split: option.splits)
qed (simp add: js_delete_each_def)

text \<open>Values and keys: with distinct keys a value of the map is the value of some key.\<close>

lemma js_get_in_values: "js_get m k = Some v \<Longrightarrow> v \<in> set (js_values m)"
  by (auto simp: js_values_def dest!: map_of_SomeD intro!: image_eqI [where x = "(k, v)"])

lemma js_in_values_iff: "js_wf m \<Longrightarrow> v \<in> set (js_values m) \<longleftrightarrow> (\<exists>k. js_get m k = Some v)"
  by (force simp: js_values_def js_wf_def)

lemma js_find_Some: "js_find P m = Some v \<Longrightarrow> v \<in> set (js_values m) \<and> P v"
  by (auto simp: js_find_def find_Some_iff)

lemma js_find_None: "js_find P m = None \<longleftrightarrow> (\<forall>v \<in> set (js_values m). \<not> P v)"
  by (auto simp: js_find_def find_None_iff)

lemma js_values_Nil [simp]: "js_values [] = []"
  by (simp add: js_values_def)

lemma js_values_Cons [simp]: "js_values (e # m) = snd e # js_values m"
  by (simp add: js_values_def)

lemma js_values_update_each:
  "js_values (js_update_each f m) = map (\<lambda>(k, v). f k v) m"
  by (simp add: js_values_def js_update_each_def case_prod_beta o_def)

lemma js_set_values_subset: "set (js_values (js_set m k v)) \<subseteq> insert v (set (js_values m))"
  by (induction m) (auto simp: js_set_def js_values_def)

text \<open>
  Sums over the values: setting a key replaces its summand, deleting removes it. A ledger's
  totals are such sums.
\<close>

definition js_sum :: "('k \<Rightarrow> 'v \<Rightarrow> int) \<Rightarrow> ('k, 'v) js_map \<Rightarrow> int" where
  "js_sum f m = (\<Sum>(k, v) \<leftarrow> m. f k v)"

lemma js_sum_Nil [simp]: "js_sum f [] = 0"
  by (simp add: js_sum_def)

lemma js_sum_Cons [simp]: "js_sum f ((k, v) # m) = f k v + js_sum f m"
  by (simp add: js_sum_def)

lemma js_sum_set:
  "js_wf m \<Longrightarrow> js_sum f (js_set m k v) =
     js_sum f m - (case js_get m k of None \<Rightarrow> 0 | Some w \<Rightarrow> f k w) + f k v"
proof (induction m)
  case (Cons e m)
  obtain k' v' where e: "e = (k', v')" by (cases e)
  have "js_get m k' = None" using Cons.prems e by (auto simp: js_wf_def map_of_eq_None_iff)
  with Cons e show ?case by (auto simp: js_set_def js_wf_def split: option.splits)
qed (simp add: js_set_def)

lemma js_delete_absent: "js_get m k = None \<Longrightarrow> js_delete m k = m"
  by (simp add: js_delete_def map_of_eq_None_iff)

lemma js_sum_delete:
  "js_wf m \<Longrightarrow> js_sum f (js_delete m k) =
     js_sum f m - (case js_get m k of None \<Rightarrow> 0 | Some w \<Rightarrow> f k w)"
proof (induction m)
  case (Cons e m)
  obtain k' v' where e: "e = (k', v')" by (cases e)
  have none: "js_get m k' = None" using Cons.prems e by (auto simp: js_wf_def map_of_eq_None_iff)
  show ?case
  proof (cases "k' = k")
    case True
    with none have "js_delete (e # m) k = m"
      by (simp add: e js_delete_def map_of_eq_None_iff)
    with True e show ?thesis by simp
  next
    case False
    then have "js_delete (e # m) k = e # js_delete m k" by (simp add: e js_delete_def)
    with Cons False e show ?thesis by (simp add: js_wf_def)
  qed
qed (simp add: js_delete_def)

lemma js_sum_nonneg:
  "(\<And>k v. js_get m k = Some v \<Longrightarrow> 0 \<le> f k v) \<Longrightarrow> js_wf m \<Longrightarrow> 0 \<le> js_sum f m"
proof (induction m)
  case (Cons e m)
  obtain k' v' where e: "e = (k', v')" by (cases e)
  have none: "js_get m k' = None" using Cons.prems(2) e by (auto simp: js_wf_def map_of_eq_None_iff)
  have "0 \<le> f k' v'" using Cons.prems(1) [of k' v'] e by simp
  moreover have "0 \<le> js_sum f m"
  proof (rule Cons.IH)
    fix k v assume "js_get m k = Some v"
    with none have "js_get (e # m) k = Some v" using e by auto
    then show "0 \<le> f k v" by (rule Cons.prems(1))
  next
    show "js_wf m" using Cons.prems(2) by (simp add: js_wf_def)
  qed
  ultimately show ?case using e by simp
qed simp

section \<open>Time stamps\<close>

text \<open>
  Stamps the program makes itself (\<open>toISOString\<close>) are instants in milliseconds, \<open>int\<close>: on
  such strings the textual order is the order of the instants. Stamps that come back from
  outside may be texts that \<open>Date.parse\<close> rejects.
\<close>

type_synonym instant = int

datatype stamp = Instant instant | Unparsable string

fun date_parse :: "stamp \<Rightarrow> instant option" where
  "date_parse (Instant t) = Some t"
| "date_parse (Unparsable _) = None"

end
