(* ===== verification/Machine.thy ===== *)
theory Machine
  imports Main
begin

text \<open>
  The contract between a component and the proofs about whole runs of it: a step function
  over the component's events, the states it may start in, and a predicate that holds there
  and that every step keeps. Each component interprets \<open>machine\<close> on its own step function;
  a statement about every run then is \<open>run_inv\<close>.
\<close>

locale machine =
  fixes step :: "'s \<Rightarrow> 'e \<Rightarrow> 's"
    and init :: "'s \<Rightarrow> bool"
    and inv :: "'s \<Rightarrow> bool"
  assumes init_inv: "init s \<Longrightarrow> inv s"
    and step_inv: "inv s \<Longrightarrow> inv (step s e)"
begin

lemma steps_inv: "inv s \<Longrightarrow> inv (foldl step s es)"
  by (induction es arbitrary: s) (auto intro: step_inv)

lemma run_inv: "init s \<Longrightarrow> inv (foldl step s es)"
  by (simp add: init_inv steps_inv)

end

end
