(* ===== verification/Quota_Admission.thy ===== *)
theory Quota_Admission
  imports Js_Prelude Machine
begin

text \<open>
  Quota admission, \<open>backend/src/quota-admission.ts\<close>: the in-memory ledger
  \<open>InMemoryQuotaAdmission\<close> that admits declared resources under limits in four scopes
  (global, tenant, user, provider), with \<open>admit\<close>, \<open>reserve\<close>, \<open>transition\<close>, \<open>release\<close> and
  \<open>snapshot\<close>. The promise chain \<open>#enqueue\<close> runs one operation at a time and no operation
  waits inside, so each operation is one atomic step of the ledger.
  Amounts are safe integers after normalisation; the model adds them exactly. In the code a
  sum is a double: the comparison with a limit (itself safe) gives the same answer, since
  a total within its limit is exact and one above rounds to no less than \<open>2^53\<close>.
  Keys of the policy's records are taken to be the record's own keys (no key named like a
  member of \<open>Object.prototype\<close>).
\<close>

section \<open>Data\<close>

datatype quota_dimension =
    Instances | RunningInstances | CpuMillis | MemoryBytes | Pids | VolumeBytes
  | ConcurrentBuilds | RolloutConcurrency

datatype quota_desired_state = QRunning | QStopped

type_synonym quota_limits = "quota_dimension \<Rightarrow> int option"

record quota_policy =
  qp_global :: "quota_limits option"
  qp_tenants :: "(string, quota_limits) js_map option"
  qp_users :: "(string, quota_limits) js_map option"
  qp_providers :: "(string, quota_limits) js_map option"

record quota_request =
  q_reservationId :: string
  q_userId :: string
  q_providerId :: string
  q_desiredState :: quota_desired_state
  q_cpuMillis :: int
  q_memoryBytes :: int
  q_pidsLimit :: int
  q_tenantId :: "string option"
  q_volumeBytes :: "int option"
  q_buildSlots :: "int option"
  q_rolloutSlots :: "int option"

record quota_reservation =
  qr_id :: string
  qr_request :: quota_request
  qr_reservedAt :: instant

datatype quota_code =
    QuotaExceeded | QuotaUnavailable | QuotaReservationConflict | QuotaReservationNotFound

text \<open>\<open>QuotaAdmissionError\<close>: code, dimension and scope; \<open>retryable\<close> and \<open>status\<close> follow.\<close>

datatype quota_error = QuotaError quota_code "quota_dimension option" "string option"

fun quota_error_retryable :: "quota_error \<Rightarrow> bool" where
  "quota_error_retryable (QuotaError code _ _) = (code = QuotaUnavailable)"

definition quota_error_status :: "quota_error \<Rightarrow> nat" where
  "quota_error_status e = (if quota_error_retryable e then 503 else 409)"

datatype quota_decision =
    Admitted string
  | Denied string quota_dimension string
  | Unavailable string

definition quota_conflict :: quota_error where
  "quota_conflict = QuotaError QuotaReservationConflict None None"

definition DIMENSIONS :: "quota_dimension list" where
  "DIMENSIONS = [Instances, RunningInstances, CpuMillis, MemoryBytes, Pids, VolumeBytes,
     ConcurrentBuilds, RolloutConcurrency]"

fun dimension_name :: "quota_dimension \<Rightarrow> string" where
  "dimension_name Instances = ''instances''"
| "dimension_name RunningInstances = ''runningInstances''"
| "dimension_name CpuMillis = ''cpuMillis''"
| "dimension_name MemoryBytes = ''memoryBytes''"
| "dimension_name Pids = ''pids''"
| "dimension_name VolumeBytes = ''volumeBytes''"
| "dimension_name ConcurrentBuilds = ''concurrentBuilds''"
| "dimension_name RolloutConcurrency = ''rolloutConcurrency''"

section \<open>Normalisation of requests and policies\<close>

definition identifier_value :: "js_val \<Rightarrow> string option" where
  "identifier_value v = (case v of
     JStr s \<Rightarrow> (let t = js_trim s in
       if 0 < length t \<and> length t \<le> 256 \<and> \<not> (\<exists>c \<in> set t. js_control c) then Some t else None)
   | _ \<Rightarrow> None)"

definition positive_integer :: "js_val \<Rightarrow> (quota_error, int) res" where
  "positive_integer v = (case safe_integer v of
     None \<Rightarrow> Inl quota_conflict
   | Some n \<Rightarrow> if n \<le> 0 then Inl quota_conflict else Inr n)"

definition non_negative_integer :: "js_val \<Rightarrow> (quota_error, int) res" where
  "non_negative_integer v = (case safe_integer v of
     None \<Rightarrow> Inl quota_conflict
   | Some n \<Rightarrow> if n < 0 then Inl quota_conflict else Inr n)"

definition optional_non_negative :: "js_val \<Rightarrow> (quota_error, int option) res" where
  "optional_non_negative v =
     (if v = JUndef then Inr None else rbind (non_negative_integer v) (\<lambda>n. Inr (Some n)))"

definition desired_state_value :: "js_val \<Rightarrow> (quota_error, quota_desired_state) res" where
  "desired_state_value v =
     (if v = JStr ''running'' then Inr QRunning
      else if v = JStr ''stopped'' then Inr QStopped
      else Inl quota_conflict)"

definition normalize_request :: "js_val \<Rightarrow> (quota_error, quota_request) res" where
  "normalize_request request =
     (case (identifier_value (js_prop request ''reservationId''),
            identifier_value (js_prop request ''userId''),
            identifier_value (js_prop request ''providerId'')) of
        (Some rid, Some uid, Some pid) \<Rightarrow>
          rbind (desired_state_value (js_prop request ''desiredState'')) (\<lambda>state.
          rbind (positive_integer (js_prop request ''cpuMillis'')) (\<lambda>cpu.
          rbind (positive_integer (js_prop request ''memoryBytes'')) (\<lambda>mem.
          rbind (positive_integer (js_prop request ''pidsLimit'')) (\<lambda>pids.
          let traw = js_prop request ''tenantId'';
              tenant = (if traw = JUndef then None else identifier_value traw)
          in if traw \<noteq> JUndef \<and> tenant = None then Inl quota_conflict
          else
          rbind (optional_non_negative (js_prop request ''volumeBytes'')) (\<lambda>vol.
          rbind (optional_non_negative (js_prop request ''buildSlots'')) (\<lambda>builds.
          rbind (optional_non_negative (js_prop request ''rolloutSlots'')) (\<lambda>rollouts.
          Inr \<lparr>q_reservationId = rid, q_userId = uid, q_providerId = pid,
               q_desiredState = state, q_cpuMillis = cpu, q_memoryBytes = mem,
               q_pidsLimit = pids, q_tenantId = tenant, q_volumeBytes = vol,
               q_buildSlots = builds, q_rolloutSlots = rollouts\<rparr>)))))))
      | _ \<Rightarrow> Inl quota_conflict)"

text \<open>
  \<open>sameRequest\<close> compares the JSON texts of two normalised requests: these have their
  properties in one order, so the texts agree exactly when the requests do.
\<close>

definition same_request :: "quota_request \<Rightarrow> quota_request \<Rightarrow> bool" where
  "same_request left right \<longleftrightarrow> left = right"

text \<open>A policy's limits, read dimension by dimension in the order of \<open>DIMENSIONS\<close>.\<close>

fun normalize_dims :: "js_val \<Rightarrow> quota_dimension list \<Rightarrow> quota_limits \<Rightarrow> (quota_error, quota_limits) res" where
  "normalize_dims limits [] acc = Inr acc"
| "normalize_dims limits (d # ds) acc =
     (let value = js_prop limits (dimension_name d)
      in if value = JUndef then normalize_dims limits ds acc
         else rbind (non_negative_integer value) (\<lambda>n. normalize_dims limits ds (acc(d := Some n))))"

definition normalize_limits :: "js_val \<Rightarrow> (quota_error, quota_limits option) res" where
  "normalize_limits limits =
     (if limits = JUndef then Inr None
      else rbind (normalize_dims limits DIMENSIONS (\<lambda>_. None)) (\<lambda>l. Inr (Some l)))"

text \<open>An entry whose limits are undefined leaves the key without limits, as if it were absent.\<close>

fun normalize_entries ::
  "(string \<times> js_val) list \<Rightarrow> (string, quota_limits) js_map \<Rightarrow> (quota_error, (string, quota_limits) js_map) res" where
  "normalize_entries [] acc = Inr acc"
| "normalize_entries ((key, limits) # es) acc =
     (case identifier_value (JStr key) of
        None \<Rightarrow> Inl quota_conflict
      | Some k \<Rightarrow> rbind (normalize_limits limits) (\<lambda>l.
          normalize_entries es (case l of None \<Rightarrow> js_delete acc k | Some x \<Rightarrow> js_set acc k x)))"

definition normalize_map ::
  "(string \<times> js_val) list option \<Rightarrow> (quota_error, (string, quota_limits) js_map option) res" where
  "normalize_map values = (case values of
     None \<Rightarrow> Inr None
   | Some es \<Rightarrow> rbind (normalize_entries es []) (\<lambda>m. Inr (Some m)))"

definition normalize_policy ::
  "js_val \<Rightarrow> (string \<times> js_val) list option \<Rightarrow> (string \<times> js_val) list option \<Rightarrow>
   (string \<times> js_val) list option \<Rightarrow> (quota_error, quota_policy) res" where
  "normalize_policy global tenants users providers =
     rbind (normalize_limits global) (\<lambda>g.
     rbind (normalize_map tenants) (\<lambda>t.
     rbind (normalize_map users) (\<lambda>u.
     rbind (normalize_map providers) (\<lambda>p.
     Inr \<lparr>qp_global = g, qp_tenants = t, qp_users = u, qp_providers = p\<rparr>))))"

section \<open>Scopes, contributions and usage\<close>

record quota_scope =
  sc_key :: string
  sc_limits :: quota_limits

definition scope_in :: "string \<Rightarrow> (string, quota_limits) js_map option \<Rightarrow> string option \<Rightarrow> quota_scope list" where
  "scope_in prefix limits name =
     (case (name, limits) of
        (Some n, Some m) \<Rightarrow>
          (case js_get m n of
             None \<Rightarrow> []
           | Some l \<Rightarrow> [\<lparr>sc_key = prefix @ n, sc_limits = l\<rparr>])
      | _ \<Rightarrow> [])"

definition scopes_for :: "quota_request \<Rightarrow> quota_policy \<Rightarrow> quota_scope list" where
  "scopes_for request policy =
     (case qp_global policy of None \<Rightarrow> [] | Some l \<Rightarrow> [\<lparr>sc_key = ''global'', sc_limits = l\<rparr>])
     @ (if js_truthy (q_tenantId request)
        then scope_in ''tenant:'' (qp_tenants policy) (q_tenantId request) else [])
     @ scope_in ''user:'' (qp_users policy) (Some (q_userId request))
     @ scope_in ''provider:'' (qp_providers policy) (Some (q_providerId request))"

type_synonym quota_usage = "quota_dimension \<Rightarrow> int"

fun contribution_for :: "quota_request \<Rightarrow> quota_dimension \<Rightarrow> int" where
  "contribution_for r Instances = 1"
| "contribution_for r RunningInstances = (if q_desiredState r = QRunning then 1 else 0)"
| "contribution_for r CpuMillis = q_cpuMillis r"
| "contribution_for r MemoryBytes = q_memoryBytes r"
| "contribution_for r Pids = q_pidsLimit r"
| "contribution_for r VolumeBytes = (case q_volumeBytes r of None \<Rightarrow> 0 | Some n \<Rightarrow> n)"
| "contribution_for r ConcurrentBuilds = (case q_buildSlots r of None \<Rightarrow> 0 | Some n \<Rightarrow> n)"
| "contribution_for r RolloutConcurrency = (case q_rolloutSlots r of None \<Rightarrow> 0 | Some n \<Rightarrow> n)"

definition empty_usage :: quota_usage where
  "empty_usage = (\<lambda>_. 0)"

text \<open>The inner loop \<open>for (const dimension of DIMENSIONS) usage[dimension] += contribution[dimension]\<close>.\<close>

definition add_usage :: "quota_usage \<Rightarrow> quota_usage \<Rightarrow> quota_usage" where
  "add_usage usage contribution =
     fold (\<lambda>d u. u(d := u d + contribution d)) DIMENSIONS usage"

section \<open>The ledger\<close>

record quota_state =
  qs_policy :: quota_policy
  qs_reservations :: "(string, quota_request) js_map"
  qs_available :: bool

definition quota_init :: "quota_policy \<Rightarrow> bool \<Rightarrow> quota_state" where
  "quota_init policy available = \<lparr>qs_policy = policy, qs_reservations = [], qs_available = available\<rparr>"

definition set_available :: "quota_state \<Rightarrow> bool \<Rightarrow> quota_state" where
  "set_available s available = s\<lparr>qs_available := available\<rparr>"

definition usage_for :: "quota_state \<Rightarrow> string \<Rightarrow> string option \<Rightarrow> quota_usage" where
  "usage_for s scopeKey excluding =
     fold (\<lambda>r usage.
       if Some (q_reservationId r) = excluding then usage
       else if \<not> (\<exists>sc \<in> set (scopes_for r (qs_policy s)). sc_key sc = scopeKey) then usage
       else add_usage usage (contribution_for r))
     (js_values (qs_reservations s)) empty_usage"

text \<open>One scope of the search for a denial: the first dimension whose limit would be passed.\<close>

definition scope_denial :: "quota_usage \<Rightarrow> quota_usage \<Rightarrow> quota_scope \<Rightarrow> quota_dimension option" where
  "scope_denial usage contribution sc =
     List.find (\<lambda>d. case sc_limits sc d of None \<Rightarrow> False | Some l \<Rightarrow> l < usage d + contribution d) DIMENSIONS"

fun first_denial ::
  "(string \<Rightarrow> quota_usage) \<Rightarrow> quota_usage \<Rightarrow> quota_scope list \<Rightarrow> (quota_dimension \<times> string) option" where
  "first_denial usage contribution [] = None"
| "first_denial usage contribution (sc # scs) =
     (case scope_denial (usage (sc_key sc)) contribution sc of
        Some d \<Rightarrow> Some (d, sc_key sc)
      | None \<Rightarrow> first_denial usage contribution scs)"

definition find_denial ::
  "quota_state \<Rightarrow> quota_request \<Rightarrow> string option \<Rightarrow> (quota_dimension \<times> string) option" where
  "find_denial s request excluding =
     first_denial (\<lambda>key. usage_for s key excluding) (contribution_for request)
       (scopes_for request (qs_policy s))"

section \<open>Operations\<close>

definition quota_admit :: "quota_state \<Rightarrow> js_val \<Rightarrow> (quota_error, quota_decision) res" where
  "quota_admit s request =
     rbind (normalize_request request) (\<lambda>n.
       case js_get (qs_reservations s) (q_reservationId n) of
         Some existing \<Rightarrow>
           if \<not> same_request existing n then Inl quota_conflict else Inr (Admitted (q_reservationId n))
       | None \<Rightarrow>
           if \<not> qs_available s then Inr (Unavailable (q_reservationId n))
           else (case find_denial s n None of
             Some (d, sc) \<Rightarrow> Inr (Denied (q_reservationId n) d sc)
           | None \<Rightarrow> Inr (Admitted (q_reservationId n))))"

definition reservation_snapshot :: "quota_request \<Rightarrow> instant \<Rightarrow> quota_reservation" where
  "reservation_snapshot request now =
     \<lparr>qr_id = q_reservationId request, qr_request = request, qr_reservedAt = now\<rparr>"

definition quota_reserve ::
  "quota_state \<Rightarrow> instant \<Rightarrow> js_val \<Rightarrow> quota_state \<times> (quota_error, quota_reservation) res" where
  "quota_reserve s now request =
     (case normalize_request request of
        Inl e \<Rightarrow> (s, Inl e)
      | Inr n \<Rightarrow>
          (case js_get (qs_reservations s) (q_reservationId n) of
             Some existing \<Rightarrow>
               if \<not> same_request existing n then (s, Inl quota_conflict)
               else (s, Inr (reservation_snapshot existing now))
           | None \<Rightarrow>
               if \<not> qs_available s then (s, Inl (QuotaError QuotaUnavailable None None))
               else (case find_denial s n None of
                 Some (d, sc) \<Rightarrow> (s, Inl (QuotaError QuotaExceeded (Some d) (Some sc)))
               | None \<Rightarrow>
                   (s\<lparr>qs_reservations := js_set (qs_reservations s) (q_reservationId n) n\<rparr>,
                    Inr (reservation_snapshot n now)))))"

definition quota_transition ::
  "quota_state \<Rightarrow> string \<Rightarrow> quota_desired_state \<Rightarrow> quota_state \<times> (quota_error, bool) res" where
  "quota_transition s rid desired =
     (case js_get (qs_reservations s) rid of
        None \<Rightarrow> (s, Inr False)
      | Some current \<Rightarrow>
          if q_desiredState current = desired then (s, Inr True)
          else if \<not> qs_available s then (s, Inl (QuotaError QuotaUnavailable None None))
          else (let next = current\<lparr>q_desiredState := desired\<rparr> in
            case find_denial s next (Some rid) of
              Some (d, sc) \<Rightarrow> (s, Inl (QuotaError QuotaExceeded (Some d) (Some sc)))
            | None \<Rightarrow> (s\<lparr>qs_reservations := js_set (qs_reservations s) rid next\<rparr>, Inr True)))"

definition quota_release :: "quota_state \<Rightarrow> string \<Rightarrow> quota_state \<times> bool" where
  "quota_release s rid =
     (s\<lparr>qs_reservations := js_delete (qs_reservations s) rid\<rparr>, js_has (qs_reservations s) rid)"

text \<open>\<open>snapshot\<close>: usage per scope key, over the reservations and their scopes in order.\<close>

definition snapshot_add :: "quota_usage \<Rightarrow> (string, quota_usage) js_map \<Rightarrow> string \<Rightarrow> (string, quota_usage) js_map" where
  "snapshot_add contribution result key =
     js_set result key (add_usage (case js_get result key of None \<Rightarrow> empty_usage | Some u \<Rightarrow> u) contribution)"

definition quota_snapshot :: "quota_state \<Rightarrow> (string, quota_usage) js_map" where
  "quota_snapshot s =
     fold (\<lambda>r result.
       fold (\<lambda>sc res. snapshot_add (contribution_for r) res (sc_key sc))
         (scopes_for r (qs_policy s)) result)
     (js_values (qs_reservations s)) []"

section \<open>Sums of contributions\<close>

lemma add_usage_eq [simp]: "add_usage u c = (\<lambda>d. u d + c d)"
proof
  fix d show "add_usage u c d = u d + c d"
    by (cases d) (simp_all add: add_usage_def DIMENSIONS_def)
qed

lemma in_DIMENSIONS [simp]: "d \<in> set DIMENSIONS"
  by (cases d) (simp_all add: DIMENSIONS_def)

definition in_scope :: "quota_policy \<Rightarrow> quota_request \<Rightarrow> string \<Rightarrow> bool" where
  "in_scope policy r key \<longleftrightarrow> (\<exists>sc \<in> set (scopes_for r policy). sc_key sc = key)"

lemma fold_add_sum:
  "fold (\<lambda>r u. if P r then u else if \<not> Q r then u else add_usage u (c r)) (map snd m) u0 d =
   u0 d + js_sum (\<lambda>_ r. if P r \<or> \<not> Q r then 0 else c r d) m"
  by (induction m arbitrary: u0) auto

lemma usage_for_sum:
  "usage_for s key ex d =
     js_sum (\<lambda>_ r. if Some (q_reservationId r) = ex \<or> \<not> in_scope (qs_policy s) r key then 0
                 else contribution_for r d) (qs_reservations s)"
  unfolding usage_for_def js_values_def in_scope_def fold_add_sum by (simp add: empty_usage_def)

lemma scope_denial_None:
  "scope_denial u c sc = None \<longleftrightarrow> (\<forall>d n. sc_limits sc d = Some n \<longrightarrow> u d + c d \<le> n)"
  by (auto simp: scope_denial_def find_None_iff not_less split: option.splits)

lemma scope_denial_Some:
  "scope_denial u c sc = Some d \<Longrightarrow> \<exists>n. sc_limits sc d = Some n \<and> n < u d + c d"
  by (auto simp: scope_denial_def find_Some_iff split: option.splits)

lemma first_denial_None:
  "first_denial u c scs = None \<longleftrightarrow> (\<forall>sc \<in> set scs. scope_denial (u (sc_key sc)) c sc = None)"
  by (induction scs) (auto split: option.splits)

lemma first_denial_Some:
  "first_denial u c scs = Some (d, key) \<Longrightarrow>
     \<exists>sc \<in> set scs. sc_key sc = key \<and> scope_denial (u key) c sc = Some d"
  by (induction scs) (auto split: option.splits)

section \<open>Scope keys\<close>

lemma scope_in_cases:
  "sc \<in> set (scope_in p limits name) \<longleftrightarrow>
     (\<exists>n m l. name = Some n \<and> limits = Some m \<and> js_get m n = Some l \<and> sc = \<lparr>sc_key = p @ n, sc_limits = l\<rparr>)"
  by (auto simp: scope_in_def split: option.splits)

lemma scopes_for_key_limits:
  assumes "a \<in> set (scopes_for r p)" "b \<in> set (scopes_for r' p)" "sc_key a = sc_key b"
  shows "sc_limits a = sc_limits b"
  using assms
  by (cases "qp_global p") (auto simp: scopes_for_def scope_in_cases split: if_splits)

lemma length_scope_in: "length (scope_in p limits name) \<le> 1"
  by (auto simp: scope_in_def split: option.splits)

lemma scope_in_singleton: "scope_in p limits name = [] \<or> (\<exists>n l. scope_in p limits name = [\<lparr>sc_key = p @ n, sc_limits = l\<rparr>])"
  by (auto simp: scope_in_def split: option.splits)

lemma scopes_for_distinct: "distinct (map sc_key (scopes_for r p))"
  using scope_in_singleton [of "''tenant:''" "qp_tenants p" "q_tenantId r"]
    scope_in_singleton [of "''user:''" "qp_users p" "Some (q_userId r)"]
    scope_in_singleton [of "''provider:''" "qp_providers p" "Some (q_providerId r)"]
  by (auto simp: scopes_for_def split: option.splits)

lemma scopes_for_desired_state [simp]: "scopes_for (r\<lparr>q_desiredState := x\<rparr>) p = scopes_for r p"
  by (simp add: scopes_for_def)

lemma in_scope_desired_state [simp]: "in_scope p (r\<lparr>q_desiredState := x\<rparr>) key = in_scope p r key"
  by (simp add: in_scope_def)

section \<open>The invariant of the ledger\<close>

text \<open>
  Every reservation is stored under its id, declares no negative amount, and no scope that
  applies to a reservation uses more than its limit in any dimension.
\<close>

definition within_limits :: "quota_state \<Rightarrow> bool" where
  "within_limits s \<longleftrightarrow>
     (\<forall>r \<in> set (js_values (qs_reservations s)). \<forall>sc \<in> set (scopes_for r (qs_policy s)).
       \<forall>d n. sc_limits sc d = Some n \<longrightarrow> usage_for s (sc_key sc) None d \<le> n)"

definition ledger_keyed :: "quota_state \<Rightarrow> bool" where
  "ledger_keyed s \<longleftrightarrow> js_wf (qs_reservations s) \<and>
     (\<forall>k r. js_get (qs_reservations s) k = Some r \<longrightarrow>
        q_reservationId r = k \<and> (\<forall>d. 0 \<le> contribution_for r d))"

definition quota_inv :: "quota_state \<Rightarrow> bool" where
  "quota_inv s \<longleftrightarrow> ledger_keyed s \<and> within_limits s"

lemma positive_integer_Inr: "positive_integer v = Inr n \<Longrightarrow> 0 < n"
  by (auto simp: positive_integer_def split: option.splits if_splits)

lemma optional_non_negative_Inr: "optional_non_negative v = Inr (Some n) \<Longrightarrow> 0 \<le> n"
  by (auto simp: optional_non_negative_def non_negative_integer_def rbind_Inr_iff
      split: option.splits if_splits)

lemma normalize_request_nonneg: "normalize_request v = Inr r \<Longrightarrow> 0 \<le> contribution_for r d"
  by (cases d)
    (auto simp: normalize_request_def rbind_Inr_iff Let_def
       dest!: positive_integer_Inr optional_non_negative_Inr
       split: option.splits if_splits)

lemma contribution_desired_state:
  "contribution_for (r\<lparr>q_desiredState := x\<rparr>) d =
     (if d = RunningInstances then (if x = QRunning then 1 else 0) else contribution_for r d)"
  by (cases d) auto

text \<open>Replacing or adding one reservation changes a scope's usage by that reservation's part.\<close>

lemma usage_for_set:
  assumes "ledger_keyed s" "q_reservationId r = k"
  shows "usage_for (s\<lparr>qs_reservations := js_set (qs_reservations s) k r\<rparr>) key None d =
     usage_for s key (Some k) d + (if in_scope (qs_policy s) r key then contribution_for r d else 0)"
proof -
  let ?m = "qs_reservations s"
  let ?f = "\<lambda>ex _ r. if Some (q_reservationId r) = ex \<or> \<not> in_scope (qs_policy s) r key then 0
                 else contribution_for r d"
  have wf: "js_wf ?m" using assms(1) by (simp add: ledger_keyed_def)
  have "js_sum (?f (Some k)) ?m = js_sum (?f None) ?m - (case js_get ?m k of None \<Rightarrow> 0 | Some w \<Rightarrow> ?f None k w)"
  proof -
    have "js_sum (?f (Some k)) (js_delete ?m k) = js_sum (?f None) (js_delete ?m k)"
      unfolding js_sum_def
    proof (rule arg_cong [where f = sum_list], rule map_cong [OF refl])
      fix x assume x: "x \<in> set (js_delete ?m k)"
      obtain a b where ab: "x = (a, b)" by (cases x)
      with x have "js_get (js_delete ?m k) a = Some b" using wf
        by (metis js_wf_delete js_wf_def map_of_eq_Some_iff)
      then have "js_get ?m a = Some b" "a \<noteq> k" by (auto split: if_splits)
      with assms(1) have "q_reservationId b \<noteq> k" by (auto simp: ledger_keyed_def)
      then show "(case x of (a, r) \<Rightarrow> ?f (Some k) a r) = (case x of (a, r) \<Rightarrow> ?f None a r)"
        by (simp add: ab)
    qed
    moreover have "(case js_get ?m k of None \<Rightarrow> 0 | Some w \<Rightarrow> ?f (Some k) k w) = 0"
      using assms(1) by (auto simp: ledger_keyed_def split: option.splits)
    ultimately show ?thesis using js_sum_delete [OF wf, of "?f (Some k)" k]
        js_sum_delete [OF wf, of "?f None" k] by linarith
  qed
  then show ?thesis using js_sum_set [OF wf, of "?f None" k r]
    by (simp add: usage_for_sum)
qed

lemma usage_for_exclude_le:
  assumes "ledger_keyed s"
  shows "usage_for s key ex d \<le> usage_for s key None d"
proof -
  let ?f = "\<lambda>ex _ r. if Some (q_reservationId r) = ex \<or> \<not> in_scope (qs_policy s) r key then 0
                 else contribution_for r d"
  have "\<forall>(k, r) \<in> set (qs_reservations s). ?f ex k r \<le> ?f None k r"
    using assms by (auto simp: ledger_keyed_def js_wf_def)
  then have "js_sum (?f ex) (qs_reservations s) \<le> js_sum (?f None) (qs_reservations s)"
    unfolding js_sum_def by (intro sum_list_mono) auto
  then show ?thesis by (simp add: usage_for_sum)
qed

lemma usage_for_absent:
  assumes "ledger_keyed s" "js_get (qs_reservations s) k = None"
  shows "usage_for s key (Some k) d = usage_for s key None d"
proof -
  have "\<forall>(a, r) \<in> set (qs_reservations s). q_reservationId r \<noteq> k"
    using assms by (auto simp: ledger_keyed_def js_wf_def)
  then show ?thesis unfolding usage_for_sum js_sum_def
    by (intro arg_cong [where f = sum_list] map_cong) auto
qed

text \<open>Storing a request that passed the search for a denial keeps the invariant.\<close>

lemma store_admitted_inv:
  assumes inv: "quota_inv s" and key: "q_reservationId r = k"
    and pos: "\<And>d. 0 \<le> contribution_for r d"
    and ok: "find_denial s r (Some k) = None"
  shows "quota_inv (s\<lparr>qs_reservations := js_set (qs_reservations s) k r\<rparr>)" (is "quota_inv ?s'")
proof -
  have keyed: "ledger_keyed s" and within: "within_limits s" using inv by (auto simp: quota_inv_def)
  have "ledger_keyed ?s'" using keyed key pos by (auto simp: ledger_keyed_def)
  moreover have "within_limits ?s'"
    unfolding within_limits_def
  proof (intro ballI allI impI)
    fix r' sc d n
    assume r': "r' \<in> set (js_values (qs_reservations ?s'))" and sc: "sc \<in> set (scopes_for r' (qs_policy ?s'))"
      and lim: "sc_limits sc d = Some n"
    let ?u = "usage_for s (sc_key sc) (Some k) d"
    show "usage_for ?s' (sc_key sc) None d \<le> n"
    proof (cases "in_scope (qs_policy s) r (sc_key sc)")
      case True
      then obtain sc' where sc': "sc' \<in> set (scopes_for r (qs_policy s))" "sc_key sc' = sc_key sc"
        by (auto simp: in_scope_def)
      have "sc_limits sc' = sc_limits sc" using scopes_for_key_limits [OF sc'(1), of sc r'] sc sc'(2) by simp
      then have "?u + contribution_for r d \<le> n"
        using ok sc' lim by (auto simp: find_denial_def first_denial_None scope_denial_None)
      then show ?thesis using True usage_for_set [OF keyed key] by simp
    next
      case False
      have "r' \<noteq> r" using False sc by (auto simp: in_scope_def)
      then have "r' \<in> set (js_values (qs_reservations s))"
        using r' js_set_values_subset by (fastforce)
      then have "usage_for s (sc_key sc) None d \<le> n"
        using within sc lim by (auto simp: within_limits_def)
      then show ?thesis using False usage_for_set [OF keyed key, of "sc_key sc" d]
          usage_for_exclude_le [OF keyed, of "sc_key sc" "Some k" d]
        by simp
    qed
  qed
  ultimately show ?thesis by (simp add: quota_inv_def)
qed


lemma fresh_denial:
  assumes "ledger_keyed s" "js_get (qs_reservations s) k = None"
  shows "find_denial s r (Some k) = find_denial s r None"
proof -
  have "(\<lambda>key. usage_for s key (Some k)) = (\<lambda>key. usage_for s key None)"
    using assms by (intro ext) (rule usage_for_absent)
  then show ?thesis by (simp add: find_denial_def)
qed

lemma quota_inv_init: "quota_inv (quota_init policy available)"
  by (simp add: quota_inv_def quota_init_def ledger_keyed_def within_limits_def)

lemma normalize_request_Inr_nonneg: "normalize_request v = Inr r \<Longrightarrow> \<forall>d. 0 \<le> contribution_for r d"
  by (simp add: normalize_request_nonneg)

lemma quota_reserve_inv: "quota_inv s \<Longrightarrow> quota_inv (fst (quota_reserve s now req))"
proof -
  assume inv: "quota_inv s"
  have "quota_inv (s\<lparr>qs_reservations := js_set (qs_reservations s) (q_reservationId n) n\<rparr>)"
    if "normalize_request req = Inr n" "js_get (qs_reservations s) (q_reservationId n) = None"
      "find_denial s n None = None" for n
    using inv that
    by (intro store_admitted_inv) (auto simp: fresh_denial quota_inv_def normalize_request_nonneg)
  with inv show ?thesis
    by (auto simp: quota_reserve_def split: sum.splits option.splits)
qed

lemma quota_transition_inv: "quota_inv s \<Longrightarrow> quota_inv (fst (quota_transition s rid desired))"
proof -
  assume inv: "quota_inv s"
  have "quota_inv (s\<lparr>qs_reservations := js_set (qs_reservations s) rid (c\<lparr>q_desiredState := desired\<rparr>)\<rparr>)"
    if "js_get (qs_reservations s) rid = Some c" "find_denial s (c\<lparr>q_desiredState := desired\<rparr>) (Some rid) = None" for c
    using inv that
    by (intro store_admitted_inv) (auto simp: quota_inv_def ledger_keyed_def contribution_desired_state)
  with inv show ?thesis
    by (auto simp: quota_transition_def Let_def split: option.splits)
qed

lemma usage_for_release_le:
  assumes "ledger_keyed s"
  shows "usage_for (s\<lparr>qs_reservations := js_delete (qs_reservations s) k\<rparr>) key None d \<le> usage_for s key None d"
proof -
  have wf: "js_wf (qs_reservations s)" using assms by (simp add: ledger_keyed_def)
  show ?thesis using assms js_sum_delete [OF wf, of _ k]
    by (auto simp: usage_for_sum ledger_keyed_def split: option.splits)
qed

lemma quota_release_inv: "quota_inv s \<Longrightarrow> quota_inv (fst (quota_release s rid))"
proof -
  assume inv: "quota_inv s"
  let ?s = "s\<lparr>qs_reservations := js_delete (qs_reservations s) rid\<rparr>"
  have keyed: "ledger_keyed s" and keyed': "ledger_keyed ?s"
    using inv by (auto simp: quota_inv_def ledger_keyed_def)
  have "set (js_values (js_delete (qs_reservations s) rid)) \<subseteq> set (js_values (qs_reservations s))"
    by (auto simp: js_values_def js_delete_def AList.delete_eq)
  then have "within_limits ?s"
    using inv order_trans [OF usage_for_release_le [OF keyed]]
    by (auto simp: within_limits_def quota_inv_def)
  with keyed' show ?thesis by (simp add: quota_release_def quota_inv_def)
qed

lemma set_available_inv: "quota_inv s \<Longrightarrow> quota_inv (set_available s b)"
  by (simp add: quota_inv_def set_available_def ledger_keyed_def within_limits_def usage_for_def)

section \<open>Runs of the ledger\<close>

datatype quota_op =
    OpReserve instant js_val
  | OpTransition string quota_desired_state
  | OpRelease string
  | OpSetAvailable bool

fun quota_step :: "quota_state \<Rightarrow> quota_op \<Rightarrow> quota_state" where
  "quota_step s (OpReserve now request) = fst (quota_reserve s now request)"
| "quota_step s (OpTransition rid desired) = fst (quota_transition s rid desired)"
| "quota_step s (OpRelease rid) = fst (quota_release s rid)"
| "quota_step s (OpSetAvailable b) = set_available s b"

definition quota_run :: "quota_state \<Rightarrow> quota_op list \<Rightarrow> quota_state" where
  "quota_run s ops = foldl quota_step s ops"

interpretation quota: machine quota_step "\<lambda>s. \<exists>policy b. s = quota_init policy b" quota_inv
proof unfold_locales
  show "\<exists>policy b. s = quota_init policy b \<Longrightarrow> quota_inv s" for s
    by (auto simp: quota_inv_init)
  show "quota_inv s \<Longrightarrow> quota_inv (quota_step s e)" for s e
    by (cases e) (simp_all add: quota_reserve_inv quota_transition_inv quota_release_inv set_available_inv)
qed

lemma quota_run_inv: "quota_inv (quota_run (quota_init policy available) ops)"
  unfolding quota_run_def by (rule quota.run_inv) blast

section \<open>Behaviour of the operations\<close>

lemma normalize_request_error: "normalize_request v = Inl e \<Longrightarrow> e = quota_conflict"
  by (auto simp: normalize_request_def rbind_Inl_iff positive_integer_def non_negative_integer_def
      optional_non_negative_def desired_state_value_def Let_def split: option.splits if_splits)

lemma reserve_absent:
  "js_get (qs_reservations s) (q_reservationId n) = None \<Longrightarrow> normalize_request req = Inr n \<Longrightarrow>
   snd (quota_reserve s now req) =
     (if \<not> qs_available s then Inl (QuotaError QuotaUnavailable None None)
      else case find_denial s n None of
        Some (d, sc) \<Rightarrow> Inl (QuotaError QuotaExceeded (Some d) (Some sc))
      | None \<Rightarrow> Inr (reservation_snapshot n now))"
  by (simp add: quota_reserve_def split: option.splits)

lemma find_denial_within:
  assumes inv: "quota_inv s" and key: "js_get (qs_reservations s) k = Some c"
  shows "find_denial s (c\<lparr>q_desiredState := QStopped\<rparr>) (Some k) = None"
proof -
  have keyed: "ledger_keyed s" and within: "within_limits s" using inv by (auto simp: quota_inv_def)
  have c: "q_reservationId c = k" using keyed key by (auto simp: ledger_keyed_def)
  have same: "js_set (qs_reservations s) k c = qs_reservations s"
    using key by (simp add: js_set_def AList.update_triv)
  have "usage_for s (sc_key sc) (Some k) d + contribution_for (c\<lparr>q_desiredState := QStopped\<rparr>) d \<le> n"
    if sc: "sc \<in> set (scopes_for c (qs_policy s))" and n: "sc_limits sc d = Some n" for sc d n
  proof -
    have "usage_for s (sc_key sc) None d = usage_for s (sc_key sc) (Some k) d + contribution_for c d"
      using usage_for_set [OF keyed c, of "sc_key sc" d] sc by (auto simp: same in_scope_def)
    moreover have "usage_for s (sc_key sc) None d \<le> n"
      using within key sc n by (auto simp: within_limits_def dest: js_get_in_values)
    moreover have "contribution_for (c\<lparr>q_desiredState := QStopped\<rparr>) d \<le> contribution_for c d"
      by (cases d) auto
    ultimately show ?thesis by linarith
  qed
  then show ?thesis by (auto simp: find_denial_def first_denial_None scope_denial_None)
qed

text \<open>The totals of the snapshot, scope by scope.\<close>

lemma snapshot_scopes:
  "distinct (map sc_key scs) \<Longrightarrow>
   js_get (fold (\<lambda>sc res. snapshot_add c res (sc_key sc)) scs m) key =
     (if key \<in> sc_key ` set scs
      then Some (add_usage (case js_get m key of None \<Rightarrow> empty_usage | Some u \<Rightarrow> u) c)
      else js_get m key)"
  by (induction scs arbitrary: m) (auto simp: snapshot_add_def)

lemma snapshot_fold:
  "js_get (fold (\<lambda>r result. fold (\<lambda>sc res. snapshot_add (contribution_for r) res (sc_key sc))
       (scopes_for r p) result) rs m) key =
     (if (\<exists>r \<in> set rs. in_scope p r key) \<or> js_get m key \<noteq> None
      then Some (\<lambda>d. (case js_get m key of None \<Rightarrow> 0 | Some u \<Rightarrow> u d)
              + (\<Sum>r \<leftarrow> rs. if in_scope p r key then contribution_for r d else 0))
      else None)"
proof (induction rs arbitrary: m)
  case (Cons r rs)
  have mem: "key \<in> sc_key ` set (scopes_for r p) \<longleftrightarrow> in_scope p r key" by (auto simp: in_scope_def)
  show ?case
    by (simp add: Cons.IH snapshot_scopes [OF scopes_for_distinct] mem)
      (auto simp: empty_usage_def fun_eq_iff split: option.splits)
qed (auto split: option.splits)

section \<open>Properties\<close>

text \<open>C2: whatever sequence of reservations, state changes, releases and availability
  changes an initially empty ledger serves, for every reservation in it and every scope of
  the policy that applies to it, the declared amounts in that scope add up to at most the
  limit of each limited dimension.\<close>

theorem quota_limits_never_exceeded:
  "within_limits (quota_run (quota_init policy available) ops)"
  using quota_run_inv by (simp add: quota_inv_def)

text \<open>C37: \<open>admit\<close> predicts \<open>reserve\<close> on every branch: it answers admitted exactly when a
  reservation under that id would be returned, denied with the dimension and scope of the
  error \<open>reserve\<close> would throw, unavailable exactly when \<open>reserve\<close> would throw
  \<open>quota_unavailable\<close>, and throws the same conflict.\<close>

theorem quota_admit_predicts_reserve:
  "(quota_admit s req = Inr (Admitted rid) \<longleftrightarrow> (\<exists>r. snd (quota_reserve s now req) = Inr r \<and> qr_id r = rid)) \<and>
   ((\<exists>rid. quota_admit s req = Inr (Denied rid d sc)) \<longleftrightarrow>
      snd (quota_reserve s now req) = Inl (QuotaError QuotaExceeded (Some d) (Some sc))) \<and>
   ((\<exists>rid. quota_admit s req = Inr (Unavailable rid)) \<longleftrightarrow>
      snd (quota_reserve s now req) = Inl (QuotaError QuotaUnavailable None None)) \<and>
   (quota_admit s req = Inl quota_conflict \<longleftrightarrow> snd (quota_reserve s now req) = Inl quota_conflict)"
proof (cases "normalize_request req")
  case (Inl e)
  then have "e = quota_conflict" by (rule normalize_request_error)
  with Inl show ?thesis by (simp add: quota_admit_def quota_reserve_def quota_conflict_def)
next
  case (Inr n)
  show ?thesis
  proof (cases "js_get (qs_reservations s) (q_reservationId n)")
    case None
    with Inr show ?thesis
      by (auto simp: quota_admit_def reserve_absent reservation_snapshot_def quota_conflict_def
          split: option.splits)
  next
    case (Some existing)
    with Inr show ?thesis
      by (auto simp: quota_admit_def quota_reserve_def same_request_def reservation_snapshot_def quota_conflict_def)
  qed
qed

text \<open>Reserving is idempotent: after a successful \<open>reserve\<close>, repeating it with the same
  request changes nothing and returns the same reservation, stamped anew, even when the
  ledger has become unavailable or full in the meantime.\<close>

theorem quota_reserve_idempotent:
  assumes "quota_reserve s now req = (s', Inr r)"
  shows "quota_reserve (set_available s' b) now' req =
    (set_available s' b, Inr (r\<lparr>qr_reservedAt := now'\<rparr>))"
  using assms
  by (auto simp: quota_reserve_def set_available_def same_request_def reservation_snapshot_def
      split: sum.splits option.splits if_splits)

definition sample_quota_request :: js_val where
  "sample_quota_request = JObj [(''reservationId'', JStr ''r1''), (''userId'', JStr ''u1''),
     (''providerId'', JStr ''docker''), (''desiredState'', JStr ''running''),
     (''cpuMillis'', JInt 2000), (''memoryBytes'', JInt 4096), (''pidsLimit'', JInt 64)]"

definition sample_quota_policy :: quota_policy where
  "sample_quota_policy = \<lparr>qp_global = Some ((\<lambda>_. None)(RunningInstances := Some 1)),
     qp_tenants = None, qp_users = None, qp_providers = None\<rparr>"

lemmas quota_eval = quota_init_def quota_reserve_def normalize_request_def identifier_value_def
  js_trim_def js_space_def js_control_def desired_state_value_def positive_integer_def
  optional_non_negative_def max_safe_integer_def find_denial_def scopes_for_def scope_in_def
  scope_denial_def usage_for_def empty_usage_def DIMENSIONS_def reservation_snapshot_def
  sample_quota_request_def sample_quota_policy_def js_set_def

theorem quota_reserve_idempotent_witness:
  "\<exists>s' r. quota_reserve (quota_init sample_quota_policy True) 5 sample_quota_request = (s', Inr r) \<and>
     quota_reserve (set_available s' False) 9 sample_quota_request =
       (set_available s' False, Inr (r\<lparr>qr_reservedAt := 9\<rparr>))"
proof -
  obtain s' r where h: "quota_reserve (quota_init sample_quota_policy True) 5 sample_quota_request = (s', Inr r)"
    by (simp add: quota_eval)
  then show ?thesis using quota_reserve_idempotent [OF h, of False 9] by blast
qed

text \<open>Stopping a reserved instance is never refused for quota: in any reachable ledger
  that is available, a transition to stopped throws nothing and answers whether the
  reservation exists.\<close>

theorem quota_stop_never_denied:
  assumes "s = quota_run (quota_init policy available) ops" and "qs_available s"
  shows "snd (quota_transition s rid QStopped) = Inr (js_has (qs_reservations s) rid)"
  using assms quota_run_inv [of policy available ops] find_denial_within
  by (auto simp: quota_transition_def js_has_def Let_def split: option.splits)

theorem quota_stop_never_denied_witness:
  "let s = quota_run (quota_init sample_quota_policy True) [OpReserve 5 sample_quota_request]
   in snd (quota_transition s ''r1'' QStopped) = Inr True"
proof -
  let ?s = "quota_run (quota_init sample_quota_policy True) [OpReserve 5 sample_quota_request]"
  have "qs_available ?s" "js_has (qs_reservations ?s) ''r1''"
    by (simp_all add: quota_run_def quota_eval js_has_def)
  then show ?thesis using quota_stop_never_denied [OF refl, of sample_quota_policy True "[OpReserve 5 sample_quota_request]" "''r1''"]
    by simp
qed

text \<open>The monitoring snapshot reports exactly the totals that admission compares with
  the limits: for every scope key it holds the usage of that scope when some reservation
  falls in it, and nothing otherwise.\<close>

theorem quota_snapshot_is_usage:
  "js_get (quota_snapshot s) key =
     (if \<exists>r \<in> set (js_values (qs_reservations s)). in_scope (qs_policy s) r key
      then Some (usage_for s key None) else None)"
proof -
  have "(\<Sum>r \<leftarrow> js_values (qs_reservations s). if in_scope (qs_policy s) r key then contribution_for r d else 0) =
      usage_for s key None d" for d
    unfolding usage_for_sum js_sum_def js_values_def
    by (auto simp: o_def intro!: arg_cong [where f = sum_list] map_cong)
  then show ?thesis
    by (simp add: quota_snapshot_def snapshot_fold)
qed

end
