(* ===== verification/Models.thy ===== *)
theory Models
  imports Js_Prelude
begin

text \<open>
  The data of the control plane, one record per interface and one datatype per union of
  literals: \<open>backend/src/models.ts\<close>, \<open>workspace-execution.ts\<close>, \<open>monitoring-types.ts\<close>,
  \<open>admin-operations.ts\<close>, \<open>upgrade-rollouts.ts\<close>, \<open>instance-upgrade-activity.ts\<close> and
  \<open>packages/contracts/src/build.ts\<close>. A field that may be null or absent is an option (the
  code reads both with \<open>?? null\<close>). Stamps the program makes are instants; the activity
  stamp of a container is a \<open>stamp\<close>, since the code guards against texts it cannot parse.
  Every record's fields carry a prefix, because field names are global.
\<close>

section \<open>Users, sessions and tenants\<close>

datatype user_role = UserR | AdminR | SuperAdminR

record user =
  u_id :: string
  u_email :: string
  u_role :: user_role
  u_createdAt :: instant
  u_appInitializedAt :: "instant option"

text \<open>An \<open>AuthMethod\<close> is an open union of strings.\<close>

type_synonym auth_method = string

record session =
  s_userId :: string
  s_expiresAt :: instant
  s_authMethod :: auth_method

record account_auth_state =
  as_hasLocalCredential :: bool
  as_externalProviders :: "string list"

record authenticated_user =
  au_user :: user
  au_authMethod :: auth_method
  au_passwordSetupRequired :: bool
  au_linkedProviders :: "string list"

datatype role_update_code =
    CredentialUpdateConflict | LastSuperAdminCannotBeDemoted | LocalCredentialsRequired
  | RoleChangeConflict | SelfRoleChangeForbidden | SuperAdminRequired | TargetRoleNotManageable

record role_change_input =
  rc_actorUserId :: string
  rc_targetUserId :: string
  rc_expectedRole :: user_role
  rc_role :: user_role
  rc_passwordHash :: "string option"

record managed_user_input =
  mu_actorUserId :: string
  mu_email :: string
  mu_passwordHash :: string
  mu_role :: user_role

datatype tenant_kind = Personal | Organization
datatype membership_role = TenantOwner | TenantAdmin | TenantMember

record tenant =
  t_id :: string
  t_kind :: tenant_kind
  t_name :: string
  t_createdAt :: instant
  t_updatedAt :: instant

record membership =
  tm_tenantId :: string
  tm_userId :: string
  tm_role :: membership_role
  tm_createdAt :: instant
  tm_updatedAt :: instant

record workspace_binding =
  wb_workspaceId :: string
  wb_tenantId :: string
  wb_ownerId :: string
  wb_createdAt :: instant
  wb_updatedAt :: instant

section \<open>Configuration\<close>

datatype config_effect = Immediate | NewInstances | Restart | Rebuild

record config_revision =
  cr_key :: string
  cr_revision :: nat
  cr_updatedBy :: string
  cr_updatedAt :: instant
  cr_effect :: config_effect
  cr_effectiveAt :: "instant option"

text \<open>In the input, an absent \<open>effectiveAt\<close> differs from a null one.\<close>

record config_input =
  ci_updatedBy :: "string option"
  ci_effect :: "config_effect option"
  ci_effectiveAt :: "instant option option"
  ci_expectedRevision :: "nat option"
  ci_payload :: js_val

record config_snapshot =
  cs_revision :: config_revision
  cs_payload :: js_val

record forwarding_policy =
  fp_id :: string
  fp_name :: string
  fp_targetBaseUrl :: string
  fp_allowedHosts :: "string list"
  fp_enabled :: bool
  fp_updatedBy :: string
  fp_updatedAt :: instant

section \<open>Containers\<close>

datatype container_status = Creating | Running | Stopped | Failed
datatype stop_reason = StopIdle | StopManualUser | StopManualAdmin | StopFailure

record container =
  c_id :: string
  c_userId :: string
  c_appId :: string
  c_providerId :: "string option"
  c_runtimeId :: string
  c_status :: container_status
  c_endpoint :: "string option"
  c_stopReason :: "stop_reason option"
  c_createdAt :: instant
  c_updatedAt :: instant
  c_lastActivityAt :: stamp
  c_appVersionId :: "string option"
  c_imageArtifactId :: "string option"
  c_imageReference :: "string option"

section \<open>Workspaces and their executions\<close>

datatype workspace_status = WsActive | WsDeleting | WsDeleted
datatype deletion_phase =
    PhDraining | PhRemovingEnvironments | PhVerifyingReferences | PhReleasingStorage
  | PhFinalizing | PhDeleted
datatype execution_role = RoleActive | RoleCandidate | RolePrevious | RoleRetired
datatype desired_state = WantRunning | WantStopped
datatype observed_state = ObsAbsent | ObsUnknown | Obs container_status
datatype transaction_status =
    TxRequested | TxProgressing | TxApplied | TxAwaitingFirstStart | TxRolledBack | TxFailed
  | TxInconsistent

record workspace =
  w_id :: string
  w_ownerId :: string
  w_appId :: string
  w_appRevisionId :: "string option"
  w_storageRefId :: string
  w_activeExecutionId :: "string option"
  w_status :: workspace_status
  w_deletionTransactionId :: "string option"
  w_deletionPhase :: "deletion_phase option"
  w_deletionFailure :: "string option"
  w_deletedAt :: "instant option"
  w_createdAt :: instant
  w_updatedAt :: instant

record execution =
  x_id :: string
  x_workspaceId :: string
  x_role :: execution_role
  x_providerId :: string
  x_environmentRef :: "string option"
  x_desiredGeneration :: int
  x_deployedGeneration :: int
  x_healthyGeneration :: "int option"
  x_transactionId :: "string option"
  x_transactionStatus :: transaction_status
  x_desiredState :: desired_state
  x_observedState :: observed_state
  x_desiredAppRevisionId :: "string option"
  x_desiredLaunchArtifactId :: "string option"
  x_desiredLaunchArtifactReference :: "string option"
  x_launchArtifactId :: "string option"
  x_launchArtifactReference :: "string option"
  x_revision :: int
  x_legacyEndpoint :: "string option"
  x_stopReason :: "stop_reason option"
  x_lastActivityAt :: stamp
  x_retiredAt :: "instant option"
  x_updatedAt :: instant

record projection =
  p_workspace :: workspace
  p_execution :: execution
  p_runtimeId :: string
  p_status :: container_status

section \<open>Applications, versions and builds\<close>

datatype app_status = AppActive | AppArchived

record app_definition =
  app_id :: string
  app_name :: string
  app_description :: string
  app_authAdapterId :: string
  app_status :: app_status
  app_createdAt :: instant
  app_updatedAt :: instant

datatype version_status = VLegacy | VUploaded | VImageReady | VActive | VArchived

record app_artifact =
  aa_file :: string
  aa_sha256 :: string
  aa_size :: int

record build_package_ref =
  bp_key :: string
  bp_artifact :: app_artifact
  bp_packageId :: "string option"

datatype source_kind = FromPackages | FromImage

record app_version =
  v_sourceKind :: "source_kind option"
  v_id :: string
  v_appId :: string
  v_revision :: "nat option"
  v_version :: string
  v_buildId :: string
  v_packages :: "build_package_ref list option"
  v_imageArtifactId :: "string option"
  v_imageReference :: "string option"
  v_runtimeContract :: "string option"
  v_status :: version_status
  v_createdAt :: instant
  v_activatedAt :: "instant option"

record package_requirement =
  pq_key :: string
  pq_required :: bool
  pq_acceptedExtensions :: "string list"
  pq_maxBytes :: "int option"

datatype strategy_status = StrategyActive | StrategyArchived

record build_strategy =
  bs_id :: string
  bs_revision :: nat
  bs_name :: string
  bs_description :: string
  bs_runtimeContract :: string
  bs_packageRequirements :: "package_requirement list"
  bs_status :: strategy_status
  bs_createdAt :: instant
  bs_updatedAt :: instant

record build_package =
  pk_id :: string
  pk_strategyId :: string
  pk_key :: string
  pk_artifact :: app_artifact
  pk_originalName :: string
  pk_storageKey :: string
  pk_uploadedBy :: string
  pk_sourceVersion :: "string option"
  pk_sourceBuildId :: "string option"
  pk_inspectedAt :: "instant option"
  pk_createdAt :: instant

datatype image_build_status = BQueued | BBuilding | BSucceeded | BFailed | BCancelled

record image_build =
  ib_id :: string
  ib_strategyId :: string
  ib_strategySnapshot :: build_strategy
  ib_operationId :: "string option"
  ib_sourceAppVersionId :: "string option"
  ib_requestedBy :: string
  ib_packages :: "build_package_ref list"
  ib_status :: image_build_status
  ib_error :: "string option"
  ib_createdAt :: instant
  ib_startedAt :: "instant option"
  ib_finishedAt :: "instant option"

record image_artifact =
  ia_id :: string
  ia_buildId :: string
  ia_imageReference :: string
  ia_imageId :: string
  ia_runtimeContract :: string
  ia_createdAt :: instant

section \<open>Administrative operations\<close>

datatype operation_status = OQueued | ORunning | OSucceeded | OFailed | OCancelled

record operation =
  o_id :: string
  o_revision :: nat
  o_type :: string
  o_status :: operation_status
  o_progress :: int
  o_stage :: string
  o_actorUserId :: string
  o_resourceType :: string
  o_resourceId :: "string option"
  o_requestId :: string
  o_idempotencyKey :: "string option"
  o_requestFingerprint :: "string option"
  o_retryOf :: "string option"
  o_cancellable :: bool
  o_retryable :: bool
  o_result :: js_val
  o_error :: "string option"
  o_createdAt :: instant
  o_startedAt :: "instant option"
  o_heartbeatAt :: "instant option"
  o_finishedAt :: "instant option"

section \<open>Audit and samples\<close>

record audit_event =
  ae_id :: string
  ae_actorUserId :: "string option"
  ae_action :: string
  ae_resourceType :: string
  ae_resourceId :: "string option"
  ae_metadata :: js_val
  ae_createdAt :: instant

section \<open>Upgrade rollouts\<close>

datatype rollout_status = RRunning | RSucceeded | RPartialFailed | RCancelled | RNeedsAttention
datatype task_kind = ImageUpgrade | RebuildSameImage | ApplyResourcePolicy | InstanceRecovery
datatype item_status =
    IQueued | IAssessing | IWaitingForIdle | IDraining | IRebuilding | IVerifying
  | IAwaitingFirstStart | ISucceeded | ISuperseded | IFailed | ICancelled | INeedsAttention

record rollout =
  r_id :: string
  r_revision :: nat
  r_actorUserId :: string
  r_status :: rollout_status
  r_taskKind :: task_kind
  r_useLatestVersion :: bool
  r_requested :: nat
  r_completed :: nat
  r_succeeded :: nat
  r_superseded :: "nat option"
  r_failed :: nat
  r_waiting :: nat
  r_upgrading :: nat
  r_needsAttention :: nat
  r_idempotencyKey :: "string option"
  r_requestFingerprint :: string
  r_createdAt :: instant
  r_updatedAt :: instant
  r_finishedAt :: "instant option"

record launch_profile =
  lp_imageReference :: string
  lp_memory :: string
  lp_cpus :: string
  lp_pidsLimit :: int
  lp_environment :: "(string, string) js_map"
  lp_configFiles :: "(string \<times> string) list"

record rollout_item =
  i_rolloutId :: string
  i_instanceId :: string
  i_position :: nat
  i_revision :: nat
  i_userId :: string
  i_appId :: string
  i_sourceStatus :: container_status
  i_desiredState :: desired_state
  i_sourceAppVersionId :: "string option"
  i_sourceImageArtifactId :: "string option"
  i_sourceImageReference :: "string option"
  i_targetAppVersionId :: "string option"
  i_targetImageArtifactId :: "string option"
  i_targetImageReference :: string
  i_targetRuntimeContract :: "string option"
  i_launchProfile :: launch_profile
  i_recovery :: bool
  i_diagnostics :: "js_val option"
  i_status :: item_status
  i_blocker :: "string option"
  i_error :: "string option"
  i_forceRequested :: bool
  i_attemptId :: "string option"
  i_attemptCount :: nat
  i_nextAttemptAt :: "instant option"
  i_lastCheckedAt :: "instant option"
  i_startedAt :: "instant option"
  i_finishedAt :: "instant option"
  i_createdAt :: instant
  i_updatedAt :: instant

section \<open>Activity leases and drains\<close>

datatype activity_kind = Http | WebSocket
datatype drain_mode = Graceful | Force

record activity_lease =
  l_id :: string
  l_instanceId :: string
  l_kind :: activity_kind
  l_openedAt :: instant
  l_heartbeatAt :: instant
  l_lastActivityAt :: instant

record drain =
  d_rolloutId :: string
  d_attemptId :: string
  d_expiresAt :: instant

record drain_request =
  dr_instanceId :: string
  dr_rolloutId :: string
  dr_attemptId :: string
  dr_at :: instant
  dr_expiresAt :: instant
  dr_heartbeatCutoff :: instant
  dr_websocketActivityCutoff :: instant
  dr_mode :: drain_mode

end
