(* ===== verification/Memory_Store.thy ===== *)
theory Memory_Store
  imports Models
begin

text \<open>
  The state of the in-memory persistence adapter, \<open>backend/src/persistence/memory.ts\<close>: one
  map per \<open>#field\<close> of \<open>MemoryPersistence\<close>, keyed as in the code, and the helper functions at
  the end of that file. Methods of the adapter read and write these maps without waiting in
  between (the few that wait are modelled step by step where they matter), so a method is
  one step on this state; it returns copies (\<open>structuredClone\<close>), so values suffice.
  The sample and health-check buffers are left out: only monitoring reads them.
\<close>

record mem =
  m_users :: "(string, user) js_map"
  m_sessions :: "(string, session) js_map"
  m_identities :: "(string, string) js_map"
  m_localPasswordHashes :: "(string, string) js_map"
  m_containers :: "(string, container) js_map"
  m_workspaceExecutions :: "(string, projection) js_map"
  m_apps :: "(string, app_definition) js_map"
  m_appVersions :: "(string, app_version) js_map"
  m_buildStrategies :: "(string, build_strategy) js_map"
  m_buildPackages :: "(string, build_package) js_map"
  m_imageBuilds :: "(string, image_build) js_map"
  m_imageArtifacts :: "(string, image_artifact) js_map"
  m_forwardingPolicies :: "(string, forwarding_policy) js_map"
  m_configRevisions :: "(string, config_revision) js_map"
  m_configHistory :: "(string, config_snapshot list) js_map"
  m_auditEvents :: "audit_event list"
  m_operations :: "(string, operation) js_map"
  m_upgradeRollouts :: "(string, rollout) js_map"
  m_upgradeRolloutItems :: "(string, rollout_item) js_map"
  m_activityLeases :: "(string, activity_lease) js_map"
  m_drains :: "(string, drain) js_map"
  m_tenants :: "(string, tenant) js_map"
  m_tenantMemberships :: "(string, membership) js_map"
  m_workspaceTenantBindings :: "(string, workspace_binding) js_map"

definition initial_config_revision :: "string \<Rightarrow> config_revision" where
  "initial_config_revision key =
     \<lparr>cr_key = key, cr_revision = 0, cr_updatedBy = ''system'', cr_updatedAt = 0,
      cr_effect = Immediate, cr_effectiveAt = Some 0\<rparr>"

definition empty_mem :: mem where
  "empty_mem = \<lparr>
     m_users = [], m_sessions = [], m_identities = [], m_localPasswordHashes = [],
     m_containers = [], m_workspaceExecutions = [], m_apps = [], m_appVersions = [],
     m_buildStrategies = [], m_buildPackages = [], m_imageBuilds = [], m_imageArtifacts = [],
     m_forwardingPolicies = [],
     m_configRevisions =
       [(''instance-policy'', initial_config_revision ''instance-policy''),
        (''forwarding:default'', initial_config_revision ''forwarding:default'')],
     m_configHistory = [], m_auditEvents = [], m_operations = [], m_upgradeRollouts = [],
     m_upgradeRolloutItems = [], m_activityLeases = [], m_drains = [], m_tenants = [],
     m_tenantMemberships = [], m_workspaceTenantBindings = []\<rparr>"

section \<open>Helper functions\<close>

definition identity_key :: "string \<Rightarrow> string \<Rightarrow> string" where
  "identity_key provider subject = provider @ '':'' @ js_trim subject"

definition tenant_membership_key :: "string \<Rightarrow> string \<Rightarrow> string" where
  "tenant_membership_key tenantId userId = tenantId @ '':'' @ userId"

definition is_tenant_owner_role :: "membership_role \<Rightarrow> bool" where
  "is_tenant_owner_role role \<longleftrightarrow> role = TenantOwner \<or> role = TenantAdmin"

definition upgrade_item_key :: "string \<Rightarrow> string \<Rightarrow> string" where
  "upgrade_item_key rolloutId instanceId = rolloutId @ '':'' @ instanceId"

definition retains_rollout_target :: "rollout_item \<Rightarrow> bool" where
  "retains_rollout_target item \<longleftrightarrow>
     i_status item \<noteq> ISucceeded \<and> i_status item \<noteq> ISuperseded \<and> i_status item \<noteq> ICancelled"

definition is_supersedable_item :: "rollout_item \<Rightarrow> task_kind option \<Rightarrow> bool" where
  "is_supersedable_item item taskKind \<longleftrightarrow>
     i_status item = IAwaitingFirstStart
     \<or> (taskKind = Some ImageUpgrade
        \<and> i_status item = INeedsAttention
        \<and> i_blocker item = Some ''candidate_first_start_proof_missing'')"

definition latest_timestamp :: "stamp \<Rightarrow> stamp \<Rightarrow> stamp" where
  "latest_timestamp left right =
     (case date_parse left of
        None \<Rightarrow> right
      | Some l \<Rightarrow> (case date_parse right of
          None \<Rightarrow> left
        | Some r \<Rightarrow> if r > l then right else left))"

definition clamp_limit :: "js_num \<Rightarrow> nat" where
  "clamp_limit v = (case v of NotFinite \<Rightarrow> 60 | Finite q \<Rightarrow> nat (max 1 (min 500 \<lfloor>q\<rfloor>)))"

definition clamp_offset :: "js_num option \<Rightarrow> nat" where
  "clamp_offset v = (case v of Some (Finite q) \<Rightarrow> nat (max 0 \<lfloor>q\<rfloor>) | _ \<Rightarrow> 0)"

text \<open>\<open>[...].sort((left, right) => right.k.localeCompare(left.k))\<close> on stamps: stable, newest first.\<close>

definition newest_first :: "('a \<Rightarrow> instant) \<Rightarrow> 'a list \<Rightarrow> 'a list" where
  "newest_first f xs = sort_key (\<lambda>x. - f x) xs"

lemma latest_timestamp_instants [simp]:
  "latest_timestamp (Instant a) (Instant b) = Instant (max a b)"
  by (simp add: latest_timestamp_def max_def)

lemma clamp_limit_bounds: "1 \<le> clamp_limit v \<and> clamp_limit v \<le> 500"
  by (cases v) (auto simp: clamp_limit_def le_nat_iff nat_le_iff)

lemma set_newest_first [simp]: "set (newest_first f xs) = set xs"
  by (simp add: newest_first_def)

end
