(* ===== verification/Workspace_Model.thy ===== *)
theory Workspace_Model
  imports Models
begin

text \<open>
  The two representations of a workspace, \<open>backend/src/workspace-execution-model.ts\<close> and the
  identifiers of \<open>workspace-execution.ts\<close>: the legacy \<open>Container\<close> row, and the projection of a
  workspace, its execution and the compatibility part. \<open>project_container\<close> and
  \<open>project_execution\<close> translate between them; \<open>assert_transition\<close> says which projection may
  replace which. Lemmas: the round trip, and that permitted replacement is a preorder along
  which generations and the deletion state only advance.
\<close>

datatype workspace_error =
    ProjectionMismatch | GenerationRollback | CasRequired | ProjectionMissing

section \<open>Identifiers\<close>

definition workspace_execution_id :: "string \<Rightarrow> string \<Rightarrow> string" where
  "workspace_execution_id workspaceId providerId = workspaceId @ '':'' @ providerId"

definition workspace_storage_ref_id :: "string \<Rightarrow> string" where
  "workspace_storage_ref_id workspaceId = ''workspace-storage:'' @ workspaceId"

definition legacy_import_transaction_id :: "string \<Rightarrow> string" where
  "legacy_import_transaction_id workspaceId = ''legacy-import:'' @ workspaceId"

definition ascii_lower :: "char \<Rightarrow> bool" where
  "ascii_lower c = (let n = (of_char c :: nat) in 97 \<le> n \<and> n \<le> 122)"

definition ascii_digit :: "char \<Rightarrow> bool" where
  "ascii_digit c = (let n = (of_char c :: nat) in 48 \<le> n \<and> n \<le> 57)"

text \<open>\<open>/^[a-z][a-z0-9._-]{0,63}$/u\<close>.\<close>

definition valid_provider_id :: "string \<Rightarrow> bool" where
  "valid_provider_id s = (case s of [] \<Rightarrow> False
     | c # cs \<Rightarrow> ascii_lower c \<and> length cs \<le> 63 \<and>
         (\<forall>x \<in> set cs. ascii_lower x \<or> ascii_digit x \<or> x \<in> set ''._-''))"

definition normalize_provider_id :: "string option \<Rightarrow> (workspace_error, string) res" where
  "normalize_provider_id value =
     (let trimmed = (case value of None \<Rightarrow> [] | Some v \<Rightarrow> js_lower (js_trim v));
          normalized = (if trimmed = [] then ''docker'' else trimmed)
      in if valid_provider_id normalized then Inr normalized else Inl ProjectionMismatch)"

section \<open>From a container row to a projection\<close>

definition pending_runtime :: "string \<Rightarrow> string option" where
  "pending_runtime runtimeId = (if runtimeId = ''pending'' then None else Some runtimeId)"

definition project_container :: "container \<Rightarrow> (workspace_error, projection) res" where
  "project_container c =
     rbind (normalize_provider_id (c_providerId c)) (\<lambda>providerId.
       let executionId = workspace_execution_id (c_id c) providerId;
           desired = (if c_status c = Stopped then WantStopped else WantRunning);
           deployed = (if c_status c = Creating then 0 else 1);
           txStatus = (if c_status c = Creating then TxProgressing
                       else if c_status c = Failed then TxFailed else TxApplied)
       in Inr \<lparr>
         p_workspace = \<lparr>
           w_id = c_id c, w_ownerId = c_userId c, w_appId = c_appId c,
           w_appRevisionId = c_appVersionId c,
           w_storageRefId = workspace_storage_ref_id (c_id c),
           w_activeExecutionId = Some executionId, w_status = WsActive,
           w_deletionTransactionId = None, w_deletionPhase = None, w_deletionFailure = None,
           w_deletedAt = None, w_createdAt = c_createdAt c, w_updatedAt = c_updatedAt c\<rparr>,
         p_execution = \<lparr>
           x_id = executionId, x_workspaceId = c_id c, x_role = RoleActive,
           x_providerId = providerId, x_environmentRef = pending_runtime (c_runtimeId c),
           x_desiredGeneration = 1, x_deployedGeneration = deployed,
           x_healthyGeneration = (if c_status c = Running then Some 1 else None),
           x_transactionId = Some (legacy_import_transaction_id (c_id c)),
           x_transactionStatus = txStatus, x_desiredState = desired,
           x_observedState = Obs (c_status c),
           x_desiredAppRevisionId = c_appVersionId c,
           x_desiredLaunchArtifactId = c_imageArtifactId c,
           x_desiredLaunchArtifactReference = c_imageReference c,
           x_launchArtifactId = c_imageArtifactId c,
           x_launchArtifactReference = c_imageReference c,
           x_revision = 1, x_legacyEndpoint = c_endpoint c, x_stopReason = c_stopReason c,
           x_lastActivityAt = c_lastActivityAt c, x_retiredAt = None,
           x_updatedAt = c_updatedAt c\<rparr>,
         p_runtimeId = c_runtimeId c, p_status = c_status c\<rparr>)"

section \<open>From a projection to a container row\<close>

definition valid_deletion_state :: "workspace \<Rightarrow> bool" where
  "valid_deletion_state w =
     (if w_status w = WsActive then
        w_deletionTransactionId w = None \<and> w_deletionPhase w = None \<and>
        w_deletionFailure w = None \<and> w_deletedAt w = None
      else if \<not> js_truthy (w_deletionTransactionId w) \<or> w_deletionPhase w = None then False
      else if w_status w = WsDeleting then
        w_deletionPhase w \<noteq> Some PhDeleted \<and> w_deletedAt w = None
      else w_deletionPhase w = Some PhDeleted \<and> w_deletedAt w \<noteq> None)"

definition active_shape :: "projection \<Rightarrow> bool" where
  "active_shape p \<longleftrightarrow>
     w_status (p_workspace p) \<noteq> WsDeleted
     \<and> w_activeExecutionId (p_workspace p) = Some (x_id (p_execution p))
     \<and> x_role (p_execution p) = RoleActive
     \<and> x_environmentRef (p_execution p) = pending_runtime (p_runtimeId p)"

definition deleted_shape :: "projection \<Rightarrow> bool" where
  "deleted_shape p \<longleftrightarrow>
     w_status (p_workspace p) = WsDeleted
     \<and> w_activeExecutionId (p_workspace p) = None
     \<and> x_role (p_execution p) = RoleRetired
     \<and> x_environmentRef (p_execution p) = None
     \<and> x_observedState (p_execution p) = ObsAbsent
     \<and> p_runtimeId p = ''deleted''
     \<and> p_status p = Stopped"

definition projection_valid :: "projection \<Rightarrow> bool" where
  "projection_valid p \<longleftrightarrow>
     (active_shape p \<or> deleted_shape p)
     \<and> x_workspaceId (p_execution p) = w_id (p_workspace p)
     \<and> valid_provider_id (x_providerId (p_execution p))
     \<and> \<not> (w_status (p_workspace p) \<noteq> WsDeleted \<and> x_observedState (p_execution p) \<noteq> Obs (p_status p))
     \<and> \<not> x_desiredGeneration (p_execution p) < x_deployedGeneration (p_execution p)
     \<and> \<not> (case x_healthyGeneration (p_execution p) of None \<Rightarrow> False
          | Some h \<Rightarrow> h > x_deployedGeneration (p_execution p))
     \<and> \<not> x_revision (p_execution p) < 1
     \<and> valid_deletion_state (p_workspace p)"

definition container_of :: "projection \<Rightarrow> container" where
  "container_of p =
     (let w = p_workspace p; x = p_execution p in
      \<lparr>c_id = w_id w, c_userId = w_ownerId w, c_appId = w_appId w,
       c_providerId = (if x_providerId x = ''docker'' then None else Some (x_providerId x)),
       c_runtimeId = p_runtimeId p, c_status = p_status p, c_endpoint = x_legacyEndpoint x,
       c_stopReason = x_stopReason x, c_createdAt = w_createdAt w, c_updatedAt = x_updatedAt x,
       c_lastActivityAt = x_lastActivityAt x, c_appVersionId = w_appRevisionId w,
       c_imageArtifactId = x_launchArtifactId x, c_imageReference = x_launchArtifactReference x\<rparr>)"

definition project_execution :: "projection \<Rightarrow> (workspace_error, container) res" where
  "project_execution p =
     (if \<not> projection_valid p then Inl ProjectionMismatch else Inr (container_of p))"

section \<open>Which projection may replace which\<close>

definition valid_status_transition :: "workspace_status \<Rightarrow> workspace_status \<Rightarrow> bool" where
  "valid_status_transition current nxt =
     (if current = WsActive then nxt = WsActive \<or> nxt = WsDeleting
      else if current = WsDeleting then nxt = WsDeleting \<or> nxt = WsDeleted
      else nxt = WsDeleted)"

definition generation_value :: "int option \<Rightarrow> int" where
  "generation_value value = (case value of None \<Rightarrow> -1 | Some n \<Rightarrow> n)"

definition assert_transition :: "projection \<Rightarrow> projection \<Rightarrow> (workspace_error, unit) res" where
  "assert_transition cur nxt =
     rbind (project_execution cur) (\<lambda>_.
     rbind (project_execution nxt) (\<lambda>_.
       if w_id (p_workspace cur) \<noteq> w_id (p_workspace nxt)
        \<or> w_ownerId (p_workspace cur) \<noteq> w_ownerId (p_workspace nxt)
        \<or> w_createdAt (p_workspace cur) \<noteq> w_createdAt (p_workspace nxt)
        \<or> w_storageRefId (p_workspace cur) \<noteq> w_storageRefId (p_workspace nxt)
        \<or> x_id (p_execution cur) \<noteq> x_id (p_execution nxt)
        \<or> x_workspaceId (p_execution cur) \<noteq> x_workspaceId (p_execution nxt)
        \<or> x_providerId (p_execution cur) \<noteq> x_providerId (p_execution nxt)
        \<or> \<not> valid_status_transition (w_status (p_workspace cur)) (w_status (p_workspace nxt))
       then Inl ProjectionMismatch
       else if x_desiredGeneration (p_execution nxt) < x_desiredGeneration (p_execution cur)
        \<or> x_deployedGeneration (p_execution nxt) < x_deployedGeneration (p_execution cur)
        \<or> generation_value (x_healthyGeneration (p_execution nxt))
            < generation_value (x_healthyGeneration (p_execution cur))
       then Inl GenerationRollback
       else Inr ()))"

section \<open>Lemmas\<close>

lemma normalize_provider_valid: "normalize_provider_id v = Inr s \<Longrightarrow> valid_provider_id s"
  by (auto simp: normalize_provider_id_def Let_def split: if_splits)

lemma project_container_valid:
  assumes "project_container c = Inr p"
  shows "projection_valid p"
proof -
  obtain pid where pid: "normalize_provider_id (c_providerId c) = Inr pid"
    using assms by (auto simp: project_container_def rbind_Inr_iff)
  then have valid: "valid_provider_id pid" by (rule normalize_provider_valid)
  show ?thesis using assms
    by (cases "c_status c")
      (auto simp: project_container_def pid Let_def projection_valid_def active_shape_def
        valid_deletion_state_def valid)
qed

lemma project_container_fields:
  "project_container c = Inr p \<Longrightarrow>
     w_id (p_workspace p) = c_id c \<and> w_ownerId (p_workspace p) = c_userId c \<and>
     w_status (p_workspace p) = WsActive \<and> x_revision (p_execution p) = 1 \<and>
     x_lastActivityAt (p_execution p) = c_lastActivityAt c"
  by (auto simp: project_container_def rbind_Inr_iff Let_def)

lemma project_execution_Inr: "project_execution p = Inr c \<longleftrightarrow> projection_valid p \<and> c = container_of p"
  by (auto simp: project_execution_def)

text \<open>The rank of a workspace's status: permitted transitions never lower it.\<close>

fun status_rank :: "workspace_status \<Rightarrow> nat" where
  "status_rank WsActive = 0"
| "status_rank WsDeleting = 1"
| "status_rank WsDeleted = 2"

lemma valid_status_transition_rank:
  "valid_status_transition a b \<longleftrightarrow> status_rank a = status_rank b \<or> status_rank b = Suc (status_rank a)"
  by (cases a; cases b) (simp_all add: valid_status_transition_def)

definition transition_ok :: "projection \<Rightarrow> projection \<Rightarrow> bool" where
  "transition_ok cur nxt \<longleftrightarrow> assert_transition cur nxt = Inr ()"

lemma transition_ok_iff:
  "transition_ok cur nxt \<longleftrightarrow>
     projection_valid cur \<and> projection_valid nxt \<and>
     w_id (p_workspace cur) = w_id (p_workspace nxt) \<and>
     w_ownerId (p_workspace cur) = w_ownerId (p_workspace nxt) \<and>
     w_createdAt (p_workspace cur) = w_createdAt (p_workspace nxt) \<and>
     w_storageRefId (p_workspace cur) = w_storageRefId (p_workspace nxt) \<and>
     x_id (p_execution cur) = x_id (p_execution nxt) \<and>
     x_workspaceId (p_execution cur) = x_workspaceId (p_execution nxt) \<and>
     x_providerId (p_execution cur) = x_providerId (p_execution nxt) \<and>
     valid_status_transition (w_status (p_workspace cur)) (w_status (p_workspace nxt)) \<and>
     x_desiredGeneration (p_execution cur) \<le> x_desiredGeneration (p_execution nxt) \<and>
     x_deployedGeneration (p_execution cur) \<le> x_deployedGeneration (p_execution nxt) \<and>
     generation_value (x_healthyGeneration (p_execution cur))
       \<le> generation_value (x_healthyGeneration (p_execution nxt))"
  by (auto simp: transition_ok_def assert_transition_def project_execution_def rbind_def not_less)

text \<open>The order along which a workspace's projection moves.\<close>

definition projection_advances :: "projection \<Rightarrow> projection \<Rightarrow> bool" where
  "projection_advances a b \<longleftrightarrow>
     w_id (p_workspace a) = w_id (p_workspace b) \<and>
     w_ownerId (p_workspace a) = w_ownerId (p_workspace b) \<and>
     w_storageRefId (p_workspace a) = w_storageRefId (p_workspace b) \<and>
     x_providerId (p_execution a) = x_providerId (p_execution b) \<and>
     status_rank (w_status (p_workspace a)) \<le> status_rank (w_status (p_workspace b)) \<and>
     x_desiredGeneration (p_execution a) \<le> x_desiredGeneration (p_execution b) \<and>
     x_deployedGeneration (p_execution a) \<le> x_deployedGeneration (p_execution b) \<and>
     generation_value (x_healthyGeneration (p_execution a))
       \<le> generation_value (x_healthyGeneration (p_execution b))"

lemma projection_advances_refl [simp]: "projection_advances a a"
  by (simp add: projection_advances_def)

lemma projection_advances_trans [trans]:
  "projection_advances a b \<Longrightarrow> projection_advances b c \<Longrightarrow> projection_advances a c"
  by (auto simp: projection_advances_def)

lemma transition_ok_advances: "transition_ok a b \<Longrightarrow> projection_advances a b"
  by (auto simp: transition_ok_iff projection_advances_def valid_status_transition_rank)

section \<open>Properties\<close>

text \<open>The row a projection of \<open>c\<close> reads back as: the provider's id normalised, and left out for Docker.\<close>

definition canonical_container :: "container \<Rightarrow> string \<Rightarrow> container" where
  "canonical_container c providerId =
     c\<lparr>c_providerId := (if providerId = ''docker'' then None else Some providerId)\<rparr>"

text \<open>C38: projecting a legacy container row and reading the projection back as a row loses
  nothing: when the row's provider id is acceptable the result is the same row, its provider
  id normalised (absent for Docker); and a row is refused only for its provider id.\<close>

theorem container_projection_roundtrip:
  "rbind (project_container c) project_execution =
     rbind (normalize_provider_id (c_providerId c)) (\<lambda>pid. Inr (canonical_container c pid))"
proof (cases "normalize_provider_id (c_providerId c)")
  case (Inl e)
  then show ?thesis by (simp add: project_container_def)
next
  case (Inr pid)
  then obtain p where p: "project_container c = Inr p" by (simp add: project_container_def Let_def)
  moreover have "container_of p = canonical_container c pid"
    using p Inr by (auto simp: project_container_def container_of_def canonical_container_def Let_def)
  ultimately show ?thesis using Inr project_container_valid [OF p] by (simp add: project_execution_def)
qed

end
