(* ===== verification/Versioned_Store.thy ===== *)
theory Versioned_Store
  imports Main
begin

text \<open>
  The contract of optimistic concurrency that every durable record of the control plane
  obeys (\<open>compareAndSave...\<close>): a write names the revision it was computed from, takes effect
  only when that revision is still the stored one, and then stores the next revision. The
  lemmas say what a client may rely on: no lost update, revisions that only grow, and one
  step of the revision per successful write.
\<close>

text \<open>A sequence of attempted writes, by any number of clients, and how many of them to a
  key took effect.\<close>

fun cas_run :: "('s \<Rightarrow> 'v \<Rightarrow> 'n \<Rightarrow> 's \<times> 'v option) \<Rightarrow> 's \<Rightarrow> ('v \<times> 'n) list \<Rightarrow> 's" where
  "cas_run cas s [] = s"
| "cas_run cas s ((v, r) # ws) = cas_run cas (fst (cas s v r)) ws"

fun cas_wins :: "('s \<Rightarrow> 'v \<Rightarrow> 'n \<Rightarrow> 's \<times> 'v option) \<Rightarrow> ('v \<Rightarrow> 'k) \<Rightarrow> 'k \<Rightarrow> 's \<Rightarrow> ('v \<times> 'n) list \<Rightarrow> nat" where
  "cas_wins cas key k s [] = 0"
| "cas_wins cas key k s ((v, r) # ws) =
     (if key v = k \<and> snd (cas s v r) \<noteq> None then 1 else 0) + cas_wins cas key k (fst (cas s v r)) ws"

locale versioned_store =
  fixes get :: "'s \<Rightarrow> 'k \<Rightarrow> 'v option"
    and cas :: "'s \<Rightarrow> 'v \<Rightarrow> 'n::linordered_semidom \<Rightarrow> 's \<times> 'v option"
    and key :: "'v \<Rightarrow> 'k"
    and rev :: "'v \<Rightarrow> 'n"
  assumes cas_needs_current: "cas s v r = (s', Some w) \<Longrightarrow> \<exists>c. get s (key v) = Some c \<and> rev c = r"
    and cas_stores: "cas s v r = (s', Some w) \<Longrightarrow> get s' (key v) = Some w"
    and cas_next: "cas s v r = (s', Some w) \<Longrightarrow> rev w = r + 1"
    and cas_fails: "cas s v r = (s', None) \<Longrightarrow> s' = s"
    and cas_frame: "k \<noteq> key v \<Longrightarrow> get (fst (cas s v r)) k = get s k"
begin

text \<open>No lost update: once a write based on revision \<open>r\<close> has succeeded, no other write based
  on \<open>r\<close> succeeds.\<close>

lemma cas_stale_fails:
  assumes "cas s v r = (s', Some w)" "key v' = key v"
  shows "cas s' v' r = (s', None)"
proof (cases "cas s' v' r")
  case (Pair s'' res)
  show ?thesis
  proof (cases res)
    case None
    with Pair have "s'' = s'" using cas_fails by blast
    with Pair None show ?thesis by blast
  next
    case (Some w')
    with Pair obtain c where c: "get s' (key v') = Some c" "rev c = r"
      using cas_needs_current by blast
    have "get s' (key v) = Some w" using assms(1) by (rule cas_stores)
    with c assms(2) have "rev w = r" by (simp only: option.inject) 
    moreover have "rev w = r + 1" using assms(1) by (rule cas_next)
    ultimately have "r + 1 = r" by (simp only:)
    with less_add_one [of r] show ?thesis by (simp only: less_irrefl)
  qed
qed

lemma cas_get:
  "get (fst (cas s v r)) k =
     (case snd (cas s v r) of None \<Rightarrow> get s k | Some w \<Rightarrow> if k = key v then Some w else get s k)"
proof (cases "cas s v r")
  case (Pair s' res)
  then show ?thesis
    using cas_fails [of s v r s'] cas_stores [of s v r s'] cas_frame [of k v s r]
    by (cases res) auto
qed

lemma cas_step_rev:
  assumes "get s k = Some c"
  shows "\<exists>c'. get (fst (cas s v r)) k = Some c' \<and>
     rev c' = rev c + (if key v = k \<and> snd (cas s v r) \<noteq> None then 1 else 0)"
proof (cases "cas s v r")
  case (Pair s' res)
  then show ?thesis
    using assms cas_get [of s v r k] cas_needs_current [of s v r s'] cas_next [of s v r s']
    by (cases res) auto
qed

text \<open>The revision counts the successful writes.\<close>

lemma cas_run_counts:
  "get s k = Some c \<Longrightarrow>
     \<exists>c'. get (cas_run cas s ws) k = Some c' \<and> rev c' = rev c + of_nat (cas_wins cas key k s ws)"
proof (induction ws arbitrary: s c)
  case (Cons a ws)
  obtain v r where a: "a = (v, r)" by (cases a)
  obtain c1 where c1: "get (fst (cas s v r)) k = Some c1"
    and rev1: "rev c1 = rev c + (if key v = k \<and> snd (cas s v r) \<noteq> None then 1 else 0)"
    using cas_step_rev [OF Cons.prems] by blast
  show ?case using Cons.IH [OF c1] rev1 by (auto simp: a add.assoc split: if_splits)
qed simp

text \<open>Of the writes that two clients base on one read, at most one succeeds, whatever
  happens in between.\<close>

lemma cas_no_lost_update:
  assumes win: "cas s v r = (s', Some w)" and k: "key v' = key v"
  shows "snd (cas (cas_run cas s' ws) v' r) = None"
proof (rule ccontr)
  assume "snd (cas (cas_run cas s' ws) v' r) \<noteq> None"
  then obtain s'' w' where "cas (cas_run cas s' ws) v' r = (s'', Some w')"
    by (cases "cas (cas_run cas s' ws) v' r") auto
  then obtain c where c: "get (cas_run cas s' ws) (key v) = Some c" "rev c = r"
    using cas_needs_current k by metis
  have "get s' (key v) = Some w" "rev w = r + 1" using win cas_stores cas_next by auto
  then obtain c' where "get (cas_run cas s' ws) (key v) = Some c'" "r + 1 \<le> rev c'"
    using cas_run_counts [of s' "key v" w ws] by fastforce
  with c show False using less_add_one [of r] by simp
qed

end

end
