(* ===== verification/Memory_Workspaces.thy ===== *)
theory Memory_Workspaces
  imports Memory_Store Workspace_Model Versioned_Store Machine
begin

text \<open>
  The instance and workspace methods of \<open>MemoryPersistence\<close>: the legacy container rows, the
  workspace executions beside them, the compare-and-save that fences the legacy writes, and
  the activity stamps. Shown: reads never meet an invalid projection; once an execution has
  been written by compare-and-save, legacy writes are refused and its generations and
  deletion state only advance; compare-and-save loses no update.
\<close>

section \<open>Reads\<close>

definition execution_active :: "mem \<Rightarrow> string \<Rightarrow> bool" where
  "execution_active m i =
     (case js_get (m_workspaceExecutions m) i of None \<Rightarrow> False
      | Some p \<Rightarrow> w_status (p_workspace p) = WsActive)"

definition require_projection :: "mem \<Rightarrow> string \<Rightarrow> (workspace_error, projection) res" where
  "require_projection m i =
     (case js_get (m_workspaceExecutions m) i of
        None \<Rightarrow> Inl ProjectionMissing
      | Some p \<Rightarrow> rbind (project_execution p) (\<lambda>_. Inr p))"

definition read_container :: "mem \<Rightarrow> string \<Rightarrow> (workspace_error, container) res" where
  "read_container m i = rbind (require_projection m i) project_execution"

definition get_container_for_user :: "mem \<Rightarrow> string \<Rightarrow> (workspace_error, container option) res" where
  "get_container_for_user m userId =
     (case js_find (\<lambda>c. c_userId c = userId \<and> execution_active m (c_id c)) (m_containers m) of
        None \<Rightarrow> Inr None
      | Some c \<Rightarrow> rbind (read_container m (c_id c)) (\<lambda>r. Inr (Some r)))"

definition get_container :: "mem \<Rightarrow> string \<Rightarrow> (workspace_error, container option) res" where
  "get_container m i =
     (if \<not> js_has (m_containers m) i \<or> \<not> execution_active m i then Inr None
      else rbind (read_container m i) (\<lambda>r. Inr (Some r)))"

definition list_containers :: "mem \<Rightarrow> string option \<Rightarrow> (workspace_error, container list) res" where
  "list_containers m userId =
     res_map (\<lambda>c. read_container m (c_id c))
       (newest_first c_updatedAt
         (filter (\<lambda>c. execution_active m (c_id c))
           (filter (\<lambda>c. \<not> js_truthy userId \<or> Some (c_userId c) = userId) (js_values (m_containers m)))))"

definition get_projection :: "mem \<Rightarrow> string \<Rightarrow> (workspace_error, projection option) res" where
  "get_projection m i =
     (if \<not> js_has (m_containers m) i then Inr None
      else rbind (require_projection m i) (\<lambda>p. Inr (Some p)))"

definition get_live_execution_for_user :: "mem \<Rightarrow> string \<Rightarrow> projection option" where
  "get_live_execution_for_user m userId =
     js_find (\<lambda>p. w_ownerId (p_workspace p) = userId \<and> w_status (p_workspace p) \<noteq> WsDeleted)
       (m_workspaceExecutions m)"

definition count_live_storage_references :: "mem \<Rightarrow> string \<Rightarrow> string \<Rightarrow> nat" where
  "count_live_storage_references m storageRefId excludingWorkspaceId =
     length (filter (\<lambda>p. w_id (p_workspace p) \<noteq> excludingWorkspaceId
        \<and> w_status (p_workspace p) \<noteq> WsDeleted
        \<and> w_storageRefId (p_workspace p) = storageRefId) (js_values (m_workspaceExecutions m)))"

section \<open>Writes\<close>

definition set_activity :: "stamp \<Rightarrow> projection \<Rightarrow> projection" where
  "set_activity ts p = p\<lparr>p_execution := (p_execution p)\<lparr>x_lastActivityAt := ts\<rparr>\<rparr>"

definition touch_container :: "mem \<Rightarrow> string \<Rightarrow> instant \<Rightarrow> mem" where
  "touch_container m i ts =
     (case (js_get (m_containers m) i, js_get (m_workspaceExecutions m) i) of
        (Some c, Some p) \<Rightarrow>
          if w_status (p_workspace p) \<noteq> WsActive then m
          else m\<lparr>m_containers := js_set (m_containers m) i (c\<lparr>c_lastActivityAt := Instant ts\<rparr>),
                 m_workspaceExecutions := js_set (m_workspaceExecutions m) i (set_activity (Instant ts) p)\<rparr>
      | _ \<Rightarrow> m)"

definition touch_container_at :: "mem \<Rightarrow> string \<Rightarrow> instant \<Rightarrow> mem" where
  "touch_container_at m i ts =
     (case js_get (m_containers m) i of
        None \<Rightarrow> m
      | Some c \<Rightarrow>
          (let latest = latest_timestamp (c_lastActivityAt c) (Instant ts);
               m' = m\<lparr>m_containers := js_set (m_containers m) i (c\<lparr>c_lastActivityAt := latest\<rparr>)\<rparr>
           in case js_get (m_workspaceExecutions m) i of
                None \<Rightarrow> m'
              | Some p \<Rightarrow> m'\<lparr>m_workspaceExecutions :=
                    js_set (m_workspaceExecutions m) i (set_activity latest p)\<rparr>))"

text \<open>The guard \<open>saveContainer\<close> and \<open>updateContainer\<close> share: the row is still under legacy control.\<close>

definition legacy_write_refused :: "mem \<Rightarrow> string \<Rightarrow> bool" where
  "legacy_write_refused m i =
     (case js_get (m_workspaceExecutions m) i of
        None \<Rightarrow> False
      | Some p \<Rightarrow> x_revision (p_execution p) > 1 \<or> w_status (p_workspace p) \<noteq> WsActive)"

text \<open>The row is stored before it is projected: when the projection throws, the row stays.\<close>

definition store_container :: "mem \<Rightarrow> container \<Rightarrow> mem \<times> (workspace_error, unit) res" where
  "store_container m container =
     (let stored = container\<lparr>c_lastActivityAt :=
            (case js_get (m_containers m) (c_id container) of
               Some current \<Rightarrow> latest_timestamp (c_lastActivityAt current) (c_lastActivityAt container)
             | None \<Rightarrow> c_lastActivityAt container)\<rparr>;
          m' = m\<lparr>m_containers := js_set (m_containers m) (c_id container) stored\<rparr>
      in case project_container stored of
           Inl e \<Rightarrow> (m', Inl e)
         | Inr p \<Rightarrow> (m'\<lparr>m_workspaceExecutions := js_set (m_workspaceExecutions m) (c_id container) p\<rparr>, Inr ()))"

definition save_container :: "mem \<Rightarrow> container \<Rightarrow> mem \<times> (workspace_error, unit) res" where
  "save_container m container =
     (if legacy_write_refused m (c_id container) then (m, Inl CasRequired)
      else store_container m container)"

definition update_container :: "mem \<Rightarrow> container \<Rightarrow> mem \<times> (workspace_error, unit) res" where
  "update_container m container =
     (if legacy_write_refused m (c_id container) then (m, Inl CasRequired)
      else store_container m container)"

definition cas_execution ::
  "mem \<Rightarrow> projection \<Rightarrow> int \<Rightarrow> mem \<times> (workspace_error, projection option) res" where
  "cas_execution m projection expectedRevision =
     (case js_get (m_workspaceExecutions m) (w_id (p_workspace projection)) of
        None \<Rightarrow> (m, Inr None)
      | Some current \<Rightarrow>
          if x_revision (p_execution current) \<noteq> expectedRevision then (m, Inr None)
          else case assert_transition current projection of
            Inl e \<Rightarrow> (m, Inl e)
          | Inr _ \<Rightarrow>
              (let updated = projection\<lparr>p_execution := (p_execution projection)\<lparr>x_revision := expectedRevision + 1\<rparr>\<rparr>
               in case project_execution updated of
                    Inl e \<Rightarrow> (m, Inl e)
                  | Inr container \<Rightarrow>
                      (case js_get (m_containers m) (c_id container) of
                         None \<Rightarrow> (m, Inr None)
                       | Some stored \<Rightarrow>
                           (let latest = latest_timestamp (c_lastActivityAt stored) (c_lastActivityAt container);
                                updated' = set_activity latest updated
                            in (m\<lparr>m_containers := js_set (m_containers m) (c_id container)
                                     (container\<lparr>c_lastActivityAt := latest\<rparr>),
                                  m_workspaceExecutions := js_set (m_workspaceExecutions m) (c_id container) updated'\<rparr>,
                                Inr (Some updated'))))))"

definition delete_container :: "mem \<Rightarrow> string \<Rightarrow> mem" where
  "delete_container m i =
     m\<lparr>m_containers := js_delete (m_containers m) i,
       m_workspaceExecutions := js_delete (m_workspaceExecutions m) i,
       m_workspaceTenantBindings := js_delete (m_workspaceTenantBindings m) i\<rparr>"

section \<open>The invariant of the two maps\<close>

definition workspaces_inv :: "mem \<Rightarrow> bool" where
  "workspaces_inv m \<longleftrightarrow>
     js_wf (m_containers m) \<and> js_wf (m_workspaceExecutions m)
     \<and> (\<forall>i c. js_get (m_containers m) i = Some c \<longrightarrow> c_id c = i)
     \<and> (\<forall>i p. js_get (m_workspaceExecutions m) i = Some p \<longrightarrow>
          projection_valid p \<and> w_id (p_workspace p) = i \<and> js_has (m_containers m) i)"

lemma set_activity_simps [simp]:
  "p_workspace (set_activity t p) = p_workspace p"
  "x_revision (p_execution (set_activity t p)) = x_revision (p_execution p)"
  by (simp_all add: set_activity_def)

lemma projection_valid_set_activity [simp]: "projection_valid (set_activity t p) = projection_valid p"
  by (cases "x_healthyGeneration (p_execution p)")
    (simp_all add: set_activity_def projection_valid_def active_shape_def deleted_shape_def)

lemma set_activity_advances [simp]: "projection_advances p (set_activity t p)"
  by (simp add: projection_advances_def set_activity_def)

lemma workspaces_inv_empty: "workspaces_inv empty_mem"
  by (simp add: workspaces_inv_def empty_mem_def)

lemma touch_container_inv: "workspaces_inv m \<Longrightarrow> workspaces_inv (touch_container m i ts)"
  by (auto simp: workspaces_inv_def touch_container_def js_has_def split: option.splits)

lemma touch_container_at_inv: "workspaces_inv m \<Longrightarrow> workspaces_inv (touch_container_at m i ts)"
  by (auto simp: workspaces_inv_def touch_container_at_def js_has_def Let_def split: option.splits)

lemma store_container_inv: "workspaces_inv m \<Longrightarrow> workspaces_inv (fst (store_container m c))"
  by (auto simp: workspaces_inv_def store_container_def Let_def
      dest: project_container_valid project_container_fields split: sum.splits option.splits)

lemma save_container_inv: "workspaces_inv m \<Longrightarrow> workspaces_inv (fst (save_container m c))"
  by (simp add: save_container_def store_container_inv)

lemma update_container_inv: "workspaces_inv m \<Longrightarrow> workspaces_inv (fst (update_container m c))"
  by (simp add: update_container_def store_container_inv)

lemma delete_container_inv: "workspaces_inv m \<Longrightarrow> workspaces_inv (delete_container m i)"
  by (auto simp: workspaces_inv_def delete_container_def)

text \<open>What a successful compare-and-save has checked, and what it stores.\<close>

lemma container_of_id [simp]: "c_id (container_of p) = w_id (p_workspace p)"
  by (simp add: container_of_def Let_def)

lemma cas_execution_Some:
  assumes "cas_execution m p r = (m', Inr (Some q))"
  obtains cur t c where
    "js_get (m_workspaceExecutions m) (w_id (p_workspace p)) = Some cur"
    "x_revision (p_execution cur) = r" "transition_ok cur p"
    "q = set_activity t (p\<lparr>p_execution := (p_execution p)\<lparr>x_revision := r + 1\<rparr>\<rparr>)"
    "projection_valid q"
    "c_id c = w_id (p_workspace p)" "js_has (m_containers m) (w_id (p_workspace p))"
    "m' = m\<lparr>m_containers := js_set (m_containers m) (w_id (p_workspace p)) c,
       m_workspaceExecutions := js_set (m_workspaceExecutions m) (w_id (p_workspace p)) q\<rparr>"
proof -
  let ?i = "w_id (p_workspace p)"
  let ?u = "p\<lparr>p_execution := (p_execution p)\<lparr>x_revision := r + 1\<rparr>\<rparr>"
  obtain cur where cur: "js_get (m_workspaceExecutions m) ?i = Some cur"
    using assms by (auto simp: cas_execution_def split: option.splits)
  have rev: "x_revision (p_execution cur) = r" and ok: "assert_transition cur p = Inr ()"
    using assms cur by (auto simp: cas_execution_def split: sum.splits if_splits)
  have valid: "projection_valid ?u"
    using assms cur rev ok by (auto simp: cas_execution_def project_execution_def Let_def split: if_splits)
  obtain stored where stored: "js_get (m_containers m) ?i = Some stored"
    using assms cur rev ok valid
    by (auto simp: cas_execution_def project_execution_def Let_def split: option.splits)
  let ?t = "latest_timestamp (c_lastActivityAt stored) (c_lastActivityAt (container_of ?u))"
  have "q = set_activity ?t ?u"
    "m' = m\<lparr>m_containers := js_set (m_containers m) ?i ((container_of ?u)\<lparr>c_lastActivityAt := ?t\<rparr>),
       m_workspaceExecutions := js_set (m_workspaceExecutions m) ?i q\<rparr>"
    using assms cur rev ok valid stored
    by (auto simp: cas_execution_def project_execution_def Let_def)
  then show thesis
    using that [of cur ?t "(container_of ?u)\<lparr>c_lastActivityAt := ?t\<rparr>"] cur rev ok valid stored
    by (simp add: transition_ok_def js_has_def)
qed

lemma cas_execution_unchanged:
  "cas_execution m p r = (m', res) \<Longrightarrow> (\<forall>q. res \<noteq> Inr (Some q)) \<Longrightarrow> m' = m"
  by (auto simp: cas_execution_def Let_def split: option.splits sum.splits if_splits)

lemma cas_execution_inv:
  assumes "workspaces_inv m"
  shows "workspaces_inv (fst (cas_execution m p r))"
proof (cases "\<exists>q. snd (cas_execution m p r) = Inr (Some q)")
  case True
  then obtain m' q where "cas_execution m p r = (m', Inr (Some q))" by (metis prod.collapse)
  moreover from this have "workspaces_inv m'"
    using assms by (elim cas_execution_Some) (auto simp: workspaces_inv_def)
  ultimately show ?thesis by simp
next
  case False
  then show ?thesis using assms cas_execution_unchanged [of m p r] by (metis prod.collapse)
qed

section \<open>Compare-and-save is a versioned store\<close>

text \<open>A caller sees a thrown error and a \<open>null\<close> alike: the write did not happen.\<close>

definition cas_execution_opt :: "mem \<Rightarrow> projection \<Rightarrow> int \<Rightarrow> mem \<times> projection option" where
  "cas_execution_opt m p r = (case cas_execution m p r of
     (m', Inl _) \<Rightarrow> (m', None) | (m', Inr res) \<Rightarrow> (m', res))"

lemma cas_execution_opt_Some:
  "cas_execution_opt m p r = (m', Some q) \<longleftrightarrow> cas_execution m p r = (m', Inr (Some q))"
  by (auto simp: cas_execution_opt_def split: prod.splits sum.splits)

lemma fst_cas_execution_opt [simp]: "fst (cas_execution_opt m p r) = fst (cas_execution m p r)"
  by (simp add: cas_execution_opt_def split: prod.splits sum.splits)

interpretation executions: versioned_store
  "\<lambda>m. js_get (m_workspaceExecutions m)" cas_execution_opt "\<lambda>p. w_id (p_workspace p)"
  "\<lambda>p. x_revision (p_execution p)"
proof unfold_locales
  fix s v r s' w k
  {
    assume "cas_execution_opt s v r = (s', Some w)"
    then have cas: "cas_execution s v r = (s', Inr (Some w))" by (simp add: cas_execution_opt_Some)
    show "\<exists>c. js_get (m_workspaceExecutions s) (w_id (p_workspace v)) = Some c \<and> x_revision (p_execution c) = r"
      using cas by (elim cas_execution_Some) simp
    show "js_get (m_workspaceExecutions s') (w_id (p_workspace v)) = Some w"
      using cas by (elim cas_execution_Some) simp
    show "x_revision (p_execution w) = r + 1"
      using cas by (elim cas_execution_Some) simp
  }
  show "cas_execution_opt s v r = (s', None) \<Longrightarrow> s' = s"
    by (auto simp: cas_execution_opt_def split: prod.splits sum.splits dest: cas_execution_unchanged)
  assume "k \<noteq> w_id (p_workspace v)"
  then show "js_get (m_workspaceExecutions (fst (cas_execution_opt s v r))) k = js_get (m_workspaceExecutions s) k"
    by (auto simp: cas_execution_def Let_def project_execution_def split: option.splits sum.splits)
qed

section \<open>Runs\<close>

datatype workspace_op =
    WSave container
  | WUpdate container
  | WCas projection int
  | WDelete string
  | WTouch string instant
  | WTouchAt string instant

fun workspace_step :: "mem \<Rightarrow> workspace_op \<Rightarrow> mem" where
  "workspace_step m (WSave c) = fst (save_container m c)"
| "workspace_step m (WUpdate c) = fst (update_container m c)"
| "workspace_step m (WCas p r) = fst (cas_execution m p r)"
| "workspace_step m (WDelete i) = delete_container m i"
| "workspace_step m (WTouch i t) = touch_container m i t"
| "workspace_step m (WTouchAt i t) = touch_container_at m i t"

lemma workspace_step_inv: "workspaces_inv m \<Longrightarrow> workspaces_inv (workspace_step m e)"
  by (cases e) (simp_all add: save_container_inv update_container_inv cas_execution_inv
      delete_container_inv touch_container_inv touch_container_at_inv)

interpretation workspaces: machine workspace_step "\<lambda>m. m = empty_mem" workspaces_inv
  by unfold_locales (simp_all add: workspaces_inv_empty workspace_step_inv)

text \<open>An execution that compare-and-save has written: its revision is past the first.\<close>

definition fenced :: "mem \<Rightarrow> string \<Rightarrow> projection \<Rightarrow> bool" where
  "fenced m i p \<longleftrightarrow> js_get (m_workspaceExecutions m) i = Some p \<and> 1 < x_revision (p_execution p)"

lemma fenced_refuses: "fenced m i p \<Longrightarrow> legacy_write_refused m i"
  by (simp add: fenced_def legacy_write_refused_def)

lemma fenced_store:
  assumes "fenced m i p"
  shows "fenced (fst (save_container m c)) i p" "fenced (fst (update_container m c)) i p"
  using assms fenced_refuses [OF assms]
  by (auto simp: save_container_def update_container_def store_container_def fenced_def Let_def
      split: sum.splits)

lemma fenced_cas:
  assumes "fenced m i p"
  shows "\<exists>q. fenced (fst (cas_execution m v r)) i q \<and> projection_advances p q
     \<and> x_revision (p_execution p) \<le> x_revision (p_execution q)"
proof (cases "\<exists>q. snd (cas_execution m v r) = Inr (Some q)")
  case True
  then obtain m' q where cas: "cas_execution m v r = (m', Inr (Some q))" by (metis prod.collapse)
  then show ?thesis
  proof (rule cas_execution_Some)
    fix cur t c
    let ?u = "v\<lparr>p_execution := (p_execution v)\<lparr>x_revision := r + 1\<rparr>\<rparr>"
    assume cur: "js_get (m_workspaceExecutions m) (w_id (p_workspace v)) = Some cur"
      and rev: "x_revision (p_execution cur) = r" and ok: "transition_ok cur v"
      and q: "q = set_activity t ?u"
      and m': "m' = m\<lparr>m_containers := js_set (m_containers m) (w_id (p_workspace v)) c,
         m_workspaceExecutions := js_set (m_workspaceExecutions m) (w_id (p_workspace v)) q\<rparr>"
    have "projection_advances cur v" using ok by (rule transition_ok_advances)
    also have "projection_advances v ?u" by (simp add: projection_advances_def)
    also have "projection_advances ?u q" by (simp add: q)
    finally have "projection_advances cur q" .
    then show ?thesis using assms cur rev cas q m' by (auto simp: fenced_def)
  qed
next
  case False
  then show ?thesis using assms cas_execution_unchanged [of m v r] projection_advances_refl
    by (metis order_refl prod.collapse)
qed

lemma fenced_touch:
  assumes "fenced m i p"
  shows "\<exists>q. fenced (touch_container m j t) i q \<and> projection_advances p q
     \<and> x_revision (p_execution p) \<le> x_revision (p_execution q)"
    and "\<exists>q. fenced (touch_container_at m j t) i q \<and> projection_advances p q
     \<and> x_revision (p_execution p) \<le> x_revision (p_execution q)"
  using assms
  by (auto simp: touch_container_def touch_container_at_def fenced_def Let_def split: option.splits)

lemma fenced_step:
  assumes "fenced m i p" "e \<noteq> WDelete i"
  shows "\<exists>q. fenced (workspace_step m e) i q \<and> projection_advances p q
     \<and> x_revision (p_execution p) \<le> x_revision (p_execution q)"
proof (cases e)
  case (WSave c)
  then show ?thesis using fenced_store(1) [OF assms(1)] by (auto intro: exI [of _ p])
next
  case (WUpdate c)
  then show ?thesis using fenced_store(2) [OF assms(1)] by (auto intro: exI [of _ p])
next
  case (WCas v r)
  then show ?thesis using fenced_cas [OF assms(1)] by simp
next
  case (WDelete j)
  then show ?thesis using assms by (auto simp: fenced_def delete_container_def intro: exI [of _ p])
next
  case (WTouch j t)
  then show ?thesis using fenced_touch(1) [OF assms(1)] by simp
next
  case (WTouchAt j t)
  then show ?thesis using fenced_touch(2) [OF assms(1)] by simp
qed

lemma fenced_run:
  assumes "fenced m i p" "WDelete i \<notin> set es"
  shows "\<exists>q. fenced (foldl workspace_step m es) i q \<and> projection_advances p q
     \<and> x_revision (p_execution p) \<le> x_revision (p_execution q)"
  using assms
proof (induction es arbitrary: m p)
  case (Cons e es)
  then obtain q where q: "fenced (workspace_step m e) i q" "projection_advances p q"
    "x_revision (p_execution p) \<le> x_revision (p_execution q)"
    using fenced_step [of m i p e] by auto
  show ?case using Cons.IH [OF q(1)] Cons.prems(2) q projection_advances_trans
    by (fastforce intro: order_trans)
qed (auto intro: exI)

section \<open>Properties\<close>

lemma read_active:
  assumes "workspaces_inv m" "execution_active m i"
  shows "\<exists>c. read_container m i = Inr c"
  using assms
  by (auto simp: read_container_def require_projection_def execution_active_def workspaces_inv_def
      project_execution_def split: option.splits)

lemma get_container_total: "workspaces_inv m \<Longrightarrow> \<exists>r. get_container m i = Inr r"
  using read_active [of m i] by (auto simp: get_container_def)

lemma get_container_for_user_total: "workspaces_inv m \<Longrightarrow> \<exists>r. get_container_for_user m userId = Inr r"
  using read_active [of m]
  by (fastforce simp: get_container_for_user_def split: option.splits dest: js_find_Some)

lemma list_containers_Inr:
  assumes "workspaces_inv m"
  shows "\<exists>cs. list_containers m userId = Inr cs"
proof -
  have *: "\<exists>ys. res_map (\<lambda>c. read_container m (c_id c)) xs = Inr ys"
    if "\<forall>x \<in> set xs. execution_active m (c_id x)" for xs
    using that read_active [OF assms] by (induction xs) fastforce+
  show ?thesis unfolding list_containers_def by (rule *) simp
qed

text \<open>Whatever the portal does to the instance store, reading it never fails: the reads
  of a container by id and by owner and the listing return, for every reachable store, and
  never throw the errors of a missing or inconsistent projection.\<close>

theorem workspace_reads_never_throw:
  "(\<exists>r. get_container (foldl workspace_step empty_mem es) i = Inr r) \<and>
   (\<exists>r. get_container_for_user (foldl workspace_step empty_mem es) userId = Inr r) \<and>
   (\<exists>rs. list_containers (foldl workspace_step empty_mem es) owner = Inr rs)"
proof -
  let ?m = "foldl workspace_step empty_mem es"
  have inv: "workspaces_inv ?m" by (rule workspaces.run_inv) simp
  then show ?thesis
    using get_container_total [OF inv] get_container_for_user_total [OF inv] list_containers_Inr [OF inv]
    by blast
qed

text \<open>C1: compare-and-save fences the legacy writes. From any store in which a workspace's
  execution has been written by compare-and-save (its revision is past 1), after any further
  operations other than the removal of that workspace, the execution is still there, its
  owner, storage and provider are the same, its revision, its desired, deployed and healthy
  generations and its deletion state have not gone back, and a legacy \<open>saveContainer\<close> for it
  is refused and changes nothing.\<close>

theorem fenced_execution_only_advances:
  assumes "fenced m i p" and "WDelete i \<notin> set es"
  shows "\<exists>q. js_get (m_workspaceExecutions (foldl workspace_step m es)) i = Some q
     \<and> projection_advances p q \<and> x_revision (p_execution p) \<le> x_revision (p_execution q)
     \<and> (\<forall>c. c_id c = i \<longrightarrow> save_container (foldl workspace_step m es) c
          = (foldl workspace_step m es, Inl CasRequired))"
proof -
  obtain q where q: "fenced (foldl workspace_step m es) i q" "projection_advances p q"
    "x_revision (p_execution p) \<le> x_revision (p_execution q)"
    using fenced_run [OF assms] by blast
  then show ?thesis using fenced_refuses [OF q(1)]
    by (auto simp: fenced_def save_container_def)
qed

definition sample_container :: container where
  "sample_container = \<lparr>c_id = ''w1'', c_userId = ''u1'', c_appId = ''notes'', c_providerId = None,
     c_runtimeId = ''rt1'', c_status = Running, c_endpoint = None, c_stopReason = None,
     c_createdAt = 1, c_updatedAt = 1, c_lastActivityAt = Instant 1, c_appVersionId = None,
     c_imageArtifactId = None, c_imageReference = None\<rparr>"

definition sample_projection :: projection where
  "sample_projection = (case project_container sample_container of Inr p \<Rightarrow> p | Inl _ \<Rightarrow> undefined)"

definition sample_fenced_mem :: mem where
  "sample_fenced_mem = foldl workspace_step empty_mem [WSave sample_container, WCas sample_projection 1]"

theorem fenced_execution_only_advances_witness:
  "\<exists>p q. fenced sample_fenced_mem ''w1'' p \<and>
     js_get (m_workspaceExecutions (foldl workspace_step sample_fenced_mem [WTouch ''w1'' 9])) ''w1'' = Some q \<and>
     projection_advances p q"
proof -
  have "case js_get (m_workspaceExecutions sample_fenced_mem) ''w1'' of
      None \<Rightarrow> False | Some p \<Rightarrow> 1 < x_revision (p_execution p)"
    by code_simp
  then obtain p where p: "fenced sample_fenced_mem ''w1'' p"
    by (auto simp: fenced_def split: option.splits)
  have "WDelete ''w1'' \<notin> set [WTouch ''w1'' 9]" by simp
  from fenced_execution_only_advances [OF p this] p show ?thesis by blast
qed

text \<open>The store loses no update: when a compare-and-save based on revision \<open>r\<close> of an
  execution has succeeded, a second one based on \<open>r\<close> for the same workspace fails, whatever
  compare-and-saves by other clients come in between.\<close>

theorem execution_no_lost_update:
  assumes "cas_execution_opt m p r = (m', Some q)" and "w_id (p_workspace p') = w_id (p_workspace p)"
  shows "snd (cas_execution_opt (cas_run cas_execution_opt m' ws) p' r) = None"
  using assms by (rule executions.cas_no_lost_update)

theorem execution_no_lost_update_witness:
  "let m = fst (save_container empty_mem sample_container);
       m' = fst (cas_execution_opt m sample_projection 1)
   in snd (cas_execution_opt m sample_projection 1) \<noteq> None \<and>
      snd (cas_execution_opt (cas_run cas_execution_opt m' [(sample_projection, 2)]) sample_projection 1) = None"
proof -
  let ?m = "fst (save_container empty_mem sample_container)"
  have "snd (cas_execution_opt ?m sample_projection 1) \<noteq> None" by code_simp
  then obtain m' q where cas: "cas_execution_opt ?m sample_projection 1 = (m', Some q)"
    by (cases "cas_execution_opt ?m sample_projection 1") auto
  then show ?thesis using execution_no_lost_update [OF cas refl, of "[(sample_projection, 2)]"]
    by (simp add: Let_def cas del: fst_cas_execution_opt)
qed

text \<open>A refused save leaves a trace: \<open>saveContainer\<close> stores the row before it projects
  it, so a row whose provider id is unacceptable stays in the store although the call throws,
  and reading that workspace's projection then throws that it is missing.\<close>

theorem refused_save_leaves_row:
  "let c = sample_container\<lparr>c_providerId := Some ''no/such''\<rparr>;
       (m, result) = save_container empty_mem c
   in result = Inl ProjectionMismatch \<and> js_get (m_containers m) ''w1'' = Some c \<and>
      get_projection m ''w1'' = Inl ProjectionMissing"
  by code_simp

end
