(* ===== verification/Memory_Users.thy ===== *)
theory Memory_Users
  imports Memory_Store Machine "HOL-Library.List_Lexorder" "HOL-Library.Char_ord"
begin

text \<open>
  Accounts, credentials, sessions and roles: the identity methods of \<open>MemoryPersistence\<close>
  with the role policy of \<open>backend/src/user-role-policy.ts\<close>. \<open>randomUUID\<close> and the clock are
  arguments (\<open>uid\<close>, \<open>now\<close>), and so is the redaction of audit metadata
  (\<open>sensitive-data.ts\<close>), on which nothing here depends. Shown: who may change whose role,
  that a super administrator always remains, that managers always hold a local password,
  that a password change ends every session of the account, and what a session yields.
\<close>

datatype user_error =
    RoleUpdate role_update_code
  | UserNotFound
  | IdentityUserMissing
  | ManagementEmailRequired
  | TestUserAlreadyExists

section \<open>The role policy\<close>

definition is_management_role :: "user_role \<Rightarrow> bool" where
  "is_management_role role \<longleftrightarrow> role = AdminR \<or> role = SuperAdminR"

definition assert_can_create_managed_user :: "user_role option \<Rightarrow> user_role \<Rightarrow> (user_error, unit) res" where
  "assert_can_create_managed_user actorRole requestedRole =
     (case actorRole of
        None \<Rightarrow> Inl (RoleUpdate TargetRoleNotManageable)
      | Some role \<Rightarrow>
          if \<not> is_management_role role then Inl (RoleUpdate TargetRoleNotManageable)
          else if requestedRole \<noteq> UserR \<and> role \<noteq> SuperAdminR then Inl (RoleUpdate SuperAdminRequired)
          else Inr ())"

definition assert_can_govern_user_roles :: "user_role option \<Rightarrow> (user_error, unit) res" where
  "assert_can_govern_user_roles actorRole =
     (if actorRole \<noteq> Some SuperAdminR then Inl (RoleUpdate SuperAdminRequired) else Inr ())"

section \<open>Audit\<close>

definition record_audit ::
  "(js_val \<Rightarrow> js_val) \<Rightarrow> string \<Rightarrow> instant \<Rightarrow> mem \<Rightarrow> string option \<Rightarrow> string \<Rightarrow> string \<Rightarrow> string option \<Rightarrow>
   js_val \<Rightarrow> mem" where
  "record_audit redact uid now m actorUserId action resourceType resourceId metadata =
     m\<lparr>m_auditEvents := take 500
        (\<lparr>ae_id = uid, ae_actorUserId = actorUserId, ae_action = action,
          ae_resourceType = resourceType, ae_resourceId = resourceId,
          ae_metadata = redact metadata, ae_createdAt = now\<rparr> # m_auditEvents m)\<rparr>"

fun role_name :: "user_role \<Rightarrow> string" where
  "role_name UserR = ''user''"
| "role_name AdminR = ''admin''"
| "role_name SuperAdminR = ''super_admin''"

section \<open>Accounts\<close>

definition normalize_email :: "string \<Rightarrow> string" where
  "normalize_email email = js_lower (js_trim email)"

definition get_user :: "mem \<Rightarrow> string \<Rightarrow> user option" where
  "get_user m i = js_get (m_users m) i"

definition user_with_email :: "mem \<Rightarrow> string \<Rightarrow> user option" where
  "user_with_email m normalizedEmail = js_find (\<lambda>u. u_email u = normalizedEmail) (m_users m)"

definition find_user_by_email :: "mem \<Rightarrow> string \<Rightarrow> user option" where
  "find_user_by_email m email = user_with_email m (normalize_email email)"

definition find_user_by_identity :: "mem \<Rightarrow> string \<Rightarrow> string \<Rightarrow> user option" where
  "find_user_by_identity m provider subject =
     (let userId = js_get (m_identities m) (identity_key provider subject)
      in if js_truthy userId then js_get (m_users m) (the userId) else None)"

definition mark_user_app_initialized :: "mem \<Rightarrow> string \<Rightarrow> instant \<Rightarrow> mem" where
  "mark_user_app_initialized m i now =
     (case js_get (m_users m) i of
        None \<Rightarrow> m
      | Some u \<Rightarrow> m\<lparr>m_users := js_set (m_users m) i
          (if u_appInitializedAt u = None then u\<lparr>u_appInitializedAt := Some now\<rparr> else u)\<rparr>)"

definition new_user :: "string \<Rightarrow> instant \<Rightarrow> string \<Rightarrow> user_role \<Rightarrow> user" where
  "new_user uid now email role =
     \<lparr>u_id = uid, u_email = email, u_role = role, u_createdAt = now, u_appInitializedAt = None\<rparr>"

text \<open>The key of the identity a login presents: \<open>preferredId?.trim() || normalizedEmail\<close> is its subject.\<close>

definition login_identity :: "string \<Rightarrow> string \<Rightarrow> string option \<Rightarrow> string option \<Rightarrow> string" where
  "login_identity defaultAuthProvider email preferredId provider =
     (let preferred = (case preferredId of None \<Rightarrow> [] | Some p \<Rightarrow> js_trim p);
          subject = (if preferred = [] then normalize_email email else preferred)
      in identity_key (case provider of None \<Rightarrow> defaultAuthProvider | Some p \<Rightarrow> p) subject)"

definition find_or_create_user ::
  "string \<Rightarrow> instant \<Rightarrow> string \<Rightarrow> mem \<Rightarrow> string \<Rightarrow> string option \<Rightarrow> string option \<Rightarrow> mem \<times> (user_error, user) res" where
  "find_or_create_user uid now defaultAuthProvider m email preferredId provider =
     (let normalizedEmail = normalize_email email;
          identity = login_identity defaultAuthProvider email preferredId provider;
          identityUserId = js_get (m_identities m) identity
      in if js_truthy identityUserId then
           (case js_get (m_users m) (the identityUserId) of
              None \<Rightarrow> (m, Inl IdentityUserMissing)
            | Some u \<Rightarrow>
                (let u' = u\<lparr>u_email := normalizedEmail\<rparr>
                 in (m\<lparr>m_users := js_set (m_users m) (the identityUserId) u'\<rparr>, Inr u')))
         else (case user_with_email m normalizedEmail of
           Some existing \<Rightarrow>
             (m\<lparr>m_identities := js_set (m_identities m) identity (u_id existing)\<rparr>, Inr existing)
         | None \<Rightarrow>
             (let u = new_user uid now normalizedEmail UserR
              in (m\<lparr>m_users := js_set (m_users m) (u_id u) u,
                    m_identities := js_set (m_identities m) identity (u_id u)\<rparr>, Inr u))))"

text \<open>The three writes that create an account with a local credential.\<close>

definition add_local_user :: "mem \<Rightarrow> user \<Rightarrow> string \<Rightarrow> mem" where
  "add_local_user m u passwordHash =
     m\<lparr>m_users := js_set (m_users m) (u_id u) u,
       m_identities := js_set (m_identities m) (identity_key ''local'' (u_email u)) (u_id u),
       m_localPasswordHashes := js_set (m_localPasswordHashes m) (u_id u) passwordHash\<rparr>"

definition create_local_user :: "string \<Rightarrow> instant \<Rightarrow> mem \<Rightarrow> string \<Rightarrow> string \<Rightarrow> mem \<times> user option" where
  "create_local_user uid now m email passwordHash =
     (let normalizedEmail = normalize_email email
      in if user_with_email m normalizedEmail \<noteq> None then (m, None)
         else (let u = new_user uid now normalizedEmail UserR
               in (add_local_user m u passwordHash, Some u)))"

definition create_managed_local_user ::
  "(js_val \<Rightarrow> js_val) \<Rightarrow> string \<Rightarrow> string \<Rightarrow> instant \<Rightarrow> mem \<Rightarrow> managed_user_input \<Rightarrow> mem \<times> (user_error, user option) res" where
  "create_managed_local_user redact uid auditId now m input =
     (let actor = js_get (m_users m) (mu_actorUserId input)
      in case assert_can_create_managed_user (map_option u_role actor) (mu_role input) of
           Inl e \<Rightarrow> (m, Inl e)
         | Inr _ \<Rightarrow>
             (let normalizedEmail = normalize_email (mu_email input)
              in if user_with_email m normalizedEmail \<noteq> None then (m, Inr None)
                 else (let u = new_user uid now normalizedEmail (mu_role input);
                           m' = add_local_user m u (mu_passwordHash input)
                       in (record_audit redact auditId now m' (map_option u_id actor) ''user.create'' ''user''
                             (Some (u_id u))
                             (JObj [(''actorRole'', JStr (case actor of Some a \<Rightarrow> role_name (u_role a) | None \<Rightarrow> [])),
                                    (''email'', JStr (u_email u)), (''role'', JStr (role_name (u_role u)))]),
                           Inr (Some u)))))"

text \<open>\<open>seedLocalManagementUserForTests\<close>: how a store comes by its first manager.\<close>

definition seed_management_user ::
  "string \<Rightarrow> instant \<Rightarrow> mem \<Rightarrow> string \<Rightarrow> string \<Rightarrow> user_role \<Rightarrow> mem \<times> (user_error, user) res" where
  "seed_management_user uid now m email passwordHash role =
     (let normalizedEmail = normalize_email email
      in if normalizedEmail = [] then (m, Inl ManagementEmailRequired)
         else if user_with_email m normalizedEmail \<noteq> None then (m, Inl TestUserAlreadyExists)
         else (let u = new_user uid now normalizedEmail role
               in (add_local_user m u passwordHash, Inr u)))"

definition list_users :: "mem \<Rightarrow> user list" where
  "list_users m = newest_first u_createdAt (js_values (m_users m))"

section \<open>Credentials\<close>

definition get_local_password_hash :: "mem \<Rightarrow> string \<Rightarrow> string option" where
  "get_local_password_hash m userId = js_get (m_localPasswordHashes m) userId"

text \<open>\<open>identity.slice(0, identity.indexOf(":"))\<close>: without a colon, everything but the last character.\<close>

definition identity_provider :: "string \<Rightarrow> string" where
  "identity_provider identity =
     (if CHR '':'' \<in> set identity then takeWhile (\<lambda>c. c \<noteq> CHR '':'') identity else butlast identity)"

definition external_providers :: "mem \<Rightarrow> string \<Rightarrow> string list" where
  "external_providers m userId =
     sort (remdups (filter (\<lambda>p. p \<noteq> [] \<and> p \<noteq> ''local'')
       (map (\<lambda>(identity, _). identity_provider identity)
         (filter (\<lambda>(_, identityUserId). identityUserId = userId) (m_identities m)))))"

definition get_account_auth_state :: "mem \<Rightarrow> string \<Rightarrow> (user_error, account_auth_state) res" where
  "get_account_auth_state m userId =
     (if \<not> js_has (m_users m) userId then Inl UserNotFound
      else Inr \<lparr>as_hasLocalCredential = js_has (m_localPasswordHashes m) userId,
                as_externalProviders = external_providers m userId\<rparr>)"

definition write_local_password_hash ::
  "mem \<Rightarrow> string \<Rightarrow> string \<Rightarrow> bool \<Rightarrow> mem \<times> (user_error, bool) res" where
  "write_local_password_hash m userId passwordHash requireExisting =
     (case js_get (m_users m) userId of
        None \<Rightarrow> (m, Inl UserNotFound)
      | Some u \<Rightarrow>
          if js_has (m_localPasswordHashes m) userId \<noteq> requireExisting then (m, Inr False)
          else (m\<lparr>m_localPasswordHashes := js_set (m_localPasswordHashes m) userId passwordHash,
                  m_identities := js_set (m_identities m) (identity_key ''local'' (u_email u)) (u_id u),
                  m_sessions := js_delete_each (\<lambda>_ s. s_userId s = userId) (m_sessions m)\<rparr>,
                Inr True))"

definition create_local_password_hash :: "mem \<Rightarrow> string \<Rightarrow> string \<Rightarrow> mem \<times> (user_error, bool) res" where
  "create_local_password_hash m userId passwordHash = write_local_password_hash m userId passwordHash False"

definition replace_local_password_hash :: "mem \<Rightarrow> string \<Rightarrow> string \<Rightarrow> string \<Rightarrow> mem \<times> (user_error, bool) res" where
  "replace_local_password_hash m userId expectedHash passwordHash =
     (if js_get (m_localPasswordHashes m) userId \<noteq> Some expectedHash then (m, Inr False)
      else write_local_password_hash m userId passwordHash True)"

section \<open>Roles\<close>

text \<open>The credential half of a promotion; demotion to \<open>user\<close> skips it.\<close>

definition promote_credentials :: "mem \<Rightarrow> user \<Rightarrow> role_change_input \<Rightarrow> mem \<times> (user_error, unit) res" where
  "promote_credentials m target input =
     (if rc_role input = UserR then (m, Inr ())
      else (let hasLocal = js_has (m_localPasswordHashes m) (u_id target)
            in if js_truthy (rc_passwordHash input) \<and> hasLocal then (m, Inl (RoleUpdate CredentialUpdateConflict))
               else if \<not> hasLocal \<and> \<not> js_truthy (rc_passwordHash input)
                 then (m, Inl (RoleUpdate LocalCredentialsRequired))
               else if hasLocal then (m, Inr ())
               else (case write_local_password_hash m (u_id target) (the (rc_passwordHash input)) False of
                 (m', Inl e) \<Rightarrow> (m', Inl e)
               | (m', Inr written) \<Rightarrow>
                   (if \<not> written then (m', Inl (RoleUpdate CredentialUpdateConflict)) else (m', Inr ())))))"

definition change_user_role ::
  "(js_val \<Rightarrow> js_val) \<Rightarrow> string \<Rightarrow> instant \<Rightarrow> mem \<Rightarrow> role_change_input \<Rightarrow> mem \<times> (user_error, user option) res" where
  "change_user_role redact auditId now m input =
     (let actor = js_get (m_users m) (rc_actorUserId input)
      in case assert_can_govern_user_roles (map_option u_role actor) of
           Inl e \<Rightarrow> (m, Inl e)
         | Inr _ \<Rightarrow>
      (case js_get (m_users m) (rc_targetUserId input) of
         None \<Rightarrow> (m, Inr None)
       | Some target \<Rightarrow>
           if map_option u_id actor = Some (u_id target) then (m, Inl (RoleUpdate SelfRoleChangeForbidden))
           else if u_role target \<noteq> rc_expectedRole input then (m, Inl (RoleUpdate RoleChangeConflict))
           else if u_role target = rc_role input then (m, Inr (Some target))
           else if u_role target = SuperAdminR \<and> rc_role input \<noteq> SuperAdminR
             \<and> length (filter (\<lambda>u. u_role u = SuperAdminR) (js_values (m_users m))) \<le> 1
             then (m, Inl (RoleUpdate LastSuperAdminCannotBeDemoted))
           else (case promote_credentials m target input of
             (m', Inl e) \<Rightarrow> (m', Inl e)
           | (m', Inr _) \<Rightarrow>
               (let target' = target\<lparr>u_role := rc_role input\<rparr>;
                    m'' = m'\<lparr>m_users := js_set (m_users m') (rc_targetUserId input) target'\<rparr>
                in (record_audit redact auditId now m'' (map_option u_id actor) ''user.role.change'' ''user''
                      (Some (u_id target'))
                      (JObj [(''actorRole'', JStr (case actor of Some a \<Rightarrow> role_name (u_role a) | None \<Rightarrow> [])),
                             (''afterRole'', JStr (role_name (u_role target'))),
                             (''beforeRole'', JStr (role_name (u_role target)))]),
                    Inr (Some target'))))))"

section \<open>Sessions\<close>

definition save_session :: "mem \<Rightarrow> string \<Rightarrow> string \<Rightarrow> instant \<Rightarrow> auth_method \<Rightarrow> mem" where
  "save_session m tokenHash userId expiresAt authMethod =
     m\<lparr>m_sessions := js_set (m_sessions m) tokenHash
        \<lparr>s_userId = userId, s_expiresAt = expiresAt, s_authMethod = authMethod\<rparr>\<rparr>"

definition delete_session :: "mem \<Rightarrow> string \<Rightarrow> mem" where
  "delete_session m tokenHash = m\<lparr>m_sessions := js_delete (m_sessions m) tokenHash\<rparr>"

definition session_user :: "mem \<Rightarrow> string \<Rightarrow> instant \<Rightarrow> mem \<times> (user_error, authenticated_user option) res" where
  "session_user m tokenHash now =
     (let expired = (delete_session m tokenHash, Inr None)
      in case js_get (m_sessions m) tokenHash of
           None \<Rightarrow> expired
         | Some s \<Rightarrow>
             if s_expiresAt s \<le> now then expired
             else (case js_get (m_users m) (s_userId s) of
               None \<Rightarrow> (m, Inr None)
             | Some u \<Rightarrow>
                 (m, rbind (get_account_auth_state m (u_id u)) (\<lambda>authState.
                       Inr (Some \<lparr>au_user = u, au_authMethod = s_authMethod s,
                         au_passwordSetupRequired = (\<not> as_hasLocalCredential authState),
                         au_linkedProviders = as_externalProviders authState\<rparr>)))))"


section \<open>The steps of the identity store\<close>

text \<open>
  One step is one call of a method that writes. An id drawn by \<open>randomUUID\<close> is not empty and
  not yet in use; that is the only assumption on it. A step is labelled with the user who acts
  in it, where the method takes one (the actor of the input); the other methods act for nobody.
\<close>

definition fresh_uid :: "mem \<Rightarrow> string \<Rightarrow> bool" where
  "fresh_uid m uid \<longleftrightarrow> uid \<noteq> [] \<and> js_get (m_users m) uid = None"

inductive acting_step :: "string option \<Rightarrow> mem \<Rightarrow> mem \<Rightarrow> bool" where
  Login: "fresh_uid m uid \<Longrightarrow> acting_step None m (fst (find_or_create_user uid now dflt m email pid prov))"
| Register: "fresh_uid m uid \<Longrightarrow> acting_step None m (fst (create_local_user uid now m email hash))"
| Create_managed: "fresh_uid m uid \<Longrightarrow>
    acting_step (Some (mu_actorUserId cinput)) m (fst (create_managed_local_user redact uid aid now m cinput))"
| Create_password: "acting_step None m (fst (create_local_password_hash m i hash))"
| Replace_password: "acting_step None m (fst (replace_local_password_hash m i old hash))"
| Change_role: "acting_step (Some (rc_actorUserId rinput)) m (fst (change_user_role redact aid now m rinput))"
| Initialized: "acting_step None m (mark_user_app_initialized m i now)"
| Save_session: "acting_step None m (save_session m th i expires method)"
| Delete_session: "acting_step None m (delete_session m th)"
| Session_user: "acting_step None m (fst (session_user m th now))"

definition user_step :: "mem \<Rightarrow> mem \<Rightarrow> bool" where
  "user_step m m' \<longleftrightarrow> (\<exists>a. acting_step a m m')"

text \<open>
  The invariant: users are stored under their ids, every identity names a user, and who
  manages holds a local password.
\<close>

definition users_inv :: "mem \<Rightarrow> bool" where
  "users_inv m \<longleftrightarrow>
     js_wf (m_users m) \<and> js_wf (m_sessions m)
     \<and> (\<forall>i u. js_get (m_users m) i = Some u \<longrightarrow> u_id u = i \<and> i \<noteq> [])
     \<and> (\<forall>k i. js_get (m_identities m) k = Some i \<longrightarrow> js_has (m_users m) i)
     \<and> (\<forall>i u. js_get (m_users m) i = Some u \<longrightarrow> u_role u \<noteq> UserR \<longrightarrow> js_has (m_localPasswordHashes m) i)"

lemma users_inv_empty: "users_inv empty_mem"
  by (simp add: users_inv_def empty_mem_def)

lemma user_with_email_Some:
  "user_with_email m e = Some u \<Longrightarrow> users_inv m \<Longrightarrow> js_get (m_users m) (u_id u) = Some u \<and> u_email u = e"
  by (auto simp: user_with_email_def users_inv_def js_in_values_iff dest!: js_find_Some)

lemma record_audit_simps [simp]:
  "m_users (record_audit rd i now m a b c d e) = m_users m"
  "m_sessions (record_audit rd i now m a b c d e) = m_sessions m"
  "m_identities (record_audit rd i now m a b c d e) = m_identities m"
  "m_localPasswordHashes (record_audit rd i now m a b c d e) = m_localPasswordHashes m"
  by (simp_all add: record_audit_def)

lemma users_inv_record_audit [simp]: "users_inv (record_audit rd i now m a b c d e) = users_inv m"
  by (simp add: users_inv_def)

lemma new_user_simps [simp]:
  "u_id (new_user i t e r) = i" "u_role (new_user i t e r) = r" "u_email (new_user i t e r) = e"
  by (simp_all add: new_user_def)

lemma add_local_user_inv:
  "users_inv m \<Longrightarrow> u_id u \<noteq> [] \<Longrightarrow> users_inv (add_local_user m u h)"
  by (auto simp: users_inv_def add_local_user_def js_has_def)

text \<open>Writing a user back under its id.\<close>

lemma set_user_inv:
  assumes "users_inv m" "js_get (m_users m) i = Some u" "u_id u' = i"
    and "u_role u' \<noteq> UserR \<Longrightarrow> js_has (m_localPasswordHashes m) i"
  shows "users_inv (m\<lparr>m_users := js_set (m_users m) i u'\<rparr>)"
  using assms by (auto simp: users_inv_def js_has_def)

lemma write_password_cases:
  obtains (missing) "write_local_password_hash m i h req = (m, Inl UserNotFound)" "js_get (m_users m) i = None"
  | (refused) "write_local_password_hash m i h req = (m, Inr False)"
  | (written) u where "js_get (m_users m) i = Some u"
      "write_local_password_hash m i h req =
        (m\<lparr>m_localPasswordHashes := js_set (m_localPasswordHashes m) i h,
           m_identities := js_set (m_identities m) (identity_key ''local'' (u_email u)) (u_id u),
           m_sessions := js_delete_each (\<lambda>_ s. s_userId s = i) (m_sessions m)\<rparr>, Inr True)"
proof (cases "js_get (m_users m) i")
  case None
  then show ?thesis using missing by (simp add: write_local_password_hash_def)
next
  case (Some u)
  then show ?thesis
    using refused written [of u]
    by (cases "js_has (m_localPasswordHashes m) i = req") (simp_all add: write_local_password_hash_def)
qed

lemma write_password_inv:
  assumes "users_inv m"
  shows "users_inv (fst (write_local_password_hash m i h req))"
  using assms by (cases rule: write_password_cases [of m i h req]) (auto simp: users_inv_def js_has_def)

lemma write_password_users [simp]: "m_users (fst (write_local_password_hash m i h req)) = m_users m"
  by (cases rule: write_password_cases [of m i h req]) simp_all

lemma find_or_create_inv:
  assumes "users_inv m" "fresh_uid m uid"
  shows "users_inv (fst (find_or_create_user uid now dflt m email pid prov))"
proof -
  have "users_inv (m\<lparr>m_identities := js_set (m_identities m) k (u_id u)\<rparr>)"
    if "user_with_email m e = Some u" for e u k
    using assms(1) user_with_email_Some [OF that assms(1)] by (auto simp: users_inv_def js_has_def)
  moreover have "users_inv (m\<lparr>m_users := js_set (m_users m) uid u, m_identities := js_set (m_identities m) k uid\<rparr>)"
    if "u_id u = uid" "u_role u = UserR" for u k
    using assms that by (auto simp: users_inv_def js_has_def fresh_uid_def)
  moreover have "users_inv (m\<lparr>m_users := js_set (m_users m) i (u\<lparr>u_email := e\<rparr>)\<rparr>)"
    if "js_get (m_users m) i = Some u" for i u e
    using assms(1) that by (intro set_user_inv) (auto simp: users_inv_def)
  ultimately show ?thesis
    using assms(1) by (auto simp: find_or_create_user_def Let_def split: option.splits)
qed

lemma promote_credentials_cases:
  obtains (error) e where "promote_credentials m u inp = (m, Inl e)"
  | (kept) "promote_credentials m u inp = (m, Inr ())"
      "rc_role inp \<noteq> UserR \<Longrightarrow> js_has (m_localPasswordHashes m) (u_id u)"
  | (written) h where
      "promote_credentials m u inp = (fst (write_local_password_hash m (u_id u) h False), Inr ())"
      "js_has (m_localPasswordHashes (fst (write_local_password_hash m (u_id u) h False))) (u_id u)"
proof -
  let ?p = "promote_credentials m u inp"
  let ?w = "\<lambda>h. fst (write_local_password_hash m (u_id u) h False)"
  have "(\<exists>e. ?p = (m, Inl e))
    \<or> ?p = (m, Inr ()) \<and> (rc_role inp \<noteq> UserR \<longrightarrow> js_has (m_localPasswordHashes m) (u_id u))
    \<or> (\<exists>h. ?p = (?w h, Inr ()) \<and> js_has (m_localPasswordHashes (?w h)) (u_id u))"
  proof (cases rule: write_password_cases [of m "u_id u" "the (rc_passwordHash inp)" False])
    case (written u')
    then show ?thesis
      by (cases "js_has (m_localPasswordHashes m) (u_id u)")
        (auto simp: promote_credentials_def intro!: exI [of _ "the (rc_passwordHash inp)"])
  qed (auto simp: promote_credentials_def Let_def)
  then show thesis using error kept written by blast
qed

text \<open>What a call of \<open>changeUserRole\<close> that changes a role has checked.\<close>

lemma change_role_cases:
  obtains (same) "fst (change_user_role rd aid now m inp) = m"
  | (changed) actor target m' where
      "js_get (m_users m) (rc_actorUserId inp) = Some actor" "u_role actor = SuperAdminR"
      "js_get (m_users m) (rc_targetUserId inp) = Some target" "u_id actor \<noteq> u_id target"
      "u_role target = rc_expectedRole inp"
      "promote_credentials m target inp = (m', Inr ())"
      "fst (change_user_role rd aid now m inp) =
         record_audit rd aid now
           (m'\<lparr>m_users := js_set (m_users m') (rc_targetUserId inp) (target\<lparr>u_role := rc_role inp\<rparr>)\<rparr>)
           (Some (u_id actor)) ''user.role.change'' ''user'' (Some (u_id target))
           (JObj [(''actorRole'', JStr (role_name (u_role actor))),
                  (''afterRole'', JStr (role_name (rc_role inp))),
                  (''beforeRole'', JStr (role_name (u_role target)))])"
proof (cases "\<exists>actor target m'. js_get (m_users m) (rc_actorUserId inp) = Some actor \<and> u_role actor = SuperAdminR \<and>
    js_get (m_users m) (rc_targetUserId inp) = Some target \<and> u_id actor \<noteq> u_id target \<and>
    u_role target = rc_expectedRole inp \<and> promote_credentials m target inp = (m', Inr ())")
  case True
  then obtain actor target m' where
    *: "js_get (m_users m) (rc_actorUserId inp) = Some actor" "u_role actor = SuperAdminR"
      "js_get (m_users m) (rc_targetUserId inp) = Some target" "u_id actor \<noteq> u_id target"
      "u_role target = rc_expectedRole inp" "promote_credentials m target inp = (m', Inr ())"
    by blast
  show ?thesis
  proof (cases "fst (change_user_role rd aid now m inp) = m")
    case False
    with * show ?thesis
      using that(2) [OF *] by (auto simp: change_user_role_def assert_can_govern_user_roles_def Let_def split: if_splits)
  qed (rule that(1))
next
  case False
  have "fst (change_user_role rd aid now m inp) = m"
  proof (cases "js_get (m_users m) (rc_actorUserId inp)")
    case (Some actor)
    show ?thesis
    proof (cases "js_get (m_users m) (rc_targetUserId inp)")
      case None
      with Some show ?thesis by (simp add: change_user_role_def assert_can_govern_user_roles_def Let_def)
    next
      case target: (Some target)
      have "fst (promote_credentials m target inp) = m \<and> (\<exists>e. snd (promote_credentials m target inp) = Inl e)
        \<or> u_role actor \<noteq> SuperAdminR \<or> u_id actor = u_id target \<or> u_role target \<noteq> rc_expectedRole inp"
        using False Some target by (cases rule: promote_credentials_cases [of m target inp]) auto
      with Some target show ?thesis
        by (cases "promote_credentials m target inp")
          (auto simp: change_user_role_def assert_can_govern_user_roles_def Let_def)
    qed
  qed (simp add: change_user_role_def assert_can_govern_user_roles_def Let_def)
  then show ?thesis by (rule that(1))
qed


lemma change_role_inv:
  assumes inv: "users_inv m"
  shows "users_inv (fst (change_user_role rd aid now m inp))"
proof (cases rule: change_role_cases [of rd aid now m inp])
  case (changed actor target m')
  from inv changed(3) have id: "u_id target = rc_targetUserId inp" by (auto simp: users_inv_def)
  have "users_inv m'" "m_users m' = m_users m"
    "rc_role inp \<noteq> UserR \<Longrightarrow> js_has (m_localPasswordHashes m') (u_id target)"
    using inv changed(6) write_password_inv [OF inv]
    by (cases rule: promote_credentials_cases [of m target inp]; auto)+
  then have "users_inv (m'\<lparr>m_users := js_set (m_users m') (rc_targetUserId inp) (target\<lparr>u_role := rc_role inp\<rparr>)\<rparr>)"
    using changed(3) id by (intro set_user_inv [of m' _ target]) auto
  with changed(7) show ?thesis by simp
qed (simp add: inv)

text \<open>What \<open>createManagedLocalUser\<close> has checked when it creates an account.\<close>

lemma create_managed_cases:
  obtains (same) "fst (create_managed_local_user rd uid aid now m inp) = m"
  | (created) actor u where
      "js_get (m_users m) (mu_actorUserId inp) = Some actor" "is_management_role (u_role actor)"
      "u_role u = UserR \<or> u_role actor = SuperAdminR"
      "u_id u = uid" "u_role u = mu_role inp"
      "users_inv (fst (create_managed_local_user rd uid aid now m inp)) =
         users_inv (add_local_user m u (mu_passwordHash inp))"
      "m_users (fst (create_managed_local_user rd uid aid now m inp)) = js_set (m_users m) uid u"
proof (cases "fst (create_managed_local_user rd uid aid now m inp) = m")
  case False
  let ?u = "new_user uid now (normalize_email (mu_email inp)) (mu_role inp)"
  obtain actor where actor: "js_get (m_users m) (mu_actorUserId inp) = Some actor"
    using False by (cases "js_get (m_users m) (mu_actorUserId inp)")
      (auto simp: create_managed_local_user_def assert_can_create_managed_user_def)
  have allowed: "is_management_role (u_role actor)" "mu_role inp = UserR \<or> u_role actor = SuperAdminR"
    using False actor
    by (auto simp: create_managed_local_user_def assert_can_create_managed_user_def split: if_splits)
  have free: "user_with_email m (normalize_email (mu_email inp)) = None"
    using False actor allowed
    by (cases "user_with_email m (normalize_email (mu_email inp))")
      (auto simp: create_managed_local_user_def assert_can_create_managed_user_def)
  show ?thesis
    using actor allowed free
    by (intro that(2) [of actor ?u])
      (auto simp: create_managed_local_user_def assert_can_create_managed_user_def Let_def add_local_user_def)
qed (rule that(1))

lemma sessions_inv:
  "users_inv m \<Longrightarrow> js_wf ss \<Longrightarrow> users_inv (m\<lparr>m_sessions := ss\<rparr>)"
  by (simp add: users_inv_def)

lemma save_session_inv: "users_inv m \<Longrightarrow> users_inv (save_session m th i e a)"
  by (simp add: users_inv_def save_session_def)

lemma delete_session_inv: "users_inv m \<Longrightarrow> users_inv (delete_session m th)"
  by (simp add: users_inv_def delete_session_def)

lemma session_user_cases: "fst (session_user m th now) = m \<or> fst (session_user m th now) = delete_session m th"
  by (auto simp: session_user_def Let_def split: option.splits)

lemma create_local_inv:
  "users_inv m \<Longrightarrow> fresh_uid m uid \<Longrightarrow> users_inv (fst (create_local_user uid now m email h))"
  by (auto simp: create_local_user_def Let_def fresh_uid_def intro: add_local_user_inv)

lemma initialized_inv:
  assumes "users_inv m"
  shows "users_inv (mark_user_app_initialized m i now)"
proof (cases "js_get (m_users m) i")
  case (Some u)
  with assms have "u_id u = i" "u_role u \<noteq> UserR \<Longrightarrow> js_has (m_localPasswordHashes m) i"
    by (auto simp: users_inv_def)
  with assms Some show ?thesis
    by (auto simp: mark_user_app_initialized_def intro!: set_user_inv)
qed (simp add: mark_user_app_initialized_def assms)

lemma create_managed_inv:
  assumes "users_inv m" "fresh_uid m uid"
  shows "users_inv (fst (create_managed_local_user rd uid aid now m inp))"
proof (cases rule: create_managed_cases [of rd uid aid now m inp])
  case (created actor u)
  then show ?thesis using assms by (auto simp: fresh_uid_def intro: add_local_user_inv)
qed (simp add: assms)

lemma acting_step_inv: "acting_step a m m' \<Longrightarrow> users_inv m \<Longrightarrow> users_inv m'"
proof (induction rule: acting_step.induct)
  case (Session_user m th now)
  then show ?case using session_user_cases [of m th now] by (metis delete_session_inv)
qed (simp_all add: find_or_create_inv create_local_inv create_managed_inv create_local_password_hash_def
    replace_local_password_hash_def write_password_inv change_role_inv initialized_inv
    save_session_inv delete_session_inv)

lemma user_step_inv: "user_step m m' \<Longrightarrow> users_inv m \<Longrightarrow> users_inv m'"
  unfolding user_step_def by (blast intro: acting_step_inv)

text \<open>Every step that is not a role change leaves the role of every known user as it is.\<close>

definition role_of :: "mem \<Rightarrow> string \<Rightarrow> user_role" where
  "role_of m i = (case js_get (m_users m) i of None \<Rightarrow> UserR | Some u \<Rightarrow> u_role u)"

text \<open>The acting user is another one than \<open>i\<close>, a super administrator before the step and after it.\<close>

definition governed_by :: "string option \<Rightarrow> mem \<Rightarrow> mem \<Rightarrow> string \<Rightarrow> bool" where
  "governed_by actor m m' i \<longleftrightarrow>
     (\<exists>a. actor = Some a \<and> a \<noteq> i \<and> role_of m a = SuperAdminR \<and> role_of m' a = SuperAdminR)"

lemma role_of_set: "role_of (m\<lparr>m_users := js_set (m_users m) j u\<rparr>) i = (if i = j then u_role u else role_of m i)"
  by (simp add: role_of_def)

lemma role_of_identities [simp]: "role_of (m\<lparr>m_identities := x\<rparr>) i = role_of m i"
  by (simp add: role_of_def)

lemma find_or_create_role:
  assumes "fresh_uid m uid"
  shows "role_of (fst (find_or_create_user uid now dflt m email pid prov)) i = role_of m i"
proof -
  let ?k = "login_identity dflt email pid prov"
  show ?thesis
  proof (cases "js_truthy (js_get (m_identities m) ?k)")
    case True
    then show ?thesis
      by (cases "js_get (m_users m) (the (js_get (m_identities m) ?k))")
        (auto simp: find_or_create_user_def Let_def role_of_def)
  next
    case False
    have "role_of m uid = UserR" using assms by (simp add: role_of_def fresh_uid_def)
    with False show ?thesis
      by (cases "user_with_email m (normalize_email email)")
        (simp_all add: find_or_create_user_def Let_def role_of_def)
  qed
qed

lemma create_local_role:
  "fresh_uid m uid \<Longrightarrow> role_of (fst (create_local_user uid now m email h)) i = role_of m i"
  by (simp add: create_local_user_def Let_def role_of_def fresh_uid_def add_local_user_def)

lemma initialized_role: "role_of (mark_user_app_initialized m j now) i = role_of m i"
  by (cases "js_get (m_users m) j") (simp_all add: mark_user_app_initialized_def role_of_def)

lemma session_roles:
  "role_of (save_session m th j e a) i = role_of m i"
  "role_of (delete_session m th) i = role_of m i"
  by (simp_all add: role_of_def save_session_def delete_session_def)

lemma password_roles:
  "role_of (fst (create_local_password_hash m j h)) i = role_of m i"
  "role_of (fst (replace_local_password_hash m j old h)) i = role_of m i"
  by (simp_all add: role_of_def create_local_password_hash_def replace_local_password_hash_def)

lemma acting_step_role:
  assumes "acting_step actor m m'" "users_inv m" "role_of m' i \<noteq> role_of m i"
  shows "governed_by actor m m' i"
  using assms
proof (induction rule: acting_step.induct)
  case (Create_managed m uid inp rd aid now)
  show ?case
  proof (cases rule: create_managed_cases [of rd uid aid now m inp])
    case (created actor u)
    with Create_managed have "i = uid" "u_role actor = SuperAdminR" "mu_actorUserId inp \<noteq> uid"
      by (auto simp: role_of_def fresh_uid_def split: if_splits)
    with created(1,7) show ?thesis
      by (auto simp: governed_by_def role_of_def)
  qed (use Create_managed in simp)
next
  case (Change_role inp m rd aid now)
  show ?case
  proof (cases rule: change_role_cases [of rd aid now m inp])
    case (changed actor target m')
    have users: "m_users m' = m_users m"
      using changed(6) by (cases rule: promote_credentials_cases [of m target inp]) auto
    with changed Change_role have "i = rc_targetUserId inp"
      by (auto simp: role_of_def split: if_splits)
    with changed Change_role(1) show ?thesis
      by (auto simp: governed_by_def role_of_def users_inv_def users)
  qed (use Change_role in simp)
next
  case (Session_user m th now)
  then show ?case using session_user_cases [of m th now] by (metis session_roles(2))
qed (simp_all add: find_or_create_role create_local_role initialized_role session_roles password_roles)


lemma user_steps_inv: "user_step\<^sup>*\<^sup>* m m' \<Longrightarrow> users_inv m \<Longrightarrow> users_inv m'"
  by (induction rule: rtranclp_induct) (auto intro: user_step_inv)

text \<open>The guard for the last super administrator is implied by the guards before it.\<close>

lemma last_guard_idle:
  assumes inv: "users_inv m"
  shows "snd (change_user_role rd aid now m inp) \<noteq> Inl (RoleUpdate LastSuperAdminCannotBeDemoted)"
proof
  assume last: "snd (change_user_role rd aid now m inp) = Inl (RoleUpdate LastSuperAdminCannotBeDemoted)"
  then obtain actor where actor: "js_get (m_users m) (rc_actorUserId inp) = Some actor"
    by (cases "js_get (m_users m) (rc_actorUserId inp)")
      (auto simp: change_user_role_def assert_can_govern_user_roles_def)
  with last obtain target where target: "js_get (m_users m) (rc_targetUserId inp) = Some target"
    by (cases "js_get (m_users m) (rc_targetUserId inp)")
      (auto simp: change_user_role_def assert_can_govern_user_roles_def split: if_splits)
  have promote: "snd (promote_credentials m target inp) \<noteq> Inl (RoleUpdate LastSuperAdminCannotBeDemoted)"
    by (cases "js_get (m_users m) (u_id target)"; cases "rc_passwordHash inp")
      (auto simp: promote_credentials_def Let_def write_local_password_hash_def)
  have facts: "u_role actor = SuperAdminR" "u_role target = SuperAdminR" "u_id actor \<noteq> u_id target"
    "length (filter (\<lambda>u. u_role u = SuperAdminR) (js_values (m_users m))) \<le> 1"
    using last promote
    by (auto simp: change_user_role_def assert_can_govern_user_roles_def Let_def actor target
        split: if_splits prod.splits sum.splits)
  have "actor \<in> set (filter (\<lambda>u. u_role u = SuperAdminR) (js_values (m_users m)))"
    "target \<in> set (filter (\<lambda>u. u_role u = SuperAdminR) (js_values (m_users m)))"
    using facts actor target by (auto dest: js_get_in_values)
  moreover have "actor \<noteq> target" using facts(3) by blast
  ultimately show False using facts(4)
    by (cases "filter (\<lambda>u. u_role u = SuperAdminR) (js_values (m_users m))") auto
qed

text \<open>The stores that are reached: seeded with managers, then any calls.\<close>

inductive users_reachable :: "mem \<Rightarrow> bool" where
  Empty: "users_reachable empty_mem"
| Seed: "users_reachable m \<Longrightarrow> fresh_uid m uid \<Longrightarrow> users_reachable (fst (seed_management_user uid now m email h role))"
| Step: "users_reachable m \<Longrightarrow> user_step m m' \<Longrightarrow> users_reachable m'"

lemma seed_inv: "users_inv m \<Longrightarrow> fresh_uid m uid \<Longrightarrow> users_inv (fst (seed_management_user uid now m email h role))"
  by (auto simp: seed_management_user_def Let_def fresh_uid_def intro: add_local_user_inv)

lemma users_reachable_inv: "users_reachable m \<Longrightarrow> users_inv m"
  by (induction rule: users_reachable.induct) (auto intro: users_inv_empty seed_inv user_step_inv)

text \<open>What a session yields.\<close>

lemma session_user_iff:
  "users_inv m \<Longrightarrow> snd (session_user m th now) = Inr (Some au) \<longleftrightarrow>
      (\<exists>s. js_get (m_sessions m) th = Some s \<and> now < s_expiresAt s
         \<and> js_get (m_users m) (s_userId s) = Some (au_user au) \<and> u_id (au_user au) = s_userId s
         \<and> au_authMethod au = s_authMethod s
         \<and> au_passwordSetupRequired au = (js_get (m_localPasswordHashes m) (s_userId s) = None)
         \<and> au_linkedProviders au = external_providers m (s_userId s))"
  by (cases au)
    (auto simp: session_user_def Let_def get_account_auth_state_def users_inv_def js_has_def split: option.splits)

lemma session_user_total: "users_inv m \<Longrightarrow> \<exists>r. snd (session_user m th now) = Inr r"
  by (auto simp: session_user_def Let_def get_account_auth_state_def users_inv_def js_has_def split: option.splits)

lemma session_user_store:
  "js_get (m_sessions (fst (session_user m th now))) th =
     (case js_get (m_sessions m) th of None \<Rightarrow> None
      | Some s \<Rightarrow> if s_expiresAt s \<le> now then None else Some s)"
  by (auto simp: session_user_def Let_def delete_session_def split: option.splits)

section \<open>Properties\<close>

definition admin_1 :: user where
  "admin_1 = new_user ''a1'' 1 ''root@x'' SuperAdminR"

definition staffed :: mem where
  "staffed = fst (seed_management_user ''a1'' 1 empty_mem ''root@x'' ''h'' SuperAdminR)"

definition staffed_two :: mem where
  "staffed_two = fst (create_local_user ''u2'' 2 staffed ''bob@x'' ''h2'')"

definition promotion :: role_change_input where
  "promotion = \<lparr>rc_actorUserId = ''a1'', rc_targetUserId = ''u2'', rc_expectedRole = UserR,
     rc_role = AdminR, rc_passwordHash = None\<rparr>"

lemma staffed_reachable: "users_reachable staffed"
  unfolding staffed_def by (rule users_reachable.Seed [OF users_reachable.Empty]) code_simp

lemma staffed_two_inv: "users_inv staffed_two"
  unfolding staffed_two_def
  by (rule create_local_inv [OF users_reachable_inv [OF staffed_reachable]]) code_simp

lemma promotion_step:
  "acting_step (Some (rc_actorUserId promotion)) staffed_two (fst (change_user_role (\<lambda>x. x) ''e'' 3 staffed_two promotion))"
  by (rule acting_step.Change_role)

lemma promotion_user_step: "user_step staffed_two (fst (change_user_role (\<lambda>x. x) ''e'' 3 staffed_two promotion))"
  using promotion_step unfolding user_step_def by blast

text \<open>C6: in a step of the identity store the role of a user (an account that does not exist yet
  counting as a plain user) changes only when the user who acts in the step is somebody else, who
  is a super administrator before and after it: nobody changes the own role, managers with less
  than that role change none and create no managers, and registering, logging in, sessions and
  passwords never change a role.\<close>

theorem roles_change_under_super_admin:
  assumes "acting_step actor m m'" "users_inv m" "role_of m' i \<noteq> role_of m i"
  shows "\<exists>a. actor = Some a \<and> a \<noteq> i \<and> role_of m a = SuperAdminR \<and> role_of m' a = SuperAdminR"
  using acting_step_role [OF assms] by (simp only: governed_by_def)

text \<open>The administrator promotes a user; asked to demote the own account, nothing changes.\<close>

theorem roles_change_under_super_admin_witness:
  "role_of (fst (change_user_role (\<lambda>x. x) ''e'' 3 staffed_two promotion)) ''u2'' = AdminR
   \<and> role_of (fst (change_user_role (\<lambda>x. x) ''e'' 3 staffed_two promotion)) ''a1'' = SuperAdminR
   \<and> snd (change_user_role (\<lambda>x. x) ''e'' 3 staffed_two
        (promotion\<lparr>rc_targetUserId := ''a1'', rc_expectedRole := SuperAdminR\<rparr>))
      = Inl (RoleUpdate SelfRoleChangeForbidden)"
proof -
  have "role_of (fst (change_user_role (\<lambda>x. x) ''e'' 3 staffed_two promotion)) ''u2'' \<noteq> role_of staffed_two ''u2''"
    by code_simp
  from roles_change_under_super_admin [OF promotion_step staffed_two_inv this]
  have "role_of (fst (change_user_role (\<lambda>x. x) ''e'' 3 staffed_two promotion)) ''a1'' = SuperAdminR"
    by (simp add: promotion_def)
  moreover have "role_of (fst (change_user_role (\<lambda>x. x) ''e'' 3 staffed_two promotion)) ''u2'' = AdminR"
    by code_simp
  moreover have "snd (change_user_role (\<lambda>x. x) ''e'' 3 staffed_two
        (promotion\<lparr>rc_targetUserId := ''a1'', rc_expectedRole := SuperAdminR\<rparr>))
      = Inl (RoleUpdate SelfRoleChangeForbidden)"
    by code_simp
  ultimately show ?thesis by blast
qed

text \<open>C7: whatever the users of the store do, once there is a super administrator there is one
  forever; the guard against demoting the last one, which the code has besides, never fires,
  because the acting super administrator is another user.\<close>

theorem super_admin_always_remains:
  assumes "user_step\<^sup>*\<^sup>* m m'" "users_inv m" "role_of m a = SuperAdminR"
  shows "(\<exists>b. role_of m' b = SuperAdminR)
    \<and> snd (change_user_role rd aid now m' inp) \<noteq> Inl (RoleUpdate LastSuperAdminCannotBeDemoted)"
proof
  show "\<exists>b. role_of m' b = SuperAdminR" using assms
  proof (induction rule: rtranclp_induct)
    case (step y z)
    then obtain b where b: "role_of y b = SuperAdminR" by blast
    have "users_inv y" using step user_steps_inv by blast
    moreover obtain actor where "acting_step actor y z" using step(2) by (auto simp: user_step_def)
    ultimately show ?case using acting_step_role [of actor y z b] b unfolding governed_by_def by metis
  qed blast
next
  have inv: "users_inv m'" using assms user_steps_inv by blast
  show "snd (change_user_role rd aid now m' inp) \<noteq> Inl (RoleUpdate LastSuperAdminCannotBeDemoted)"
    using last_guard_idle [OF inv] .
qed

theorem super_admin_always_remains_witness:
  "\<exists>b. role_of (fst (change_user_role (\<lambda>x. x) ''e'' 3 staffed_two promotion)) b = SuperAdminR"
proof -
  have "role_of staffed_two ''a1'' = SuperAdminR" by code_simp
  from super_admin_always_remains [OF r_into_rtranclp [where r = user_step, OF promotion_user_step] staffed_two_inv this]
  show ?thesis by blast
qed

text \<open>In every store that calls of the identity methods reach, logging in never meets an
  identity without its user, and who holds a management role holds a local password (an
  external identity alone never carries a manager).\<close>

theorem managers_hold_local_passwords:
  assumes "users_reachable m"
  shows "(get_user m i = Some u \<longrightarrow> u_role u = UserR \<or> get_local_password_hash m i \<noteq> None)
    \<and> snd (find_or_create_user uid now dflt m email pid prov) \<noteq> Inl IdentityUserMissing"
proof -
  have inv: "users_inv m" using assms by (rule users_reachable_inv)
  let ?i = "js_get (m_identities m) (login_identity dflt email pid prov)"
  have "js_truthy ?i \<longrightarrow> js_has (m_users m) (the ?i)"
    using inv by (cases ?i) (auto simp: users_inv_def)
  then have "snd (find_or_create_user uid now dflt m email pid prov) \<noteq> Inl IdentityUserMissing"
    by (auto simp: find_or_create_user_def Let_def js_has_def split: option.splits)
  with inv show ?thesis by (auto simp: users_inv_def get_user_def get_local_password_hash_def js_has_def)
qed

theorem managers_hold_local_passwords_witness:
  "get_local_password_hash staffed ''a1'' \<noteq> None"
proof -
  have "get_user staffed ''a1'' = Some admin_1" "u_role admin_1 \<noteq> UserR" by code_simp+
  with managers_hold_local_passwords [OF staffed_reachable] show ?thesis by blast
qed

text \<open>C8: a successful change of a local password stores the new hash, ends every session of the
  account, under whatever token, and leaves the sessions of all others alone; it succeeds only
  on the hash the caller has verified.\<close>

theorem password_change_ends_sessions:
  assumes "users_inv m" "replace_local_password_hash m i old hash = (m', Inr True)"
  shows "get_local_password_hash m i = Some old \<and> get_local_password_hash m' i = Some hash
    \<and> js_get (m_sessions m') th =
        (case js_get (m_sessions m) th of None \<Rightarrow> None
         | Some s \<Rightarrow> if s_userId s = i then None else Some s)
    \<and> (snd (session_user m' th now) = Inr (Some au) \<longrightarrow> u_id (au_user au) \<noteq> i)"
proof -
  have hash: "js_get (m_localPasswordHashes m) i = Some old"
    using assms(2) by (auto simp: replace_local_password_hash_def split: if_splits)
  with assms(2) have wr: "write_local_password_hash m i hash True = (m', Inr True)"
    by (simp add: replace_local_password_hash_def)
  then obtain u where u: "js_get (m_users m) i = Some u"
    and m': "m' = m\<lparr>m_localPasswordHashes := js_set (m_localPasswordHashes m) i hash,
        m_identities := js_set (m_identities m) (identity_key ''local'' (u_email u)) (u_id u),
        m_sessions := js_delete_each (\<lambda>_ s. s_userId s = i) (m_sessions m)\<rparr>"
    by (cases rule: write_password_cases [of m i hash True]) auto
  have sessions: "js_get (m_sessions m') th =
      (case js_get (m_sessions m) th of None \<Rightarrow> None | Some s \<Rightarrow> if s_userId s = i then None else Some s)"
    using assms(1) by (simp add: m' users_inv_def)
  have "u_id (au_user au) \<noteq> i" if au: "snd (session_user m' th now) = Inr (Some au)"
  proof -
    have "users_inv m'" using write_password_inv [OF assms(1), of i hash True] wr by simp
    then obtain s where "js_get (m_sessions m') th = Some s" "u_id (au_user au) = s_userId s"
      using au session_user_iff [of m' th now au] by blast
    with sessions show ?thesis by (auto split: option.splits if_splits)
  qed
  with hash sessions show ?thesis by (simp add: get_local_password_hash_def m')
qed

theorem password_change_ends_sessions_witness:
  "js_get (m_sessions (fst (replace_local_password_hash
      (save_session staffed_two ''t'' ''u2'' 100 ''local'') ''u2'' ''h2'' ''h3''))) ''t'' = None"
proof -
  let ?m = "save_session staffed_two ''t'' ''u2'' 100 ''local''"
  have inv: "users_inv ?m" by (rule save_session_inv [OF staffed_two_inv])
  have ok: "replace_local_password_hash ?m ''u2'' ''h2'' ''h3''
      = (fst (replace_local_password_hash ?m ''u2'' ''h2'' ''h3''), Inr True)"
    by code_simp
  have "js_get (m_sessions ?m) ''t'' = Some \<lparr>s_userId = ''u2'', s_expiresAt = 100, s_authMethod = ''local''\<rparr>"
    by code_simp
  with password_change_ends_sessions [OF inv ok, of "''t''"] show ?thesis by simp
qed

text \<open>A session yields a user exactly while it is stored and unexpired, and then its own user
  with the account's current role and credential state; it never throws, whatever the store
  holds, and an expired or unknown token leaves no session behind.\<close>

theorem session_yields_its_user:
  assumes "users_inv m"
  shows "(snd (session_user m th now) = Inr (Some au) \<longleftrightarrow>
      (\<exists>s. js_get (m_sessions m) th = Some s \<and> now < s_expiresAt s
         \<and> get_user m (s_userId s) = Some (au_user au) \<and> au_authMethod au = s_authMethod s
         \<and> au_passwordSetupRequired au = (get_local_password_hash m (s_userId s) = None)
         \<and> au_linkedProviders au = external_providers m (s_userId s)))
    \<and> (\<exists>r. snd (session_user m th now) = Inr r)
    \<and> (js_get (m_sessions (fst (session_user m th now))) th =
        (case js_get (m_sessions m) th of None \<Rightarrow> None
         | Some s \<Rightarrow> if s_expiresAt s \<le> now then None else Some s))"
proof -
  have "u_id u = j" if "js_get (m_users m) j = Some u" for j u
    using assms that by (auto simp: users_inv_def)
  then show ?thesis
    unfolding session_user_iff [OF assms] session_user_store get_user_def get_local_password_hash_def
    by (simp add: session_user_total [OF assms] cong: conj_cong)
qed

theorem session_yields_its_user_witness:
  "\<exists>au. snd (session_user (save_session staffed_two ''t'' ''u2'' 100 ''local'') ''t'' 99) = Inr (Some au)
     \<and> u_role (au_user au) = UserR"
proof -
  let ?m = "save_session staffed_two ''t'' ''u2'' 100 ''local''"
  let ?au = "\<lparr>au_user = new_user ''u2'' 2 ''bob@x'' UserR, au_authMethod = ''local'',
    au_passwordSetupRequired = False, au_linkedProviders = []\<rparr>"
  have "js_get (m_sessions ?m) ''t'' = Some \<lparr>s_userId = ''u2'', s_expiresAt = 100, s_authMethod = ''local''\<rparr>"
    "get_user ?m ''u2'' = Some (new_user ''u2'' 2 ''bob@x'' UserR)"
    "get_local_password_hash ?m ''u2'' \<noteq> None" "external_providers ?m ''u2'' = []"
    by code_simp+
  then have "snd (session_user ?m ''t'' 99) = Inr (Some ?au)"
    using session_yields_its_user [where th = "''t''" and now = 99 and au = ?au, OF save_session_inv [OF staffed_two_inv]]
    by simp
  then show ?thesis by (intro exI [of _ ?au]) simp
qed

text \<open>A login through a known identity overwrites the e-mail of its account with the one the
  identity presents, although another account may have it: afterwards two accounts share the
  address, while every other method refuses or reuses an address in use.\<close>

theorem login_may_duplicate_email:
  assumes "users_inv m" "js_get (m_identities m) (login_identity dflt email pid prov) = Some j"
    and "get_user m i = Some v" "u_email v = normalize_email email" "i \<noteq> j"
  shows "\<exists>w. get_user (fst (find_or_create_user uid now dflt m email pid prov)) j = Some w
    \<and> u_email w = u_email v
    \<and> get_user (fst (find_or_create_user uid now dflt m email pid prov)) i = Some v"
proof -
  obtain u where "js_get (m_users m) j = Some u" "j \<noteq> []"
    using assms(1,2) by (fastforce simp: users_inv_def js_has_def)
  with assms(2-) show ?thesis by (auto simp: find_or_create_user_def Let_def get_user_def)
qed

definition linked_store :: mem where
  "linked_store = fst (find_or_create_user ''u3'' 3 ''sso'' staffed_two ''carol@x'' (Some ''s3'') None)"

theorem login_may_duplicate_email_witness:
  "\<exists>v w. get_user (fst (find_or_create_user ''u4'' 4 ''sso'' linked_store ''bob@x'' (Some ''s3'') None)) ''u3'' = Some w
     \<and> get_user (fst (find_or_create_user ''u4'' 4 ''sso'' linked_store ''bob@x'' (Some ''s3'') None)) ''u2'' = Some v
     \<and> u_email w = u_email v"
proof -
  let ?v = "new_user ''u2'' 2 ''bob@x'' UserR"
  have inv: "users_inv linked_store"
    unfolding linked_store_def by (rule find_or_create_inv [OF staffed_two_inv]) code_simp
  have "js_get (m_identities linked_store) (login_identity ''sso'' ''bob@x'' (Some ''s3'') None) = Some ''u3''"
    "get_user linked_store ''u2'' = Some ?v" "u_email ?v = normalize_email ''bob@x''" "''u2'' \<noteq> ''u3''"
    by code_simp+
  from login_may_duplicate_email [OF inv this] show ?thesis by metis
qed

end
