(* ===== verification/Memory_Tenants.thy ===== *)
theory Memory_Tenants
  imports Memory_Workspaces Memory_Users
begin

text \<open>
  Tenants: the tenant methods of \<open>MemoryPersistence\<close>, the service of
  \<open>tenant-membership.ts\<close> and the ownership check of \<open>workspace-authorization.ts\<close>. The service
  awaits every store call; what other requests do to the store in between is an argument
  \<open>env k\<close>, applied before the \<open>k\<close>-th call. Shown: access to a workspace is granted to its
  owner alone, whatever interferes, and a refusal does not tell whether the workspace exists.
\<close>

datatype tenant_error =
    TenantUserNotFound | TenantUserRequired | BindingConflict | MembershipRequired

section \<open>The store's methods\<close>

definition personal_tenant_id :: "string \<Rightarrow> (tenant_error, string) res" where
  "personal_tenant_id userId =
     (let normalized = js_trim userId
      in if normalized = [] then Inl TenantUserRequired else Inr (''personal:'' @ normalized))"

definition ensure_personal_tenant ::
  "instant \<Rightarrow> mem \<Rightarrow> string \<Rightarrow> mem \<times> (tenant_error, tenant \<times> membership) res" where
  "ensure_personal_tenant now m userId =
     (case js_get (m_users m) userId of
        None \<Rightarrow> (m, Inl TenantUserNotFound)
      | Some u \<Rightarrow>
     (case personal_tenant_id (u_id u) of
        Inl e \<Rightarrow> (m, Inl e)
      | Inr i \<Rightarrow>
          (let (m1, t) =
             (case js_get (m_tenants m) i of
                Some t \<Rightarrow> (m, t)
              | None \<Rightarrow>
                  (let t = \<lparr>t_id = i, t_kind = Personal, t_name = u_email u, t_createdAt = now, t_updatedAt = now\<rparr>
                   in (m\<lparr>m_tenants := js_set (m_tenants m) i t\<rparr>, t)));
               key = tenant_membership_key i (u_id u)
           in case js_get (m_tenantMemberships m1) key of
                Some mb \<Rightarrow> (m1, Inr (t, mb))
              | None \<Rightarrow>
                  (let mb = \<lparr>tm_tenantId = i, tm_userId = u_id u, tm_role = TenantOwner,
                       tm_createdAt = now, tm_updatedAt = now\<rparr>
                   in (m1\<lparr>m_tenantMemberships := js_set (m_tenantMemberships m1) key mb\<rparr>, Inr (t, mb))))))"

definition list_tenant_memberships :: "mem \<Rightarrow> string \<Rightarrow> (tenant \<times> membership) list" where
  "list_tenant_memberships m userId =
     concat (map (\<lambda>mb. case js_get (m_tenants m) (tm_tenantId mb) of None \<Rightarrow> [] | Some t \<Rightarrow> [(t, mb)])
       (filter (\<lambda>mb. tm_userId mb = userId) (js_values (m_tenantMemberships m))))"

definition get_workspace_binding :: "mem \<Rightarrow> string \<Rightarrow> workspace_binding option" where
  "get_workspace_binding m workspaceId = js_get (m_workspaceTenantBindings m) workspaceId"

definition bind_workspace ::
  "instant \<Rightarrow> mem \<Rightarrow> string \<Rightarrow> string \<Rightarrow> string \<Rightarrow> mem \<times> workspace_binding option" where
  "bind_workspace now m workspaceId tenantId ownerId =
     (case (js_get (m_containers m) workspaceId, js_get (m_tenants m) tenantId,
            js_get (m_tenantMemberships m) (tenant_membership_key tenantId ownerId)) of
        (Some c, Some _, Some mb) \<Rightarrow>
          if \<not> is_tenant_owner_role (tm_role mb) \<or> c_userId c \<noteq> ownerId then (m, None)
          else (case js_get (m_workspaceTenantBindings m) workspaceId of
            Some ex \<Rightarrow>
              if wb_tenantId ex \<noteq> tenantId \<or> wb_ownerId ex \<noteq> ownerId then (m, None)
              else (let b = ex\<lparr>wb_updatedAt := now\<rparr>
                    in (m\<lparr>m_workspaceTenantBindings := js_set (m_workspaceTenantBindings m) workspaceId b\<rparr>, Some b))
          | None \<Rightarrow>
              (let b = \<lparr>wb_workspaceId = workspaceId, wb_tenantId = tenantId, wb_ownerId = ownerId,
                 wb_createdAt = now, wb_updatedAt = now\<rparr>
               in (m\<lparr>m_workspaceTenantBindings := js_set (m_workspaceTenantBindings m) workspaceId b\<rparr>, Some b)))
      | _ \<Rightarrow> (m, None))"

section \<open>The service\<close>

definition ensure_workspace_binding ::
  "(nat \<Rightarrow> mem \<Rightarrow> mem) \<Rightarrow> instant \<Rightarrow> mem \<Rightarrow> string \<Rightarrow> string \<Rightarrow> mem \<times> (tenant_error, workspace_binding) res" where
  "ensure_workspace_binding env now m workspaceId ownerId =
     (case ensure_personal_tenant now (env 1 m) ownerId of
        (m1, Inl e) \<Rightarrow> (m1, Inl e)
      | (m1, Inr (t, mb)) \<Rightarrow>
          if tm_role mb \<noteq> TenantOwner \<and> tm_role mb \<noteq> TenantAdmin then (m1, Inl MembershipRequired)
          else (let m2 = env 2 m1
                in case get_workspace_binding m2 workspaceId of
                     Some ex \<Rightarrow>
                       if wb_tenantId ex \<noteq> t_id t \<or> wb_ownerId ex \<noteq> ownerId then (m2, Inl BindingConflict)
                       else (m2, Inr ex)
                   | None \<Rightarrow>
                       (case bind_workspace now (env 3 m2) workspaceId (t_id t) ownerId of
                          (m3, None) \<Rightarrow> (m3, Inl BindingConflict)
                        | (m3, Some b) \<Rightarrow> (m3, Inr b))))"

definition require_workspace_access ::
  "(nat \<Rightarrow> mem \<Rightarrow> mem) \<Rightarrow> instant \<Rightarrow> mem \<Rightarrow> string \<Rightarrow> string \<Rightarrow> mem \<times> (tenant_error, workspace_binding) res" where
  "require_workspace_access env now m workspaceId userId =
     (let m0 = env 0 m
      in case get_workspace_binding m0 workspaceId of
           None \<Rightarrow> ensure_workspace_binding env now m0 workspaceId userId
         | Some b \<Rightarrow>
             (let m1 = env 1 m0
              in if \<exists>e \<in> set (list_tenant_memberships m1 userId). t_id (fst e) = wb_tenantId b
                 then (m1, Inr b) else (m1, Inl MembershipRequired)))"

text \<open>
  \<open>WorkspaceAuthorizationService\<close>: \<open>NotFound\<close> is the HTTP error 404 \<open>container_not_found\<close>,
  \<open>Raised\<close> an error that is passed on (a broken row, or a user that is gone).
\<close>

datatype authorization_error = NotFound | Raised workspace_error | UserGone

definition require_existing :: "mem \<Rightarrow> string \<Rightarrow> (authorization_error, container) res" where
  "require_existing m i =
     (case get_container m i of
        Inl e \<Rightarrow> Inl (Raised e)
      | Inr None \<Rightarrow> Inl NotFound
      | Inr (Some c) \<Rightarrow> Inr c)"

definition require_owned ::
  "(nat \<Rightarrow> mem \<Rightarrow> mem) \<Rightarrow> bool \<Rightarrow> instant \<Rightarrow> mem \<Rightarrow> string \<Rightarrow> string \<Rightarrow> mem \<times> (authorization_error, container) res" where
  "require_owned env tenantAccess now m i userId =
     (case require_existing m i of
        Inl e \<Rightarrow> (m, Inl e)
      | Inr c \<Rightarrow>
          if c_userId c \<noteq> userId then (m, Inl NotFound)
          else if \<not> tenantAccess then (m, Inr c)
          else (case require_workspace_access env now m i userId of
            (m', Inl TenantUserNotFound) \<Rightarrow> (m', Inl UserGone)
          | (m', Inl _) \<Rightarrow> (m', Inl NotFound)
          | (m', Inr _) \<Rightarrow> (m', Inr c)))"

section \<open>The invariant\<close>

text \<open>
  Every tenant is the personal tenant of a user; a membership joins a user to the own tenant,
  as its owner; a binding names the owner's personal tenant.
\<close>

definition tenants_inv :: "mem \<Rightarrow> bool" where
  "tenants_inv m \<longleftrightarrow>
     users_inv m \<and> js_wf (m_tenantMemberships m)
     \<and> (\<forall>k t. js_get (m_tenants m) k = Some t \<longrightarrow> t_id t = k)
     \<and> (\<forall>k mb. js_get (m_tenantMemberships m) k = Some mb \<longrightarrow>
          k = tenant_membership_key (tm_tenantId mb) (tm_userId mb)
          \<and> personal_tenant_id (tm_userId mb) = Inr (tm_tenantId mb) \<and> tm_role mb = TenantOwner)
     \<and> (\<forall>k b. js_get (m_workspaceTenantBindings m) k = Some b \<longrightarrow>
          wb_workspaceId b = k \<and> personal_tenant_id (wb_ownerId b) = Inr (wb_tenantId b))"

lemma tenants_inv_empty: "tenants_inv empty_mem"
  using users_inv_empty by (simp add: tenants_inv_def empty_mem_def)

lemma personal_tenant_id_inj:
  "personal_tenant_id a = Inr t \<Longrightarrow> personal_tenant_id b = Inr t \<Longrightarrow> js_trim a = js_trim b"
  by (auto simp: personal_tenant_id_def Let_def split: if_splits)

lemma ensure_personal_tenant_inv:
  assumes "tenants_inv m"
  shows "tenants_inv (fst (ensure_personal_tenant now m u))"
proof (cases "js_get (m_users m) u")
  case (Some usr)
  show ?thesis
  proof (cases "personal_tenant_id (u_id usr)")
    case (Inr i)
    show ?thesis
      using assms Some Inr
      by (cases "js_get (m_tenants m) i";
          cases "js_get (m_tenantMemberships m) (tenant_membership_key i (u_id usr))")
        (simp_all add: ensure_personal_tenant_def tenants_inv_def users_inv_def Let_def)
  qed (use assms Some in \<open>simp add: ensure_personal_tenant_def\<close>)
qed (use assms in \<open>simp add: ensure_personal_tenant_def\<close>)

lemma ensure_personal_tenant_Inr:
  assumes "tenants_inv m" "ensure_personal_tenant now m u = (m', Inr (t, mb))"
  shows "personal_tenant_id u = Inr (t_id t) \<and> js_has (m_users m) u"
proof -
  obtain usr where usr: "js_get (m_users m) u = Some usr"
    using assms(2) by (cases "js_get (m_users m) u") (simp_all add: ensure_personal_tenant_def)
  with assms(1) have "u_id usr = u" by (auto simp: tenants_inv_def users_inv_def)
  moreover obtain i where i: "personal_tenant_id (u_id usr) = Inr i"
    using assms(2) usr by (cases "personal_tenant_id (u_id usr)") (simp_all add: ensure_personal_tenant_def)
  moreover have "t_id t = i"
    using assms usr i
    by (cases "js_get (m_tenants m) i")
      (auto simp: ensure_personal_tenant_def tenants_inv_def Let_def split: option.splits)
  ultimately show ?thesis using usr by (simp add: js_has_def)
qed

lemma bind_workspace_None: "bind_workspace now m w t o1 = (m', None) \<Longrightarrow> m' = m"
  by (simp add: bind_workspace_def Let_def split: option.splits if_splits)

lemma bind_workspace_Some:
  assumes "tenants_inv m" "bind_workspace now m w t o1 = (m', Some b)"
  shows "(\<exists>c. js_get (m_containers m) w = Some c \<and> c_userId c = o1)
    \<and> wb_workspaceId b = w \<and> wb_tenantId b = t \<and> wb_ownerId b = o1
    \<and> m' = m\<lparr>m_workspaceTenantBindings := js_set (m_workspaceTenantBindings m) w b\<rparr>"
proof (cases "js_get (m_workspaceTenantBindings m) w")
  case None
  with assms(2) show ?thesis
    by (auto simp: bind_workspace_def Let_def split: option.splits if_splits)
next
  case (Some ex)
  with assms(1) have "wb_workspaceId ex = w" by (simp add: tenants_inv_def)
  with Some assms(2) show ?thesis
    by (auto simp: bind_workspace_def Let_def split: option.splits if_splits)
qed

lemma bind_workspace_inv:
  assumes "tenants_inv m" "personal_tenant_id o1 = Inr t"
  shows "tenants_inv (fst (bind_workspace now m w t o1))"
proof (cases "bind_workspace now m w t o1")
  case (Pair m' res)
  show ?thesis
  proof (cases res)
    case None
    with Pair bind_workspace_None have "m' = m" by blast
    with Pair assms show ?thesis by simp
  next
    case (Some b)
    with Pair have "bind_workspace now m w t o1 = (m', Some b)" by simp
    from bind_workspace_Some [OF assms(1) this] Pair assms show ?thesis
      by (auto simp: tenants_inv_def users_inv_def)
  qed
qed

text \<open>What the membership check reads.\<close>

lemma list_tenant_memberships_personal:
  assumes "tenants_inv m" "(t, mb) \<in> set (list_tenant_memberships m u)"
  shows "personal_tenant_id u = Inr (t_id t)"
proof -
  from assms(2) have mb: "mb \<in> set (js_values (m_tenantMemberships m))" "tm_userId mb = u"
    and t: "js_get (m_tenants m) (tm_tenantId mb) = Some t"
    by (auto simp: list_tenant_memberships_def split: option.splits)
  from assms(1) have wf: "js_wf (m_tenantMemberships m)" by (simp add: tenants_inv_def)
  with mb(1) obtain k where "js_get (m_tenantMemberships m) k = Some mb" by (auto simp: js_in_values_iff)
  with assms(1) t mb(2) show ?thesis by (auto simp: tenants_inv_def)
qed


section \<open>Every workspace has one owner\<close>

text \<open>
  The ids of workspaces are random and their owner never changes: \<open>own\<close> names, for every id a
  workspace has or will have, the user it belongs to. In the store, rows and bindings name this
  owner.
\<close>

definition owned :: "(string \<Rightarrow> string) \<Rightarrow> mem \<Rightarrow> bool" where
  "owned own m \<longleftrightarrow>
     (\<forall>k c. js_get (m_containers m) k = Some c \<longrightarrow> c_userId c = own k)
     \<and> (\<forall>k b. js_get (m_workspaceTenantBindings m) k = Some b \<longrightarrow> wb_ownerId b = own k)"

definition owned_inv :: "(string \<Rightarrow> string) \<Rightarrow> mem \<Rightarrow> bool" where
  "owned_inv own m \<longleftrightarrow> tenants_inv m \<and> owned own m"

lemma owned_inv_tenants: "owned_inv own m \<Longrightarrow> tenants_inv m"
  by (simp add: owned_inv_def)

lemma ensure_personal_tenant_owned:
  assumes "owned_inv own m"
  shows "owned_inv own (fst (ensure_personal_tenant now m u))"
proof -
  have "m_containers (fst (ensure_personal_tenant now m u)) = m_containers m"
    and "m_workspaceTenantBindings (fst (ensure_personal_tenant now m u)) = m_workspaceTenantBindings m"
    by (simp_all add: ensure_personal_tenant_def Let_def split: option.split sum.split)
  with assms show ?thesis by (simp add: owned_inv_def owned_def ensure_personal_tenant_inv)
qed

text \<open>A workspace is bound for its owner only.\<close>

lemma bind_workspace_owned:
  assumes "owned_inv own m" "personal_tenant_id o1 = Inr t" "bind_workspace now m w t o1 = (m', r)"
  shows "owned_inv own m' \<and> (\<forall>b. r = Some b \<longrightarrow> o1 = own w)"
proof -
  have inv: "tenants_inv m" "tenants_inv m'"
    using assms bind_workspace_inv [of m o1 t now w] by (simp_all add: owned_inv_def)
  show ?thesis
  proof (cases r)
    case None
    with assms bind_workspace_None show ?thesis by blast
  next
    case (Some b)
    with assms(3) have "bind_workspace now m w t o1 = (m', Some b)" by simp
    from bind_workspace_Some [OF inv(1) this] assms(1) inv Some show ?thesis
      by (auto simp: owned_inv_def owned_def)
  qed
qed

section \<open>The service keeps it, whatever interferes\<close>

definition tenant_env :: "(string \<Rightarrow> string) \<Rightarrow> (nat \<Rightarrow> mem \<Rightarrow> mem) \<Rightarrow> bool" where
  "tenant_env own env \<longleftrightarrow> (\<forall>k m. owned_inv own m \<longrightarrow> owned_inv own (env k m))"

lemma tenant_envD: "tenant_env own env \<Longrightarrow> owned_inv own m \<Longrightarrow> owned_inv own (env k m)"
  by (simp add: tenant_env_def)

lemma bound_to_owner:
  "owned_inv own m \<Longrightarrow> get_workspace_binding m w = Some b \<Longrightarrow>
    wb_workspaceId b = w \<and> wb_ownerId b = own w \<and> personal_tenant_id (own w) = Inr (wb_tenantId b)"
  by (auto simp: owned_inv_def owned_def tenants_inv_def get_workspace_binding_def)

lemma ensure_workspace_binding_spec:
  assumes "tenant_env own env" "owned_inv own m"
  shows "owned_inv own (fst (ensure_workspace_binding env now m w u))"
    and "snd (ensure_workspace_binding env now m w u) = Inr b \<Longrightarrow>
      wb_workspaceId b = w \<and> wb_ownerId b = own w \<and> u = own w"
proof -
  have inv1: "owned_inv own (env 1 m)" using assms by (rule tenant_envD)
  obtain m1 r where ens: "ensure_personal_tenant now (env 1 m) u = (m1, r)" by fastforce
  with ensure_personal_tenant_owned [OF inv1, of now u] have m1: "owned_inv own m1" by simp
  have m2: "owned_inv own (env 2 m1)" and m3: "owned_inv own (env 3 (env 2 m1))"
    using assms(1) m1 by (auto intro: tenant_envD)
  have "owned_inv own (fst (ensure_workspace_binding env now m w u))
    \<and> (snd (ensure_workspace_binding env now m w u) = Inr b \<longrightarrow>
        wb_workspaceId b = w \<and> wb_ownerId b = own w \<and> u = own w)"
  proof (cases r)
    case (Inl e)
    then show ?thesis using m1 by (simp add: ensure_workspace_binding_def ens del: One_nat_def)
  next
    case (Inr tm)
    obtain t mb where tm: "tm = (t, mb)" by (cases tm)
    have t: "personal_tenant_id u = Inr (t_id t)"
      using ensure_personal_tenant_Inr [OF owned_inv_tenants [OF inv1], of now u m1 t mb] ens Inr tm by simp
    obtain m4 r4 where bind: "bind_workspace now (env 3 (env 2 m1)) w (t_id t) u = (m4, r4)" by fastforce
    note bound = bind_workspace_owned [OF m3 t bind]
    have made: "wb_workspaceId b = w \<and> wb_ownerId b = u" if "r4 = Some b"
      using bind_workspace_Some [OF owned_inv_tenants [OF m3], of now w "t_id t" u m4 b] bind that by simp
    show ?thesis
      using m1 m2 bound made bound_to_owner [OF m2, of w]
      by (auto simp: ensure_workspace_binding_def ens Inr tm Let_def bind
          simp del: One_nat_def split: option.splits)
  qed
  then show "owned_inv own (fst (ensure_workspace_binding env now m w u))"
    and "snd (ensure_workspace_binding env now m w u) = Inr b \<Longrightarrow>
      wb_workspaceId b = w \<and> wb_ownerId b = own w \<and> u = own w" by auto
qed

lemma require_workspace_access_inv:
  assumes "tenant_env own env" "owned_inv own m"
  shows "owned_inv own (fst (require_workspace_access env now m w u))"
  using tenant_envD [OF assms, of 0] tenant_envD [OF assms(1), of "env 0 m" 1]
    ensure_workspace_binding_spec(1) [OF assms(1), of "env 0 m"]
  by (auto simp: require_workspace_access_def Let_def simp del: One_nat_def split: option.splits)

lemma require_workspace_access_owner:
  assumes "tenant_env own env" "owned_inv own m" "snd (require_workspace_access env now m w u) = Inr b"
  shows "wb_workspaceId b = w \<and> wb_ownerId b = own w \<and> js_trim u = js_trim (own w)"
proof -
  have m0: "owned_inv own (env 0 m)" and m1: "owned_inv own (env 1 (env 0 m))"
    using assms by (auto intro: tenant_envD)
  show ?thesis
  proof (cases "get_workspace_binding (env 0 m) w")
    case None
    with assms(3) ensure_workspace_binding_spec(2) [OF assms(1) m0, of now w u b]
    show ?thesis by (auto simp: require_workspace_access_def)
  next
    case (Some b')
    with assms(3) have b: "b' = b"
      and "\<exists>e \<in> set (list_tenant_memberships (env 1 (env 0 m)) u). t_id (fst e) = wb_tenantId b"
      by (auto simp: require_workspace_access_def Let_def simp del: One_nat_def split: if_splits)
    then have "personal_tenant_id u = Inr (wb_tenantId b)"
      using list_tenant_memberships_personal [OF owned_inv_tenants [OF m1]] by fastforce
    with bound_to_owner [OF m0 Some] b show ?thesis using personal_tenant_id_inj by blast
  qed
qed

text \<open>An existing user whose id is not blank is never answered \<open>TenantUserNotFound\<close> when
  nothing interferes.\<close>

lemma ensure_personal_tenant_user:
  assumes "js_has (m_users m) u"
  shows "snd (ensure_personal_tenant now m u) \<noteq> Inl TenantUserNotFound"
proof -
  obtain usr where "js_get (m_users m) u = Some usr" using assms by (auto simp: js_has_def)
  then show ?thesis
    by (cases "js_get (m_tenants m) (''personal:'' @ js_trim (u_id usr))")
      (auto simp: ensure_personal_tenant_def personal_tenant_id_def Let_def split: option.splits)
qed

lemma require_workspace_access_user:
  assumes "js_has (m_users m) u"
  shows "snd (require_workspace_access (\<lambda>_ m. m) now m w u) \<noteq> Inl TenantUserNotFound"
proof -
  obtain m' r where ens: "ensure_personal_tenant now m u = (m', r)" by fastforce
  with ensure_personal_tenant_user [OF assms, of now] have "r \<noteq> Inl TenantUserNotFound" by simp
  then show ?thesis
    by (cases "get_workspace_binding m w"; cases r)
      (auto simp: require_workspace_access_def ensure_workspace_binding_def ens Let_def
        split: option.splits prod.splits)
qed

section \<open>Properties\<close>

text \<open>C4: workspaces are isolated. Every workspace has one owner, named by its row. Whatever other
  requests do between the store calls of an access check, as long as they keep the tenants'
  invariant and give no workspace another owner, access is granted only to the owner of the
  workspace (ids compared up to surrounding blanks, as tenants are named), with a binding that
  names this workspace and this owner. The check itself keeps the invariant and gives no
  workspace to another user: in particular it never binds a workspace, that has no binding yet,
  for somebody who does not own it.\<close>

theorem workspace_access_is_owners:
  assumes "tenant_env own env" "owned_inv own m"
  shows "owned_inv own (fst (require_workspace_access env now m w u))
    \<and> (snd (require_workspace_access env now m w u) = Inr b \<longrightarrow>
        wb_workspaceId b = w \<and> wb_ownerId b = own w \<and> js_trim u = js_trim (own w))"
  using require_workspace_access_inv [OF assms, of now w u]
    require_workspace_access_owner [OF assms, of now w u b] by blast

text \<open>A workspace of user \<open>u2\<close>, first reached by its owner, then by the administrator.\<close>

definition hosted :: mem where
  "hosted = fst (save_container staffed_two (sample_container\<lparr>c_userId := ''u2''\<rparr>))"

lemma hosted_inv: "tenants_inv hosted"
proof -
  have "m_users hosted = m_users staffed_two" "m_sessions hosted = m_sessions staffed_two"
    "m_identities hosted = m_identities staffed_two"
    "m_localPasswordHashes hosted = m_localPasswordHashes staffed_two"
    "m_tenants hosted = []" "m_tenantMemberships hosted = []" "m_workspaceTenantBindings hosted = []"
    by code_simp+
  with staffed_two_inv show ?thesis by (simp add: tenants_inv_def users_inv_def)
qed

lemma hosted_workspaces: "workspaces_inv hosted"
proof -
  have "m_containers staffed_two = []" "m_workspaceExecutions staffed_two = []" by code_simp+
  then have "workspaces_inv staffed_two" by (simp add: workspaces_inv_def)
  then show ?thesis unfolding hosted_def by (rule save_container_inv)
qed

lemma quiet_env: "tenant_env own (\<lambda>_ m. m)"
  by (simp add: tenant_env_def)

lemma hosted_owned: "owned_inv (\<lambda>_. ''u2'') hosted"
proof -
  have "m_containers hosted = [(c_id sample_container, sample_container\<lparr>c_userId := ''u2''\<rparr>)]"
    and "m_workspaceTenantBindings hosted = []" by code_simp+
  with hosted_inv show ?thesis by (auto simp: owned_inv_def owned_def split: if_splits)
qed

text \<open>The administrator comes first, while the workspace is not bound, then the owner, then the
  administrator again.\<close>

theorem workspace_access_is_owners_witness:
  "snd (require_workspace_access (\<lambda>_ m. m) 4 hosted (c_id sample_container) ''a1'') = Inl BindingConflict
   \<and> (\<exists>b. snd (require_workspace_access (\<lambda>_ m. m) 5 hosted (c_id sample_container) ''u2'') = Inr b
     \<and> wb_ownerId b = ''u2'')
   \<and> snd (require_workspace_access (\<lambda>_ m. m) 6
          (fst (require_workspace_access (\<lambda>_ m. m) 5 hosted (c_id sample_container) ''u2''))
          (c_id sample_container) ''a1'') = Inl MembershipRequired"
proof -
  have "\<exists>b. snd (require_workspace_access (\<lambda>_ m. m) 5 hosted (c_id sample_container) ''u2'') = Inr b"
    by (rule exI [of _ "\<lparr>wb_workspaceId = c_id sample_container, wb_tenantId = ''personal:u2'',
        wb_ownerId = ''u2'', wb_createdAt = 5, wb_updatedAt = 5\<rparr>"]) code_simp
  moreover have "snd (require_workspace_access (\<lambda>_ m. m) 4 hosted (c_id sample_container) ''a1'') = Inl BindingConflict"
    by code_simp
  moreover have "snd (require_workspace_access (\<lambda>_ m. m) 6
      (fst (require_workspace_access (\<lambda>_ m. m) 5 hosted (c_id sample_container) ''u2''))
      (c_id sample_container) ''a1'') = Inl MembershipRequired"
    by code_simp
  ultimately show ?thesis
    using workspace_access_is_owners [OF quiet_env hosted_owned] by blast
qed

text \<open>The ownership check answers a user that is not the owner, and one without the tenant's
  membership, exactly as it answers for a workspace that does not exist: \<open>NotFound\<close>; and when
  it lets a request through, the row is the requester's own and the tenant is too.\<close>

theorem foreign_workspaces_are_invisible:
  assumes "owned_inv own m" "workspaces_inv m" "js_has (m_users m) u"
  shows "case snd (require_owned (\<lambda>_ m. m) tenancy now m i u) of
      Inl e \<Rightarrow> e = NotFound
    | Inr c \<Rightarrow> get_container m i = Inr (Some c) \<and> c_userId c = u
        \<and> (\<not> tenancy \<or> (\<exists>b. snd (require_workspace_access (\<lambda>_ m. m) now m i u) = Inr b
              \<and> wb_ownerId b = own i \<and> js_trim (own i) = js_trim u))"
proof (cases "get_container m i")
  case (Inl e)
  with get_container_total [OF assms(2), of i] show ?thesis by simp
next
  case (Inr r)
  have user: "snd (require_workspace_access (\<lambda>_ m. m) now m i u) \<noteq> Inl TenantUserNotFound"
    using assms by (simp add: require_workspace_access_user)
  obtain m' a where acc: "require_workspace_access (\<lambda>_ m. m) now m i u = (m', a)" by fastforce
  have "wb_ownerId b = own i \<and> js_trim u = js_trim (own i)" if "a = Inr b" for b
    using require_workspace_access_owner [OF quiet_env assms(1), of now i u b] acc that by simp
  with Inr acc user show ?thesis
    by (cases r; cases a)
      (auto simp: require_owned_def require_existing_def split: tenant_error.splits)
qed

theorem foreign_workspaces_are_invisible_witness:
  "snd (require_owned (\<lambda>_ m. m) True 5 hosted (c_id sample_container) ''a1'') = Inl NotFound"
proof -
  have user: "js_has (m_users hosted) ''a1''" by code_simp
  have "\<exists>e. snd (require_owned (\<lambda>_ m. m) True 5 hosted (c_id sample_container) ''a1'') = Inl e"
    by (rule exI [of _ NotFound]) code_simp
  with foreign_workspaces_are_invisible [where tenancy = True and now = 5 and i = "c_id sample_container",
      OF hosted_owned hosted_workspaces user]
  show ?thesis by auto
qed

end
