(* ===== verification/Memory_Operations.thy ===== *)
theory Memory_Operations
  imports Memory_Store Versioned_Store
begin

text \<open>
  The two stores of administrative operations: \<open>MemoryOperationStore\<close>
  (\<open>admin-operations.ts\<close>), here functions on the map of operations, and the operation
  methods of \<open>MemoryPersistence\<close>, which are the same but for a cap on the number of
  operations. Compare-and-save is a \<open>versioned_store\<close> in both. \<open>op_path i\<close> is the order in
  which the operation \<open>i\<close> may evolve; the store's own methods respect it.
\<close>

type_synonym ops = "(string, operation) js_map"

definition op_terminal :: "operation_status \<Rightarrow> bool" where
  "op_terminal status \<longleftrightarrow> status = OSucceeded \<or> status = OFailed \<or> status = OCancelled"

section \<open>MemoryOperationStore\<close>

definition ops_save :: "ops \<Rightarrow> operation \<Rightarrow> ops" where
  "ops_save m op = js_set m (o_id op) op"

definition ops_find :: "ops \<Rightarrow> string \<Rightarrow> string \<Rightarrow> operation option" where
  "ops_find m actorUserId idempotencyKey =
     js_find (\<lambda>c. o_actorUserId c = actorUserId \<and> o_idempotencyKey c = Some idempotencyKey) m"

definition ops_create :: "ops \<Rightarrow> operation \<Rightarrow> ops \<times> operation \<times> bool" where
  "ops_create m op =
     (let existing = (if js_truthy (o_idempotencyKey op)
            then ops_find m (o_actorUserId op) (the (o_idempotencyKey op)) else None)
      in case existing of
           Some e \<Rightarrow> (m, e, False)
         | None \<Rightarrow> (js_set m (o_id op) op, op, True))"

definition ops_cas :: "ops \<Rightarrow> operation \<Rightarrow> nat \<Rightarrow> ops \<times> operation option" where
  "ops_cas m op expectedRevision =
     (case js_get m (o_id op) of
        None \<Rightarrow> (m, None)
      | Some current \<Rightarrow>
          if o_revision current \<noteq> expectedRevision then (m, None)
          else (let updated = op\<lparr>o_revision := expectedRevision + 1\<rparr>
                in (js_set m (o_id updated) updated, Some updated)))"

definition op_stale :: "instant \<Rightarrow> operation \<Rightarrow> bool" where
  "op_stale cutoff op \<longleftrightarrow>
     (o_status op = OQueued \<or> o_status op = ORunning)
     \<and> \<not> (case o_heartbeatAt op of Some t \<Rightarrow> t
          | None \<Rightarrow> (case o_startedAt op of Some t \<Rightarrow> t | None \<Rightarrow> o_createdAt op)) > cutoff"

definition op_interrupted :: "instant \<Rightarrow> operation \<Rightarrow> operation" where
  "op_interrupted finishedAt op = op\<lparr>
     o_revision := o_revision op + 1, o_status := OFailed, o_stage := ''interrupted'',
     o_error := Some ''portal_restarted'', o_cancellable := False, o_retryable := False,
     o_heartbeatAt := Some finishedAt, o_finishedAt := Some finishedAt\<rparr>"

definition ops_recover :: "ops \<Rightarrow> instant \<Rightarrow> instant \<Rightarrow> ops \<times> string list" where
  "ops_recover m cutoff finishedAt =
     (js_update_each (\<lambda>_ op. if op_stale cutoff op then op_interrupted finishedAt op else op) m,
      map fst (filter (\<lambda>(_, op). op_stale cutoff op) m))"

definition ops_get :: "ops \<Rightarrow> string \<Rightarrow> operation option" where
  "ops_get m i = js_get m i"

definition matching :: "operation_status option \<Rightarrow> string option \<Rightarrow> ops \<Rightarrow> operation list" where
  "matching status typ m =
     newest_first o_createdAt
       (filter (\<lambda>op. \<not> js_truthy typ \<or> Some (o_type op) = typ)
         (filter (\<lambda>op. status = None \<or> Some (o_status op) = status) (js_values m)))"

definition ops_list :: "ops \<Rightarrow> operation_status option \<Rightarrow> string option \<Rightarrow> int option \<Rightarrow> operation list" where
  "ops_list m status typ limit =
     take (nat (min (max (case limit of None \<Rightarrow> 100 | Some l \<Rightarrow> l) 1) 500)) (matching status typ m)"

definition op_expired :: "instant \<Rightarrow> operation \<Rightarrow> bool" where
  "op_expired cutoff op \<longleftrightarrow>
     op_terminal (o_status op)
     \<and> \<not> (case o_finishedAt op of Some t \<Rightarrow> t | None \<Rightarrow> o_createdAt op) \<ge> cutoff"

definition ops_prune_finished :: "ops \<Rightarrow> instant \<Rightarrow> int \<Rightarrow> ops \<times> nat" where
  "ops_prune_finished m now retentionMs =
     (let cutoff = now - max 0 retentionMs
      in (js_delete_each (\<lambda>_ op. op_expired cutoff op) m,
          length (filter (\<lambda>(_, op). op_expired cutoff op) m)))"

definition operation_retention_ms :: int where
  "operation_retention_ms = 30 * 24 * 60 * 60 * 1000"

section \<open>The operation methods of MemoryPersistence\<close>

definition prune_operations :: "ops \<Rightarrow> ops" where
  "prune_operations m =
     (if length m \<le> 1000 then m
      else (case sort_key o_createdAt (js_values m) of [] \<Rightarrow> m | stale # _ \<Rightarrow> js_delete m (o_id stale)))"

definition mem_save_operation :: "mem \<Rightarrow> operation \<Rightarrow> mem" where
  "mem_save_operation m op = m\<lparr>m_operations := prune_operations (js_set (m_operations m) (o_id op) op)\<rparr>"

definition mem_create_operation :: "mem \<Rightarrow> operation \<Rightarrow> mem \<times> operation \<times> bool" where
  "mem_create_operation m op =
     (case ops_create (m_operations m) op of
        (_, e, False) \<Rightarrow> (m, e, False)
      | (ops, _, True) \<Rightarrow> (m\<lparr>m_operations := prune_operations ops\<rparr>, op, True))"

definition mem_cas_operation :: "mem \<Rightarrow> operation \<Rightarrow> nat \<Rightarrow> mem \<times> operation option" where
  "mem_cas_operation m op expectedRevision =
     (case ops_cas (m_operations m) op expectedRevision of (ops, r) \<Rightarrow> (m\<lparr>m_operations := ops\<rparr>, r))"

definition mem_recover_operations :: "mem \<Rightarrow> instant \<Rightarrow> instant \<Rightarrow> mem \<times> string list" where
  "mem_recover_operations m cutoff finishedAt =
     (case ops_recover (m_operations m) cutoff finishedAt of (ops, ids) \<Rightarrow> (m\<lparr>m_operations := ops\<rparr>, ids))"

definition mem_get_operation :: "mem \<Rightarrow> string \<Rightarrow> operation option" where
  "mem_get_operation m i = js_get (m_operations m) i"

definition mem_list_operations ::
  "mem \<Rightarrow> operation_status option \<Rightarrow> string option \<Rightarrow> js_num option \<Rightarrow> operation list" where
  "mem_list_operations m status typ limit =
     take (clamp_limit (case limit of None \<Rightarrow> Finite 100 | Some l \<Rightarrow> l)) (matching status typ (m_operations m))"

definition mem_find_operation :: "mem \<Rightarrow> string \<Rightarrow> string \<Rightarrow> operation option" where
  "mem_find_operation m actorUserId idempotencyKey = ops_find (m_operations m) actorUserId idempotencyKey"

definition mem_prune_finished :: "mem \<Rightarrow> instant \<Rightarrow> int \<Rightarrow> mem \<times> nat" where
  "mem_prune_finished m now retentionMs =
     (case ops_prune_finished (m_operations m) now retentionMs of (ops, n) \<Rightarrow> (m\<lparr>m_operations := ops\<rparr>, n))"

section \<open>Compare-and-save is a versioned store\<close>

lemma ops_cas_Some:
  "ops_cas m op r = (m', Some w) \<Longrightarrow>
     \<exists>c. js_get m (o_id op) = Some c \<and> o_revision c = r \<and> w = op\<lparr>o_revision := r + 1\<rparr>
       \<and> m' = js_set m (o_id op) w"
  by (auto simp: ops_cas_def Let_def split: option.splits if_splits)

lemma ops_cas_None: "ops_cas m op r = (m', None) \<Longrightarrow> m' = m"
  by (auto simp: ops_cas_def Let_def split: option.splits if_splits)

lemma js_get_ops_cas [simp]:
  "js_get (fst (ops_cas m op r)) i =
     (if i = o_id op \<and> (\<exists>c. js_get m i = Some c \<and> o_revision c = r)
      then Some (op\<lparr>o_revision := r + 1\<rparr>) else js_get m i)"
  by (auto simp: ops_cas_def Let_def split: option.splits)

interpretation operations: versioned_store js_get ops_cas o_id o_revision
proof (unfold_locales, goal_cases)
  case (5 k v s r)
  then show ?case by simp
qed (auto dest!: ops_cas_Some ops_cas_None)

interpretation mem_operations: versioned_store "\<lambda>m. js_get (m_operations m)" mem_cas_operation o_id o_revision
proof (unfold_locales, goal_cases)
  case (5 k v s r)
  then show ?case
    using js_get_ops_cas [of "m_operations s" v r k]
    by (cases "ops_cas (m_operations s) v r") (simp add: mem_cas_operation_def)
qed (auto simp: mem_cas_operation_def dest!: ops_cas_Some ops_cas_None split: prod.splits)


section \<open>How an operation may evolve\<close>

fun op_rank :: "operation_status \<Rightarrow> nat" where
  "op_rank OQueued = 0"
| "op_rank ORunning = 1"
| "op_rank _ = 2"

lemma op_terminal_rank: "op_terminal st \<longleftrightarrow> op_rank st = 2"
  by (cases st) (simp_all add: op_terminal_def)

text \<open>The fields no transition changes.\<close>

definition op_identity where
  "op_identity op = (o_id op, o_type op, o_actorUserId op, o_resourceType op, o_resourceId op,
     o_requestId op, o_idempotencyKey op, o_requestFingerprint op, o_retryOf op, o_createdAt op)"

text \<open>A later version of an operation: its status moves forward; once finished, only the
  permission to retry it changes; once not cancellable, it never is cancelled; while it is
  being cancelled, it does nothing else.\<close>

definition op_evolves :: "operation \<Rightarrow> operation \<Rightarrow> bool" where
  "op_evolves a b \<longleftrightarrow>
     op_identity b = op_identity a
     \<and> o_revision a \<le> o_revision b \<and> (o_revision a = o_revision b \<longrightarrow> b = a)
     \<and> op_rank (o_status a) \<le> op_rank (o_status b)
     \<and> (op_terminal (o_status a) \<longrightarrow>
          b = a\<lparr>o_retryable := o_retryable b, o_revision := o_revision b\<rparr>)
     \<and> (\<not> o_cancellable a \<longrightarrow> \<not> o_cancellable b \<and> (o_status a \<noteq> OCancelled \<longrightarrow> o_status b \<noteq> OCancelled))
     \<and> (o_status a = ORunning \<and> o_stage a = ''cancelling'' \<and> o_status b = ORunning \<longrightarrow> o_stage b = ''cancelling'')"

lemma op_evolves_refl [simp]: "op_evolves a a"
  by (simp add: op_evolves_def)

lemma op_terminal_mono: "op_terminal st \<Longrightarrow> op_rank st \<le> op_rank st' \<Longrightarrow> op_terminal st'"
  by (cases st; cases st') (simp_all add: op_terminal_def)

lemma op_evolves_trans:
  assumes ab: "op_evolves a b" and bc: "op_evolves b c"
  shows "op_evolves a c"
proof -
  have "c = a" if "o_revision a = o_revision c"
    using that ab bc by (simp add: op_evolves_def)
  moreover have "c = a\<lparr>o_retryable := o_retryable c, o_revision := o_revision c\<rparr>" if t: "op_terminal (o_status a)"
  proof -
    have "b = a\<lparr>o_retryable := o_retryable b, o_revision := o_revision b\<rparr>"
      using ab t by (simp add: op_evolves_def)
    then obtain x y where b: "b = a\<lparr>o_retryable := x, o_revision := y\<rparr>" by blast
    then have "op_terminal (o_status b)" using t by simp
    then have "c = b\<lparr>o_retryable := o_retryable c, o_revision := o_revision c\<rparr>"
      using bc by (simp add: op_evolves_def)
    then show ?thesis by (simp add: b)
  qed
  moreover have "o_stage c = ''cancelling''"
    if "o_status a = ORunning" "o_stage a = ''cancelling''" "o_status c = ORunning"
  proof -
    have "o_status b = ORunning" using ab bc that by (cases "o_status b") (auto simp: op_evolves_def)
    with ab bc that show ?thesis by (auto simp: op_evolves_def)
  qed
  ultimately show ?thesis using ab bc unfolding op_evolves_def by auto
qed

text \<open>The same in a store: the operation may also be removed; an id that is not
  in use stays so (ids are drawn once).\<close>

definition op_path :: "string \<Rightarrow> ops \<Rightarrow> ops \<Rightarrow> bool" where
  "op_path i s s' \<longleftrightarrow>
     (\<forall>b. js_get s' i = Some b \<longrightarrow> (\<exists>a. js_get s i = Some a \<and> op_evolves a b))"

lemma op_path_refl [simp]: "op_path i s s"
  by (simp add: op_path_def)

lemma op_path_same: "js_get s' i = js_get s i \<Longrightarrow> op_path i s s'"
  by (simp add: op_path_def)

lemma op_path_trans [trans]: "op_path i s s' \<Longrightarrow> op_path i s' s'' \<Longrightarrow> op_path i s s''"
  unfolding op_path_def using op_evolves_trans by blast

text \<open>Each method of the store moves an operation along its path, as long as a write is a
  later version of what it was computed from.\<close>

lemma op_path_cas:
  assumes "\<And>c. js_get s i = Some c \<Longrightarrow> o_id op = i \<Longrightarrow> o_revision c = r \<Longrightarrow> op_evolves c (op\<lparr>o_revision := r + 1\<rparr>)"
  shows "op_path i s (fst (ops_cas s op r))"
  using assms by (auto simp: op_path_def split: option.splits)

lemma op_path_create: "o_id op \<noteq> i \<Longrightarrow> op_path i s (fst (ops_create s op))"
  by (rule op_path_same) (auto simp: ops_create_def Let_def split: option.splits)

lemma op_interrupted_evolves: "op_stale cutoff op \<Longrightarrow> op_evolves op (op_interrupted t op)"
  by (auto simp: op_evolves_def op_interrupted_def op_stale_def op_identity_def op_terminal_def)

lemma op_path_recover: "op_path i s (fst (ops_recover s cutoff t))"
  by (auto simp: op_path_def ops_recover_def op_interrupted_evolves split: option.splits)

lemma op_path_prune: "js_wf s \<Longrightarrow> op_path i s (fst (ops_prune_finished s now ms))"
  by (auto simp: op_path_def ops_prune_finished_def op_expired_def Let_def split: option.splits)


section \<open>The cap on the number of operations\<close>

lemma sort_key_hd_unique:
  assumes "x \<in> set xs" "\<And>y. y \<in> set xs \<Longrightarrow> y \<noteq> x \<Longrightarrow> f x < (f y :: 'b::linorder)"
  shows "\<exists>ys. sort_key f xs = x # ys"
proof (cases "sort_key f xs")
  case Nil
  with assms(1) show ?thesis by (metis length_0_conv length_sort list.set_cases neq_Nil_conv)
next
  case (Cons y ys)
  have "sorted (map f (y # ys))" using Cons by (metis sorted_sort_key)
  moreover have "set (y # ys) = set xs" using Cons by (metis set_sort)
  ultimately have "f y \<le> f x" "y \<in> set xs" using assms(1) by auto
  with assms(2) [of y] have "y = x" by (meson leD)
  with Cons show ?thesis by blast
qed

text \<open>The store keeps at most a thousand operations by dropping the oldest, whatever its
  status: when it is full, creating one more removes the oldest even if it is queued or
  running, so that its task can no longer report, finish or be found (the retention methods
  remove finished operations only).\<close>

theorem operation_cap_drops_the_oldest:
  assumes "js_wf (m_operations m)" "\<forall>k b. js_get (m_operations m) k = Some b \<longrightarrow> o_id b = k"
    and "length (m_operations m) = 1000" "js_get (m_operations m) (o_id op) = None"
    and "o_idempotencyKey op = None" "mem_get_operation m i = Some a"
    and "\<forall>k b. js_get (m_operations m) k = Some b \<longrightarrow> k \<noteq> i \<longrightarrow> o_createdAt a < o_createdAt b"
    and "o_createdAt a < o_createdAt op"
  shows "mem_get_operation (fst (mem_create_operation m op)) i = None"
proof -
  let ?s = "js_set (m_operations m) (o_id op) op"
  have a: "js_get (m_operations m) i = Some a" "o_id a = i"
    using assms(2,6) by (auto simp: mem_get_operation_def)
  have set: "?s = m_operations m @ [(o_id op, op)]"
    using assms(4) by (rule js_set_fresh)
  have wf: "js_wf ?s" using assms(1) by simp
  have "\<exists>ys. sort_key o_createdAt (js_values ?s) = a # ys"
  proof (rule sort_key_hd_unique)
    show "a \<in> set (js_values ?s)"
      by (rule js_get_in_values [of _ i]) (use a assms(4) in auto)
    fix y assume y: "y \<in> set (js_values ?s)" "y \<noteq> a"
    then obtain k where "js_get ?s k = Some y" using js_in_values_iff [OF wf] by blast
    then show "o_createdAt a < o_createdAt y"
      using y(2) a assms(7,8) by (cases "k = i") (auto split: if_splits)
  qed
  then have "prune_operations ?s = js_delete ?s i"
    using a(2) assms(3) by (auto simp: prune_operations_def set)
  then show ?thesis
    using assms(5) by (simp add: mem_create_operation_def ops_create_def mem_get_operation_def)
qed

definition sample_operation :: "nat \<Rightarrow> operation" where
  "sample_operation n = \<lparr>o_id = replicate n (CHR ''a''), o_revision = 1, o_type = ''t'', o_status = ORunning,
     o_progress = 0, o_stage = ''running'', o_actorUserId = ''u'', o_resourceType = ''r'',
     o_resourceId = None, o_requestId = ''q'', o_idempotencyKey = None, o_requestFingerprint = None,
     o_retryOf = None, o_cancellable = True, o_retryable = False, o_result = JNull, o_error = None,
     o_createdAt = int n, o_startedAt = Some (int n), o_heartbeatAt = Some (int n), o_finishedAt = None\<rparr>"

definition full_store :: mem where
  "full_store = empty_mem\<lparr>m_operations := map (\<lambda>n. (replicate n (CHR ''a''), sample_operation n)) [0..<1000]\<rparr>"

lemma full_store_wf: "js_wf (m_operations full_store)"
proof -
  have "inj_on (\<lambda>n. replicate n (CHR ''a'')) {0..<1000}"
    by (rule inj_onI) (metis length_replicate)
  then show ?thesis by (simp add: full_store_def js_wf_def o_def distinct_map)
qed

lemma full_store_get:
  "js_get (m_operations full_store) k = Some b \<longleftrightarrow> (\<exists>n < 1000. k = replicate n (CHR ''a'') \<and> b = sample_operation n)"
proof -
  have "js_get (m_operations full_store) k = Some b \<longleftrightarrow> (k, b) \<in> set (m_operations full_store)"
    using full_store_wf by (simp add: js_wf_def)
  then show ?thesis by (auto simp: full_store_def)
qed

theorem operation_cap_drops_the_oldest_witness:
  "o_status (sample_operation 0) = ORunning \<and> mem_get_operation full_store [] = Some (sample_operation 0)
   \<and> mem_get_operation (fst (mem_create_operation full_store (sample_operation 1000))) [] = None"
proof -
  have get: "mem_get_operation full_store [] = Some (sample_operation 0)"
    unfolding mem_get_operation_def full_store_get by (rule exI [of _ 0]) simp
  have "mem_get_operation (fst (mem_create_operation full_store (sample_operation 1000))) [] = None"
  proof (rule operation_cap_drops_the_oldest [OF full_store_wf])
    show "length (m_operations full_store) = 1000" by (simp add: full_store_def)
    have "\<not> (\<exists>b. js_get (m_operations full_store) (o_id (sample_operation 1000)) = Some b)"
      unfolding full_store_get by (simp add: sample_operation_def)
    then show "js_get (m_operations full_store) (o_id (sample_operation 1000)) = None" by simp
  qed (use get in \<open>auto simp: full_store_get sample_operation_def\<close>)
  with get show ?thesis by (simp add: sample_operation_def)
qed

end
