(* ===== verification/Admin_Operations.thy ===== *)
theory Admin_Operations
  imports Memory_Operations Machine
begin

text \<open>
  The manager of administrative operations, \<open>AdminOperationManager\<close> of
  \<open>admin-operations.ts\<close>. Its state is the shared store and what one portal process keeps
  besides: the abort flags of the tasks it runs (\<open>#controllers\<close>) and the tasks it may run
  again (\<open>#retryTasks\<close>, of any type). Every method reads the store, decides and writes by
  compare-and-save; what other processes do to the store before its \<open>k\<close>-th access is an
  argument \<open>env k\<close>. Within one process the methods on one operation are serialised by
  \<open>#withTransitionLock\<close>, so a method is one step. The sanitising of errors and the redaction
  of results (\<open>sensitive-data.ts\<close>) are arguments.

  Shown: under any interference by processes that run the same code, every operation evolves
  along \<open>op_path\<close>, hence finished operations never change their outcome, no operation that
  has passed its commit point is ever recorded as cancelled, and a repeated idempotency key
  starts nothing.
\<close>

record 't manager =
  am_ops :: ops
  am_controllers :: "(string, bool) js_map"
  am_retryTasks :: "(string, 't) js_map"

datatype op_error =
    IdempotencyConflict | OpNotFound | NotCancellable | StateConflict | NotRetryable
  | RetryUnavailable | RetryConflict | RetryBusy | Interrupted | TaskCancelled | StateChanged

record start_input =
  si_type :: string
  si_actorUserId :: string
  si_resourceType :: string
  si_resourceId :: "string option"
  si_requestId :: "string option"
  si_idempotencyKey :: "string option"
  si_requestFingerprint :: "string option"
  si_retryOf :: "string option"
  si_cancellable :: "bool option"
  si_retryable :: "bool option"

type_synonym env = "nat \<Rightarrow> ops \<Rightarrow> ops"

definition sync :: "env \<Rightarrow> nat \<Rightarrow> 't manager \<Rightarrow> 't manager" where
  "sync env k s = s\<lparr>am_ops := env k (am_ops s)\<rparr>"

section \<open>Helper functions\<close>

definition idempotency_match :: "operation \<Rightarrow> start_input \<Rightarrow> bool" where
  "idempotency_match op input \<longleftrightarrow>
     \<not> (o_type op \<noteq> si_type input
        \<or> o_resourceType op \<noteq> si_resourceType input
        \<or> o_resourceId op \<noteq> si_resourceId input
        \<or> o_requestFingerprint op \<noteq> si_requestFingerprint input)"

definition clamp_progress :: "js_num \<Rightarrow> int" where
  "clamp_progress v = (case v of NotFinite \<Rightarrow> 0 | Finite q \<Rightarrow> min (max \<lfloor>q + 1 / 2\<rfloor> 0) 99)"

definition bounded_text :: "string \<Rightarrow> nat \<Rightarrow> string" where
  "bounded_text v maximum = (let t = take maximum (js_trim v) in if t = [] then ''unknown'' else t)"

definition sanitize_operation_error :: "(string \<Rightarrow> string) \<Rightarrow> string \<Rightarrow> string" where
  "sanitize_operation_error sanitize message = bounded_text (sanitize message) 2000"

text \<open>\<open>#controllers.get(id)?.abort()\<close>, and whether the task's signal is aborted.\<close>

definition abort :: "string \<Rightarrow> 't manager \<Rightarrow> 't manager" where
  "abort i s = (if js_has (am_controllers s) i
     then s\<lparr>am_controllers := js_set (am_controllers s) i True\<rparr> else s)"

definition aborted :: "'t manager \<Rightarrow> string \<Rightarrow> bool" where
  "aborted s i \<longleftrightarrow> js_get (am_controllers s) i = Some True"

definition op_cas :: "'t manager \<Rightarrow> operation \<Rightarrow> nat \<Rightarrow> 't manager \<times> operation option" where
  "op_cas s op r = (case ops_cas (am_ops s) op r of (ops, res) \<Rightarrow> (s\<lparr>am_ops := ops\<rparr>, res))"

section \<open>Starting\<close>

definition new_operation :: "string \<Rightarrow> string \<Rightarrow> instant \<Rightarrow> start_input \<Rightarrow> operation" where
  "new_operation uid requestUid now input = \<lparr>
     o_id = uid, o_revision = 1, o_type = si_type input, o_status = OQueued, o_progress = 0,
     o_stage = ''queued'', o_actorUserId = si_actorUserId input,
     o_resourceType = si_resourceType input, o_resourceId = si_resourceId input,
     o_requestId = (case si_requestId input of None \<Rightarrow> requestUid | Some r \<Rightarrow> r),
     o_idempotencyKey = si_idempotencyKey input,
     o_requestFingerprint = si_requestFingerprint input, o_retryOf = si_retryOf input,
     o_cancellable = (si_cancellable input = Some True),
     o_retryable = (si_retryable input = Some True),
     o_result = JNull, o_error = None, o_createdAt = now, o_startedAt = None,
     o_heartbeatAt = None, o_finishedAt = None\<rparr>"

text \<open>\<open>while (size > 1000) delete the oldest key\<close>.\<close>

definition prune_retry_tasks :: "(string, 't) js_map \<Rightarrow> (string, 't) js_map" where
  "prune_retry_tasks m = drop (length m - 1000) m"

text \<open>The operation a call of \<open>start\<close> answers, and whether it has queued the task.\<close>

definition start_existing :: "operation \<Rightarrow> start_input \<Rightarrow> (op_error, operation \<times> bool) res" where
  "start_existing existing input =
     (if idempotency_match existing input then Inr (existing, False) else Inl IdempotencyConflict)"

definition start_op ::
  "env \<Rightarrow> string \<Rightarrow> string \<Rightarrow> instant \<Rightarrow> 't manager \<Rightarrow> start_input \<Rightarrow> 't \<Rightarrow>
   't manager \<times> (op_error, operation \<times> bool) res" where
  "start_op env uid requestUid now s input task =
     (let s0 = (if js_truthy (si_idempotencyKey input) then sync env 0 s else s);
          existing = (if js_truthy (si_idempotencyKey input)
            then ops_find (am_ops s0) (si_actorUserId input) (the (si_idempotencyKey input)) else None)
      in case existing of
           Some e \<Rightarrow> (s0, start_existing e input)
         | None \<Rightarrow>
             (let s1 = sync env 1 s0; op = new_operation uid requestUid now input
              in case ops_create (am_ops s1) op of
                   (ops, e, False) \<Rightarrow> (s1, start_existing e input)
                 | (ops, e, True) \<Rightarrow>
                     (s1\<lparr>am_ops := ops,
                         am_retryTasks := (if o_retryable op
                           then prune_retry_tasks (js_set (am_retryTasks s1) uid task)
                           else am_retryTasks s1)\<rparr>, Inr (op, True))))"

section \<open>Recovery and cancellation\<close>

definition recover_interrupted :: "env \<Rightarrow> instant \<Rightarrow> 't manager \<Rightarrow> int \<Rightarrow> 't manager \<times> nat" where
  "recover_interrupted env now s staleAfterMs =
     (let s0 = sync env 0 s;
          s1 = sync env 1 (s0\<lparr>am_ops := fst (ops_prune_finished (am_ops s0) now operation_retention_ms)\<rparr>)
      in case ops_recover (am_ops s1) (now - max 0 staleAfterMs) now of
           (ops, ids) \<Rightarrow>
             (foldl (\<lambda>s i. (abort i s)\<lparr>am_retryTasks := js_delete (am_retryTasks s) i\<rparr>)
                (s1\<lparr>am_ops := ops\<rparr>) ids, length ids))"

text \<open>The loops of the code try a bounded number of times; \<open>k\<close> counts the attempts made.\<close>

fun cancel_loop ::
  "nat \<Rightarrow> nat \<Rightarrow> env \<Rightarrow> instant \<Rightarrow> 't manager \<Rightarrow> string \<Rightarrow> 't manager \<times> (op_error, operation option) res" where
  "cancel_loop 0 k env now s i = (s, Inl StateConflict)"
| "cancel_loop (Suc n) k env now s i =
     (let s0 = sync env (2 * k) s
      in case ops_get (am_ops s0) i of
           None \<Rightarrow> (s0, Inr None)
         | Some op \<Rightarrow>
             if op_terminal (o_status op) then (s0, Inr (Some op))
             else if \<not> o_cancellable op then (s0, Inl NotCancellable)
             else if o_status op \<noteq> OQueued \<and> o_stage op = ''cancelling'' then (abort i s0, Inr (Some op))
             else (let op' = (if o_status op = OQueued
                       then op\<lparr>o_status := OCancelled, o_stage := ''cancelled'',
                               o_heartbeatAt := Some now, o_finishedAt := Some now\<rparr>
                       else op\<lparr>o_stage := ''cancelling'', o_heartbeatAt := Some now\<rparr>)
                   in case op_cas (sync env (2 * k + 1) s0) op' (o_revision op) of
                        (s1, None) \<Rightarrow> cancel_loop n (k + 1) env now s1 i
                      | (s1, Some updated) \<Rightarrow> (abort i s1, Inr (Some updated))))"

definition cancel_op :: "env \<Rightarrow> instant \<Rightarrow> 't manager \<Rightarrow> string \<Rightarrow> 't manager \<times> (op_error, operation option) res" where
  "cancel_op env now s i = cancel_loop 5 0 env now s i"

section \<open>Running a task\<close>

definition claim_op :: "env \<Rightarrow> instant \<Rightarrow> 't manager \<Rightarrow> string \<Rightarrow> 't manager \<times> bool" where
  "claim_op env now s i =
     (let s0 = sync env 0 s
      in case ops_get (am_ops s0) i of
           None \<Rightarrow> (s0, False)
         | Some op \<Rightarrow>
             if o_status op \<noteq> OQueued then (s0, False)
             else (case op_cas (sync env 1 s0)
                 (op\<lparr>o_status := ORunning, o_stage := ''running'', o_startedAt := Some now,
                     o_heartbeatAt := Some now\<rparr>) (o_revision op) of
               (s1, None) \<Rightarrow> (s1, False)
             | (s1, Some _) \<Rightarrow> (s1\<lparr>am_controllers := js_set (am_controllers s1) i False\<rparr>, True)))"

definition report_op ::
  "env \<Rightarrow> instant \<Rightarrow> 't manager \<Rightarrow> string \<Rightarrow> js_num \<Rightarrow> string \<Rightarrow> 't manager \<times> (op_error, unit) res" where
  "report_op env now s i progress stage =
     (let s0 = sync env 0 s
      in case ops_get (am_ops s0) i of
           None \<Rightarrow> (abort i s0, Inl Interrupted)
         | Some op \<Rightarrow>
             if o_status op \<noteq> ORunning then (abort i s0, Inl Interrupted)
             else if o_stage op = ''cancelling'' then (abort i s0, Inl TaskCancelled)
             else (case op_cas (sync env 1 s0)
                 (op\<lparr>o_progress := clamp_progress progress, o_stage := bounded_text stage 120,
                     o_heartbeatAt := Some now\<rparr>) (o_revision op) of
               (s1, None) \<Rightarrow> (abort i s1, Inl StateChanged)
             | (s1, Some _) \<Rightarrow> (s1, Inr ())))"

fun commit_loop ::
  "nat \<Rightarrow> nat \<Rightarrow> env \<Rightarrow> instant \<Rightarrow> 't manager \<Rightarrow> string \<Rightarrow> 't manager \<times> (op_error, unit) res" where
  "commit_loop 0 k env now s i = (abort i s, Inl StateChanged)"
| "commit_loop (Suc n) k env now s i =
     (let s0 = sync env (2 * k) s; current = ops_get (am_ops s0) i
      in if aborted s0 i \<or> (case current of None \<Rightarrow> False
            | Some op \<Rightarrow> o_stage op = ''cancelling'' \<or> o_status op = OCancelled)
         then (abort i s0, Inl TaskCancelled)
         else (case current of
             None \<Rightarrow> (abort i s0, Inl Interrupted)
           | Some op \<Rightarrow>
               if o_status op \<noteq> ORunning then (abort i s0, Inl Interrupted)
               else if \<not> o_cancellable op \<and> o_stage op = ''finalizing'' then (s0, Inr ())
               else (case op_cas (sync env (2 * k + 1) s0)
                   (op\<lparr>o_cancellable := False, o_stage := ''finalizing'', o_heartbeatAt := Some now\<rparr>)
                   (o_revision op) of
                 (s1, None) \<Rightarrow> commit_loop n (k + 1) env now s1 i
               | (s1, Some _) \<Rightarrow> (s1, Inr ()))))"

definition commit_point :: "env \<Rightarrow> instant \<Rightarrow> 't manager \<Rightarrow> string \<Rightarrow> 't manager \<times> (op_error, unit) res" where
  "commit_point env now s i = commit_loop 10 0 env now s i"

definition touch_heartbeat :: "env \<Rightarrow> instant \<Rightarrow> 't manager \<Rightarrow> string \<Rightarrow> 't manager" where
  "touch_heartbeat env now s i =
     (let s0 = sync env 0 s
      in case ops_get (am_ops s0) i of
           None \<Rightarrow> abort i s0
         | Some op \<Rightarrow>
             if o_status op \<noteq> ORunning \<or> o_stage op = ''cancelling'' then abort i s0
             else (case op_cas (sync env 1 s0) (op\<lparr>o_heartbeatAt := Some now\<rparr>) (o_revision op) of
               (s1, None) \<Rightarrow> abort i s1
             | (s1, Some _) \<Rightarrow> s1))"

section \<open>Completion\<close>

text \<open>How a task ends: with a result, or with an error and possibly a partial result.\<close>

datatype outcome = Returned js_val | Threw string "js_val option"

fun outcome_status :: "outcome \<Rightarrow> operation_status" where
  "outcome_status (Returned _) = OSucceeded"
| "outcome_status (Threw _ _) = OFailed"

fun status_text :: "operation_status \<Rightarrow> string" where
  "status_text OQueued = ''queued''"
| "status_text ORunning = ''running''"
| "status_text OSucceeded = ''succeeded''"
| "status_text OFailed = ''failed''"
| "status_text OCancelled = ''cancelled''"

definition completed ::
  "(js_val \<Rightarrow> js_val) \<Rightarrow> (string \<Rightarrow> string) \<Rightarrow> instant \<Rightarrow> bool \<Rightarrow> outcome \<Rightarrow> operation \<Rightarrow> operation" where
  "completed redact sanitize now isAborted outcome op =
     (let passedCommitPoint = \<not> o_cancellable op \<and> o_stage op = ''finalizing'';
          wasCancelled = \<not> passedCommitPoint \<and> (isAborted \<or> o_stage op = ''cancelling'');
          status = (if wasCancelled then OCancelled else outcome_status outcome)
      in op\<lparr>o_status := status,
            o_progress := (if status = OSucceeded then 100 else o_progress op),
            o_stage := (if status = OSucceeded then ''completed'' else status_text status),
            o_result := (case outcome of Returned r \<Rightarrow> redact r
              | Threw _ (Some r) \<Rightarrow> redact r | Threw _ None \<Rightarrow> o_result op),
            o_error := (case outcome of
                Threw e _ \<Rightarrow> if status = OFailed then Some (sanitize_operation_error sanitize e) else None
              | Returned _ \<Rightarrow> None),
            o_finishedAt := Some now, o_heartbeatAt := Some now\<rparr>)"

fun complete_loop ::
  "nat \<Rightarrow> nat \<Rightarrow> (js_val \<Rightarrow> js_val) \<Rightarrow> (string \<Rightarrow> string) \<Rightarrow> env \<Rightarrow> instant \<Rightarrow> 't manager \<Rightarrow> string \<Rightarrow> outcome \<Rightarrow>
   't manager \<times> (op_error, operation option) res" where
  "complete_loop 0 k redact sanitize env now s i outcome = (s, Inl StateConflict)"
| "complete_loop (Suc n) k redact sanitize env now s i outcome =
     (let s0 = sync env (2 * k) s
      in case ops_get (am_ops s0) i of
           None \<Rightarrow> (s0, Inr None)
         | Some op \<Rightarrow>
             if o_status op \<noteq> ORunning then (s0, Inr (Some op))
             else (case op_cas (sync env (2 * k + 1) s0)
                 (completed redact sanitize now (aborted s0 i) outcome op) (o_revision op) of
               (s1, None) \<Rightarrow> complete_loop n (k + 1) redact sanitize env now s1 i outcome
             | (s1, Some updated) \<Rightarrow> (s1, Inr (Some updated))))"

definition forget_task :: "string \<Rightarrow> 't manager \<Rightarrow> 't manager" where
  "forget_task i s = s\<lparr>am_retryTasks := js_delete (am_retryTasks s) i\<rparr>"

text \<open>The end of \<open>#execute\<close>: a success that cannot be stored is completed as a failure; a
  failure that cannot be stored is only logged; the controller is dropped at last.\<close>

definition settle ::
  "(js_val \<Rightarrow> js_val) \<Rightarrow> (string \<Rightarrow> string) \<Rightarrow> env \<Rightarrow> instant \<Rightarrow> 't manager \<Rightarrow> string \<Rightarrow> outcome \<Rightarrow> 't manager" where
  "settle redact sanitize env now s i outcome =
     (let fail = (\<lambda>env s outcome.
            case complete_loop 10 0 redact sanitize env now s i outcome of
              (s', Inr (Some op)) \<Rightarrow> if \<not> o_retryable op then forget_task i s' else s'
            | (s', _) \<Rightarrow> s');
          s1 = (case outcome of
              Returned r \<Rightarrow>
                (case complete_loop 10 0 redact sanitize env now s i outcome of
                   (s', Inr (Some op)) \<Rightarrow>
                     if o_status op = OSucceeded \<or> \<not> o_retryable op then forget_task i s' else s'
                 | (s', Inr None) \<Rightarrow> s'
                 | (s', Inl e) \<Rightarrow> fail (\<lambda>k. env (20 + k)) s' (Threw ''operation_state_conflict'' None))
            | Threw e r \<Rightarrow> fail env s outcome)
      in s1\<lparr>am_controllers := js_delete (am_controllers s1) i\<rparr>)"

definition mark_start_failure ::
  "(string \<Rightarrow> string) \<Rightarrow> env \<Rightarrow> instant \<Rightarrow> 't manager \<Rightarrow> string \<Rightarrow> string \<Rightarrow> 't manager" where
  "mark_start_failure sanitize env now s i message =
     (let s0 = sync env 0 s
      in case ops_get (am_ops s0) i of
           None \<Rightarrow> s0
         | Some op \<Rightarrow>
             if o_status op \<noteq> OQueued then s0
             else fst (op_cas (sync env 1 s0)
               (op\<lparr>o_status := OFailed, o_stage := ''failed'',
                   o_error := Some (sanitize_operation_error sanitize message),
                   o_cancellable := False, o_retryable := False,
                   o_finishedAt := Some now, o_heartbeatAt := Some now\<rparr>) (o_revision op)))"

section \<open>Retrying\<close>

definition retry_input :: "operation \<Rightarrow> start_input" where
  "retry_input op = \<lparr>si_type = o_type op, si_actorUserId = o_actorUserId op,
     si_resourceType = o_resourceType op, si_resourceId = o_resourceId op, si_requestId = None,
     si_idempotencyKey = None, si_requestFingerprint = None, si_retryOf = Some (o_id op),
     si_cancellable = Some (o_cancellable op), si_retryable = Some (o_retryable op)\<rparr>"

text \<open>\<open>locked\<close>: the lock was acquired. When \<open>start\<close> fails, the permission to retry is given back.\<close>

definition retry_op ::
  "bool \<Rightarrow> env \<Rightarrow> string \<Rightarrow> string \<Rightarrow> instant \<Rightarrow> 't manager \<Rightarrow> string \<Rightarrow> 't option \<Rightarrow>
   't manager \<times> (op_error, operation) res" where
  "retry_op locked env uid requestUid now s i task =
     (if \<not> locked then (s, Inl RetryBusy)
      else (let s0 = sync env 0 s
        in case ops_get (am_ops s0) i of
             None \<Rightarrow> (s0, Inl OpNotFound)
           | Some op \<Rightarrow>
               if o_status op \<noteq> OFailed \<and> o_status op \<noteq> OCancelled then (s0, Inl NotRetryable)
               else if \<not> o_retryable op \<and> task = None then (s0, Inl RetryUnavailable)
               else (case (if task \<noteq> None then task else js_get (am_retryTasks s0) i) of
                   None \<Rightarrow>
                     (fst (op_cas (sync env 1 s0) (op\<lparr>o_retryable := False\<rparr>) (o_revision op)),
                      Inl RetryUnavailable)
                 | Some retryTask \<Rightarrow>
                     (case op_cas (sync env 1 s0) (op\<lparr>o_retryable := False\<rparr>) (o_revision op) of
                        (s1, None) \<Rightarrow> (s1, Inl RetryConflict)
                      | (s1, Some _) \<Rightarrow>
                          (case start_op (\<lambda>k. env (2 + k)) uid requestUid now s1 (retry_input op) retryTask of
                             (s2, Inl e) \<Rightarrow>
                               (let s3 = sync env 4 s2
                                in case ops_get (am_ops s3) i of
                                     None \<Rightarrow> (s3, Inl e)
                                   | Some latest \<Rightarrow>
                                       if o_retryable latest then (s3, Inl e)
                                       else (fst (op_cas (sync env 5 s3) (latest\<lparr>o_retryable := o_retryable op\<rparr>)
                                              (o_revision latest)), Inl e))
                           | (s2, Inr (retried, _)) \<Rightarrow> (forget_task i s2, Inr retried))))))"


section \<open>What one process relies on and guarantees\<close>

text \<open>
  For one operation \<open>i\<close>. The store is \<open>op_ok\<close>: operations are stored under their ids, and a
  running one that is being cancelled is cancellable. \<open>op_calm\<close>: nobody else writes to a
  running operation except to cancel or to finish it.
\<close>

definition op_ok :: "string \<Rightarrow> ops \<Rightarrow> bool" where
  "op_ok i st \<longleftrightarrow> js_wf st \<and> (\<forall>k op. js_get st k = Some op \<longrightarrow> o_id op = k)
     \<and> (\<forall>op. js_get st i = Some op \<and> o_status op = ORunning \<and> o_stage op = ''cancelling'' \<longrightarrow> o_cancellable op)"

definition op_calm :: "string \<Rightarrow> ops \<Rightarrow> ops \<Rightarrow> bool" where
  "op_calm i st st' \<longleftrightarrow>
     (\<forall>a b. js_get st i = Some a \<and> js_get st' i = Some b \<and> o_status a = ORunning \<and> o_status b = ORunning
        \<longrightarrow> b = a \<or> o_stage b = ''cancelling'')"

definition runs :: "'t manager \<Rightarrow> string \<Rightarrow> bool" where
  "runs s i \<longleftrightarrow> js_has (am_controllers s) i"

text \<open>Interference: along the operation's path, and calm (\<open>C\<close>) at least while this process
  runs the task.\<close>

definition env_ok :: "bool \<Rightarrow> string \<Rightarrow> 't manager \<Rightarrow> env \<Rightarrow> bool" where
  "env_ok C i s env \<longleftrightarrow>
     (runs s i \<longrightarrow> C)
     \<and> (\<forall>k st. op_path i st (env k st) \<and> (op_ok i st \<longrightarrow> op_ok i (env k st))
          \<and> (C \<longrightarrow> op_calm i st (env k st)))"

text \<open>The process's own invariant: a task it runs was claimed, and its signal is aborted only
  when the operation is over or being cancelled.\<close>

definition op_sound :: "string \<Rightarrow> 't manager \<Rightarrow> bool" where
  "op_sound i s \<longleftrightarrow> op_ok i (am_ops s)
     \<and> (\<forall>op. js_get (am_ops s) i = Some op \<longrightarrow>
          (o_status op = OQueued \<longrightarrow> \<not> runs s i)
          \<and> (o_status op = ORunning \<and> aborted s i \<longrightarrow> o_stage op = ''cancelling''))"

text \<open>What a method does: it keeps the invariant, moves along the path, and unless this process
  runs the task its own writes are calm.\<close>

definition op_good :: "bool \<Rightarrow> string \<Rightarrow> 't manager \<Rightarrow> 't manager \<Rightarrow> bool" where
  "op_good C i s s' \<longleftrightarrow> op_sound i s' \<and> op_path i (am_ops s) (am_ops s')
     \<and> (C \<and> \<not> runs s i \<longrightarrow> op_calm i (am_ops s) (am_ops s')) \<and> runs s' i = runs s i"

lemma op_calm_refl [simp]: "op_calm i st st"
  by (auto simp: op_calm_def)

lemma op_calm_trans:
  assumes "op_path i st st'" "op_path i st' st''" "op_calm i st st'" "op_calm i st' st''"
  shows "op_calm i st st''"
  unfolding op_calm_def
proof (intro allI impI, elim conjE)
  fix a c
  assume a: "js_get st i = Some a" "o_status a = ORunning" and c: "js_get st'' i = Some c" "o_status c = ORunning"
  then obtain b where b: "js_get st' i = Some b" "op_evolves a b" "op_evolves b c"
    using assms(1,2) by (auto simp: op_path_def)
  then have "o_status b = ORunning" using a c by (cases "o_status b") (auto simp: op_evolves_def)
  with a b c assms(3,4) show "c = a \<or> o_stage c = ''cancelling''" unfolding op_calm_def by blast
qed

lemma op_good_refl: "op_sound i s \<Longrightarrow> op_good C i s s"
  by (simp add: op_good_def)

lemma op_good_trans: "op_good C i s s' \<Longrightarrow> op_good C i s' s'' \<Longrightarrow> op_good C i s s''"
  using op_calm_trans op_path_trans unfolding op_good_def by blast

lemma op_good_sound: "op_good C i s s' \<Longrightarrow> op_sound i s'"
  by (simp add: op_good_def)

lemma op_good_runs: "op_good C i s s' \<Longrightarrow> runs s' i = runs s i"
  by (simp add: op_good_def)

lemma env_ok_runs: "runs s' i = runs s i \<Longrightarrow> env_ok C i s' env = env_ok C i s env"
  by (simp add: env_ok_def)

lemma env_ok_shift: "env_ok C i s env \<Longrightarrow> env_ok C i s (\<lambda>k. env (n + k))"
  by (simp add: env_ok_def)

lemma sync_simps [simp]:
  "am_controllers (sync env k s) = am_controllers s"
  "am_retryTasks (sync env k s) = am_retryTasks s"
  "am_ops (sync env k s) = env k (am_ops s)"
  "runs (sync env k s) i = runs s i" "aborted (sync env k s) i = aborted s i"
  by (simp_all add: sync_def runs_def aborted_def)

lemma aborted_runs: "aborted s i \<Longrightarrow> runs s i"
  by (simp add: aborted_def runs_def js_has_def)

lemma sync_good:
  assumes "env_ok C i s env" "op_sound i s"
  shows "op_good C i s (sync env k s)"
proof -
  let ?st = "am_ops s" let ?st' = "env k ?st"
  have path: "op_path i ?st ?st'" and ok: "op_ok i ?st'" and calm: "C \<Longrightarrow> op_calm i ?st ?st'"
    and runs: "runs s i \<Longrightarrow> C"
    using assms by (auto simp: env_ok_def op_sound_def)
  have "(o_status b = OQueued \<longrightarrow> \<not> runs s i) \<and> (o_status b = ORunning \<and> aborted s i \<longrightarrow> o_stage b = ''cancelling'')"
    if b: "js_get ?st' i = Some b" for b
  proof -
    obtain a where a: "js_get ?st i = Some a" "op_evolves a b"
      using path b by (auto simp: op_path_def)
    have "o_status a = OQueued" if "o_status b = OQueued"
      using a(2) that by (cases "o_status a") (auto simp: op_evolves_def)
    moreover have "o_stage b = ''cancelling''" if run: "o_status b = ORunning" and ab: "aborted s i"
    proof -
      have "o_status a \<noteq> OQueued" using assms(2) a(1) aborted_runs [OF ab] by (auto simp: op_sound_def)
      then have ra: "o_status a = ORunning" using a(2) run by (cases "o_status a") (auto simp: op_evolves_def)
      then have "o_stage a = ''cancelling''" using assms(2) a(1) ab by (auto simp: op_sound_def)
      then show ?thesis using calm [OF runs [OF aborted_runs [OF ab]]] a(1) b ra run unfolding op_calm_def by metis
    qed
    ultimately show ?thesis using assms(2) a(1) by (auto simp: op_sound_def)
  qed
  with path ok calm show ?thesis by (simp add: op_good_def op_sound_def)
qed

text \<open>Aborting is sound when the operation is over, being cancelled, or another one.\<close>

lemma abort_simps [simp]:
  "am_ops (abort j s) = am_ops s" "am_retryTasks (abort j s) = am_retryTasks s" "runs (abort j s) i = runs s i"
  by (auto simp: abort_def runs_def)

lemma aborted_abort: "aborted (abort j s) i \<longleftrightarrow> aborted s i \<or> (j = i \<and> runs s i)"
  by (auto simp: abort_def aborted_def runs_def js_has_def)

lemma abort_good:
  assumes "op_sound i s"
    and "\<And>op. j = i \<Longrightarrow> js_get (am_ops s) i = Some op \<Longrightarrow> o_status op = ORunning \<Longrightarrow> o_stage op = ''cancelling''"
  shows "op_good C i s (abort j s)"
  using assms by (auto simp: op_good_def op_sound_def aborted_abort)

text \<open>Reading an operation and writing a later version of it.\<close>

lemma op_cas_simps [simp]:
  "am_controllers (fst (op_cas s op r)) = am_controllers s"
  "am_retryTasks (fst (op_cas s op r)) = am_retryTasks s"
  "am_ops (fst (op_cas s op r)) = fst (ops_cas (am_ops s) op r)"
  "runs (fst (op_cas s op r)) i = runs s i" "aborted (fst (op_cas s op r)) i = aborted s i"
  by (simp_all add: op_cas_def runs_def aborted_def split: prod.splits)

definition write_ok :: "'t manager \<Rightarrow> string \<Rightarrow> operation \<Rightarrow> operation \<Rightarrow> bool" where
  "write_ok s i op op' \<longleftrightarrow>
     op_evolves op (op'\<lparr>o_revision := o_revision op + 1\<rparr>)
     \<and> o_status op' \<noteq> OQueued
     \<and> (o_status op' = ORunning \<longrightarrow>
          (o_stage op' = ''cancelling'' \<and> o_cancellable op')
          \<or> (o_stage op' \<noteq> ''cancelling''
              \<and> (o_status op = OQueued \<or> (runs s i \<and> o_status op = ORunning \<and> o_stage op \<noteq> ''cancelling''))))"

lemma cas_unchanged:
  assumes "env_ok C i s env" "js_get (am_ops s) i = Some op"
    and "js_get (env k (am_ops s)) i = Some c" "o_revision c = o_revision op"
  shows "c = op"
  using assms by (fastforce simp: env_ok_def op_path_def op_evolves_def)


lemma snd_op_cas: "snd (op_cas s op r) = snd (ops_cas (am_ops s) op r)"
  by (simp add: op_cas_def split: prod.splits)

lemma op_sound_keyed: "op_sound i s \<Longrightarrow> js_get (am_ops s) j = Some op \<Longrightarrow> o_id op = j"
  by (auto simp: op_sound_def op_ok_def)

lemma js_wf_ops_cas: "js_wf st \<Longrightarrow> js_wf (fst (ops_cas st op r))"
  by (auto simp: ops_cas_def Let_def split: option.splits)

lemma cas_other_good:
  assumes "op_sound i s" "o_id op \<noteq> i"
  shows "op_good C i s (fst (op_cas s op r))"
  using assms
  by (auto simp: op_good_def op_sound_def op_ok_def js_wf_ops_cas op_calm_def intro: op_path_same)

lemma cas_own_good:
  assumes "op_sound i s" "js_get (am_ops s) i = Some op" "o_id op' = i" "write_ok s i op op'"
  shows "op_good C i s (fst (op_cas s op' (o_revision op)))"
proof -
  let ?u = "op'\<lparr>o_revision := o_revision op + 1\<rparr>"
  have get: "js_get (fst (ops_cas (am_ops s) op' (o_revision op))) k = (if k = i then Some ?u else js_get (am_ops s) k)" for k
    using assms(2,3) by simp
  have noabort: "aborted s i \<Longrightarrow> o_status op = OQueued \<or> o_status op = ORunning \<and> o_stage op \<noteq> ''cancelling'' \<Longrightarrow> False"
    using assms(1,2) aborted_runs [of s i] unfolding op_sound_def by metis
  have "op_sound i (fst (op_cas s op' (o_revision op)))"
    using assms noabort
    by (auto simp: op_sound_def op_ok_def get js_wf_ops_cas write_ok_def)
  moreover have "op_path i (am_ops s) (am_ops (fst (op_cas s op' (o_revision op))))"
    using assms(2,4) by (simp add: op_path_def get write_ok_def)
  moreover have "\<not> runs s i \<Longrightarrow> op_calm i (am_ops s) (am_ops (fst (op_cas s op' (o_revision op))))"
    using assms(2,4) by (auto simp: op_calm_def get write_ok_def)
  ultimately show ?thesis by (simp add: op_good_def)
qed

lemma read_write_good:
  assumes env: "env_ok C i s env" and sound: "op_sound i s"
    and read: "js_get (am_ops s) j = Some op" and id: "o_id op' = o_id op"
    and w: "j = i \<Longrightarrow> write_ok s i op op'"
  shows "op_good C i s (fst (op_cas (sync env k s) op' (o_revision op)))"
proof -
  let ?s1 = "sync env k s"
  have good: "op_good C i s ?s1" using env sound by (rule sync_good)
  then have sound1: "op_sound i ?s1" by (rule op_good_sound)
  have j: "o_id op = j" using sound read by (rule op_sound_keyed)
  have "op_good C i ?s1 (fst (op_cas ?s1 op' (o_revision op)))"
  proof (cases "j = i")
    case False
    with sound1 id j show ?thesis by (intro cas_other_good) auto
  next
    case True
    show ?thesis
    proof (cases "\<exists>c. js_get (env k (am_ops s)) i = Some c \<and> o_revision c = o_revision op")
      case Tr: True
      then have "js_get (am_ops ?s1) i = Some op"
        using cas_unchanged [OF env] read True by (metis sync_simps(3))
      moreover have "write_ok ?s1 i op op'" using w True by (simp add: write_ok_def)
      ultimately show ?thesis using sound1 id j True by (intro cas_own_good) auto
    next
      case False
      then have "fst (ops_cas (env k (am_ops s)) op' (o_revision op)) = env k (am_ops s)"
        using id j True by (auto simp: ops_cas_def split: option.splits)
      then have "fst (op_cas ?s1 op' (o_revision op)) = ?s1"
        by (cases "ops_cas (env k (am_ops s)) op' (o_revision op)") (simp add: op_cas_def sync_def)
      with sound1 show ?thesis by (simp add: op_good_refl)
    qed
  qed
  with good show ?thesis by (rule op_good_trans)
qed

text \<open>A write of the running task fails only when the operation was cancelled or finished.\<close>

lemma cas_failed_over:
  assumes env: "env_ok C i s env" and C: "runs s i" and sound: "op_sound i s"
    and read: "js_get (am_ops s) i = Some op" and run: "o_status op = ORunning" and id: "o_id op' = o_id op"
    and fail: "snd (op_cas (sync env k s) op' (o_revision op)) = None"
    and b: "js_get (env k (am_ops s)) i = Some b" "o_status b = ORunning"
  shows "o_stage b = ''cancelling''"
proof -
  have "op_calm i (am_ops s) (env k (am_ops s))" using env C by (auto simp: env_ok_def)
  then consider "b = op" | "o_stage b = ''cancelling''"
    using read run b unfolding op_calm_def by blast
  then show ?thesis
  proof cases
    case 1
    have "o_id op' = i" using id sound read op_sound_keyed by metis
    with 1 b have "snd (ops_cas (env k (am_ops s)) op' (o_revision op)) \<noteq> None"
      by (simp add: ops_cas_def Let_def)
    with fail show ?thesis by (simp add: snd_op_cas)
  qed
qed

lemma op_cas_None_ops: "op_cas s op r = (s', None) \<Longrightarrow> s' = s"
  by (auto simp: op_cas_def dest: ops_cas_None split: prod.splits)


lemma op_cas_Some_get:
  "op_cas s op r = (s', Some u) \<Longrightarrow>
     u = op\<lparr>o_revision := r + 1\<rparr> \<and> js_get (am_ops s') (o_id op) = Some u \<and> am_controllers s' = am_controllers s"
  by (auto simp: op_cas_def dest!: ops_cas_Some split: prod.splits)

lemma env_ok_good: "op_good C i s s' \<Longrightarrow> env_ok C i s env \<Longrightarrow> env_ok C i s' env"
  using op_good_runs [of C i s s'] by (simp add: env_ok_def)

section \<open>Every method keeps it\<close>

text \<open>When a live operation may be written.\<close>

lemma write_okI:
  assumes "\<not> op_terminal (o_status op)" "op_identity op' = op_identity op"
    and "op_rank (o_status op) \<le> op_rank (o_status op')"
    and "\<not> o_cancellable op \<Longrightarrow> \<not> o_cancellable op' \<and> o_status op' \<noteq> OCancelled"
    and "o_status op' \<noteq> OQueued"
    and "o_status op' = ORunning \<Longrightarrow> (o_stage op' = ''cancelling'' \<and> o_cancellable op')
        \<or> (o_stage op' \<noteq> ''cancelling''
            \<and> (o_status op = OQueued \<or> (runs s i \<and> o_status op = ORunning \<and> o_stage op \<noteq> ''cancelling'')))"
  shows "write_ok s i op op'"
  using assms by (auto simp: write_ok_def op_evolves_def op_identity_def)

lemma cancel_loop_good:
  "env_ok C i s env \<Longrightarrow> op_sound i s \<Longrightarrow> op_good C i s (fst (cancel_loop n k env now s j))"
proof (induction n arbitrary: k s)
  case (Suc n)
  let ?s0 = "sync env (2 * k) s"
  have g0: "op_good C i s ?s0" using Suc.prems by (rule sync_good)
  have sound0: "op_sound i ?s0" and env0: "env_ok C i ?s0 env"
    using g0 Suc.prems(1) op_good_sound env_ok_good by blast+
  show ?case
  proof (cases "js_get (am_ops ?s0) j")
    case None
    then show ?thesis using g0 by (simp add: ops_get_def Let_def)
  next
    case (Some op)
    have id: "o_id op = j" using sound0 Some by (rule op_sound_keyed)
    define op' where "op' = (if o_status op = OQueued
        then op\<lparr>o_status := OCancelled, o_stage := ''cancelled'', o_heartbeatAt := Some now, o_finishedAt := Some now\<rparr>
        else op\<lparr>o_stage := ''cancelling'', o_heartbeatAt := Some now\<rparr>)"
    consider (stop) "op_terminal (o_status op) \<or> \<not> o_cancellable op"
      | (again) "\<not> op_terminal (o_status op)" "o_cancellable op" "o_status op \<noteq> OQueued" "o_stage op = ''cancelling''"
      | (act) "\<not> op_terminal (o_status op)" "o_cancellable op" "\<not> (o_status op \<noteq> OQueued \<and> o_stage op = ''cancelling'')"
      by blast
    then show ?thesis
    proof cases
      case stop
      then show ?thesis using g0 Some by (auto simp: ops_get_def Let_def)
    next
      case again
      have "op_good C i ?s0 (abort j ?s0)" using sound0 Some again(4) by (intro abort_good) auto
      with again Some g0 show ?thesis by (auto simp: ops_get_def Let_def intro: op_good_trans)
    next
      case act
      obtain s1 r where cas: "op_cas (sync env (2 * k + 1) ?s0) op' (o_revision op) = (s1, r)" by fastforce
      have "write_ok ?s0 i op op'"
        using act by (intro write_okI) (auto simp: op'_def op_identity_def op_terminal_def)
      then have g1: "op_good C i ?s0 s1"
        using read_write_good [OF env0 sound0 Some, of op' "2 * k + 1"] cas by (simp add: op'_def)
      have g: "op_good C i s s1" using g0 g1 by (rule op_good_trans)
      have step: "fst (cancel_loop (Suc n) k env now s j) =
          (case r of None \<Rightarrow> fst (cancel_loop n (k + 1) env now s1 j) | Some u \<Rightarrow> abort j s1)"
        using Some act cas by (auto simp: ops_get_def Let_def op'_def split: option.splits)
      show ?thesis
      proof (cases r)
        case None
        have "op_good C i s1 (fst (cancel_loop n (k + 1) env now s1 j))"
          using g Suc.prems(1) op_good_sound env_ok_good by (intro Suc.IH) blast+
        with g None show ?thesis unfolding step by (auto intro: op_good_trans)
      next
        case (Some u)
        have "op_cas (sync env (2 * k + 1) ?s0) op' (o_revision op) = (s1, Some u)" using cas Some by simp
        note u = op_cas_Some_get [OF this]
        have "op_good C i s1 (abort j s1)"
        proof (rule abort_good)
          show "op_sound i s1" using g by (rule op_good_sound)
          fix b assume "j = i" "js_get (am_ops s1) i = Some b" "o_status b = ORunning"
          moreover have "o_id op' = j" using id by (simp add: op'_def)
          ultimately have "b = op'\<lparr>o_revision := o_revision op + 1\<rparr>" "o_status op' = ORunning"
            using u by auto
          then show "o_stage b = ''cancelling''" by (simp add: op'_def split: if_splits)
        qed
        with g Some show ?thesis unfolding step by (auto intro: op_good_trans)
      qed
    qed
  qed
qed (simp add: op_good_refl)

text \<open>The task's own calls: this process runs it.\<close>

lemma report_good:
  assumes env: "env_ok C i s env" and sound: "op_sound i s" and runs: "runs s j"
    and stage: "bounded_text stage 120 \<noteq> ''cancelling''"
  shows "op_good C i s (fst (report_op env now s j progress stage))"
proof -
  let ?s0 = "sync env 0 s"
  have g0: "op_good C i s ?s0" using env sound by (rule sync_good)
  have sound0: "op_sound i ?s0" and env0: "env_ok C i ?s0 env"
    using g0 env op_good_sound env_ok_good by blast+
  have stop: ?thesis if "fst (report_op env now s j progress stage) = abort j ?s0"
    and "\<And>op. js_get (am_ops ?s0) j = Some op \<Longrightarrow> o_status op = ORunning \<Longrightarrow> o_stage op = ''cancelling''"
  proof -
    have "op_good C i ?s0 (abort j ?s0)" using sound0 that(2) by (intro abort_good) auto
    with that(1) g0 show ?thesis by (auto intro: op_good_trans)
  qed
  show ?thesis
  proof (cases "js_get (am_ops ?s0) j")
    case None
    then show ?thesis by (intro stop) (auto simp: report_op_def ops_get_def Let_def)
  next
    case (Some op)
    have id: "o_id op = j" using sound0 Some by (rule op_sound_keyed)
    show ?thesis
    proof (cases "o_status op \<noteq> ORunning \<or> o_stage op = ''cancelling''")
      case True
      with Some show ?thesis by (intro stop) (auto simp: report_op_def ops_get_def Let_def)
    next
      case False
      define op' where "op' = op\<lparr>o_progress := clamp_progress progress, o_stage := bounded_text stage 120,
        o_heartbeatAt := Some now\<rparr>"
      obtain s1 r where cas: "op_cas (sync env 1 ?s0) op' (o_revision op) = (s1, r)" by fastforce
      have "j = i \<Longrightarrow> write_ok ?s0 i op op'"
        using False runs stage by (intro write_okI) (auto simp: op'_def op_identity_def op_terminal_def)
      then have g1: "op_good C i ?s0 s1"
        using read_write_good [OF env0 sound0 Some, of op' 1] cas by (simp add: op'_def)
      have g: "op_good C i s s1" using g0 g1 by (rule op_good_trans)
      show ?thesis
      proof (cases r)
        case None
        have "op_good C i s1 (abort j s1)"
        proof (rule abort_good)
          show "op_sound i s1" using g by (rule op_good_sound)
          fix b assume "j = i" "js_get (am_ops s1) i = Some b" "o_status b = ORunning"
          then show "o_stage b = ''cancelling''"
            using cas_failed_over [OF env0 _ sound0, of op op' 1 b] Some False runs cas None
              op_cas_None_ops [of "sync env 1 ?s0" op' "o_revision op" s1]
            by (auto simp: op'_def)
        qed
        with g None cas Some False show ?thesis
          by (auto simp: report_op_def ops_get_def Let_def op'_def intro: op_good_trans)
      next
        case (Some u)
        with g cas \<open>js_get (am_ops ?s0) j = Some op\<close> False show ?thesis
          by (auto simp: report_op_def ops_get_def Let_def op'_def)
      qed
    qed
  qed
qed


text \<open>The same pattern for the methods that write once, with \<open>f\<close> what they then do.\<close>

lemma aborting_good:
  assumes "op_good C i s s1"
    and "\<And>op. j = i \<Longrightarrow> js_get (am_ops s1) i = Some op \<Longrightarrow> o_status op = ORunning \<Longrightarrow> o_stage op = ''cancelling''"
  shows "op_good C i s (abort j s1)"
proof -
  have "op_good C i s1 (abort j s1)" using op_good_sound [OF assms(1)] assms(2) by (rule abort_good)
  with assms(1) show ?thesis by (rule op_good_trans)
qed

lemma commit_loop_good:
  "env_ok C i s env \<Longrightarrow> op_sound i s \<Longrightarrow> runs s j \<Longrightarrow>
     (n = 0 \<Longrightarrow> j = i \<Longrightarrow> \<forall>op. js_get (am_ops s) i = Some op \<longrightarrow> o_status op = ORunning \<longrightarrow> o_stage op = ''cancelling'')
     \<Longrightarrow> op_good C i s (fst (commit_loop n k env now s j))"
proof (induction n arbitrary: k s)
  case 0
  then show ?case using aborting_good [OF op_good_refl [OF 0(2)], of j C] by simp
next
  case (Suc n)
  let ?s0 = "sync env (2 * k) s"
  have g0: "op_good C i s ?s0" using Suc.prems(1,2) by (rule sync_good)
  have sound0: "op_sound i ?s0" and env0: "env_ok C i ?s0 env"
    using g0 Suc.prems(1) op_good_sound env_ok_good by blast+
  have runs0: "runs ?s0 j" using Suc.prems(3) by simp
  show ?case
  proof (cases "js_get (am_ops ?s0) j")
    case None
    have "op_good C i s (abort j ?s0)" using g0 None by (intro aborting_good) auto
    with None show ?thesis by (simp add: ops_get_def Let_def)
  next
    case (Some op)
    have id: "o_id op = j" using sound0 Some by (rule op_sound_keyed)
    consider (stop) "aborted ?s0 j \<or> o_stage op = ''cancelling'' \<or> o_status op = OCancelled \<or> o_status op \<noteq> ORunning"
      | (already) "\<not> aborted ?s0 j" "o_stage op \<noteq> ''cancelling''" "o_status op = ORunning" "\<not> o_cancellable op" "o_stage op = ''finalizing''"
      | (act) "\<not> aborted ?s0 j" "o_stage op \<noteq> ''cancelling''" "o_status op = ORunning"
          "\<not> (\<not> o_cancellable op \<and> o_stage op = ''finalizing'')"
      by blast
    then show ?thesis
    proof cases
      case stop
      then have "op_good C i s (abort j ?s0)"
        using g0 Some sound0 by (intro aborting_good) (auto simp: op_sound_def)
      moreover have "fst (commit_loop (Suc n) k env now s j) = abort j ?s0"
        using stop Some by (auto simp: ops_get_def Let_def)
      ultimately show ?thesis by simp
    next
      case already
      then show ?thesis using g0 Some by (simp add: ops_get_def Let_def)
    next
      case act
      define op' where "op' = op\<lparr>o_cancellable := False, o_stage := ''finalizing'', o_heartbeatAt := Some now\<rparr>"
      obtain s1 r where cas: "op_cas (sync env (2 * k + 1) ?s0) op' (o_revision op) = (s1, r)" by fastforce
      have "j = i \<Longrightarrow> write_ok ?s0 i op op'"
        using act runs0 by (intro write_okI) (auto simp: op'_def op_identity_def op_terminal_def)
      then have g1: "op_good C i ?s0 s1"
        using read_write_good [OF env0 sound0 Some, of op' "2 * k + 1"] cas by (simp add: op'_def)
      have g: "op_good C i s s1" using g0 g1 by (rule op_good_trans)
      have step: "fst (commit_loop (Suc n) k env now s j) =
          (case r of None \<Rightarrow> fst (commit_loop n (k + 1) env now s1 j) | Some u \<Rightarrow> s1)"
        using Some act cas by (auto simp: ops_get_def Let_def op'_def split: option.splits)
      show ?thesis
      proof (cases r)
        case None
        have s1: "s1 = sync env (2 * k + 1) ?s0" using cas None op_cas_None_ops by blast
        have "op_good C i s1 (fst (commit_loop n (k + 1) env now s1 j))"
        proof (rule Suc.IH)
          show "env_ok C i s1 env" "op_sound i s1" using g Suc.prems(1) op_good_sound env_ok_good by blast+
          show "runs s1 j" using runs0 by (simp add: s1)
          assume ji: "j = i"
          show "\<forall>b. js_get (am_ops s1) i = Some b \<longrightarrow> o_status b = ORunning \<longrightarrow> o_stage b = ''cancelling''"
            using cas_failed_over [OF env0 _ sound0, of op op' "2 * k + 1"] Some act runs0 cas None ji
            by (auto simp: s1 op'_def)
        qed
        with g None show ?thesis unfolding step by (auto intro: op_good_trans)
      next
        case Some
        with g show ?thesis unfolding step by simp
      qed
    qed
  qed
qed

lemma heartbeat_good:
  assumes env: "env_ok C i s env" and sound: "op_sound i s" and runs: "runs s j"
  shows "op_good C i s (touch_heartbeat env now s j)"
proof -
  let ?s0 = "sync env 0 s"
  have g0: "op_good C i s ?s0" using env sound by (rule sync_good)
  have sound0: "op_sound i ?s0" and env0: "env_ok C i ?s0 env"
    using g0 env op_good_sound env_ok_good by blast+
  show ?thesis
  proof (cases "js_get (am_ops ?s0) j")
    case None
    have "op_good C i s (abort j ?s0)" using g0 None by (intro aborting_good) auto
    with None show ?thesis by (simp add: touch_heartbeat_def ops_get_def Let_def)
  next
    case (Some op)
    show ?thesis
    proof (cases "o_status op \<noteq> ORunning \<or> o_stage op = ''cancelling''")
      case True
      then have "op_good C i s (abort j ?s0)" using g0 Some by (intro aborting_good) auto
      with True Some show ?thesis by (simp add: touch_heartbeat_def ops_get_def Let_def)
    next
      case False
      define op' where "op' = op\<lparr>o_heartbeatAt := Some now\<rparr>"
      obtain s1 r where cas: "op_cas (sync env 1 ?s0) op' (o_revision op) = (s1, r)" by fastforce
      have "j = i \<Longrightarrow> write_ok ?s0 i op op'"
        using False runs by (intro write_okI) (auto simp: op'_def op_identity_def op_terminal_def)
      then have g1: "op_good C i ?s0 s1"
        using read_write_good [OF env0 sound0 Some, of op' 1] cas by (simp add: op'_def)
      have g: "op_good C i s s1" using g0 g1 by (rule op_good_trans)
      have step: "touch_heartbeat env now s j = (case r of None \<Rightarrow> abort j s1 | Some u \<Rightarrow> s1)"
        using Some False cas by (auto simp: touch_heartbeat_def ops_get_def Let_def op'_def split: option.splits)
      show ?thesis
      proof (cases r)
        case None
        have s1: "s1 = sync env 1 ?s0" using cas None op_cas_None_ops by blast
        have "op_good C i s (abort j s1)"
          using cas_failed_over [OF env0 _ sound0, of op op' 1] Some False runs cas None
          by (intro aborting_good [OF g]) (auto simp: s1 op'_def)
        with None show ?thesis unfolding step by simp
      next
        case Some
        with g show ?thesis unfolding step by simp
      qed
    qed
  qed
qed

text \<open>Completion records a cancellation only for an operation that still was cancellable.\<close>

lemma completed_status:
  "op_sound i s \<Longrightarrow> js_get (am_ops s) i = Some op \<Longrightarrow> o_status op = ORunning \<Longrightarrow>
     o_status (completed rd sn now (aborted s i) oc op) = OCancelled \<Longrightarrow> o_cancellable op"
  by (cases oc) (auto simp: completed_def Let_def op_sound_def op_ok_def split: if_splits)

lemma completed_simps [simp]:
  "op_identity (completed rd sn now ab oc op) = op_identity op" "o_id (completed rd sn now ab oc op) = o_id op"
  "o_cancellable (completed rd sn now ab oc op) = o_cancellable op"
  "o_status (completed rd sn now ab oc op) \<in> {OSucceeded, OFailed, OCancelled}"
  by (cases oc; simp add: completed_def Let_def op_identity_def)+

lemma complete_loop_good:
  "env_ok C i s env \<Longrightarrow> op_sound i s \<Longrightarrow> op_good C i s (fst (complete_loop n k rd sn env now s j oc))"
proof (induction n arbitrary: k s)
  case (Suc n)
  let ?s0 = "sync env (2 * k) s"
  have g0: "op_good C i s ?s0" using Suc.prems by (rule sync_good)
  have sound0: "op_sound i ?s0" and env0: "env_ok C i ?s0 env"
    using g0 Suc.prems(1) op_good_sound env_ok_good by blast+
  show ?case
  proof (cases "js_get (am_ops ?s0) j")
    case None
    then show ?thesis using g0 by (simp add: ops_get_def Let_def)
  next
    case (Some op)
    show ?thesis
    proof (cases "o_status op = ORunning")
      case False
      then show ?thesis using g0 Some by (simp add: ops_get_def Let_def)
    next
      case True
      let ?op' = "completed rd sn now (aborted ?s0 j) oc op"
      obtain s1 r where cas: "op_cas (sync env (2 * k + 1) ?s0) ?op' (o_revision op) = (s1, r)" by fastforce
      have "write_ok ?s0 i op ?op'" if "j = i"
      proof (rule write_okI)
        show "\<not> o_cancellable op \<Longrightarrow> \<not> o_cancellable ?op' \<and> o_status ?op' \<noteq> OCancelled"
          using completed_status [OF sound0] Some True that by auto
      qed (use completed_simps(4) [of rd sn now "aborted ?s0 j" oc op] True in \<open>auto simp: op_terminal_def\<close>)
      then have g1: "op_good C i ?s0 s1"
        using read_write_good [OF env0 sound0 Some, of ?op' "2 * k + 1"] cas by simp
      have g: "op_good C i s s1" using g0 g1 by (rule op_good_trans)
      have "op_good C i s1 (fst (complete_loop n (k + 1) rd sn env now s1 j oc))"
        using g Suc.prems(1) op_good_sound env_ok_good by (intro Suc.IH) blast+
      with g have "op_good C i s (fst (complete_loop n (k + 1) rd sn env now s1 j oc))"
        by (rule op_good_trans)
      with g Some True cas show ?thesis
        by (cases r) (auto simp: ops_get_def Let_def)
    qed
  qed
qed (simp add: op_good_refl)


text \<open>Methods after which this process runs another set of tasks: \<open>op_safe\<close>.\<close>

definition op_safe :: "bool \<Rightarrow> string \<Rightarrow> 't manager \<Rightarrow> 't manager \<Rightarrow> bool" where
  "op_safe C i s s' \<longleftrightarrow> op_sound i s' \<and> op_path i (am_ops s) (am_ops s')
     \<and> (C \<and> \<not> runs s i \<longrightarrow> op_calm i (am_ops s) (am_ops s'))"

lemma op_good_safe: "op_good C i s s' \<Longrightarrow> op_safe C i s s'"
  by (simp add: op_good_def op_safe_def)

lemma op_safe_ops:
  "op_good C i s s' \<Longrightarrow> am_ops s'' = am_ops s' \<Longrightarrow> op_sound i s'' \<Longrightarrow> op_safe C i s s''"
  by (simp add: op_good_def op_safe_def)

lemma op_good_ops:
  "op_good C i s s' \<Longrightarrow> am_ops s'' = am_ops s' \<Longrightarrow> am_controllers s'' = am_controllers s' \<Longrightarrow> op_good C i s s''"
  by (auto simp: op_good_def op_sound_def runs_def aborted_def)

lemma claim_safe:
  assumes env: "env_ok C i s env" and sound: "op_sound i s"
  shows "op_safe C i s (fst (claim_op env now s j))"
proof -
  let ?s0 = "sync env 0 s"
  have g0: "op_good C i s ?s0" using env sound by (rule sync_good)
  have sound0: "op_sound i ?s0" and env0: "env_ok C i ?s0 env"
    using g0 env op_good_sound env_ok_good by blast+
  show ?thesis
  proof (cases "\<exists>op. js_get (am_ops ?s0) j = Some op \<and> o_status op = OQueued")
    case False
    then have "fst (claim_op env now s j) = ?s0"
      by (auto simp: claim_op_def ops_get_def Let_def split: option.splits)
    with g0 show ?thesis by (simp add: op_good_safe)
  next
    case True
    then obtain op where op: "js_get (am_ops ?s0) j = Some op" "o_status op = OQueued" by blast
    define op' where "op' = op\<lparr>o_status := ORunning, o_stage := ''running'', o_startedAt := Some now,
      o_heartbeatAt := Some now\<rparr>"
    obtain s1 r where cas: "op_cas (sync env 1 ?s0) op' (o_revision op) = (s1, r)" by fastforce
    have "write_ok ?s0 i op op'"
      using op by (intro write_okI) (auto simp: op'_def op_identity_def op_terminal_def)
    then have g1: "op_good C i ?s0 s1"
      using read_write_good [OF env0 sound0 op(1), of op' 1] cas by (simp add: op'_def)
    have g: "op_good C i s s1" using g0 g1 by (rule op_good_trans)
    have step: "fst (claim_op env now s j) =
        (case r of None \<Rightarrow> s1 | Some u \<Rightarrow> s1\<lparr>am_controllers := js_set (am_controllers s1) j False\<rparr>)"
      using op cas by (auto simp: claim_op_def ops_get_def Let_def op'_def split: option.splits)
    show ?thesis
    proof (cases r)
      case None
      with g show ?thesis unfolding step by (simp add: op_good_safe)
    next
      case (Some u)
      with cas have "op_cas (sync env 1 ?s0) op' (o_revision op) = (s1, Some u)" by simp
      note u = op_cas_Some_get [OF this]
      have "o_id op' = j" using op_sound_keyed [OF sound0 op(1)] by (simp add: op'_def)
      with u have "js_get (am_ops s1) j = Some u" "o_status u \<noteq> OQueued" by (auto simp: op'_def)
      with op_good_sound [OF g] have "op_sound i (s1\<lparr>am_controllers := js_set (am_controllers s1) j False\<rparr>)"
        by (auto simp: op_sound_def runs_def aborted_def split: if_splits)
      with g Some show ?thesis unfolding step by (auto intro: op_safe_ops)
    qed
  qed
qed

lemma start_failure_good:
  assumes env: "env_ok C i s env" and sound: "op_sound i s"
  shows "op_good C i s (mark_start_failure sn env now s j msg)"
proof -
  let ?s0 = "sync env 0 s"
  have g0: "op_good C i s ?s0" using env sound by (rule sync_good)
  have sound0: "op_sound i ?s0" and env0: "env_ok C i ?s0 env"
    using g0 env op_good_sound env_ok_good by blast+
  show ?thesis
  proof (cases "\<exists>op. js_get (am_ops ?s0) j = Some op \<and> o_status op = OQueued")
    case False
    then have "mark_start_failure sn env now s j msg = ?s0"
      by (auto simp: mark_start_failure_def ops_get_def Let_def split: option.splits)
    with g0 show ?thesis by simp
  next
    case True
    then obtain op where op: "js_get (am_ops ?s0) j = Some op" "o_status op = OQueued" by blast
    define op' where "op' = op\<lparr>o_status := OFailed, o_stage := ''failed'',
      o_error := Some (sanitize_operation_error sn msg), o_cancellable := False, o_retryable := False,
      o_finishedAt := Some now, o_heartbeatAt := Some now\<rparr>"
    have "write_ok ?s0 i op op'"
      using op by (intro write_okI) (auto simp: op'_def op_identity_def op_terminal_def)
    then have "op_good C i ?s0 (fst (op_cas (sync env 1 ?s0) op' (o_revision op)))"
      using read_write_good [OF env0 sound0 op(1), of op' 1] by (simp add: op'_def)
    with g0 have "op_good C i s (fst (op_cas (sync env 1 ?s0) op' (o_revision op)))" by (rule op_good_trans)
    moreover have "mark_start_failure sn env now s j msg = fst (op_cas (sync env 1 ?s0) op' (o_revision op))"
      using op by (simp add: mark_start_failure_def ops_get_def op'_def)
    ultimately show ?thesis by simp
  qed
qed

lemma forget_simps [simp]:
  "am_ops (forget_task j s) = am_ops s" "am_controllers (forget_task j s) = am_controllers s"
  by (simp_all add: forget_task_def)

lemma new_operation_simps [simp]: "o_id (new_operation uid rid now inp) = uid"
  by (simp add: new_operation_def)

lemma ops_create_cases:
  obtains e where "ops_create st op = (st, e, False)"
  | "ops_create st op = (js_set st (o_id op) op, op, True)"
  by (cases "if js_truthy (o_idempotencyKey op) then ops_find st (o_actorUserId op) (the (o_idempotencyKey op)) else None")
    (auto simp: ops_create_def Let_def)

lemma start_good:
  assumes env: "env_ok C i s env" and sound: "op_sound i s" and fresh: "uid \<noteq> i"
  shows "op_good C i s (fst (start_op env uid rid now s inp task))"
proof -
  define s0 where "s0 = (if js_truthy (si_idempotencyKey inp) then sync env 0 s else s)"
  have g0: "op_good C i s s0" using sync_good [OF env sound] op_good_refl [OF sound] by (simp add: s0_def)
  have sound0: "op_sound i s0" and env0: "env_ok C i s0 env"
    using g0 env op_good_sound env_ok_good by blast+
  let ?s1 = "sync env 1 s0" and ?op = "new_operation uid rid now inp"
  have g1: "op_good C i s ?s1" using g0 sync_good [OF env0 sound0] by (rule op_good_trans)
  note start = start_op_def [of env uid rid now s inp task, folded s0_def, unfolded Let_def, folded One_nat_def]
  show ?thesis
  proof (cases "if js_truthy (si_idempotencyKey inp)
      then ops_find (am_ops s0) (si_actorUserId inp) (the (si_idempotencyKey inp)) else None")
    case (Some e)
    with g0 show ?thesis by (simp add: start_op_def s0_def Let_def split: if_splits)
  next
    case None
    show ?thesis
    proof (cases rule: ops_create_cases [of "am_ops ?s1" ?op])
      case (1 e)
      with None g1 show ?thesis by (simp add: start_op_def s0_def Let_def split: if_splits)
    next
      case 2
      define ops where "ops = js_set (am_ops ?s1) uid ?op"
      have same: "js_get ops i = js_get (am_ops ?s1) i" using fresh by (simp add: ops_def)
      have "op_ok i ops"
        using op_good_sound [OF g1] fresh by (auto simp: op_sound_def op_ok_def ops_def)
      with same have "op_good C i ?s1 (?s1\<lparr>am_ops := ops\<rparr>)"
        using op_good_sound [OF g1]
        by (auto simp: op_good_def op_sound_def runs_def aborted_def op_calm_def intro: op_path_same)
      with g1 have g2: "op_good C i s (?s1\<lparr>am_ops := ops\<rparr>)" by (rule op_good_trans)
      have "am_ops (fst (start_op env uid rid now s inp task)) = ops"
        "am_controllers (fst (start_op env uid rid now s inp task)) = am_controllers ?s1"
        using None 2 by (simp_all add: start_op_def s0_def Let_def ops_def split: if_splits)
      then show ?thesis by (intro op_good_ops [OF g2]) auto
    qed
  qed
qed


lemma prune_good:
  assumes "op_sound i s"
  shows "op_good C i s (s\<lparr>am_ops := fst (ops_prune_finished (am_ops s) now ms)\<rparr>)"
proof -
  let ?st = "fst (ops_prune_finished (am_ops s) now ms)"
  have wf: "js_wf (am_ops s)" using assms by (simp add: op_sound_def op_ok_def)
  have get: "js_get ?st k = Some op \<Longrightarrow> js_get (am_ops s) k = Some op" for k op
    using wf by (auto simp: ops_prune_finished_def Let_def split: option.splits if_splits)
  have wf': "js_wf ?st" using wf by (simp add: ops_prune_finished_def Let_def)
  have same: "runs (s\<lparr>am_ops := ?st\<rparr>) i = runs s i" "aborted (s\<lparr>am_ops := ?st\<rparr>) i = aborted s i"
    by (simp_all add: runs_def aborted_def)
  have "op_ok i ?st" using assms get wf' unfolding op_sound_def op_ok_def by blast
  moreover have "(o_status op = OQueued \<longrightarrow> \<not> runs s i)
      \<and> (o_status op = ORunning \<and> aborted s i \<longrightarrow> o_stage op = ''cancelling'')" if "js_get ?st i = Some op" for op
    using assms get [OF that] unfolding op_sound_def by blast
  ultimately have "op_sound i (s\<lparr>am_ops := ?st\<rparr>)"
    unfolding op_sound_def same by simp
  moreover have "op_calm i (am_ops s) ?st" using get by (fastforce simp: op_calm_def)
  ultimately show ?thesis using op_path_prune [OF wf] by (simp add: op_good_def runs_def)
qed

lemma recover_good:
  assumes "op_sound i s"
  shows "op_good C i s (s\<lparr>am_ops := fst (ops_recover (am_ops s) cutoff now)\<rparr>)"
proof -
  let ?st = "fst (ops_recover (am_ops s) cutoff now)"
  have get: "js_get ?st k = map_option (\<lambda>op. if op_stale cutoff op then op_interrupted now op else op) (js_get (am_ops s) k)" for k
    by (simp add: ops_recover_def)
  have wf: "js_wf ?st" using assms by (simp add: ops_recover_def op_sound_def op_ok_def)
  have failed: "o_status (op_interrupted now op) = OFailed" "o_id (op_interrupted now op) = o_id op" for op
    by (simp_all add: op_interrupted_def)
  from assms have ok: "op_ok i ?st"
    using wf by (auto simp: op_sound_def op_ok_def get failed split: if_splits)
  with assms have "op_sound i (s\<lparr>am_ops := ?st\<rparr>)"
    by (auto simp: op_sound_def get failed runs_def aborted_def split: if_splits)
  moreover have "op_calm i (am_ops s) ?st" by (auto simp: op_calm_def get failed split: if_splits)
  ultimately show ?thesis using op_path_recover by (simp add: op_good_def runs_def)
qed

lemma abort_all_good:
  "op_good C i s0 s \<Longrightarrow>
     (i \<in> set ids \<Longrightarrow> \<forall>op. js_get (am_ops s) i = Some op \<longrightarrow> o_status op \<noteq> ORunning) \<Longrightarrow>
     op_good C i s0 (foldl (\<lambda>s j. (abort j s)\<lparr>am_retryTasks := js_delete (am_retryTasks s) j\<rparr>) s ids)"
proof (induction ids arbitrary: s)
  case (Cons j ids)
  have "op_good C i s0 (abort j s)" using Cons.prems by (intro aborting_good) auto
  then have "op_good C i s0 ((abort j s)\<lparr>am_retryTasks := js_delete (am_retryTasks s) j\<rparr>)"
    by (rule op_good_ops) simp_all
  then show ?case using Cons by simp
qed simp

lemma recover_interrupted_good:
  assumes env: "env_ok C i s env" and sound: "op_sound i s"
  shows "op_good C i s (fst (recover_interrupted env now s ms))"
proof -
  let ?s0 = "sync env 0 s"
  let ?p = "?s0\<lparr>am_ops := fst (ops_prune_finished (am_ops ?s0) now operation_retention_ms)\<rparr>"
  let ?s1 = "sync env 1 ?p"
  let ?cutoff = "now - max 0 ms"
  let ?s2 = "?s1\<lparr>am_ops := fst (ops_recover (am_ops ?s1) ?cutoff now)\<rparr>"
  let ?ids = "snd (ops_recover (am_ops ?s1) ?cutoff now)"
  have g0: "op_good C i s ?s0" using env sound by (rule sync_good)
  have gp: "op_good C i s ?p" using g0 prune_good [OF op_good_sound [OF g0]] by (rule op_good_trans)
  have g1: "op_good C i s ?s1"
    using gp sync_good [OF env_ok_good [OF gp env] op_good_sound [OF gp]] by (rule op_good_trans)
  have g2: "op_good C i s ?s2" using g1 recover_good [OF op_good_sound [OF g1]] by (rule op_good_trans)
  have "\<forall>op. js_get (am_ops ?s2) i = Some op \<longrightarrow> o_status op \<noteq> ORunning" if "i \<in> set ?ids"
  proof -
    have "js_wf (am_ops ?s1)" using op_good_sound [OF g1] by (simp add: op_sound_def op_ok_def)
    with that have "\<exists>op. js_get (am_ops ?s1) i = Some op \<and> op_stale ?cutoff op"
      by (force simp: ops_recover_def js_wf_def)
    then show ?thesis by (auto simp: ops_recover_def op_interrupted_def)
  qed
  from abort_all_good [OF g2 this] show ?thesis
    by (simp add: recover_interrupted_def Let_def case_prod_unfold)
qed

lemma write_ok_finished: "op_terminal (o_status op) \<Longrightarrow> write_ok s i op (op\<lparr>o_retryable := x\<rparr>)"
  by (auto simp: write_ok_def op_evolves_def op_identity_def op_terminal_def)

lemma retry_good:
  assumes env: "env_ok C i s env" and sound: "op_sound i s" and fresh: "uid \<noteq> i"
  shows "op_good C i s (fst (retry_op locked env uid rid now s j task))"
proof -
  let ?s0 = "sync env 0 s"
  have g0: "op_good C i s ?s0" using env sound by (rule sync_good)
  have sound0: "op_sound i ?s0" and env0: "env_ok C i ?s0 env"
    using g0 env op_good_sound env_ok_good by blast+
  show ?thesis
  proof (cases "\<exists>op. locked \<and> js_get (am_ops ?s0) j = Some op \<and> op_terminal (o_status op)
      \<and> o_status op \<noteq> OSucceeded \<and> (o_retryable op \<or> task \<noteq> None)")
    case False
    then have "fst (retry_op locked env uid rid now s j task) \<in> {s, ?s0}"
      by (auto simp: retry_op_def ops_get_def op_terminal_def Let_def split: option.splits if_splits)
    with g0 op_good_refl [OF sound] show ?thesis by auto
  next
    case True
    then obtain op where op: "locked" "js_get (am_ops ?s0) j = Some op" "op_terminal (o_status op)"
      "o_status op = OFailed \<or> o_status op = OCancelled" "o_retryable op \<or> task \<noteq> None"
      by (auto simp: op_terminal_def)
    let ?op' = "op\<lparr>o_retryable := False\<rparr>"
    obtain s1 r where cas: "op_cas (sync env 1 ?s0) ?op' (o_revision op) = (s1, r)" by fastforce
    have "op_good C i ?s0 s1"
      using read_write_good [OF env0 sound0 op(2), of ?op' 1, OF _ write_ok_finished [OF op(3)]] cas by simp
    with g0 have g: "op_good C i s s1" by (rule op_good_trans)
    have sound1: "op_sound i s1" and env1: "env_ok C i s1 (\<lambda>k. env (2 + k))"
      using op_good_sound [OF g] env_ok_good [OF g env] env_ok_shift by blast+
    define t where "t = (if task \<noteq> None then task else js_get (am_retryTasks ?s0) j)"
    have step: "fst (retry_op locked env uid rid now s j task) =
        (case t of None \<Rightarrow> s1
         | Some rt \<Rightarrow> (case r of None \<Rightarrow> s1 | Some _ \<Rightarrow>
             (case start_op (\<lambda>k. env (2 + k)) uid rid now s1 (retry_input op) rt of
                (s2, Inl e) \<Rightarrow> fst (let s3 = sync env 4 s2 in case ops_get (am_ops s3) j of
                    None \<Rightarrow> (s3, Inl e :: (op_error, operation) res)
                  | Some latest \<Rightarrow> if o_retryable latest then (s3, Inl e)
                      else (fst (op_cas (sync env 5 s3) (latest\<lparr>o_retryable := o_retryable op\<rparr>) (o_revision latest)), Inl e))
              | (s2, Inr (retried, _)) \<Rightarrow> forget_task j s2)))"
      unfolding t_def using op cas
      by (auto simp: retry_op_def ops_get_def simp del: One_nat_def split: option.split sum.split prod.split)
    show ?thesis
    proof (cases "t = None \<or> r = None")
      case True
      with g show ?thesis unfolding step by (auto split: option.split)
    next
      case False
      then obtain u rt where ru: "r = Some u" "t = Some rt" by auto
      obtain s2 res where st: "start_op (\<lambda>k. env (2 + k)) uid rid now s1 (retry_input op) rt = (s2, res)"
        by fastforce
      have g2: "op_good C i s s2"
        using start_good [OF env1 sound1 fresh, of rid now "retry_input op" rt] st g by (auto intro: op_good_trans)
      show ?thesis
      proof (cases res)
        case (Inr p)
        with ru st have "fst (retry_op locked env uid rid now s j task) = forget_task j s2"
          unfolding step by (cases p) simp
        with op_good_ops [OF g2, of "forget_task j s2"] show ?thesis by simp
      next
        case (Inl e)
        with st show ?thesis
          by (simp add: start_op_def retry_input_def ops_create_def new_operation_def Let_def)
      qed
    qed
  qed
qed


text \<open>The end of a task.\<close>

lemma op_safe_trans_good: "op_good C i s s' \<Longrightarrow> op_safe C i s' s'' \<Longrightarrow> op_safe C i s s''"
  using op_calm_trans op_path_trans unfolding op_good_def op_safe_def by blast

lemma drop_controller_sound:
  "op_sound i s \<Longrightarrow> op_sound i (s\<lparr>am_controllers := js_delete (am_controllers s) j\<rparr>)"
  by (auto simp: op_sound_def runs_def aborted_def)

lemma settle_failure_good:
  assumes "env_ok C i s env" "op_sound i s"
  shows "op_good C i s (case complete_loop n k rd sn env now s j oc of
      (s', Inr (Some op)) \<Rightarrow> if P op then forget_task j s' else s' | (s', _) \<Rightarrow> s')"
proof -
  have g: "op_good C i s (fst (complete_loop n k rd sn env now s j oc))"
    using assms by (rule complete_loop_good)
  moreover have "op_good C i s (forget_task j (fst (complete_loop n k rd sn env now s j oc)))"
    by (rule op_good_ops [OF g]) simp_all
  ultimately show ?thesis by (auto split: prod.splits sum.splits option.splits)
qed

lemma settle_safe:
  assumes env: "env_ok C i s env" and sound: "op_sound i s"
  shows "op_safe C i s (settle rd sn env now s j oc)"
proof -
  have drop: "op_safe C i s (s1\<lparr>am_controllers := js_delete (am_controllers s1) j\<rparr>)" if "op_good C i s s1" for s1
    using that drop_controller_sound [OF op_good_sound [OF that]] by (auto intro: op_safe_ops)
  show ?thesis
  proof (cases oc)
    case (Threw e r)
    with drop [OF settle_failure_good [OF env sound]] show ?thesis by (simp add: settle_def Let_def)
  next
    case (Returned res)
    obtain s' r where c: "complete_loop 10 0 rd sn env now s j oc = (s', r)" by fastforce
    have g: "op_good C i s s'" using complete_loop_good [OF env sound, of 10 0 rd sn now j oc] c by simp
    show ?thesis
    proof (cases r)
      case (Inr x)
      then have "op_good C i s (case complete_loop 10 0 rd sn env now s j oc of
          (s', Inr (Some op)) \<Rightarrow> if o_status op = OSucceeded \<or> \<not> o_retryable op then forget_task j s' else s'
        | (s', _) \<Rightarrow> s')"
        by (intro settle_failure_good [OF env sound])
      from drop [OF this] c Inr Returned show ?thesis
        by (cases x) (simp_all add: settle_def Let_def)
    next
      case (Inl e)
      have env': "env_ok C i s' (\<lambda>k. env (20 + k))" and sound': "op_sound i s'"
        using env_ok_good [OF g env] env_ok_shift op_good_sound [OF g] by blast+
      from drop [OF op_good_trans [OF g settle_failure_good [OF env' sound']]] c Inl Returned
      show ?thesis by (simp add: settle_def Let_def)
    qed
  qed
qed

section \<open>Runs of a process\<close>

text \<open>A call of one of the manager's methods. Reports, commit points, heartbeats and the end of
  a task come from a task this process runs.\<close>

datatype 't op_call =
    CStart string string instant start_input 't
  | CRecover instant int
  | CCancel instant string
  | CRetry bool string string instant string "'t option"
  | CClaim instant string
  | CStartFailure instant string string
  | CReport instant string js_num string
  | CCommit instant string
  | CHeartbeat instant string
  | CSettle instant string outcome

fun perform ::
  "(js_val \<Rightarrow> js_val) \<Rightarrow> (string \<Rightarrow> string) \<Rightarrow> env \<Rightarrow> 't manager \<Rightarrow> 't op_call \<Rightarrow> 't manager" where
  "perform rd sn env s (CStart uid rid now inp task) = fst (start_op env uid rid now s inp task)"
| "perform rd sn env s (CRecover now ms) = fst (recover_interrupted env now s ms)"
| "perform rd sn env s (CCancel now j) = fst (cancel_op env now s j)"
| "perform rd sn env s (CRetry locked uid rid now j task) = fst (retry_op locked env uid rid now s j task)"
| "perform rd sn env s (CClaim now j) = fst (claim_op env now s j)"
| "perform rd sn env s (CStartFailure now j msg) = mark_start_failure sn env now s j msg"
| "perform rd sn env s (CReport now j pr stage) = (if runs s j then fst (report_op env now s j pr stage) else s)"
| "perform rd sn env s (CCommit now j) = (if runs s j then fst (commit_point env now s j) else s)"
| "perform rd sn env s (CHeartbeat now j) = (if runs s j then touch_heartbeat env now s j else s)"
| "perform rd sn env s (CSettle now j oc) = (if runs s j then settle rd sn env now s j oc else s)"

text \<open>A drawn id is not \<open>i\<close>, and no task reports the stage name reserved for cancellation.\<close>

fun call_ok :: "string \<Rightarrow> 't op_call \<Rightarrow> bool" where
  "call_ok i (CStart uid _ _ _ _) = (uid \<noteq> i)"
| "call_ok i (CRetry _ uid _ _ _ _) = (uid \<noteq> i)"
| "call_ok i (CReport _ _ _ stage) = (bounded_text stage 120 \<noteq> ''cancelling'')"
| "call_ok i _ = True"

lemma perform_safe:
  assumes "env_ok C i s env" "op_sound i s" "call_ok i call"
  shows "op_safe C i s (perform rd sn env s call)"
  using assms
proof (cases call)
  case (CCommit now j)
  then show ?thesis using assms commit_loop_good [of C i s env j 10 0 now]
    by (auto simp: commit_point_def intro: op_good_safe op_good_refl)
qed (auto intro: op_good_safe op_good_refl start_good recover_interrupted_good retry_good claim_safe
    start_failure_good report_good heartbeat_good settle_safe cancel_loop_good simp: cancel_op_def)

inductive op_trace ::
  "(js_val \<Rightarrow> js_val) \<Rightarrow> (string \<Rightarrow> string) \<Rightarrow> string \<Rightarrow> 't manager \<Rightarrow> 't manager \<Rightarrow> bool"
  for rd sn i where
  Done: "op_trace rd sn i s s"
| Call: "op_trace rd sn i s s' \<Longrightarrow> env_ok C i s' env \<Longrightarrow> call_ok i call \<Longrightarrow>
    op_trace rd sn i s (perform rd sn env s' call)"

lemma op_trace_path:
  "op_trace rd sn i s s' \<Longrightarrow> op_sound i s \<Longrightarrow> op_sound i s' \<and> op_path i (am_ops s) (am_ops s')"
proof (induction rule: op_trace.induct)
  case (Call s s' C env call)
  then show ?case using perform_safe [of C i s' env call rd sn] op_path_trans
    unfolding op_safe_def by blast
qed simp

text \<open>The machine of one process in a calm environment.\<close>

definition calm_step ::
  "(js_val \<Rightarrow> js_val) \<Rightarrow> (string \<Rightarrow> string) \<Rightarrow> string \<Rightarrow> 't manager \<Rightarrow> 't op_call \<Rightarrow> 't manager" where
  "calm_step rd sn i s call = (if call_ok i call then perform rd sn (\<lambda>_ st. st) s call else s)"

lemma quiet_env_ok: "env_ok True i s (\<lambda>_ st. st)"
  by (simp add: env_ok_def)

definition fresh_manager :: "'t manager" where
  "fresh_manager = \<lparr>am_ops = [], am_controllers = [], am_retryTasks = []\<rparr>"

interpretation managers: machine "calm_step rd sn i" "\<lambda>s. s = fresh_manager" "op_sound i" for rd sn i
proof
  fix s :: "'a manager" assume "s = fresh_manager"
  then show "op_sound i s" by (simp add: op_sound_def op_ok_def fresh_manager_def)
next
  fix s :: "'a manager" and call assume "op_sound i s"
  then show "op_sound i (calm_step rd sn i s call)"
    using perform_safe [OF quiet_env_ok, of i s call rd sn] by (simp add: calm_step_def op_safe_def)
qed


section \<open>Properties\<close>

text \<open>C5: the outcome of an operation is final. Whatever sequence of calls this process makes,
  each interfered with by other processes that let the operation evolve: its identity never
  changes and its revision and status only advance; once finished, its status, stage,
  progress, result, error and times stay as they are (only the permission to retry, and the
  revision with it, may change); once it is not cancellable it is never recorded as cancelled.\<close>

theorem operation_outcome_is_final:
  assumes "op_sound i s" "op_trace rd sn i s s'"
    and "ops_get (am_ops s) i = Some a" "ops_get (am_ops s') i = Some b"
  shows "op_identity b = op_identity a \<and> o_revision a \<le> o_revision b
    \<and> op_rank (o_status a) \<le> op_rank (o_status b)
    \<and> (op_terminal (o_status a) \<longrightarrow> b = a\<lparr>o_retryable := o_retryable b, o_revision := o_revision b\<rparr>)
    \<and> (\<not> o_cancellable a \<and> o_status a \<noteq> OCancelled \<longrightarrow> \<not> o_cancellable b \<and> o_status b \<noteq> OCancelled)"
  using op_trace_path [OF assms(2,1)] assms(3,4)
  by (auto simp: op_path_def op_evolves_def ops_get_def)

text \<open>A process that has started an operation, and has claimed it.\<close>

definition job :: start_input where
  "job = \<lparr>si_type = ''image.update'', si_actorUserId = ''a1'', si_resourceType = ''app'',
     si_resourceId = Some ''notes'', si_requestId = None, si_idempotencyKey = Some ''k1'',
     si_requestFingerprint = None, si_retryOf = None, si_cancellable = Some True, si_retryable = Some True\<rparr>"

definition started :: "string manager" where
  "started = fst (start_op (\<lambda>_ st. st) ''o1'' ''r1'' 1 fresh_manager job ''task'')"

lemma started_ops: "am_ops started = [(''o1'', new_operation ''o1'' ''r1'' 1 job)]" "am_controllers started = []"
  by code_simp+

lemma started_sound: "op_sound ''o1'' started"
  by (simp add: op_sound_def op_ok_def started_ops js_wf_def runs_def aborted_def js_has_def new_operation_def)

definition claimed :: "string manager" where
  "claimed = fst (claim_op (\<lambda>_ st. st) 2 started ''o1'')"

lemma quiet_call: "call_ok i call \<Longrightarrow> op_trace rd sn i s (perform rd sn (\<lambda>_ st. st) s call)"
  by (rule op_trace.Call [OF op_trace.Done quiet_env_ok])

lemma claimed_trace: "op_trace (\<lambda>r. r) (\<lambda>t. t) ''o1'' started claimed"
  using quiet_call [of "''o1''" "CClaim 2 ''o1''" "\<lambda>r. r" "\<lambda>t. t" started] by (simp add: claimed_def)

lemma claimed_sound: "op_sound ''o1'' claimed"
  using op_trace_path [OF claimed_trace started_sound] by simp

lemma claimed_get: "\<exists>op. ops_get (am_ops claimed) ''o1'' = Some op \<and> o_status op = ORunning"
proof -
  have "map_option o_status (ops_get (am_ops claimed) ''o1'') = Some ORunning" by code_simp
  then show ?thesis by auto
qed

theorem operation_outcome_is_final_witness:
  "\<exists>a b. ops_get (am_ops started) ''o1'' = Some a \<and> ops_get (am_ops claimed) ''o1'' = Some b
     \<and> op_identity b = op_identity a \<and> o_status b = ORunning"
proof -
  let ?a = "new_operation ''o1'' ''r1'' 1 job"
  let ?b = "?a\<lparr>o_status := ORunning, o_stage := ''running'', o_startedAt := Some 2, o_heartbeatAt := Some 2, o_revision := 2\<rparr>"
  have a: "ops_get (am_ops started) ''o1'' = Some ?a" by (simp add: ops_get_def started_ops)
  have b: "ops_get (am_ops claimed) ''o1'' = Some ?b" by code_simp
  from operation_outcome_is_final [OF started_sound claimed_trace a b] a b show ?thesis
    by (intro exI [of _ ?a] exI [of _ ?b]) simp
qed

text \<open>What a commit point that is granted leaves in the store.\<close>

lemma commit_loop_Inr:
  "env_ok C i s env \<Longrightarrow> op_sound i s \<Longrightarrow> runs s i \<Longrightarrow> commit_loop n k env now s i = (s', Inr ()) \<Longrightarrow>
     \<exists>op. js_get (am_ops s') i = Some op \<and> o_status op = ORunning \<and> \<not> o_cancellable op"
proof (induction n arbitrary: k s)
  case (Suc n)
  let ?s0 = "sync env (2 * k) s"
  have g0: "op_good C i s ?s0" using Suc.prems(1,2) by (rule sync_good)
  have sound0: "op_sound i ?s0" and env0: "env_ok C i ?s0 env"
    using g0 Suc.prems(1) op_good_sound env_ok_good by blast+
  obtain op where op: "js_get (am_ops ?s0) i = Some op" "o_status op = ORunning"
    "\<not> aborted ?s0 i" "o_stage op \<noteq> ''cancelling''"
    using Suc.prems(4) by (cases "js_get (am_ops ?s0) i") (auto simp: ops_get_def Let_def split: if_splits)
  let ?op' = "op\<lparr>o_cancellable := False, o_stage := ''finalizing'', o_heartbeatAt := Some now\<rparr>"
  obtain s1 r where cas: "op_cas (sync env (2 * k + 1) ?s0) ?op' (o_revision op) = (s1, r)" by fastforce
  have "write_ok ?s0 i op ?op'"
    using op Suc.prems(3) by (intro write_okI) (auto simp: op_identity_def op_terminal_def)
  then have g1: "op_good C i ?s0 s1"
    using read_write_good [OF env0 sound0 op(1), of ?op' "2 * k + 1"] cas by simp
  have g: "op_good C i s s1" using g0 g1 by (rule op_good_trans)
  have id: "o_id op = i" using sound0 op(1) by (rule op_sound_keyed)
  show ?case
  proof (cases "\<not> o_cancellable op \<and> o_stage op = ''finalizing''")
    case True
    with Suc.prems(4) op have "s' = ?s0" by (simp add: ops_get_def Let_def)
    with op True show ?thesis by simp
  next
    case False
    show ?thesis
    proof (cases r)
      case None
      with Suc.prems(4) op False cas have loop: "commit_loop n (k + 1) env now s1 i = (s', Inr ())"
        by (auto simp: ops_get_def Let_def split: if_splits)
      show ?thesis
        using loop env_ok_good [OF g Suc.prems(1)] op_good_sound [OF g] op_good_runs [OF g] Suc.prems(3)
        by (intro Suc.IH) auto
    next
      case (Some u)
      with Suc.prems(4) op False cas have "s1 = s'"
        by (auto simp: ops_get_def Let_def split: if_splits)
      with cas Some op_cas_Some_get [of "sync env (2 * k + 1) ?s0" ?op' "o_revision op" s1 u] id op(2)
      show ?thesis by auto
    qed
  qed
qed simp

text \<open>C3: the commit point reserves the irreversible part of a task against cancellation. When it
  is granted the operation is running and not cancellable; whatever this process and the
  others do afterwards, progress reports over the stage \<open>finalizing\<close> and lost heartbeats
  included, the operation never is recorded as cancelled. And once a cancellation has been
  accepted, at any earlier time, the commit point is refused.\<close>

theorem commit_point_excludes_cancellation:
  assumes sound: "op_sound i s" and env: "env_ok C i s env" and runs: "runs s i"
    and commit: "commit_point env now s i = (s1, Inr ())"
  shows "(\<exists>op. ops_get (am_ops s1) i = Some op \<and> o_status op = ORunning \<and> \<not> o_cancellable op)
    \<and> (op_trace rd sn i s1 s2 \<and> ops_get (am_ops s2) i = Some b \<longrightarrow> o_status b \<noteq> OCancelled)
    \<and> (\<forall>a s0. op_sound i s0 \<and> op_trace rd sn i s0 s \<and> ops_get (am_ops s0) i = Some a \<longrightarrow>
          o_status a \<noteq> OCancelled \<and> (o_status a = ORunning \<longrightarrow> o_stage a \<noteq> ''cancelling''))"
proof (intro conjI allI impI)
  obtain op where op: "js_get (am_ops s1) i = Some op" "o_status op = ORunning" "\<not> o_cancellable op"
    using commit_loop_Inr [OF env sound runs commit [unfolded commit_point_def]] by blast
  then show "\<exists>op. ops_get (am_ops s1) i = Some op \<and> o_status op = ORunning \<and> \<not> o_cancellable op"
    by (simp add: ops_get_def)
  have sound1: "op_sound i s1" and path1: "op_path i (am_ops s) (am_ops s1)"
    using commit_loop_good [OF env sound runs, of 10 0 now] commit by (auto simp: op_good_def commit_point_def)
  show "o_status b \<noteq> OCancelled"
    if "op_trace rd sn i s1 s2 \<and> ops_get (am_ops s2) i = Some b"
    using op_trace_path [OF conjunct1 [OF that] sound1] that op
    by (auto simp: op_path_def op_evolves_def ops_get_def)
  fix a s0 assume a: "op_sound i s0 \<and> op_trace rd sn i s0 s \<and> ops_get (am_ops s0) i = Some a"
  then have "op_path i (am_ops s0) (am_ops s1)"
    using op_trace_path path1 op_path_trans by blast
  then have "op_evolves a op" using a op(1) by (auto simp: op_path_def ops_get_def)
  with op(2) show "o_status a \<noteq> OCancelled" by (cases "o_status a") (auto simp: op_evolves_def)
  assume run: "o_status a = ORunning"
  show "o_stage a \<noteq> ''cancelling''"
  proof
    assume "o_stage a = ''cancelling''"
    with \<open>op_evolves a op\<close> run op(2) have stage: "o_stage op = ''cancelling''" by (simp add: op_evolves_def)
    from sound1 op(1,2) stage have "o_cancellable op" by (simp add: op_sound_def op_ok_def)
    with op(3) show False by simp
  qed
qed

definition committed :: "string manager" where
  "committed = fst (commit_point (\<lambda>_ st. st) 3 claimed ''o1'')"

theorem commit_point_excludes_cancellation_witness:
  "\<exists>b. ops_get (am_ops (perform (\<lambda>r. r) (\<lambda>t. t) (\<lambda>_ st. st) committed (CSettle 4 ''o1'' (Threw ''e'' None)))) ''o1'' = Some b
     \<and> o_status b \<noteq> OCancelled"
proof -
  have commit: "commit_point (\<lambda>_ st. st) 3 claimed ''o1'' = (committed, Inr ())" by code_simp
  have runs: "runs claimed ''o1''" by code_simp
  let ?s2 = "perform (\<lambda>r. r) (\<lambda>t. t) (\<lambda>_ st. st) committed (CSettle 4 ''o1'' (Threw ''e'' None))"
  have trace: "op_trace (\<lambda>r. r) (\<lambda>t. t) ''o1'' committed ?s2" by (rule quiet_call) simp
  have "ops_get (am_ops ?s2) ''o1'' \<noteq> None" by code_simp
  then obtain b where b: "ops_get (am_ops ?s2) ''o1'' = Some b" by blast
  from commit_point_excludes_cancellation [OF claimed_sound quiet_env_ok runs commit] trace b
  show ?thesis by blast
qed


text \<open>A repeated idempotency key starts nothing. When, at the time of a call of \<open>start\<close>, the
  store holds an operation of the same actor under the same key, the call stores nothing and
  queues no task: it answers such an operation if it asks for the same thing, and is refused
  as a conflict otherwise. And a call that does start leaves an operation under its key, so
  of any two calls with one key at most one starts.\<close>

theorem start_is_idempotent:
  assumes "js_truthy (si_idempotencyKey inp)"
  shows "(\<forall>e. ops_find (env 0 (am_ops s)) (si_actorUserId inp) (the (si_idempotencyKey inp)) = Some e \<longrightarrow>
        am_ops (fst (start_op env uid rid now s inp task)) = env 0 (am_ops s)
        \<and> am_retryTasks (fst (start_op env uid rid now s inp task)) = am_retryTasks s
        \<and> snd (start_op env uid rid now s inp task) =
            (if idempotency_match e inp then Inr (e, False) else Inl IdempotencyConflict)
        \<and> o_actorUserId e = si_actorUserId inp \<and> o_idempotencyKey e = si_idempotencyKey inp)
    \<and> (\<forall>op. snd (start_op env uid rid now s inp task) = Inr (op, True) \<longrightarrow>
        ops_find (env 1 (env 0 (am_ops s))) (si_actorUserId inp) (the (si_idempotencyKey inp)) = None
        \<and> op = new_operation uid rid now inp
        \<and> ops_find (am_ops (fst (start_op env uid rid now s inp task)))
            (si_actorUserId inp) (the (si_idempotencyKey inp)) \<noteq> None)"
proof (intro conjI allI impI)
  obtain key where key: "si_idempotencyKey inp = Some key" using assms by (cases "si_idempotencyKey inp") auto
  {
    fix e assume e: "ops_find (env 0 (am_ops s)) (si_actorUserId inp) (the (si_idempotencyKey inp)) = Some e"
    with assms show "am_ops (fst (start_op env uid rid now s inp task)) = env 0 (am_ops s)"
      "am_retryTasks (fst (start_op env uid rid now s inp task)) = am_retryTasks s"
      "snd (start_op env uid rid now s inp task) =
         (if idempotency_match e inp then Inr (e, False) else Inl IdempotencyConflict)"
      by (simp_all add: start_op_def start_existing_def)
    show "o_actorUserId e = si_actorUserId inp" "o_idempotencyKey e = si_idempotencyKey inp"
      using e key by (auto simp: ops_find_def dest!: js_find_Some)
  }
  fix op assume st: "snd (start_op env uid rid now s inp task) = Inr (op, True)"
  let ?s1 = "sync env 1 (sync env 0 s)" and ?op = "new_operation uid rid now inp"
  have "ops_find (env 0 (am_ops s)) (si_actorUserId inp) key = None"
    using st assms key
    by (cases "ops_find (env 0 (am_ops s)) (si_actorUserId inp) key")
      (auto simp: start_op_def start_existing_def split: if_splits)
  with st assms key have run: "start_op env uid rid now s inp task =
      (case ops_create (am_ops ?s1) ?op of
         (ops, e, False) \<Rightarrow> (?s1, start_existing e inp)
       | (ops, e, True) \<Rightarrow> (?s1\<lparr>am_ops := ops,
           am_retryTasks := (if o_retryable ?op then prune_retry_tasks (js_set (am_retryTasks ?s1) uid task)
             else am_retryTasks ?s1)\<rparr>, Inr (?op, True)))"
    by (simp add: start_op_def Let_def del: One_nat_def)
  have op_key: "o_actorUserId ?op = si_actorUserId inp" "o_idempotencyKey ?op = Some key"
    using key by (simp_all add: new_operation_def)
  have none: "ops_find (am_ops ?s1) (si_actorUserId inp) key = None"
    using st key assms unfolding run
    by (cases "ops_find (am_ops ?s1) (si_actorUserId inp) key")
      (auto simp: ops_create_def op_key start_existing_def split: if_splits)
  then show "ops_find (env 1 (env 0 (am_ops s))) (si_actorUserId inp) (the (si_idempotencyKey inp)) = None"
    by (simp add: key)
  have created: "ops_create (am_ops ?s1) ?op = (js_set (am_ops ?s1) uid ?op, ?op, True)"
    using none assms key by (simp add: ops_create_def op_key)
  with st show "op = ?op" unfolding run created by simp
  have "?op \<in> set (js_values (js_set (am_ops ?s1) uid ?op))"
    by (rule js_get_in_values [of _ uid]) simp
  then have "ops_find (js_set (am_ops ?s1) uid ?op) (si_actorUserId inp) key \<noteq> None"
    using op_key by (auto simp: ops_find_def js_find_None)
  then show "ops_find (am_ops (fst (start_op env uid rid now s inp task)))
      (si_actorUserId inp) (the (si_idempotencyKey inp)) \<noteq> None"
    unfolding run created by (simp add: key)
qed

theorem start_is_idempotent_witness:
  "snd (start_op (\<lambda>_ st. st) ''o2'' ''r2'' 5 started (job\<lparr>si_type := ''other''\<rparr>) ''task'') = Inl IdempotencyConflict
   \<and> am_ops (fst (start_op (\<lambda>_ st. st) ''o2'' ''r2'' 5 started job ''task'')) = am_ops started"
proof -
  have truthy: "js_truthy (si_idempotencyKey job)" "js_truthy (si_idempotencyKey (job\<lparr>si_type := ''other''\<rparr>))"
    by (simp_all add: job_def)
  have find: "ops_find (am_ops started) (si_actorUserId job) (the (si_idempotencyKey job))
      = Some (new_operation ''o1'' ''r1'' 1 job)"
    "\<not> idempotency_match (new_operation ''o1'' ''r1'' 1 job) (job\<lparr>si_type := ''other''\<rparr>)"
    by code_simp+
  note first = start_is_idempotent [OF truthy(1), where env = "\<lambda>_ st. st" and s = started and task = "''task''"]
    and second = start_is_idempotent [OF truthy(2), where env = "\<lambda>_ st. st" and s = started and task = "''task''"]
  from first second show ?thesis using find by simp
qed

text \<open>When nothing interferes, the end of a running task always is recorded: the operation
  becomes what \<open>completed\<close> says of it, under the next revision: succeeded or failed as the task
  ended if it has passed its commit point, cancelled if its signal was aborted or it was being
  cancelled and has not; and the process no longer holds its controller.\<close>

theorem settle_records_the_outcome:
  assumes "op_sound i s" "ops_get (am_ops s) i = Some op" "o_status op = ORunning"
  shows "ops_get (am_ops (settle rd sn (\<lambda>_ st. st) now s i oc)) i =
      Some ((completed rd sn now (aborted s i) oc op)\<lparr>o_revision := o_revision op + 1\<rparr>)
    \<and> \<not> runs (settle rd sn (\<lambda>_ st. st) now s i oc) i
    \<and> op_terminal (o_status (completed rd sn now (aborted s i) oc op))
    \<and> (\<not> o_cancellable op \<longrightarrow>
        o_status (completed rd sn now (aborted s i) oc op) = outcome_status oc)"
proof -
  let ?u = "completed rd sn now (aborted s i) oc op"
  have id: "o_id op = i" using assms(1,2) by (auto simp: ops_get_def op_sound_def op_ok_def)
  have cas: "op_cas s ?u (o_revision op) =
      (s\<lparr>am_ops := js_set (am_ops s) i (?u\<lparr>o_revision := o_revision op + 1\<rparr>)\<rparr>,
       Some (?u\<lparr>o_revision := o_revision op + 1\<rparr>))"
    using assms(2) id by (simp add: op_cas_def ops_cas_def ops_get_def Let_def)
  have quiet: "sync (\<lambda>_ st. st) k s = s" for k by (simp add: sync_def)
  have loop: "complete_loop 10 0 rd sn (\<lambda>_ st. st) now s i oc =
      (s\<lparr>am_ops := js_set (am_ops s) i (?u\<lparr>o_revision := o_revision op + 1\<rparr>)\<rparr>,
       Inr (Some (?u\<lparr>o_revision := o_revision op + 1\<rparr>)))"
    using assms(2,3) cas by (simp add: eval_nat_numeral Let_def quiet del: completed_simps)
  have "o_status ?u = outcome_status oc" if "\<not> o_cancellable op"
  proof -
    have "\<not> aborted s i \<and> o_stage op \<noteq> ''cancelling''"
      using assms that by (auto simp: op_sound_def op_ok_def ops_get_def)
    then show ?thesis by (simp add: completed_def Let_def)
  qed
  moreover have "op_terminal (o_status ?u)" using completed_simps(4) [of rd sn now "aborted s i" oc op]
    by (auto simp: op_terminal_def)
  moreover have "ops_get (am_ops (settle rd sn (\<lambda>_ st. st) now s i oc)) i =
      Some (?u\<lparr>o_revision := o_revision op + 1\<rparr>)"
    using loop by (cases oc) (auto simp: settle_def Let_def ops_get_def)
  moreover have "\<not> runs (settle rd sn (\<lambda>_ st. st) now s i oc) i"
    by (cases oc) (simp_all add: settle_def Let_def runs_def)
  ultimately show ?thesis by blast
qed

theorem settle_records_the_outcome_witness:
  "\<exists>u. ops_get (am_ops (settle (\<lambda>r. r) (\<lambda>t. t) (\<lambda>_ st. st) 9 claimed ''o1'' (Returned JNull))) ''o1'' = Some u
     \<and> op_terminal (o_status u)"
proof -
  obtain op where op: "ops_get (am_ops claimed) ''o1'' = Some op" "o_status op = ORunning"
    using claimed_get by blast
  from settle_records_the_outcome [OF claimed_sound op, of "\<lambda>r. r" "\<lambda>t. t" 9 "Returned JNull"]
  show ?thesis by auto
qed

end
