(* ===== verification/Memory_Rollouts.thy ===== *)
theory Memory_Rollouts
  imports Memory_Store Versioned_Store Machine "HOL-Library.List_Lexorder" "HOL-Library.Char_ord"
begin

text \<open>
  The rollout methods of \<open>MemoryPersistence\<close>: batches of instance upgrades and their items.
  Shown: items and batches are versioned stores; whatever is written, an item keeps the
  target it was created with; a deployment checkpoint settles exactly the older deferred
  items of the same instance; recovery takes over exactly the interrupted items.
\<close>

type_synonym rollout_detail = "rollout \<times> rollout_item list"

datatype rollout_store_error = RolloutExists

abbreviation item_key :: "rollout_item \<Rightarrow> string" where
  "item_key it \<equiv> upgrade_item_key (i_rolloutId it) (i_instanceId it)"

section \<open>Reading\<close>

definition get_rollout :: "mem \<Rightarrow> string \<Rightarrow> rollout_detail option" where
  "get_rollout m i =
     (case js_get (m_upgradeRollouts m) i of
        None \<Rightarrow> None
      | Some r \<Rightarrow> Some (r, sort_key i_position
          (filter (\<lambda>it. i_rolloutId it = i) (js_values (m_upgradeRolloutItems m)))))"

definition rollout_with_key :: "mem \<Rightarrow> string \<Rightarrow> string \<Rightarrow> rollout option" where
  "rollout_with_key m actorUserId idempotencyKey =
     js_find (\<lambda>r. r_actorUserId r = actorUserId \<and> r_idempotencyKey r = Some idempotencyKey) (m_upgradeRollouts m)"

definition find_rollout_by_key :: "mem \<Rightarrow> string \<Rightarrow> string \<Rightarrow> rollout_detail option" where
  "find_rollout_by_key m actorUserId idempotencyKey =
     (case rollout_with_key m actorUserId idempotencyKey of None \<Rightarrow> None | Some r \<Rightarrow> get_rollout m (r_id r))"

definition find_latest_recovery :: "mem \<Rightarrow> string \<Rightarrow> string \<Rightarrow> rollout_detail option" where
  "find_latest_recovery m actorUserId instanceId =
     (case newest_first r_createdAt
         (filter (\<lambda>r. case js_get (m_upgradeRolloutItems m) (upgrade_item_key (r_id r) instanceId) of
              None \<Rightarrow> False | Some it \<Rightarrow> i_recovery it)
           (filter (\<lambda>r. r_actorUserId r = actorUserId \<and> r_taskKind r = InstanceRecovery)
             (js_values (m_upgradeRollouts m)))) of
        [] \<Rightarrow> None
      | r # _ \<Rightarrow> get_rollout m (r_id r))"

definition list_rollouts :: "mem \<Rightarrow> js_num \<Rightarrow> rollout list" where
  "list_rollouts m limit = take (clamp_limit limit) (newest_first r_createdAt (js_values (m_upgradeRollouts m)))"

record target_reference =
  tr_rolloutId :: string
  tr_instanceId :: string
  tr_appId :: string
  tr_sourceAppVersionId :: "string option"
  tr_sourceImageArtifactId :: "string option"
  tr_sourceImageReference :: "string option"
  tr_targetAppVersionId :: "string option"
  tr_targetImageArtifactId :: "string option"
  tr_targetImageReference :: string
  tr_status :: item_status

definition target_reference_of :: "rollout_item \<Rightarrow> target_reference" where
  "target_reference_of it =
     \<lparr>tr_rolloutId = i_rolloutId it, tr_instanceId = i_instanceId it, tr_appId = i_appId it,
      tr_sourceAppVersionId = i_sourceAppVersionId it,
      tr_sourceImageArtifactId = i_sourceImageArtifactId it,
      tr_sourceImageReference = i_sourceImageReference it,
      tr_targetAppVersionId = i_targetAppVersionId it,
      tr_targetImageArtifactId = i_targetImageArtifactId it,
      tr_targetImageReference = i_targetImageReference it, tr_status = i_status it\<rparr>"

definition list_active_target_references :: "mem \<Rightarrow> target_reference list" where
  "list_active_target_references m =
     map target_reference_of (filter retains_rollout_target (js_values (m_upgradeRolloutItems m)))"

text \<open>
  The comparison function of \<open>listDueUpgradeRolloutItems\<close>, as the sign it returns. It is not
  transitive, so the order \<open>sort\<close> produces is up to the JavaScript engine: an argument,
  any rearrangement. \<open>localeCompare\<close> on ids is the argument \<open>cmp\<close>.
\<close>

definition compare_instants :: "instant \<Rightarrow> instant \<Rightarrow> int" where
  "compare_instants a b = (if a < b then -1 else if a > b then 1 else 0)"

definition compare_due :: "(string \<Rightarrow> string \<Rightarrow> int) \<Rightarrow> rollout_item \<Rightarrow> rollout_item \<Rightarrow> int" where
  "compare_due cmp left right =
     (if i_instanceId left = i_instanceId right then
        (let leftWaiting = (i_status left = IAwaitingFirstStart);
             rightWaiting = (i_status right = IAwaitingFirstStart)
         in if leftWaiting \<noteq> rightWaiting then (if leftWaiting then 1 else -1)
            else (let c = compare_instants (i_createdAt left) (i_createdAt right)
                  in if c \<noteq> 0 then c else cmp (i_rolloutId left) (i_rolloutId right)))
      else compare_instants
        (case i_nextAttemptAt left of None \<Rightarrow> i_createdAt left | Some t \<Rightarrow> t)
        (case i_nextAttemptAt right of None \<Rightarrow> i_createdAt right | Some t \<Rightarrow> t))"

definition due_item :: "instant \<Rightarrow> rollout_item \<Rightarrow> bool" where
  "due_item tm it \<longleftrightarrow>
     (i_status it = IQueued \<or> i_status it = IWaitingForIdle \<or> i_status it = IAwaitingFirstStart)
     \<and> (case i_nextAttemptAt it of None \<Rightarrow> True | Some t \<Rightarrow> t \<le> tm)"

definition list_due_items ::
  "(rollout_item list \<Rightarrow> rollout_item list) \<Rightarrow> mem \<Rightarrow> instant \<Rightarrow> js_num \<Rightarrow> rollout_item list" where
  "list_due_items arrange m tm limit =
     take (clamp_limit limit) (arrange (filter (due_item tm) (js_values (m_upgradeRolloutItems m))))"

definition proof_missing :: "rollout_item \<Rightarrow> bool" where
  "proof_missing it \<longleftrightarrow>
     i_status it = INeedsAttention \<and> i_blocker it = Some ''candidate_first_start_proof_missing''"

definition list_legacy_proof_items :: "mem \<Rightarrow> rollout_item list" where
  "list_legacy_proof_items m =
     (let ids = map r_id (filter (\<lambda>r. r_taskKind r = ImageUpgrade) (js_values (m_upgradeRollouts m)))
      in sort_key i_createdAt
           (filter (\<lambda>it. i_rolloutId it \<in> set ids \<and> proof_missing it) (js_values (m_upgradeRolloutItems m))))"

section \<open>Writing\<close>

definition create_rollout ::
  "mem \<Rightarrow> rollout \<Rightarrow> rollout_item list \<Rightarrow> mem \<times> (rollout_store_error, rollout_detail option) res" where
  "create_rollout m r items =
     (let existing = (if js_truthy (r_idempotencyKey r)
            then rollout_with_key m (r_actorUserId r) (the (r_idempotencyKey r)) else None)
      in case existing of
           Some e \<Rightarrow> (m, Inr (get_rollout m (r_id e)))
         | None \<Rightarrow>
             if js_has (m_upgradeRollouts m) (r_id r) then (m, Inl RolloutExists)
             else (let m' = m\<lparr>m_upgradeRollouts := js_set (m_upgradeRollouts m) (r_id r) r,
                       m_upgradeRolloutItems :=
                         foldl (\<lambda>is it. js_set is (item_key it) it) (m_upgradeRolloutItems m) items\<rparr>
                   in (m', Inr (get_rollout m' (r_id r)))))"

text \<open>The fields a write takes from the caller; the others stay those of the stored item.\<close>

definition item_written :: "rollout_item \<Rightarrow> rollout_item \<Rightarrow> instant \<Rightarrow> nat \<Rightarrow> rollout_item" where
  "item_written current it updatedAt revision = current\<lparr>
     i_desiredState := i_desiredState it, i_sourceAppVersionId := i_sourceAppVersionId it,
     i_sourceImageArtifactId := i_sourceImageArtifactId it,
     i_sourceImageReference := i_sourceImageReference it, i_diagnostics := i_diagnostics it,
     i_status := i_status it, i_blocker := i_blocker it, i_error := i_error it,
     i_forceRequested := i_forceRequested it, i_attemptId := i_attemptId it,
     i_attemptCount := i_attemptCount it, i_nextAttemptAt := i_nextAttemptAt it,
     i_lastCheckedAt := i_lastCheckedAt it, i_startedAt := i_startedAt it,
     i_finishedAt := i_finishedAt it, i_updatedAt := updatedAt, i_revision := revision\<rparr>"

definition cas_item :: "mem \<Rightarrow> rollout_item \<Rightarrow> nat \<Rightarrow> mem \<times> rollout_item option" where
  "cas_item m it expectedRevision =
     (case js_get (m_upgradeRolloutItems m) (item_key it) of
        None \<Rightarrow> (m, None)
      | Some current \<Rightarrow>
          if i_revision current \<noteq> expectedRevision then (m, None)
          else (let updated = item_written current it (i_updatedAt it) (expectedRevision + 1)
                in (m\<lparr>m_upgradeRolloutItems := js_set (m_upgradeRolloutItems m) (item_key it) updated\<rparr>,
                    Some updated)))"

definition item_superseded :: "instant \<Rightarrow> rollout_item \<Rightarrow> rollout_item" where
  "item_superseded tm it = it\<lparr>
     i_revision := i_revision it + 1, i_status := ISuperseded,
     i_blocker := Some ''superseded_by_newer_deployment'', i_error := None, i_attemptId := None,
     i_nextAttemptAt := None, i_finishedAt := Some tm, i_updatedAt := tm\<rparr>"

text \<open>The loops' \<open>continue\<close> condition, negated: \<open>candidate\<close> is settled by \<open>current\<close>.\<close>

definition settled_by :: "mem \<Rightarrow> rollout_item \<Rightarrow> string \<Rightarrow> rollout_item \<Rightarrow> bool" where
  "settled_by m current instanceId candidate \<longleftrightarrow>
     \<not> (i_instanceId candidate \<noteq> instanceId
        \<or> \<not> is_supersedable_item candidate
            (map_option r_taskKind (js_get (m_upgradeRollouts m) (i_rolloutId candidate)))
        \<or> i_createdAt candidate > i_createdAt current
        \<or> (i_createdAt candidate = i_createdAt current \<and> i_rolloutId candidate \<ge> i_rolloutId current))"

definition supersede_before :: "mem \<Rightarrow> string \<Rightarrow> string \<Rightarrow> instant \<Rightarrow> mem \<times> string list" where
  "supersede_before m rolloutId instanceId tm =
     (case js_get (m_upgradeRolloutItems m) (upgrade_item_key rolloutId instanceId) of
        None \<Rightarrow> (m, [])
      | Some current \<Rightarrow>
          (m\<lparr>m_upgradeRolloutItems := js_update_each
               (\<lambda>_ c. if settled_by m current instanceId c then item_superseded tm c else c)
               (m_upgradeRolloutItems m)\<rparr>,
           remdups (map i_rolloutId
             (filter (settled_by m current instanceId) (js_values (m_upgradeRolloutItems m))))))"

text \<open>The second half of a checkpoint: the item is stored, and the older ones are settled.\<close>

definition store_checkpoint ::
  "mem \<Rightarrow> rollout_item \<Rightarrow> rollout_item \<Rightarrow> rollout_item \<Rightarrow> instant \<Rightarrow> bool \<Rightarrow> mem \<times> string list" where
  "store_checkpoint m it current updated tm supersedeEarlier =
     (let items = js_set (m_upgradeRolloutItems m) (item_key it) updated
      in if supersedeEarlier \<and> (i_status it = IAwaitingFirstStart \<or> i_status it = ISucceeded)
         then (m\<lparr>m_upgradeRolloutItems := js_update_each
                 (\<lambda>_ c. if settled_by m current (i_instanceId it) c then item_superseded tm c else c) items\<rparr>,
               remdups (i_rolloutId it # map i_rolloutId
                 (filter (settled_by m current (i_instanceId it)) (js_values items))))
         else (m\<lparr>m_upgradeRolloutItems := items\<rparr>, [i_rolloutId it]))"

definition commit_checkpoint ::
  "mem \<Rightarrow> rollout_item \<Rightarrow> nat \<Rightarrow> instant \<Rightarrow> bool \<Rightarrow> mem \<times> (rollout_item \<times> string list) option" where
  "commit_checkpoint m it expectedRevision tm supersedeEarlier =
     (case js_get (m_upgradeRolloutItems m) (item_key it) of
        None \<Rightarrow> (m, None)
      | Some current \<Rightarrow>
          if i_revision current \<noteq> expectedRevision then (m, None)
          else (let updated = item_written current it tm (expectedRevision + 1);
                    stored = store_checkpoint m it current updated tm supersedeEarlier
                in (fst stored, Some (updated, snd stored))))"

definition rollout_written :: "rollout \<Rightarrow> rollout \<Rightarrow> nat \<Rightarrow> rollout" where
  "rollout_written current r revision = current\<lparr>
     r_status := r_status r, r_completed := r_completed r, r_succeeded := r_succeeded r,
     r_superseded := Some (case r_superseded r of None \<Rightarrow> 0 | Some n \<Rightarrow> n),
     r_failed := r_failed r, r_waiting := r_waiting r, r_upgrading := r_upgrading r,
     r_needsAttention := r_needsAttention r, r_updatedAt := r_updatedAt r,
     r_finishedAt := r_finishedAt r, r_revision := revision\<rparr>"

definition cas_rollout :: "mem \<Rightarrow> rollout \<Rightarrow> nat \<Rightarrow> mem \<times> rollout option" where
  "cas_rollout m r expectedRevision =
     (case js_get (m_upgradeRollouts m) (r_id r) of
        None \<Rightarrow> (m, None)
      | Some current \<Rightarrow>
          if r_revision current \<noteq> expectedRevision then (m, None)
          else (let updated = rollout_written current r (expectedRevision + 1)
                in (m\<lparr>m_upgradeRollouts := js_set (m_upgradeRollouts m) (r_id updated) updated\<rparr>, Some updated)))"

section \<open>Recovery\<close>

definition in_transition :: "rollout_item \<Rightarrow> bool" where
  "in_transition it \<longleftrightarrow> i_status it \<in> set [IAssessing, IDraining, IRebuilding, IVerifying]"

definition item_recovered :: "instant \<Rightarrow> rollout_item \<Rightarrow> rollout_item" where
  "item_recovered recoveredAt it =
     (let needsReconciliation =
        (i_status it = IRebuilding \<or> i_status it = IVerifying) \<and> i_attemptId it \<noteq> None
      in it\<lparr>i_revision := i_revision it + 1,
            i_status := (if needsReconciliation then IAwaitingFirstStart else IQueued),
            i_blocker := Some (if needsReconciliation then ''candidate_recovery_pending'' else ''portal_restarted''),
            i_error := None, i_attemptId := (if needsReconciliation then i_attemptId it else None),
            i_nextAttemptAt := Some recoveredAt, i_finishedAt := None, i_updatedAt := recoveredAt\<rparr>)"

definition item_interrupted :: "instant \<Rightarrow> rollout_item \<Rightarrow> bool" where
  "item_interrupted cutoff it \<longleftrightarrow> \<not> (\<not> in_transition it \<or> i_updatedAt it > cutoff)"

definition recover_items :: "mem \<Rightarrow> instant \<Rightarrow> instant \<Rightarrow> mem \<times> nat" where
  "recover_items m cutoff recoveredAt =
     (let items = js_update_each
            (\<lambda>_ it. if item_interrupted cutoff it then item_recovered recoveredAt it else it) (m_upgradeRolloutItems m);
          stale = (\<lambda>instanceId d.
            (let owns = (case js_get items (upgrade_item_key (d_rolloutId d) instanceId) of
                           None \<Rightarrow> False | Some it \<Rightarrow> in_transition it)
             in d_expiresAt d \<le> recoveredAt \<or> \<not> owns))
      in (m\<lparr>m_upgradeRolloutItems := items, m_drains := js_delete_each stale (m_drains m)\<rparr>,
          length (filter (item_interrupted cutoff) (js_values (m_upgradeRolloutItems m)))))"

section \<open>Compare-and-save is a versioned store\<close>

lemma cas_item_cases:
  obtains (lost) "cas_item m it r = (m, None)"
      "\<And>c. js_get (m_upgradeRolloutItems m) (item_key it) = Some c \<Longrightarrow> i_revision c \<noteq> r"
  | (won) c where "js_get (m_upgradeRolloutItems m) (item_key it) = Some c" "i_revision c = r"
      "cas_item m it r =
        (m\<lparr>m_upgradeRolloutItems := js_set (m_upgradeRolloutItems m) (item_key it)
             (item_written c it (i_updatedAt it) (r + 1))\<rparr>, Some (item_written c it (i_updatedAt it) (r + 1)))"
proof (cases "js_get (m_upgradeRolloutItems m) (item_key it)")
  case None
  then show ?thesis using lost by (simp add: cas_item_def)
next
  case (Some c)
  then show ?thesis
    using lost won by (cases "i_revision c = r") (simp_all add: cas_item_def Let_def)
qed

interpretation items: versioned_store "\<lambda>m. js_get (m_upgradeRolloutItems m)" cas_item item_key i_revision
proof (unfold_locales, goal_cases)
  case (1 s v r s' w)
  then show ?case by (cases rule: cas_item_cases [of s v r]) auto
next
  case (2 s v r s' w)
  then show ?case by (cases rule: cas_item_cases [of s v r]) auto
next
  case (3 s v r s' w)
  then show ?case by (cases rule: cas_item_cases [of s v r]) (auto simp: item_written_def)
next
  case (4 s v r s')
  then show ?case by (cases rule: cas_item_cases [of s v r]) auto
next
  case (5 k v s r)
  then show ?case by (cases rule: cas_item_cases [of s v r]) auto
qed

lemma cas_rollout_cases:
  obtains (lost) "cas_rollout m x r = (m, None)"
  | (won) c where "js_get (m_upgradeRollouts m) (r_id x) = Some c" "r_revision c = r"
      "cas_rollout m x r =
        (m\<lparr>m_upgradeRollouts := js_set (m_upgradeRollouts m) (r_id c) (rollout_written c x (r + 1))\<rparr>,
         Some (rollout_written c x (r + 1)))"
proof (cases "js_get (m_upgradeRollouts m) (r_id x)")
  case None
  then show ?thesis using lost by (simp add: cas_rollout_def)
next
  case (Some c)
  then show ?thesis
    using lost won by (cases "r_revision c = r") (simp_all add: cas_rollout_def Let_def rollout_written_def)
qed


section \<open>The invariant\<close>

text \<open>What an item is about: fixed when the batch is created.\<close>

definition item_target where
  "item_target it =
     (i_rolloutId it, i_instanceId it, i_position it, i_userId it, i_appId it, i_sourceStatus it,
      i_targetAppVersionId it, i_targetImageArtifactId it, i_targetImageReference it,
      i_targetRuntimeContract it, i_launchProfile it, i_recovery it, i_createdAt it)"

definition rollouts_inv :: "mem \<Rightarrow> bool" where
  "rollouts_inv m \<longleftrightarrow>
     js_wf (m_upgradeRollouts m) \<and> js_wf (m_upgradeRolloutItems m)
     \<and> (\<forall>k r. js_get (m_upgradeRollouts m) k = Some r \<longrightarrow> r_id r = k)
     \<and> (\<forall>k it. js_get (m_upgradeRolloutItems m) k = Some it \<longrightarrow>
          k = item_key it \<and> CHR '':'' \<notin> set (i_rolloutId it) \<and> js_has (m_upgradeRollouts m) (i_rolloutId it))"

lemma rollouts_inv_empty: "rollouts_inv empty_mem"
  by (simp add: rollouts_inv_def empty_mem_def)

lemma item_target_written [simp]: "item_target (item_written c it t r) = item_target c"
  by (simp add: item_target_def item_written_def)

lemma item_target_superseded [simp]: "item_target (item_superseded t c) = item_target c"
  by (simp add: item_target_def item_superseded_def)

lemma item_target_recovered [simp]: "item_target (item_recovered t c) = item_target c"
  by (simp add: item_target_def item_recovered_def Let_def)

lemma item_target_ids:
  "item_target a = item_target b \<Longrightarrow> i_rolloutId a = i_rolloutId b \<and> i_instanceId a = i_instanceId b"
  by (simp add: item_target_def)

lemma revision_simps [simp]:
  "i_revision (item_written c it t r) = r" "i_revision (item_superseded t c) = i_revision c + 1"
  "i_revision (item_recovered t c) = i_revision c + 1"
  by (simp_all add: item_written_def item_superseded_def item_recovered_def Let_def)

text \<open>A uuid contains no colon, so the keys of two batches' items differ.\<close>

lemma item_key_inj:
  assumes "upgrade_item_key a i = upgrade_item_key b j" "CHR '':'' \<notin> set a" "CHR '':'' \<notin> set b"
  shows "a = b \<and> i = j"
proof -
  have "takeWhile (\<lambda>c. c \<noteq> CHR '':'') (x @ '':'' @ y) = x" if "CHR '':'' \<notin> set x" for x y :: string
    using that by (induction x) auto
  from this [OF assms(2), of i] this [OF assms(3), of j] assms(1) show ?thesis
    by (simp add: upgrade_item_key_def)
qed

section \<open>Steps\<close>

datatype rollout_op =
    RCreate rollout "rollout_item list"
  | RCasItem rollout_item nat
  | RSupersede string string instant
  | RCheckpoint rollout_item nat instant bool
  | RCasRollout rollout nat
  | RRecover instant instant

text \<open>Batches are created with their own items, under an id without a colon.\<close>

fun rollout_op_ok :: "rollout_op \<Rightarrow> bool" where
  "rollout_op_ok (RCreate r items) =
     (CHR '':'' \<notin> set (r_id r) \<and> (\<forall>it \<in> set items. i_rolloutId it = r_id r))"
| "rollout_op_ok _ = True"

fun rollout_do :: "mem \<Rightarrow> rollout_op \<Rightarrow> mem" where
  "rollout_do m (RCreate r items) = fst (create_rollout m r items)"
| "rollout_do m (RCasItem it n) = fst (cas_item m it n)"
| "rollout_do m (RSupersede rid iid t) = fst (supersede_before m rid iid t)"
| "rollout_do m (RCheckpoint it n t earlier) = fst (commit_checkpoint m it n t earlier)"
| "rollout_do m (RCasRollout r n) = fst (cas_rollout m r n)"
| "rollout_do m (RRecover cutoff t) = fst (recover_items m cutoff t)"

definition rollout_step :: "mem \<Rightarrow> rollout_op \<Rightarrow> mem" where
  "rollout_step m op = (if rollout_op_ok op then rollout_do m op else m)"

text \<open>How the items of a store may change in one step: same target, higher revision.\<close>

definition item_moves :: "rollout_item \<Rightarrow> rollout_item \<Rightarrow> bool" where
  "item_moves a b \<longleftrightarrow> item_target b = item_target a \<and> (b = a \<or> i_revision a < i_revision b)"

lemma item_moves_refl [simp]: "item_moves a a"
  by (simp add: item_moves_def)

lemma item_moves_trans: "item_moves a b \<Longrightarrow> item_moves b c \<Longrightarrow> item_moves a c"
  by (auto simp: item_moves_def)

definition items_move :: "mem \<Rightarrow> mem \<Rightarrow> bool" where
  "items_move m m' \<longleftrightarrow>
     (\<forall>k a. js_get (m_upgradeRolloutItems m) k = Some a \<longrightarrow>
        (\<exists>b. js_get (m_upgradeRolloutItems m') k = Some b \<and> item_moves a b))"

lemma items_move_refl [simp]: "items_move m m"
  by (simp add: items_move_def)

lemma items_move_trans: "items_move m m' \<Longrightarrow> items_move m' m'' \<Longrightarrow> items_move m m''"
  unfolding items_move_def using item_moves_trans by blast

text \<open>A step that only moves items keeps the invariant.\<close>

lemma rollouts_inv_items:
  assumes "rollouts_inv m" "js_wf is"
    and "\<And>k b. js_get is k = Some b \<Longrightarrow> \<exists>a. js_get (m_upgradeRolloutItems m) k = Some a \<and> item_target b = item_target a"
  shows "rollouts_inv (m\<lparr>m_upgradeRolloutItems := is\<rparr>)"
proof -
  have "k = item_key b \<and> CHR '':'' \<notin> set (i_rolloutId b) \<and> js_has (m_upgradeRollouts m) (i_rolloutId b)"
    if b: "js_get is k = Some b" for k b
  proof -
    obtain a where "js_get (m_upgradeRolloutItems m) k = Some a" "item_target b = item_target a"
      using assms(3) [OF b] by blast
    with assms(1) item_target_ids show ?thesis by (metis rollouts_inv_def)
  qed
  with assms(1,2) show ?thesis by (simp add: rollouts_inv_def)
qed

lemma rollouts_inv_drains [simp]: "rollouts_inv (m\<lparr>m_drains := d\<rparr>) = rollouts_inv m"
  by (simp add: rollouts_inv_def)

lemma update_each_items:
  assumes "rollouts_inv m" "\<And>c. item_target (f c) = item_target c" "\<And>c. f c = c \<or> i_revision c < i_revision (f c)"
  shows "rollouts_inv (m\<lparr>m_upgradeRolloutItems := js_update_each (\<lambda>_. f) (m_upgradeRolloutItems m)\<rparr>)
    \<and> items_move m (m\<lparr>m_upgradeRolloutItems := js_update_each (\<lambda>_. f) (m_upgradeRolloutItems m)\<rparr>)"
proof
  show "rollouts_inv (m\<lparr>m_upgradeRolloutItems := js_update_each (\<lambda>_. f) (m_upgradeRolloutItems m)\<rparr>)"
    using assms(1,2) by (intro rollouts_inv_items) (auto simp: rollouts_inv_def)
  show "items_move m (m\<lparr>m_upgradeRolloutItems := js_update_each (\<lambda>_. f) (m_upgradeRolloutItems m)\<rparr>)"
    using assms(2,3) by (auto simp: items_move_def item_moves_def)
qed

lemma write_item_inv:
  assumes "rollouts_inv m" "js_get (m_upgradeRolloutItems m) (item_key it) = Some c" "i_revision c = r"
  shows "rollouts_inv (m\<lparr>m_upgradeRolloutItems := js_set (m_upgradeRolloutItems m) (item_key it) (item_written c it t (r + 1))\<rparr>)
    \<and> items_move m (m\<lparr>m_upgradeRolloutItems := js_set (m_upgradeRolloutItems m) (item_key it) (item_written c it t (r + 1))\<rparr>)"
proof
  show "rollouts_inv (m\<lparr>m_upgradeRolloutItems := js_set (m_upgradeRolloutItems m) (item_key it) (item_written c it t (r + 1))\<rparr>)"
    using assms by (intro rollouts_inv_items) (auto simp: rollouts_inv_def split: if_splits)
  show "items_move m (m\<lparr>m_upgradeRolloutItems := js_set (m_upgradeRolloutItems m) (item_key it) (item_written c it t (r + 1))\<rparr>)"
    using assms by (auto simp: items_move_def item_moves_def)
qed

lemma create_items_get:
  "js_wf is \<Longrightarrow> js_wf (foldl (\<lambda>is it. js_set is (item_key it) it) is its)
   \<and> (\<forall>k b. js_get (foldl (\<lambda>is it. js_set is (item_key it) it) is its) k = Some b \<longrightarrow>
        js_get is k = Some b \<or> (b \<in> set its \<and> k = item_key b))
   \<and> (\<forall>k. k \<notin> item_key ` set its \<longrightarrow>
        js_get (foldl (\<lambda>is it. js_set is (item_key it) it) is its) k = js_get is k)"
proof (induction its arbitrary: "is")
  case (Cons it its)
  let ?is = "js_set is (item_key it) it" and ?fin = "foldl (\<lambda>is it. js_set is (item_key it) it) is (it # its)"
  have "js_wf ?is" using Cons.prems by simp
  note IH = Cons.IH [OF this]
  have "js_get is k = Some b \<or> (b \<in> set (it # its) \<and> k = item_key b)" if "js_get ?fin k = Some b" for k b
  proof -
    have "js_get ?is k = Some b \<or> (b \<in> set its \<and> k = item_key b)" using IH that by simp
    then show ?thesis by (cases "k = item_key it") auto
  qed
  moreover have "js_get ?fin k = js_get is k" if "k \<notin> item_key ` set (it # its)" for k
    using IH that by simp
  ultimately show ?case using IH by simp
qed simp

lemma create_rollout_inv:
  assumes inv: "rollouts_inv m" and ok: "rollout_op_ok (RCreate r its)"
  shows "rollouts_inv (fst (create_rollout m r its)) \<and> items_move m (fst (create_rollout m r its))"
proof (cases "fst (create_rollout m r its) = m")
  case False
  let ?is = "foldl (\<lambda>is it. js_set is (item_key it) it) (m_upgradeRolloutItems m) its"
  let ?m = "m\<lparr>m_upgradeRollouts := js_set (m_upgradeRollouts m) (r_id r) r, m_upgradeRolloutItems := ?is\<rparr>"
  define res where "res = fst (create_rollout m r its)"
  have "res = m \<or> res = ?m \<and> \<not> js_has (m_upgradeRollouts m) (r_id r)"
    unfolding res_def
    by (cases "if js_truthy (r_idempotencyKey r)
          then rollout_with_key m (r_actorUserId r) (the (r_idempotencyKey r)) else None";
        cases "js_has (m_upgradeRollouts m) (r_id r)")
      (simp_all add: create_rollout_def Let_def)
  then have eq: "fst (create_rollout m r its) = ?m" and new: "\<not> js_has (m_upgradeRollouts m) (r_id r)"
    using False unfolding res_def by blast+
  have wf: "js_wf (m_upgradeRolloutItems m)" using inv by (simp add: rollouts_inv_def)
  note get = create_items_get [OF wf, of its]
  have old: "js_get ?is k = js_get (m_upgradeRolloutItems m) k" if "js_get (m_upgradeRolloutItems m) k = Some a" for k a
  proof -
    have "k = item_key a" "CHR '':'' \<notin> set (i_rolloutId a)" "js_has (m_upgradeRollouts m) (i_rolloutId a)"
      using inv that unfolding rollouts_inv_def by blast+
    with new have "k = item_key a" "CHR '':'' \<notin> set (i_rolloutId a)" "i_rolloutId a \<noteq> r_id r" by auto
    then have "k \<noteq> item_key it" if "it \<in> set its" for it
      using ok that item_key_inj [of "i_rolloutId a" "i_instanceId a" "i_rolloutId it" "i_instanceId it"] by auto
    then have "k \<notin> item_key ` set its" by blast
    with get show ?thesis by blast
  qed
  have "rollouts_inv ?m"
    unfolding rollouts_inv_def
  proof (intro conjI allI impI)
    show "js_wf (m_upgradeRolloutItems ?m)" using get by simp
    fix k b assume "js_get (m_upgradeRolloutItems ?m) k = Some b"
    then have "js_get (m_upgradeRolloutItems m) k = Some b \<or> (b \<in> set its \<and> k = item_key b)"
      using get by simp
    then have "k = item_key b \<and> CHR '':'' \<notin> set (i_rolloutId b) \<and> (js_has (m_upgradeRollouts m) (i_rolloutId b) \<or> i_rolloutId b = r_id r)"
      using inv ok unfolding rollouts_inv_def by auto
    then show "k = item_key b" "CHR '':'' \<notin> set (i_rolloutId b)" "js_has (m_upgradeRollouts ?m) (i_rolloutId b)"
      by auto
  qed (use inv in \<open>auto simp: rollouts_inv_def split: if_splits\<close>)
  moreover have "items_move m ?m" using old by (auto simp: items_move_def)
  ultimately show ?thesis by (simp add: eq)
qed (simp add: inv)


lemma rollout_written_id [simp]: "r_id (rollout_written c r n) = r_id c"
  by (simp add: rollout_written_def)

lemma cas_rollout_inv:
  assumes inv: "rollouts_inv m"
  shows "rollouts_inv (fst (cas_rollout m r n)) \<and> items_move m (fst (cas_rollout m r n))"
proof (cases rule: cas_rollout_cases [of m r n])
  case (won c)
  then have "r_id c = r_id r" using inv by (simp add: rollouts_inv_def)
  with won inv show ?thesis by (auto simp: rollouts_inv_def items_move_def)
qed (simp add: inv)

lemma cas_item_inv:
  assumes inv: "rollouts_inv m"
  shows "rollouts_inv (fst (cas_item m it n)) \<and> items_move m (fst (cas_item m it n))"
proof (cases rule: cas_item_cases [of m it n])
  case (won c)
  with write_item_inv [OF inv won(1,2)] show ?thesis by simp
qed (simp add: inv)

lemma commit_checkpoint_cases:
  obtains (lost) "commit_checkpoint m it r t earlier = (m, None)"
  | (won) c where "js_get (m_upgradeRolloutItems m) (item_key it) = Some c" "i_revision c = r"
      "commit_checkpoint m it r t earlier =
        (fst (store_checkpoint m it c (item_written c it t (r + 1)) t earlier),
         Some (item_written c it t (r + 1), snd (store_checkpoint m it c (item_written c it t (r + 1)) t earlier)))"
proof (cases "js_get (m_upgradeRolloutItems m) (item_key it)")
  case None
  then show ?thesis using lost by (simp add: commit_checkpoint_def)
next
  case (Some c)
  then show ?thesis
    using lost won by (cases "i_revision c = r") (simp_all add: commit_checkpoint_def Let_def)
qed

lemma commit_checkpoint_inv:
  assumes inv: "rollouts_inv m"
  shows "rollouts_inv (fst (commit_checkpoint m it r t earlier)) \<and> items_move m (fst (commit_checkpoint m it r t earlier))"
proof (cases rule: commit_checkpoint_cases [of m it r t earlier])
  case (won c)
  let ?m1 = "m\<lparr>m_upgradeRolloutItems := js_set (m_upgradeRolloutItems m) (item_key it) (item_written c it t (r + 1))\<rparr>"
  let ?f = "\<lambda>x. if settled_by m c (i_instanceId it) x then item_superseded t x else x"
  have w: "rollouts_inv ?m1 \<and> items_move m ?m1" using write_item_inv [OF inv won(1,2)] .
  have "rollouts_inv (?m1\<lparr>m_upgradeRolloutItems := js_update_each (\<lambda>_. ?f) (m_upgradeRolloutItems ?m1)\<rparr>)
    \<and> items_move ?m1 (?m1\<lparr>m_upgradeRolloutItems := js_update_each (\<lambda>_. ?f) (m_upgradeRolloutItems ?m1)\<rparr>)"
    by (rule update_each_items) (use w in auto)
  with w have "rollouts_inv (?m1\<lparr>m_upgradeRolloutItems := js_update_each (\<lambda>_. ?f) (m_upgradeRolloutItems ?m1)\<rparr>)
    \<and> items_move m (?m1\<lparr>m_upgradeRolloutItems := js_update_each (\<lambda>_. ?f) (m_upgradeRolloutItems ?m1)\<rparr>)"
    using items_move_trans by blast
  with w won(3) show ?thesis by (simp add: store_checkpoint_def Let_def)
qed (simp add: inv)

lemma supersede_before_inv:
  assumes inv: "rollouts_inv m"
  shows "rollouts_inv (fst (supersede_before m rid iid t)) \<and> items_move m (fst (supersede_before m rid iid t))"
proof (cases "js_get (m_upgradeRolloutItems m) (upgrade_item_key rid iid)")
  case (Some c)
  have "rollouts_inv (m\<lparr>m_upgradeRolloutItems := js_update_each
        (\<lambda>_ x. if settled_by m c iid x then item_superseded t x else x) (m_upgradeRolloutItems m)\<rparr>)
    \<and> items_move m (m\<lparr>m_upgradeRolloutItems := js_update_each
        (\<lambda>_ x. if settled_by m c iid x then item_superseded t x else x) (m_upgradeRolloutItems m)\<rparr>)"
    by (rule update_each_items) (use inv in auto)
  with Some show ?thesis by (simp add: supersede_before_def)
qed (simp add: supersede_before_def inv)

lemma recover_items_inv:
  assumes inv: "rollouts_inv m"
  shows "rollouts_inv (fst (recover_items m cutoff t)) \<and> items_move m (fst (recover_items m cutoff t))"
proof -
  let ?m1 = "m\<lparr>m_upgradeRolloutItems := js_update_each
        (\<lambda>_ x. if item_interrupted cutoff x then item_recovered t x else x) (m_upgradeRolloutItems m)\<rparr>"
  have "rollouts_inv ?m1 \<and> items_move m ?m1"
    by (rule update_each_items) (use inv in auto)
  then have "rollouts_inv (?m1\<lparr>m_drains := d\<rparr>) \<and> items_move m (?m1\<lparr>m_drains := d\<rparr>)" for d
    by (simp add: items_move_def)
  then show ?thesis by (simp add: recover_items_def Let_def)
qed

lemma rollout_step_inv:
  assumes "rollouts_inv m"
  shows "rollouts_inv (rollout_step m op) \<and> items_move m (rollout_step m op)"
proof (cases op)
  case (RCreate r its)
  then show ?thesis using assms create_rollout_inv [OF assms, of r its] by (simp add: rollout_step_def)
qed (use assms in \<open>simp_all add: rollout_step_def cas_item_inv supersede_before_inv commit_checkpoint_inv
      cas_rollout_inv recover_items_inv\<close>)

interpretation rollouts: machine rollout_step "\<lambda>m. m = empty_mem" rollouts_inv
  by unfold_locales (simp_all add: rollouts_inv_empty rollout_step_inv)

lemma rollout_run_moves: "rollouts_inv m \<Longrightarrow> items_move m (foldl rollout_step m ops)"
proof (induction ops arbitrary: m)
  case (Cons op ops)
  then show ?case using rollout_step_inv [of m op] items_move_trans by fastforce
qed simp

section \<open>Properties\<close>

text \<open>An upgrade item keeps its target. Whatever is written to the rollout store afterwards,
  by workers, administrators, checkpoints or recovery, with whatever values: the item stays in
  the store, its batch, instance, target version, target image, launch profile and position
  are those it was created with, and every change of it has raised its revision.\<close>

theorem item_target_is_immutable:
  assumes "rollouts_inv m" "js_get (m_upgradeRolloutItems m) k = Some a"
  shows "\<exists>b. js_get (m_upgradeRolloutItems (foldl rollout_step m ops)) k = Some b
    \<and> item_target b = item_target a \<and> (b = a \<or> i_revision a < i_revision b)"
  using rollout_run_moves [OF assms(1), of ops] assms(2) by (auto simp: items_move_def item_moves_def)

definition sample_profile :: launch_profile where
  "sample_profile = \<lparr>lp_imageReference = ''img:2'', lp_memory = ''512m'', lp_cpus = ''1'',
     lp_pidsLimit = 256, lp_environment = [], lp_configFiles = []\<rparr>"

definition sample_item :: "string \<Rightarrow> instant \<Rightarrow> item_status \<Rightarrow> rollout_item" where
  "sample_item rid t st = \<lparr>i_rolloutId = rid, i_instanceId = ''w1'', i_position = 0, i_revision = 1,
     i_userId = ''u2'', i_appId = ''notes'', i_sourceStatus = Stopped, i_desiredState = WantStopped,
     i_sourceAppVersionId = Some ''v1'', i_sourceImageArtifactId = None, i_sourceImageReference = Some ''img:1'',
     i_targetAppVersionId = Some ''v2'', i_targetImageArtifactId = None, i_targetImageReference = ''img:2'',
     i_targetRuntimeContract = None, i_launchProfile = sample_profile, i_recovery = False,
     i_diagnostics = None, i_status = st, i_blocker = None, i_error = None, i_forceRequested = False,
     i_attemptId = None, i_attemptCount = 0, i_nextAttemptAt = Some t, i_lastCheckedAt = None,
     i_startedAt = None, i_finishedAt = None, i_createdAt = t, i_updatedAt = t\<rparr>"

definition sample_rollout :: "string \<Rightarrow> instant \<Rightarrow> rollout" where
  "sample_rollout rid t = \<lparr>r_id = rid, r_revision = 1, r_actorUserId = ''a1'', r_status = RRunning,
     r_taskKind = ImageUpgrade, r_useLatestVersion = True, r_requested = 1, r_completed = 0,
     r_succeeded = 0, r_superseded = None, r_failed = 0, r_waiting = 0, r_upgrading = 1,
     r_needsAttention = 0, r_idempotencyKey = Some rid, r_requestFingerprint = ''f'',
     r_createdAt = t, r_updatedAt = t, r_finishedAt = None\<rparr>"

text \<open>Two batches for one instance; the first waits for a first start.\<close>

definition two_rollouts :: mem where
  "two_rollouts = foldl rollout_step empty_mem
     [RCreate (sample_rollout ''r1'' 1) [sample_item ''r1'' 1 IAwaitingFirstStart],
      RCreate (sample_rollout ''r2'' 2) [sample_item ''r2'' 2 IVerifying]]"

lemma two_rollouts_inv: "rollouts_inv two_rollouts"
  unfolding two_rollouts_def by (rule rollouts.run_inv) simp

lemma two_rollouts_items:
  "js_get (m_upgradeRolloutItems two_rollouts) ''r1:w1'' = Some (sample_item ''r1'' 1 IAwaitingFirstStart)"
  "js_get (m_upgradeRolloutItems two_rollouts) ''r2:w1'' = Some (sample_item ''r2'' 2 IVerifying)"
  by code_simp+

theorem item_target_is_immutable_witness:
  "\<exists>b. js_get (m_upgradeRolloutItems (foldl rollout_step two_rollouts
       [RCasItem ((sample_item ''r1'' 1 ISucceeded)\<lparr>i_targetImageReference := ''other''\<rparr>) 1])) ''r1:w1'' = Some b
     \<and> i_targetImageReference b = ''img:2''"
proof -
  let ?ops = "[RCasItem ((sample_item ''r1'' 1 ISucceeded)\<lparr>i_targetImageReference := ''other''\<rparr>) 1]"
  obtain b where b: "js_get (m_upgradeRolloutItems (foldl rollout_step two_rollouts ?ops)) ''r1:w1'' = Some b"
    "item_target b = item_target (sample_item ''r1'' 1 IAwaitingFirstStart)"
    using item_target_is_immutable [OF two_rollouts_inv two_rollouts_items(1), of ?ops] by blast
  from b(2) have "i_targetImageReference b = ''img:2''" by (simp add: item_target_def sample_item_def)
  with b(1) show ?thesis by blast
qed

text \<open>A deployment checkpoint settles exactly the past of its instance. When it is accepted,
  the item is written under the next revision; if the status says that the candidate is in
  place, every older item of the same instance that still waits for its first start (or, in
  an image upgrade, has lost the proof of it) becomes superseded, no other item changes, and
  the batches reported as affected are exactly those of the changed items; so no older item
  of the instance is left waiting. A stale checkpoint changes nothing.\<close>

theorem checkpoint_settles_the_past:
  assumes inv: "rollouts_inv m" and commit: "commit_checkpoint m it r t earlier = (m', res)"
  shows "case res of
      None \<Rightarrow> m' = m
    | Some (u, ids) \<Rightarrow>
        \<exists>c. js_get (m_upgradeRolloutItems m) (item_key it) = Some c \<and> i_revision c = r
        \<and> js_get (m_upgradeRolloutItems m') (item_key it) = Some u \<and> u = item_written c it t (r + 1)
        \<and> (\<forall>k x. js_get (m_upgradeRolloutItems m) k = Some x \<and> k \<noteq> item_key it \<longrightarrow>
              js_get (m_upgradeRolloutItems m') k = Some
                (if earlier \<and> (i_status it = IAwaitingFirstStart \<or> i_status it = ISucceeded)
                    \<and> settled_by m c (i_instanceId it) x then item_superseded t x else x))
        \<and> set ids = {i_rolloutId it} \<union> {i_rolloutId x | x k. js_get (m_upgradeRolloutItems m) k = Some x
              \<and> k \<noteq> item_key it \<and> earlier \<and> (i_status it = IAwaitingFirstStart \<or> i_status it = ISucceeded)
              \<and> settled_by m c (i_instanceId it) x}"
proof (cases rule: commit_checkpoint_cases [of m it r t earlier])
  case lost
  with commit show ?thesis by auto
next
  case (won c)
  let ?u = "item_written c it t (r + 1)"
  let ?is = "js_set (m_upgradeRolloutItems m) (item_key it) ?u"
  let ?on = "earlier \<and> (i_status it = IAwaitingFirstStart \<or> i_status it = ISucceeded)"
  have "i_createdAt ?u = i_createdAt c" "i_rolloutId ?u = i_rolloutId c" by (simp_all add: item_written_def)
  then have self: "\<not> settled_by m c (i_instanceId it) ?u" by (simp add: settled_by_def)
  have wf: "js_wf ?is" using inv by (simp add: rollouts_inv_def)
  have vals: "x \<in> set (js_values ?is) \<longleftrightarrow> x = ?u \<or> (\<exists>k. k \<noteq> item_key it \<and> js_get (m_upgradeRolloutItems m) k = Some x)" for x
    using js_in_values_iff [OF wf, of x] by auto
  show ?thesis
  proof (cases ?on)
    case True
    with won commit have "m' = m\<lparr>m_upgradeRolloutItems := js_update_each
          (\<lambda>_ x. if settled_by m c (i_instanceId it) x then item_superseded t x else x) ?is\<rparr>"
      "res = Some (?u, remdups (i_rolloutId it # map i_rolloutId (filter (settled_by m c (i_instanceId it)) (js_values ?is))))"
      by (auto simp: store_checkpoint_def Let_def)
    with won(1,2) True self vals show ?thesis by auto
  next
    case False
    with won commit have "m' = m\<lparr>m_upgradeRolloutItems := ?is\<rparr>" "res = Some (?u, [i_rolloutId it])"
      by (auto simp: store_checkpoint_def Let_def split: if_splits)
    with won(1,2) False show ?thesis by auto
  qed
qed

theorem checkpoint_settles_the_past_witness:
  "\<exists>x. js_get (m_upgradeRolloutItems (fst (commit_checkpoint two_rollouts (sample_item ''r2'' 2 ISucceeded) 1 9 True))) ''r1:w1'' = Some x
     \<and> i_status x = ISuperseded"
proof -
  let ?c = "commit_checkpoint two_rollouts (sample_item ''r2'' 2 ISucceeded) 1 9 True"
  have res: "map_option snd (snd ?c) = Some [''r2'', ''r1'']" by code_simp
  then obtain u where "snd ?c = Some (u, [''r2'', ''r1''])" by auto
  then have c: "?c = (fst ?c, Some (u, [''r2'', ''r1'']))" by (metis prod.collapse)
  have key: "item_key (sample_item ''r2'' 2 ISucceeded) = ''r2:w1''" by code_simp
  have set: "settled_by two_rollouts (sample_item ''r2'' 2 IVerifying) ''w1'' (sample_item ''r1'' 1 IAwaitingFirstStart)"
    by code_simp
  from checkpoint_settles_the_past [OF two_rollouts_inv c] key set two_rollouts_items
  show ?thesis by (auto simp: item_superseded_def sample_item_def)
qed


text \<open>Recovery takes over exactly the work of a worker that has been silent past the grace
  period. Every item that was being assessed, drained, rebuilt or verified and has not been
  written since the cut-off is released, under a new revision: one whose rebuild may have been
  committed keeps its attempt and goes on to have its first start reconciled, every other one
  is queued again without an attempt; no other item changes; no such silent item is left;
  and the drains that remain are unexpired and belong to items still in transition.\<close>

theorem recovery_releases_interrupted_items:
  assumes "rollouts_inv m" "js_wf (m_drains m)" "recover_items m cutoff now = (m', n)" "cutoff < now"
  shows "(\<forall>k it. js_get (m_upgradeRolloutItems m) k = Some it \<longrightarrow>
        (\<exists>it'. js_get (m_upgradeRolloutItems m') k = Some it'
          \<and> (if in_transition it \<and> i_updatedAt it \<le> cutoff
             then i_revision it' = i_revision it + 1 \<and> i_nextAttemptAt it' = Some now
               \<and> (if (i_status it = IRebuilding \<or> i_status it = IVerifying) \<and> i_attemptId it \<noteq> None
                  then i_status it' = IAwaitingFirstStart \<and> i_attemptId it' = i_attemptId it
                  else i_status it' = IQueued \<and> i_attemptId it' = None)
             else it' = it)
          \<and> \<not> (in_transition it' \<and> i_updatedAt it' \<le> cutoff)))
    \<and> (\<forall>i d. js_get (m_drains m') i = Some d \<longrightarrow>
        js_get (m_drains m) i = Some d \<and> now < d_expiresAt d
        \<and> (\<exists>it. js_get (m_upgradeRolloutItems m') (upgrade_item_key (d_rolloutId d) i) = Some it \<and> in_transition it))"
proof -
  let ?f = "\<lambda>it. if item_interrupted cutoff it then item_recovered now it else it"
  let ?is = "js_update_each (\<lambda>_. ?f) (m_upgradeRolloutItems m)"
  have items: "m_upgradeRolloutItems m' = ?is" using assms(3) by (auto simp: recover_items_def Let_def)
  have drains: "js_get (m_drains m') i = Some d \<Longrightarrow>
      js_get (m_drains m) i = Some d \<and> now < d_expiresAt d
      \<and> (\<exists>it. js_get ?is (upgrade_item_key (d_rolloutId d) i) = Some it \<and> in_transition it)" for i d
    using assms(2,3) unfolding recover_items_def Let_def
    by (auto simp del: js_get_update_each split: option.splits if_splits)
  have step: "if in_transition it \<and> i_updatedAt it \<le> cutoff
      then i_revision (?f it) = i_revision it + 1 \<and> i_nextAttemptAt (?f it) = Some now
        \<and> (if (i_status it = IRebuilding \<or> i_status it = IVerifying) \<and> i_attemptId it \<noteq> None
           then i_status (?f it) = IAwaitingFirstStart \<and> i_attemptId (?f it) = i_attemptId it
           else i_status (?f it) = IQueued \<and> i_attemptId (?f it) = None)
      else ?f it = it" for it
    by (simp add: item_interrupted_def item_recovered_def not_less Let_def)
  have left: "\<not> (in_transition (?f it) \<and> i_updatedAt (?f it) \<le> cutoff)" for it
    using assms(4) by (auto simp: item_interrupted_def item_recovered_def Let_def)
  show ?thesis
  proof (intro conjI allI impI)
    fix k it assume "js_get (m_upgradeRolloutItems m) k = Some it"
    then have "js_get (m_upgradeRolloutItems m') k = Some (?f it)" by (simp add: items)
    with step [of it] left [of it] show "\<exists>it'. js_get (m_upgradeRolloutItems m') k = Some it'
          \<and> (if in_transition it \<and> i_updatedAt it \<le> cutoff
             then i_revision it' = i_revision it + 1 \<and> i_nextAttemptAt it' = Some now
               \<and> (if (i_status it = IRebuilding \<or> i_status it = IVerifying) \<and> i_attemptId it \<noteq> None
                  then i_status it' = IAwaitingFirstStart \<and> i_attemptId it' = i_attemptId it
                  else i_status it' = IQueued \<and> i_attemptId it' = None)
             else it' = it)
          \<and> \<not> (in_transition it' \<and> i_updatedAt it' \<le> cutoff)"
      by (intro exI [of _ "?f it"] conjI)
  qed (use drains items in auto)
qed

theorem recovery_releases_interrupted_items_witness:
  "\<exists>it. js_get (m_upgradeRolloutItems (fst (recover_items two_rollouts 5 9))) ''r2:w1'' = Some it
     \<and> i_status it = IQueued"
proof -
  have drains: "m_drains two_rollouts = []" by code_simp
  then have wf: "js_wf (m_drains two_rollouts)" by simp
  have lt: "(5::instant) < 9" by simp
  obtain m' n where r: "recover_items two_rollouts 5 9 = (m', n)" by fastforce
  from recovery_releases_interrupted_items [OF two_rollouts_inv wf r lt] two_rollouts_items(2) r
  show ?thesis by (fastforce simp: in_transition_def sample_item_def)
qed

text \<open>The comparison by which due items are sorted is no order: it prefers the older of two
  items of one instance but the earlier due of two items of different instances, and three
  items can be preferred in a circle. So the sort may put a newer item of an instance before
  an older one, which the rule for equal instances means to exclude.\<close>

theorem due_order_is_circular:
  "\<exists>a b c. due_item 30 a \<and> due_item 30 b \<and> due_item 30 c \<and> i_instanceId a = i_instanceId b \<and> i_instanceId c \<noteq> i_instanceId a
     \<and> compare_due cmp a b < 0 \<and> compare_due cmp b c < 0 \<and> compare_due cmp c a < 0"
proof -
  define a where "a = (sample_item ''r1'' 1 IQueued)\<lparr>i_nextAttemptAt := Some 30\<rparr>"
  define b where "b = (sample_item ''r2'' 2 IQueued)\<lparr>i_nextAttemptAt := Some 10\<rparr>"
  define c where "c = (sample_item ''r3'' 3 IQueued)\<lparr>i_instanceId := ''w2'', i_nextAttemptAt := Some 20\<rparr>"
  have "due_item 30 a \<and> due_item 30 b \<and> due_item 30 c \<and> i_instanceId a = i_instanceId b \<and> i_instanceId c \<noteq> i_instanceId a"
    by (simp add: a_def b_def c_def sample_item_def due_item_def)
  moreover have "compare_due cmp a b < 0 \<and> compare_due cmp b c < 0 \<and> compare_due cmp c a < 0"
    by (simp add: a_def b_def c_def sample_item_def compare_due_def compare_instants_def)
  ultimately show ?thesis by blast
qed

end
