(* ===== verification/Js_Text.thy ===== *)
theory Js_Text
  imports Js_Prelude "HOL-Library.Log_Nat" "HOL-Library.List_Lexorder" "HOL-Library.Char_ord" "HOL-Library.Multiset"
begin

text \<open>
  Further functions of the JavaScript library on texts: splitting, UTF-8 lengths, the conversion
  \<open>Number(text)\<close> with its rounding to doubles, decimal rendering, and \<open>JSON.stringify\<close> of strings.
  Strings are lists of code units below 256, as in \<open>Js_Prelude\<close>.
\<close>

section \<open>Pieces of strings\<close>

definition ends_with :: "string \<Rightarrow> string \<Rightarrow> bool" where
  "ends_with s e \<longleftrightarrow> length e \<le> length s \<and> drop (length s - length e) s = e"

definition starts_with :: "string \<Rightarrow> string \<Rightarrow> bool" where
  "starts_with s p \<longleftrightarrow> take (length p) s = p"

text \<open>\<open>text.split(separator)\<close> for a separator of one character; never empty.\<close>

fun js_split :: "char \<Rightarrow> string \<Rightarrow> string list" where
  "js_split c [] = [[]]"
| "js_split c (x # xs) =
     (if x = c then [] # js_split c xs
      else case js_split c xs of [] \<Rightarrow> [[x]] | p # ps \<Rightarrow> (x # p) # ps)"

lemma js_split_nonempty [simp]: "js_split c s \<noteq> []"
  by (induction s) (auto split: list.split)

text \<open>\<open>parts.join(separator)\<close>, and that it undoes splitting.\<close>

fun js_join :: "string \<Rightarrow> string list \<Rightarrow> string" where
  "js_join sep [] = []"
| "js_join sep [p] = p"
| "js_join sep (p # q # ps) = p @ sep @ js_join sep (q # ps)"

lemma js_join_Cons: "js_join sep (p # ps) = p @ (if ps = [] then [] else sep @ js_join sep ps)"
  by (cases ps) simp_all

lemma js_join_split: "js_join [c] (js_split c s) = s"
proof (induction s)
  case (Cons x xs)
  then show ?case by (cases "js_split c xs") (auto simp: js_join_Cons split: if_splits)
qed simp

definition js_digit :: "char \<Rightarrow> bool" where
  "js_digit c \<longleftrightarrow> (let n = (of_char c :: nat) in 48 \<le> n \<and> n \<le> 57)"

definition js_alpha :: "char \<Rightarrow> bool" where
  "js_alpha c \<longleftrightarrow> (let n = (of_char c :: nat) in 65 \<le> n \<and> n \<le> 90 \<or> 97 \<le> n \<and> n \<le> 122)"

text \<open>\<open>Buffer.byteLength\<close>: a code unit below 128 takes one byte, another below 256 two.\<close>

definition utf8_length :: "string \<Rightarrow> nat" where
  "utf8_length s = sum_list (map (\<lambda>c. if (of_char c :: nat) < 128 then 1 else 2) s)"

text \<open>
  A stable sort by a comparison function, as \<open>Array.prototype.sort\<close> does it for a consistent
  comparison.
\<close>

fun insert_by :: "('a \<Rightarrow> 'a \<Rightarrow> int) \<Rightarrow> 'a \<Rightarrow> 'a list \<Rightarrow> 'a list" where
  "insert_by cmp x [] = [x]"
| "insert_by cmp x (y # ys) = (if cmp x y \<le> 0 then x # y # ys else y # insert_by cmp x ys)"

definition sort_by :: "('a \<Rightarrow> 'a \<Rightarrow> int) \<Rightarrow> 'a list \<Rightarrow> 'a list" where
  "sort_by cmp xs = foldr (insert_by cmp) xs []"

lemma mset_insert_by [simp]: "mset (insert_by cmp x xs) = add_mset x (mset xs)"
  by (induction xs) auto

lemma mset_sort_by [simp]: "mset (sort_by cmp xs) = mset xs"
  by (induction xs) (auto simp: sort_by_def)

lemma set_sort_by [simp]: "set (sort_by cmp xs) = set xs"
  by (metis mset_sort_by set_mset_mset)

lemma map_of_mset: "mset xs = mset ys \<Longrightarrow> distinct (map fst xs) \<Longrightarrow> map_of xs = map_of ys"
  by (metis map_of_eqI mset_eq_setD mset_map distinct_count_atmost_1 image_mset_union set_map map_of_inject_set mset_eq_imp_distinct_iff)

section \<open>Numbers\<close>

text \<open>
  Rounding to the nearest double, ties to even: the exponent of the last place is the larger of
  that of a 53-bit significand and the smallest subnormal one; at \<open>2 ^ 1024\<close> it overflows.
\<close>

definition two_power :: "int \<Rightarrow> rat" where
  "two_power k = (if 0 \<le> k then 2 ^ nat k else 1 / 2 ^ nat (- k))"

definition round_half_even :: "rat \<Rightarrow> int" where
  "round_half_even q =
     (let f = \<lfloor>q\<rfloor>; r = q - of_int f
      in if r < 1 / 2 \<or> (r = 1 / 2 \<and> even f) then f else f + 1)"

definition floor_log2 :: "rat \<Rightarrow> int" where
  "floor_log2 q =
     (let (a, b) = quotient_of q; k = int (floorlog 2 (nat a)) - int (floorlog 2 (nat b))
      in if two_power k \<le> q then k else k - 1)"

definition js_double :: "rat \<Rightarrow> js_num" where
  "js_double q =
     (if q = 0 then Finite 0
      else (let u = max (floor_log2 \<bar>q\<bar> - 52) (-1074);
                v = of_int (round_half_even (\<bar>q\<bar> / two_power u)) * two_power u
            in if v \<ge> two_power 1024 then NotFinite else Finite (if q < 0 then - v else v)))"

text \<open>\<open>Number(text)\<close>; what is not a numeral is NaN. Leading zeros and a missing part are allowed.\<close>

definition ten_power :: "int \<Rightarrow> rat" where
  "ten_power k = (if 0 \<le> k then 10 ^ nat k else 1 / 10 ^ nat (- k))"

definition digit_value :: "char \<Rightarrow> nat" where
  "digit_value c =
     (let n = (of_char c :: nat) in if n \<le> 57 then n - 48 else if n \<le> 90 then n - 55 else n - 87)"

definition digits_value :: "nat \<Rightarrow> string \<Rightarrow> nat" where
  "digits_value base s = foldl (\<lambda>n c. n * base + digit_value c) 0 s"

definition exponent_value :: "string \<Rightarrow> int option" where
  "exponent_value s =
     (case s of
        [] \<Rightarrow> Some 0
      | e # r \<Rightarrow>
          if e \<noteq> CHR ''e'' \<and> e \<noteq> CHR ''E'' then None
          else (let (sign, ds) = (case r of [] \<Rightarrow> (1, []) | c # cs \<Rightarrow>
                      if c = CHR ''-'' then (-1, cs) else if c = CHR ''+'' then (1, cs) else (1, c # cs))
                in if ds = [] \<or> \<not> list_all js_digit ds then None
                   else Some (sign * int (digits_value 10 ds))))"

definition decimal_value :: "string \<Rightarrow> rat option" where
  "decimal_value s =
     (let ip = takeWhile js_digit s; r = dropWhile js_digit s;
          dotted = (r \<noteq> [] \<and> hd r = CHR ''.'');
          fp = (if dotted then takeWhile js_digit (tl r) else []);
          r2 = (if dotted then dropWhile js_digit (tl r) else r)
      in if ip = [] \<and> fp = [] then None
         else map_option (\<lambda>x. of_nat (digits_value 10 (ip @ fp)) * ten_power (x - int (length fp)))
                (exponent_value r2))"

definition radix_digit :: "nat \<Rightarrow> char \<Rightarrow> bool" where
  "radix_digit base c \<longleftrightarrow> (js_digit c \<or> js_alpha c) \<and> digit_value c < base"

definition js_number :: "string \<Rightarrow> js_num" where
  "js_number text =
     (let s = js_trim text;
          radix = (if take 2 s = ''0x'' \<or> take 2 s = ''0X'' then Some 16
                   else if take 2 s = ''0o'' \<or> take 2 s = ''0O'' then Some 8
                   else if take 2 s = ''0b'' \<or> take 2 s = ''0B'' then Some 2 else None)
      in if s = [] then Finite 0
         else case radix of
           Some base \<Rightarrow>
             if drop 2 s = [] \<or> \<not> list_all (radix_digit base) (drop 2 s) then NotFinite
             else js_double (of_nat (digits_value base (drop 2 s)))
         | None \<Rightarrow>
             (case decimal_value (if hd s = CHR ''-'' \<or> hd s = CHR ''+'' then tl s else s) of
                None \<Rightarrow> NotFinite
              | Some q \<Rightarrow> js_double (if hd s = CHR ''-'' then - q else q)))"

text \<open>A natural number in decimal, as a template string or \<open>String\<close> renders it.\<close>

fun decimal_digits :: "nat \<Rightarrow> string" where
  "decimal_digits n = (if n < 10 then [char_of (48 + n)] else decimal_digits (n div 10) @ [char_of (48 + n mod 10)])"

declare decimal_digits.simps [simp del]

section \<open>JSON strings\<close>

definition hex_digit :: "nat \<Rightarrow> char" where
  "hex_digit n = (if n < 10 then char_of (48 + n) else char_of (87 + n))"

definition json_char :: "char \<Rightarrow> string" where
  "json_char c =
     (let n = (of_char c :: nat)
      in if c = CHR 0x22 then [CHR 0x5C, CHR 0x22] else if c = CHR 0x5C then [CHR 0x5C, CHR 0x5C]
         else if n = 8 then [CHR 0x5C, CHR ''b''] else if n = 9 then [CHR 0x5C, CHR ''t'']
         else if n = 10 then [CHR 0x5C, CHR ''n''] else if n = 12 then [CHR 0x5C, CHR ''f'']
         else if n = 13 then [CHR 0x5C, CHR ''r'']
         else if n < 32 then CHR 0x5C # ''u00'' @ [hex_digit (n div 16), hex_digit (n mod 16)]
         else [c])"

definition json_quote :: "string \<Rightarrow> string" where
  "json_quote s = CHR 0x22 # concat (map json_char s) @ [CHR 0x22]"

definition json_strings :: "string list \<Rightarrow> string" where
  "json_strings xs = ''['' @ js_join '','' (map json_quote xs) @ '']''"

text \<open>
  Quoting is uniquely readable: two quoted strings followed by anything are equal only if the
  strings and the continuations are. So texts built from quoted strings determine them.
\<close>

definition json_read_char :: "string \<Rightarrow> char \<times> string" where
  "json_read_char s =
     (case s of
        [] \<Rightarrow> (CHR 0x00, [])
      | c # r \<Rightarrow>
          if c \<noteq> CHR 0x5C then (c, r)
          else (case r of
              [] \<Rightarrow> (CHR 0x00, [])
            | e # t \<Rightarrow>
                if e = CHR ''b'' then (char_of (8 :: nat), t) else if e = CHR ''t'' then (char_of (9 :: nat), t)
                else if e = CHR ''n'' then (char_of (10 :: nat), t) else if e = CHR ''f'' then (char_of (12 :: nat), t)
                else if e = CHR ''r'' then (char_of (13 :: nat), t)
                else if e = CHR ''u'' then
                  (char_of (16 * digit_value (t ! 2) + digit_value (t ! 3)), drop 4 t)
                else (e, t)))"

lemma hex_digit_value: "n < 16 \<Longrightarrow> digit_value (hex_digit n) = n"
  by (auto simp: digit_value_def hex_digit_def)

lemma json_read_char: "json_read_char (json_char c @ x) = (c, x)"
proof -
  have c: "char_of (of_char c :: nat) = c" by simp
  have "(of_char c :: nat) div 16 < 16" by (simp add: less_mult_imp_div_less)
  then have "char_of (16 * digit_value (hex_digit (of_char c div 16)) + digit_value (hex_digit (of_char c mod 16))) = c"
    by (simp add: hex_digit_value)
  then show ?thesis
    using c by (auto simp: json_char_def json_read_char_def Let_def)
qed

lemma json_char_cancel: "json_char c @ x = json_char d @ y \<longleftrightarrow> c = d \<and> x = y"
  by (metis json_read_char prod.inject)

lemma json_char_starts: "\<exists>a r. json_char c = a # r \<and> a \<noteq> CHR 0x22"
  by (auto simp: json_char_def Let_def)

lemma json_quoted_cancel:
  "concat (map json_char s) @ CHR 0x22 # x = concat (map json_char t) @ CHR 0x22 # y \<Longrightarrow> s = t \<and> x = y"
proof (induction s arbitrary: t)
  case Nil
  then show ?case using json_char_starts [of "hd t"] by (cases t) auto
next
  case (Cons c s)
  then show ?case using json_char_starts [of c] by (cases t) (auto simp: json_char_cancel)
qed

lemma json_quote_cancel: "json_quote s @ x = json_quote t @ y \<longleftrightarrow> s = t \<and> x = y"
  by (auto simp: json_quote_def dest: json_quoted_cancel)

lemma json_strings_tail_cancel:
  "js_join '','' (map json_quote xs) @ CHR '']'' # u = js_join '','' (map json_quote ys) @ CHR '']'' # v \<Longrightarrow> xs = ys \<and> u = v"
proof (induction xs arbitrary: ys)
  case Nil
  then show ?case by (cases ys) (auto simp: js_join_Cons json_quote_def)
next
  case (Cons x xs)
  then obtain y ys' where "ys = y # ys'" by (cases ys) (auto simp: js_join_Cons json_quote_def)
  with Cons show ?case
    by (cases "xs = []"; cases "ys' = []") (auto simp: js_join_Cons json_quote_cancel)
qed

lemma json_strings_cancel: "json_strings xs @ u = json_strings ys @ v \<longleftrightarrow> xs = ys \<and> u = v"
  by (auto simp: json_strings_def dest: json_strings_tail_cancel)

end
