(* ===== verification/Actions.thy ===== *)
theory Actions
  imports Js_Prelude
begin

text \<open>
  The async methods of the program as actions: functions from a state to the state they leave
  and a result, \<open>Inl\<close> being a thrown error. The state (the store, the effects counted so far, a
  log) and the error type are the component's. \<open>after\<close> is the weakest precondition the proofs
  compute with: its rewrite rules run through the code of a method.
\<close>

section \<open>Actions\<close>

type_synonym ('s, 'e, 'a) action = "'s \<Rightarrow> 's \<times> ('e, 'a) res"

definition act_ret :: "'a \<Rightarrow> ('s, 'e, 'a) action" where
  "act_ret x = (\<lambda>s. (s, Inr x))"

definition act_throw :: "'e \<Rightarrow> ('s, 'e, 'a) action" where
  "act_throw e = (\<lambda>s. (s, Inl e))"

definition act_case ::
  "('s, 'e, 'a) action \<Rightarrow> ('e \<Rightarrow> ('s, 'f, 'b) action) \<Rightarrow> ('a \<Rightarrow> ('s, 'f, 'b) action) \<Rightarrow> ('s, 'f, 'b) action" where
  "act_case a h f = (\<lambda>s. case a s of (s', Inl e) \<Rightarrow> h e s' | (s', Inr x) \<Rightarrow> f x s')"

definition act_bind :: "('s, 'e, 'a) action \<Rightarrow> ('a \<Rightarrow> ('s, 'e, 'b) action) \<Rightarrow> ('s, 'e, 'b) action" where
  "act_bind a f = act_case a act_throw f"

definition act_try :: "('s, 'e, 'a) action \<Rightarrow> ('e \<Rightarrow> ('s, 'e, 'a) action) \<Rightarrow> ('s, 'e, 'a) action" where
  "act_try a h = act_case a h act_ret"

text \<open>\<open>finally\<close>: an error of the final action replaces the outcome.\<close>

definition act_finally :: "('s, 'e, 'a) action \<Rightarrow> ('s, 'e, unit) action \<Rightarrow> ('s, 'e, 'a) action" where
  "act_finally a f = act_case a (\<lambda>e. act_bind f (\<lambda>_. act_throw e)) (\<lambda>x. act_bind f (\<lambda>_. act_ret x))"

definition act_of :: "('e, 'a) res \<Rightarrow> ('s, 'e, 'a) action" where
  "act_of r = (case r of Inl e \<Rightarrow> act_throw e | Inr x \<Rightarrow> act_ret x)"

fun act_each :: "('a \<Rightarrow> ('s, 'e, unit) action) \<Rightarrow> 'a list \<Rightarrow> ('s, 'e, unit) action" where
  "act_each f [] = act_ret ()"
| "act_each f (x # xs) = act_bind (f x) (\<lambda>_. act_each f xs)"

section \<open>Reasoning about actions\<close>

text \<open>
  \<open>after a Q E s\<close>: run from \<open>s\<close>, the action ends in a state with \<open>Q\<close> if it returns, with \<open>E\<close> if
  it throws.
\<close>

definition after :: "('s, 'e, 'a) action \<Rightarrow> ('a \<Rightarrow> 's \<Rightarrow> bool) \<Rightarrow> ('e \<Rightarrow> 's \<Rightarrow> bool) \<Rightarrow> 's \<Rightarrow> bool" where
  "after a Q E s = (case a s of (s', Inl e) \<Rightarrow> E e s' | (s', Inr x) \<Rightarrow> Q x s')"

lemma after_ret [simp]: "after (act_ret x) Q E = Q x"
  by (simp add: after_def act_ret_def fun_eq_iff)

lemma after_throw [simp]: "after (act_throw e) Q E = E e"
  by (simp add: after_def act_throw_def fun_eq_iff)

lemma after_case [simp]: "after (act_case a h f) Q E = after a (\<lambda>x. after (f x) Q E) (\<lambda>e. after (h e) Q E)"
  by (simp add: after_def act_case_def fun_eq_iff split: prod.split sum.split)

lemma after_bind [simp]: "after (act_bind a f) Q E = after a (\<lambda>x. after (f x) Q E) E"
  by (simp add: act_bind_def)

lemma after_try [simp]: "after (act_try a h) Q E = after a Q (\<lambda>e. after (h e) Q E)"
  by (simp add: act_try_def)

lemma after_finally [simp]:
  "after (act_finally a f) Q E = after a (\<lambda>x. after f (\<lambda>_. Q x) E) (\<lambda>e. after f (\<lambda>_. E e) E)"
  by (simp add: act_finally_def)

lemma after_of [simp]: "after (act_of r) Q E = (case r of Inl e \<Rightarrow> E e | Inr x \<Rightarrow> Q x)"
  by (simp add: act_of_def split: sum.split)

lemma after_mono: "after a Q E s \<Longrightarrow> (\<And>x s'. Q x s' \<Longrightarrow> Q' x s') \<Longrightarrow> (\<And>e s'. E e s' \<Longrightarrow> E' e s') \<Longrightarrow> after a Q' E' s"
  by (auto simp: after_def split: prod.splits sum.splits)

lemma after_conj: "after a Q E s \<Longrightarrow> after a Q' E' s \<Longrightarrow> after a (\<lambda>x s. Q x s \<and> Q' x s) (\<lambda>e s. E e s \<and> E' e s) s"
  by (auto simp: after_def split: prod.splits sum.splits)

lemma after_each:
  assumes "\<And>x s. x \<in> set xs \<Longrightarrow> I s \<Longrightarrow> after (f x) (\<lambda>_. I) (\<lambda>_. I) s" "I s"
  shows "after (act_each f xs) (\<lambda>_. I) (\<lambda>_. I) s"
  using assms
proof (induction xs arbitrary: s)
  case (Cons x xs)
  have step: "after (f x) (\<lambda>_. I) (\<lambda>_. I) s" using Cons.prems by simp
  have "after (f x) (\<lambda>_. after (act_each f xs) (\<lambda>_. I) (\<lambda>_. I)) (\<lambda>_. I) s"
    by (rule after_mono [OF step]) (use Cons in auto)
  then show ?case by simp
qed simp

end
