(* ===== verification/Rollout_Effects.thy ===== *)
theory Rollout_Effects
  imports Memory_Rollouts Memory_Workspaces Js_Text Actions
begin

text \<open>
  The setting of \<open>backend/src/upgrade-rollouts.ts\<close>: its methods as actions on a state that holds
  the store, and the world around them. Every \<open>await\<close> and every call of the clock or of the
  id generator is an effect; effects are counted, and the world answers by that count: what
  other processes have done to the store before a store access, what the clock shows, whether
  a lease has been lost, what the runtime answers. So a theorem for every world covers every
  interleaving. The log records what the worker has done, newest first.
\<close>

section \<open>Errors and external answers\<close>

text \<open>
  \<open>RolloutConflict\<close> is \<open>UpgradeRolloutConflictError\<close>, \<open>SignalAborted\<close> what \<open>throwIfAborted\<close> throws;
  of any other error its message matters, and whether it is a provider error of a class that
  needs attention (permanent or inconsistent).
\<close>

datatype rollout_error = RolloutConflict string | SignalAborted | OtherError string bool

definition conflict_status :: "string \<Rightarrow> nat" where
  "conflict_status code =
     (if ends_with code ''_not_found'' \<or> code = ''container_not_found'' then 404
      else if starts_with code ''invalid_'' then 400 else 409)"

definition workspace_error_text :: "workspace_error \<Rightarrow> string" where
  "workspace_error_text e =
     (case e of
        ProjectionMismatch \<Rightarrow> ''workspace_execution_projection_mismatch''
      | GenerationRollback \<Rightarrow> ''workspace_execution_generation_rollback''
      | CasRequired \<Rightarrow> ''workspace_execution_cas_required''
      | ProjectionMissing \<Rightarrow> ''workspace_execution_projection_missing'')"

datatype inspection = TxPending | TxCommitted | TxNotFound | TxBroken

datatype 'a capability = Supported 'a | Unsupported | Unavailable rollout_error

text \<open>\<open>ContainerFailureDiagnostics\<close> of the runtime; the role of the container is a name.\<close>

record failure_diagnostics =
  fd_containerRole :: string
  fd_exitCode :: "int option"
  fd_oomKilled :: "bool option"
  fd_health :: "string option"
  fd_memoryLimit :: "string option"
  fd_memorySwapLimit :: "string option"
  fd_cpus :: "string option"
  fd_pidsLimit :: "int option"
  fd_logTail :: "string option"

record assessment =
  as_ready :: bool
  as_reason :: "string option"

section \<open>The world\<close>

record world =
  wd_env :: "nat \<Rightarrow> mem \<Rightarrow> mem"
  wd_now :: "nat \<Rightarrow> instant"
  wd_id :: "nat \<Rightarrow> string"
  wd_worker_lost :: "nat \<Rightarrow> bool"
  wd_item_lost :: "nat \<Rightarrow> bool"
  wd_lease :: "nat \<Rightarrow> bool"
  wd_item_lease :: "nat \<Rightarrow> bool"
  wd_assess :: "nat \<Rightarrow> container \<Rightarrow> rollout_item \<Rightarrow> (rollout_error, assessment) res"
  wd_confirm :: "(nat \<Rightarrow> container \<Rightarrow> rollout_item \<Rightarrow> (rollout_error, assessment) res) option"
  wd_begin :: "(nat \<Rightarrow> string \<Rightarrow> string \<Rightarrow> string \<Rightarrow> drain_mode \<Rightarrow> (rollout_error, bool) res) option"
  wd_clear :: "nat \<Rightarrow> string \<Rightarrow> string \<Rightarrow> string \<Rightarrow> (rollout_error, unit) res"
  wd_accept :: "(nat \<Rightarrow> rollout_item \<Rightarrow> (rollout_error, bool) res) option"
  wd_rebuild :: "nat \<Rightarrow> rollout_item \<Rightarrow> string \<Rightarrow> (rollout_error, unit) res"
  wd_inspect :: "(nat \<Rightarrow> rollout_item \<Rightarrow> (rollout_error, inspection option) res) option"
  wd_diagnose :: "(nat \<Rightarrow> rollout_item \<Rightarrow> (rollout_error, failure_diagnostics capability) res) option"
  wd_arrange :: "rollout_item list \<Rightarrow> rollout_item list"
  wd_sanitize :: "string \<Rightarrow> nat \<Rightarrow> string"

text \<open>
  What is logged: writes of upgrade items with the store before and after, checkpoints, the
  containers seen, the answers on which a rebuild depends, the rebuild itself, and drains.
\<close>

datatype event =
    Wrote mem mem
  | Checkpointed rollout_item
  | Seen string container
  | Assessed rollout_item container assessment
  | Confirmed rollout_item container assessment
  | Began string string string drain_mode bool
  | Rebuilt rollout_item string
  | Inspected rollout_item "inspection option"
  | Cleared string string string

record wk =
  k_mem :: mem
  k_step :: nat
  k_log :: "event list"
  k_checkpoints :: "string list"
  k_proofsReconciled :: bool

section \<open>Actions\<close>

type_synonym 'a act = "(wk, rollout_error, 'a) action"

definition get_wk :: "wk act" where
  "get_wk = (\<lambda>s. (s, Inr s))"

definition note_event :: "event \<Rightarrow> unit act" where
  "note_event e = (\<lambda>s. (s\<lparr>k_log := e # k_log s\<rparr>, Inr ()))"

section \<open>Effects\<close>

definition clock :: "world \<Rightarrow> instant act" where
  "clock wd = (\<lambda>s. (s\<lparr>k_step := Suc (k_step s)\<rparr>, Inr (wd_now wd (k_step s))))"

definition fresh_id :: "world \<Rightarrow> string act" where
  "fresh_id wd = (\<lambda>s. (s\<lparr>k_step := Suc (k_step s)\<rparr>, Inr (wd_id wd (k_step s))))"

text \<open>Waiting: the next effect, before which the environment acts on the store.\<close>

definition wait :: "world \<Rightarrow> nat act" where
  "wait wd = (\<lambda>s. (s\<lparr>k_mem := wd_env wd (k_step s) (k_mem s), k_step := Suc (k_step s)\<rparr>, Inr (k_step s)))"

definition read_store :: "world \<Rightarrow> (mem \<Rightarrow> 'a) \<Rightarrow> 'a act" where
  "read_store wd f = act_bind (wait wd) (\<lambda>_ s. (s, Inr (f (k_mem s))))"

definition call :: "world \<Rightarrow> (nat \<Rightarrow> (rollout_error, 'a) res) \<Rightarrow> 'a act" where
  "call wd f = act_bind (wait wd) (\<lambda>n. act_of (f n))"

type_synonym abort_signal = "nat \<Rightarrow> bool"

definition item_signal :: "world \<Rightarrow> abort_signal" where
  "item_signal wd n \<longleftrightarrow> wd_worker_lost wd n \<or> wd_item_lost wd n"

definition is_aborted :: "abort_signal \<Rightarrow> bool act" where
  "is_aborted sig = (\<lambda>s. (s, Inr (sig (k_step s))))"

definition throw_if_aborted :: "abort_signal \<Rightarrow> unit act" where
  "throw_if_aborted sig = act_bind (is_aborted sig) (\<lambda>b. if b then act_throw SignalAborted else act_ret ())"

text \<open>Writing upgrade items through the store, with the write in the log.\<close>

definition write_items :: "world \<Rightarrow> (mem \<Rightarrow> mem \<times> 'a) \<Rightarrow> 'a act" where
  "write_items wd f = act_bind (wait wd)
     (\<lambda>_ s. let r = f (k_mem s)
             in (s\<lparr>k_mem := fst r, k_log := Wrote (k_mem s) (fst r) # k_log s\<rparr>, Inr (snd r)))"

definition write_rollout :: "world \<Rightarrow> (mem \<Rightarrow> mem \<times> 'a) \<Rightarrow> 'a act" where
  "write_rollout wd f = act_bind (wait wd)
     (\<lambda>_ s. let r = f (k_mem s) in (s\<lparr>k_mem := fst r\<rparr>, Inr (snd r)))"

definition source_container :: "world \<Rightarrow> string \<Rightarrow> container option act" where
  "source_container wd i =
     act_bind (read_store wd (\<lambda>m. get_container m i))
       (\<lambda>r. case r of
          Inl e \<Rightarrow> act_throw (OtherError (workspace_error_text e) False)
        | Inr None \<Rightarrow> act_ret None
        | Inr (Some c) \<Rightarrow> act_bind (note_event (Seen i c)) (\<lambda>_. act_ret (Some c)))"

definition add_checkpoints :: "string list \<Rightarrow> unit act" where
  "add_checkpoints ids = (\<lambda>s. (s\<lparr>k_checkpoints :=
     foldl (\<lambda>xs i. if i \<in> set xs then xs else xs @ [i]) (k_checkpoints s) ids\<rparr>, Inr ()))"

definition detail_item :: "rollout_detail option \<Rightarrow> string \<Rightarrow> rollout_item option" where
  "detail_item d instanceId =
     (case d of None \<Rightarrow> None | Some (_, items) \<Rightarrow> List.find (\<lambda>it. i_instanceId it = instanceId) items)"

section \<open>Reasoning about the effects\<close>

lemma after_get [simp]: "after get_wk Q E s = Q s s"
  by (simp add: after_def get_wk_def)

lemma after_note [simp]: "after (note_event e) Q E s = Q () (s\<lparr>k_log := e # k_log s\<rparr>)"
  by (simp add: after_def note_event_def)

lemma after_clock [simp]: "after (clock wd) Q E s = Q (wd_now wd (k_step s)) (s\<lparr>k_step := Suc (k_step s)\<rparr>)"
  by (simp add: after_def clock_def)

lemma after_fresh_id [simp]: "after (fresh_id wd) Q E s = Q (wd_id wd (k_step s)) (s\<lparr>k_step := Suc (k_step s)\<rparr>)"
  by (simp add: after_def fresh_id_def)

lemma after_is_aborted [simp]: "after (is_aborted sig) Q E s = Q (sig (k_step s)) s"
  by (simp add: after_def is_aborted_def)

lemma after_throw_if_aborted [simp]:
  "after (throw_if_aborted sig) Q E s = (if sig (k_step s) then E SignalAborted s else Q () s)"
  by (simp add: throw_if_aborted_def)

lemma after_add_checkpoints [simp]:
  "after (add_checkpoints ids) Q E s = Q () (s\<lparr>k_checkpoints :=
     foldl (\<lambda>xs i. if i \<in> set xs then xs else xs @ [i]) (k_checkpoints s) ids\<rparr>)"
  by (simp add: after_def add_checkpoints_def)

lemma after_wait: "after (wait wd) Q E s =
    Q (k_step s) (s\<lparr>k_mem := wd_env wd (k_step s) (k_mem s), k_step := Suc (k_step s)\<rparr>)"
  by (simp add: after_def wait_def)

lemma after_read:
  "after (read_store wd f) Q E s =
     (let s' = s\<lparr>k_mem := wd_env wd (k_step s) (k_mem s), k_step := Suc (k_step s)\<rparr> in Q (f (k_mem s')) s')"
  by (simp add: read_store_def after_wait after_def [of "\<lambda>s. (s, Inr (f (k_mem s)))"] Let_def)

lemma after_write_items:
  "after (write_items wd f) Q E s =
     (let m = wd_env wd (k_step s) (k_mem s)
      in Q (snd (f m)) (s\<lparr>k_step := Suc (k_step s), k_mem := fst (f m), k_log := Wrote m (fst (f m)) # k_log s\<rparr>))"
  by (simp add: write_items_def after_wait Let_def
      after_def [of "\<lambda>s. (s\<lparr>k_mem := fst (f (k_mem s)), k_log := Wrote (k_mem s) (fst (f (k_mem s))) # k_log s\<rparr>, Inr (snd (f (k_mem s))))"])

lemma after_write_rollout:
  "after (write_rollout wd f) Q E s =
     (let m = wd_env wd (k_step s) (k_mem s)
      in Q (snd (f m)) (s\<lparr>k_step := Suc (k_step s), k_mem := fst (f m)\<rparr>))"
  by (simp add: write_rollout_def after_wait Let_def
      after_def [of "\<lambda>s. (s\<lparr>k_mem := fst (f (k_mem s))\<rparr>, Inr (snd (f (k_mem s))))"])

end
