(* ===== verification/Rollout_Worker.thy ===== *)
theory Rollout_Worker
  imports Rollout_Effects
begin

text \<open>
  The upgrade worker, \<open>UpgradeRolloutWorker\<close> of \<open>backend/src/upgrade-rollouts.ts\<close>, with the helper
  functions of that file: one function per method, as actions on the store. This theory holds
  the model; its properties are in \<open>Rollout_Safety\<close>.
\<close>

section \<open>Options\<close>

record worker_options =
  wo_retryDelayMs :: int
  wo_maxRetryDelayMs :: int
  wo_batchSize :: int
  wo_maxAttempts :: nat

definition interrupted_attempt_grace_ms :: int where
  "interrupted_attempt_grace_ms = 10 * 60000"

definition store_cas_retry_limit :: nat where
  "store_cas_retry_limit = 5"

text \<open>The constructor, for finite options: defaults, at least one attempt, a cap not below the first delay.\<close>

definition new_worker_options :: "int option \<Rightarrow> int option \<Rightarrow> int option \<Rightarrow> rat option \<Rightarrow> worker_options" where
  "new_worker_options retryDelayMs maxRetryDelayMs batchSize maxAttempts =
     (let retry = (case retryDelayMs of None \<Rightarrow> 30000 | Some d \<Rightarrow> d)
      in \<lparr>wo_retryDelayMs = retry,
          wo_maxRetryDelayMs = max retry (case maxRetryDelayMs of None \<Rightarrow> 5 * 60000 | Some d \<Rightarrow> d),
          wo_batchSize = (case batchSize of None \<Rightarrow> 100 | Some n \<Rightarrow> n),
          wo_maxAttempts = nat (max 1 \<lfloor>case maxAttempts of None \<Rightarrow> 120 | Some q \<Rightarrow> q\<rfloor>)\<rparr>)"

section \<open>Functions at the end of the file\<close>

definition matches_catalog_target :: "container \<Rightarrow> rollout_item \<Rightarrow> bool" where
  "matches_catalog_target c it \<longleftrightarrow>
     c_appVersionId c = i_targetAppVersionId it
     \<and> (i_targetImageArtifactId it = None \<or> c_imageArtifactId c = i_targetImageArtifactId it)
     \<and> c_imageReference c = Some (i_targetImageReference it)"

definition matches_target :: "container \<Rightarrow> rollout_item \<Rightarrow> bool" where
  "matches_target c it \<longleftrightarrow>
     matches_catalog_target c it
     \<and> (if i_desiredState it = WantRunning then c_status c = Running else c_status c = Stopped)"

definition terminal_item :: "item_status \<Rightarrow> bool" where
  "terminal_item st \<longleftrightarrow>
     st = ISucceeded \<or> st = ISuperseded \<or> st = IFailed \<or> st = ICancelled \<or> st = INeedsAttention"

definition actionable_item :: "item_status \<Rightarrow> bool" where
  "actionable_item st \<longleftrightarrow> st = IQueued \<or> st = IWaitingForIdle \<or> st = IFailed \<or> st = INeedsAttention"

definition first_start_patch :: "instant \<Rightarrow> string \<Rightarrow> rollout_item \<Rightarrow> rollout_item" where
  "first_start_patch now attemptId it = it\<lparr>
     i_status := IAwaitingFirstStart, i_blocker := Some ''candidate_awaiting_first_healthy_start'',
     i_error := None, i_diagnostics := None, i_forceRequested := False, i_attemptId := Some attemptId,
     i_attemptCount := 0, i_nextAttemptAt := Some now, i_lastCheckedAt := Some now,
     i_finishedAt := None, i_updatedAt := now\<rparr>"

definition error_text :: "rollout_error \<Rightarrow> string" where
  "error_text e = (case e of
      OtherError msg _ \<Rightarrow> msg | RolloutConflict code \<Rightarrow> code | SignalAborted \<Rightarrow> ''This operation was aborted'')"

definition error_message :: "world \<Rightarrow> rollout_error \<Rightarrow> string" where
  "error_message wd e = wd_sanitize wd (error_text e) 2000"

section \<open>The summary of a batch\<close>

definition count_status :: "(item_status \<Rightarrow> bool) \<Rightarrow> rollout_item list \<Rightarrow> nat" where
  "count_status P items = length (filter (\<lambda>it. P (i_status it)) items)"

definition summary_status :: "rollout_item list \<Rightarrow> rollout_status" where
  "summary_status items =
     (let completed = count_status (\<lambda>st. st = ISucceeded) items + count_status (\<lambda>st. st = ISuperseded) items
            + count_status (\<lambda>st. st = IFailed) items + count_status (\<lambda>st. st = INeedsAttention) items
            + count_status (\<lambda>st. st = ICancelled) items
      in if completed = length items
         then (if count_status (\<lambda>st. st = INeedsAttention) items > 0 then RNeedsAttention
               else if count_status (\<lambda>st. st = IFailed) items > 0 then RPartialFailed
               else if count_status (\<lambda>st. st = ICancelled) items > 0 then RCancelled
               else RSucceeded)
         else RRunning)"

definition summarized :: "rollout \<Rightarrow> rollout_item list \<Rightarrow> instant \<Rightarrow> rollout" where
  "summarized r items updatedAt =
     (let succeeded = count_status (\<lambda>st. st = ISucceeded) items;
          failedItems = count_status (\<lambda>st. st = IFailed) items;
          attention = count_status (\<lambda>st. st = INeedsAttention) items;
          cancelled = count_status (\<lambda>st. st = ICancelled) items;
          superseded = count_status (\<lambda>st. st = ISuperseded) items;
          completed = succeeded + superseded + failedItems + attention + cancelled;
          waiting = count_status (\<lambda>st. st = IWaitingForIdle \<or> st = IAwaitingFirstStart) items;
          upgrading = length items - completed - waiting;
          terminal = (completed = length items)
      in r\<lparr>r_status := summary_status items, r_completed := completed, r_succeeded := succeeded,
           r_superseded := Some superseded, r_failed := failedItems, r_waiting := waiting,
           r_upgrading := upgrading, r_needsAttention := attention, r_updatedAt := updatedAt,
           r_finishedAt := (if terminal
             then Some (case r_finishedAt r of None \<Rightarrow> updatedAt | Some t \<Rightarrow> t) else None)\<rparr>)"

definition summary_unchanged :: "rollout \<Rightarrow> rollout \<Rightarrow> bool" where
  "summary_unchanged r s \<longleftrightarrow>
     r_status r = r_status s \<and> r_completed r = r_completed s \<and> r_succeeded r = r_succeeded s
     \<and> Some (case r_superseded r of None \<Rightarrow> 0 | Some n \<Rightarrow> n) = r_superseded s
     \<and> r_failed r = r_failed s \<and> r_waiting r = r_waiting s \<and> r_upgrading r = r_upgrading s
     \<and> r_needsAttention r = r_needsAttention s \<and> r_finishedAt r = r_finishedAt s"

fun refresh_loop :: "nat \<Rightarrow> world \<Rightarrow> string \<Rightarrow> rollout_detail option act" where
  "refresh_loop 0 wd i = act_throw (RolloutConflict ''upgrade_rollout_summary_conflict'')"
| "refresh_loop (Suc n) wd i =
     act_bind (read_store wd (\<lambda>m. get_rollout m i)) (\<lambda>detail.
       case detail of
         None \<Rightarrow> act_ret None
       | Some (r, items) \<Rightarrow>
           act_bind (clock wd) (\<lambda>updatedAt.
             let s = summarized r items updatedAt
             in if summary_unchanged r s then act_ret (Some (r, items))
                else act_bind (write_rollout wd (\<lambda>m. cas_rollout m s (r_revision r))) (\<lambda>saved.
                  if saved \<noteq> None then read_store wd (\<lambda>m. get_rollout m i)
                  else refresh_loop n wd i)))"

definition refresh_summary :: "world \<Rightarrow> string \<Rightarrow> rollout_detail option act" where
  "refresh_summary wd i = refresh_loop store_cas_retry_limit wd i"

section \<open>Writing an item\<close>

definition next_attempt_delay :: "worker_options \<Rightarrow> nat \<Rightarrow> int" where
  "next_attempt_delay opts attemptCount =
     min (wo_maxRetryDelayMs opts) (wo_retryDelayMs opts * 2 ^ (attemptCount - 1))"

definition next_attempt_at :: "world \<Rightarrow> worker_options \<Rightarrow> nat \<Rightarrow> instant act" where
  "next_attempt_at wd opts attemptCount =
     act_bind (clock wd) (\<lambda>now. act_ret (now + next_attempt_delay opts attemptCount))"

definition transition :: "world \<Rightarrow> rollout_item \<Rightarrow> (rollout_item \<Rightarrow> rollout_item) \<Rightarrow> rollout_item act" where
  "transition wd it patch =
     act_bind (clock wd) (\<lambda>now.
     act_bind (write_items wd (\<lambda>m. cas_item m ((patch it)\<lparr>i_updatedAt := now\<rparr>) (i_revision it))) (\<lambda>updated.
       case updated of
         None \<Rightarrow> act_throw (RolloutConflict ''upgrade_rollout_item_conflict'')
       | Some u \<Rightarrow> act_ret u))"

definition checkpoint_item :: "rollout_item \<Rightarrow> bool \<Rightarrow> instant \<Rightarrow> instant option \<Rightarrow> rollout_item" where
  "checkpoint_item it success now retryAt = it\<lparr>
     i_status := (if success then ISucceeded else IAwaitingFirstStart),
     i_blocker := (if success then None else Some ''candidate_awaiting_first_healthy_start''),
     i_error := None, i_attemptId := (if success then None else i_attemptId it),
     i_finishedAt := (if success then Some now else None), i_nextAttemptAt := retryAt,
     i_lastCheckedAt := Some now, i_updatedAt := now\<rparr>"

definition checkpoint_deployment :: "world \<Rightarrow> worker_options \<Rightarrow> rollout_item \<Rightarrow> bool \<Rightarrow> bool \<Rightarrow> unit act" where
  "checkpoint_deployment wd opts it success supersedeEarlier =
     act_bind (clock wd) (\<lambda>now.
     act_bind (if success then act_ret None
               else act_bind (next_attempt_at wd opts (i_attemptCount it)) (\<lambda>t. act_ret (Some t))) (\<lambda>retryAt.
     act_bind (write_items wd (\<lambda>m. commit_checkpoint m (checkpoint_item it success now retryAt)
                 (i_revision it) now supersedeEarlier)) (\<lambda>checkpoint.
       case checkpoint of
         None \<Rightarrow> act_throw (RolloutConflict ''upgrade_rollout_item_conflict'')
       | Some (u, affected) \<Rightarrow>
           act_bind (note_event (Checkpointed u)) (\<lambda>_. add_checkpoints affected))))"

definition succeed :: "world \<Rightarrow> worker_options \<Rightarrow> rollout_item \<Rightarrow> unit act" where
  "succeed wd opts it = checkpoint_deployment wd opts it True True"

definition wait_for_idle :: "world \<Rightarrow> worker_options \<Rightarrow> rollout_item \<Rightarrow> string \<Rightarrow> unit act" where
  "wait_for_idle wd opts it blocker =
     act_bind (next_attempt_at wd opts (i_attemptCount it)) (\<lambda>t.
     act_bind (transition wd it (\<lambda>it. it\<lparr>i_status := IWaitingForIdle, i_blocker := Some blocker,
        i_attemptId := None, i_nextAttemptAt := Some t\<rparr>)) (\<lambda>_. act_ret ()))"

definition defer_first_start :: "world \<Rightarrow> worker_options \<Rightarrow> rollout_item \<Rightarrow> unit act" where
  "defer_first_start wd opts it =
     act_bind (next_attempt_at wd opts (i_attemptCount it)) (\<lambda>t.
     act_bind (clock wd) (\<lambda>now.
     act_bind (transition wd it (\<lambda>it. it\<lparr>i_blocker := Some ''candidate_awaiting_first_healthy_start'',
        i_error := None, i_nextAttemptAt := Some t, i_lastCheckedAt := Some now\<rparr>)) (\<lambda>_. act_ret ())))"

definition capture_snapshot :: "world \<Rightarrow> rollout_item \<Rightarrow> container \<Rightarrow> rollout_item act" where
  "capture_snapshot wd it c =
     (let want = (if i_recovery it then WantRunning
                  else if c_status c = Running \<or> c_status c = Creating then WantRunning else WantStopped)
      in if i_desiredState it = want \<and> i_sourceAppVersionId it = c_appVersionId c
            \<and> i_sourceImageArtifactId it = c_imageArtifactId c
            \<and> i_sourceImageReference it = c_imageReference c
         then act_ret it
         else transition wd it (\<lambda>it. it\<lparr>i_desiredState := want, i_sourceAppVersionId := c_appVersionId c,
                i_sourceImageArtifactId := c_imageArtifactId c, i_sourceImageReference := c_imageReference c\<rparr>))"

section \<open>An attempt\<close>

text \<open>A forced item, or one whose container does not run, needs no assessment.\<close>

definition assess_idle :: "world \<Rightarrow> rollout_item \<Rightarrow> container \<Rightarrow> assessment act" where
  "assess_idle wd it c =
     (if i_forceRequested it \<or> c_status c \<noteq> Running then act_ret \<lparr>as_ready = True, as_reason = None\<rparr>
      else act_bind (call wd (\<lambda>n. wd_assess wd n c it)) (\<lambda>a.
           act_bind (note_event (Assessed it c a)) (\<lambda>_. act_ret a)))"

text \<open>The second half of \<open>#prepareAttempt\<close>, for the container found and the item's new snapshot.\<close>

definition prepare_on ::
  "world \<Rightarrow> worker_options \<Rightarrow> task_kind \<Rightarrow> abort_signal \<Rightarrow> container \<Rightarrow> rollout_item \<Rightarrow> (rollout_item \<times> container) option act" where
  "prepare_on wd opts taskKind sig c it =
     (if taskKind = ImageUpgrade \<and> matches_target c it
      then act_bind (succeed wd opts it) (\<lambda>_. act_ret None)
      else if c_status c = Creating
      then act_bind (wait_for_idle wd opts it ''instance_creating'') (\<lambda>_. act_ret None)
      else act_bind (assess_idle wd it c) (\<lambda>a.
           act_bind (throw_if_aborted sig) (\<lambda>_.
             if \<not> as_ready a
             then act_bind (wait_for_idle wd opts it
                    (case as_reason a of None \<Rightarrow> ''instance_busy'' | Some r \<Rightarrow> r)) (\<lambda>_. act_ret None)
             else act_ret (Some (it, c)))))"

definition prepare_attempt ::
  "world \<Rightarrow> worker_options \<Rightarrow> rollout_item \<Rightarrow> task_kind \<Rightarrow> string \<Rightarrow> abort_signal \<Rightarrow> (rollout_item \<times> container) option act" where
  "prepare_attempt wd opts initial taskKind attemptId sig =
     act_bind (clock wd) (\<lambda>checkedAt.
     act_bind (transition wd initial (\<lambda>it. it\<lparr>i_status := IAssessing, i_blocker := None, i_error := None,
        i_attemptId := Some attemptId, i_nextAttemptAt := None, i_lastCheckedAt := Some checkedAt,
        i_startedAt := Some (case i_startedAt initial of None \<Rightarrow> checkedAt | Some t \<Rightarrow> t)\<rparr>)) (\<lambda>item0.
     act_bind (throw_if_aborted sig) (\<lambda>_.
     act_bind (source_container wd (i_instanceId item0)) (\<lambda>found.
     act_bind (throw_if_aborted sig) (\<lambda>_.
       case found of
         None \<Rightarrow> act_throw (OtherError ''container_not_found'' False)
       | Some c \<Rightarrow> act_bind (capture_snapshot wd item0 c) (prepare_on wd opts taskKind sig c))))))"

text \<open>The result is None when the attempt has been put off.\<close>

definition acquire_admission ::
  "world \<Rightarrow> worker_options \<Rightarrow> rollout_item \<Rightarrow> string \<Rightarrow> abort_signal \<Rightarrow> bool option act" where
  "acquire_admission wd opts it attemptId sig =
     (case wd_begin wd of
        None \<Rightarrow> act_ret (Some False)
      | Some begin \<Rightarrow>
          (let mode = (if i_forceRequested it then Force else Graceful)
           in act_bind (call wd (\<lambda>n. begin n (i_instanceId it) (i_rolloutId it) attemptId mode)) (\<lambda>admitted.
              act_bind (note_event (Began (i_instanceId it) (i_rolloutId it) attemptId mode admitted)) (\<lambda>_.
              act_bind (throw_if_aborted sig) (\<lambda>_.
                if admitted then act_ret (Some True)
                else act_bind (wait_for_idle wd opts it ''active_connection'') (\<lambda>_. act_ret None))))))"

definition confirm_on ::
  "world \<Rightarrow> worker_options \<Rightarrow> rollout_item \<Rightarrow> container \<Rightarrow> abort_signal \<Rightarrow> bool act" where
  "confirm_on wd opts it c sig =
     act_bind (call wd (\<lambda>n. case wd_confirm wd of
        None \<Rightarrow> wd_assess wd n c it | Some confirm \<Rightarrow> confirm n c it)) (\<lambda>a.
     act_bind (note_event (Confirmed it c a)) (\<lambda>_.
     act_bind (throw_if_aborted sig) (\<lambda>_.
       if as_ready a then act_ret True
       else act_bind (wait_for_idle wd opts it
              (case as_reason a of None \<Rightarrow> ''instance_busy_after_drain'' | Some r \<Rightarrow> r)) (\<lambda>_. act_ret False))))"

definition confirm_drain ::
  "world \<Rightarrow> worker_options \<Rightarrow> rollout_item \<Rightarrow> container \<Rightarrow> bool \<Rightarrow> abort_signal \<Rightarrow> bool act" where
  "confirm_drain wd opts it instance drainAcquired sig =
     act_bind (throw_if_aborted sig) (\<lambda>_.
       if \<not> drainAcquired \<or> i_forceRequested it \<or> c_status instance \<noteq> Running then act_ret True
       else act_bind (source_container wd (i_instanceId it)) (\<lambda>found.
            act_bind (throw_if_aborted sig) (\<lambda>_.
              case found of
                None \<Rightarrow> act_throw (OtherError ''container_not_found'' False)
              | Some c \<Rightarrow> confirm_on wd opts it c sig)))"

text \<open>\<open>acceptDeferredCandidate\<close>, where the executor has it, and settling what it supersedes.\<close>

definition accept_candidate :: "world \<Rightarrow> rollout_item \<Rightarrow> abort_signal \<Rightarrow> unit act" where
  "accept_candidate wd it sig =
     (case wd_accept wd of
        None \<Rightarrow> act_ret ()
      | Some accept \<Rightarrow>
          act_bind (call wd (\<lambda>n. accept n it)) (\<lambda>accepted.
          act_bind (throw_if_aborted sig) (\<lambda>_.
            if accepted
            then act_bind (clock wd) (\<lambda>now.
                 act_bind (write_items wd (\<lambda>m. supersede_before m (i_rolloutId it) (i_instanceId it) now)) add_checkpoints)
            else act_ret ())))"

definition verify_on :: "world \<Rightarrow> worker_options \<Rightarrow> rollout_item \<Rightarrow> container option \<Rightarrow> unit act" where
  "verify_on wd opts it found =
     (case found of
        None \<Rightarrow> act_throw (OtherError ''upgrade_verification_failed'' False)
      | Some c \<Rightarrow>
          if \<not> matches_catalog_target c it then act_throw (OtherError ''upgrade_verification_failed'' False)
          else if i_desiredState it = WantStopped \<and> c_status c = Stopped
          then checkpoint_deployment wd opts it False True
          else if \<not> matches_target c it then act_throw (OtherError ''upgrade_verification_failed'' False)
          else succeed wd opts it)"

definition verify_rebuild :: "world \<Rightarrow> worker_options \<Rightarrow> rollout_item \<Rightarrow> abort_signal \<Rightarrow> unit act" where
  "verify_rebuild wd opts it0 sig =
     act_bind (transition wd it0 (\<lambda>it. it\<lparr>i_status := IVerifying\<rparr>)) (\<lambda>it.
     act_bind (source_container wd (i_instanceId it)) (\<lambda>found.
     act_bind (throw_if_aborted sig) (\<lambda>_. verify_on wd opts it found)))"

definition execute_rebuild :: "world \<Rightarrow> worker_options \<Rightarrow> rollout_item \<Rightarrow> string \<Rightarrow> abort_signal \<Rightarrow> unit act" where
  "execute_rebuild wd opts it actorUserId sig =
     act_bind (accept_candidate wd it sig) (\<lambda>_.
     act_bind (note_event (Rebuilt it actorUserId)) (\<lambda>_.
     act_bind (call wd (\<lambda>n. wd_rebuild wd n it actorUserId)) (\<lambda>_.
     act_bind (throw_if_aborted sig) (\<lambda>_. verify_rebuild wd opts it sig))))"

definition rebuild_and_verify :: "world \<Rightarrow> worker_options \<Rightarrow> rollout_item \<Rightarrow> abort_signal \<Rightarrow> unit act" where
  "rebuild_and_verify wd opts drainingItem sig =
     act_bind (transition wd drainingItem (\<lambda>it. it\<lparr>i_status := IRebuilding\<rparr>)) (\<lambda>it.
     act_bind (read_store wd (\<lambda>m. get_rollout m (i_rolloutId it))) (\<lambda>detail.
       case detail of
         None \<Rightarrow> act_throw (RolloutConflict ''upgrade_rollout_not_found'')
       | Some (r, _) \<Rightarrow>
           act_bind (throw_if_aborted sig) (\<lambda>_. execute_rebuild wd opts it (r_actorUserId r) sig)))"

text \<open>What the state of a deferred candidate, as the runtime reports it, means for its item.\<close>

definition first_start_outcome ::
  "world \<Rightarrow> worker_options \<Rightarrow> rollout_item \<Rightarrow> task_kind \<Rightarrow> inspection option \<Rightarrow> container \<Rightarrow> unit act" where
  "first_start_outcome wd opts it taskKind inspected c =
     (case inspected of
        Some TxBroken \<Rightarrow> act_throw (OtherError ''candidate_first_start_inconsistent'' False)
      | Some TxCommitted \<Rightarrow>
          if \<not> matches_catalog_target c it
          then act_throw (OtherError ''candidate_first_start_inconsistent'' False)
          else succeed wd opts it
      | Some TxNotFound \<Rightarrow>
          if \<not> matches_catalog_target c it
          then act_throw (OtherError ''candidate_first_start_rolled_back'' False)
          else if taskKind = ImageUpgrade \<and> c_status c = Running then succeed wd opts it
          else if taskKind = ImageUpgrade \<and> i_desiredState it = WantStopped \<and> c_status c = Stopped
          then defer_first_start wd opts it
          else act_throw (OtherError ''candidate_first_start_proof_missing'' False)
      | Some TxPending \<Rightarrow>
          if \<not> matches_catalog_target c it
          then act_throw (OtherError ''candidate_first_start_inconsistent'' False)
          else defer_first_start wd opts it
      | None \<Rightarrow>
          if \<not> matches_catalog_target c it
          then act_throw (OtherError ''candidate_first_start_rolled_back'' False)
          else if taskKind \<noteq> ImageUpgrade \<or> i_desiredState it \<noteq> WantStopped
          then act_throw (OtherError ''candidate_first_start_proof_missing'' False)
          else if c_status c = Running then succeed wd opts it
          else if c_status c \<noteq> Stopped
          then act_throw (OtherError ''candidate_first_start_unhealthy'' False)
          else defer_first_start wd opts it)"

definition reconcile_first_start ::
  "world \<Rightarrow> worker_options \<Rightarrow> rollout_item \<Rightarrow> task_kind \<Rightarrow> abort_signal \<Rightarrow> unit act" where
  "reconcile_first_start wd opts it taskKind sig =
     act_bind (throw_if_aborted sig) (\<lambda>_.
     act_bind (case wd_inspect wd of None \<Rightarrow> act_ret None | Some inspect \<Rightarrow> call wd (\<lambda>n. inspect n it)) (\<lambda>inspected.
     act_bind (note_event (Inspected it inspected)) (\<lambda>_.
     act_bind (throw_if_aborted sig) (\<lambda>_.
     act_bind (source_container wd (i_instanceId it)) (\<lambda>found.
     act_bind (throw_if_aborted sig) (\<lambda>_.
       case found of
         None \<Rightarrow> act_throw (OtherError ''container_not_found'' False)
       | Some c \<Rightarrow> first_start_outcome wd opts it taskKind inspected c))))))"

section \<open>Failures\<close>

text \<open>A field that is a text, sanitized, or null: \<open>value ? sanitize(value) : null\<close>.\<close>

definition sanitized_field :: "world \<Rightarrow> string option \<Rightarrow> nat \<Rightarrow> js_val" where
  "sanitized_field wd v maximum = (if js_truthy v then JStr (wd_sanitize wd (the v) maximum) else JNull)"

definition diagnostics_of :: "world \<Rightarrow> instant \<Rightarrow> string \<Rightarrow> failure_diagnostics \<Rightarrow> js_val" where
  "diagnostics_of wd capturedAt message d = JObj
     [(''capturedAt'', JInt capturedAt), (''error'', JStr (wd_sanitize wd message 2000)),
      (''capabilityStatus'', JStr ''supported''), (''containerRole'', JStr (fd_containerRole d)),
      (''exitCode'', (case fd_exitCode d of None \<Rightarrow> JNull | Some n \<Rightarrow> JInt n)),
      (''oomKilled'', (case fd_oomKilled d of None \<Rightarrow> JNull | Some b \<Rightarrow> JBool b)),
      (''health'', sanitized_field wd (fd_health d) 120),
      (''memoryLimit'', sanitized_field wd (fd_memoryLimit d) 120),
      (''memorySwapLimit'', sanitized_field wd (fd_memorySwapLimit d) 120),
      (''cpus'', sanitized_field wd (fd_cpus d) 120),
      (''pidsLimit'', (case fd_pidsLimit d of None \<Rightarrow> JNull | Some n \<Rightarrow> JInt n)),
      (''logTail'', sanitized_field wd (fd_logTail d) 16000)]"

definition diagnostics_unsupported :: "world \<Rightarrow> instant \<Rightarrow> string \<Rightarrow> js_val" where
  "diagnostics_unsupported wd capturedAt message = JObj
     [(''capturedAt'', JInt capturedAt), (''error'', JStr (wd_sanitize wd message 2000)),
      (''capabilityStatus'', JStr ''unsupported'')]"

definition diagnostics_unavailable :: "world \<Rightarrow> instant \<Rightarrow> string \<Rightarrow> rollout_error \<Rightarrow> js_val" where
  "diagnostics_unavailable wd capturedAt message e = JObj
     [(''capturedAt'', JInt capturedAt), (''error'', JStr (wd_sanitize wd message 2000)),
      (''capabilityStatus'', JStr ''unavailable''),
      (''logTail'', JStr (wd_sanitize wd (''diagnostics_unavailable: '' @ error_message wd e) 2000))]"

text \<open>
  The diagnostics of a failed recovery. The outer option is None when the handler returns
  because the signal is aborted.
\<close>

definition capture_diagnostics ::
  "world \<Rightarrow> rollout_item \<Rightarrow> string \<Rightarrow> abort_signal \<Rightarrow> js_val option option act" where
  "capture_diagnostics wd it message sig =
     (case wd_diagnose wd of
        None \<Rightarrow> act_ret (Some None)
      | Some diagnose \<Rightarrow>
          if \<not> i_recovery it then act_ret (Some None)
          else act_try
            (act_bind (call wd (\<lambda>n. diagnose n it)) (\<lambda>result.
               case result of
                 Unsupported \<Rightarrow> act_bind (clock wd) (\<lambda>t. act_ret (Some (Some (diagnostics_unsupported wd t message))))
               | Unavailable e \<Rightarrow> act_throw e
               | Supported d \<Rightarrow> act_bind (clock wd) (\<lambda>t. act_ret (Some (Some (diagnostics_of wd t message d))))))
            (\<lambda>e. act_bind (is_aborted sig) (\<lambda>aborted.
               if aborted then act_ret None
               else act_bind (clock wd) (\<lambda>t. act_ret (Some (Some (diagnostics_unavailable wd t message e)))))))"

definition permanent_failure :: "rollout_error \<Rightarrow> string \<Rightarrow> bool" where
  "permanent_failure e message \<longleftrightarrow>
     (case e of OtherError _ requiresAttention \<Rightarrow> requiresAttention | _ \<Rightarrow> False)
     \<or> message = ''container_not_found'' \<or> message = ''app_version_not_ready''
     \<or> message = ''upgrade_rollout_attempt_missing''
     \<or> message = ''candidate_first_start_inconsistent''
     \<or> message = ''candidate_first_start_proof_missing''"

definition attempt_limit :: "worker_options \<Rightarrow> rollout_item \<Rightarrow> nat" where
  "attempt_limit opts it = (if i_recovery it then 3 else wo_maxAttempts opts)"

text \<open>A write whose conflict is ignored: \<open>.catch(...)\<close> on the transition.\<close>

definition ignoring_conflict :: "rollout_item act \<Rightarrow> unit act" where
  "ignoring_conflict a = act_try (act_bind a (\<lambda>_. act_ret ()))
     (\<lambda>e. case e of RolloutConflict _ \<Rightarrow> act_ret () | _ \<Rightarrow> act_throw e)"

definition handle_failure ::
  "world \<Rightarrow> worker_options \<Rightarrow> rollout_item \<Rightarrow> rollout_error \<Rightarrow> abort_signal \<Rightarrow> unit act" where
  "handle_failure wd opts it e sig =
     (let message = error_message wd e;
          failureCount = i_attemptCount it + 1;
          permanent = permanent_failure e message
      in act_bind (capture_diagnostics wd it message sig) (\<lambda>captured.
           case captured of
             None \<Rightarrow> act_ret ()
           | Some diagnostics \<Rightarrow>
               if permanent \<or> failureCount \<ge> attempt_limit opts it
               then act_bind (clock wd) (\<lambda>now. ignoring_conflict (transition wd it (\<lambda>it. it\<lparr>
                      i_status := (if permanent \<or> i_recovery it then INeedsAttention else IFailed),
                      i_error := Some message,
                      i_blocker := Some (if permanent then message else ''retry_limit_reached''),
                      i_attemptId := None, i_attemptCount := failureCount, i_nextAttemptAt := None,
                      i_finishedAt := Some now, i_diagnostics := diagnostics\<rparr>)))
               else act_bind (next_attempt_at wd opts failureCount) (\<lambda>t. ignoring_conflict (transition wd it (\<lambda>it. it\<lparr>
                      i_status := IQueued, i_error := Some message, i_blocker := Some ''retry_scheduled'',
                      i_attemptId := None, i_attemptCount := failureCount, i_nextAttemptAt := Some t,
                      i_diagnostics := diagnostics\<rparr>)))))"

section \<open>Processing an item\<close>

text \<open>
  The body of the \<open>try\<close> up to the drain: None when the item needs no further work, otherwise
  the prepared item, its container and whether a drain has been acquired.
\<close>

definition prepare_and_drain ::
  "world \<Rightarrow> worker_options \<Rightarrow> rollout_item \<Rightarrow> task_kind \<Rightarrow> string \<Rightarrow> abort_signal \<Rightarrow> (rollout_item \<times> container \<times> bool) option act" where
  "prepare_and_drain wd opts initial taskKind attemptId sig =
     act_bind (prepare_attempt wd opts initial taskKind attemptId sig) (\<lambda>prepared.
       case prepared of
         None \<Rightarrow> act_ret None
       | Some (it, c) \<Rightarrow>
           act_bind (acquire_admission wd opts it attemptId sig) (\<lambda>admission.
             case admission of
               None \<Rightarrow> act_ret None
             | Some drainAcquired \<Rightarrow> act_ret (Some (it, c, drainAcquired))))"

definition attempt_until_drain ::
  "world \<Rightarrow> worker_options \<Rightarrow> rollout_item \<Rightarrow> string option \<Rightarrow> abort_signal \<Rightarrow> (rollout_item \<times> container \<times> bool) option act" where
  "attempt_until_drain wd opts initial attemptId sig =
     act_bind (throw_if_aborted sig) (\<lambda>_.
       if \<not> js_truthy attemptId then act_throw (OtherError ''upgrade_rollout_attempt_missing'' False)
       else act_bind (read_store wd (\<lambda>m. get_rollout m (i_rolloutId initial))) (\<lambda>detail.
         case detail of
           None \<Rightarrow> act_throw (RolloutConflict ''upgrade_rollout_not_found'')
         | Some (r, _) \<Rightarrow>
             if i_status initial = IAwaitingFirstStart
             then act_bind (reconcile_first_start wd opts initial (r_taskKind r) sig) (\<lambda>_. act_ret None)
             else prepare_and_drain wd opts initial (r_taskKind r) (the attemptId) sig))"

definition attempt_from_drain ::
  "world \<Rightarrow> worker_options \<Rightarrow> rollout_item \<Rightarrow> container \<Rightarrow> bool \<Rightarrow> abort_signal \<Rightarrow> unit act" where
  "attempt_from_drain wd opts it c drainAcquired sig =
     act_bind (transition wd it (\<lambda>it. it\<lparr>i_status := IDraining, i_blocker := None\<rparr>)) (\<lambda>draining.
     act_bind (confirm_drain wd opts draining c drainAcquired sig) (\<lambda>confirmed.
       if confirmed then rebuild_and_verify wd opts draining sig else act_ret ()))"

definition attempt_failed ::
  "world \<Rightarrow> worker_options \<Rightarrow> rollout_item \<Rightarrow> abort_signal \<Rightarrow> rollout_error \<Rightarrow> unit act" where
  "attempt_failed wd opts initial sig e =
     act_bind (is_aborted sig) (\<lambda>aborted.
       if aborted \<or> (case e of RolloutConflict _ \<Rightarrow> True | _ \<Rightarrow> False) then act_ret ()
       else act_bind (read_store wd (\<lambda>m. get_rollout m (i_rolloutId initial))) (\<lambda>detail.
         case detail_item detail (i_instanceId initial) of
           None \<Rightarrow> act_ret ()
         | Some current \<Rightarrow>
             if terminal_item (i_status current) then act_ret ()
             else handle_failure wd opts current e sig))"

definition release_drain :: "world \<Rightarrow> rollout_item \<Rightarrow> string option \<Rightarrow> bool \<Rightarrow> abort_signal \<Rightarrow> unit act" where
  "release_drain wd initial attemptId drainAcquired sig =
     act_bind (is_aborted sig) (\<lambda>aborted.
       if drainAcquired \<and> js_truthy attemptId \<and> \<not> aborted
       then act_bind (note_event (Cleared (i_instanceId initial) (i_rolloutId initial) (the attemptId))) (\<lambda>_.
            call wd (\<lambda>n. wd_clear wd n (i_instanceId initial) (i_rolloutId initial) (the attemptId)))
       else act_ret ())"

definition run_attempt :: "world \<Rightarrow> worker_options \<Rightarrow> rollout_item \<Rightarrow> string option \<Rightarrow> abort_signal \<Rightarrow> unit act" where
  "run_attempt wd opts initial attemptId sig =
     act_case (attempt_until_drain wd opts initial attemptId sig)
       (attempt_failed wd opts initial sig)
       (\<lambda>prepared. case prepared of
           None \<Rightarrow> act_ret ()
         | Some (it, c, drainAcquired) \<Rightarrow>
             act_finally
               (act_try (attempt_from_drain wd opts it c drainAcquired sig)
                  (attempt_failed wd opts initial sig))
               (release_drain wd initial attemptId drainAcquired sig))"

definition process_item :: "world \<Rightarrow> worker_options \<Rightarrow> rollout_item \<Rightarrow> abort_signal \<Rightarrow> unit act" where
  "process_item wd opts listed sig =
     act_bind (read_store wd (\<lambda>m. get_rollout m (i_rolloutId listed))) (\<lambda>detail.
       case detail_item detail (i_instanceId listed) of
         None \<Rightarrow> act_ret ()
       | Some initial \<Rightarrow>
           if i_revision initial \<noteq> i_revision listed \<or> terminal_item (i_status initial) then act_ret ()
           else act_bind (if i_status initial = IAwaitingFirstStart then act_ret (i_attemptId initial)
                          else act_bind (fresh_id wd) (\<lambda>x. act_ret (Some x)))
                  (\<lambda>attemptId. run_attempt wd opts initial attemptId sig))"

section \<open>A run of the worker\<close>

definition with_item_lease :: "world \<Rightarrow> 'a act \<Rightarrow> 'a option act" where
  "with_item_lease wd a =
     act_bind (wait wd) (\<lambda>n. if wd_item_lease wd n then act_bind a (\<lambda>x. act_ret (Some x)) else act_ret None)"

text \<open>One item whose proof of a first start was lost: the result tells whether it is dealt with.\<close>

definition revalidate_proof :: "world \<Rightarrow> worker_options \<Rightarrow> rollout_item \<Rightarrow> container \<Rightarrow> bool act" where
  "revalidate_proof wd opts latest c =
     (if \<not> matches_catalog_target c latest then act_ret True
      else if c_status c = Running then act_bind (succeed wd opts latest) (\<lambda>_. act_ret True)
      else if i_desiredState latest \<noteq> WantStopped \<or> c_status c \<noteq> Stopped then act_ret True
      else act_bind (clock wd) (\<lambda>now.
           act_bind (fresh_id wd) (\<lambda>attemptId.
           act_bind (transition wd latest (first_start_patch now attemptId)) (\<lambda>_.
           act_bind (add_checkpoints [i_rolloutId latest]) (\<lambda>_. act_ret True)))))"

definition proof_conflict :: "world \<Rightarrow> rollout_item \<Rightarrow> rollout_error \<Rightarrow> bool act" where
  "proof_conflict wd candidate e =
     (case e of
        RolloutConflict _ \<Rightarrow>
          act_bind (read_store wd (\<lambda>m. get_rollout m (i_rolloutId candidate))) (\<lambda>detail.
            act_ret (case detail_item detail (i_instanceId candidate) of
               None \<Rightarrow> True
             | Some current \<Rightarrow> \<not> proof_missing current))
      | _ \<Rightarrow> act_throw e)"

definition reconcile_proof :: "world \<Rightarrow> worker_options \<Rightarrow> rollout_item \<Rightarrow> bool act" where
  "reconcile_proof wd opts candidate =
     act_bind (throw_if_aborted (item_signal wd)) (\<lambda>_.
     act_bind (read_store wd (\<lambda>m. get_rollout m (i_rolloutId candidate))) (\<lambda>detail.
       case detail_item detail (i_instanceId candidate) of
         None \<Rightarrow> act_ret True
       | Some latest \<Rightarrow>
           if \<not> proof_missing latest then act_ret True
           else if i_revision latest \<noteq> i_revision candidate then act_ret False
           else act_try
             (act_bind (source_container wd (i_instanceId candidate)) (\<lambda>found.
              act_bind (throw_if_aborted (item_signal wd)) (\<lambda>_.
                case found of
                  None \<Rightarrow> act_ret True
                | Some c \<Rightarrow> revalidate_proof wd opts latest c)))
             (proof_conflict wd candidate)))"

fun reconcile_proofs :: "world \<Rightarrow> worker_options \<Rightarrow> rollout_item list \<Rightarrow> bool act" where
  "reconcile_proofs wd opts [] = act_ret True"
| "reconcile_proofs wd opts (candidate # rest) =
     act_bind (throw_if_aborted (wd_worker_lost wd)) (\<lambda>_.
     act_bind (with_item_lease wd (reconcile_proof wd opts candidate)) (\<lambda>reconciled.
     act_bind (reconcile_proofs wd opts rest) (\<lambda>complete.
       act_ret (reconciled = Some True \<and> complete))))"

definition reconcile_legacy_proofs :: "world \<Rightarrow> worker_options \<Rightarrow> unit act" where
  "reconcile_legacy_proofs wd opts =
     act_bind get_wk (\<lambda>s.
       if k_proofsReconciled s then act_ret ()
       else act_bind (read_store wd list_legacy_proof_items) (\<lambda>candidates.
            act_bind (reconcile_proofs wd opts candidates) (\<lambda>complete s.
              (s\<lparr>k_proofsReconciled := complete\<rparr>, Inr ()))))"

definition refresh_rollout :: "world \<Rightarrow> string \<Rightarrow> unit act" where
  "refresh_rollout wd i = act_bind (refresh_summary wd i) (\<lambda>_. act_ret ())"

definition process_listed :: "world \<Rightarrow> worker_options \<Rightarrow> rollout_item \<Rightarrow> unit act" where
  "process_listed wd opts it =
     act_bind (throw_if_aborted (wd_worker_lost wd)) (\<lambda>_.
     act_bind (with_item_lease wd (process_item wd opts it (item_signal wd))) (\<lambda>_. act_ret ()))"

text \<open>The batches touched by a run, in the order of the code's set: first occurrences.\<close>

definition touched_rollouts :: "rollout_item list \<Rightarrow> string list \<Rightarrow> string list" where
  "touched_rollouts items checkpoints = rev (remdups (rev (map i_rolloutId items @ checkpoints)))"

definition run_claimed :: "world \<Rightarrow> worker_options \<Rightarrow> bool act" where
  "run_claimed wd opts =
     act_bind (throw_if_aborted (wd_worker_lost wd)) (\<lambda>_.
     act_bind (\<lambda>s. (s\<lparr>k_checkpoints := []\<rparr>, Inr ())) (\<lambda>_.
     act_bind (clock wd) (\<lambda>now.
     act_bind (write_items wd (\<lambda>m. recover_items m (now - interrupted_attempt_grace_ms) now)) (\<lambda>_.
     act_bind (read_store wd (\<lambda>m. list_rollouts m (Finite 500))) (\<lambda>rollouts.
     act_bind (reconcile_legacy_proofs wd opts) (\<lambda>_.
     act_bind (act_each (\<lambda>r. refresh_rollout wd (r_id r)) rollouts) (\<lambda>_.
     act_bind (read_store wd (\<lambda>m. list_due_items (wd_arrange wd) m now (Finite (of_int (wo_batchSize opts))))) (\<lambda>items.
     act_bind (act_each (process_listed wd opts) items) (\<lambda>_.
     act_bind (throw_if_aborted (wd_worker_lost wd)) (\<lambda>_.
     act_bind get_wk (\<lambda>s.
     act_bind (act_each (refresh_rollout wd) (touched_rollouts items (k_checkpoints s))) (\<lambda>_.
       act_ret (items \<noteq> [])))))))))))))"

definition run_once :: "world \<Rightarrow> worker_options \<Rightarrow> bool act" where
  "run_once wd opts =
     act_bind (wait wd) (\<lambda>n. if wd_lease wd n then run_claimed wd opts else act_ret False)"

end
