(* ===== verification/Rollout_Rules.thy ===== *)
theory Rollout_Rules
  imports Rollout_Worker
begin

text \<open>
  The rules an upgrade worker has to keep, as a specification of its log: the state machine of
  upgrade items with their retry budget, and the guards of a rebuild and of a checkpoint. And a
  calculus, \<open>ok\<close>, for actions that keep them under interference: others may move items under
  new revisions (rely), the worker only along the state machine (guarantee).
\<close>

section \<open>The state machine of upgrade items\<close>

definition failure_status :: "item_status \<Rightarrow> bool" where
  "failure_status st \<longleftrightarrow> st = IQueued \<or> st = IFailed \<or> st = INeedsAttention"

text \<open>The statuses a worker may give to an item, by the status it finds.\<close>

definition status_step :: "rollout_item \<Rightarrow> item_status \<Rightarrow> bool" where
  "status_step a st =
     (case i_status a of
        IQueued \<Rightarrow> st = IAssessing \<or> failure_status st
      | IWaitingForIdle \<Rightarrow> st = IAssessing \<or> failure_status st
      | IAssessing \<Rightarrow> st = IAssessing \<or> st = IWaitingForIdle \<or> st = IDraining \<or> st = ISucceeded \<or> failure_status st
      | IDraining \<Rightarrow> st = IRebuilding \<or> st = IWaitingForIdle \<or> failure_status st
      | IRebuilding \<Rightarrow> st = IVerifying \<or> st = IAwaitingFirstStart \<or> failure_status st
      | IVerifying \<Rightarrow> st = IAwaitingFirstStart \<or> st = ISucceeded \<or> failure_status st
      | IAwaitingFirstStart \<Rightarrow> st = IAwaitingFirstStart \<or> st = ISucceeded \<or> st = ISuperseded \<or> failure_status st
      | INeedsAttention \<Rightarrow> proof_missing a \<and> (st = ISucceeded \<or> st = IAwaitingFirstStart \<or> st = ISuperseded)
      | _ \<Rightarrow> False)"

text \<open>
  The retry budget. An item is queued again, failed or handed to an administrator only in two
  ways: an attempt has failed, which is counted, with its error kept, so that an item that is
  queued again has attempts left, and one that is failed has used them all; or an attempt was
  interrupted and its item is queued again uncounted. No other step changes the count, except
  that a lost proof of a first start, once it is asked for again, starts a new budget.
\<close>

definition failed_attempt :: "worker_options \<Rightarrow> rollout_item \<Rightarrow> rollout_item \<Rightarrow> bool" where
  "failed_attempt opts a b \<longleftrightarrow>
     i_attemptCount b = Suc (i_attemptCount a) \<and> i_error b \<noteq> None
     \<and> (i_status b = IQueued \<longrightarrow> i_attemptCount b < attempt_limit opts a)
     \<and> (i_status b = IFailed \<longrightarrow> attempt_limit opts a \<le> i_attemptCount b \<and> \<not> i_recovery a)"

definition interrupted_attempt :: "rollout_item \<Rightarrow> rollout_item \<Rightarrow> bool" where
  "interrupted_attempt a b \<longleftrightarrow>
     in_transition a \<and> i_status b = IQueued \<and> i_attemptCount b = i_attemptCount a
     \<and> i_blocker b = Some ''portal_restarted'' \<and> i_error b = None"

definition budget_step :: "worker_options \<Rightarrow> rollout_item \<Rightarrow> rollout_item \<Rightarrow> bool" where
  "budget_step opts a b \<longleftrightarrow>
     (if failure_status (i_status b) then failed_attempt opts a b \<or> interrupted_attempt a b
      else i_attemptCount b = i_attemptCount a
        \<or> (proof_missing a \<and> i_attemptCount b = 0 \<and> i_status b = IAwaitingFirstStart))"

definition item_step :: "worker_options \<Rightarrow> rollout_item \<Rightarrow> rollout_item \<Rightarrow> bool" where
  "item_step opts a b \<longleftrightarrow>
     item_target b = item_target a \<and> i_revision b = Suc (i_revision a)
     \<and> status_step a (i_status b) \<and> budget_step opts a b"

definition items_step :: "worker_options \<Rightarrow> mem \<Rightarrow> mem \<Rightarrow> bool" where
  "items_step opts m m' \<longleftrightarrow>
     (\<forall>k a. js_get (m_upgradeRolloutItems m) k = Some a \<longrightarrow>
        (\<exists>b. js_get (m_upgradeRolloutItems m') k = Some b \<and> (b = a \<or> item_step opts a b)))"

section \<open>Guards of the actions\<close>

definition assessed_ready :: "event list \<Rightarrow> rollout_item \<Rightarrow> bool" where
  "assessed_ready l it \<longleftrightarrow> (\<exists>it' c a. Assessed it' c a \<in> set l \<and> as_ready a
     \<and> i_attemptId it' = i_attemptId it \<and> item_target it' = item_target it)"

definition confirmed_ready :: "event list \<Rightarrow> rollout_item \<Rightarrow> bool" where
  "confirmed_ready l it \<longleftrightarrow> (\<exists>it' c a. Confirmed it' c a \<in> set l \<and> as_ready a
     \<and> i_attemptId it' = i_attemptId it \<and> item_target it' = item_target it)"

definition seen_not_running :: "event list \<Rightarrow> rollout_item \<Rightarrow> bool" where
  "seen_not_running l it \<longleftrightarrow> (\<exists>c. Seen (i_instanceId it) c \<in> set l \<and> c_status c \<noteq> Running)"

text \<open>
  The log \<open>l\<close> (newest first) allows the rebuild of \<open>it\<close>: with an admission, a drain for this
  attempt was granted; unless forced or not running, the instance was found idle before the
  drain and confirmed idle after it.
\<close>

definition drained :: "event list \<Rightarrow> rollout_item \<Rightarrow> (event list \<Rightarrow> event list \<Rightarrow> bool) \<Rightarrow> bool" where
  "drained l it P \<longleftrightarrow>
     (\<exists>xs zs. l = xs @ Began (i_instanceId it) (i_rolloutId it) (the (i_attemptId it))
        (if i_forceRequested it then Force else Graceful) True # zs \<and> P xs zs)"

definition rebuild_guard :: "world \<Rightarrow> event list \<Rightarrow> rollout_item \<Rightarrow> bool" where
  "rebuild_guard wd l it \<longleftrightarrow> js_truthy (i_attemptId it)
     \<and> (if wd_begin wd = None
        then i_forceRequested it \<or> seen_not_running l it \<or> assessed_ready l it
        else drained l it (\<lambda>xs zs. i_forceRequested it \<or> seen_not_running zs it
               \<or> (assessed_ready zs it \<and> confirmed_ready xs it)))"

lemma drained_append:
  assumes "drained l it P" "\<And>xs zs. P xs zs \<Longrightarrow> Q (l' @ xs) zs"
  shows "drained (l' @ l) it Q"
proof -
  from assms(1) obtain xs zs where "l = xs @ Began (i_instanceId it) (i_rolloutId it) (the (i_attemptId it))
        (if i_forceRequested it then Force else Graceful) True # zs" "P xs zs" unfolding drained_def by blast
  then have "l' @ l = (l' @ xs) @ Began (i_instanceId it) (i_rolloutId it) (the (i_attemptId it))
        (if i_forceRequested it then Force else Graceful) True # zs \<and> Q (l' @ xs) zs" using assms(2) by simp
  then show ?thesis unfolding drained_def by blast
qed

definition rebuild_allowed :: "world \<Rightarrow> event list \<Rightarrow> rollout_item \<Rightarrow> bool" where
  "rebuild_allowed wd l it \<longleftrightarrow> i_status it = IRebuilding \<and> rebuild_guard wd l it"

text \<open>
  A checkpoint rests on a container seen with the target's version, artifact and image; a
  success moreover on its desired status, on a committed transaction, or on its running.
\<close>

definition checkpoint_allowed :: "event list \<Rightarrow> rollout_item \<Rightarrow> bool" where
  "checkpoint_allowed l it \<longleftrightarrow>
     (\<exists>c. Seen (i_instanceId it) c \<in> set l \<and> matches_catalog_target c it
        \<and> (i_status it = ISucceeded \<longrightarrow> matches_target c it \<or> c_status c = Running
             \<or> (\<exists>it'. Inspected it' (Some TxCommitted) \<in> set l \<and> item_target it' = item_target it)))"

fun event_ok :: "world \<Rightarrow> worker_options \<Rightarrow> event list \<Rightarrow> event \<Rightarrow> bool" where
  "event_ok wd opts l (Wrote m m') = items_step opts m m'"
| "event_ok wd opts l (Rebuilt it _) = rebuild_allowed wd l it"
| "event_ok wd opts l (Checkpointed it) = checkpoint_allowed l it"
| "event_ok wd opts l _ = True"

fun log_ok :: "world \<Rightarrow> worker_options \<Rightarrow> event list \<Rightarrow> bool" where
  "log_ok wd opts [] = True"
| "log_ok wd opts (e # l) = (event_ok wd opts l e \<and> log_ok wd opts l)"

lemma log_ok_append: "log_ok wd opts (l @ e # l') \<Longrightarrow> event_ok wd opts l' e"
  by (induction l) auto

section \<open>Rely and guarantee\<close>

text \<open>What others may do: keep the invariant of the store, and move items under new revisions.\<close>

definition world_ok :: "world \<Rightarrow> bool" where
  "world_ok wd \<longleftrightarrow>
     (\<forall>n m. rollouts_inv m \<longrightarrow> rollouts_inv (wd_env wd n m) \<and> items_move m (wd_env wd n m))
     \<and> (\<forall>xs. set (wd_arrange wd xs) \<subseteq> set xs)"

definition good :: "world \<Rightarrow> worker_options \<Rightarrow> wk \<Rightarrow> bool" where
  "good wd opts s \<longleftrightarrow> rollouts_inv (k_mem s) \<and> log_ok wd opts (k_log s)"

definition grows :: "wk \<Rightarrow> wk \<Rightarrow> bool" where
  "grows s s' \<longleftrightarrow> items_move (k_mem s) (k_mem s') \<and> (\<exists>l. k_log s' = l @ k_log s)"

lemma grows_refl [simp]: "grows s s"
  by (simp add: grows_def)

lemma grows_trans: "grows s s' \<Longrightarrow> grows s' s'' \<Longrightarrow> grows s s''"
  unfolding grows_def using items_move_trans by (metis append.assoc)

lemma grows_log: "grows s s' \<Longrightarrow> e \<in> set (k_log s) \<Longrightarrow> e \<in> set (k_log s')"
  by (auto simp: grows_def)

text \<open>The snapshot \<open>it\<close> of an item is its stored row, or the row has moved on since.\<close>

definition known :: "mem \<Rightarrow> rollout_item \<Rightarrow> bool" where
  "known m it \<longleftrightarrow> (\<exists>b. js_get (m_upgradeRolloutItems m) (item_key it) = Some b \<and> item_moves it b)"

lemma known_move: "known m it \<Longrightarrow> items_move m m' \<Longrightarrow> known m' it"
  unfolding known_def items_move_def using item_moves_trans by blast

lemma known_grows: "grows s s' \<Longrightarrow> known (k_mem s) it \<Longrightarrow> known (k_mem s') it"
  using known_move by (auto simp: grows_def)

lemma known_row: "js_get (m_upgradeRolloutItems m) (item_key it) = Some it \<Longrightarrow> known m it"
  by (simp add: known_def)

lemma known_current:
  "known m it \<Longrightarrow> js_get (m_upgradeRolloutItems m) (item_key it) = Some c \<Longrightarrow> i_revision c = i_revision it \<Longrightarrow> c = it"
  by (auto simp: known_def item_moves_def)

text \<open>\<open>ok wd opts a Q s\<close>: from \<open>s\<close> the action keeps to the rules, and returns with \<open>Q\<close>.\<close>

definition ok :: "world \<Rightarrow> worker_options \<Rightarrow> 'a act \<Rightarrow> ('a \<Rightarrow> wk \<Rightarrow> bool) \<Rightarrow> wk \<Rightarrow> bool" where
  "ok wd opts a Q s \<longleftrightarrow> after a (\<lambda>x s'. good wd opts s' \<and> grows s s' \<and> Q x s') (\<lambda>e s'. good wd opts s' \<and> grows s s') s"

lemma ok_ret: "good wd opts s \<Longrightarrow> Q x s \<Longrightarrow> ok wd opts (act_ret x) Q s"
  by (simp add: ok_def)

lemma ok_throw: "good wd opts s \<Longrightarrow> ok wd opts (act_throw e) Q s"
  by (simp add: ok_def)

lemma ok_case:
  assumes "ok wd opts a Q s"
    and "\<And>e s'. good wd opts s' \<Longrightarrow> grows s s' \<Longrightarrow> ok wd opts (h e) R s'"
    and "\<And>x s'. good wd opts s' \<Longrightarrow> grows s s' \<Longrightarrow> Q x s' \<Longrightarrow> ok wd opts (f x) R s'"
  shows "ok wd opts (act_case a h f) R s"
proof -
  have "after a (\<lambda>x. after (f x) (\<lambda>x s'. good wd opts s' \<and> grows s s' \<and> R x s') (\<lambda>e s'. good wd opts s' \<and> grows s s'))
      (\<lambda>e. after (h e) (\<lambda>x s'. good wd opts s' \<and> grows s s' \<and> R x s') (\<lambda>e s'. good wd opts s' \<and> grows s s')) s"
    by (rule after_mono [OF assms(1) [unfolded ok_def]])
      (use assms(2,3) grows_trans in \<open>(fastforce simp: ok_def elim!: after_mono)+\<close>)
  then show ?thesis by (simp add: ok_def)
qed

lemma ok_bind:
  assumes "ok wd opts a Q s"
    and "\<And>x s'. good wd opts s' \<Longrightarrow> grows s s' \<Longrightarrow> Q x s' \<Longrightarrow> ok wd opts (f x) R s'"
  shows "ok wd opts (act_bind a f) R s"
  unfolding act_bind_def by (rule ok_case [OF assms(1) _ assms(2)]) (auto intro: ok_throw)

lemma ok_try:
  assumes "ok wd opts a Q s" "\<And>e s'. good wd opts s' \<Longrightarrow> grows s s' \<Longrightarrow> ok wd opts (h e) Q s'"
  shows "ok wd opts (act_try a h) Q s"
  unfolding act_try_def by (rule ok_case [OF assms]) (auto intro: ok_ret)

lemma ok_finally:
  assumes "ok wd opts a (\<lambda>_ _. True) s"
    and "\<And>s'. good wd opts s' \<Longrightarrow> grows s s' \<Longrightarrow> ok wd opts f (\<lambda>_ _. True) s'"
  shows "ok wd opts (act_finally a f) (\<lambda>_ _. True) s"
  unfolding act_finally_def
  by (rule ok_case [OF assms(1)]; rule ok_bind [OF assms(2)]) (auto intro: ok_ret ok_throw)

lemma ok_mono: "ok wd opts a Q s \<Longrightarrow> (\<And>x s'. good wd opts s' \<Longrightarrow> grows s s' \<Longrightarrow> Q x s' \<Longrightarrow> R x s') \<Longrightarrow> ok wd opts a R s"
  unfolding ok_def by (erule after_mono) auto

lemma ok_any: "ok wd opts a Q s \<Longrightarrow> ok wd opts a (\<lambda>_ _. True) s"
  by (erule ok_mono) simp

section \<open>The effects keep to the rules\<close>

lemma wait_good:
  assumes "world_ok wd" "good wd opts s"
  defines "s' \<equiv> s\<lparr>k_mem := wd_env wd (k_step s) (k_mem s), k_step := Suc (k_step s)\<rparr>"
  shows "good wd opts s' \<and> grows s s'"
  using assms by (auto simp: good_def grows_def world_ok_def)

lemma ok_clock: "good wd opts s \<Longrightarrow> ok wd opts (clock wd) (\<lambda>_ _. True) s"
  by (simp add: ok_def good_def grows_def)

lemma ok_next_attempt: "good wd opts s \<Longrightarrow> ok wd opts (next_attempt_at wd opts n) (\<lambda>_ _. True) s"
  by (simp add: ok_def next_attempt_at_def good_def grows_def)

lemma ok_fresh_id: "good wd opts s \<Longrightarrow> ok wd opts (fresh_id wd) (\<lambda>_ _. True) s"
  by (simp add: ok_def good_def grows_def)

lemma ok_is_aborted: "good wd opts s \<Longrightarrow> ok wd opts (is_aborted sig) (\<lambda>b s'. s' = s) s"
  by (simp add: ok_def)

lemma ok_abort_check: "good wd opts s \<Longrightarrow> ok wd opts (throw_if_aborted sig) (\<lambda>_ s'. s' = s) s"
  by (simp add: ok_def)

lemma ok_get: "good wd opts s \<Longrightarrow> ok wd opts get_wk (\<lambda>x s'. s' = s) s"
  by (simp add: ok_def)

lemma ok_note:
  "good wd opts s \<Longrightarrow> event_ok wd opts (k_log s) e \<Longrightarrow>
   ok wd opts (note_event e) (\<lambda>_ s'. k_mem s' = k_mem s \<and> k_log s' = e # k_log s) s"
  by (simp add: ok_def good_def grows_def)

lemma ok_add_checkpoints: "good wd opts s \<Longrightarrow> ok wd opts (add_checkpoints ids) (\<lambda>_ _. True) s"
  by (simp add: ok_def good_def grows_def)

lemma ok_of: "good wd opts s \<Longrightarrow> ok wd opts (act_of r) (\<lambda>_ _. True) s"
  by (simp add: ok_def split: sum.split)

lemma ok_read:
  assumes "world_ok wd" "good wd opts s"
  shows "ok wd opts (read_store wd f) (\<lambda>x s'. x = f (k_mem s')) s"
  using wait_good [OF assms] by (simp add: ok_def read_store_def after_wait after_def [of "\<lambda>s. (s, Inr (f (k_mem s)))"])

lemma ok_call:
  assumes "world_ok wd" "good wd opts s"
  shows "ok wd opts (call wd f) (\<lambda>_ _. True) s"
  using wait_good [OF assms] by (simp add: ok_def call_def after_wait split: sum.split)

lemma ok_container:
  assumes "world_ok wd" "good wd opts s"
  shows "ok wd opts (source_container wd i)
    (\<lambda>r s'. case r of None \<Rightarrow> True | Some c \<Rightarrow> Seen i c \<in> set (k_log s')) s"
  unfolding source_container_def
proof (rule ok_bind [OF ok_read [OF assms]])
  fix r s' assume "good wd opts s'"
  then show "ok wd opts (case r of Inl e \<Rightarrow> act_throw (OtherError (workspace_error_text e) False)
        | Inr None \<Rightarrow> act_ret None
        | Inr (Some c) \<Rightarrow> act_bind (note_event (Seen i c)) (\<lambda>_. act_ret (Some c)))
      (\<lambda>r s'. case r of None \<Rightarrow> True | Some c \<Rightarrow> Seen i c \<in> set (k_log s')) s'"
    by (auto intro!: ok_throw ok_ret ok_bind [OF ok_note] split: sum.split option.split)
qed

lemma ok_write_items:
  assumes wd: "world_ok wd" "good wd opts s"
    and f: "\<And>m. rollouts_inv m \<Longrightarrow> items_move (k_mem s) m \<Longrightarrow>
      rollouts_inv (fst (f m)) \<and> items_move m (fst (f m)) \<and> items_step opts m (fst (f m))"
  shows "ok wd opts (write_items wd f) (\<lambda>x s'. \<exists>m. rollouts_inv m \<and> items_move (k_mem s) m
      \<and> k_mem s' = fst (f m) \<and> x = snd (f m)) s"
proof -
  let ?m = "wd_env wd (k_step s) (k_mem s)"
  note w = wait_good [OF wd]
  have m: "rollouts_inv ?m" "items_move (k_mem s) ?m" using w by (auto simp: good_def grows_def)
  note fm = f [OF m]
  have "items_move (k_mem s) (fst (f ?m))" using fm m items_move_trans by blast
  with fm m wd(2) show ?thesis
    by (auto simp: ok_def write_items_def after_wait good_def grows_def Let_def
        after_def [of "\<lambda>s. (s\<lparr>k_mem := fst (f (k_mem s)), k_log := Wrote (k_mem s) (fst (f (k_mem s))) # k_log s\<rparr>, Inr (snd (f (k_mem s))))"])
qed

lemma ok_write_rollout:
  assumes wd: "world_ok wd" "good wd opts s"
    and f: "\<And>m. rollouts_inv m \<Longrightarrow> rollouts_inv (fst (f m)) \<and> items_move m (fst (f m))"
  shows "ok wd opts (write_rollout wd f) (\<lambda>_ _. True) s"
proof -
  let ?m = "wd_env wd (k_step s) (k_mem s)"
  note w = wait_good [OF wd]
  have m: "rollouts_inv ?m" "items_move (k_mem s) ?m" using w by (auto simp: good_def grows_def)
  note fm = f [OF m(1)]
  have "items_move (k_mem s) (fst (f ?m))" using fm m items_move_trans by blast
  with fm m wd(2) show ?thesis
    by (auto simp: ok_def write_rollout_def after_wait good_def grows_def Let_def
        after_def [of "\<lambda>s. (s\<lparr>k_mem := fst (f (k_mem s))\<rparr>, Inr (snd (f (k_mem s))))"])
qed

lemma ok_each:
  assumes "\<And>x s'. x \<in> set xs \<Longrightarrow> good wd opts s' \<Longrightarrow> grows s s' \<Longrightarrow> ok wd opts (f x) (\<lambda>_ _. True) s'" "good wd opts s"
  shows "ok wd opts (act_each f xs) (\<lambda>_ _. True) s"
  using assms
proof (induction xs arbitrary: s)
  case (Cons x xs)
  show ?case
    unfolding act_each.simps
  proof (rule ok_bind)
    show "ok wd opts (f x) (\<lambda>_ _. True) s" using Cons.prems by simp
    fix u s' assume s': "good wd opts s'" "grows s s'"
    show "ok wd opts (act_each f xs) (\<lambda>_ _. True) s'"
      by (rule Cons.IH) (use Cons.prems(1) s' grows_trans in auto)
  qed
qed (simp add: ok_ret)

section \<open>Writing an item\<close>

lemma items_step_refl: "items_step opts m m"
  by (simp add: items_step_def)

lemma item_written_ids [simp]:
  "item_key (item_written c it t r) = item_key c"
  by (simp add: item_written_def)

text \<open>One row is replaced: the step is that row's.\<close>

lemma cas_item_step:
  assumes known: "known m it" and key: "item_key new = item_key it"
    and step: "\<And>t n. n = Suc (i_revision it) \<Longrightarrow> item_step opts it (item_written it new t n)"
  shows "items_step opts m (fst (cas_item m new (i_revision it)))
    \<and> (case snd (cas_item m new (i_revision it)) of
         None \<Rightarrow> True
       | Some u \<Rightarrow> u = item_written it new (i_updatedAt new) (Suc (i_revision it))
           \<and> js_get (m_upgradeRolloutItems (fst (cas_item m new (i_revision it)))) (item_key it) = Some u)"
proof (cases rule: cas_item_cases [of m new "i_revision it"])
  case (won c)
  then have "c = it" using known key by (auto intro: known_current)
  with won key step [of "Suc (i_revision it)" "i_updatedAt new"] show ?thesis by (auto simp: items_step_def)
qed (simp add: items_step_refl)

lemma ok_transition:
  assumes wd: "world_ok wd" "good wd opts s" and known: "known (k_mem s) it"
    and key: "\<And>t. item_key ((patch it)\<lparr>i_updatedAt := t\<rparr>) = item_key it"
    and step: "\<And>t u n. n = Suc (i_revision it) \<Longrightarrow> item_step opts it (item_written it ((patch it)\<lparr>i_updatedAt := t\<rparr>) u n)"
  shows "ok wd opts (transition wd it patch)
    (\<lambda>u s'. \<exists>t. u = item_written it ((patch it)\<lparr>i_updatedAt := t\<rparr>) t (Suc (i_revision it)) \<and> known (k_mem s') u) s"
  unfolding transition_def
proof (rule ok_bind [OF ok_clock [OF wd(2)]])
  fix now s' assume s': "good wd opts s'" "grows s s'"
  let ?new = "(patch it)\<lparr>i_updatedAt := now\<rparr>"
  have k: "known m it" if "items_move (k_mem s') m" for m
    using known known_grows [OF s'(2)] known_move that by blast
  show "ok wd opts (act_bind (write_items wd (\<lambda>m. cas_item m ?new (i_revision it)))
      (\<lambda>u. case u of None \<Rightarrow> act_throw (RolloutConflict ''upgrade_rollout_item_conflict'') | Some x \<Rightarrow> act_ret x))
    (\<lambda>u s'. \<exists>t. u = item_written it ((patch it)\<lparr>i_updatedAt := t\<rparr>) t (Suc (i_revision it)) \<and> known (k_mem s') u) s'"
  proof (rule ok_bind [OF ok_write_items [OF wd(1) s'(1)]])
    fix m assume "rollouts_inv m" "items_move (k_mem s') m"
    then show "rollouts_inv (fst (cas_item m ?new (i_revision it))) \<and> items_move m (fst (cas_item m ?new (i_revision it)))
        \<and> items_step opts m (fst (cas_item m ?new (i_revision it)))"
      using cas_item_inv cas_item_step [OF k key step] by blast
  next
    fix x s'' assume s'': "good wd opts s''"
      and "\<exists>m. rollouts_inv m \<and> items_move (k_mem s') m
        \<and> k_mem s'' = fst (cas_item m ?new (i_revision it)) \<and> x = snd (cas_item m ?new (i_revision it))"
    then obtain m where m: "items_move (k_mem s') m" "k_mem s'' = fst (cas_item m ?new (i_revision it))"
      "x = snd (cas_item m ?new (i_revision it))" by blast
    have c: "case x of None \<Rightarrow> True
        | Some u \<Rightarrow> u = item_written it ?new now (Suc (i_revision it)) \<and> known (k_mem s'') u"
      using cas_item_step [OF k [OF m(1)] key [of now] step] m(2,3)
      by (auto intro!: known_row split: option.splits)
    show "ok wd opts (case x of None \<Rightarrow> act_throw (RolloutConflict ''upgrade_rollout_item_conflict'') | Some x \<Rightarrow> act_ret x)
      (\<lambda>u s'. \<exists>t. u = item_written it ((patch it)\<lparr>i_updatedAt := t\<rparr>) t (Suc (i_revision it)) \<and> known (k_mem s') u) s''"
      using s'' c by (cases x) (auto intro: ok_throw ok_ret)
  qed
qed

lemma superseded_step:
  assumes "is_supersedable_item x kind"
  shows "item_step opts x (item_superseded t x)"
  using assms by (auto simp: item_step_def is_supersedable_item_def item_superseded_def item_target_def
      status_step_def budget_step_def failure_status_def proof_missing_def)

lemma settled_step: "settled_by m c i x \<Longrightarrow> item_step opts x (item_superseded t x)"
  by (rule superseded_step) (auto simp: settled_by_def)

lemma recovered_step: "in_transition x \<Longrightarrow> item_step opts x (item_recovered t x)"
  by (auto simp: item_step_def in_transition_def item_recovered_def item_target_def Let_def
      status_step_def budget_step_def failure_status_def interrupted_attempt_def)

lemma recover_items_step: "items_step opts m (fst (recover_items m cutoff t))"
  using recovered_step by (auto simp: items_step_def recover_items_def Let_def item_interrupted_def)

lemma supersede_before_step: "items_step opts m (fst (supersede_before m rid iid t))"
  using settled_step by (auto simp: items_step_def supersede_before_def split: option.split)

lemma checkpoint_step:
  assumes known: "known m it" and key: "item_key new = item_key it"
    and step: "\<And>n. n = Suc (i_revision it) \<Longrightarrow> item_step opts it (item_written it new t n)"
  shows "items_step opts m (fst (commit_checkpoint m new (i_revision it) t earlier))
    \<and> (case snd (commit_checkpoint m new (i_revision it) t earlier) of
         None \<Rightarrow> True | Some (u, _) \<Rightarrow> u = item_written it new t (Suc (i_revision it)))"
proof (cases rule: commit_checkpoint_cases [of m new "i_revision it" t earlier])
  case (won c)
  then have c: "c = it" using known key by (auto intro: known_current)
  let ?u = "item_written it new t (Suc (i_revision it))"
  have "\<not> settled_by m it i ?u" for i by (simp add: settled_by_def item_written_def)
  then have "items_step opts m (fst (store_checkpoint m new it ?u t earlier))"
    using won(1) c step settled_step by (auto simp: items_step_def store_checkpoint_def Let_def)
  with won(3) c show ?thesis by simp
qed (simp add: items_step_refl)

text \<open>What a checkpoint of \<open>it\<close> needs to have seen.\<close>

definition checkpoint_ready :: "event list \<Rightarrow> rollout_item \<Rightarrow> bool \<Rightarrow> bool" where
  "checkpoint_ready l it success \<longleftrightarrow>
     (if success then i_status it \<in> {IAssessing, IVerifying, IAwaitingFirstStart} \<or> proof_missing it
      else i_status it = IVerifying)
     \<and> (\<exists>c. Seen (i_instanceId it) c \<in> set l \<and> matches_catalog_target c it
          \<and> (success \<longrightarrow> matches_target c it \<or> c_status c = Running
              \<or> (\<exists>it'. Inspected it' (Some TxCommitted) \<in> set l \<and> item_target it' = item_target it)))"

lemma checkpoint_item_step:
  assumes "if success then i_status it \<in> {IAssessing, IVerifying, IAwaitingFirstStart} \<or> proof_missing it
      else i_status it = IVerifying"
  shows "item_step opts it (item_written it (checkpoint_item it success now r) t (Suc (i_revision it)))"
  using assms by (auto simp: item_step_def item_written_def checkpoint_item_def item_target_def status_step_def
      budget_step_def failure_status_def proof_missing_def split: if_splits)

lemma checkpoint_item_allowed:
  assumes "checkpoint_ready l it success"
  shows "checkpoint_allowed l (item_written it (checkpoint_item it success now r) t n)"
proof -
  let ?u = "item_written it (checkpoint_item it success now r) t n"
  have u: "i_instanceId ?u = i_instanceId it" "matches_catalog_target c ?u = matches_catalog_target c it"
    "matches_target c ?u = matches_target c it" "i_status ?u = ISucceeded \<longleftrightarrow> success" for c
    by (simp_all add: item_written_def checkpoint_item_def matches_target_def matches_catalog_target_def)
  with assms show ?thesis unfolding checkpoint_ready_def checkpoint_allowed_def u item_target_written by blast
qed

lemma checkpoint_ready_grows:
  "checkpoint_ready (k_log s) it success \<Longrightarrow> grows s s' \<Longrightarrow> checkpoint_ready (k_log s') it success"
  unfolding checkpoint_ready_def using grows_log by blast

lemma ok_checkpoint:
  assumes wd: "world_ok wd" "good wd opts s" and known: "known (k_mem s) it"
    and ready: "checkpoint_ready (k_log s) it success"
  shows "ok wd opts (checkpoint_deployment wd opts it success earlier) (\<lambda>_ _. True) s"
  unfolding checkpoint_deployment_def
proof (rule ok_bind [OF ok_clock [OF wd(2)]])
  fix now s1 assume s1: "good wd opts s1" "grows s s1"
  show "ok wd opts (act_bind (if success then act_ret None
               else act_bind (next_attempt_at wd opts (i_attemptCount it)) (\<lambda>t. act_ret (Some t))) (\<lambda>retryAt.
     act_bind (write_items wd (\<lambda>m. commit_checkpoint m (checkpoint_item it success now retryAt)
                 (i_revision it) now earlier)) (\<lambda>checkpoint.
       case checkpoint of
         None \<Rightarrow> act_throw (RolloutConflict ''upgrade_rollout_item_conflict'')
       | Some (u, affected) \<Rightarrow>
           act_bind (note_event (Checkpointed u)) (\<lambda>_. add_checkpoints affected)))) (\<lambda>_ _. True) s1"
  proof (rule ok_bind [where Q = "\<lambda>_ _. True"])
    show "ok wd opts (if success then act_ret None
               else act_bind (next_attempt_at wd opts (i_attemptCount it)) (\<lambda>t. act_ret (Some t))) (\<lambda>_ _. True) s1"
      by (auto intro!: ok_ret ok_bind [OF ok_next_attempt] s1(1))
    fix r s2 assume s2: "good wd opts s2" "grows s1 s2"
    let ?new = "checkpoint_item it success now r"
    let ?f = "\<lambda>m. commit_checkpoint m ?new (i_revision it) now earlier"
    have k2: "known (k_mem s2) it" using known known_grows s1(2) s2(2) by blast
    have key: "item_key ?new = item_key it" by (simp add: checkpoint_item_def)
    have steps: "items_step opts m (fst (?f m))
        \<and> (case snd (?f m) of None \<Rightarrow> True | Some (u, _) \<Rightarrow> u = item_written it ?new now (Suc (i_revision it)))"
      if "items_move (k_mem s2) m" for m
      by (rule checkpoint_step) (use known_move [OF k2 that] key ready checkpoint_item_step in \<open>auto simp: checkpoint_ready_def\<close>)
    show "ok wd opts (act_bind (write_items wd ?f) (\<lambda>checkpoint.
       case checkpoint of
         None \<Rightarrow> act_throw (RolloutConflict ''upgrade_rollout_item_conflict'')
       | Some (u, affected) \<Rightarrow>
           act_bind (note_event (Checkpointed u)) (\<lambda>_. add_checkpoints affected))) (\<lambda>_ _. True) s2"
    proof (rule ok_bind [OF ok_write_items [OF wd(1) s2(1)]])
      fix m assume "rollouts_inv m" "items_move (k_mem s2) m"
      then show "rollouts_inv (fst (?f m)) \<and> items_move m (fst (?f m)) \<and> items_step opts m (fst (?f m))"
        using commit_checkpoint_inv steps by blast
    next
      fix x s3 assume s3: "good wd opts s3" "grows s2 s3"
        and "\<exists>m. rollouts_inv m \<and> items_move (k_mem s2) m \<and> k_mem s3 = fst (?f m) \<and> x = snd (?f m)"
      then have x: "case x of None \<Rightarrow> True | Some (u, _) \<Rightarrow> u = item_written it ?new now (Suc (i_revision it))"
        using steps by blast
      have "checkpoint_ready (k_log s3) it success"
        using ready checkpoint_ready_grows s1(2) s2(2) s3(2) grows_trans by blast
      then have "x = Some (u, a) \<Longrightarrow> event_ok wd opts (k_log s3) (Checkpointed u)" for u a
        using checkpoint_item_allowed x by simp
      then show "ok wd opts (case x of None \<Rightarrow> act_throw (RolloutConflict ''upgrade_rollout_item_conflict'')
         | Some (u, affected) \<Rightarrow> act_bind (note_event (Checkpointed u)) (\<lambda>_. add_checkpoints affected)) (\<lambda>_ _. True) s3"
        using s3(1) by (auto intro!: ok_throw ok_bind [OF ok_note] ok_add_checkpoints split: option.split)
    qed
  qed
qed

end
