(* ===== verification/Rollout_Safety.thy ===== *)
theory Rollout_Safety
  imports Rollout_Rules
begin

text \<open>
  What a run of the upgrade worker may do, whatever other processes do to the store, whatever
  the clock, the leases and the runtime answer: it moves items along the state machine, keeps
  their retry budget, rebuilds an instance only under its own attempt, behind a drain and
  after the instance has been found idle, and settles an item only after it has seen the
  target on the instance.
\<close>

section \<open>Putting off and preparing an attempt\<close>

lemmas item_step_simps = item_step_def item_written_def status_step_def budget_step_def item_target_def failure_status_def
  failed_attempt_def

lemma ok_wait_for_idle:
  assumes wd: "world_ok wd" "good wd opts s" and it: "known (k_mem s) it" "i_status it = IAssessing \<or> i_status it = IDraining"
  shows "ok wd opts (wait_for_idle wd opts it blocker) (\<lambda>_ _. True) s"
  unfolding wait_for_idle_def
proof (rule ok_bind [OF ok_next_attempt [OF wd(2)]], rule ok_bind [OF ok_transition [OF wd(1)]])
  fix t s' assume "good wd opts s'" "grows s s'"
  then show "good wd opts s'" "known (k_mem s') it" using it(1) known_grows by blast+
qed (use it(2) in \<open>auto simp: item_step_simps intro: ok_ret\<close>)

lemma ok_defer_first_start:
  assumes wd: "world_ok wd" "good wd opts s" and it: "known (k_mem s) it" "i_status it = IAwaitingFirstStart"
  shows "ok wd opts (defer_first_start wd opts it) (\<lambda>_ _. True) s"
  unfolding defer_first_start_def
proof (rule ok_bind [OF ok_next_attempt [OF wd(2)]], rule ok_bind [OF ok_clock], assumption, rule ok_bind [OF ok_transition [OF wd(1)]])
  fix t s1 u s2 assume "good wd opts s1" "grows s s1" and s2: "good wd opts s2" "grows s1 s2"
  then show "good wd opts s2" "known (k_mem s2) it" using it(1) known_grows by blast+
qed (use it(2) in \<open>auto simp: item_step_simps intro: ok_ret\<close>)

text \<open>The same attempt: only its status and what it has observed may differ.\<close>

definition same_attempt :: "rollout_item \<Rightarrow> rollout_item \<Rightarrow> bool" where
  "same_attempt it u \<longleftrightarrow> item_target u = item_target it \<and> i_attemptId u = i_attemptId it
     \<and> i_forceRequested u = i_forceRequested it"

lemma ok_capture_snapshot:
  assumes wd: "world_ok wd" "good wd opts s" and it: "known (k_mem s) it" "i_status it = IAssessing"
  shows "ok wd opts (capture_snapshot wd it c)
    (\<lambda>u s'. known (k_mem s') u \<and> i_status u = IAssessing \<and> same_attempt it u) s"
  unfolding capture_snapshot_def Let_def
proof (split if_split, intro conjI impI)
  show "ok wd opts (act_ret it) (\<lambda>u s'. known (k_mem s') u \<and> i_status u = IAssessing \<and> same_attempt it u) s"
    using wd it by (auto simp: same_attempt_def intro: ok_ret)
  show "ok wd opts (transition wd it (\<lambda>it. it\<lparr>i_desiredState := w, i_sourceAppVersionId := c_appVersionId c,
                i_sourceImageArtifactId := c_imageArtifactId c, i_sourceImageReference := c_imageReference c\<rparr>))
      (\<lambda>u s'. known (k_mem s') u \<and> i_status u = IAssessing \<and> same_attempt it u) s" for w
    by (rule ok_mono [OF ok_transition [OF wd it(1)]])
      (use it(2) in \<open>auto simp: item_step_simps same_attempt_def\<close>)
qed

text \<open>What holds when an attempt is prepared: the item is being assessed, and if it is not forced
  its container was seen not running, or assessed as ready.\<close>

definition idle_seen :: "event list \<Rightarrow> rollout_item \<Rightarrow> container \<Rightarrow> bool" where
  "idle_seen l it c \<longleftrightarrow> Seen (i_instanceId it) c \<in> set l
     \<and> (i_forceRequested it \<or> c_status c \<noteq> Running \<or> assessed_ready l it)"

lemma idle_seen_grows: "grows s s' \<Longrightarrow> idle_seen (k_log s) it c \<Longrightarrow> idle_seen (k_log s') it c"
  unfolding idle_seen_def assessed_ready_def using grows_log by blast

lemma same_attempt_ids: "same_attempt it u \<Longrightarrow> i_instanceId u = i_instanceId it \<and> i_rolloutId u = i_rolloutId it"
  by (simp add: same_attempt_def item_target_def)

definition prepared :: "wk \<Rightarrow> rollout_item \<Rightarrow> string \<Rightarrow> (rollout_item \<times> container) option \<Rightarrow> bool" where
  "prepared s initial attemptId r \<longleftrightarrow>
     (case r of None \<Rightarrow> True | Some (it, c) \<Rightarrow>
        known (k_mem s) it \<and> i_status it = IAssessing \<and> i_attemptId it = Some attemptId
        \<and> item_target it = item_target initial \<and> idle_seen (k_log s) it c)"

lemma ok_assess:
  assumes wd: "world_ok wd" "good wd opts s" and seen: "Seen (i_instanceId it) c \<in> set (k_log s)"
  shows "ok wd opts (assess_idle wd it c) (\<lambda>a s'. as_ready a \<longrightarrow> idle_seen (k_log s') it c) s"
proof (cases "i_forceRequested it \<or> c_status c \<noteq> Running")
  case True
  then show ?thesis using wd seen by (auto simp: idle_seen_def assess_idle_def intro!: ok_ret)
next
  case False
  have "ok wd opts (act_bind (call wd (\<lambda>n. wd_assess wd n c it)) (\<lambda>a. act_bind (note_event (Assessed it c a)) (\<lambda>_. act_ret a)))
      (\<lambda>a s'. as_ready a \<longrightarrow> idle_seen (k_log s') it c) s"
  proof (rule ok_bind [OF ok_call [OF wd]], rule ok_bind [OF ok_note], assumption, simp)
    fix a s1 u s2 assume s1: "good wd opts s1" "grows s s1"
      and s2: "good wd opts s2" "grows s1 s2" "k_mem s2 = k_mem s1 \<and> k_log s2 = Assessed it c a # k_log s1"
    have "Seen (i_instanceId it) c \<in> set (k_log s2)" using seen s1 s2 grows_log by blast
    then have "as_ready a \<longrightarrow> idle_seen (k_log s2) it c" using s2(3) by (auto simp: idle_seen_def assessed_ready_def)
    with s2(1) show "ok wd opts (act_ret a) (\<lambda>a s'. as_ready a \<longrightarrow> idle_seen (k_log s') it c) s2" by (rule ok_ret)
  qed
  with False show ?thesis by (simp add: assess_idle_def)
qed

lemma ok_prepared_none:
  "ok wd opts a (\<lambda>_ _. True) s \<Longrightarrow> ok wd opts (act_bind a (\<lambda>_. act_ret None)) (\<lambda>r s'. prepared s' initial attemptId r) s"
  by (erule ok_bind) (auto intro: ok_ret simp: prepared_def)

lemma ok_prepare_on:
  assumes wd: "world_ok wd" "good wd opts s"
    and it: "known (k_mem s) it" "i_status it = IAssessing" "i_attemptId it = Some attemptId" "item_target it = item_target initial"
    and seen: "Seen (i_instanceId it) c \<in> set (k_log s)"
  shows "ok wd opts (prepare_on wd opts taskKind sig c it) (\<lambda>r s'. prepared s' initial attemptId r) s"
proof (cases "taskKind = ImageUpgrade \<and> matches_target c it")
  case True
  then have "checkpoint_ready (k_log s) it True"
    using it(2) seen by (auto simp: checkpoint_ready_def matches_target_def)
  then have "ok wd opts (succeed wd opts it) (\<lambda>_ _. True) s"
    unfolding succeed_def by (intro ok_checkpoint wd it)
  with True show ?thesis by (simp add: prepare_on_def ok_prepared_none)
next
  case no: False
  show ?thesis
  proof (cases "c_status c = Creating")
    case True
    have "ok wd opts (wait_for_idle wd opts it ''instance_creating'') (\<lambda>_ _. True) s"
      by (intro ok_wait_for_idle wd it) (simp add: it)
    with no True show ?thesis by (auto simp: prepare_on_def ok_prepared_none)
  next
    case False
    have "ok wd opts (act_bind (assess_idle wd it c) (\<lambda>a. act_bind (throw_if_aborted sig) (\<lambda>_.
             if \<not> as_ready a
             then act_bind (wait_for_idle wd opts it
                    (case as_reason a of None \<Rightarrow> ''instance_busy'' | Some r \<Rightarrow> r)) (\<lambda>_. act_ret None)
             else act_ret (Some (it, c))))) (\<lambda>r s'. prepared s' initial attemptId r) s"
    proof (rule ok_bind [OF ok_assess [OF wd seen]], rule ok_bind [OF ok_abort_check], assumption, goal_cases)
      case (1 a s1 u s2)
      then have known: "known (k_mem s2) it" using it(1) known_grows by blast
      show ?case
      proof (cases "as_ready a")
        case True
        then show ?thesis using 1 known it by (auto simp: prepared_def intro!: ok_ret)
      next
        case False
        have "ok wd opts (wait_for_idle wd opts it r) (\<lambda>_ _. True) s2" for r
          by (rule ok_wait_for_idle) (use 1 known it wd in auto)
        with False show ?thesis by (simp add: ok_prepared_none)
      qed
    qed
    with no False show ?thesis by (auto simp: prepare_on_def)
  qed
qed

lemma ok_prepare:
  assumes wd: "world_ok wd" "good wd opts s"
    and it: "known (k_mem s) initial" "i_status initial = IQueued \<or> i_status initial = IWaitingForIdle"
  shows "ok wd opts (prepare_attempt wd opts initial taskKind attemptId sig) (\<lambda>r s'. prepared s' initial attemptId r) s"
  unfolding prepare_attempt_def
proof (rule ok_bind [OF ok_clock [OF wd(2)]], rule ok_bind [OF ok_transition [OF wd(1)]], goal_cases)
  case (5 t s1 u s2)
  then have u: "known (k_mem s2) u" "i_status u = IAssessing" "i_attemptId u = Some attemptId"
    "item_target u = item_target initial" by (auto simp: item_written_def item_target_def)
  show ?case
  proof (rule ok_bind [OF ok_abort_check], rule 5, rule ok_bind [OF ok_container [OF wd(1)]], assumption,
      rule ok_bind [OF ok_abort_check], assumption, goal_cases)
    case (1 x s3 found s4 y s5)
    then have known: "known (k_mem s5) u" using u(1) known_grows by blast
    show ?case
    proof (cases found)
      case None
      with 1 show ?thesis by (auto intro: ok_throw)
    next
      case (Some c)
      then have seen: "Seen (i_instanceId u) c \<in> set (k_log s5)" using 1 by simp
      show ?thesis
        unfolding Some option.case
      proof (rule ok_bind [OF ok_capture_snapshot [OF wd(1) _ known u(2)]], rule 1, goal_cases)
        case (1 v s6)
        then have v: "known (k_mem s6) v" "i_status v = IAssessing" "same_attempt u v" by blast+
        have "Seen (i_instanceId v) c \<in> set (k_log s6)"
          using seen grows_log [OF 1(2)] same_attempt_ids [OF v(3)] by simp
        moreover have "i_attemptId v = Some attemptId" "item_target v = item_target initial"
          using u v(3) by (simp_all add: same_attempt_def)
        ultimately show ?case using ok_prepare_on [OF wd(1) 1(1) v(1,2)] by blast
      qed
    qed
  qed
qed (use it known_grows in \<open>auto simp: item_step_simps\<close>)

section \<open>Behind the drain\<close>

text \<open>What holds once the attempt \<open>it\<close> has been admitted, \<open>d\<close> telling whether it has drained.\<close>

definition admitted :: "world \<Rightarrow> event list \<Rightarrow> rollout_item \<Rightarrow> container \<Rightarrow> bool \<Rightarrow> bool" where
  "admitted wd l it c d \<longleftrightarrow> js_truthy (i_attemptId it)
     \<and> (if wd_begin wd = None then \<not> d \<and> idle_seen l it c
        else d \<and> drained l it (\<lambda>_ zs. idle_seen zs it c))"

lemma same_attempt_refl [simp]: "same_attempt it it"
  by (simp add: same_attempt_def)

lemma same_attempt_written:
  "item_target new = item_target it \<Longrightarrow> i_attemptId new = i_attemptId it \<Longrightarrow> i_forceRequested new = i_forceRequested it
   \<Longrightarrow> same_attempt it (item_written it new t n)"
  by (simp add: same_attempt_def item_written_def item_target_def)

lemma assessed_ready_same: "same_attempt it u \<Longrightarrow> assessed_ready l u = assessed_ready l it"
  by (simp add: assessed_ready_def same_attempt_def)

lemma confirmed_ready_same: "same_attempt it u \<Longrightarrow> confirmed_ready l u = confirmed_ready l it"
  by (simp add: confirmed_ready_def same_attempt_def)

lemma idle_seen_same: "same_attempt it u \<Longrightarrow> idle_seen l u c = idle_seen l it c"
  using same_attempt_ids [of it u]
  by (simp add: idle_seen_def assessed_ready_same) (simp add: same_attempt_def)

lemma drained_same: "same_attempt it u \<Longrightarrow> drained l u P = drained l it P"
  using same_attempt_ids [of it u] unfolding drained_def by (simp add: same_attempt_def)

lemma admitted_same: "same_attempt it u \<Longrightarrow> admitted wd l u c d = admitted wd l it c d"
  unfolding admitted_def by (simp add: idle_seen_same drained_same) (simp add: same_attempt_def)

lemma rebuild_guard_same: "same_attempt it u \<Longrightarrow> rebuild_guard wd l u = rebuild_guard wd l it"
  using same_attempt_ids [of it u] unfolding rebuild_guard_def seen_not_running_def
  by (simp add: assessed_ready_same confirmed_ready_same drained_same) (simp add: same_attempt_def)

lemma admitted_grows:
  assumes "grows s s'" "admitted wd (k_log s) it c d"
  shows "admitted wd (k_log s') it c d"
proof -
  from assms(1) obtain l where l: "k_log s' = l @ k_log s" by (auto simp: grows_def)
  show ?thesis
  proof (cases "wd_begin wd")
    case None
    with assms(2) idle_seen_grows [OF assms(1)] show ?thesis by (simp add: admitted_def)
  next
    case (Some f)
    with assms(2) drained_append [of "k_log s" it "\<lambda>_ zs. idle_seen zs it c"] show ?thesis
      by (simp add: admitted_def l)
  qed
qed

lemma assessed_ready_append: "assessed_ready l it \<Longrightarrow> assessed_ready (l' @ l) it"
  by (auto simp: assessed_ready_def)

lemma confirmed_ready_append: "confirmed_ready l it \<Longrightarrow> confirmed_ready (l' @ l) it"
  by (auto simp: confirmed_ready_def)

lemma rebuild_guard_grows:
  assumes "grows s s'" "rebuild_guard wd (k_log s) it"
  shows "rebuild_guard wd (k_log s') it"
proof -
  from assms(1) obtain l where l: "k_log s' = l @ k_log s" by (auto simp: grows_def)
  show ?thesis
  proof (cases "wd_begin wd")
    case None
    with assms(2) show ?thesis
      by (auto simp: rebuild_guard_def seen_not_running_def l dest: assessed_ready_append)
  next
    case (Some f)
    have "drained (l @ k_log s) it (\<lambda>xs zs. i_forceRequested it \<or> seen_not_running zs it
               \<or> (assessed_ready zs it \<and> confirmed_ready xs it))"
      by (rule drained_append [where P = "\<lambda>xs zs. i_forceRequested it \<or> seen_not_running zs it
               \<or> (assessed_ready zs it \<and> confirmed_ready xs it)"])
        (use Some assms(2) confirmed_ready_append in \<open>auto simp: rebuild_guard_def\<close>)
    with Some assms(2) show ?thesis by (simp add: rebuild_guard_def l)
  qed
qed

lemma ok_acquire:
  assumes wd: "world_ok wd" "good wd opts s" and it: "known (k_mem s) it" "i_status it = IAssessing"
    "i_attemptId it = Some att" "att \<noteq> []" and idle: "idle_seen (k_log s) it c"
  shows "ok wd opts (acquire_admission wd opts it att sig)
    (\<lambda>r s'. case r of None \<Rightarrow> True | Some d \<Rightarrow> admitted wd (k_log s') it c d) s"
proof (cases "wd_begin wd")
  case None
  then have "admitted wd (k_log s) it c False" using it idle by (simp add: admitted_def)
  with None wd show ?thesis by (auto simp: acquire_admission_def intro: ok_ret)
next
  case (Some f)
  let ?mode = "if i_forceRequested it then Force else Graceful"
  show ?thesis
    unfolding acquire_admission_def Some option.case Let_def
  proof (rule ok_bind [OF ok_call [OF wd]], rule ok_bind [OF ok_note], assumption, simp,
      rule ok_bind [OF ok_abort_check], assumption, goal_cases)
    case (1 b s1 u s2 v s3)
    then have k: "known (k_mem s3) it" "idle_seen (k_log s1) it c" using it(1) idle known_grows idle_seen_grows by blast+
    show ?case
    proof (cases b)
      case True
      have "k_log s3 = [] @ Began (i_instanceId it) (i_rolloutId it) (the (i_attemptId it)) ?mode True # k_log s1"
        using 1 True it(3) by simp
      then have "drained (k_log s3) it (\<lambda>_ zs. idle_seen zs it c)" using k(2) unfolding drained_def by blast
      then have "admitted wd (k_log s3) it c True" using Some it by (simp add: admitted_def)
      with 1 True show ?thesis by (auto intro: ok_ret)
    next
      case False
      have "ok wd opts (wait_for_idle wd opts it ''active_connection'') (\<lambda>_ _. True) s3"
        by (rule ok_wait_for_idle) (use 1 k it wd in auto)
      then have "ok wd opts (act_bind (wait_for_idle wd opts it ''active_connection'') (\<lambda>_. act_ret None))
          (\<lambda>r s'. case r of None \<Rightarrow> True | Some d \<Rightarrow> admitted wd (k_log s') it c d) s3"
        by (rule ok_bind) (simp add: ok_ret)
      with False show ?thesis by simp
    qed
  qed
qed

text \<open>An admitted attempt that needs no confirmation may rebuild; otherwise the confirmation decides.\<close>

lemma admitted_guard:
  assumes "admitted wd l it c d" "\<not> d \<or> i_forceRequested it \<or> c_status c \<noteq> Running"
  shows "rebuild_guard wd l it"
proof (cases "wd_begin wd")
  case None
  with assms show ?thesis by (auto simp: admitted_def rebuild_guard_def idle_seen_def seen_not_running_def)
next
  case (Some f)
  have "drained ([] @ l) it (\<lambda>xs zs. i_forceRequested it \<or> seen_not_running zs it
               \<or> (assessed_ready zs it \<and> confirmed_ready xs it))"
    by (rule drained_append [where P = "\<lambda>_ zs. idle_seen zs it c"])
      (use Some assms in \<open>auto simp: admitted_def idle_seen_def seen_not_running_def\<close>)
  with Some assms(1) show ?thesis by (simp add: rebuild_guard_def admitted_def)
qed

lemma admitted_confirmed:
  assumes "admitted wd l it c d" "confirmed_ready l' it"
  shows "rebuild_guard wd (l' @ l) it"
proof (cases "wd_begin wd")
  case None
  with assms show ?thesis
    by (auto simp: admitted_def rebuild_guard_def idle_seen_def seen_not_running_def dest: assessed_ready_append)
next
  case (Some f)
  have "drained (l' @ l) it (\<lambda>xs zs. i_forceRequested it \<or> seen_not_running zs it
               \<or> (assessed_ready zs it \<and> confirmed_ready xs it))"
    by (rule drained_append [where P = "\<lambda>_ zs. idle_seen zs it c"])
      (use Some assms in \<open>auto simp: admitted_def idle_seen_def seen_not_running_def confirmed_ready_def\<close>)
  with Some assms(1) show ?thesis by (simp add: rebuild_guard_def admitted_def)
qed

lemma ok_confirm_on:
  assumes wd: "world_ok wd" "good wd opts s" and it: "known (k_mem s) it" "i_status it = IDraining"
    and adm: "admitted wd (k_log s) it c0 d"
  shows "ok wd opts (confirm_on wd opts it c sig) (\<lambda>b s'. b \<longrightarrow> rebuild_guard wd (k_log s') it) s"
  unfolding confirm_on_def
proof (rule ok_bind [OF ok_call [OF wd]], rule ok_bind [OF ok_note], assumption, simp,
    rule ok_bind [OF ok_abort_check], assumption, goal_cases)
  case (1 a s1 u s2 v s3)
  then have k: "known (k_mem s3) it" "admitted wd (k_log s1) it c0 d" using it(1) adm known_grows admitted_grows by blast+
  show ?case
  proof (cases "as_ready a")
    case True
    then have "confirmed_ready [Confirmed it c a] it" by (auto simp: confirmed_ready_def)
    from admitted_confirmed [OF k(2) this] 1 have "rebuild_guard wd (k_log s3) it" by simp
    with True 1 show ?thesis by (auto intro: ok_ret)
  next
    case False
    have "ok wd opts (wait_for_idle wd opts it r) (\<lambda>_ _. True) s3" for r
      by (rule ok_wait_for_idle) (use 1 k it wd in auto)
    then have "ok wd opts (act_bind (wait_for_idle wd opts it r) (\<lambda>_. act_ret False))
        (\<lambda>b s'. b \<longrightarrow> rebuild_guard wd (k_log s') it) s3" for r
      by (rule ok_bind) (simp add: ok_ret)
    with False show ?thesis by simp
  qed
qed

lemma ok_confirm_drain:
  assumes wd: "world_ok wd" "good wd opts s" and it: "known (k_mem s) it" "i_status it = IDraining"
    and adm: "admitted wd (k_log s) it c d"
  shows "ok wd opts (confirm_drain wd opts it c d sig) (\<lambda>b s'. b \<longrightarrow> rebuild_guard wd (k_log s') it) s"
  unfolding confirm_drain_def
proof (rule ok_bind [OF ok_abort_check [OF wd(2)]], goal_cases)
  case (1 x s1)
  show ?case
  proof (cases "\<not> d \<or> i_forceRequested it \<or> c_status c \<noteq> Running")
    case True
    with 1 admitted_guard [OF adm True] show ?thesis by (auto intro: ok_ret)
  next
    case False
    have "ok wd opts (act_bind (source_container wd (i_instanceId it)) (\<lambda>found.
            act_bind (throw_if_aborted sig) (\<lambda>_.
              case found of
                None \<Rightarrow> act_throw (OtherError ''container_not_found'' False)
              | Some c \<Rightarrow> confirm_on wd opts it c sig))) (\<lambda>b s'. b \<longrightarrow> rebuild_guard wd (k_log s') it) s1"
    proof (rule ok_bind [OF ok_container [OF wd(1)]], rule 1, rule ok_bind [OF ok_abort_check], assumption, goal_cases)
      case (1 found s2 y s3)
      have k: "known (k_mem s3) it" "admitted wd (k_log s3) it c d"
        using it(1) adm known_grows admitted_grows \<open>s1 = s\<close> 1 by blast+
      show ?case
        using 1 ok_confirm_on [OF wd(1) _ k(1) it(2) k(2)] by (auto intro: ok_throw split: option.split)
    qed
    with False show ?thesis by simp
  qed
qed

section \<open>Rebuilding\<close>

lemma ok_accept:
  assumes wd: "world_ok wd" "good wd opts s"
  shows "ok wd opts (accept_candidate wd it sig) (\<lambda>_ _. True) s"
proof (cases "wd_accept wd")
  case None
  with wd show ?thesis by (simp add: accept_candidate_def ok_ret)
next
  case (Some f)
  have settle: "ok wd opts (act_bind (clock wd) (\<lambda>now.
       act_bind (write_items wd (\<lambda>m. supersede_before m (i_rolloutId it) (i_instanceId it) now)) add_checkpoints)) (\<lambda>_ _. True) s1"
    if "good wd opts s1" for s1
  proof (rule ok_bind [OF ok_clock [OF that]], rule ok_bind [OF ok_write_items [OF wd(1)]], assumption)
    show "rollouts_inv (fst (supersede_before m (i_rolloutId it) (i_instanceId it) now))
        \<and> items_move m (fst (supersede_before m (i_rolloutId it) (i_instanceId it) now))
        \<and> items_step opts m (fst (supersede_before m (i_rolloutId it) (i_instanceId it) now))"
      if "rollouts_inv m" for m now
      using supersede_before_inv [OF that] supersede_before_step by blast
  qed (rule ok_add_checkpoints)
  show ?thesis
    unfolding accept_candidate_def Some option.case
  proof (rule ok_bind [OF ok_call [OF wd]], rule ok_bind [OF ok_abort_check], assumption, goal_cases)
    case (1 b s1 u s2)
    then show ?case using settle [of s2] by (cases b) (auto intro: ok_ret)
  qed
qed

lemma ok_verify_on:
  assumes wd: "world_ok wd" "good wd opts s" and it: "known (k_mem s) it" "i_status it = IVerifying"
    and seen: "case found of None \<Rightarrow> True | Some c \<Rightarrow> Seen (i_instanceId it) c \<in> set (k_log s)"
  shows "ok wd opts (verify_on wd opts it found) (\<lambda>_ _. True) s"
proof (cases found)
  case None
  with wd show ?thesis by (simp add: verify_on_def ok_throw)
next
  case (Some c)
  have "ok wd opts (checkpoint_deployment wd opts it b True) (\<lambda>_ _. True) s"
    if "matches_catalog_target c it" "b \<longrightarrow> matches_target c it" for b
    by (rule ok_checkpoint [OF wd it(1)]) (use that it(2) seen Some in \<open>auto simp: checkpoint_ready_def\<close>)
  with Some wd show ?thesis by (simp add: verify_on_def succeed_def ok_throw)
qed

lemma ok_verify_rebuild:
  assumes wd: "world_ok wd" "good wd opts s" and it: "known (k_mem s) it" "i_status it = IRebuilding"
  shows "ok wd opts (verify_rebuild wd opts it sig) (\<lambda>_ _. True) s"
  unfolding verify_rebuild_def
proof (rule ok_bind [OF ok_transition [OF wd it(1)]], goal_cases)
  case (3 u s1)
  then have u: "known (k_mem s1) u" "i_status u = IVerifying" by (auto simp: item_written_def)
  show ?case
  proof (rule ok_bind [OF ok_container [OF wd(1)]], rule 3, rule ok_bind [OF ok_abort_check], assumption, goal_cases)
    case (1 found s2 x s3)
    then have "known (k_mem s3) u" using u(1) known_grows by blast
    then show ?case using ok_verify_on [OF wd(1) _ _ u(2), of opts s2 found] 1 by blast
  qed
qed (use it(2) in \<open>auto simp: item_step_simps\<close>)

lemma ok_execute_rebuild:
  assumes wd: "world_ok wd" "good wd opts s" and it: "known (k_mem s) it" "i_status it = IRebuilding"
    and guard: "rebuild_guard wd (k_log s) it"
  shows "ok wd opts (execute_rebuild wd opts it actor sig) (\<lambda>_ _. True) s"
  unfolding execute_rebuild_def
proof (rule ok_bind [OF ok_accept [OF wd]], rule ok_bind [OF ok_note], assumption, goal_cases)
  case (1 x s1)
  then show ?case using rebuild_guard_grows [OF _ guard] it(2) by (simp add: rebuild_allowed_def)
next
  case (2 x s1 y s2)
  show ?case
  proof (rule ok_bind [OF ok_call [OF wd(1)]], rule 2, rule ok_bind [OF ok_abort_check], assumption, goal_cases)
    case (1 z s3 u s4)
    with 2 have "known (k_mem s4) it" using it(1) known_grows by blast
    with 1 it(2) show ?case using ok_verify_rebuild [OF wd(1)] by blast
  qed
qed

lemma ok_rebuild:
  assumes wd: "world_ok wd" "good wd opts s" and it: "known (k_mem s) it" "i_status it = IDraining"
    and guard: "rebuild_guard wd (k_log s) it"
  shows "ok wd opts (rebuild_and_verify wd opts it sig) (\<lambda>_ _. True) s"
  unfolding rebuild_and_verify_def
proof (rule ok_bind [OF ok_transition [OF wd it(1)]], goal_cases)
  case (3 u s1)
  then obtain t where "u = item_written it (it\<lparr>i_status := IRebuilding\<rparr>\<lparr>i_updatedAt := t\<rparr>) t (Suc (i_revision it))"
    "known (k_mem s1) u" by blast
  then have u: "known (k_mem s1) u" "i_status u = IRebuilding" "same_attempt it u"
    by (auto simp: item_written_def same_attempt_def item_target_def)
  have g: "rebuild_guard wd (k_log s1) u" using rebuild_guard_grows [OF 3(2) guard] rebuild_guard_same [OF u(3)] by simp
  show ?case
  proof (rule ok_bind [OF ok_read [OF wd(1)]], rule 3, goal_cases)
    case (1 detail s2)
    then have k: "known (k_mem s2) u" "rebuild_guard wd (k_log s2) u" using u(1) g known_grows rebuild_guard_grows by blast+
    show ?case
      using 1 ok_execute_rebuild [OF wd(1) _ k(1) u(2) k(2)]
      by (auto intro!: ok_throw ok_bind [OF ok_abort_check] split: option.split)
  qed
qed (use it(2) in \<open>auto simp: item_step_simps\<close>)

lemma ok_from_drain:
  assumes wd: "world_ok wd" "good wd opts s" and it: "known (k_mem s) it" "i_status it = IAssessing"
    and adm: "admitted wd (k_log s) it c d"
  shows "ok wd opts (attempt_from_drain wd opts it c d sig) (\<lambda>_ _. True) s"
  unfolding attempt_from_drain_def
proof (rule ok_bind [OF ok_transition [OF wd it(1)]], goal_cases)
  case (3 u s1)
  then obtain t where "u = item_written it (it\<lparr>i_status := IDraining, i_blocker := None\<rparr>\<lparr>i_updatedAt := t\<rparr>) t (Suc (i_revision it))"
    "known (k_mem s1) u" by blast
  then have u: "known (k_mem s1) u" "i_status u = IDraining" "same_attempt it u"
    by (auto simp: item_written_def same_attempt_def item_target_def)
  have "admitted wd (k_log s1) u c d" using admitted_grows [OF 3(2) adm] admitted_same [OF u(3)] by simp
  from ok_confirm_drain [OF wd(1) 3(1) u(1,2) this] show ?case
  proof (rule ok_bind, goal_cases)
    case (1 b s2)
    then have "known (k_mem s2) u" using u(1) known_grows by blast
    with 1 u(2) wd(1) show ?case by (auto intro: ok_ret ok_rebuild)
  qed
qed (use it(2) in \<open>auto simp: item_step_simps\<close>)

section \<open>Reconciling a first start\<close>

lemma ok_first_start_outcome:
  assumes wd: "world_ok wd" "good wd opts s" and it: "known (k_mem s) it" "i_status it = IAwaitingFirstStart"
    and seen: "Seen (i_instanceId it) c \<in> set (k_log s)" "Inspected it inspected \<in> set (k_log s)"
  shows "ok wd opts (first_start_outcome wd opts it kind inspected c) (\<lambda>_ _. True) s"
proof -
  have fail: "ok wd opts (act_throw e) (\<lambda>_ _. True) s" for e :: rollout_error
    using wd(2) by (rule ok_throw)
  have put_off: "ok wd opts (defer_first_start wd opts it) (\<lambda>_ _. True) s"
    by (rule ok_defer_first_start [OF wd it])
  have done_ok: "ok wd opts (succeed wd opts it) (\<lambda>_ _. True) s"
    if "matches_catalog_target c it" "c_status c = Running \<or> inspected = Some TxCommitted"
    unfolding succeed_def
    by (rule ok_checkpoint [OF wd it(1)]) (use that it(2) seen in \<open>auto simp: checkpoint_ready_def\<close>)
  show ?thesis
    by (cases inspected; cases "the inspected") (auto simp: first_start_outcome_def fail put_off done_ok)
qed

lemma ok_reconcile:
  assumes wd: "world_ok wd" "good wd opts s" and it: "known (k_mem s) it" "i_status it = IAwaitingFirstStart"
  shows "ok wd opts (reconcile_first_start wd opts it kind sig) (\<lambda>_ _. True) s"
  unfolding reconcile_first_start_def
proof (rule ok_bind [OF ok_abort_check [OF wd(2)]], rule ok_bind [where Q = "\<lambda>_ _. True"], goal_cases)
  case (1 x s1)
  then show ?case using ok_call [OF wd(1)] by (auto intro: ok_ret split: option.split)
next
  case (2 x s1 inspected s2)
  show ?case
  proof (rule ok_bind [OF ok_note], rule 2, simp, rule ok_bind [OF ok_abort_check], assumption,
      rule ok_bind [OF ok_container [OF wd(1)]], assumption, rule ok_bind [OF ok_abort_check], assumption, goal_cases)
    case (1 y s3 z s4 found s5 w s6)
    then have k: "known (k_mem s6) it" using 2 it(1) known_grows by blast
    have "Inspected it inspected \<in> set (k_log s4)" using 1 by simp
    then have i: "Inspected it inspected \<in> set (k_log s6)" using 1 grows_log by blast
    show ?case
    proof (cases found)
      case None
      with 1 show ?thesis by (simp add: ok_throw)
    next
      case (Some c)
      with 1 have "Seen (i_instanceId it) c \<in> set (k_log s6)" by simp
      from ok_first_start_outcome [OF wd(1) _ k it(2) this i] 1 Some show ?thesis by simp
    qed
  qed
qed

section \<open>Failures\<close>

lemma ok_ignoring: "ok wd opts a Q s \<Longrightarrow> ok wd opts (ignoring_conflict a) (\<lambda>_ _. True) s"
  unfolding ignoring_conflict_def
  by (rule ok_try, erule ok_bind) (auto intro: ok_ret ok_throw split: rollout_error.split)

lemma ok_diagnostics:
  assumes wd: "world_ok wd" "good wd opts s"
  shows "ok wd opts (capture_diagnostics wd it message sig) (\<lambda>_ _. True) s"
proof (cases "wd_diagnose wd")
  case None
  with wd show ?thesis by (simp add: capture_diagnostics_def ok_ret)
next
  case (Some f)
  have "ok wd opts (act_bind (call wd (\<lambda>n. f n it)) (\<lambda>result.
               case result of
                 Unsupported \<Rightarrow> act_bind (clock wd) (\<lambda>t. act_ret (Some (Some (diagnostics_unsupported wd t message))))
               | Unavailable e \<Rightarrow> act_throw e
               | Supported d \<Rightarrow> act_bind (clock wd) (\<lambda>t. act_ret (Some (Some (diagnostics_of wd t message d)))))) (\<lambda>_ _. True) s"
    by (rule ok_bind [OF ok_call [OF wd]])
      (auto intro!: ok_ret ok_throw ok_bind [OF ok_clock] split: capability.split)
  then have "ok wd opts (act_try (act_bind (call wd (\<lambda>n. f n it)) (\<lambda>result.
               case result of
                 Unsupported \<Rightarrow> act_bind (clock wd) (\<lambda>t. act_ret (Some (Some (diagnostics_unsupported wd t message))))
               | Unavailable e \<Rightarrow> act_throw e
               | Supported d \<Rightarrow> act_bind (clock wd) (\<lambda>t. act_ret (Some (Some (diagnostics_of wd t message d))))))
            (\<lambda>e. act_bind (is_aborted sig) (\<lambda>aborted.
               if aborted then act_ret None
               else act_bind (clock wd) (\<lambda>t. act_ret (Some (Some (diagnostics_unavailable wd t message e))))))) (\<lambda>_ _. True) s"
    by (rule ok_try) (auto intro!: ok_ret ok_bind [OF ok_is_aborted] ok_bind [OF ok_clock])
  with Some wd show ?thesis by (simp add: capture_diagnostics_def ok_ret)
qed

lemma failed_item_step:
  assumes "\<not> terminal_item (i_status it)" "permanent \<or> attempt_limit opts it \<le> i_attemptCount it + 1"
  shows "item_step opts it (item_written it (it\<lparr>i_status := (if permanent \<or> i_recovery it then INeedsAttention else IFailed),
      i_error := Some e, i_blocker := b, i_attemptId := None, i_attemptCount := i_attemptCount it + 1, i_nextAttemptAt := None,
      i_finishedAt := f, i_diagnostics := d, i_updatedAt := u\<rparr>) t (Suc (i_revision it)))"
  using assms by (auto simp: item_step_simps terminal_item_def attempt_limit_def split: item_status.splits if_splits)

lemma retried_item_step:
  assumes "\<not> terminal_item (i_status it)" "i_attemptCount it + 1 < attempt_limit opts it"
  shows "item_step opts it (item_written it (it\<lparr>i_status := IQueued,
      i_error := Some e, i_blocker := b, i_attemptId := None, i_attemptCount := i_attemptCount it + 1, i_nextAttemptAt := n,
      i_diagnostics := d, i_updatedAt := u\<rparr>) t (Suc (i_revision it)))"
  using assms by (auto simp: item_step_simps terminal_item_def split: item_status.splits)

lemma ok_handle_failure:
  assumes wd: "world_ok wd" "good wd opts s" and it: "known (k_mem s) it" "\<not> terminal_item (i_status it)"
  shows "ok wd opts (handle_failure wd opts it e sig) (\<lambda>_ _. True) s"
  unfolding handle_failure_def Let_def
proof (rule ok_bind [OF ok_diagnostics [OF wd]], goal_cases)
  case (1 captured s1)
  let ?p = "permanent_failure e (error_message wd e)"
  show ?case
  proof (cases captured)
    case None
    with 1 show ?thesis by (simp add: ok_ret)
  next
    case (Some d)
    have k: "known (k_mem s2) it" if "grows s1 s2" for s2 using 1 that it(1) known_grows by blast
    show ?thesis
    proof (cases "?p \<or> attempt_limit opts it \<le> i_attemptCount it + 1")
      case True
      have "ok wd opts (act_bind (clock wd) (\<lambda>now. ignoring_conflict (transition wd it (\<lambda>x. x\<lparr>
                      i_status := (if ?p \<or> i_recovery x then INeedsAttention else IFailed),
                      i_error := Some (error_message wd e),
                      i_blocker := Some (if ?p then error_message wd e else ''retry_limit_reached''),
                      i_attemptId := None, i_attemptCount := i_attemptCount it + 1, i_nextAttemptAt := None,
                      i_finishedAt := Some now, i_diagnostics := d\<rparr>)))) (\<lambda>_ _. True) s1"
        by (rule ok_bind [OF ok_clock [OF 1(1)]], rule ok_ignoring, rule ok_transition [OF wd(1)])
          (use k failed_item_step [OF it(2) True] in simp_all)
      then show ?thesis by (simp only: Some option.case True if_True)
    next
      case False
      have "ok wd opts (act_bind (next_attempt_at wd opts (i_attemptCount it + 1)) (\<lambda>t. ignoring_conflict (transition wd it (\<lambda>x. x\<lparr>
                      i_status := IQueued, i_error := Some (error_message wd e), i_blocker := Some ''retry_scheduled'',
                      i_attemptId := None, i_attemptCount := i_attemptCount it + 1, i_nextAttemptAt := Some t,
                      i_diagnostics := d\<rparr>)))) (\<lambda>_ _. True) s1"
        by (rule ok_bind [OF ok_next_attempt [OF 1(1)]], rule ok_ignoring, rule ok_transition [OF wd(1)])
          (use k retried_item_step [OF it(2)] False in simp_all)
      then show ?thesis by (simp only: Some option.case False if_False)
    qed
  qed
qed

section \<open>Processing an item\<close>

lemma find_SomeD: "List.find P xs = Some x \<Longrightarrow> x \<in> set xs \<and> P x"
  by (induction xs) (auto split: if_splits)

lemma get_rollout_row:
  assumes inv: "rollouts_inv m" and found: "detail_item (get_rollout m rid) iid = Some it"
  shows "js_get (m_upgradeRolloutItems m) (item_key it) = Some it \<and> i_rolloutId it = rid \<and> i_instanceId it = iid"
proof -
  from found obtain r where r: "get_rollout m rid = Some (r, sort_key i_position
      (filter (\<lambda>it. i_rolloutId it = rid) (js_values (m_upgradeRolloutItems m))))"
    by (auto simp: detail_item_def get_rollout_def split: option.splits)
  with found have "List.find (\<lambda>it. i_instanceId it = iid) (sort_key i_position
      (filter (\<lambda>it. i_rolloutId it = rid) (js_values (m_upgradeRolloutItems m)))) = Some it"
    by (simp add: detail_item_def)
  from find_SomeD [OF this] have "it \<in> set (js_values (m_upgradeRolloutItems m))" "i_rolloutId it = rid" "i_instanceId it = iid"
    by auto
  moreover have "js_wf (m_upgradeRolloutItems m)" using inv by (simp add: rollouts_inv_def)
  with calculation(1) obtain k where "js_get (m_upgradeRolloutItems m) k = Some it"
    using js_in_values_iff by metis
  ultimately show ?thesis using inv unfolding rollouts_inv_def by metis
qed

lemma detail_known:
  "good wd opts s \<Longrightarrow> detail_item (get_rollout (k_mem s) rid) iid = Some it \<Longrightarrow>
   known (k_mem s) it \<and> i_rolloutId it = rid \<and> i_instanceId it = iid"
  using get_rollout_row known_row unfolding good_def by blast

lemma ok_attempt_failed:
  assumes wd: "world_ok wd" "good wd opts s"
  shows "ok wd opts (attempt_failed wd opts initial sig e) (\<lambda>_ _. True) s"
  unfolding attempt_failed_def
proof (rule ok_bind [OF ok_is_aborted [OF wd(2)]], goal_cases)
  case (1 b s1)
  have handle: "ok wd opts (act_bind (read_store wd (\<lambda>m. get_rollout m (i_rolloutId initial))) (\<lambda>detail.
         case detail_item detail (i_instanceId initial) of
           None \<Rightarrow> act_ret ()
         | Some current \<Rightarrow>
             if terminal_item (i_status current) then act_ret ()
             else handle_failure wd opts current e sig)) (\<lambda>_ _. True) s1"
  proof (rule ok_bind [OF ok_read [OF wd(1) 1(1)]], goal_cases)
    case (1 detail s2)
    show ?case
    proof (cases "detail_item detail (i_instanceId initial)")
      case None
      with 1 show ?thesis by (simp add: ok_ret)
    next
      case (Some current)
      with 1 detail_known have "known (k_mem s2) current" by blast
      with Some 1 show ?thesis using ok_handle_failure [OF wd(1) 1(1)] by (auto intro: ok_ret)
    qed
  qed
  with 1 show ?case by (auto intro: ok_ret)
qed

lemma ok_until_drain:
  assumes wd: "world_ok wd" "good wd opts s" and it: "known (k_mem s) initial"
    "i_status initial = IQueued \<or> i_status initial = IWaitingForIdle \<or> i_status initial = IAwaitingFirstStart"
  shows "ok wd opts (attempt_until_drain wd opts initial attemptId sig)
    (\<lambda>r s'. case r of None \<Rightarrow> True | Some (it, c, d) \<Rightarrow>
        known (k_mem s') it \<and> i_status it = IAssessing \<and> admitted wd (k_log s') it c d
        \<and> item_target it = item_target initial) s" (is "ok _ _ _ ?Q _")
proof -
  have pd: "ok wd opts (prepare_and_drain wd opts initial kind att sig) ?Q s1"
    if s1: "good wd opts s1" "known (k_mem s1) initial" and ready: "i_status initial \<noteq> IAwaitingFirstStart" and att: "att \<noteq> []"
    for s1 kind att
    unfolding prepare_and_drain_def
  proof (rule ok_bind [OF ok_prepare [OF wd(1) s1]], goal_cases)
    case 1
    with it(2) ready show ?case by blast
  next
    case (2 p s2)
    show ?case
    proof (cases p)
      case None
      with 2 show ?thesis by (simp add: ok_ret)
    next
      case (Some q)
      obtain u c where q: "q = (u, c)" by (cases q)
      with 2 Some have u: "known (k_mem s2) u" "i_status u = IAssessing" "i_attemptId u = Some att" "idle_seen (k_log s2) u c"
        "item_target u = item_target initial" by (auto simp: prepared_def)
      have "ok wd opts (act_bind (acquire_admission wd opts u att sig) (\<lambda>admission.
             case admission of None \<Rightarrow> act_ret None | Some drainAcquired \<Rightarrow> act_ret (Some (u, c, drainAcquired)))) ?Q s2"
      proof (rule ok_bind [OF ok_acquire [OF wd(1) 2(1) u(1,2,3) att u(4)]], goal_cases)
        case (1 r s3)
        moreover have "known (k_mem s3) u" using 1(2) u(1) known_grows by blast
        ultimately show ?case using u(2,5) by (auto intro: ok_ret split: option.split)
      qed
      with Some q show ?thesis by simp
    qed
  qed
  have rc: "ok wd opts (act_bind (reconcile_first_start wd opts initial kind sig) (\<lambda>_. act_ret None)) ?Q s1"
    if "good wd opts s1" "known (k_mem s1) initial" "i_status initial = IAwaitingFirstStart" for s1 kind
    by (rule ok_bind [OF ok_reconcile [OF wd(1) that]]) (simp add: ok_ret)
  show ?thesis
    unfolding attempt_until_drain_def
  proof (rule ok_bind [OF ok_abort_check [OF wd(2)]], goal_cases)
    case (1 x s1)
    have "ok wd opts (act_bind (read_store wd (\<lambda>m. get_rollout m (i_rolloutId initial))) (\<lambda>detail.
         case detail of
           None \<Rightarrow> act_throw (RolloutConflict ''upgrade_rollout_not_found'')
         | Some (r, _) \<Rightarrow>
             if i_status initial = IAwaitingFirstStart
             then act_bind (reconcile_first_start wd opts initial (r_taskKind r) sig) (\<lambda>_. act_ret None)
             else prepare_and_drain wd opts initial (r_taskKind r) (the attemptId) sig)) ?Q s1"
      if "js_truthy attemptId"
    proof (rule ok_bind [OF ok_read [OF wd(1) 1(1)]], goal_cases)
      case (1 detail s2)
      then have "known (k_mem s2) initial" using \<open>s1 = s\<close> it(1) known_grows by blast
      with 1 pd [of s2] rc [of s2] that show ?case by (cases attemptId) (auto intro: ok_throw split: option.split)
    qed
    with 1 show ?case by (auto intro: ok_throw)
  qed
qed

lemma ok_release:
  assumes wd: "world_ok wd" "good wd opts s"
  shows "ok wd opts (release_drain wd initial attemptId d sig) (\<lambda>_ _. True) s"
  unfolding release_drain_def
proof (rule ok_bind [OF ok_is_aborted [OF wd(2)]], goal_cases)
  case (1 b s1)
  have "ok wd opts (act_bind (note_event (Cleared (i_instanceId initial) (i_rolloutId initial) (the attemptId))) (\<lambda>_.
            call wd (\<lambda>n. wd_clear wd n (i_instanceId initial) (i_rolloutId initial) (the attemptId)))) (\<lambda>_ _. True) s1"
    by (rule ok_bind [OF ok_note], rule 1, simp, rule ok_call [OF wd(1)])
  with 1 show ?case by (auto intro: ok_ret)
qed

lemma ok_run_attempt:
  assumes wd: "world_ok wd" "good wd opts s" and it: "known (k_mem s) initial"
    "i_status initial = IQueued \<or> i_status initial = IWaitingForIdle \<or> i_status initial = IAwaitingFirstStart"
  shows "ok wd opts (run_attempt wd opts initial attemptId sig) (\<lambda>_ _. True) s"
  unfolding run_attempt_def
proof (rule ok_case [OF ok_until_drain [OF wd it]], goal_cases)
  case (1 e s1)
  then show ?case using ok_attempt_failed [OF wd(1)] by blast
next
  case (2 p s1)
  show ?case
  proof (cases p)
    case None
    with 2 show ?thesis by (simp add: ok_ret)
  next
    case (Some q)
    obtain u c d where q: "q = (u, c, d)" by (cases q)
    with 2 Some have u: "known (k_mem s1) u" "i_status u = IAssessing" "admitted wd (k_log s1) u c d" by auto
    have "ok wd opts (act_finally (act_try (attempt_from_drain wd opts u c d sig) (attempt_failed wd opts initial sig))
               (release_drain wd initial attemptId d sig)) (\<lambda>_ _. True) s1"
      by (rule ok_finally, rule ok_try [OF ok_from_drain [OF wd(1) 2(1) u]], rule ok_attempt_failed [OF wd(1)],
          assumption, rule ok_release [OF wd(1)])
    with Some q show ?thesis by simp
  qed
qed

lemma ok_process:
  assumes wd: "world_ok wd" "good wd opts s" and it: "known (k_mem s) listed"
    "i_status listed = IQueued \<or> i_status listed = IWaitingForIdle \<or> i_status listed = IAwaitingFirstStart"
  shows "ok wd opts (process_item wd opts listed sig) (\<lambda>_ _. True) s"
  unfolding process_item_def
proof (rule ok_bind [OF ok_read [OF wd]], goal_cases)
  case (1 detail s1)
  show ?case
  proof (cases "detail_item detail (i_instanceId listed)")
    case None
    with 1 show ?thesis by (simp add: ok_ret)
  next
    case (Some initial)
    have kl: "known (k_mem s1) listed" using 1(2) it(1) known_grows by blast
    have inv: "rollouts_inv (k_mem s1)" using 1(1) by (simp add: good_def)
    have row: "js_get (m_upgradeRolloutItems (k_mem s1)) (item_key initial) = Some initial"
      "i_rolloutId initial = i_rolloutId listed" "i_instanceId initial = i_instanceId listed"
      using get_rollout_row [OF inv] 1(3) Some by metis+
    have same: "initial = listed" if "i_revision initial = i_revision listed"
      by (rule known_current [OF kl]) (use row that in simp_all)
    have run: "ok wd opts (act_bind (if i_status initial = IAwaitingFirstStart then act_ret (i_attemptId initial)
                          else act_bind (fresh_id wd) (\<lambda>x. act_ret (Some x)))
                  (\<lambda>attemptId. run_attempt wd opts initial attemptId sig)) (\<lambda>_ _. True) s1"
      if "i_revision initial = i_revision listed"
    proof (rule ok_bind [where Q = "\<lambda>_ _. True"])
      show "ok wd opts (if i_status initial = IAwaitingFirstStart then act_ret (i_attemptId initial)
                          else act_bind (fresh_id wd) (\<lambda>x. act_ret (Some x))) (\<lambda>_ _. True) s1"
        using 1(1) by (auto intro!: ok_ret ok_bind [OF ok_fresh_id])
      fix a s2 assume s2: "good wd opts s2" "grows s1 s2"
      then have "known (k_mem s2) initial" using same [OF that] kl known_grows by blast
      with s2 show "ok wd opts (run_attempt wd opts initial a sig) (\<lambda>_ _. True) s2"
        using ok_run_attempt [OF wd(1)] same [OF that] it(2) by blast
    qed
    with Some 1 show ?thesis by (auto intro: ok_ret)
  qed
qed

section \<open>A run\<close>

lemma ok_item_lease:
  assumes wd: "world_ok wd" "good wd opts s"
    and a: "\<And>s'. good wd opts s' \<Longrightarrow> grows s s' \<Longrightarrow> ok wd opts a (\<lambda>_ _. True) s'"
  shows "ok wd opts (with_item_lease wd a) (\<lambda>_ _. True) s"
proof -
  have "ok wd opts (wait wd) (\<lambda>_ _. True) s" using wait_good [OF wd] by (simp add: ok_def after_wait)
  then show ?thesis
    unfolding with_item_lease_def
  proof (rule ok_bind, goal_cases)
    case (1 n s1)
    have "ok wd opts (act_bind a (\<lambda>x. act_ret (Some x))) (\<lambda>_ _. True) s1"
      by (rule ok_bind [OF a [OF 1(1,2)]]) (simp add: ok_ret)
    with 1 show ?case by (simp add: ok_ret)
  qed
qed

lemma ok_revalidate_proof:
  assumes wd: "world_ok wd" "good wd opts s" and it: "known (k_mem s) it" "proof_missing it"
    and seen: "Seen (i_instanceId it) c \<in> set (k_log s)"
  shows "ok wd opts (revalidate_proof wd opts it c) (\<lambda>_ _. True) s"
proof -
  have "ok wd opts (act_bind (succeed wd opts it) (\<lambda>_. act_ret True)) (\<lambda>_ _. True) s"
    if "matches_catalog_target c it" "c_status c = Running"
    unfolding succeed_def
    by (rule ok_bind [OF ok_checkpoint [OF wd it(1)]]) (use that it(2) seen in \<open>auto simp: checkpoint_ready_def intro: ok_ret\<close>)
  moreover have "ok wd opts (act_bind (clock wd) (\<lambda>now.
           act_bind (fresh_id wd) (\<lambda>attemptId.
           act_bind (transition wd it (first_start_patch now attemptId)) (\<lambda>_.
           act_bind (add_checkpoints [i_rolloutId it]) (\<lambda>_. act_ret True))))) (\<lambda>_ _. True) s"
  proof (rule ok_bind [OF ok_clock [OF wd(2)]], rule ok_bind [OF ok_fresh_id], assumption, goal_cases)
    case (1 now s1 att s2)
    then have k: "known (k_mem s2) it" using it(1) known_grows by blast
    show ?case
      by (rule ok_bind [OF ok_transition [OF wd(1) 1(4) k]])
        (use it(2) in \<open>auto simp: item_step_simps first_start_patch_def proof_missing_def
           intro!: ok_ret ok_bind [OF ok_add_checkpoints]\<close>)
  qed
  ultimately show ?thesis using wd by (auto simp: revalidate_proof_def intro: ok_ret)
qed

lemma ok_proof_conflict:
  assumes wd: "world_ok wd" "good wd opts s"
  shows "ok wd opts (proof_conflict wd candidate e) (\<lambda>_ _. True) s"
  unfolding proof_conflict_def
  using wd by (auto intro!: ok_ret ok_throw ok_bind [OF ok_read] split: rollout_error.split)

lemma ok_reconcile_proof:
  assumes wd: "world_ok wd" "good wd opts s"
  shows "ok wd opts (reconcile_proof wd opts candidate) (\<lambda>_ _. True) s"
  unfolding reconcile_proof_def
proof (rule ok_bind [OF ok_abort_check [OF wd(2)]], rule ok_bind [OF ok_read [OF wd(1)]], assumption, goal_cases)
  case (1 x s1 detail s2)
  show ?case
  proof (cases "detail_item detail (i_instanceId candidate)")
    case None
    with 1 show ?thesis by (simp add: ok_ret)
  next
    case (Some latest)
    with 1 detail_known have l: "known (k_mem s2) latest" "i_instanceId latest = i_instanceId candidate" by blast+
    have "ok wd opts (act_try
             (act_bind (source_container wd (i_instanceId candidate)) (\<lambda>found.
              act_bind (throw_if_aborted (item_signal wd)) (\<lambda>_.
                case found of
                  None \<Rightarrow> act_ret True
                | Some c \<Rightarrow> revalidate_proof wd opts latest c)))
             (proof_conflict wd candidate)) (\<lambda>_ _. True) s2" if p: "proof_missing latest"
    proof (rule ok_try [OF _ ok_proof_conflict [OF wd(1)]], rule ok_bind [OF ok_container [OF wd(1) 1(4)]],
        rule ok_bind [OF ok_abort_check], assumption, goal_cases)
      case (1 found s3 y s4)
      then have k: "known (k_mem s4) latest" using l(1) known_grows by blast
      show ?case
        using 1 l(2) ok_revalidate_proof [OF wd(1) _ k p] by (auto intro: ok_ret split: option.splits)
    qed
    with Some 1 show ?thesis by (auto intro: ok_ret)
  qed
qed

lemma ok_reconcile_proofs:
  assumes "world_ok wd"
  shows "good wd opts s \<Longrightarrow> ok wd opts (reconcile_proofs wd opts items) (\<lambda>_ _. True) s"
proof (induction items arbitrary: s)
  case (Cons it items)
  show ?case
    unfolding reconcile_proofs.simps
    by (rule ok_bind [OF ok_abort_check [OF Cons.prems]], rule ok_bind [OF ok_item_lease [OF assms]], assumption,
        rule ok_reconcile_proof [OF assms], assumption, rule ok_bind [OF Cons.IH], assumption, rule ok_ret) simp_all
qed (simp add: ok_ret)

lemma ok_refresh_loop:
  assumes "world_ok wd"
  shows "good wd opts s \<Longrightarrow> ok wd opts (refresh_loop n wd i) (\<lambda>_ _. True) s"
proof (induction n arbitrary: s)
  case (Suc n)
  show ?case
    unfolding refresh_loop.simps
  proof (rule ok_bind [OF ok_read [OF assms Suc.prems]], goal_cases)
    case (1 detail s1)
    show ?case
    proof (cases detail)
      case None
      with 1 show ?thesis by (simp add: ok_ret)
    next
      case (Some d)
      obtain r items where d: "d = (r, items)" by (cases d)
      have save: "ok wd opts (act_bind (write_rollout wd (\<lambda>m. cas_rollout m x v)) (\<lambda>saved.
                  if saved \<noteq> None then read_store wd (\<lambda>m. get_rollout m i)
                  else refresh_loop n wd i)) (\<lambda>_ _. True) s2" if "good wd opts s2" for s2 x v
        by (rule ok_bind [OF ok_write_rollout [OF assms that]])
          (auto simp: cas_rollout_inv intro: Suc.IH ok_any [OF ok_read [OF assms]])
      have "ok wd opts (act_bind (clock wd) (\<lambda>updatedAt.
             let x = summarized r items updatedAt
             in if summary_unchanged r x then act_ret (Some (r, items))
                else act_bind (write_rollout wd (\<lambda>m. cas_rollout m x (r_revision r))) (\<lambda>saved.
                  if saved \<noteq> None then read_store wd (\<lambda>m. get_rollout m i)
                  else refresh_loop n wd i))) (\<lambda>_ _. True) s1"
        by (rule ok_bind [OF ok_clock [OF 1(1)]]) (auto simp: Let_def simp del: not_None_eq intro: ok_ret save)
      with Some d show ?thesis by simp
    qed
  qed
qed (simp add: ok_throw)

lemma ok_refresh:
  assumes "world_ok wd" "good wd opts s"
  shows "ok wd opts (refresh_rollout wd i) (\<lambda>_ _. True) s"
  unfolding refresh_rollout_def refresh_summary_def
  by (rule ok_bind [OF ok_refresh_loop [OF assms]]) (rule ok_ret, simp_all)

lemma ok_legacy:
  assumes wd: "world_ok wd" "good wd opts s"
  shows "ok wd opts (reconcile_legacy_proofs wd opts) (\<lambda>_ _. True) s"
  unfolding reconcile_legacy_proofs_def
proof (rule ok_bind [OF ok_get [OF wd(2)]], goal_cases)
  case (1 x s1)
  have flag: "ok wd opts (\<lambda>s. (s\<lparr>k_proofsReconciled := b\<rparr>, Inr ())) (\<lambda>_ _. True) s2" if "good wd opts s2" for s2 b
    using that by (simp add: ok_def after_def good_def grows_def)
  have "ok wd opts (act_bind (read_store wd list_legacy_proof_items) (\<lambda>candidates.
            act_bind (reconcile_proofs wd opts candidates) (\<lambda>complete s. (s\<lparr>k_proofsReconciled := complete\<rparr>, Inr ())))) (\<lambda>_ _. True) s1"
    by (rule ok_bind [OF ok_read [OF wd(1) 1(1)]], rule ok_bind [OF ok_reconcile_proofs [OF wd(1)]], assumption, rule flag)
  with 1 show ?case by (auto intro: ok_ret)
qed

lemma due_status: "due_item t it \<Longrightarrow> i_status it = IQueued \<or> i_status it = IWaitingForIdle \<or> i_status it = IAwaitingFirstStart"
  by (simp add: due_item_def)

lemma ok_process_listed:
  assumes wd: "world_ok wd" "good wd opts s" and it: "known (k_mem s) it" "due_item t it"
  shows "ok wd opts (process_listed wd opts it) (\<lambda>_ _. True) s"
  unfolding process_listed_def
proof (rule ok_bind [OF ok_abort_check [OF wd(2)]], rule ok_bind [OF ok_item_lease [OF wd(1)]], assumption, goal_cases)
  case (1 x s1 s2)
  then have "known (k_mem s2) it" using it(1) known_grows by blast
  with 1 show ?case using ok_process [OF wd(1)] due_status [OF it(2)] by blast
qed (rule ok_ret, simp_all)

lemma due_items_known:
  assumes "good wd opts s" "world_ok wd" "it \<in> set (list_due_items (wd_arrange wd) (k_mem s) t limit)"
  shows "known (k_mem s) it \<and> due_item t it"
proof -
  have "it \<in> set (wd_arrange wd (filter (due_item t) (js_values (m_upgradeRolloutItems (k_mem s)))))"
    using assms(3) by (auto simp: list_due_items_def dest: in_set_takeD)
  moreover have "set (wd_arrange wd xs) \<subseteq> set xs" for xs using assms(2) by (simp add: world_ok_def)
  ultimately have "it \<in> set (filter (due_item t) (js_values (m_upgradeRolloutItems (k_mem s))))" by blast
  then have "it \<in> set (js_values (m_upgradeRolloutItems (k_mem s)))" "due_item t it" by simp_all
  moreover from this(1) assms(1) obtain k where "js_get (m_upgradeRolloutItems (k_mem s)) k = Some it" "k = item_key it"
    unfolding good_def rollouts_inv_def by (metis js_in_values_iff)
  ultimately show ?thesis using known_row by blast
qed

lemma ok_run_claimed:
  assumes wd: "world_ok wd" "good wd opts s"
  shows "ok wd opts (run_claimed wd opts) (\<lambda>_ _. True) s"
  unfolding run_claimed_def
proof (rule ok_bind [OF ok_abort_check [OF wd(2)]], rule ok_bind [where Q = "\<lambda>_ _. True"], goal_cases)
  case (1 x s1)
  then show ?case by (simp add: ok_def after_def good_def grows_def)
next
  case (2 x s1 y s2)
  show ?case
  proof (rule ok_bind [OF ok_clock [OF 2(4)]], rule ok_bind [OF ok_write_items [OF wd(1)]], assumption, goal_cases)
    case (1 now s3 m)
    then show ?case using recover_items_inv recover_items_step by blast
  next
    case (2 now s3 n s4)
    show ?case
    proof (rule ok_bind [OF ok_read [OF wd(1) 2(4)]], rule ok_bind [OF ok_legacy [OF wd(1)]], assumption,
        rule ok_bind [OF ok_each], rule ok_refresh [OF wd(1)], assumption, assumption,
        rule ok_bind [OF ok_read [OF wd(1)]], assumption, rule ok_bind [OF ok_each], goal_cases)
      case (1 rs s5 u s6 v s7 items s8 it s9)
      then have "known (k_mem s8) it" "due_item now it" using due_items_known [OF _ wd(1)] by blast+
      with 1 show ?case using ok_process_listed [OF wd(1)] known_grows by blast
    next
      case (3 rs s5 u s6 v s7 items s8 w s9)
      show ?case
        by (rule ok_bind [OF ok_abort_check], rule 3, rule ok_bind [OF ok_get], assumption,
            rule ok_bind [OF ok_each], rule ok_refresh [OF wd(1)], assumption, assumption, rule ok_ret) simp_all
    qed
  qed
qed

lemma ok_run_once:
  assumes wd: "world_ok wd" "good wd opts s"
  shows "ok wd opts (run_once wd opts) (\<lambda>_ _. True) s"
proof -
  have "ok wd opts (wait wd) (\<lambda>_ _. True) s" using wait_good [OF wd] by (simp add: ok_def after_wait)
  then show ?thesis
    unfolding run_once_def by (rule ok_bind) (simp add: ok_ret ok_run_claimed [OF wd(1)])
qed

lemma run_log:
  assumes "world_ok wd" "rollouts_inv (k_mem s)" "k_log s = []"
  shows "log_ok wd opts (k_log (fst (run_once wd opts s)))"
proof -
  have "good wd opts s" using assms(2,3) by (simp add: good_def)
  from ok_run_once [OF assms(1) this] show ?thesis
    by (auto simp: ok_def after_def good_def split: prod.splits sum.splits)
qed

section \<open>Properties\<close>

text \<open>C13: the worker moves upgrade items only along the state machine. In a run, whatever other
  processes do to the store before each access (keeping its invariant and moving items under
  new revisions), every write of the worker leaves each stored item as it is or takes it one
  revision further along an edge of the machine: in particular a succeeded, superseded, failed
  or cancelled item is never touched, and the target is kept. An item is queued again, failed or
  handed to an administrator only when an attempt of it has failed, which is counted and its
  error kept: queued again while attempts are left, failed when all are used; the one exception
  is an attempt interrupted in its course, whose item is queued again as it was, marked
  \<open>portal_restarted\<close>.\<close>

theorem worker_moves_items_along_the_machine:
  assumes "world_ok wd" "rollouts_inv (k_mem s)" "k_log s = []"
    and "Wrote m m' \<in> set (k_log (fst (run_once wd opts s)))"
  shows "items_step opts m m'"
proof -
  from assms(4) obtain l l' where "k_log (fst (run_once wd opts s)) = l @ Wrote m m' # l'" by (auto dest: split_list)
  with run_log [OF assms(1-3), of opts] log_ok_append [of wd opts l "Wrote m m'" l'] show ?thesis by simp
qed

text \<open>A quiet world: nobody interferes, everything is ready, and every drain is granted.\<close>

definition quiet_world :: world where
  "quiet_world =
     \<lparr>wd_env = (\<lambda>_ m. m), wd_now = (\<lambda>n. 1000000 + int n), wd_id = (\<lambda>_. ''a1''),
      wd_worker_lost = (\<lambda>_. False), wd_item_lost = (\<lambda>_. False), wd_lease = (\<lambda>_. True),
      wd_item_lease = (\<lambda>_. True), wd_assess = (\<lambda>_ _ _. Inr \<lparr>as_ready = True, as_reason = None\<rparr>),
      wd_confirm = None, wd_begin = Some (\<lambda>_ _ _ _ _. Inr True), wd_clear = (\<lambda>_ _ _ _. Inr ()),
      wd_accept = None, wd_rebuild = (\<lambda>_ _ _. Inr ()), wd_inspect = None, wd_diagnose = None,
      wd_arrange = (\<lambda>xs. xs), wd_sanitize = (\<lambda>t n. take n t)\<rparr>"

lemma quiet_world_ok: "world_ok quiet_world"
  by (simp add: world_ok_def quiet_world_def)

definition worker_defaults :: worker_options where
  "worker_defaults = new_worker_options None None None None"

text \<open>One queued item; its instance is running, on the version \<open>v\<close>.\<close>

definition upgrade_mem :: "string \<Rightarrow> mem" where
  "upgrade_mem v = rollout_step (fst (save_container empty_mem
     \<lparr>c_id = ''w1'', c_userId = ''u2'', c_appId = ''notes'', c_providerId = None, c_runtimeId = ''rt'',
      c_status = Running, c_endpoint = None, c_stopReason = None, c_createdAt = 1, c_updatedAt = 1,
      c_lastActivityAt = Instant 1, c_appVersionId = Some (CHR ''v'' # v), c_imageArtifactId = None,
      c_imageReference = Some (''img:'' @ v)\<rparr>))
     (RCreate (sample_rollout ''r1'' 1) [(sample_item ''r1'' 1 IQueued)\<lparr>i_desiredState := WantRunning\<rparr>])"

definition upgrade_start :: "string \<Rightarrow> wk" where
  "upgrade_start v = \<lparr>k_mem = upgrade_mem v, k_step = 0, k_log = [], k_checkpoints = [], k_proofsReconciled = False\<rparr>"

lemma upgrade_start_ok: "rollouts_inv (k_mem (upgrade_start v))" "k_log (upgrade_start v) = []"
proof -
  have "rollouts_inv (fst (save_container empty_mem c))" for c
    using rollouts_inv_empty
    by (auto simp: save_container_def store_container_def rollouts_inv_def empty_mem_def Let_def split: option.splits sum.splits)
  then have "rollouts_inv (upgrade_mem v)" unfolding upgrade_mem_def using rollout_step_inv by blast
  then show "rollouts_inv (k_mem (upgrade_start v))" "k_log (upgrade_start v) = []"
    by (simp_all add: upgrade_start_def)
qed

fun event_name :: "event \<Rightarrow> string" where
  "event_name (Wrote _ _) = ''wrote''"
| "event_name (Checkpointed _) = ''checkpoint''"
| "event_name (Seen _ _) = ''seen''"
| "event_name (Assessed _ _ _) = ''assessed''"
| "event_name (Confirmed _ _ _) = ''confirmed''"
| "event_name (Began _ _ _ _ _) = ''began''"
| "event_name (Rebuilt _ _) = ''rebuilt''"
| "event_name (Inspected _ _) = ''inspected''"
| "event_name (Cleared _ _ _) = ''cleared''"

lemma event_name_cases:
  "event_name e = ''wrote'' \<Longrightarrow> \<exists>m m'. e = Wrote m m'"
  "event_name e = ''rebuilt'' \<Longrightarrow> \<exists>it a. e = Rebuilt it a"
  "event_name e = ''checkpoint'' \<Longrightarrow> \<exists>it. e = Checkpointed it"
  by (cases e; simp)+

lemma named_event:
  assumes "map event_name l = ns" "n \<in> set ns"
  shows "\<exists>e \<in> set l. event_name e = n"
  using assms by auto

text \<open>The run that rebuilds, and the run that finds the target in place, as code evaluates them.\<close>

lemma rebuild_run:
  "map event_name (k_log (fst (run_once quiet_world worker_defaults (upgrade_start ''1'')))) =
     [''cleared'', ''wrote'', ''seen'', ''wrote'', ''rebuilt'', ''wrote'', ''confirmed'', ''seen'', ''wrote'',
      ''began'', ''assessed'', ''seen'', ''wrote'', ''wrote'']"
  by code_simp

lemma in_place_run:
  "map event_name (k_log (fst (run_once quiet_world worker_defaults (upgrade_start ''2'')))) =
     [''checkpoint'', ''wrote'', ''wrote'', ''seen'', ''wrote'', ''wrote'']"
  by code_simp

theorem worker_moves_items_along_the_machine_witness:
  "\<exists>m m'. Wrote m m' \<in> set (k_log (fst (run_once quiet_world worker_defaults (upgrade_start ''2''))))
     \<and> items_step worker_defaults m m'"
proof -
  obtain e where e: "e \<in> set (k_log (fst (run_once quiet_world worker_defaults (upgrade_start ''2''))))" "event_name e = ''wrote''"
    using named_event [OF in_place_run, of "''wrote''"] by auto
  obtain m m' where "e = Wrote m m'" using event_name_cases(1) [OF e(2)] by blast
  with e(1) show ?thesis
    using worker_moves_items_along_the_machine [OF quiet_world_ok upgrade_start_ok] by blast
qed

text \<open>C12: an instance is rebuilt only behind all guards. When the worker calls the rebuild of an
  item, the item has just been written as rebuilding under an attempt of its own; if an
  admission is configured, it had granted the drain of this very attempt, in the mode the item
  asks for; and unless the rebuild was forced, the instance was seen not running, or it was
  assessed as idle before the drain and confirmed as idle after it.\<close>

theorem rebuild_is_guarded:
  assumes "world_ok wd" "rollouts_inv (k_mem s)" "k_log s = []"
    and "k_log (fst (run_once wd opts s)) = later @ Rebuilt it actor # earlier"
  shows "rebuild_allowed wd earlier it"
  using run_log [OF assms(1-3), of opts] log_ok_append [of wd opts later "Rebuilt it actor" earlier] assms(4) by simp

theorem rebuild_is_guarded_witness:
  "\<exists>later it actor earlier.
     k_log (fst (run_once quiet_world worker_defaults (upgrade_start ''1''))) = later @ Rebuilt it actor # earlier
     \<and> rebuild_allowed quiet_world earlier it"
proof -
  obtain e where e: "e \<in> set (k_log (fst (run_once quiet_world worker_defaults (upgrade_start ''1''))))" "event_name e = ''rebuilt''"
    using named_event [OF rebuild_run, of "''rebuilt''"] by auto
  obtain it actor where "e = Rebuilt it actor" using event_name_cases(2) [OF e(2)] by blast
  with e(1) obtain later earlier where
    l: "k_log (fst (run_once quiet_world worker_defaults (upgrade_start ''1''))) = later @ Rebuilt it actor # earlier"
    by (meson split_list)
  from rebuild_is_guarded [OF quiet_world_ok upgrade_start_ok l] l show ?thesis by blast
qed

text \<open>C14: success is claimed only for what was seen. Every item the worker settles as deployed
  has been compared before with the container the store showed for its instance: version,
  artifact (where the batch captured one) and image were the target's; and an item settled as
  succeeded was moreover seen in its desired status or running, or its candidate's transaction
  was reported as committed.\<close>

theorem checkpoint_is_verified:
  assumes "world_ok wd" "rollouts_inv (k_mem s)" "k_log s = []"
    and "k_log (fst (run_once wd opts s)) = later @ Checkpointed it # earlier"
  shows "checkpoint_allowed earlier it"
  using run_log [OF assms(1-3), of opts] log_ok_append [of wd opts later "Checkpointed it" earlier] assms(4) by simp

theorem checkpoint_is_verified_witness:
  "\<exists>later it earlier.
     k_log (fst (run_once quiet_world worker_defaults (upgrade_start ''2''))) = later @ Checkpointed it # earlier
     \<and> checkpoint_allowed earlier it"
proof -
  obtain e where e: "e \<in> set (k_log (fst (run_once quiet_world worker_defaults (upgrade_start ''2''))))" "event_name e = ''checkpoint''"
    using named_event [OF in_place_run, of "''checkpoint''"] by auto
  obtain it where "e = Checkpointed it" using event_name_cases(3) [OF e(2)] by blast
  with e(1) obtain later earlier where
    l: "k_log (fst (run_once quiet_world worker_defaults (upgrade_start ''2''))) = later @ Checkpointed it # earlier"
    by (meson split_list)
  from checkpoint_is_verified [OF quiet_world_ok upgrade_start_ok l] l show ?thesis by blast
qed

end
