(* ===== verification/Rollout_Outcomes.thy ===== *)
theory Rollout_Outcomes
  imports Rollout_Safety
begin

text \<open>
  What the worker leaves behind: a drain it was granted is released, retries are spaced
  between the configured delays, and the summary of a batch is the summary of its items.
\<close>

section \<open>Actions that are granted no drain\<close>

named_theorems calm_intros "actions in whose course no drain is granted"

fun granted :: "event \<Rightarrow> bool" where
  "granted (Began _ _ _ _ b) = b"
| "granted _ = False"

definition calm :: "'a act \<Rightarrow> bool" where
  "calm a \<longleftrightarrow> (\<forall>s. \<exists>l. k_log (fst (a s)) = l @ k_log s \<and> (\<forall>e \<in> set l. \<not> granted e))"

lemma calm_pure: "(\<And>s. k_log (fst (a s)) = k_log s) \<Longrightarrow> calm a"
  by (simp add: calm_def)

lemma calm_ret [calm_intros]: "calm (act_ret x)"
  by (rule calm_pure) (simp add: act_ret_def)

lemma calm_throw [calm_intros]: "calm (act_throw e)"
  by (rule calm_pure) (simp add: act_throw_def)

lemma calm_case [calm_intros]:
  assumes "calm a" "\<And>e. calm (h e)" "\<And>x. calm (f x)"
  shows "calm (act_case a h f)"
  unfolding calm_def
proof
  fix s
  obtain l where l: "k_log (fst (a s)) = l @ k_log s" "\<forall>e \<in> set l. \<not> granted e" using assms(1) unfolding calm_def by blast
  obtain s' r where r: "a s = (s', r)" by (cases "a s")
  define b where "b = (case r of Inl e \<Rightarrow> h e | Inr x \<Rightarrow> f x)"
  have "calm b" unfolding b_def using assms(2,3) by (cases r) auto
  then obtain l' where l': "k_log (fst (b s')) = l' @ k_log s'" "\<forall>e \<in> set l'. \<not> granted e" unfolding calm_def by blast
  have "fst (act_case a h f s) = fst (b s')" by (cases r) (simp_all add: act_case_def b_def r)
  with l l' r have "k_log (fst (act_case a h f s)) = (l' @ l) @ k_log s \<and> (\<forall>e \<in> set (l' @ l). \<not> granted e)" by auto
  then show "\<exists>l. k_log (fst (act_case a h f s)) = l @ k_log s \<and> (\<forall>e \<in> set l. \<not> granted e)" by blast
qed

lemma calm_bind [calm_intros]: "calm a \<Longrightarrow> (\<And>x. calm (f x)) \<Longrightarrow> calm (act_bind a f)"
  unfolding act_bind_def by (intro calm_case calm_throw)

lemma calm_try [calm_intros]: "calm a \<Longrightarrow> (\<And>e. calm (h e)) \<Longrightarrow> calm (act_try a h)"
  unfolding act_try_def by (intro calm_case calm_ret)

lemma calm_of [calm_intros]: "calm (act_of r)"
  unfolding act_of_def by (cases r) (simp_all add: calm_intros)

lemma calm_note: "\<not> granted e \<Longrightarrow> calm (note_event e)"
  unfolding calm_def note_event_def by (intro allI exI [of _ "[e]"]) simp

lemma calm_notes [calm_intros]:
  "calm (note_event (Seen i c))" "calm (note_event (Assessed it c a))" "calm (note_event (Confirmed it c a))"
  "calm (note_event (Checkpointed it))" "calm (note_event (Rebuilt it u))" "calm (note_event (Inspected it x))"
  "calm (note_event (Cleared i r t))"
  by (rule calm_note, simp)+

lemma calm_effects [calm_intros]:
  "calm (clock wd)" "calm (fresh_id wd)" "calm (wait wd)" "calm (is_aborted sig)" "calm (add_checkpoints ids)" "calm get_wk"
  by (rule calm_pure, simp add: clock_def fresh_id_def wait_def is_aborted_def add_checkpoints_def get_wk_def)+

lemma calm_abort_check [calm_intros]: "calm (throw_if_aborted sig)"
  unfolding throw_if_aborted_def by (intro calm_intros) (simp add: calm_intros)

lemma calm_read [calm_intros]: "calm (read_store wd f)"
  unfolding read_store_def by (intro calm_intros calm_pure) simp

lemma calm_call [calm_intros]: "calm (call wd f)"
  unfolding call_def by (intro calm_intros)

lemma calm_write_items [calm_intros]: "calm (write_items wd f)"
  unfolding write_items_def
proof (intro calm_intros)
  show "calm (\<lambda>s. let r = f (k_mem s) in (s\<lparr>k_mem := fst r, k_log := Wrote (k_mem s) (fst r) # k_log s\<rparr>, Inr (snd r)))"
    unfolding calm_def Let_def fst_conv
    by (intro allI, rule_tac x = "[Wrote (k_mem s) (fst (f (k_mem s)))]" in exI) simp
qed

lemma calm_write_rollout [calm_intros]: "calm (write_rollout wd f)"
  unfolding write_rollout_def by (intro calm_intros calm_pure) (simp add: Let_def)

lemma calm_container [calm_intros]: "calm (source_container wd i)"
  unfolding source_container_def by (auto intro!: calm_intros split: sum.split option.split)

lemma calm_transition [calm_intros]: "calm (transition wd it p)"
  unfolding transition_def by (auto intro!: calm_intros split: option.split)

lemma calm_next_attempt [calm_intros]: "calm (next_attempt_at wd opts n)"
  unfolding next_attempt_at_def by (intro calm_intros)

lemma calm_checkpoint [calm_intros]: "calm (checkpoint_deployment wd opts it b e)"
  unfolding checkpoint_deployment_def by (auto intro!: calm_intros split: option.split)

lemma calm_succeed [calm_intros]: "calm (succeed wd opts it)"
  unfolding succeed_def by (intro calm_intros)

lemma calm_wait_for_idle [calm_intros]: "calm (wait_for_idle wd opts it b)"
  unfolding wait_for_idle_def by (intro calm_intros)

lemma calm_defer [calm_intros]: "calm (defer_first_start wd opts it)"
  unfolding defer_first_start_def by (intro calm_intros)

lemma calm_capture [calm_intros]: "calm (capture_snapshot wd it c)"
  unfolding capture_snapshot_def Let_def by (auto intro!: calm_intros)

lemma calm_assess [calm_intros]: "calm (assess_idle wd it c)"
  unfolding assess_idle_def by (auto intro!: calm_intros)

lemma calm_prepare_on [calm_intros]: "calm (prepare_on wd opts kind sig c it)"
  unfolding prepare_on_def by (auto intro!: calm_intros)

lemma calm_prepare [calm_intros]: "calm (prepare_attempt wd opts it kind att sig)"
  unfolding prepare_attempt_def by (auto intro!: calm_intros split: option.split)

lemma calm_confirm [calm_intros]: "calm (confirm_drain wd opts it c d sig)"
  unfolding confirm_drain_def confirm_on_def by (auto intro!: calm_intros split: option.split)

lemma calm_accept [calm_intros]: "calm (accept_candidate wd it sig)"
  unfolding accept_candidate_def by (auto intro!: calm_intros split: option.split)

lemma calm_rebuild [calm_intros]: "calm (rebuild_and_verify wd opts it sig)"
  unfolding rebuild_and_verify_def execute_rebuild_def verify_rebuild_def verify_on_def
  by (auto intro!: calm_intros split: option.split)

lemma calm_from_drain [calm_intros]: "calm (attempt_from_drain wd opts it c d sig)"
  unfolding attempt_from_drain_def by (auto intro!: calm_intros)

lemma calm_first_start [calm_intros]: "calm (reconcile_first_start wd opts it kind sig)"
  unfolding reconcile_first_start_def first_start_outcome_def
  by (auto intro!: calm_intros split: option.split inspection.split)

lemma calm_failed [calm_intros]: "calm (attempt_failed wd opts it sig e)"
  unfolding attempt_failed_def handle_failure_def ignoring_conflict_def capture_diagnostics_def Let_def
  by (auto intro!: calm_intros split: option.split rollout_error.split capability.split)

section \<open>A granted drain is released\<close>

text \<open>\<open>tracks a R\<close>: every drain granted in the course of \<open>a\<close> is related by \<open>R\<close> to its result.\<close>

definition tracks :: "'a act \<Rightarrow> (event \<Rightarrow> (rollout_error, 'a) res \<Rightarrow> bool) \<Rightarrow> bool" where
  "tracks a R \<longleftrightarrow> (\<forall>s. \<exists>l. k_log (fst (a s)) = l @ k_log s \<and> (\<forall>e \<in> set l. granted e \<longrightarrow> R e (snd (a s))))"

lemma tracks_calm: "calm a \<Longrightarrow> tracks a R"
  unfolding calm_def tracks_def by meson

lemma tracks_bind:
  assumes "calm a" "\<And>x. tracks (f x) R"
  shows "tracks (act_bind a f) R"
  unfolding tracks_def
proof
  fix s
  obtain l where l: "k_log (fst (a s)) = l @ k_log s" "\<forall>e \<in> set l. \<not> granted e" using assms(1) unfolding calm_def by blast
  obtain s' r where r: "a s = (s', r)" by (cases "a s")
  show "\<exists>l. k_log (fst (act_bind a f s)) = l @ k_log s \<and> (\<forall>e \<in> set l. granted e \<longrightarrow> R e (snd (act_bind a f s)))"
  proof (cases r)
    case (Inl e)
    with l r show ?thesis by (auto simp: act_bind_def act_case_def act_throw_def)
  next
    case (Inr x)
    obtain l' where l': "k_log (fst (f x s')) = l' @ k_log s'" "\<forall>e \<in> set l'. granted e \<longrightarrow> R e (snd (f x s'))"
      using assms(2) unfolding tracks_def by blast
    with Inr r l have "k_log (fst (act_bind a f s)) = (l' @ l) @ k_log s
        \<and> (\<forall>e \<in> set (l' @ l). granted e \<longrightarrow> R e (snd (act_bind a f s)))"
      by (auto simp: act_bind_def act_case_def)
    then show ?thesis by blast
  qed
qed

definition drain_of :: "string \<Rightarrow> event \<Rightarrow> (rollout_error, (rollout_item \<times> container \<times> bool) option) res \<Rightarrow> bool" where
  "drain_of att e r \<longleftrightarrow> (\<exists>it c mode. r = Inr (Some (it, c, True)) \<and> e = Began (i_instanceId it) (i_rolloutId it) att mode True)"

lemma tracks_acquire:
  assumes "\<And>n. \<not> sig n"
  shows "tracks (act_bind (acquire_admission wd opts it att sig) (\<lambda>admission.
             case admission of None \<Rightarrow> act_ret None | Some d \<Rightarrow> act_ret (Some (it, c, d)))) (drain_of att)"
proof (cases "wd_begin wd")
  case None
  have "calm (acquire_admission wd opts it att sig)" by (simp add: acquire_admission_def None calm_intros)
  then show ?thesis by (intro tracks_calm) (auto intro!: calm_intros split: option.split)
next
  case (Some f)
  let ?mode = "if i_forceRequested it then Force else Graceful"
  have check: "throw_if_aborted sig = act_ret ()"
    using assms by (simp add: throw_if_aborted_def is_aborted_def act_bind_def act_case_def act_ret_def fun_eq_iff)
  have idle: "calm (act_bind (wait_for_idle wd opts it ''active_connection'') (\<lambda>_. act_ret None :: bool option act))"
    by (intro calm_intros)
  have eq: "acquire_admission wd opts it att sig =
      act_bind (call wd (\<lambda>n. f n (i_instanceId it) (i_rolloutId it) att ?mode)) (\<lambda>b.
        act_bind (note_event (Began (i_instanceId it) (i_rolloutId it) att ?mode b)) (\<lambda>_.
          if b then act_ret (Some True)
          else act_bind (wait_for_idle wd opts it ''active_connection'') (\<lambda>_. act_ret None)))"
    by (simp add: acquire_admission_def Some Let_def check act_bind_def act_case_def act_ret_def fun_eq_iff
        split: prod.split sum.split)
  have inner: "tracks (act_bind (act_bind (note_event (Began (i_instanceId it) (i_rolloutId it) att ?mode b)) (\<lambda>_.
          if b then act_ret (Some True)
          else act_bind (wait_for_idle wd opts it ''active_connection'') (\<lambda>_. act_ret None)))
        (\<lambda>admission. case admission of None \<Rightarrow> act_ret None | Some d \<Rightarrow> act_ret (Some (it, c, d)))) (drain_of att)" for b
  proof (cases b)
    case True
    then show ?thesis
      unfolding tracks_def drain_of_def
      by (auto simp: act_bind_def act_case_def note_event_def act_ret_def)
  next
    case False
    then show ?thesis
      by (intro tracks_calm) (auto intro!: calm_intros calm_note split: option.split)
  qed
  have assoc: "act_bind (act_bind a g) h = act_bind a (\<lambda>x. act_bind (g x) h)"
    for a :: "bool act" and g :: "bool \<Rightarrow> bool option act" and h :: "bool option \<Rightarrow> (rollout_item \<times> container \<times> bool) option act"
    by (auto simp: act_bind_def act_case_def act_throw_def fun_eq_iff split: prod.split sum.split)
  show ?thesis unfolding eq assoc by (rule tracks_bind [OF calm_call inner])
qed

lemma tracks_until_drain:
  assumes "\<And>n. \<not> sig n"
  shows "tracks (attempt_until_drain wd opts initial attemptId sig) (drain_of (the attemptId))"
proof -
  have pd: "tracks (prepare_and_drain wd opts initial kind (the attemptId) sig) (drain_of (the attemptId))" for kind
    unfolding prepare_and_drain_def
  proof (rule tracks_bind [OF calm_prepare], goal_cases)
    case (1 p)
    then show ?case
      by (cases p) (auto intro: tracks_calm [OF calm_ret] tracks_acquire [OF assms])
  qed
  show ?thesis
    unfolding attempt_until_drain_def
  proof (rule tracks_bind [OF calm_abort_check], goal_cases)
    case (1 u)
    have "tracks (act_bind (read_store wd (\<lambda>m. get_rollout m (i_rolloutId initial))) (\<lambda>detail.
         case detail of
           None \<Rightarrow> act_throw (RolloutConflict ''upgrade_rollout_not_found'')
         | Some (r, _) \<Rightarrow>
             if i_status initial = IAwaitingFirstStart
             then act_bind (reconcile_first_start wd opts initial (r_taskKind r) sig) (\<lambda>_. act_ret None)
             else prepare_and_drain wd opts initial (r_taskKind r) (the attemptId) sig)) (drain_of (the attemptId))"
      by (rule tracks_bind [OF calm_read]) (auto intro!: pd tracks_calm calm_intros split: option.split)
    then show ?case by (simp add: tracks_calm calm_intros)
  qed
qed

text \<open>The log has grown without a granted drain; and: every drain granted since has been released.\<close>

definition calmly :: "wk \<Rightarrow> wk \<Rightarrow> bool" where
  "calmly s s' \<longleftrightarrow> (\<exists>l. k_log s' = l @ k_log s \<and> (\<forall>e \<in> set l. \<not> granted e))"

definition released :: "wk \<Rightarrow> wk \<Rightarrow> bool" where
  "released s s' \<longleftrightarrow> (\<exists>l. k_log s' = l @ k_log s
     \<and> (\<forall>i r a mode. Began i r a mode True \<in> set l \<longrightarrow> Cleared i r a \<in> set l))"

lemma calmly_refl [simp]: "calmly s s"
  by (simp add: calmly_def)

lemma calmly_trans: "calmly s s' \<Longrightarrow> calmly s' s'' \<Longrightarrow> calmly s s''"
  unfolding calmly_def by (metis Un_iff append.assoc set_append)

lemma calmly_released: "calmly s s' \<Longrightarrow> released s s'"
  unfolding calmly_def released_def by (metis granted.simps(1))

lemma calm_after: "calm a \<Longrightarrow> after a (\<lambda>_. calmly s) (\<lambda>_. calmly s) s"
proof -
  assume "calm a"
  then have "calmly s (fst (a s))" by (simp add: calm_def calmly_def)
  then show ?thesis by (cases "a s"; cases "snd (a s)") (simp_all add: after_def)
qed

lemma calm_after_trans: "calm a \<Longrightarrow> calmly s0 s \<Longrightarrow> after a (\<lambda>_. calmly s0) (\<lambda>_. calmly s0) s"
  by (rule after_mono [OF calm_after]) (auto intro: calmly_trans)

lemma release_after:
  assumes "js_truthy attemptId" "\<And>n. \<not> sig n"
  shows "after (release_drain wd initial attemptId True sig)
     (\<lambda>_. calmly (s\<lparr>k_log := Cleared (i_instanceId initial) (i_rolloutId initial) (the attemptId) # k_log s\<rparr>))
     (\<lambda>_. calmly (s\<lparr>k_log := Cleared (i_instanceId initial) (i_rolloutId initial) (the attemptId) # k_log s\<rparr>)) s"
  unfolding release_drain_def using assms by (simp add: calm_after [OF calm_call])

lemma release_idle: "release_drain wd initial attemptId False sig = act_ret ()"
  by (simp add: release_drain_def is_aborted_def act_bind_def act_case_def act_ret_def fun_eq_iff)

lemma drain_needs_attempt:
  "snd (attempt_until_drain wd opts initial attemptId sig s) = Inr (Some x) \<Longrightarrow> js_truthy attemptId"
  by (rule ccontr)
    (auto simp: attempt_until_drain_def throw_if_aborted_def is_aborted_def act_bind_def act_case_def act_throw_def act_ret_def
      split: if_splits)

lemma after_run_attempt:
  assumes "attempt_until_drain wd opts initial attemptId sig s = (s1, r)"
  shows "after (run_attempt wd opts initial attemptId sig) Q E s =
    (case r of
       Inl e \<Rightarrow> after (attempt_failed wd opts initial sig e) Q E s1
     | Inr None \<Rightarrow> Q () s1
     | Inr (Some (it, c, d)) \<Rightarrow>
         after (act_finally (act_try (attempt_from_drain wd opts it c d sig) (attempt_failed wd opts initial sig))
               (release_drain wd initial attemptId d sig)) Q E s1)"
  unfolding run_attempt_def after_case
  by (simp add: after_def [of "attempt_until_drain wd opts initial attemptId sig"] assms split: sum.split option.split)

lemma run_attempt_released:
  assumes wd: "world_ok wd" "good wd opts s" and it: "known (k_mem s) initial"
    "i_status initial = IQueued \<or> i_status initial = IWaitingForIdle \<or> i_status initial = IAwaitingFirstStart"
    and sig: "\<And>n. \<not> sig n"
  shows "after (run_attempt wd opts initial attemptId sig) (\<lambda>_. released s) (\<lambda>_. released s) s"
proof -
  obtain s1 r where r: "attempt_until_drain wd opts initial attemptId sig s = (s1, r)"
    by (cases "attempt_until_drain wd opts initial attemptId sig s")
  have "\<exists>l. k_log s1 = l @ k_log s \<and> (\<forall>e \<in> set l. granted e \<longrightarrow> drain_of (the attemptId) e r)"
  proof -
    have "tracks (attempt_until_drain wd opts initial attemptId sig) (drain_of (the attemptId))"
      by (rule tracks_until_drain) (rule sig)
    from this [unfolded tracks_def, THEN spec, of s] show ?thesis by (simp add: r)
  qed
  then obtain l where l: "k_log s1 = l @ k_log s"
    "\<forall>e \<in> set l. granted e \<longrightarrow> drain_of (the attemptId) e r" by blast
  have failed: "after (attempt_failed wd opts initial sig e) (\<lambda>_. calmly s0) (\<lambda>_. calmly s0) s2" if "calmly s0 s2" for s0 s2 e
    using calm_after_trans [OF calm_failed that] .
  show ?thesis
  proof (cases r)
    case (Inl e)
    then have "\<forall>e \<in> set l. \<not> granted e" using l(2) by (simp add: drain_of_def)
    with l(1) have "calmly s s1" unfolding calmly_def by blast
    have "after (attempt_failed wd opts initial sig e) (\<lambda>_. released s) (\<lambda>_. released s) s1"
      by (rule after_mono [OF failed [OF \<open>calmly s s1\<close>]]) (rule calmly_released, assumption)+
    then show ?thesis unfolding after_run_attempt [OF r] Inl sum.case .
  next
    case (Inr p)
    show ?thesis
    proof (cases p)
      case None
      then have "\<forall>e \<in> set l. \<not> granted e" using l(2) Inr by (simp add: drain_of_def)
      with l(1) have "calmly s s1" unfolding calmly_def by blast
      then show ?thesis unfolding after_run_attempt [OF r] Inr None sum.case option.case by (rule calmly_released)
    next
      case (Some q)
      obtain u c d where q: "q = (u, c, d)" by (cases q)
      have truthy: "js_truthy attemptId" using drain_needs_attempt r Inr Some by (metis snd_conv)
      have target: "item_target u = item_target initial"
        using ok_until_drain [OF wd it, of attemptId sig] r Inr Some q by (simp add: ok_def after_def)
      have body: "after (act_try (attempt_from_drain wd opts u c d sig) (attempt_failed wd opts initial sig))
          (\<lambda>_. calmly s1) (\<lambda>_. calmly s1) s1"
        by (rule calm_after) (intro calm_intros)
      have fin: "after (release_drain wd initial attemptId d sig) (\<lambda>_. released s) (\<lambda>_. released s) s2"
        if s2: "calmly s1 s2" for s2
      proof (cases d)
        case False
        then have "\<forall>e \<in> set l. \<not> granted e" using l(2) Inr Some q by (simp add: drain_of_def)
        with l(1) have "calmly s s1" unfolding calmly_def by blast
        with s2 False show ?thesis using calmly_trans calmly_released by (auto simp: release_idle)
      next
        case True
        have rel: "released s s3" if "calmly (s2\<lparr>k_log := Cleared (i_instanceId initial) (i_rolloutId initial) (the attemptId) # k_log s2\<rparr>) s3" for s3
        proof -
          from that s2 obtain l2 l3 where l2: "k_log s2 = l2 @ k_log s1" "\<forall>e \<in> set l2. \<not> granted e"
            and l3: "k_log s3 = l3 @ Cleared (i_instanceId initial) (i_rolloutId initial) (the attemptId) # k_log s2" "\<forall>e \<in> set l3. \<not> granted e"
            unfolding calmly_def by auto
          let ?l = "l3 @ Cleared (i_instanceId initial) (i_rolloutId initial) (the attemptId) # l2 @ l"
          have "k_log s3 = ?l @ k_log s" using l l2 l3 by simp
          moreover have "Cleared i r a \<in> set ?l" if "Began i r a mode True \<in> set ?l" for i r a mode
          proof -
            from that l2(2) l3(2) have "Began i r a mode True \<in> set l" by auto
            with l(2) have "drain_of (the attemptId) (Began i r a mode True) (Inr (Some (u, c, d)))"
              using Inr Some q by (metis granted.simps(1))
            with item_target_ids [OF target] show ?thesis by (auto simp: drain_of_def)
          qed
          ultimately show ?thesis unfolding released_def by blast
        qed
        have "after (release_drain wd initial attemptId True sig) (\<lambda>_. released s) (\<lambda>_. released s) s2"
          by (rule after_mono [OF release_after [OF truthy sig]]) (erule rel)+
        with True show ?thesis by simp
      qed
      have "after (act_finally (act_try (attempt_from_drain wd opts u c d sig) (attempt_failed wd opts initial sig))
               (release_drain wd initial attemptId d sig)) (\<lambda>_. released s) (\<lambda>_. released s) s1"
        unfolding after_finally by (rule after_mono [OF body]) (rule fin, assumption)+
      then show ?thesis unfolding after_run_attempt [OF r] Inr Some q sum.case option.case prod.case .
    qed
  qed
qed

lemma process_item_released:
  assumes wd: "world_ok wd" "good wd opts s" and it: "known (k_mem s) listed"
    "i_status listed = IQueued \<or> i_status listed = IWaitingForIdle \<or> i_status listed = IAwaitingFirstStart"
    and sig: "\<And>n. \<not> sig n"
  shows "after (process_item wd opts listed sig) (\<lambda>_. released s) (\<lambda>_. released s) s"
proof -
  define s1 where "s1 = s\<lparr>k_mem := wd_env wd (k_step s) (k_mem s), k_step := Suc (k_step s)\<rparr>"
  have s1: "good wd opts s1" "grows s s1" "k_log s1 = k_log s" using wait_good [OF wd] by (simp_all add: s1_def)
  have idle: "released s s1" using s1(3) by (auto simp: released_def)
  have run: "after (act_bind (if i_status initial = IAwaitingFirstStart then act_ret (i_attemptId initial)
                          else act_bind (fresh_id wd) (\<lambda>x. act_ret (Some x)))
                  (\<lambda>attemptId. run_attempt wd opts initial attemptId sig)) (\<lambda>_. released s) (\<lambda>_. released s) s1"
    if found: "detail_item (get_rollout (k_mem s1) (i_rolloutId listed)) (i_instanceId listed) = Some initial"
      and same: "i_revision initial = i_revision listed" for initial
  proof -
    have "initial = listed"
    proof (rule known_current [OF known_grows [OF s1(2) it(1)] _ same])
      have "rollouts_inv (k_mem s1)" using s1(1) by (simp add: good_def)
      from get_rollout_row [OF this found] show "js_get (m_upgradeRolloutItems (k_mem s1)) (item_key listed) = Some initial" by metis
    qed
    then have i: "known (k_mem s1) initial"
      "i_status initial = IQueued \<or> i_status initial = IWaitingForIdle \<or> i_status initial = IAwaitingFirstStart"
      using it known_grows [OF s1(2)] by simp_all
    have "after (run_attempt wd opts initial att sig) (\<lambda>_. released s) (\<lambda>_. released s) s2"
      if "k_mem s2 = k_mem s1" "k_log s2 = k_log s1" for s2 att
    proof -
      have "good wd opts s2" "known (k_mem s2) initial" using that s1(1) i(1) by (simp_all add: good_def)
      then have "after (run_attempt wd opts initial att sig) (\<lambda>_. released s2) (\<lambda>_. released s2) s2"
        by (rule run_attempt_released [OF wd(1) _ _ i(2)]) (rule sig)
      moreover have "released s2 = released s"
        using that(2) s1(3) by (intro ext) (simp add: released_def)
      ultimately show ?thesis by simp
    qed
    then show ?thesis by simp
  qed
  show ?thesis
    unfolding process_item_def after_bind after_read Let_def s1_def [symmetric]
  proof (cases "detail_item (get_rollout (k_mem s1) (i_rolloutId listed)) (i_instanceId listed)")
    case None
    then show "after (case detail_item (get_rollout (k_mem s1) (i_rolloutId listed)) (i_instanceId listed) of None \<Rightarrow> act_ret ()
       | Some initial \<Rightarrow>
           if i_revision initial \<noteq> i_revision listed \<or> terminal_item (i_status initial) then act_ret ()
           else act_bind (if i_status initial = IAwaitingFirstStart then act_ret (i_attemptId initial)
                          else act_bind (fresh_id wd) (\<lambda>x. act_ret (Some x)))
                  (\<lambda>attemptId. run_attempt wd opts initial attemptId sig)) (\<lambda>_. released s) (\<lambda>_. released s) s1"
      using idle by simp
  next
    case (Some initial)
    then show "after (case detail_item (get_rollout (k_mem s1) (i_rolloutId listed)) (i_instanceId listed) of None \<Rightarrow> act_ret ()
       | Some initial \<Rightarrow>
           if i_revision initial \<noteq> i_revision listed \<or> terminal_item (i_status initial) then act_ret ()
           else act_bind (if i_status initial = IAwaitingFirstStart then act_ret (i_attemptId initial)
                          else act_bind (fresh_id wd) (\<lambda>x. act_ret (Some x)))
                  (\<lambda>attemptId. run_attempt wd opts initial attemptId sig)) (\<lambda>_. released s) (\<lambda>_. released s) s1"
      using idle run [OF Some] by (simp del: after_bind)
  qed
qed

text \<open>C16: a drain the worker was granted does not outlive the attempt. If the leases are not lost
  while an item is processed, then for every drain granted for it in the course the release of
  exactly that drain (instance, batch and attempt) has been requested at the end, whether the
  attempt succeeded, was put off, failed or ran into a conflict.\<close>

theorem granted_drain_is_released:
  assumes "world_ok wd" "rollouts_inv (k_mem s)" "k_log s = []"
    and "js_get (m_upgradeRolloutItems (k_mem s)) (item_key it) = Some it" "due_item t it"
    and "\<And>n. \<not> sig n"
    and "Began i r a mode True \<in> set (k_log (fst (process_item wd opts it sig s)))"
  shows "Cleared i r a \<in> set (k_log (fst (process_item wd opts it sig s)))"
proof -
  have good: "good wd opts s" using assms(2,3) by (simp add: good_def)
  have "after (process_item wd opts it sig) (\<lambda>_. released s) (\<lambda>_. released s) s"
    by (rule process_item_released [OF assms(1) good known_row [OF assms(4)] due_status [OF assms(5)] assms(6)])
  then have "released s (fst (process_item wd opts it sig s))"
    by (auto simp: after_def split: prod.splits sum.splits)
  with assms(3,7) show ?thesis by (auto simp: released_def)
qed

fun w1_drained :: "event \<Rightarrow> bool" where
  "w1_drained (Began i r a mode b) \<longleftrightarrow> b \<and> i = ''w1'' \<and> r = ''r1'' \<and> a = ''a1''"
| "w1_drained _ = False"

lemma w1_drainedD: "w1_drained e \<Longrightarrow> \<exists>mode. e = Began ''w1'' ''r1'' ''a1'' mode True"
  by (cases e) auto

theorem granted_drain_is_released_witness:
  "Cleared ''w1'' ''r1'' ''a1'' \<in> set (k_log (fst (process_item quiet_world worker_defaults
     ((sample_item ''r1'' 1 IQueued)\<lparr>i_desiredState := WantRunning\<rparr>) (\<lambda>_. False) (upgrade_start ''1''))))"
proof -
  let ?it = "(sample_item ''r1'' 1 IQueued)\<lparr>i_desiredState := WantRunning\<rparr>"
  have row: "js_get (m_upgradeRolloutItems (k_mem (upgrade_start ''1''))) (item_key ?it) = Some ?it"
    and due: "due_item 9 ?it" by code_simp+
  have sig: "\<not> (\<lambda>_. False) n" for n :: nat by simp
  have "list_ex w1_drained
      (k_log (fst (process_item quiet_world worker_defaults ?it (\<lambda>_. False) (upgrade_start ''1''))))"
    by code_simp
  then obtain mode where "Began ''w1'' ''r1'' ''a1'' mode True
      \<in> set (k_log (fst (process_item quiet_world worker_defaults ?it (\<lambda>_. False) (upgrade_start ''1''))))"
    unfolding list_ex_iff using w1_drainedD by blast
  from granted_drain_is_released [OF quiet_world_ok upgrade_start_ok row due sig this] show ?thesis .
qed

section \<open>Retries\<close>

text \<open>Retries are spaced between the configured delays. For options as the constructor makes
  them, with a delay that is not negative, the wait after the \<open>n\<close>-th failure is at least the
  first delay and at most the largest, never shrinks with \<open>n\<close>, and is doubled by each further
  failure until the largest delay cuts it off.\<close>

theorem retry_delay_is_bounded:
  assumes "opts = new_worker_options retry maxRetry batch attempts" "0 \<le> wo_retryDelayMs opts"
  shows "wo_retryDelayMs opts \<le> next_attempt_delay opts n \<and> next_attempt_delay opts n \<le> wo_maxRetryDelayMs opts
    \<and> next_attempt_delay opts n \<le> next_attempt_delay opts (Suc n)
    \<and> next_attempt_delay opts (Suc (Suc n)) = min (wo_maxRetryDelayMs opts) (2 * next_attempt_delay opts (Suc n))"
proof -
  have le: "wo_retryDelayMs opts \<le> wo_maxRetryDelayMs opts" by (simp add: assms(1) new_worker_options_def Let_def)
  have pow: "wo_retryDelayMs opts * 2 ^ k \<le> wo_retryDelayMs opts * 2 ^ Suc k" for k
    using assms(2) by simp
  have one: "wo_retryDelayMs opts \<le> wo_retryDelayMs opts * 2 ^ k" for k
    using assms(2) mult_left_mono [of 1 "2 ^ k" "wo_retryDelayMs opts"] by simp
  have mono: "next_attempt_delay opts n \<le> next_attempt_delay opts (Suc n)"
    using pow [of "n - 1"] by (cases n) (auto simp: next_attempt_delay_def min_def)
  have nonneg: "0 \<le> wo_maxRetryDelayMs opts" using le assms(2) by simp
  have "next_attempt_delay opts (Suc (Suc n)) = min (wo_maxRetryDelayMs opts) (2 * next_attempt_delay opts (Suc n))"
    using nonneg by (auto simp: next_attempt_delay_def min_def)
  with mono le one [of "n - 1"] show ?thesis by (simp add: next_attempt_delay_def)
qed

theorem retry_delay_is_bounded_witness:
  "next_attempt_delay (new_worker_options None None None None) 3 = 120000
   \<and> next_attempt_delay (new_worker_options None None None None) 9 \<le> 300000"
proof -
  have nonneg: "0 \<le> wo_retryDelayMs (new_worker_options None None None None)" by (simp add: new_worker_options_def Let_def)
  show ?thesis using retry_delay_is_bounded [OF refl nonneg, of 9]
    by (simp add: next_attempt_delay_def new_worker_options_def Let_def)
qed

text \<open>Without interference and loss of leases, a failure writes the item and nothing else.\<close>

lemma diagnostics_alone:
  assumes env: "\<And>n m. wd_env wd n m = m" and sig: "\<And>n. \<not> sig n"
  shows "after (capture_diagnostics wd it message sig) (\<lambda>d s'. d \<noteq> None \<and> k_mem s' = k_mem s) (\<lambda>_ _. False) s"
  unfolding capture_diagnostics_def call_def
  by (auto simp: after_wait env sig split: option.split sum.split capability.split)

lemma transition_alone:
  assumes env: "\<And>n m. wd_env wd n m = m" and row: "js_get (m_upgradeRolloutItems (k_mem s)) (item_key it) = Some it"
    and key: "\<And>t. item_key ((p it)\<lparr>i_updatedAt := t\<rparr>) = item_key it"
  shows "after (transition wd it p)
     (\<lambda>u s'. \<exists>t. u = item_written it ((p it)\<lparr>i_updatedAt := t\<rparr>) t (Suc (i_revision it))
        \<and> js_get (m_upgradeRolloutItems (k_mem s')) (item_key it) = Some u)
     (\<lambda>_ _. False) s"
  using row key
  by (auto simp: transition_def after_write_items env Let_def cas_item_def intro!: exI [of _ "wd_now wd (k_step s)"])

text \<open>The row of the item \<open>it\<close> after one more failure.\<close>

definition failed_row :: "worker_options \<Rightarrow> rollout_item \<Rightarrow> wk \<Rightarrow> bool" where
  "failed_row opts it s' \<longleftrightarrow>
     (\<exists>u. js_get (m_upgradeRolloutItems (k_mem s')) (item_key it) = Some u \<and> item_target u = item_target it
       \<and> i_attemptCount u = Suc (i_attemptCount it)
       \<and> (terminal_item (i_status u) \<or> (i_status u = IQueued \<and> i_attemptCount u < attempt_limit opts it)))"

lemma handle_failure_alone:
  assumes env: "\<And>n m. wd_env wd n m = m" and sig: "\<And>n. \<not> sig n"
    and row: "js_get (m_upgradeRolloutItems (k_mem s)) (item_key it) = Some it"
  shows "after (handle_failure wd opts it e sig) (\<lambda>_. failed_row opts it) (\<lambda>_ _. False) s"
  unfolding handle_failure_def Let_def after_bind
proof (rule after_mono [OF diagnostics_alone [OF env sig]], goal_cases)
  case (1 captured s1)
  then obtain d where d: "captured = Some d" by blast
  let ?p = "permanent_failure e (error_message wd e)"
  have row': "js_get (m_upgradeRolloutItems (k_mem s2)) (item_key it) = Some it" if "k_mem s2 = k_mem s1" for s2
    using row 1 that by simp
  have fin: "after (ignoring_conflict (transition wd it (\<lambda>x. x\<lparr>
                      i_status := (if ?p \<or> i_recovery x then INeedsAttention else IFailed),
                      i_error := Some (error_message wd e),
                      i_blocker := Some (if ?p then error_message wd e else ''retry_limit_reached''),
                      i_attemptId := None, i_attemptCount := i_attemptCount it + 1, i_nextAttemptAt := None,
                      i_finishedAt := Some now, i_diagnostics := d\<rparr>))) (\<lambda>_. failed_row opts it) (\<lambda>_ _. False) s2"
    if "k_mem s2 = k_mem s1" for s2 now
    unfolding ignoring_conflict_def after_try after_bind after_ret
    by (rule after_mono [OF transition_alone [OF env row' [OF that]]])
      (auto simp: failed_row_def item_written_def item_target_def terminal_item_def split: if_splits)
  have again: "after (ignoring_conflict (transition wd it (\<lambda>x. x\<lparr>
                      i_status := IQueued, i_error := Some (error_message wd e), i_blocker := Some ''retry_scheduled'',
                      i_attemptId := None, i_attemptCount := i_attemptCount it + 1, i_nextAttemptAt := Some t,
                      i_diagnostics := d\<rparr>))) (\<lambda>_. failed_row opts it) (\<lambda>_ _. False) s2"
    if "k_mem s2 = k_mem s1" "i_attemptCount it + 1 < attempt_limit opts it" for s2 t
    unfolding ignoring_conflict_def after_try after_bind after_ret
    by (rule after_mono [OF transition_alone [OF env row' [OF that(1)]]])
      (use that(2) in \<open>auto simp: failed_row_def item_written_def item_target_def\<close>)
  show ?case
  proof (cases "?p \<or> attempt_limit opts it \<le> i_attemptCount it + 1")
    case True
    then show ?thesis unfolding d option.case by (simp only: True if_True after_bind after_clock) (rule fin, simp)
  next
    case False
    then show ?thesis unfolding d option.case next_attempt_at_def
      by (simp only: False if_False after_bind after_clock after_ret) (rule again, use False in auto)
  qed
qed simp

lemma get_rollout_complete:
  assumes inv: "rollouts_inv m" and row: "js_get (m_upgradeRolloutItems m) (item_key it) = Some u"
    and ids: "item_target u = item_target it"
  shows "detail_item (get_rollout m (i_rolloutId it)) (i_instanceId it) = Some u"
proof -
  have u: "i_rolloutId u = i_rolloutId it" "i_instanceId u = i_instanceId it" using item_target_ids [OF ids] by simp_all
  have "js_has (m_upgradeRollouts m) (i_rolloutId it)" using inv row u unfolding rollouts_inv_def by metis
  then obtain r where r: "js_get (m_upgradeRollouts m) (i_rolloutId it) = Some r" by (auto simp: js_has_def)
  have "u \<in> set (js_values (m_upgradeRolloutItems m))" by (rule js_get_in_values [OF row])
  with u have "detail_item (get_rollout m (i_rolloutId it)) (i_instanceId it) \<noteq> None"
    by (simp add: detail_item_def get_rollout_def r find_None_iff) blast
  then obtain v where v: "detail_item (get_rollout m (i_rolloutId it)) (i_instanceId it) = Some v" by blast
  from get_rollout_row [OF inv v] have "js_get (m_upgradeRolloutItems m) (item_key it) = Some v" by metis
  with row v show ?thesis by simp
qed

text \<open>One more failure of the item \<open>it\<close>, whose row is \<open>u\<close>.\<close>

lemma one_failure:
  fixes msg :: string and att :: bool
  assumes env: "world_ok wd" "\<And>n m. wd_env wd n m = m" and sig: "\<And>n. \<not> sig n" and good: "good wd opts s"
    and row: "js_get (m_upgradeRolloutItems (k_mem s)) (item_key it) = Some u" "item_target u = item_target it"
  defines "s' \<equiv> fst (attempt_failed wd opts it sig (OtherError msg att) s)"
  shows "good wd opts s' \<and> (if terminal_item (i_status u)
      then js_get (m_upgradeRolloutItems (k_mem s')) (item_key it) = Some u else failed_row opts u s')"
proof -
  have ids: "i_rolloutId u = i_rolloutId it" "i_instanceId u = i_instanceId it" using item_target_ids [OF row(2)] by simp_all
  have inv: "rollouts_inv (k_mem s)" using good by (simp add: good_def)
  have "after (attempt_failed wd opts it sig (OtherError msg att))
      (\<lambda>_ s'. if terminal_item (i_status u) then js_get (m_upgradeRolloutItems (k_mem s')) (item_key it) = Some u
             else failed_row opts u s') (\<lambda>_ _. False) s"
    unfolding attempt_failed_def after_bind after_is_aborted
    using sig handle_failure_alone [of wd sig, OF env(2) sig, of _ u opts] row ids get_rollout_complete [OF inv row]
    by (simp add: after_read env(2))
  moreover have "after (attempt_failed wd opts it sig (OtherError msg att)) (\<lambda>_. good wd opts) (\<lambda>_. good wd opts) s"
    by (rule after_mono [OF ok_attempt_failed [OF env(1) good, unfolded ok_def]]) simp_all
  ultimately show ?thesis
    unfolding s'_def by (auto simp: after_def split: prod.splits sum.splits)
qed

text \<open>The handler of failed attempts alone: without interference, however often and with whatever
  errors it is called for an item, after as many failures as the budget has left (at least one) the
  item is settled as failed or as needing attention, and further calls do not change that. (That
  whole runs of the worker keep to the budget is shown in \<open>Rollout_Budget\<close>.)\<close>

theorem repeated_failures_settle:
  assumes "world_ok wd" "\<And>n m. wd_env wd n m = m" "\<And>n. \<not> sig n" "rollouts_inv (k_mem s)" "k_log s = []"
    and "js_get (m_upgradeRolloutItems (k_mem s)) (item_key it) = Some it"
    and "max 1 (attempt_limit opts it - i_attemptCount it) \<le> length errors"
  shows "\<exists>u. js_get (m_upgradeRolloutItems (k_mem (foldl
      (\<lambda>s (msg, att). fst (attempt_failed wd opts it sig (OtherError msg att) s)) s errors))) (item_key it) = Some u
    \<and> terminal_item (i_status u)"
proof -
  have "\<exists>u'. js_get (m_upgradeRolloutItems (k_mem (foldl
        (\<lambda>s (msg, att). fst (attempt_failed wd opts it sig (OtherError msg att) s)) s errors))) (item_key it) = Some u'
      \<and> terminal_item (i_status u')"
    if "good wd opts s" "js_get (m_upgradeRolloutItems (k_mem s)) (item_key it) = Some u" "item_target u = item_target it"
      "terminal_item (i_status u) \<or> max 1 (attempt_limit opts it - i_attemptCount u) \<le> length errors" for s u errors
    using that
  proof (induction errors arbitrary: s u)
    case (Cons e errors)
    obtain msg att where e: "e = (msg, att)" by (cases e)
    let ?s = "fst (attempt_failed wd opts it sig (OtherError msg att) s)"
    have limit: "attempt_limit opts u = attempt_limit opts it" using Cons.prems(3) by (simp add: attempt_limit_def item_target_def)
    have key: "item_key u = item_key it" using item_target_ids [OF Cons.prems(3)] by simp
    from one_failure [of wd sig, OF assms(1,2,3) Cons.prems(1,2,3), of msg att]
    have g: "good wd opts ?s" and u: "if terminal_item (i_status u)
        then js_get (m_upgradeRolloutItems (k_mem ?s)) (item_key it) = Some u else failed_row opts u ?s" by blast+
    have "\<exists>v. js_get (m_upgradeRolloutItems (k_mem ?s)) (item_key it) = Some v \<and> item_target v = item_target it
        \<and> (terminal_item (i_status v) \<or> max 1 (attempt_limit opts it - i_attemptCount v) \<le> length errors)"
    proof (cases "terminal_item (i_status u)")
      case True
      with u Cons.prems(3) show ?thesis by auto
    next
      case False
      with u obtain v where v: "js_get (m_upgradeRolloutItems (k_mem ?s)) (item_key it) = Some v" "item_target v = item_target u"
        "i_attemptCount v = Suc (i_attemptCount u)"
        "terminal_item (i_status v) \<or> i_attemptCount v < attempt_limit opts u"
        by (auto simp: failed_row_def key)
      moreover have "terminal_item (i_status v) \<or> max 1 (attempt_limit opts it - i_attemptCount v) \<le> length errors"
        using v(3,4) False Cons.prems(4) limit by auto
      ultimately show ?thesis using Cons.prems(3) by auto
    qed
    then obtain v where v: "js_get (m_upgradeRolloutItems (k_mem ?s)) (item_key it) = Some v" "item_target v = item_target it"
      "terminal_item (i_status v) \<or> max 1 (attempt_limit opts it - i_attemptCount v) \<le> length errors" by blast
    from Cons.IH [OF g v] show ?case by (simp add: e)
  qed auto
  from this [of s it errors] assms(4-7) show ?thesis by (simp add: good_def)
qed

theorem repeated_failures_settle_witness:
  "\<exists>u. js_get (m_upgradeRolloutItems (k_mem (foldl
      (\<lambda>s (msg, att). fst (attempt_failed quiet_world (worker_defaults\<lparr>wo_maxAttempts := 2\<rparr>)
         ((sample_item ''r1'' 1 IQueued)\<lparr>i_desiredState := WantRunning\<rparr>) (\<lambda>_. False) (OtherError msg att) s))
      (upgrade_start ''1'') [(''boom'', False), (''boom'', False)]))) ''r1:w1'' = Some u
    \<and> terminal_item (i_status u)"
proof -
  let ?it = "(sample_item ''r1'' 1 IQueued)\<lparr>i_desiredState := WantRunning\<rparr>"
  let ?o = "worker_defaults\<lparr>wo_maxAttempts := 2\<rparr>"
  have env: "wd_env quiet_world n m = m" for n m by (simp add: quiet_world_def)
  have sig: "\<not> (\<lambda>_. False) n" for n :: nat by simp
  have row: "js_get (m_upgradeRolloutItems (k_mem (upgrade_start ''1''))) (item_key ?it) = Some ?it" by code_simp
  have n: "max 1 (attempt_limit ?o ?it - i_attemptCount ?it) \<le> length [(''boom'', False), (''boom'', False)]" by code_simp
  have key: "item_key ?it = ''r1:w1''" by code_simp
  from repeated_failures_settle [OF quiet_world_ok env sig upgrade_start_ok row n] show ?thesis unfolding key .
qed

section \<open>The summary of a batch\<close>

lemma count_status_disj:
  assumes "\<And>st. \<not> (P st \<and> Q st)"
  shows "count_status P items + count_status Q items = count_status (\<lambda>st. P st \<or> Q st) items"
  using assms by (induction items) (auto simp: count_status_def)

lemma count_status_le: "count_status P items \<le> length items"
  by (simp add: count_status_def)

lemma count_status_zero: "count_status P items = 0 \<longleftrightarrow> (\<forall>it \<in> set items. \<not> P (i_status it))"
  by (simp add: count_status_def filter_empty_conv)

lemma count_status_all: "count_status P items = length items \<longleftrightarrow> (\<forall>it \<in> set items. P (i_status it))"
  by (simp add: count_status_def) (metis length_filter_less less_irrefl filter_True)

definition completed_items :: "rollout_item list \<Rightarrow> nat" where
  "completed_items items = count_status terminal_item items"

lemma completed_count:
  "count_status (\<lambda>st. st = ISucceeded) items + count_status (\<lambda>st. st = ISuperseded) items
   + count_status (\<lambda>st. st = IFailed) items + count_status (\<lambda>st. st = INeedsAttention) items
   + count_status (\<lambda>st. st = ICancelled) items = completed_items items"
  unfolding completed_items_def
  by (induction items) (auto simp: count_status_def terminal_item_def)

lemma completed_waiting_le:
  "completed_items items + count_status (\<lambda>st. st = IWaitingForIdle \<or> st = IAwaitingFirstStart) items \<le> length items"
  unfolding completed_items_def
  by (subst count_status_disj) (auto simp: terminal_item_def count_status_le)

text \<open>What the summary of a batch says about its items.\<close>

definition summary_of :: "rollout \<Rightarrow> rollout_item list \<Rightarrow> bool" where
  "summary_of r items \<longleftrightarrow>
     r_completed r + r_waiting r + r_upgrading r = length items
     \<and> r_completed r = completed_items items
     \<and> r_succeeded r = count_status (\<lambda>st. st = ISucceeded) items
     \<and> r_failed r = count_status (\<lambda>st. st = IFailed) items
     \<and> r_needsAttention r = count_status (\<lambda>st. st = INeedsAttention) items
     \<and> r_waiting r = count_status (\<lambda>st. st = IWaitingForIdle \<or> st = IAwaitingFirstStart) items
     \<and> (r_status r = RRunning \<longleftrightarrow> (\<exists>it \<in> set items. \<not> terminal_item (i_status it)))
     \<and> (r_status r = RSucceeded \<longleftrightarrow> (\<forall>it \<in> set items. i_status it = ISucceeded \<or> i_status it = ISuperseded))
     \<and> (r_finishedAt r = None \<longleftrightarrow> r_status r = RRunning)"

lemma summarized_summary: "summary_of (summarized r items t) items"
proof -
  have all: "completed_items items = length items \<longleftrightarrow> (\<forall>it \<in> set items. terminal_item (i_status it))"
    unfolding completed_items_def by (rule count_status_all)
  have status: "summary_status items = RRunning \<longleftrightarrow> completed_items items \<noteq> length items"
    unfolding summary_status_def Let_def completed_count by simp
  have succeeded: "summary_status items = RSucceeded \<longleftrightarrow> completed_items items = length items
      \<and> count_status (\<lambda>st. st = INeedsAttention) items = 0 \<and> count_status (\<lambda>st. st = IFailed) items = 0
      \<and> count_status (\<lambda>st. st = ICancelled) items = 0"
    unfolding summary_status_def Let_def completed_count by simp
  have "summary_status items = RSucceeded \<longleftrightarrow> (\<forall>it \<in> set items. i_status it = ISucceeded \<or> i_status it = ISuperseded)"
    unfolding succeeded all count_status_zero by (auto simp: terminal_item_def)
  with status all completed_waiting_le [of items] show ?thesis
    unfolding summary_of_def summarized_def Let_def completed_count by simp
qed

lemma unchanged_summary: "summary_unchanged r x \<Longrightarrow> summary_of x items \<Longrightarrow> summary_of r items"
  by (simp add: summary_unchanged_def summary_of_def)

lemma written_summary: "summary_of (rollout_written c x n) items = summary_of x items"
  by (simp add: summary_of_def rollout_written_def)

text \<open>C36: The summary of a batch is the summary of its items. Without interference, refreshing a
  batch returns it with its items unchanged and stores it with: each item counted once, as
  completed, waiting or upgrading; succeeded, failed and needing attention counted by status;
  the batch running exactly while some item is not settled, succeeded exactly when all items
  succeeded or were superseded, and finished at a time exactly when it is not running.\<close>

theorem summary_reflects_items:
  assumes env: "\<And>n m. wd_env wd n m = m" and inv: "rollouts_inv (k_mem s)"
    and detail: "get_rollout (k_mem s) i = Some (r, items)"
  shows "case refresh_summary wd i s of
      (s', Inr (Some (r', items'))) \<Rightarrow>
        items' = items \<and> get_rollout (k_mem s') i = Some (r', items) \<and> summary_of r' items
    | _ \<Rightarrow> False"
proof -
  have r: "js_get (m_upgradeRollouts (k_mem s)) i = Some r" and items: "items = sort_key i_position
      (filter (\<lambda>it. i_rolloutId it = i) (js_values (m_upgradeRolloutItems (k_mem s))))"
    using detail by (auto simp: get_rollout_def split: option.splits)
  have id: "r_id r = i" using inv r by (simp add: rollouts_inv_def)
  let ?Q = "\<lambda>d s'. case d of None \<Rightarrow> False | Some (r', items') \<Rightarrow>
      items' = items \<and> get_rollout (k_mem s') i = Some (r', items) \<and> summary_of r' items"
  have "after (refresh_loop (Suc n) wd i) ?Q (\<lambda>_ _. False) s" for n
  proof -
    let ?t = "wd_now wd (Suc (k_step s))"
    let ?x = "summarized r items ?t"
    have x: "r_id ?x = i" "summary_of ?x items" using id summarized_summary by (simp_all add: summarized_def Let_def)
    let ?m = "fst (cas_rollout (k_mem s) ?x (r_revision r))"
    have cas: "cas_rollout (k_mem s) ?x (r_revision r) =
        ((k_mem s)\<lparr>m_upgradeRollouts := js_set (m_upgradeRollouts (k_mem s)) i (rollout_written r ?x (r_revision r + 1))\<rparr>,
         Some (rollout_written r ?x (r_revision r + 1)))"
      using r x(1) id by (simp add: cas_rollout_def Let_def)
    have m: "get_rollout ?m i = Some (rollout_written r ?x (r_revision r + 1), items)"
      unfolding cas fst_conv get_rollout_def by (simp add: items [symmetric])
    show ?thesis
    proof (cases "summary_unchanged r ?x")
      case True
      with detail unchanged_summary [OF True x(2)] show ?thesis
        by (simp add: after_read env Let_def)
    next
      case False
      have w: "after (write_rollout wd f) Q E s0 = Q (snd (f (k_mem s0)))
          (s0\<lparr>k_step := Suc (k_step s0), k_mem := fst (f (k_mem s0))\<rparr>)" for f :: "mem \<Rightarrow> mem \<times> rollout option" and Q E s0
        by (simp add: write_rollout_def after_wait env Let_def
            after_def [of "\<lambda>s. (s\<lparr>k_mem := fst (f (k_mem s))\<rparr>, Inr (snd (f (k_mem s))))"])
      from False detail m show ?thesis
        by (simp add: after_read env Let_def w cas written_summary x(2))
    qed
  qed
  from this [of 4] show ?thesis
    by (simp add: refresh_summary_def store_cas_retry_limit_def numeral_eq_Suc after_def del: refresh_loop.simps
        split: prod.splits sum.splits option.splits)
qed

theorem summary_reflects_items_witness:
  "case refresh_summary quiet_world ''r1'' (upgrade_start ''1'') of
     (s', Inr (Some (r', items'))) \<Rightarrow> summary_of r' items' \<and> length items' = 1
   | _ \<Rightarrow> False"
proof -
  have env: "wd_env quiet_world n m = m" for n m by (simp add: quiet_world_def)
  have "map_option (\<lambda>d. length (snd d)) (get_rollout (k_mem (upgrade_start ''1'')) ''r1'') = Some 1" by code_simp
  then obtain r items where d: "get_rollout (k_mem (upgrade_start ''1'')) ''r1'' = Some (r, items)" and len: "length items = 1"
    by (cases "get_rollout (k_mem (upgrade_start ''1'')) ''r1''") auto
  from summary_reflects_items [of quiet_world, OF env upgrade_start_ok(1) d] len show ?thesis
    by (auto split: prod.splits sum.splits option.splits)
qed

section \<open>Settling older upgrades\<close>

text \<open>
  A batch that applies a resource policy, newer than an image upgrade of the same instance that
  waits for its first start. When its item succeeds, the older upgrade is superseded: \<open>#succeed\<close>
  asks for that whatever the kind of the task.
\<close>

definition policy_rebuild :: wk where
  "policy_rebuild = \<lparr>k_mem = foldl rollout_step empty_mem
       [RCreate (sample_rollout ''r1'' 1) [sample_item ''r1'' 1 IAwaitingFirstStart],
        RCreate ((sample_rollout ''r2'' 2)\<lparr>r_taskKind := ApplyResourcePolicy\<rparr>) [sample_item ''r2'' 2 IVerifying]],
     k_step = 0, k_log = [], k_checkpoints = [], k_proofsReconciled = True\<rparr>"

theorem policy_rebuild_supersedes_upgrade:
  "map_option i_status (js_get (m_upgradeRolloutItems (k_mem (fst
     (succeed quiet_world worker_defaults (sample_item ''r2'' 2 IVerifying) policy_rebuild)))) ''r1:w1'') = Some ISuperseded"
  by code_simp

end
