(* ===== verification/Rollout_Budget.thy ===== *)
theory Rollout_Budget
  imports Rollout_Outcomes
begin

text \<open>
  The retry budget of an upgrade item over any number of runs of the worker, as
  \<open>UpgradeRolloutWorker.runOnce\<close> in \<open>backend/src/upgrade-rollouts.ts\<close> makes them. The worker alone
  writes upgrade items here (an administrator who retries an item gives it a new budget); the
  clock, the leases, the containers and the runtime do what they like. Shown: the writes of all
  runs, in the order of their logs, form one chain of stores, the count of an item is the number
  of failures recorded for it, and that number never exceeds the budget.
\<close>

section \<open>The writes of a run form a chain\<close>

abbreviation stored_items :: "mem \<Rightarrow> (string, rollout_item) js_map" where
  "stored_items m \<equiv> m_upgradeRolloutItems m"

text \<open>
  The log \<open>l\<close>, newest first, leads from the items \<open>is\<close> to the items \<open>js\<close>: every write starts from
  the items the write before it left.
\<close>

fun chained :: "(string, rollout_item) js_map \<Rightarrow> event list \<Rightarrow> (string, rollout_item) js_map \<Rightarrow> bool" where
  "chained is [] js \<longleftrightarrow> js = is"
| "chained is (Wrote m m' # l) js \<longleftrightarrow> js = stored_items m' \<and> chained is l (stored_items m)"
| "chained is (_ # l) js \<longleftrightarrow> chained is l js"

lemma chained_append: "chained js l' ks \<Longrightarrow> chained is l js \<Longrightarrow> chained is (l' @ l) ks"
  by (induction js l' ks rule: chained.induct) auto

definition linked :: "'a act \<Rightarrow> bool" where
  "linked a \<longleftrightarrow> (\<forall>s. \<exists>l. k_log (fst (a s)) = l @ k_log s
     \<and> chained (stored_items (k_mem s)) l (stored_items (k_mem (fst (a s)))))"

text \<open>Nobody else writes upgrade items.\<close>

definition items_alone :: "world \<Rightarrow> bool" where
  "items_alone wd \<longleftrightarrow> (\<forall>n m. stored_items (wd_env wd n m) = stored_items m)"

named_theorems linked_intros "actions whose writes form a chain"

lemma linked_pure:
  "(\<And>s. k_log (fst (a s)) = k_log s \<and> stored_items (k_mem (fst (a s))) = stored_items (k_mem s)) \<Longrightarrow> linked a"
  by (simp add: linked_def)

lemma linked_ret [linked_intros]: "linked (act_ret x)"
  by (rule linked_pure) (simp add: act_ret_def)

lemma linked_throw [linked_intros]: "linked (act_throw e)"
  by (rule linked_pure) (simp add: act_throw_def)

lemma linked_case [linked_intros]:
  assumes "linked a" "\<And>e. linked (h e)" "\<And>x. linked (f x)"
  shows "linked (act_case a h f)"
  unfolding linked_def
proof
  fix s
  obtain s' r where r: "a s = (s', r)" by (cases "a s")
  obtain l where l: "k_log s' = l @ k_log s" "chained (stored_items (k_mem s)) l (stored_items (k_mem s'))"
    using assms(1) r unfolding linked_def by (metis fst_conv)
  define b where "b = (case r of Inl e \<Rightarrow> h e | Inr x \<Rightarrow> f x)"
  have "linked b" unfolding b_def using assms(2,3) by (cases r) auto
  then obtain l' where l': "k_log (fst (b s')) = l' @ k_log s'"
    "chained (stored_items (k_mem s')) l' (stored_items (k_mem (fst (b s'))))" unfolding linked_def by blast
  have "fst (act_case a h f s) = fst (b s')" by (cases r) (simp_all add: act_case_def b_def r)
  with l l' chained_append have "k_log (fst (act_case a h f s)) = (l' @ l) @ k_log s
      \<and> chained (stored_items (k_mem s)) (l' @ l) (stored_items (k_mem (fst (act_case a h f s))))" by simp
  then show "\<exists>l. k_log (fst (act_case a h f s)) = l @ k_log s
      \<and> chained (stored_items (k_mem s)) l (stored_items (k_mem (fst (act_case a h f s))))" by blast
qed

lemma linked_bind [linked_intros]: "linked a \<Longrightarrow> (\<And>x. linked (f x)) \<Longrightarrow> linked (act_bind a f)"
  unfolding act_bind_def by (intro linked_case linked_throw)

lemma linked_try [linked_intros]: "linked a \<Longrightarrow> (\<And>e. linked (h e)) \<Longrightarrow> linked (act_try a h)"
  unfolding act_try_def by (intro linked_case linked_ret)

lemma linked_finally [linked_intros]: "linked a \<Longrightarrow> linked f \<Longrightarrow> linked (act_finally a f)"
  unfolding act_finally_def by (intro linked_case linked_bind linked_ret linked_throw)

lemma linked_each [linked_intros]: "(\<And>x. linked (f x)) \<Longrightarrow> linked (act_each f xs)"
  by (induction xs) (simp_all add: linked_ret linked_bind)

lemma linked_of [linked_intros]: "linked (act_of r)"
  unfolding act_of_def by (cases r) (simp_all add: linked_intros)

lemma linked_note [linked_intros]: "\<not> (\<exists>m m'. e = Wrote m m') \<Longrightarrow> linked (note_event e)"
  unfolding linked_def note_event_def by (intro allI exI [of _ "[e]"]) (cases e; simp)

lemma linked_effects [linked_intros]:
  "linked (clock wd)" "linked (fresh_id wd)" "linked (is_aborted sig)" "linked (add_checkpoints ids)" "linked get_wk"
  "linked (\<lambda>s. (s\<lparr>k_proofsReconciled := b\<rparr>, Inr ()))" "linked (\<lambda>s. (s\<lparr>k_checkpoints := ids\<rparr>, Inr ()))"
  by (rule linked_pure, simp add: clock_def fresh_id_def is_aborted_def add_checkpoints_def get_wk_def)+

lemma linked_abort_check [linked_intros]: "linked (throw_if_aborted sig)"
  unfolding throw_if_aborted_def by (intro linked_intros) (simp add: linked_intros)

lemma linked_wait [linked_intros]: "items_alone wd \<Longrightarrow> linked (wait wd)"
  by (rule linked_pure) (simp add: wait_def items_alone_def)

lemma linked_read [linked_intros]: "items_alone wd \<Longrightarrow> linked (read_store wd f)"
  unfolding read_store_def by (intro linked_bind linked_wait linked_pure) simp_all

lemma linked_call [linked_intros]: "items_alone wd \<Longrightarrow> linked (call wd f)"
  unfolding call_def by (intro linked_bind linked_wait linked_of)

lemma linked_write_items [linked_intros]:
  assumes "items_alone wd"
  shows "linked (write_items wd f)"
  unfolding write_items_def
proof (intro linked_bind linked_wait assms)
  show "linked (\<lambda>s. let r = f (k_mem s) in (s\<lparr>k_mem := fst r, k_log := Wrote (k_mem s) (fst r) # k_log s\<rparr>, Inr (snd r)))"
    unfolding linked_def Let_def fst_conv
    by (intro allI, rule_tac x = "[Wrote (k_mem s) (fst (f (k_mem s)))]" in exI) simp
qed

lemma cas_rollout_items: "stored_items (fst (cas_rollout m r v)) = stored_items m"
  by (simp add: cas_rollout_def Let_def split: option.split)

lemma linked_write_rollout [linked_intros]: "items_alone wd \<Longrightarrow> linked (write_rollout wd (\<lambda>m. cas_rollout m r v))"
  unfolding write_rollout_def by (intro linked_bind linked_wait linked_pure) (simp_all add: Let_def cas_rollout_items)

section \<open>So do those of the worker's methods\<close>

lemma linked_container [linked_intros]: "items_alone wd \<Longrightarrow> linked (source_container wd i)"
  unfolding source_container_def by (auto intro!: linked_intros split: sum.split option.split)

lemma linked_transition [linked_intros]: "items_alone wd \<Longrightarrow> linked (transition wd it p)"
  unfolding transition_def by (auto intro!: linked_intros split: option.split)

lemma linked_next_attempt [linked_intros]: "items_alone wd \<Longrightarrow> linked (next_attempt_at wd opts n)"
  unfolding next_attempt_at_def by (auto intro!: linked_intros)

lemma linked_checkpoint [linked_intros]: "items_alone wd \<Longrightarrow> linked (checkpoint_deployment wd opts it b e)"
  unfolding checkpoint_deployment_def by (auto intro!: linked_intros split: option.split)

lemma linked_succeed [linked_intros]: "items_alone wd \<Longrightarrow> linked (succeed wd opts it)"
  unfolding succeed_def by (auto intro!: linked_intros)

lemma linked_wait_for_idle [linked_intros]: "items_alone wd \<Longrightarrow> linked (wait_for_idle wd opts it b)"
  unfolding wait_for_idle_def by (auto intro!: linked_intros)

lemma linked_defer [linked_intros]: "items_alone wd \<Longrightarrow> linked (defer_first_start wd opts it)"
  unfolding defer_first_start_def by (auto intro!: linked_intros)

lemma linked_capture [linked_intros]: "items_alone wd \<Longrightarrow> linked (capture_snapshot wd it c)"
  unfolding capture_snapshot_def Let_def by (auto intro!: linked_intros)

lemma linked_assess [linked_intros]: "items_alone wd \<Longrightarrow> linked (assess_idle wd it c)"
  unfolding assess_idle_def by (auto intro!: linked_intros)

lemma linked_prepare_on [linked_intros]: "items_alone wd \<Longrightarrow> linked (prepare_on wd opts kind sig c it)"
  unfolding prepare_on_def by (auto intro!: linked_intros)

lemma linked_prepare [linked_intros]: "items_alone wd \<Longrightarrow> linked (prepare_attempt wd opts it kind att sig)"
  unfolding prepare_attempt_def by (auto intro!: linked_intros split: option.split)

lemma linked_acquire [linked_intros]: "items_alone wd \<Longrightarrow> linked (acquire_admission wd opts it att sig)"
  unfolding acquire_admission_def Let_def by (auto intro!: linked_intros split: option.split)

lemma linked_confirm [linked_intros]: "items_alone wd \<Longrightarrow> linked (confirm_drain wd opts it c d sig)"
  unfolding confirm_drain_def confirm_on_def by (auto intro!: linked_intros split: option.split)

lemma linked_accept [linked_intros]: "items_alone wd \<Longrightarrow> linked (accept_candidate wd it sig)"
  unfolding accept_candidate_def by (auto intro!: linked_intros split: option.split)

lemma linked_rebuild [linked_intros]: "items_alone wd \<Longrightarrow> linked (rebuild_and_verify wd opts it sig)"
  unfolding rebuild_and_verify_def execute_rebuild_def verify_rebuild_def verify_on_def by (auto intro!: linked_intros split: option.split)

lemma linked_from_drain [linked_intros]: "items_alone wd \<Longrightarrow> linked (attempt_from_drain wd opts it c d sig)"
  unfolding attempt_from_drain_def by (auto intro!: linked_intros)

lemma linked_first_start [linked_intros]: "items_alone wd \<Longrightarrow> linked (reconcile_first_start wd opts it kind sig)"
  unfolding reconcile_first_start_def first_start_outcome_def by (auto intro!: linked_intros split: option.split inspection.split)

lemma linked_failed [linked_intros]: "items_alone wd \<Longrightarrow> linked (attempt_failed wd opts it sig e)"
  unfolding attempt_failed_def handle_failure_def ignoring_conflict_def capture_diagnostics_def Let_def by (auto intro!: linked_intros split: option.split rollout_error.split capability.split)

lemma linked_until_drain [linked_intros]: "items_alone wd \<Longrightarrow> linked (attempt_until_drain wd opts it att sig)"
  unfolding attempt_until_drain_def prepare_and_drain_def by (auto intro!: linked_intros split: option.split)

lemma linked_release [linked_intros]: "items_alone wd \<Longrightarrow> linked (release_drain wd it att d sig)"
  unfolding release_drain_def by (auto intro!: linked_intros)

lemma linked_attempt [linked_intros]: "items_alone wd \<Longrightarrow> linked (run_attempt wd opts it att sig)"
  unfolding run_attempt_def by (auto intro!: linked_intros split: option.split)

lemma linked_process [linked_intros]: "items_alone wd \<Longrightarrow> linked (process_item wd opts it sig)"
  unfolding process_item_def by (auto intro!: linked_intros split: option.split)

lemma linked_lease [linked_intros]: "items_alone wd \<Longrightarrow> linked a \<Longrightarrow> linked (with_item_lease wd a)"
  unfolding with_item_lease_def by (auto intro!: linked_intros)

lemma linked_revalidate [linked_intros]: "items_alone wd \<Longrightarrow> linked (revalidate_proof wd opts it c)"
  unfolding revalidate_proof_def by (auto intro!: linked_intros)

lemma linked_proof_conflict [linked_intros]: "items_alone wd \<Longrightarrow> linked (proof_conflict wd it e)"
  unfolding proof_conflict_def by (auto intro!: linked_intros split: rollout_error.split)

lemma linked_reconcile_proof [linked_intros]: "items_alone wd \<Longrightarrow> linked (reconcile_proof wd opts it)"
  unfolding reconcile_proof_def by (auto intro!: linked_intros split: option.split)

lemma linked_proofs [linked_intros]: "items_alone wd \<Longrightarrow> linked (reconcile_proofs wd opts xs)"
  by (induction xs) (auto intro!: linked_intros)

lemma linked_legacy [linked_intros]: "items_alone wd \<Longrightarrow> linked (reconcile_legacy_proofs wd opts)"
  unfolding reconcile_legacy_proofs_def by (auto intro!: linked_intros)

lemma linked_refresh_loop [linked_intros]: "items_alone wd \<Longrightarrow> linked (refresh_loop n wd i)"
  by (induction n) (auto simp: Let_def intro!: linked_intros split: option.split)

lemma linked_refresh [linked_intros]: "items_alone wd \<Longrightarrow> linked (refresh_rollout wd i)"
  unfolding refresh_rollout_def refresh_summary_def by (auto intro!: linked_intros)

lemma linked_listed [linked_intros]: "items_alone wd \<Longrightarrow> linked (process_listed wd opts it)"
  unfolding process_listed_def by (auto intro!: linked_intros)

lemma linked_claimed [linked_intros]: "items_alone wd \<Longrightarrow> linked (run_claimed wd opts)"
  unfolding run_claimed_def by (auto intro!: linked_intros)

lemma linked_run [linked_intros]: "items_alone wd \<Longrightarrow> linked (run_once wd opts)"
  unfolding run_once_def by (auto intro!: linked_intros)

section \<open>Counting failures\<close>

text \<open>
  A write of the worker records a failure of the item with the key \<open>k\<close>: its row changes into one
  that is queued, failed or in need of attention, with an error.
\<close>

fun failure_of :: "string \<Rightarrow> event \<Rightarrow> bool" where
  "failure_of k (Wrote m m') \<longleftrightarrow>
     js_get (stored_items m') k \<noteq> js_get (stored_items m) k
     \<and> (case js_get (stored_items m') k of
          None \<Rightarrow> False | Some b \<Rightarrow> failure_status (i_status b) \<and> i_error b \<noteq> None)"
| "failure_of k _ \<longleftrightarrow> False"

text \<open>The item had lost the proof of its first start, and is taken up again.\<close>

fun revived :: "string \<Rightarrow> event \<Rightarrow> bool" where
  "revived k (Wrote m m') \<longleftrightarrow>
     js_get (stored_items m') k \<noteq> js_get (stored_items m) k
     \<and> (case js_get (stored_items m) k of None \<Rightarrow> False | Some a \<Rightarrow> proof_missing a)"
| "revived k _ \<longleftrightarrow> False"

definition failures :: "string \<Rightarrow> event list \<Rightarrow> nat" where
  "failures k l = length (filter (failure_of k) l)"

definition budget_left :: "worker_options \<Rightarrow> rollout_item \<Rightarrow> nat" where
  "budget_left opts a = max 1 (attempt_limit opts a - i_attemptCount a)"

text \<open>The row \<open>b\<close> that \<open>a\<close> has become after \<open>f\<close> failures.\<close>

definition within_budget :: "worker_options \<Rightarrow> rollout_item \<Rightarrow> nat \<Rightarrow> rollout_item \<Rightarrow> bool" where
  "within_budget opts a f b \<longleftrightarrow>
     i_recovery b = i_recovery a \<and> i_attemptCount b = i_attemptCount a + f
     \<and> (terminal_item (i_status b) \<or> f = 0 \<or> i_attemptCount b < attempt_limit opts a)
     \<and> f \<le> budget_left opts a \<and> (i_status b = IFailed \<longrightarrow> f = budget_left opts a)"

lemma within_budget_refl: "\<not> terminal_item (i_status a) \<Longrightarrow> within_budget opts a 0 a"
  by (auto simp: within_budget_def terminal_item_def)

text \<open>An item at rest is left alone, unless it is revived.\<close>

lemma terminal_step: "item_step opts b c \<Longrightarrow> terminal_item (i_status b) \<Longrightarrow> proof_missing b"
  by (auto simp: item_step_def status_step_def terminal_item_def split: item_status.splits)

lemma proof_missing_terminal: "proof_missing b \<Longrightarrow> terminal_item (i_status b)"
  by (simp add: proof_missing_def terminal_item_def)

lemma within_budget_step:
  assumes b: "within_budget opts a f b" "\<not> terminal_item (i_status b)" and step: "item_step opts b c"
  shows "within_budget opts a (f + of_bool (failure_status (i_status c) \<and> i_error c \<noteq> None)) c"
proof -
  have recovery: "i_recovery c = i_recovery b" and budget: "budget_step opts b c"
    using step by (simp_all add: item_step_def item_target_def)
  have limit: "attempt_limit opts b = attempt_limit opts a" using b(1) by (simp add: within_budget_def attempt_limit_def)
  have left: "f < budget_left opts a" using b by (auto simp: within_budget_def budget_left_def)
  show ?thesis
  proof (cases "failure_status (i_status c)")
    case True
    with budget consider "failed_attempt opts b c" | "interrupted_attempt b c" by (auto simp: budget_step_def)
    then show ?thesis
    proof cases
      case 1
      then have "terminal_item (i_status c) \<or> i_attemptCount c < attempt_limit opts a"
        using True limit by (auto simp: failed_attempt_def failure_status_def terminal_item_def)
      moreover have "i_status c = IFailed \<Longrightarrow> Suc f = budget_left opts a"
        using 1 left limit b(1) by (auto simp: failed_attempt_def within_budget_def budget_left_def)
      ultimately show ?thesis using 1 True left b(1) recovery by (auto simp: failed_attempt_def within_budget_def)
    next
      case 2
      with b recovery left show ?thesis by (auto simp: interrupted_attempt_def within_budget_def)
    qed
  next
    case False
    then have "i_attemptCount c = i_attemptCount b" "i_status c \<noteq> IFailed"
      using budget b(2) proof_missing_terminal [of b] by (auto simp: budget_step_def failure_status_def)
    with b recovery left False show ?thesis by (auto simp: within_budget_def)
  qed
qed

lemma budget_of_chain:
  assumes "chained is l js" "\<And>m m'. Wrote m m' \<in> set l \<Longrightarrow> items_step opts m m'" "\<And>e. e \<in> set l \<Longrightarrow> \<not> revived k e"
    and "js_get is k = Some a" "\<not> terminal_item (i_status a)"
  shows "\<exists>b. js_get js k = Some b \<and> within_budget opts a (failures k l) b"
  using assms
proof (induction "is" l js rule: chained.induct)
  case (2 "is" m m' l js)
  then obtain b where b: "js_get (stored_items m) k = Some b" "within_budget opts a (failures k l) b" by auto
  have "items_step opts m m'" using 2 by simp
  with b(1) obtain c where c: "js_get (stored_items m') k = Some c" "c = b \<or> item_step opts b c"
    unfolding items_step_def by blast
  have "within_budget opts a (failures k (Wrote m m' # l)) c"
  proof (cases "c = b")
    case False
    have "\<not> revived k (Wrote m m')" by (rule "2.prems"(3)) simp
    moreover have moved: "item_step opts b c" using c(2) False by simp
    ultimately have rest: "\<not> terminal_item (i_status b)" using terminal_step [OF moved] b(1) c(1) False by auto
    from within_budget_step [OF b(2) rest moved] b(1) c(1) False show ?thesis
      by (cases "failure_status (i_status c) \<and> i_error c \<noteq> None") (auto simp: failures_def)
  qed (use b c in \<open>simp add: failures_def\<close>)
  with 2 c show ?case by simp
qed (auto simp: failures_def within_budget_refl)

section \<open>Runs of the worker\<close>

text \<open>One run after another, each in a world and with a log of its own; the logs are joined.\<close>

fun worker_runs :: "worker_options \<Rightarrow> world list \<Rightarrow> wk \<Rightarrow> wk \<times> event list" where
  "worker_runs opts [] s = (s, [])"
| "worker_runs opts (wd # wds) s =
     (let s1 = fst (run_once wd opts (s\<lparr>k_log := []\<rparr>)); (s2, l) = worker_runs opts wds s1 in (s2, l @ k_log s1))"

lemma one_run:
  fixes opts :: worker_options
  assumes "world_ok wd" "items_alone wd" "rollouts_inv (k_mem s)"
  defines "s1 \<equiv> fst (run_once wd opts (s\<lparr>k_log := []\<rparr>))"
  shows "rollouts_inv (k_mem s1) \<and> chained (stored_items (k_mem s)) (k_log s1) (stored_items (k_mem s1))
    \<and> (\<forall>m m'. Wrote m m' \<in> set (k_log s1) \<longrightarrow> items_step opts m m')"
proof -
  have "good wd opts (s\<lparr>k_log := []\<rparr>)" using assms(3) by (simp add: good_def)
  from ok_run_once [OF assms(1) this] have good: "good wd opts s1"
    unfolding s1_def by (auto simp: ok_def after_def split: prod.splits sum.splits)
  have "items_step opts m m'" if w: "Wrote m m' \<in> set (k_log s1)" for m m'
  proof -
    obtain xs ys where "k_log s1 = xs @ Wrote m m' # ys" using w by (auto dest: split_list)
    with good log_ok_append [of wd opts xs "Wrote m m'" ys] show ?thesis by (simp add: good_def)
  qed
  moreover have "chained (stored_items (k_mem s)) (k_log s1) (stored_items (k_mem s1))"
    using linked_run [OF assms(2), of opts, unfolded linked_def, THEN spec, of "s\<lparr>k_log := []\<rparr>"]
    by (auto simp: s1_def)
  ultimately show ?thesis using good by (simp add: good_def)
qed

lemma all_runs:
  assumes "\<And>wd. wd \<in> set wds \<Longrightarrow> world_ok wd \<and> items_alone wd" "rollouts_inv (k_mem s)" "worker_runs opts wds s = (s', l)"
  shows "chained (stored_items (k_mem s)) l (stored_items (k_mem s'))
    \<and> (\<forall>m m'. Wrote m m' \<in> set l \<longrightarrow> items_step opts m m')"
  using assms
proof (induction wds arbitrary: s l)
  case (Cons wd wds)
  define s1 where "s1 = fst (run_once wd opts (s\<lparr>k_log := []\<rparr>))"
  obtain l' where l': "worker_runs opts wds s1 = (s', l')" "l = l' @ k_log s1"
    using Cons.prems(3) by (auto simp: s1_def Let_def split: prod.splits)
  have one: "rollouts_inv (k_mem s1)" "chained (stored_items (k_mem s)) (k_log s1) (stored_items (k_mem s1))"
    "\<And>m m'. Wrote m m' \<in> set (k_log s1) \<Longrightarrow> items_step opts m m'"
    using one_run [of wd s opts, folded s1_def] Cons.prems(1,2) unfolding s1_def by simp_all
  from Cons.IH [OF _ one(1) l'(1)] Cons.prems(1) one chained_append show ?case by (auto simp: l'(2))
qed simp

section \<open>Properties\<close>

text \<open>C15: an item that keeps failing comes to rest. Over any number of runs of the worker, whatever
  the clock, the leases, the containers, the admission and the runtime do in them, as long as
  nobody else writes upgrade items and the item is not revived (taken up again after its proof of
  a first start had been lost): the count of an item that was not at rest grows by exactly the
  number of failures the runs have recorded for it; there are never more of them than its budget
  has left (at least one); when that many have been recorded the item is at rest, and only then
  can it be failed. Nothing the worker does between two
  failures, neither a new attempt nor a postponed or interrupted one, gives an item a failure
  back.\<close>

theorem failures_exhaust_the_budget:
  assumes "\<And>wd. wd \<in> set wds \<Longrightarrow> world_ok wd \<and> items_alone wd" "rollouts_inv (k_mem s)"
    and "js_get (m_upgradeRolloutItems (k_mem s)) k = Some a" "\<not> terminal_item (i_status a)"
    and "worker_runs opts wds s = (s', l)" "\<And>e. e \<in> set l \<Longrightarrow> \<not> revived k e"
  shows "\<exists>b. js_get (m_upgradeRolloutItems (k_mem s')) k = Some b
    \<and> i_attemptCount b = i_attemptCount a + failures k l
    \<and> failures k l \<le> budget_left opts a
    \<and> (failures k l = budget_left opts a \<longrightarrow> terminal_item (i_status b))
    \<and> (i_status b = IFailed \<longrightarrow> failures k l = budget_left opts a)"
proof -
  from all_runs [OF assms(1,2,5)]
  have "chained (m_upgradeRolloutItems (k_mem s)) l (m_upgradeRolloutItems (k_mem s'))"
    "\<And>m m'. Wrote m m' \<in> set l \<Longrightarrow> items_step opts m m'" by blast+
  from budget_of_chain [OF this assms(6,3,4)] show ?thesis by (auto simp: within_budget_def budget_left_def)
qed

text \<open>A runtime that cannot tell whether an instance is idle, an item with one attempt, and two runs:
  in the second the worker does not get its lease.\<close>

definition failing_world :: world where
  "failing_world = quiet_world\<lparr>wd_assess := \<lambda>_ _ _. Inl (OtherError ''boom'' False)\<rparr>"

definition unleased_world :: world where
  "unleased_world = quiet_world\<lparr>wd_lease := \<lambda>_. False\<rparr>"

definition one_attempt :: worker_options where
  "one_attempt = new_worker_options None None None (Some 1)"

definition failing_runs :: "wk \<times> event list" where
  "failing_runs = worker_runs one_attempt [failing_world, unleased_world] (upgrade_start ''1'')"

lemma failing_runs_fail:
  "failures ''r1:w1'' (snd failing_runs) = 1 \<and> list_all (\<lambda>e. \<not> revived ''r1:w1'' e) (snd failing_runs)"
  by code_simp

theorem failures_exhaust_the_budget_witness:
  "\<exists>b. js_get (m_upgradeRolloutItems (k_mem (fst failing_runs))) ''r1:w1'' = Some b
     \<and> i_attemptCount b = 1 \<and> terminal_item (i_status b)"
proof -
  obtain a where a: "js_get (m_upgradeRolloutItems (k_mem (upgrade_start ''1''))) ''r1:w1'' = Some a"
    "i_status a = IQueued" "i_attemptCount a = 0" "\<not> i_recovery a"
  proof (rule that)
    show "js_get (m_upgradeRolloutItems (k_mem (upgrade_start ''1''))) ''r1:w1'' =
      Some ((sample_item ''r1'' 1 IQueued)\<lparr>i_desiredState := WantRunning\<rparr>)" by code_simp
  qed (simp_all add: sample_item_def)
  have rest: "\<not> terminal_item (i_status a)" using a by (simp add: terminal_item_def)
  have left: "budget_left one_attempt a = 1"
    using a by (simp add: budget_left_def attempt_limit_def one_attempt_def new_worker_options_def Let_def)
  have runs: "worker_runs one_attempt [failing_world, unleased_world] (upgrade_start ''1'')
      = (fst failing_runs, snd failing_runs)" by (simp only: failing_runs_def prod.collapse)
  have worlds: "world_ok wd \<and> items_alone wd" if "wd \<in> set [failing_world, unleased_world]" for wd
    using that by (auto simp: world_ok_def items_alone_def failing_world_def unleased_world_def quiet_world_def)
  have "\<not> revived ''r1:w1'' e" if "e \<in> set (snd failing_runs)" for e
    using failing_runs_fail that by (simp add: list_all_iff)
  from failures_exhaust_the_budget [OF worlds upgrade_start_ok(1) a(1) rest runs this] failing_runs_fail left a(3)
  show ?thesis by auto
qed

end
