(* ===== verification/Instance_Policy.thy ===== *)
theory Instance_Policy
  imports Js_Text Models
begin

text \<open>
  The provisioning policy, \<open>backend/src/instance-policy.ts\<close>, with the grammar of application ids
  (\<open>app-id.ts\<close>) and the reserved environment names (\<open>runtime/src/runtime-environment.ts\<close>):
  validation of a partial policy given as an untyped value, its defaults, the classification of
  a change, and the launch profile of a container. The fields of an object value are in the
  order in which \<open>Object.entries\<close> enumerates them.
  Shown: what is accepted is valid, a policy survives its own snapshot, and the effect a change
  is classified with bounds what it can touch.
\<close>

section \<open>Policies\<close>

record provisioning_policy =
  pp_autoCreateOnFirstVisit :: bool
  pp_defaultAppId :: string
  pp_autoStartOnEnter :: bool
  pp_autoWakeOnRequest :: bool
  pp_blockAutoWakeAfterManualStop :: bool
  pp_idleStopMinutes :: int
  pp_detectNetworkActivity :: bool
  pp_detectComputeActivity :: bool
  pp_maxTotalInstances :: int
  pp_maxRunningInstances :: int
  pp_memory :: string
  pp_cpus :: string
  pp_pidsLimit :: int
  pp_environment :: "(string, string) js_map"
  pp_configFiles :: "(string, string) js_map"

text \<open>\<open>InstancePolicyError\<close>: code and HTTP status.\<close>

datatype policy_error = PolicyError string nat

definition policy_keys :: "string list" where
  "policy_keys =
     [''autoCreateOnFirstVisit'', ''defaultAppId'', ''autoStartOnEnter'', ''autoWakeOnRequest'',
      ''blockAutoWakeAfterManualStop'', ''idleStopMinutes'', ''detectNetworkActivity'',
      ''detectComputeActivity'', ''maxTotalInstances'', ''maxRunningInstances'', ''resources'',
      ''environment'', ''configFiles'']"

definition config_files_max_bytes :: nat where
  "config_files_max_bytes = 256 * 1024"

definition environment_max_bytes :: nat where
  "environment_max_bytes = 64 * 1024"

definition max_memory_bytes :: rat where
  "max_memory_bytes = 1024 ^ 5"

section \<open>Grammars\<close>

text \<open>\<open>/^[a-z0-9](?:[a-z0-9._-]{0,63})$/\<close>\<close>

definition app_id_char :: "char \<Rightarrow> bool" where
  "app_id_char c \<longleftrightarrow> js_digit c \<or> (let n = (of_char c :: nat) in 97 \<le> n \<and> n \<le> 122)"

definition app_id_pattern :: "string \<Rightarrow> bool" where
  "app_id_pattern s \<longleftrightarrow>
     (case s of [] \<Rightarrow> False
      | c # cs \<Rightarrow> app_id_char c \<and> length cs \<le> 63 \<and> list_all (\<lambda>d. app_id_char d \<or> d \<in> set ''._-'') cs)"

text \<open>\<open>/^[A-Za-z_][A-Za-z0-9_]*$/\<close>\<close>

definition environment_name_pattern :: "string \<Rightarrow> bool" where
  "environment_name_pattern s \<longleftrightarrow>
     (case s of [] \<Rightarrow> False
      | c # cs \<Rightarrow> (js_alpha c \<or> c = CHR ''_'') \<and> list_all (\<lambda>d. js_alpha d \<or> js_digit d \<or> d = CHR ''_'') cs)"

text \<open>
  \<open>/^(\d+(?:\.\d+)?)([bkmg]?)$/i\<close>: the two groups. (\<open>MEMORY_PATTERN\<close> is the same without groups.)
\<close>

definition memory_amount :: "string \<Rightarrow> string" where
  "memory_amount s = takeWhile (\<lambda>c. js_digit c \<or> c = CHR ''.'') s"

definition memory_suffix :: "string \<Rightarrow> string" where
  "memory_suffix s = dropWhile (\<lambda>c. js_digit c \<or> c = CHR ''.'') s"

definition decimal_pattern :: "string \<Rightarrow> bool" where
  "decimal_pattern s \<longleftrightarrow>
     (case js_split CHR ''.'' s of
        [ip] \<Rightarrow> ip \<noteq> [] \<and> list_all js_digit ip
      | [ip, fp] \<Rightarrow> ip \<noteq> [] \<and> list_all js_digit ip \<and> fp \<noteq> [] \<and> list_all js_digit fp
      | _ \<Rightarrow> False)"

definition memory_pattern :: "string \<Rightarrow> bool" where
  "memory_pattern s \<longleftrightarrow>
     decimal_pattern (memory_amount s)
     \<and> js_lower (memory_suffix s) \<in> set [[], ''b'', ''k'', ''m'', ''g'']"

definition memory_multiplier :: "string \<Rightarrow> rat" where
  "memory_multiplier suffix =
     (if suffix = ''k'' then 1024 else if suffix = ''m'' then 1024 ^ 2
      else if suffix = ''g'' then 1024 ^ 3 else 1)"

text \<open>Multiplying a double by a power of two is exact unless it overflows, far above the bound.\<close>

definition valid_memory :: "string \<Rightarrow> bool" where
  "valid_memory s \<longleftrightarrow>
     memory_pattern s
     \<and> (case js_number (memory_amount s) of
          NotFinite \<Rightarrow> False
        | Finite amount \<Rightarrow>
            (let bytes = amount * memory_multiplier (js_lower (memory_suffix s))
             in bytes > 0 \<and> bytes \<le> max_memory_bytes))"

definition valid_cpus :: "string \<Rightarrow> bool" where
  "valid_cpus s \<longleftrightarrow> (case js_number s of NotFinite \<Rightarrow> False | Finite n \<Rightarrow> n > 0 \<and> n \<le> 256)"

section \<open>Values\<close>

fun policy_record :: "js_val \<Rightarrow> string \<Rightarrow> (policy_error, (string \<times> js_val) list) res" where
  "policy_record (JObj ps) code = Inr ps"
| "policy_record _ code = Inl (PolicyError code 400)"

fun string_entries :: "(string \<times> js_val) list \<Rightarrow> (string, string) js_map option" where
  "string_entries [] = Some []"
| "string_entries ((k, v) # ps) =
     (case v of JStr s \<Rightarrow> map_option (\<lambda>m. (k, s) # m) (string_entries ps) | _ \<Rightarrow> None)"

definition string_map :: "js_val \<Rightarrow> string \<Rightarrow> (policy_error, (string, string) js_map) res" where
  "string_map v code =
     rbind (policy_record v code) (\<lambda>ps.
       case string_entries ps of None \<Rightarrow> Inl (PolicyError code 400) | Some m \<Rightarrow> Inr m)"

definition boolean_value :: "js_val \<Rightarrow> bool \<Rightarrow> string \<Rightarrow> (policy_error, bool) res" where
  "boolean_value v fallback code =
     (case v of JUndef \<Rightarrow> Inr fallback | JBool b \<Rightarrow> Inr b | _ \<Rightarrow> Inl (PolicyError code 400))"

definition string_value :: "js_val \<Rightarrow> string \<Rightarrow> string \<Rightarrow> (policy_error, string) res" where
  "string_value v fallback code =
     (case v of
        JUndef \<Rightarrow> Inr fallback
      | JStr s \<Rightarrow> if js_trim s = [] then Inl (PolicyError code 400) else Inr s
      | _ \<Rightarrow> Inl (PolicyError code 400))"

definition integer_value :: "js_val \<Rightarrow> int \<Rightarrow> int \<Rightarrow> int \<Rightarrow> string \<Rightarrow> (policy_error, int) res" where
  "integer_value v fallback minimum maximum code =
     (if v = JUndef then Inr fallback
      else case safe_integer v of
        None \<Rightarrow> Inl (PolicyError code 400)
      | Some n \<Rightarrow> if n < minimum \<or> n > maximum then Inl (PolicyError code 400) else Inr n)"

section \<open>Environment and configuration files\<close>

definition runtime_reserved_environment :: "string list" where
  "runtime_reserved_environment = [''OPENAPP_CONFIG_FILES_JSON'']"

definition is_runtime_reserved :: "string list \<Rightarrow> string \<Rightarrow> bool" where
  "is_runtime_reserved additional name \<longleftrightarrow>
     name \<in> set runtime_reserved_environment \<or> name \<in> set additional"

definition entry_bytes :: "(string, string) js_map \<Rightarrow> nat" where
  "entry_bytes m = sum_list (map (\<lambda>(k, v). utf8_length k + utf8_length v) m)"

fun environment_entries :: "string list \<Rightarrow> (string, string) js_map \<Rightarrow> (policy_error, unit) res" where
  "environment_entries reserved [] = Inr ()"
| "environment_entries reserved ((key, content) # m) =
     (if \<not> environment_name_pattern key \<or> is_runtime_reserved reserved key
      then Inl (PolicyError (''invalid_environment_key:'' @ key) 400)
      else if CHR 0x00 \<in> set content then Inl (PolicyError (''invalid_environment_value:'' @ key) 400)
      else environment_entries reserved m)"

definition validate_environment :: "string list \<Rightarrow> js_val \<Rightarrow> (policy_error, (string, string) js_map) res" where
  "validate_environment reserved v =
     rbind (string_map v ''invalid_environment'') (\<lambda>m.
       if length m > 128 then Inl (PolicyError ''environment_too_large'' 413)
       else rbind (environment_entries reserved m) (\<lambda>_.
         if entry_bytes m > environment_max_bytes then Inl (PolicyError ''environment_too_large'' 413)
         else Inr m))"

definition bad_config_path :: "string \<Rightarrow> bool" where
  "bad_config_path path \<longleftrightarrow>
     path = [] \<or> starts_with path ''/'' \<or> CHR 0x5C \<in> set path \<or> CHR 0x00 \<in> set path
     \<or> list_ex (\<lambda>part. part = [] \<or> part = ''.'' \<or> part = ''..'') (js_split CHR ''/'' path)"

fun config_file_entries :: "(string, string) js_map \<Rightarrow> (policy_error, unit) res" where
  "config_file_entries [] = Inr ()"
| "config_file_entries ((path, content) # m) =
     (if bad_config_path path \<or> CHR 0x00 \<in> set content
      then Inl (PolicyError (''invalid_config_file:'' @ path) 400)
      else config_file_entries m)"

definition validate_config_files :: "js_val \<Rightarrow> (policy_error, (string, string) js_map) res" where
  "validate_config_files v =
     rbind (string_map v ''invalid_config_files'') (\<lambda>m.
       if length m > 128 then Inl (PolicyError ''config_files_too_large'' 413)
       else rbind (config_file_entries m) (\<lambda>_.
         if entry_bytes m > config_files_max_bytes then Inl (PolicyError ''config_files_too_large'' 413)
         else Inr m))"

section \<open>Updating a policy\<close>

fun unknown_key :: "string list \<Rightarrow> (string \<times> js_val) list \<Rightarrow> string option" where
  "unknown_key known [] = None"
| "unknown_key known ((k, _) # ps) = (if k \<in> set known then unknown_key known ps else Some k)"

definition check_keys :: "string list \<Rightarrow> string \<Rightarrow> (string \<times> js_val) list \<Rightarrow> (policy_error, unit) res" where
  "check_keys known code ps =
     (case unknown_key known ps of None \<Rightarrow> Inr () | Some k \<Rightarrow> Inl (PolicyError (code @ '':'' @ k) 400))"

definition patched_resources ::
  "provisioning_policy \<Rightarrow> js_val \<Rightarrow> (policy_error, string \<times> string \<times> int) res" where
  "patched_resources current resources =
     rbind (string_value (js_prop resources ''memory'') (pp_memory current) ''invalid_memory_limit'') (\<lambda>memory.
     rbind (string_value (js_prop resources ''cpus'') (pp_cpus current) ''invalid_cpu_limit'') (\<lambda>cpus.
     rbind (integer_value (js_prop resources ''pidsLimit'') (pp_pidsLimit current) 32 1048576 ''invalid_pids_limit'') (\<lambda>pids.
       Inr (js_trim memory, js_trim cpus, pids))))"

definition patched_policy ::
  "string list \<Rightarrow> provisioning_policy \<Rightarrow> js_val \<Rightarrow> js_val \<Rightarrow> (policy_error, provisioning_policy) res" where
  "patched_policy reserved current patch resources =
     rbind (boolean_value (js_prop patch ''autoCreateOnFirstVisit'') (pp_autoCreateOnFirstVisit current) ''invalid_auto_create_policy'') (\<lambda>autoCreate.
     rbind (string_value (js_prop patch ''defaultAppId'') (pp_defaultAppId current) ''invalid_default_app'') (\<lambda>appId.
     rbind (boolean_value (js_prop patch ''autoStartOnEnter'') (pp_autoStartOnEnter current) ''invalid_auto_start_policy'') (\<lambda>autoStart.
     rbind (boolean_value (js_prop patch ''autoWakeOnRequest'') (pp_autoWakeOnRequest current) ''invalid_auto_wake_policy'') (\<lambda>autoWake.
     rbind (boolean_value (js_prop patch ''blockAutoWakeAfterManualStop'') (pp_blockAutoWakeAfterManualStop current) ''invalid_manual_stop_wake_policy'') (\<lambda>blockWake.
     rbind (integer_value (js_prop patch ''idleStopMinutes'') (pp_idleStopMinutes current) 0 10080 ''invalid_idle_stop_minutes'') (\<lambda>idle.
     rbind (boolean_value (js_prop patch ''detectNetworkActivity'') (pp_detectNetworkActivity current) ''invalid_network_activity_detection'') (\<lambda>network.
     rbind (boolean_value (js_prop patch ''detectComputeActivity'') (pp_detectComputeActivity current) ''invalid_compute_activity_detection'') (\<lambda>compute.
     rbind (integer_value (js_prop patch ''maxTotalInstances'') (pp_maxTotalInstances current) 1 10000 ''invalid_total_instance_limit'') (\<lambda>maxTotal.
     rbind (integer_value (js_prop patch ''maxRunningInstances'') (pp_maxRunningInstances current) 1 10000 ''invalid_running_instance_limit'') (\<lambda>maxRunning.
     rbind (patched_resources current resources) (\<lambda>(memory, cpus, pids).
     rbind (if js_prop patch ''environment'' = JUndef then Inr (pp_environment current)
            else validate_environment reserved (js_prop patch ''environment'')) (\<lambda>environment.
     rbind (if js_prop patch ''configFiles'' = JUndef then Inr (pp_configFiles current)
            else validate_config_files (js_prop patch ''configFiles'')) (\<lambda>configFiles.
       Inr \<lparr>pp_autoCreateOnFirstVisit = autoCreate, pp_defaultAppId = js_lower (js_trim appId),
            pp_autoStartOnEnter = autoStart, pp_autoWakeOnRequest = autoWake,
            pp_blockAutoWakeAfterManualStop = blockWake, pp_idleStopMinutes = idle,
            pp_detectNetworkActivity = network, pp_detectComputeActivity = compute,
            pp_maxTotalInstances = maxTotal, pp_maxRunningInstances = maxRunning,
            pp_memory = memory, pp_cpus = cpus, pp_pidsLimit = pids,
            pp_environment = environment, pp_configFiles = configFiles\<rparr>)))))))))))))"

definition checked_policy :: "provisioning_policy \<Rightarrow> (policy_error, provisioning_policy) res" where
  "checked_policy p =
     (if \<not> app_id_pattern (pp_defaultAppId p) then Inl (PolicyError ''unsupported_default_app'' 400)
      else if pp_maxRunningInstances p > pp_maxTotalInstances p
      then Inl (PolicyError ''running_limit_exceeds_total_limit'' 400)
      else if \<not> valid_memory (pp_memory p) then Inl (PolicyError ''invalid_memory_limit'' 400)
      else if \<not> valid_cpus (pp_cpus p) then Inl (PolicyError ''invalid_cpu_limit'' 400)
      else Inr p)"

definition update_policy ::
  "string list \<Rightarrow> provisioning_policy \<Rightarrow> js_val \<Rightarrow> (policy_error, provisioning_policy) res" where
  "update_policy reserved current input =
     rbind (policy_record input ''invalid_instance_policy'') (\<lambda>patch.
     rbind (check_keys policy_keys ''unknown_instance_policy_field'' patch) (\<lambda>_.
     rbind (if js_prop input ''resources'' = JUndef then Inr []
            else policy_record (js_prop input ''resources'') ''invalid_instance_resources'') (\<lambda>resources.
     rbind (check_keys [''memory'', ''cpus'', ''pidsLimit''] ''unknown_instance_resource_field'' resources) (\<lambda>_.
     rbind (patched_policy reserved current input (JObj resources)) checked_policy))))"

section \<open>Defaults\<close>

text \<open>The two texts are \<open>OPENAPP_CONTAINER_MEMORY\<close> and so on of the process environment.\<close>

record policy_env =
  pe_memory :: "string option"
  pe_cpus :: "string option"
  pe_pidsLimit :: "string option"

definition first_configured :: "string option \<Rightarrow> string option" where
  "first_configured v = (case v of None \<Rightarrow> None | Some s \<Rightarrow> if js_trim s = [] then None else Some (js_trim s))"

definition configured_or :: "string \<Rightarrow> string option \<Rightarrow> string" where
  "configured_or fallback v = (case first_configured v of None \<Rightarrow> fallback | Some s \<Rightarrow> s)"

definition generic_policy :: "string \<Rightarrow> policy_env \<Rightarrow> (policy_error, provisioning_policy) res" where
  "generic_policy defaultAppId env =
     (let appId = js_lower (js_trim defaultAppId);
          pids = (case first_configured (pe_pidsLimit env) of None \<Rightarrow> Finite 512 | Some s \<Rightarrow> js_number s);
          memory = configured_or ''4g'' (pe_memory env);
          cpus = configured_or ''2'' (pe_cpus env)
      in if \<not> app_id_pattern appId then Inl (PolicyError ''unsupported_default_app'' 400)
         else Inr
           \<lparr>pp_autoCreateOnFirstVisit = True, pp_defaultAppId = appId, pp_autoStartOnEnter = True,
            pp_autoWakeOnRequest = True, pp_blockAutoWakeAfterManualStop = True, pp_idleStopMinutes = 30,
            pp_detectNetworkActivity = True, pp_detectComputeActivity = False,
            pp_maxTotalInstances = 100, pp_maxRunningInstances = 20,
            pp_memory = (if valid_memory memory then memory else ''4g''),
            pp_cpus = (if valid_cpus cpus then cpus else ''2''),
            pp_pidsLimit = (case safe_integer (JNum pids) of
               None \<Rightarrow> 512 | Some n \<Rightarrow> if n \<ge> 32 \<and> n \<le> 1048576 then n else 512),
            pp_environment = [], pp_configFiles = []\<rparr>)"

definition policy_from_defaults :: "js_val \<Rightarrow> policy_env \<Rightarrow> (policy_error, provisioning_policy) res" where
  "policy_from_defaults defaults env =
     (let appId = (case js_prop defaults ''defaultAppId'' of JStr s \<Rightarrow> s | _ \<Rightarrow> [])
      in if js_trim appId = [] then Inl (PolicyError ''provisioning_policy_default_app_required'' 500)
         else rbind (generic_policy appId env) (\<lambda>p. update_policy [] p defaults))"

definition normalize_policy_with :: "js_val \<Rightarrow> provisioning_policy \<Rightarrow> (policy_error, provisioning_policy) res" where
  "normalize_policy_with v fallback = update_policy [] fallback v"

text \<open>The neutral base of \<open>normalizeProvisioningPolicy\<close>, for the environment of the process.\<close>

definition normalize_provisioning_policy :: "policy_env \<Rightarrow> js_val \<Rightarrow> (policy_error, provisioning_policy) res" where
  "normalize_provisioning_policy env v = rbind (generic_policy ''openapp'' env) (normalize_policy_with v)"

section \<open>Effects and launch profiles\<close>

definition same_string_map :: "(string, string) js_map \<Rightarrow> (string, string) js_map \<Rightarrow> bool" where
  "same_string_map left right \<longleftrightarrow>
     sort (map fst left) = sort (map fst right)
     \<and> list_all (\<lambda>k. js_get left k = js_get right k) (map fst left)"

definition policy_effect :: "provisioning_policy \<Rightarrow> provisioning_policy \<Rightarrow> config_effect" where
  "policy_effect previous next =
     (if pp_memory previous \<noteq> pp_memory next \<or> pp_cpus previous \<noteq> pp_cpus next
         \<or> pp_pidsLimit previous \<noteq> pp_pidsLimit next then Rebuild
      else if pp_defaultAppId previous \<noteq> pp_defaultAppId next
         \<or> \<not> same_string_map (pp_environment previous) (pp_environment next)
         \<or> \<not> same_string_map (pp_configFiles previous) (pp_configFiles next) then NewInstances
      else Immediate)"

text \<open>\<open>localeCompare\<close> on file names is the argument \<open>cmp\<close>.\<close>

definition to_launch_profile ::
  "(string \<Rightarrow> string \<Rightarrow> int) \<Rightarrow> provisioning_policy \<Rightarrow> string \<Rightarrow> launch_profile" where
  "to_launch_profile cmp p imageReference =
     \<lparr>lp_imageReference = imageReference, lp_memory = pp_memory p, lp_cpus = pp_cpus p,
      lp_pidsLimit = pp_pidsLimit p, lp_environment = pp_environment p,
      lp_configFiles = sort_by (\<lambda>a b. cmp (fst a) (fst b)) (pp_configFiles p)\<rparr>"

section \<open>Validity\<close>

text \<open>What a stored policy is to satisfy; the environment may not name a reserved variable.\<close>

definition environment_valid :: "string list \<Rightarrow> (string, string) js_map \<Rightarrow> bool" where
  "environment_valid reserved m \<longleftrightarrow>
     length m \<le> 128 \<and> entry_bytes m \<le> environment_max_bytes
     \<and> (\<forall>(k, v) \<in> set m. environment_name_pattern k \<and> \<not> is_runtime_reserved reserved k \<and> CHR 0x00 \<notin> set v)"

definition relative_path :: "string \<Rightarrow> bool" where
  "relative_path path \<longleftrightarrow>
     CHR 0x5C \<notin> set path \<and> CHR 0x00 \<notin> set path
     \<and> (\<forall>part \<in> set (js_split CHR ''/'' path). part \<notin> set [[], ''.'', ''..''])"

definition config_files_valid :: "(string, string) js_map \<Rightarrow> bool" where
  "config_files_valid m \<longleftrightarrow>
     length m \<le> 128 \<and> entry_bytes m \<le> config_files_max_bytes
     \<and> (\<forall>(path, content) \<in> set m. relative_path path \<and> CHR 0x00 \<notin> set content)"

definition policy_valid :: "string list \<Rightarrow> provisioning_policy \<Rightarrow> bool" where
  "policy_valid reserved p \<longleftrightarrow>
     app_id_pattern (pp_defaultAppId p)
     \<and> pp_idleStopMinutes p \<in> {0..10080}
     \<and> 1 \<le> pp_maxRunningInstances p \<and> pp_maxRunningInstances p \<le> pp_maxTotalInstances p
     \<and> pp_maxTotalInstances p \<le> 10000 \<and> pp_pidsLimit p \<in> {32..1048576}
     \<and> valid_memory (pp_memory p) \<and> valid_cpus (pp_cpus p)
     \<and> js_trim (pp_memory p) = pp_memory p \<and> js_trim (pp_cpus p) = pp_cpus p
     \<and> environment_valid reserved (pp_environment p) \<and> config_files_valid (pp_configFiles p)"

lemma bad_config_path_iff: "bad_config_path path \<longleftrightarrow> \<not> relative_path path"
  by (cases path) (auto simp: bad_config_path_def relative_path_def list_ex_iff starts_with_def)

lemma environment_entries_Inr:
  "environment_entries reserved m = Inr () \<longleftrightarrow>
     (\<forall>(k, v) \<in> set m. environment_name_pattern k \<and> \<not> is_runtime_reserved reserved k \<and> CHR 0x00 \<notin> set v)"
  by (induction m) (auto split: if_splits)

lemma config_file_entries_Inr:
  "config_file_entries m = Inr () \<longleftrightarrow> (\<forall>(path, content) \<in> set m. relative_path path \<and> CHR 0x00 \<notin> set content)"
  by (induction m) (auto simp: bad_config_path_iff split: if_splits)

lemma validate_environment_Inr: "validate_environment reserved v = Inr m \<Longrightarrow> environment_valid reserved m"
  by (auto simp: validate_environment_def rbind_Inr_iff environment_valid_def environment_entries_Inr split: if_splits)

lemma validate_config_files_Inr: "validate_config_files v = Inr m \<Longrightarrow> config_files_valid m"
  by (auto simp: validate_config_files_def rbind_Inr_iff config_files_valid_def config_file_entries_Inr split: if_splits)

lemma integer_value_Inr:
  "integer_value v fallback lo hi code = Inr n \<Longrightarrow> n = fallback \<or> lo \<le> n \<and> n \<le> hi"
  by (auto simp: integer_value_def split: if_splits option.splits)

lemma checked_policy_Inr:
  "checked_policy p = Inr q \<longleftrightarrow>
     q = p \<and> app_id_pattern (pp_defaultAppId p) \<and> pp_maxRunningInstances p \<le> pp_maxTotalInstances p
     \<and> valid_memory (pp_memory p) \<and> valid_cpus (pp_cpus p)"
  by (auto simp: checked_policy_def)

lemma patched_resources_Inr:
  assumes "patched_resources current resources = Inr (memory, cpus, pids)"
  shows "js_trim memory = memory \<and> js_trim cpus = cpus \<and> (pids = pp_pidsLimit current \<or> pids \<in> {32..1048576})"
  using assms by (auto simp: patched_resources_def rbind_Inr_iff dest!: integer_value_Inr)

lemma patched_policy_Inr:
  assumes "patched_policy reserved current patch resources = Inr p"
  shows "(pp_idleStopMinutes p = pp_idleStopMinutes current \<or> pp_idleStopMinutes p \<in> {0..10080})
    \<and> (pp_maxTotalInstances p = pp_maxTotalInstances current \<or> pp_maxTotalInstances p \<in> {1..10000})
    \<and> (pp_maxRunningInstances p = pp_maxRunningInstances current \<or> pp_maxRunningInstances p \<in> {1..10000})
    \<and> (pp_pidsLimit p = pp_pidsLimit current \<or> pp_pidsLimit p \<in> {32..1048576})
    \<and> js_trim (pp_memory p) = pp_memory p \<and> js_trim (pp_cpus p) = pp_cpus p
    \<and> (pp_environment p = pp_environment current \<or> environment_valid reserved (pp_environment p))
    \<and> (pp_configFiles p = pp_configFiles current \<or> config_files_valid (pp_configFiles p))"
proof -
  from assms obtain autoCreate appId autoStart autoWake blockWake idle network compute maxTotal maxRunning
      memory cpus pids environment configFiles where
    p: "p = \<lparr>pp_autoCreateOnFirstVisit = autoCreate, pp_defaultAppId = js_lower (js_trim appId),
            pp_autoStartOnEnter = autoStart, pp_autoWakeOnRequest = autoWake,
            pp_blockAutoWakeAfterManualStop = blockWake, pp_idleStopMinutes = idle,
            pp_detectNetworkActivity = network, pp_detectComputeActivity = compute,
            pp_maxTotalInstances = maxTotal, pp_maxRunningInstances = maxRunning,
            pp_memory = memory, pp_cpus = cpus, pp_pidsLimit = pids,
            pp_environment = environment, pp_configFiles = configFiles\<rparr>"
    and ints: "integer_value (js_prop patch ''idleStopMinutes'') (pp_idleStopMinutes current) 0 10080 ''invalid_idle_stop_minutes'' = Inr idle"
      "integer_value (js_prop patch ''maxTotalInstances'') (pp_maxTotalInstances current) 1 10000 ''invalid_total_instance_limit'' = Inr maxTotal"
      "integer_value (js_prop patch ''maxRunningInstances'') (pp_maxRunningInstances current) 1 10000 ''invalid_running_instance_limit'' = Inr maxRunning"
    and res: "patched_resources current resources = Inr (memory, cpus, pids)"
    and env: "(if js_prop patch ''environment'' = JUndef then Inr (pp_environment current)
            else validate_environment reserved (js_prop patch ''environment'')) = Inr environment"
    and files: "(if js_prop patch ''configFiles'' = JUndef then Inr (pp_configFiles current)
            else validate_config_files (js_prop patch ''configFiles'')) = Inr configFiles"
    unfolding patched_policy_def rbind_Inr_iff split_paired_Ex prod.case sum.inject
    by (elim exE conjE) (rule that, erule sym, assumption+)
  from env have "environment = pp_environment current \<or> environment_valid reserved environment"
    by (auto split: if_splits intro: validate_environment_Inr)
  moreover from files have "configFiles = pp_configFiles current \<or> config_files_valid configFiles"
    by (auto split: if_splits intro: validate_config_files_Inr)
  ultimately show ?thesis
    using ints [THEN integer_value_Inr] patched_resources_Inr [OF res] by (auto simp: p)
qed

lemma updated_policy_valid:
  assumes "policy_valid reserved current" "update_policy reserved current input = Inr p"
  shows "policy_valid reserved p"
proof -
  from assms(2) obtain resources where
    "patched_policy reserved current input resources = Inr p" "checked_policy p = Inr p"
    by (auto simp: update_policy_def rbind_Inr_iff checked_policy_Inr)
  with patched_policy_Inr [OF this(1)] assms(1) show ?thesis
    by (auto simp: checked_policy_Inr policy_valid_def)
qed

text \<open>C34: a policy update never stores an invalid policy. Whatever value is submitted, if the update
  of a valid policy is accepted then the result is valid: the default application id is well
  formed, the running limit is within the total limit, all numbers are in their ranges, memory
  and CPU texts denote positive amounts within the bounds, no environment variable is reserved,
  and every configuration file has a relative path without parent steps.\<close>

theorem policy_updates_stay_valid:
  assumes "policy_valid reserved current" "update_policy reserved current input = Inr p"
  shows "policy_valid reserved p"
  using assms by (rule updated_policy_valid)


section \<open>Initial policies\<close>

lemma numbers_of_the_defaults: "js_number ''4'' = Finite 4" "js_number ''2'' = Finite 2"
  by code_simp+

lemma default_limits: "valid_memory ''4g'' \<and> valid_cpus ''2''"
  by (simp add: valid_memory_def valid_cpus_def numbers_of_the_defaults memory_pattern_def memory_amount_def
      memory_suffix_def decimal_pattern_def js_digit_def js_lower_def js_lower_char_def memory_multiplier_def
      max_memory_bytes_def)

lemma first_configured_trimmed: "first_configured v = Some s \<Longrightarrow> js_trim s = s"
  by (auto simp: first_configured_def split: option.splits if_splits)

lemma configured_or_trimmed: "js_trim fallback = fallback \<Longrightarrow> js_trim (configured_or fallback v) = configured_or fallback v"
  by (auto simp: configured_or_def first_configured_trimmed split: option.splits)

lemma guarded_Inr_iff: "(if b then Inl e else Inr r) = Inr p \<longleftrightarrow> \<not> b \<and> p = r"
  by auto

lemma generic_policy_valid:
  assumes "generic_policy appId env = Inr p"
  shows "policy_valid reserved p"
proof -
  have "js_trim (configured_or ''4g'' v) = configured_or ''4g'' v" "js_trim (configured_or ''2'' v) = configured_or ''2'' v" for v
    by (rule configured_or_trimmed, simp add: js_trim_def js_space_def)+
  moreover have "js_trim ''4g'' = ''4g''" "js_trim ''2'' = ''2''" by (simp_all add: js_trim_def js_space_def)
  moreover have "(case x of None \<Rightarrow> 512 | Some n \<Rightarrow> if n \<ge> 32 \<and> n \<le> 1048576 then n else 512) \<in> {32..1048576 :: int}" for x
    by (auto split: option.split)
  ultimately show ?thesis
    using assms default_limits
    unfolding generic_policy_def Let_def guarded_Inr_iff
    by (elim conjE) (simp add: policy_valid_def environment_valid_def config_files_valid_def entry_bytes_def)
qed

text \<open>No deployment starts from an invalid policy. Whatever the process environment sets and
  whatever an adapter offers as defaults, the policy completed from the defaults, and a stored
  value normalised over the neutral base, are valid whenever they are accepted: ill-formed
  environment settings fall back to the built-in limits.\<close>

theorem initial_policies_are_valid:
  "(case policy_from_defaults defaults env of Inl e \<Rightarrow> True | Inr p \<Rightarrow> policy_valid [] p)
   \<and> (case normalize_provisioning_policy env stored of Inl e \<Rightarrow> True | Inr p \<Rightarrow> policy_valid [] p)"
  using updated_policy_valid [OF generic_policy_valid]
  by (auto simp: policy_from_defaults_def normalize_provisioning_policy_def normalize_policy_with_def Let_def
      rbind_Inr_iff split: sum.split if_splits)

text \<open>The neutral policy of an environment that configures nothing, and an update of it.\<close>

definition base_policy :: provisioning_policy where
  "base_policy = \<lparr>pp_autoCreateOnFirstVisit = True, pp_defaultAppId = ''openapp'', pp_autoStartOnEnter = True,
     pp_autoWakeOnRequest = True, pp_blockAutoWakeAfterManualStop = True, pp_idleStopMinutes = 30,
     pp_detectNetworkActivity = True, pp_detectComputeActivity = False, pp_maxTotalInstances = 100,
     pp_maxRunningInstances = 20, pp_memory = ''4g'', pp_cpus = ''2'', pp_pidsLimit = 512,
     pp_environment = [], pp_configFiles = []\<rparr>"

lemma base_policy_is_generic:
  "generic_policy ''openapp'' \<lparr>pe_memory = None, pe_cpus = None, pe_pidsLimit = None\<rparr> = Inr base_policy"
  using default_limits
  by (simp add: generic_policy_def base_policy_def first_configured_def configured_or_def app_id_pattern_def
      app_id_char_def js_digit_def js_lower_def js_lower_char_def js_trim_def js_space_def max_safe_integer_def)

lemma base_policy_valid: "policy_valid reserved base_policy"
  using base_policy_is_generic by (rule generic_policy_valid)

definition some_update :: js_val where
  "some_update = JObj [(''maxRunningInstances'', JInt 10),
     (''configFiles'', JObj [(''conf/app.json'', JStr ''on'')])]"

lemma some_update_result:
  "update_policy [] base_policy some_update =
     Inr (base_policy\<lparr>pp_maxRunningInstances := 10, pp_configFiles := [(''conf/app.json'', ''on'')]\<rparr>)"
  using default_limits
  by (simp add: update_policy_def some_update_def base_policy_def check_keys_def policy_keys_def patched_policy_def
      patched_resources_def boolean_value_def string_value_def integer_value_def max_safe_integer_def
      validate_config_files_def string_map_def bad_config_path_def starts_with_def entry_bytes_def
      config_files_max_bytes_def utf8_length_def checked_policy_def app_id_pattern_def app_id_char_def
      js_digit_def js_lower_def js_lower_char_def js_trim_def js_space_def)

theorem policy_updates_stay_valid_witness:
  "policy_valid [] (base_policy\<lparr>pp_maxRunningInstances := 10, pp_configFiles := [(''conf/app.json'', ''on'')]\<rparr>)"
  using base_policy_valid some_update_result by (rule policy_updates_stay_valid)

section \<open>Snapshots\<close>

text \<open>The JSON value of a policy, as it is stored in the history of the configuration.\<close>

definition policy_snapshot :: "provisioning_policy \<Rightarrow> js_val" where
  "policy_snapshot p = JObj
     [(''autoCreateOnFirstVisit'', JBool (pp_autoCreateOnFirstVisit p)),
      (''defaultAppId'', JStr (pp_defaultAppId p)), (''autoStartOnEnter'', JBool (pp_autoStartOnEnter p)),
      (''autoWakeOnRequest'', JBool (pp_autoWakeOnRequest p)),
      (''blockAutoWakeAfterManualStop'', JBool (pp_blockAutoWakeAfterManualStop p)),
      (''idleStopMinutes'', JInt (pp_idleStopMinutes p)),
      (''detectNetworkActivity'', JBool (pp_detectNetworkActivity p)),
      (''detectComputeActivity'', JBool (pp_detectComputeActivity p)),
      (''maxTotalInstances'', JInt (pp_maxTotalInstances p)),
      (''maxRunningInstances'', JInt (pp_maxRunningInstances p)),
      (''resources'', JObj [(''memory'', JStr (pp_memory p)), (''cpus'', JStr (pp_cpus p)),
         (''pidsLimit'', JInt (pp_pidsLimit p))]),
      (''environment'', JObj (map (\<lambda>(k, v). (k, JStr v)) (pp_environment p))),
      (''configFiles'', JObj (map (\<lambda>(k, v). (k, JStr v)) (pp_configFiles p)))]"

lemma string_entries_map [simp]: "string_entries (map (\<lambda>(k, v). (k, JStr v)) m) = Some m"
  by (induction m) auto

lemma validate_environment_map:
  "environment_valid reserved m \<Longrightarrow> validate_environment reserved (JObj (map (\<lambda>(k, v). (k, JStr v)) m)) = Inr m"
  unfolding environment_valid_def environment_entries_Inr [symmetric]
  by (simp add: validate_environment_def string_map_def)

lemma validate_config_files_map:
  "config_files_valid m \<Longrightarrow> validate_config_files (JObj (map (\<lambda>(k, v). (k, JStr v)) m)) = Inr m"
  unfolding config_files_valid_def config_file_entries_Inr [symmetric]
  by (simp add: validate_config_files_def string_map_def)

lemma integer_value_JInt:
  "lo \<le> n \<Longrightarrow> n \<le> hi \<Longrightarrow> \<bar>lo\<bar> \<le> max_safe_integer \<Longrightarrow> \<bar>hi\<bar> \<le> max_safe_integer \<Longrightarrow> integer_value (JInt n) fallback lo hi code = Inr n"
  unfolding integer_value_def safe_integer_JInt by simp

lemma string_value_JStr: "s \<noteq> [] \<Longrightarrow> js_trim s = s \<Longrightarrow> string_value (JStr s) fallback code = Inr s"
  by (simp add: string_value_def)

lemma app_id_char_plain: "app_id_char c \<or> c \<in> set ''._-'' \<Longrightarrow> js_lower_char c = c \<and> \<not> js_space c"
  by (auto simp: app_id_char_def js_digit_def js_lower_char_def js_space_def Let_def)

lemma app_id_fixed:
  assumes "app_id_pattern s"
  shows "s \<noteq> [] \<and> js_trim s = s \<and> js_lower s = s"
proof -
  from assms have ne: "s \<noteq> []" and "\<forall>c \<in> set s. app_id_char c \<or> c \<in> set ''._-''"
    by (auto simp: app_id_pattern_def list_all_iff split: list.splits)
  then have plain: "\<forall>c \<in> set s. js_lower_char c = c \<and> \<not> js_space c" using app_id_char_plain by blast
  then have "js_lower s = s" by (simp add: js_lower_def map_idI)
  moreover from plain ne have "js_trim s = s" by (intro js_trim_fixed) simp
  ultimately show ?thesis using ne by simp
qed

lemma valid_limits_nonempty: "valid_memory s \<Longrightarrow> s \<noteq> []" "valid_cpus s \<Longrightarrow> s \<noteq> []"
  by (auto simp: valid_memory_def memory_pattern_def memory_amount_def decimal_pattern_def valid_cpus_def js_number_def)

lemma policy_eta [simp]:
  "\<lparr>pp_autoCreateOnFirstVisit = pp_autoCreateOnFirstVisit p, pp_defaultAppId = pp_defaultAppId p,
     pp_autoStartOnEnter = pp_autoStartOnEnter p, pp_autoWakeOnRequest = pp_autoWakeOnRequest p,
     pp_blockAutoWakeAfterManualStop = pp_blockAutoWakeAfterManualStop p, pp_idleStopMinutes =
     pp_idleStopMinutes p, pp_detectNetworkActivity = pp_detectNetworkActivity p,
     pp_detectComputeActivity = pp_detectComputeActivity p, pp_maxTotalInstances = pp_maxTotalInstances
     p, pp_maxRunningInstances = pp_maxRunningInstances p, pp_memory = pp_memory p, pp_cpus = pp_cpus p,
     pp_pidsLimit = pp_pidsLimit p, pp_environment = pp_environment p, pp_configFiles = pp_configFiles p\<rparr> = p"
  by (cases p) simp

text \<open>C35: A policy survives export and import. Submitting the snapshot of a valid policy as an update,
  over whatever policy is current, is accepted and restores exactly that policy.\<close>

theorem policy_snapshot_roundtrip:
  assumes "policy_valid reserved p"
  shows "update_policy reserved current (policy_snapshot p) = Inr p"
proof -
  have ints: "integer_value (JInt (pp_idleStopMinutes p)) a 0 10080 c = Inr (pp_idleStopMinutes p)"
    "integer_value (JInt (pp_maxTotalInstances p)) a 1 10000 c = Inr (pp_maxTotalInstances p)"
    "integer_value (JInt (pp_maxRunningInstances p)) a 1 10000 c = Inr (pp_maxRunningInstances p)"
    "integer_value (JInt (pp_pidsLimit p)) a 32 1048576 c = Inr (pp_pidsLimit p)" for a c
    using assms by (auto simp: policy_valid_def max_safe_integer_def intro!: integer_value_JInt)
  have strs: "string_value (JStr (pp_memory p)) a c = Inr (pp_memory p)"
    "string_value (JStr (pp_cpus p)) a c = Inr (pp_cpus p)"
    "string_value (JStr (pp_defaultAppId p)) a c = Inr (pp_defaultAppId p)" for a c
    using assms app_id_fixed [of "pp_defaultAppId p"] valid_limits_nonempty
    by (auto simp: policy_valid_def intro!: string_value_JStr)
  have res: "patched_resources current (js_prop (policy_snapshot p) ''resources'') = Inr (pp_memory p, pp_cpus p, pp_pidsLimit p)"
    using assms by (simp add: patched_resources_def policy_snapshot_def ints strs policy_valid_def)
  have checked: "checked_policy p = Inr p" using assms by (simp add: checked_policy_Inr policy_valid_def)
  show ?thesis
    using assms app_id_fixed [of "pp_defaultAppId p"] res checked
    by (simp add: update_policy_def check_keys_def policy_keys_def patched_policy_def policy_snapshot_def
        boolean_value_def ints strs validate_environment_map validate_config_files_map policy_valid_def)
qed

theorem policy_snapshot_roundtrip_witness:
  "update_policy [] base_policy (policy_snapshot (base_policy\<lparr>pp_maxRunningInstances := 10\<rparr>)) =
     Inr (base_policy\<lparr>pp_maxRunningInstances := 10\<rparr>)"
  by (rule policy_snapshot_roundtrip) (use base_policy_valid [of "[]"] in \<open>simp add: policy_valid_def base_policy_def\<close>)

section \<open>Effects\<close>

lemma same_string_map_iff:
  assumes "js_wf l" "js_wf r"
  shows "same_string_map l r \<longleftrightarrow> js_get l = js_get r"
proof
  assume same: "same_string_map l r"
  then have keys: "set (map fst l) = set (map fst r)" unfolding same_string_map_def by (metis set_sort)
  show "js_get l = js_get r"
  proof
    fix k
    show "js_get l k = js_get r k"
    proof (cases "k \<in> set (map fst l)")
      case True
      with same show ?thesis by (auto simp: same_string_map_def list_all_iff)
    next
      case False
      with keys show ?thesis by (metis map_of_eq_None_iff set_map)
    qed
  qed
next
  assume eq: "js_get l = js_get r"
  then have "set (map fst l) = set (map fst r)" by (metis dom_map_of_conv_image_fst set_map)
  then have "mset (map fst l) = mset (map fst r)"
    using assms set_eq_iff_mset_eq_distinct unfolding js_wf_def by blast
  then have "sort (map fst l) = sort (map fst r)" by (metis properties_for_sort mset_sort sorted_sort)
  with eq show "same_string_map l r" by (simp add: same_string_map_def list_all_iff)
qed

text \<open>Two profiles start the same container: files and variables matter as maps.\<close>

definition same_launch :: "launch_profile \<Rightarrow> launch_profile \<Rightarrow> bool" where
  "same_launch a b \<longleftrightarrow>
     lp_imageReference a = lp_imageReference b \<and> lp_memory a = lp_memory b \<and> lp_cpus a = lp_cpus b
     \<and> lp_pidsLimit a = lp_pidsLimit b \<and> js_get (lp_environment a) = js_get (lp_environment b)
     \<and> map_of (lp_configFiles a) = map_of (lp_configFiles b)"

text \<open>The effect of a policy change says what it can touch. A change is classified as immediate
  exactly when the default application stays and every launch profile made from the new policy
  starts the same container as one made from the old policy; and as needing a rebuild exactly
  when the resource limits of the launch profiles differ.\<close>

theorem policy_effect_bounds_the_change:
  assumes "js_wf (pp_environment p)" "js_wf (pp_configFiles p)" "js_wf (pp_environment q)" "js_wf (pp_configFiles q)"
  shows "(policy_effect p q = Immediate \<longleftrightarrow>
       pp_defaultAppId p = pp_defaultAppId q \<and> same_launch (to_launch_profile cmp p img) (to_launch_profile cmp q img))
    \<and> (policy_effect p q = Rebuild \<longleftrightarrow>
       (lp_memory (to_launch_profile cmp p img), lp_cpus (to_launch_profile cmp p img), lp_pidsLimit (to_launch_profile cmp p img))
       \<noteq> (lp_memory (to_launch_profile cmp q img), lp_cpus (to_launch_profile cmp q img), lp_pidsLimit (to_launch_profile cmp q img)))"
proof -
  have "map_of (lp_configFiles (to_launch_profile cmp x img)) = js_get (pp_configFiles x)" if "js_wf (pp_configFiles x)" for x
    using that map_of_mset [of "pp_configFiles x" "lp_configFiles (to_launch_profile cmp x img)"]
    by (simp add: to_launch_profile_def js_wf_def)
  with assms show ?thesis
    by (auto simp: policy_effect_def same_launch_def same_string_map_iff) (auto simp: to_launch_profile_def)
qed

theorem policy_effect_bounds_the_change_witness:
  "policy_effect base_policy (base_policy\<lparr>pp_idleStopMinutes := 5\<rparr>) = Immediate
   \<and> policy_effect base_policy (base_policy\<lparr>pp_cpus := ''4''\<rparr>) = Rebuild"
  using policy_effect_bounds_the_change [of base_policy "base_policy\<lparr>pp_idleStopMinutes := 5\<rparr>" "\<lambda>_ _. 0" "[]"]
    policy_effect_bounds_the_change [of base_policy "base_policy\<lparr>pp_cpus := ''4''\<rparr>" "\<lambda>_ _. 0" "[]"]
  by (simp add: base_policy_def to_launch_profile_def same_launch_def)

end
