(* ===== verification/Rollout_Service.thy ===== *)
theory Rollout_Service
  imports Rollout_Safety Instance_Policy
begin

text \<open>
  The service for batches of upgrades, \<open>UpgradeRolloutService\<close> of \<open>backend/src/upgrade-rollouts.ts\<close>:
  creating a batch under an idempotency key, recovery batches, and the actions an administrator
  takes on an item. Its methods are actions as those of the worker, so the same world
  interferes. The catalog, the policy store and the check for keys used elsewhere are further
  answers of the world.
  Shown: a batch returned for a request was made for exactly that request, and an action
  changes one item, and only one that may be acted on.
\<close>

section \<open>Requests\<close>

record launch_target =
  lt_app :: app_definition
  lt_version :: app_version
  lt_imageReference :: string

record service_world =
  sv_policy :: "nat \<Rightarrow> (rollout_error, provisioning_policy) res"
  sv_target :: "nat \<Rightarrow> string \<Rightarrow> (rollout_error, launch_target) res"
  sv_conflicts :: "nat \<Rightarrow> string \<Rightarrow> string \<Rightarrow> (rollout_error, bool) res"
  sv_compare :: "string \<Rightarrow> string \<Rightarrow> int"

text \<open>\<open>CreateUpgradeRolloutInput\<close>; the instance ids are checked to be strings.\<close>

record rollout_input =
  ri_actorUserId :: string
  ri_instanceIds :: "js_val list"
  ri_useLatestVersion :: bool
  ri_taskKind :: "task_kind option"
  ri_desiredState :: "desired_state option"
  ri_recovery :: bool
  ri_idempotencyKey :: "string option"

definition max_rollout_instances :: nat where
  "max_rollout_instances = 10000"

fun instance_id_texts :: "js_val list \<Rightarrow> (rollout_error, string list) res" where
  "instance_id_texts [] = Inr []"
| "instance_id_texts (v # vs) =
     (case v of
        JStr s \<Rightarrow> rbind (instance_id_texts vs) (\<lambda>ids. Inr (js_trim s # ids))
      | _ \<Rightarrow> Inl (RolloutConflict ''invalid_upgrade_rollout_instances''))"

text \<open>A \<open>Set\<close> of the values in the order of their first occurrence.\<close>

fun js_unique :: "'a list \<Rightarrow> 'a list" where
  "js_unique [] = []"
| "js_unique (x # xs) = x # filter (\<lambda>y. y \<noteq> x) (js_unique xs)"

definition unique_instance_ids :: "js_val list \<Rightarrow> (rollout_error, string list) res" where
  "unique_instance_ids values =
     rbind (instance_id_texts values) (\<lambda>texts.
       let normalized = js_unique (filter (\<lambda>s. s \<noteq> []) texts)
       in if normalized = [] \<or> length normalized > max_rollout_instances
          then Inl (RolloutConflict ''invalid_upgrade_rollout_instances'') else Inr normalized)"

definition normalize_idempotency_key :: "string option \<Rightarrow> string option" where
  "normalize_idempotency_key v =
     (let normalized = (case v of None \<Rightarrow> [] | Some s \<Rightarrow> js_trim s)
      in if normalized = [] then None else Some normalized)"

definition task_kind_name :: "task_kind \<Rightarrow> string" where
  "task_kind_name k = (case k of
      ImageUpgrade \<Rightarrow> ''image_upgrade'' | RebuildSameImage \<Rightarrow> ''rebuild_same_image''
    | ApplyResourcePolicy \<Rightarrow> ''apply_resource_policy'' | InstanceRecovery \<Rightarrow> ''instance_recovery'')"

definition input_task_kind :: "rollout_input \<Rightarrow> task_kind" where
  "input_task_kind input =
     (case ri_taskKind input of
        Some k \<Rightarrow> k | None \<Rightarrow> if ri_useLatestVersion input then ImageUpgrade else RebuildSameImage)"

text \<open>\<open>JSON.stringify\<close> of the sorted ids, the task kind and whether the latest version is used.\<close>

definition request_fingerprint :: "string list \<Rightarrow> task_kind \<Rightarrow> bool \<Rightarrow> string" where
  "request_fingerprint ids kind useLatest =
     ''{'' @ json_quote ''instanceIds'' @ '':'' @ json_strings (sort ids)
     @ '','' @ json_quote ''taskKind'' @ '':'' @ json_quote (task_kind_name kind)
     @ '','' @ json_quote ''useLatestVersion'' @ '':'' @ (if useLatest then ''true'' else ''false'') @ ''}''"

section \<open>Creating a batch\<close>

definition find_replay ::
  "world \<Rightarrow> service_world \<Rightarrow> string \<Rightarrow> string option \<Rightarrow> string \<Rightarrow> rollout_detail option act" where
  "find_replay wd sv actorUserId idempotencyKey fingerprint =
     (case idempotencyKey of
        None \<Rightarrow> act_ret None
      | Some key \<Rightarrow>
          act_bind (read_store wd (\<lambda>m. find_rollout_by_key m actorUserId key)) (\<lambda>existing.
            case existing of
              Some (r, items) \<Rightarrow>
                if r_requestFingerprint r \<noteq> fingerprint then act_throw (RolloutConflict ''idempotency_key_conflict'')
                else act_ret (Some (r, items))
            | None \<Rightarrow>
                act_bind (call wd (\<lambda>n. sv_conflicts sv n actorUserId key)) (\<lambda>conflicts.
                  if conflicts then act_throw (RolloutConflict ''idempotency_key_conflict'') else act_ret None)))"

text \<open>\<open>Promise.all\<close> over the containers: they are read in order; a missing one is reported first.\<close>

fun read_containers :: "world \<Rightarrow> string list \<Rightarrow> container option list act" where
  "read_containers wd [] = act_ret []"
| "read_containers wd (i # is) =
     act_bind (source_container wd i) (\<lambda>c. act_bind (read_containers wd is) (\<lambda>cs. act_ret (c # cs)))"

fun all_present :: "'a option list \<Rightarrow> 'a list option" where
  "all_present [] = Some []"
| "all_present (x # xs) =
     (case x of None \<Rightarrow> None | Some y \<Rightarrow> map_option (\<lambda>ys. y # ys) (all_present xs))"

text \<open>The shared promises: one launch target per application, asked for at its first container.\<close>

fun launch_targets :: "world \<Rightarrow> service_world \<Rightarrow> string list \<Rightarrow> (string, launch_target) js_map act" where
  "launch_targets wd sv [] = act_ret []"
| "launch_targets wd sv (appId # appIds) =
     act_bind (call wd (\<lambda>n. sv_target sv n appId)) (\<lambda>target.
       act_bind (launch_targets wd sv appIds) (\<lambda>targets. act_ret ((appId, target) # targets)))"

record catalog_snapshot =
  ct_appVersionId :: "string option"
  ct_imageArtifactId :: "string option"
  ct_imageReference :: string
  ct_runtimeContract :: "string option"

definition resolve_target ::
  "container \<Rightarrow> bool \<Rightarrow> (string, launch_target) js_map \<Rightarrow> (rollout_error, catalog_snapshot) res" where
  "resolve_target c useLatest targets =
     (if \<not> useLatest then
        (if \<not> js_truthy (c_imageReference c) then Inl (RolloutConflict ''app_version_not_ready'')
         else Inr \<lparr>ct_appVersionId = c_appVersionId c, ct_imageArtifactId = c_imageArtifactId c,
                   ct_imageReference = the (c_imageReference c), ct_runtimeContract = None\<rparr>)
      else case js_get targets (c_appId c) of
        None \<Rightarrow> Inl (OtherError ''unreachable'' False)
      | Some t \<Rightarrow> Inr \<lparr>ct_appVersionId = Some (v_id (lt_version t)),
                   ct_imageArtifactId = v_imageArtifactId (lt_version t),
                   ct_imageReference = lt_imageReference t,
                   ct_runtimeContract = v_runtimeContract (lt_version t)\<rparr>)"

definition new_item ::
  "(string \<Rightarrow> string \<Rightarrow> int) \<Rightarrow> provisioning_policy \<Rightarrow> string \<Rightarrow> instant \<Rightarrow> desired_state option \<Rightarrow> bool
     \<Rightarrow> container \<Rightarrow> nat \<Rightarrow> catalog_snapshot \<Rightarrow> rollout_item" where
  "new_item cmp policy rolloutId createdAt desired recovery c position target =
     \<lparr>i_rolloutId = rolloutId, i_instanceId = c_id c, i_position = position, i_revision = 1,
      i_userId = c_userId c, i_appId = c_appId c, i_sourceStatus = c_status c,
      i_desiredState = (case desired of
         Some d \<Rightarrow> d
       | None \<Rightarrow> if c_status c = Running \<or> c_status c = Creating then WantRunning else WantStopped),
      i_sourceAppVersionId = c_appVersionId c, i_sourceImageArtifactId = c_imageArtifactId c,
      i_sourceImageReference = c_imageReference c, i_targetAppVersionId = ct_appVersionId target,
      i_targetImageArtifactId = ct_imageArtifactId target,
      i_targetImageReference = ct_imageReference target,
      i_targetRuntimeContract = ct_runtimeContract target,
      i_launchProfile = to_launch_profile cmp policy (ct_imageReference target),
      i_recovery = recovery, i_diagnostics = None, i_status = IQueued, i_blocker = None, i_error = None,
      i_forceRequested = False, i_attemptId = None, i_attemptCount = 0,
      i_nextAttemptAt = Some createdAt, i_lastCheckedAt = None, i_startedAt = None,
      i_finishedAt = None, i_createdAt = createdAt, i_updatedAt = createdAt\<rparr>"

fun new_items ::
  "(string \<Rightarrow> string \<Rightarrow> int) \<Rightarrow> provisioning_policy \<Rightarrow> string \<Rightarrow> instant \<Rightarrow> desired_state option \<Rightarrow> bool
     \<Rightarrow> bool \<Rightarrow> (string, launch_target) js_map \<Rightarrow> container list \<Rightarrow> nat \<Rightarrow> (rollout_error, rollout_item list) res" where
  "new_items cmp policy rolloutId createdAt desired recovery useLatest targets [] position = Inr []"
| "new_items cmp policy rolloutId createdAt desired recovery useLatest targets (c # cs) position =
     rbind (resolve_target c useLatest targets) (\<lambda>target.
     rbind (new_items cmp policy rolloutId createdAt desired recovery useLatest targets cs (Suc position)) (\<lambda>items.
       Inr (new_item cmp policy rolloutId createdAt desired recovery c position target # items)))"

definition build_items ::
  "world \<Rightarrow> service_world \<Rightarrow> string list \<Rightarrow> bool \<Rightarrow> string \<Rightarrow> instant \<Rightarrow> desired_state option \<Rightarrow> bool \<Rightarrow> rollout_item list act" where
  "build_items wd sv instanceIds useLatest rolloutId createdAt desired recovery =
     act_bind (call wd (sv_policy sv)) (\<lambda>policy.
     act_bind (read_containers wd instanceIds) (\<lambda>found.
       case all_present found of
         None \<Rightarrow> act_throw (RolloutConflict ''container_not_found'')
       | Some containers \<Rightarrow>
           act_bind (if useLatest then launch_targets wd sv (js_unique (map c_appId containers)) else act_ret []) (\<lambda>targets.
             act_of (new_items (sv_compare sv) policy rolloutId createdAt desired recovery useLatest targets containers 0))))"

definition new_rollout :: "rollout_input \<Rightarrow> nat \<Rightarrow> string \<Rightarrow> string option \<Rightarrow> string \<Rightarrow> instant \<Rightarrow> rollout" where
  "new_rollout input requested i idempotencyKey fingerprint createdAt =
     \<lparr>r_id = i, r_revision = 1, r_actorUserId = ri_actorUserId input, r_status = RRunning,
      r_taskKind = input_task_kind input, r_useLatestVersion = (input_task_kind input = ImageUpgrade),
      r_requested = requested, r_completed = 0, r_succeeded = 0, r_superseded = None, r_failed = 0,
      r_waiting = 0, r_upgrading = requested, r_needsAttention = 0, r_idempotencyKey = idempotencyKey,
      r_requestFingerprint = fingerprint, r_createdAt = createdAt, r_updatedAt = createdAt,
      r_finishedAt = None\<rparr>"

definition store_rollout :: "world \<Rightarrow> rollout \<Rightarrow> rollout_item list \<Rightarrow> rollout_detail act" where
  "store_rollout wd r items =
     act_bind (write_items wd (\<lambda>m. create_rollout m r items)) (\<lambda>stored.
       case stored of
         Inl _ \<Rightarrow> act_throw (OtherError ''upgrade_rollout_exists'' False)
       | Inr None \<Rightarrow> act_throw (OtherError ''Cannot read properties of null'' False)
       | Inr (Some detail) \<Rightarrow> act_ret detail)"

definition service_create :: "world \<Rightarrow> service_world \<Rightarrow> rollout_input \<Rightarrow> rollout_detail act" where
  "service_create wd sv input =
     act_bind (act_of (unique_instance_ids (ri_instanceIds input))) (\<lambda>instanceIds.
     let idempotencyKey = normalize_idempotency_key (ri_idempotencyKey input);
         taskKind = input_task_kind input;
         useLatest = (taskKind = ImageUpgrade);
         fingerprint = request_fingerprint instanceIds taskKind useLatest
     in act_bind (clock wd) (\<lambda>createdAt.
        act_bind (fresh_id wd) (\<lambda>rolloutId.
        act_bind (find_replay wd sv (ri_actorUserId input) idempotencyKey fingerprint) (\<lambda>replay.
          case replay of
            Some detail \<Rightarrow> act_ret detail
          | None \<Rightarrow>
              act_bind (build_items wd sv instanceIds useLatest rolloutId createdAt (ri_desiredState input)
                 (ri_recovery input \<or> taskKind = InstanceRecovery)) (\<lambda>items.
              act_bind (store_rollout wd (new_rollout input (length items) rolloutId idempotencyKey fingerprint createdAt) items) (\<lambda>detail.
                if r_requestFingerprint (fst detail) \<noteq> fingerprint
                then act_throw (RolloutConflict ''idempotency_key_conflict'')
                else act_ret detail))))))"

section \<open>Recovery batches and reading\<close>

definition latest_recovery :: "world \<Rightarrow> string \<Rightarrow> string \<Rightarrow> rollout_detail option act" where
  "latest_recovery wd actorUserId instanceId = read_store wd (\<lambda>m. find_latest_recovery m actorUserId instanceId)"

definition recovery_key :: "string \<Rightarrow> string option \<Rightarrow> rollout_detail option \<Rightarrow> string" where
  "recovery_key instanceId key latest =
     (case key of None \<Rightarrow> ''instance-recovery:'' @ instanceId | Some k \<Rightarrow> k)
     @ '':'' @ (case latest of None \<Rightarrow> ''initial'' | Some (r, _) \<Rightarrow> r_id r)"

definition recovery_input :: "string \<Rightarrow> string \<Rightarrow> string option \<Rightarrow> rollout_detail option \<Rightarrow> rollout_input" where
  "recovery_input actorUserId instanceId key latest =
     \<lparr>ri_actorUserId = actorUserId, ri_instanceIds = [JStr instanceId], ri_useLatestVersion = False,
      ri_taskKind = Some InstanceRecovery, ri_desiredState = Some WantRunning, ri_recovery = True,
      ri_idempotencyKey = Some (recovery_key instanceId key latest)\<rparr>"

definition create_recovery :: "world \<Rightarrow> service_world \<Rightarrow> string \<Rightarrow> string \<Rightarrow> string option \<Rightarrow> rollout_detail act" where
  "create_recovery wd sv actorUserId instanceId key =
     act_bind (latest_recovery wd actorUserId instanceId) (\<lambda>latest.
       case latest of
         Some (r, items) \<Rightarrow>
           if r_status r = RRunning then act_ret (r, items)
           else service_create wd sv (recovery_input actorUserId instanceId key latest)
       | None \<Rightarrow> service_create wd sv (recovery_input actorUserId instanceId key latest))"

definition get_recovery :: "world \<Rightarrow> string \<Rightarrow> string \<Rightarrow> rollout_detail option act" where
  "get_recovery wd actorUserId instanceId = latest_recovery wd actorUserId instanceId"

definition service_get :: "world \<Rightarrow> string \<Rightarrow> rollout_detail option act" where
  "service_get wd i = read_store wd (\<lambda>m. get_rollout m i)"

definition service_get_item :: "world \<Rightarrow> string \<Rightarrow> string \<Rightarrow> rollout_item option act" where
  "service_get_item wd rolloutId instanceId =
     act_bind (read_store wd (\<lambda>m. get_rollout m rolloutId)) (\<lambda>detail. act_ret (detail_item detail instanceId))"

definition service_list :: "world \<Rightarrow> js_num option \<Rightarrow> rollout list act" where
  "service_list wd limit = read_store wd (\<lambda>m. list_rollouts m (case limit of None \<Rightarrow> Finite 100 | Some n \<Rightarrow> n))"

section \<open>Actions on an item\<close>

fun update_item_loop :: "nat \<Rightarrow> world \<Rightarrow> string \<Rightarrow> string \<Rightarrow> (instant \<Rightarrow> rollout_item \<Rightarrow> rollout_item) \<Rightarrow> rollout_detail act" where
  "update_item_loop 0 wd rolloutId instanceId update = act_throw (RolloutConflict ''upgrade_rollout_item_conflict'')"
| "update_item_loop (Suc n) wd rolloutId instanceId update =
     act_bind (read_store wd (\<lambda>m. get_rollout m rolloutId)) (\<lambda>detail.
       case detail of
         None \<Rightarrow> act_throw (RolloutConflict ''upgrade_rollout_not_found'')
       | Some _ \<Rightarrow>
           (case detail_item detail instanceId of
              None \<Rightarrow> act_throw (RolloutConflict ''upgrade_rollout_item_not_found'')
            | Some it \<Rightarrow>
                if \<not> actionable_item (i_status it)
                then act_throw (RolloutConflict ''upgrade_rollout_item_not_actionable'')
                else act_bind (clock wd) (\<lambda>now.
                  act_bind (write_items wd (\<lambda>m. cas_item m ((update now it)\<lparr>i_updatedAt := now\<rparr>) (i_revision it))) (\<lambda>saved.
                    if saved = None then update_item_loop n wd rolloutId instanceId update
                    else act_bind (refresh_summary wd rolloutId) (\<lambda>refreshed.
                      case refreshed of
                        None \<Rightarrow> act_throw (RolloutConflict ''upgrade_rollout_not_found'')
                      | Some d \<Rightarrow> act_ret d)))))"

definition update_item :: "world \<Rightarrow> string \<Rightarrow> string \<Rightarrow> (instant \<Rightarrow> rollout_item \<Rightarrow> rollout_item) \<Rightarrow> rollout_detail act" where
  "update_item = update_item_loop store_cas_retry_limit"

definition requeued :: "bool \<Rightarrow> instant \<Rightarrow> rollout_item \<Rightarrow> rollout_item" where
  "requeued force now it = it\<lparr>i_status := IQueued, i_forceRequested := force, i_attemptId := None,
     i_attemptCount := 0, i_blocker := None, i_error := None, i_nextAttemptAt := Some now, i_finishedAt := None\<rparr>"

definition cancelled :: "instant \<Rightarrow> rollout_item \<Rightarrow> rollout_item" where
  "cancelled now it = it\<lparr>i_status := ICancelled, i_blocker := None, i_error := None, i_attemptId := None,
     i_nextAttemptAt := None, i_finishedAt := Some now\<rparr>"

definition service_force :: "world \<Rightarrow> string \<Rightarrow> string \<Rightarrow> rollout_detail act" where
  "service_force wd rolloutId instanceId = update_item wd rolloutId instanceId (requeued True)"

definition continue_waiting :: "world \<Rightarrow> string \<Rightarrow> string \<Rightarrow> rollout_detail act" where
  "continue_waiting wd rolloutId instanceId = update_item wd rolloutId instanceId (requeued False)"

definition service_cancel :: "world \<Rightarrow> string \<Rightarrow> string \<Rightarrow> rollout_detail act" where
  "service_cancel wd rolloutId instanceId = update_item wd rolloutId instanceId cancelled"

fun revalidate_loop :: "nat \<Rightarrow> world \<Rightarrow> string \<Rightarrow> string \<Rightarrow> rollout_detail act" where
  "revalidate_loop 0 wd rolloutId instanceId = act_throw (RolloutConflict ''upgrade_rollout_item_conflict'')"
| "revalidate_loop (Suc n) wd rolloutId instanceId =
     act_bind (read_store wd (\<lambda>m. get_rollout m rolloutId)) (\<lambda>detail.
       case detail of
         None \<Rightarrow> act_throw (RolloutConflict ''upgrade_rollout_not_found'')
       | Some (r, _) \<Rightarrow>
           if r_taskKind r \<noteq> ImageUpgrade then act_throw (RolloutConflict ''upgrade_rollout_item_not_revalidatable'')
           else (case detail_item detail instanceId of
              None \<Rightarrow> act_throw (RolloutConflict ''upgrade_rollout_item_not_found'')
            | Some it \<Rightarrow>
                if \<not> proof_missing it then act_throw (RolloutConflict ''upgrade_rollout_item_not_revalidatable'')
                else act_bind (source_container wd instanceId) (\<lambda>instance.
                  if (case instance of None \<Rightarrow> True | Some c \<Rightarrow>
                        \<not> matches_catalog_target c it
                        \<or> (c_status c \<noteq> Running \<and> \<not> (i_desiredState it = WantStopped \<and> c_status c = Stopped)))
                  then act_throw (RolloutConflict ''candidate_first_start_not_revalidatable'')
                  else act_bind (clock wd) (\<lambda>now.
                    act_bind (fresh_id wd) (\<lambda>attemptId.
                    act_bind (write_items wd (\<lambda>m. cas_item m (first_start_patch now attemptId it) (i_revision it))) (\<lambda>saved.
                      if saved = None then revalidate_loop n wd rolloutId instanceId
                      else act_bind (refresh_summary wd rolloutId) (\<lambda>refreshed.
                        case refreshed of
                          None \<Rightarrow> act_throw (RolloutConflict ''upgrade_rollout_not_found'')
                        | Some d \<Rightarrow> act_ret d)))))))"

definition revalidate_first_start :: "world \<Rightarrow> string \<Rightarrow> string \<Rightarrow> rollout_detail act" where
  "revalidate_first_start = revalidate_loop store_cas_retry_limit"

section \<open>The answer to a request\<close>

text \<open>The fingerprint determines the request, up to the order of the instances.\<close>

lemma task_kind_name_inj: "task_kind_name k = task_kind_name k' \<longleftrightarrow> k = k'"
  by (cases k; cases k') (simp_all add: task_kind_name_def)

lemma request_fingerprint_inj:
  "request_fingerprint ids k l = request_fingerprint ids' k' l' \<longleftrightarrow> sort ids = sort ids' \<and> k = k' \<and> l = l'"
  by (auto simp: request_fingerprint_def json_quote_cancel json_strings_cancel task_kind_name_inj)

lemma after_any: "(\<And>x s. Q x s) \<Longrightarrow> after a Q (\<lambda>_ _. True) s"
  by (auto simp: after_def split: prod.splits sum.splits)

lemma created_fingerprint:
  assumes "service_create wd sv input s = (s', Inr (r, items))"
  obtains ids where "unique_instance_ids (ri_instanceIds input) = Inr ids"
    "r_requestFingerprint r = request_fingerprint ids (input_task_kind input) (input_task_kind input = ImageUpgrade)"
proof -
  let ?fp = "\<lambda>ids. request_fingerprint ids (input_task_kind input) (input_task_kind input = ImageUpgrade)"
  let ?Q = "\<lambda>d _. \<exists>ids. unique_instance_ids (ri_instanceIds input) = Inr ids \<and> r_requestFingerprint (fst d) = ?fp ids"
  have replay: "after (find_replay wd sv actor key fp) (\<lambda>d _. case d of None \<Rightarrow> True | Some d \<Rightarrow> r_requestFingerprint (fst d) = fp) (\<lambda>_ _. True) s" for actor key fp s
    unfolding find_replay_def
    by (cases key) (auto intro!: after_any [where a = "read_store wd f" for f] after_any [where a = "call wd f" for f] split: option.split)
  have "after (service_create wd sv input) ?Q (\<lambda>_ _. True) s"
  proof (cases "unique_instance_ids (ri_instanceIds input)")
    case (Inr ids)
    show ?thesis
      using Inr by (auto simp: service_create_def Let_def
          intro!: after_mono [OF replay] after_any [where a = "build_items wd sv ids l rid t d rc" for l rid t d rc]
            after_any [where a = "store_rollout wd r its" for r its] split: option.splits)
  qed (simp add: service_create_def)
  with assms that show thesis by (auto simp: after_def)
qed

lemma set_js_unique [simp]: "set (js_unique xs) = set xs"
  by (induction xs) auto

lemma distinct_js_unique [simp]: "distinct (js_unique xs)"
  by (induction xs) auto

text \<open>C33: A batch answers exactly the request it was made for. Whatever interferes, if the service returns
  for two requests batches with the same fingerprint (in particular the same batch, as when an
  idempotency key is used again), then the requests were for the same set of instances and for
  the same kind of task: a key is never answered with a batch for other instances or another task.\<close>

theorem create_answers_the_request:
  assumes "service_create wd sv a s = (s1, Inr (r1, items1))"
    and "service_create wd' sv' b s' = (s2, Inr (r2, items2))"
    and "r_requestFingerprint r1 = r_requestFingerprint r2"
  shows "input_task_kind a = input_task_kind b
    \<and> map_sum id set (unique_instance_ids (ri_instanceIds a)) = map_sum id set (unique_instance_ids (ri_instanceIds b))"
proof -
  from assms(1) obtain ids where 1: "unique_instance_ids (ri_instanceIds a) = Inr ids"
    "r_requestFingerprint r1 = request_fingerprint ids (input_task_kind a) (input_task_kind a = ImageUpgrade)"
    by (rule created_fingerprint)
  from assms(2) obtain ids' where 2: "unique_instance_ids (ri_instanceIds b) = Inr ids'"
    "r_requestFingerprint r2 = request_fingerprint ids' (input_task_kind b) (input_task_kind b = ImageUpgrade)"
    by (rule created_fingerprint)
  from 1(2) 2(2) assms(3) have "sort ids = sort ids'" "input_task_kind a = input_task_kind b"
    by (simp_all add: request_fingerprint_inj)
  moreover then have "set ids = set ids'" by (metis set_sort)
  ultimately show ?thesis using 1(1) 2(1) by simp
qed

text \<open>A quiet service, and a request to rebuild the instance of \<open>upgrade_mem\<close> in place.\<close>

definition quiet_service :: service_world where
  "quiet_service = \<lparr>sv_policy = (\<lambda>_. Inr base_policy), sv_target = (\<lambda>_ _. Inl (OtherError ''app_not_found'' False)),
     sv_conflicts = (\<lambda>_ _ _. Inr False), sv_compare = (\<lambda>_ _. 0)\<rparr>"

definition rebuild_request :: rollout_input where
  "rebuild_request = \<lparr>ri_actorUserId = ''a1'', ri_instanceIds = [JStr '' w1'', JStr ''w1''], ri_useLatestVersion = False,
     ri_taskKind = None, ri_desiredState = None, ri_recovery = False, ri_idempotencyKey = Some ''k1''\<rparr>"

lemma rebuild_requested:
  "case service_create quiet_world quiet_service rebuild_request (upgrade_start ''1'') of
     (s, Inl e) \<Rightarrow> False | (s, Inr (r, items)) \<Rightarrow> r_id r = ''a1'' \<and> map i_instanceId items = [''w1'']"
  by code_simp

text \<open>The key is used again, for the instance named in another way: the batch is returned again.\<close>

definition repeated_request :: rollout_input where
  "repeated_request = rebuild_request\<lparr>ri_instanceIds := [JStr ''w1'']\<rparr>"

definition created_fingerprint_of :: "(rollout_error, rollout_detail) res \<Rightarrow> string option" where
  "created_fingerprint_of r = (case r of Inl _ \<Rightarrow> None | Inr (r, _) \<Rightarrow> Some (r_requestFingerprint r))"

lemma repeated_requested:
  "let (s1, d1) = service_create quiet_world quiet_service rebuild_request (upgrade_start ''1'');
       d2 = snd (service_create quiet_world quiet_service repeated_request s1)
   in created_fingerprint_of d1 \<noteq> None \<and> created_fingerprint_of d2 = created_fingerprint_of d1"
  by code_simp

theorem create_answers_the_request_witness:
  "\<exists>s1 r1 items1 s2 r2 items2.
     service_create quiet_world quiet_service rebuild_request (upgrade_start ''1'') = (s1, Inr (r1, items1))
     \<and> service_create quiet_world quiet_service repeated_request s1 = (s2, Inr (r2, items2))
     \<and> map_sum id set (unique_instance_ids (ri_instanceIds rebuild_request)) =
       map_sum id set (unique_instance_ids (ri_instanceIds repeated_request))"
proof -
  obtain s1 d1 where 1: "service_create quiet_world quiet_service rebuild_request (upgrade_start ''1'') = (s1, d1)"
    by (cases "service_create quiet_world quiet_service rebuild_request (upgrade_start ''1'')")
  obtain s2 d2 where 2: "service_create quiet_world quiet_service repeated_request s1 = (s2, d2)"
    by (cases "service_create quiet_world quiet_service repeated_request s1")
  have f: "created_fingerprint_of d1 \<noteq> None" "created_fingerprint_of d2 = created_fingerprint_of d1"
    using repeated_requested by (simp_all add: 1 2)
  then obtain r1 items1 r2 items2 where d: "d1 = Inr (r1, items1)" "d2 = Inr (r2, items2)"
    and same: "r_requestFingerprint r1 = r_requestFingerprint r2"
    by (cases d1; cases d2) (auto simp: created_fingerprint_of_def)
  note c = 1 [unfolded d(1)] 2 [unfolded d(2)]
  from create_answers_the_request [OF c same] c show ?thesis by blast
qed

section \<open>Actions of administrators\<close>

text \<open>
  A write that is an action on the item of one instance in one batch: every other item stays,
  and this one, if touched, keeps its target and is one revision further, with \<open>P\<close> between the
  old and the new row.
\<close>

definition action_step :: "(rollout_item \<Rightarrow> rollout_item \<Rightarrow> bool) \<Rightarrow> string \<Rightarrow> string \<Rightarrow> mem \<Rightarrow> mem \<Rightarrow> bool" where
  "action_step P rolloutId instanceId m m' \<longleftrightarrow>
     (\<forall>k a. js_get (m_upgradeRolloutItems m) k = Some a \<longrightarrow>
        (\<exists>b. js_get (m_upgradeRolloutItems m') k = Some b
           \<and> (b = a \<or> i_rolloutId a = rolloutId \<and> i_instanceId a = instanceId
                \<and> item_target b = item_target a \<and> i_revision b = Suc (i_revision a) \<and> P a b)))"

definition requeues :: "bool \<Rightarrow> rollout_item \<Rightarrow> rollout_item \<Rightarrow> bool" where
  "requeues force a b \<longleftrightarrow> actionable_item (i_status a) \<and> i_status b = IQueued \<and> i_forceRequested b = force
     \<and> i_attemptId b = None \<and> i_attemptCount b = 0 \<and> i_nextAttemptAt b = Some (i_updatedAt b)"

definition cancels :: "rollout_item \<Rightarrow> rollout_item \<Rightarrow> bool" where
  "cancels a b \<longleftrightarrow> actionable_item (i_status a) \<and> i_status b = ICancelled \<and> i_attemptId b = None
     \<and> i_finishedAt b = Some (i_updatedAt b)"

definition reopens :: "rollout_item \<Rightarrow> rollout_item \<Rightarrow> bool" where
  "reopens a b \<longleftrightarrow> proof_missing a \<and> i_status b = IAwaitingFirstStart \<and> i_attemptId b \<noteq> None \<and> i_attemptCount b = 0"

text \<open>What holds throughout an action: the store's invariant, and that all writes were such steps.\<close>

definition acting :: "(rollout_item \<Rightarrow> rollout_item \<Rightarrow> bool) \<Rightarrow> string \<Rightarrow> string \<Rightarrow> wk \<Rightarrow> bool" where
  "acting P rolloutId instanceId s \<longleftrightarrow> rollouts_inv (k_mem s)
     \<and> (\<forall>m m'. Wrote m m' \<in> set (k_log s) \<longrightarrow> action_step P rolloutId instanceId m m')"

lemma acting_waited:
  "world_ok wd \<Longrightarrow> acting P rid iid s \<Longrightarrow> acting P rid iid (s\<lparr>k_mem := wd_env wd n (k_mem s), k_step := k\<rparr>)"
  by (simp add: acting_def world_ok_def)

lemma refresh_quiet:
  assumes wd: "world_ok wd" and inv: "rollouts_inv (k_mem s)"
  defines "I \<equiv> \<lambda>s'. rollouts_inv (k_mem s') \<and> k_log s' = k_log s"
  shows "after (refresh_summary wd i) (\<lambda>_. I) (\<lambda>_. I) s"
proof -
  have env: "rollouts_inv m \<Longrightarrow> rollouts_inv (wd_env wd n m)" for n m using wd by (simp add: world_ok_def)
  have "I s1 \<Longrightarrow> after (refresh_loop n wd i) (\<lambda>_. I) (\<lambda>_. I) s1" for n s1
  proof (induction n arbitrary: s1)
    case (Suc n)
    then show ?case
      by (auto simp: I_def env after_read after_write_rollout Let_def cas_rollout_inv split: option.split)
  qed simp
  then show ?thesis using inv by (simp add: refresh_summary_def I_def)
qed

text \<open>One attempt of an action: the row is the one read before, or nothing is written.\<close>

lemma cas_item_action:
  assumes "known m it" "item_key new = item_key it"
    and "\<And>n. P it (item_written it new (i_updatedAt new) n)"
  shows "action_step P (i_rolloutId it) (i_instanceId it) m (fst (cas_item m new (i_revision it)))"
proof (cases rule: cas_item_cases [of m new "i_revision it"])
  case (won c)
  then have "c = it" using assms(1,2) by (auto intro: known_current)
  with won assms show ?thesis by (auto simp: action_step_def)
qed (simp add: action_step_def)

lemma acting_write:
  assumes wd: "world_ok wd" and s: "acting P (i_rolloutId it) (i_instanceId it) s" and known: "known (k_mem s) it"
    and key: "item_key new = item_key it" and P: "\<And>n. P it (item_written it new (i_updatedAt new) n)"
    and rest: "\<And>saved s'. acting P (i_rolloutId it) (i_instanceId it) s' \<Longrightarrow>
        after (f saved) (\<lambda>_. acting P (i_rolloutId it) (i_instanceId it)) (\<lambda>_. acting P (i_rolloutId it) (i_instanceId it)) s'"
  shows "after (act_bind (write_items wd (\<lambda>m. cas_item m new (i_revision it))) f)
    (\<lambda>_. acting P (i_rolloutId it) (i_instanceId it)) (\<lambda>_. acting P (i_rolloutId it) (i_instanceId it)) s"
proof -
  let ?m = "wd_env wd (k_step s) (k_mem s)"
  have m: "rollouts_inv ?m" "items_move (k_mem s) ?m" using wd s by (auto simp: world_ok_def acting_def)
  have "acting P (i_rolloutId it) (i_instanceId it)
      (s\<lparr>k_step := Suc (k_step s), k_mem := fst (cas_item ?m new (i_revision it)),
         k_log := Wrote ?m (fst (cas_item ?m new (i_revision it))) # k_log s\<rparr>)"
    using s cas_item_inv [OF m(1)] cas_item_action [where P = P, OF known_move [OF known m(2)] key P] by (auto simp: acting_def)
  then show ?thesis by (simp add: after_write_items Let_def rest)
qed

lemma acting_refresh:
  assumes wd: "world_ok wd" and s: "acting P rid iid s"
  shows "after (act_bind (refresh_summary wd i) (\<lambda>refreshed. case refreshed of
        None \<Rightarrow> act_throw (RolloutConflict ''upgrade_rollout_not_found'') | Some d \<Rightarrow> act_ret d))
    (\<lambda>_. acting P rid iid) (\<lambda>_. acting P rid iid) s"
  using s by (auto simp: acting_def intro!: after_mono [OF refresh_quiet [OF wd]] split: option.split)

lemma read_row:
  assumes wd: "world_ok wd" and s: "acting P rid iid s"
  defines "s' \<equiv> s\<lparr>k_mem := wd_env wd (k_step s) (k_mem s), k_step := Suc (k_step s)\<rparr>"
  shows "acting P rid iid s'"
    and "detail_item (get_rollout (k_mem s') rid) iid = Some it \<Longrightarrow>
      known (k_mem s') it \<and> i_rolloutId it = rid \<and> i_instanceId it = iid"
proof -
  show s': "acting P rid iid s'" unfolding s'_def by (rule acting_waited [OF wd s])
  show "known (k_mem s') it \<and> i_rolloutId it = rid \<and> i_instanceId it = iid"
    if "detail_item (get_rollout (k_mem s') rid) iid = Some it"
    using get_rollout_row [OF _ that] s' known_row unfolding acting_def by blast
qed

lemma update_item_acting:
  assumes wd: "world_ok wd"
    and P: "\<And>it now n. actionable_item (i_status it) \<Longrightarrow> P it (item_written it ((update now it)\<lparr>i_updatedAt := now\<rparr>) now n)"
    and key: "\<And>now it. item_key (update now it) = item_key it"
  shows "acting P rid iid s \<Longrightarrow>
    after (update_item_loop n wd rid iid update) (\<lambda>_. acting P rid iid) (\<lambda>_. acting P rid iid) s"
proof (induction n arbitrary: s)
  case (Suc n)
  let ?s = "s\<lparr>k_mem := wd_env wd (k_step s) (k_mem s), k_step := Suc (k_step s)\<rparr>"
  note read = read_row [OF wd Suc.prems]
  have writing: "after (act_bind (clock wd) (\<lambda>now. act_bind (write_items wd (\<lambda>m. cas_item m ((update now it)\<lparr>i_updatedAt := now\<rparr>) (i_revision it))) (\<lambda>saved.
      if saved = None then update_item_loop n wd rid iid update
      else act_bind (refresh_summary wd rid) (\<lambda>refreshed. case refreshed of
        None \<Rightarrow> act_throw (RolloutConflict ''upgrade_rollout_not_found'') | Some d \<Rightarrow> act_ret d))))
      (\<lambda>_. acting P rid iid) (\<lambda>_. acting P rid iid) ?s"
    if found: "detail_item (get_rollout (k_mem ?s) rid) iid = Some it" and act: "actionable_item (i_status it)" for it
  proof -
    note row = read(2) [OF found]
    have clocked: "acting P (i_rolloutId it) (i_instanceId it) (?s\<lparr>k_step := Suc (k_step ?s)\<rparr>)"
      "known (k_mem (?s\<lparr>k_step := Suc (k_step ?s)\<rparr>)) it"
      using read(1) row by (auto simp: acting_def)
    show ?thesis
      unfolding after_bind [of "clock wd"] after_clock
      by (rule acting_write [OF wd clocked, unfolded row [THEN conjunct2, THEN conjunct1] row [THEN conjunct2, THEN conjunct2]])
        (use key [of _ it] P [OF act] Suc.IH acting_refresh [OF wd] row in \<open>auto simp del: after_bind\<close>)
  qed
  show ?case
    unfolding update_item_loop.simps after_bind [of "read_store wd f" for f] after_read Let_def
    using read(1) writing by (auto simp del: after_bind split: option.split)
qed simp

lemma container_acting:
  assumes wd: "world_ok wd" and s: "acting P rid iid s" "known (k_mem s) it"
  shows "after (source_container wd i) (\<lambda>_ s'. acting P rid iid s' \<and> known (k_mem s') it) (\<lambda>_. acting P rid iid) s"
proof -
  have "known (wd_env wd (k_step s) (k_mem s)) it" "rollouts_inv (wd_env wd (k_step s) (k_mem s))"
    using s wd by (auto simp: acting_def world_ok_def intro: known_move)
  then show ?thesis
    using s(1)
    by (auto simp: source_container_def after_read Let_def acting_def split: sum.split option.split)
qed

lemma revalidate_acting:
  assumes wd: "world_ok wd"
  shows "acting reopens rid iid s \<Longrightarrow>
    after (revalidate_loop n wd rid iid) (\<lambda>_. acting reopens rid iid) (\<lambda>_. acting reopens rid iid) s"
proof (induction n arbitrary: s)
  case (Suc n)
  let ?s = "s\<lparr>k_mem := wd_env wd (k_step s) (k_mem s), k_step := Suc (k_step s)\<rparr>"
  note read = read_row [OF wd Suc.prems]
  have writing: "after (act_bind (clock wd) (\<lambda>now. act_bind (fresh_id wd) (\<lambda>attemptId.
      act_bind (write_items wd (\<lambda>m. cas_item m (first_start_patch now attemptId it) (i_revision it))) (\<lambda>saved.
      if saved = None then revalidate_loop n wd rid iid
      else act_bind (refresh_summary wd rid) (\<lambda>refreshed. case refreshed of
        None \<Rightarrow> act_throw (RolloutConflict ''upgrade_rollout_not_found'') | Some d \<Rightarrow> act_ret d)))))
      (\<lambda>_. acting reopens rid iid) (\<lambda>_. acting reopens rid iid) t"
    if t: "acting reopens rid iid t" "known (k_mem t) it" and row: "i_rolloutId it = rid" "i_instanceId it = iid"
      and act: "proof_missing it" for t it
  proof -
    let ?t = "t\<lparr>k_step := Suc (k_step t)\<rparr>\<lparr>k_step := Suc (k_step (t\<lparr>k_step := Suc (k_step t)\<rparr>))\<rparr>"
    have clocked: "acting reopens (i_rolloutId it) (i_instanceId it) ?t" "known (k_mem ?t) it"
      using t row by (auto simp: acting_def)
    have P: "reopens it (item_written it (first_start_patch now attemptId it) u n)" for now attemptId u n
      using act by (simp add: reopens_def item_written_def first_start_patch_def)
    show ?thesis
      unfolding after_bind [of "clock wd"] after_clock after_bind [of "fresh_id wd"] after_fresh_id
      by (rule acting_write [OF wd clocked, unfolded row])
        (use P Suc.IH acting_refresh [OF wd] row in \<open>auto simp: first_start_patch_def simp del: after_bind\<close>)
  qed
  have checked: "after (act_bind (source_container wd iid) (\<lambda>instance.
        if (case instance of None \<Rightarrow> True | Some c \<Rightarrow>
              \<not> matches_catalog_target c it
              \<or> (c_status c \<noteq> Running \<and> \<not> (i_desiredState it = WantStopped \<and> c_status c = Stopped)))
        then act_throw (RolloutConflict ''candidate_first_start_not_revalidatable'')
        else act_bind (clock wd) (\<lambda>now. act_bind (fresh_id wd) (\<lambda>attemptId.
          act_bind (write_items wd (\<lambda>m. cas_item m (first_start_patch now attemptId it) (i_revision it))) (\<lambda>saved.
            if saved = None then revalidate_loop n wd rid iid
            else act_bind (refresh_summary wd rid) (\<lambda>refreshed. case refreshed of
              None \<Rightarrow> act_throw (RolloutConflict ''upgrade_rollout_not_found'') | Some d \<Rightarrow> act_ret d))))))
      (\<lambda>_. acting reopens rid iid) (\<lambda>_. acting reopens rid iid) ?s"
    if found: "detail_item (get_rollout (k_mem ?s) rid) iid = Some it" and act: "proof_missing it" for it
  proof -
    note row = read(2) [OF found]
    show ?thesis
      unfolding after_bind [of "source_container wd iid"]
      by (rule after_mono [OF container_acting [OF wd read(1) conjunct1 [OF row]]])
        (use row act writing in \<open>auto simp del: after_bind split: option.split\<close>)
  qed
  show ?case
    unfolding revalidate_loop.simps after_bind [of "read_store wd f" for f] after_read Let_def
    using read(1) checked by (auto simp del: after_bind split: option.split)
qed simp

lemma acting_done:
  assumes "after a (\<lambda>_. acting P rid iid) (\<lambda>_. acting P rid iid) s"
  shows "Wrote m m' \<in> set (k_log (fst (a s))) \<Longrightarrow> action_step P rid iid m m'"
  using assms by (auto simp: after_def acting_def split: prod.splits sum.splits)

text \<open>C32: an administrator acts on one item, and only where it rests. Whatever other processes do to the store
  before each access (keeping its invariant and moving items under new revisions), everything
  that forcing, requeueing, cancelling or revalidating an item writes leaves all other items as
  they are and takes the item of that instance in that batch one revision further with the
  target it has: from a status in which it may be acted on (queued, waiting, failed or needing
  attention) to queued with a fresh failure budget or to cancelled, and from a missing
  first-start proof back to awaiting the first start. An item being upgraded is never touched.\<close>

theorem administrators_act_on_resting_items:
  assumes "world_ok wd" "rollouts_inv (k_mem s)" "k_log s = []"
  shows "(Wrote m m' \<in> set (k_log (fst (service_force wd rid iid s))) \<longrightarrow> action_step (requeues True) rid iid m m')
    \<and> (Wrote m m' \<in> set (k_log (fst (continue_waiting wd rid iid s))) \<longrightarrow> action_step (requeues False) rid iid m m')
    \<and> (Wrote m m' \<in> set (k_log (fst (service_cancel wd rid iid s))) \<longrightarrow> action_step cancels rid iid m m')
    \<and> (Wrote m m' \<in> set (k_log (fst (revalidate_first_start wd rid iid s))) \<longrightarrow> action_step reopens rid iid m m')"
proof -
  have start: "acting P rid iid s" for P using assms by (simp add: acting_def)
  have "after (update_item wd rid iid (requeued f)) (\<lambda>_. acting (requeues f) rid iid) (\<lambda>_. acting (requeues f) rid iid) s" for f
    unfolding update_item_def
    by (rule update_item_acting [OF assms(1) _ _ start]) (auto simp: requeues_def item_written_def requeued_def)
  moreover have "after (update_item wd rid iid cancelled) (\<lambda>_. acting cancels rid iid) (\<lambda>_. acting cancels rid iid) s"
    unfolding update_item_def
    by (rule update_item_acting [OF assms(1) _ _ start]) (auto simp: cancels_def item_written_def cancelled_def)
  ultimately show ?thesis
    unfolding service_force_def continue_waiting_def service_cancel_def revalidate_first_start_def
    using revalidate_acting [OF assms(1) start] by (intro conjI impI) (erule acting_done [rotated], simp)+
qed

lemma forced_run:
  "map event_name (k_log (fst (service_force quiet_world ''r1'' ''w1'' (upgrade_start ''1'')))) = [''wrote'']"
  by code_simp

theorem administrators_act_on_resting_items_witness:
  "\<exists>m m'. Wrote m m' \<in> set (k_log (fst (service_force quiet_world ''r1'' ''w1'' (upgrade_start ''1''))))
     \<and> action_step (requeues True) ''r1'' ''w1'' m m'"
proof -
  obtain e where e: "e \<in> set (k_log (fst (service_force quiet_world ''r1'' ''w1'' (upgrade_start ''1''))))" "event_name e = ''wrote''"
    using named_event [OF forced_run, of "''wrote''"] by auto
  obtain m m' where "e = Wrote m m'" using event_name_cases(1) [OF e(2)] by blast
  with e(1) show ?thesis
    using administrators_act_on_resting_items [OF quiet_world_ok upgrade_start_ok] by blast
qed

end
