(* ===== verification/Memory_Activity.thy ===== *)
theory Memory_Activity
  imports Memory_Rollouts Memory_Workspaces
begin

text \<open>
  Activity leases and upgrade drains in \<open>MemoryPersistence\<close>. The methods run their body under the
  lock of the instance and do not wait inside, so each is one step on the store. Shown: while a
  granted drain is neither released nor expired, its instance takes no connection and no other
  drain, and under a graceful drain no live connection is left.
\<close>

section \<open>The methods\<close>

text \<open>\<open>#isInstanceDraining\<close>: an expired drain is dropped by the check.\<close>

definition draining_now :: "mem \<Rightarrow> string \<Rightarrow> instant \<Rightarrow> mem \<times> bool" where
  "draining_now m instanceId tm =
     (case js_get (m_drains m) instanceId of
        None \<Rightarrow> (m, False)
      | Some d \<Rightarrow>
          if d_expiresAt d > tm then (m, True)
          else (m\<lparr>m_drains := js_delete (m_drains m) instanceId\<rparr>, False))"

definition store_lease :: "mem \<Rightarrow> activity_lease \<Rightarrow> mem" where
  "store_lease m lease = m\<lparr>m_activityLeases := js_set (m_activityLeases m) (l_id lease) lease\<rparr>"

definition try_open_lease :: "mem \<Rightarrow> activity_lease \<Rightarrow> instant \<Rightarrow> mem \<times> bool" where
  "try_open_lease m lease tm =
     (if \<not> execution_active m (l_instanceId lease) then (m, False)
      else let (m1, draining) = draining_now m (l_instanceId lease) tm
           in if draining then (m1, False)
              else (touch_container_at (store_lease m1 lease) (l_instanceId lease) (l_openedAt lease), True))"

definition renew_lease :: "mem \<Rightarrow> activity_lease \<Rightarrow> instant \<Rightarrow> mem \<times> bool" where
  "renew_lease m lease tm =
     (if \<not> execution_active m (l_instanceId lease) \<or> \<not> js_has (m_activityLeases m) (l_id lease) then (m, False)
      else let (m1, draining) = draining_now m (l_instanceId lease) tm
           in if draining then (m1, False)
              else (touch_container_at (store_lease m1 lease) (l_instanceId lease) (l_lastActivityAt lease), True))"

definition delete_lease :: "mem \<Rightarrow> string \<Rightarrow> mem" where
  "delete_lease m i = m\<lparr>m_activityLeases := js_delete (m_activityLeases m) i\<rparr>"

definition close_lease :: "mem \<Rightarrow> string \<Rightarrow> string \<Rightarrow> instant \<Rightarrow> mem" where
  "close_lease m i instanceId closedAt =
     (let m1 = (case js_get (m_activityLeases m) i of
            None \<Rightarrow> m
          | Some lease \<Rightarrow> if l_instanceId lease = instanceId then delete_lease m i else m)
      in touch_container_at m1 instanceId closedAt)"

definition list_active_leases :: "mem \<Rightarrow> string \<Rightarrow> instant \<Rightarrow> activity_lease list" where
  "list_active_leases m instanceId heartbeatCutoff =
     sort_key l_openedAt
       (filter (\<lambda>l. l_instanceId l = instanceId \<and> l_heartbeatAt l \<ge> heartbeatCutoff) (js_values (m_activityLeases m)))"

text \<open>A lease that keeps a graceful drain away.\<close>

definition blocks_drain :: "drain_request \<Rightarrow> activity_lease \<Rightarrow> bool" where
  "blocks_drain r l \<longleftrightarrow>
     l_instanceId l = dr_instanceId r \<and> l_heartbeatAt l \<ge> dr_heartbeatCutoff r
     \<and> (l_kind l = Http \<or> l_lastActivityAt l \<ge> dr_websocketActivityCutoff r)"

definition owns_drain :: "drain_request \<Rightarrow> drain \<Rightarrow> bool" where
  "owns_drain r d \<longleftrightarrow> d_rolloutId d = dr_rolloutId r \<and> d_attemptId d = dr_attemptId r"

definition begin_draining :: "mem \<Rightarrow> drain_request \<Rightarrow> mem \<times> bool" where
  "begin_draining m r =
     (let existing = js_get (m_drains m) (dr_instanceId r)
      in if (case existing of None \<Rightarrow> False | Some d \<Rightarrow> d_expiresAt d > dr_at r \<and> \<not> owns_drain r d) then (m, False)
         else let m1 = (case existing of
                   None \<Rightarrow> m
                 | Some d \<Rightarrow> if d_expiresAt d \<le> dr_at r
                            then m\<lparr>m_drains := js_delete (m_drains m) (dr_instanceId r)\<rparr> else m)
              in if dr_mode r = Graceful \<and> list_ex (blocks_drain r) (js_values (m_activityLeases m1)) then (m1, False)
                 else (m1\<lparr>m_drains := js_set (m_drains m1) (dr_instanceId r)
                          \<lparr>d_rolloutId = dr_rolloutId r, d_attemptId = dr_attemptId r, d_expiresAt = dr_expiresAt r\<rparr>\<rparr>, True))"

definition clear_draining :: "mem \<Rightarrow> string \<Rightarrow> string \<Rightarrow> string \<Rightarrow> mem" where
  "clear_draining m instanceId rolloutId attemptId =
     (case js_get (m_drains m) instanceId of
        None \<Rightarrow> m
      | Some d \<Rightarrow>
          if d_rolloutId d = rolloutId \<and> d_attemptId d = attemptId
          then m\<lparr>m_drains := js_delete (m_drains m) instanceId\<rparr> else m)"

definition is_draining :: "mem \<Rightarrow> string \<Rightarrow> instant \<Rightarrow> mem \<times> bool" where
  "is_draining m instanceId tm = draining_now m instanceId tm"

section \<open>Runs\<close>

datatype activity_event =
    AOpen activity_lease instant
  | ARenew activity_lease instant
  | ADelete string
  | AClose string string instant
  | ABegin drain_request
  | AClear string string string
  | AAsk string instant

fun activity_call :: "mem \<Rightarrow> activity_event \<Rightarrow> mem \<times> bool" where
  "activity_call m (AOpen lease t) = try_open_lease m lease t"
| "activity_call m (ARenew lease t) = renew_lease m lease t"
| "activity_call m (ADelete i) = (delete_lease m i, True)"
| "activity_call m (AClose i instanceId t) = (close_lease m i instanceId t, True)"
| "activity_call m (ABegin r) = begin_draining m r"
| "activity_call m (AClear i r a) = (clear_draining m i r a, True)"
| "activity_call m (AAsk i t) = is_draining m i t"

definition activity_step :: "mem \<Rightarrow> activity_event \<Rightarrow> mem" where
  "activity_step m e = fst (activity_call m e)"

section \<open>A drain that is held\<close>

text \<open>
  What a granted drain \<open>r\<close> promises as long as it stands: the store holds it, not expiring before
  it was to; and if it was graceful, no live connection of its instance is left.
\<close>

definition drain_stands :: "drain_request \<Rightarrow> mem \<Rightarrow> bool" where
  "drain_stands r m \<longleftrightarrow>
     (\<exists>d. js_get (m_drains m) (dr_instanceId r) = Some d \<and> owns_drain r d \<and> dr_expiresAt r \<le> d_expiresAt d)
     \<and> (dr_mode r = Graceful \<longrightarrow> (\<forall>l \<in> set (js_values (m_activityLeases m)). \<not> blocks_drain r l))"

text \<open>
  Calls that leave it standing: they come before it expires, they are not its release, and the
  owner does not shorten it.
\<close>

fun spares_drain :: "drain_request \<Rightarrow> activity_event \<Rightarrow> bool" where
  "spares_drain r (AOpen l t) = (l_instanceId l = dr_instanceId r \<longrightarrow> t < dr_expiresAt r)"
| "spares_drain r (ARenew l t) = (l_instanceId l = dr_instanceId r \<longrightarrow> t < dr_expiresAt r)"
| "spares_drain r (AAsk i t) = (i = dr_instanceId r \<longrightarrow> t < dr_expiresAt r)"
| "spares_drain r (ABegin q) = (dr_instanceId q = dr_instanceId r \<longrightarrow>
     dr_at q < dr_expiresAt r
     \<and> (dr_rolloutId q = dr_rolloutId r \<and> dr_attemptId q = dr_attemptId r \<longrightarrow> dr_expiresAt r \<le> dr_expiresAt q))"
| "spares_drain r (AClear i ro a) = (\<not> (i = dr_instanceId r \<and> ro = dr_rolloutId r \<and> a = dr_attemptId r))"
| "spares_drain r _ = True"

text \<open>A call that would let work into the instance, or hand it to another upgrade.\<close>

fun intrudes :: "drain_request \<Rightarrow> activity_event \<Rightarrow> bool" where
  "intrudes r (AOpen l t) = (l_instanceId l = dr_instanceId r)"
| "intrudes r (ARenew l t) = (l_instanceId l = dr_instanceId r)"
| "intrudes r (ABegin q) = (dr_instanceId q = dr_instanceId r
     \<and> \<not> (dr_rolloutId q = dr_rolloutId r \<and> dr_attemptId q = dr_attemptId r))"
| "intrudes r _ = False"

lemma drains_touch [simp]:
  "m_drains (touch_container_at m i t) = m_drains m"
  "m_activityLeases (touch_container_at m i t) = m_activityLeases m"
  by (simp_all add: touch_container_at_def Let_def split: option.split)

lemma drains_store_lease [simp]: "m_drains (store_lease m l) = m_drains m"
  by (simp add: store_lease_def)

lemma js_values_delete: "set (js_values (js_delete m k)) \<subseteq> set (js_values m)"
  by (auto simp: js_values_def js_delete_def AList.delete_eq)

lemma draining_now_other:
  "i \<noteq> dr_instanceId r \<Longrightarrow> drain_stands r (fst (draining_now m i t)) = drain_stands r m"
  by (auto simp: draining_now_def drain_stands_def split: option.split)

lemma draining_now_same:
  "drain_stands r m \<Longrightarrow> t < dr_expiresAt r \<Longrightarrow> draining_now m (dr_instanceId r) t = (m, True)"
  by (auto simp: draining_now_def drain_stands_def)

lemma drain_stands_lease:
  assumes "drain_stands r m" "l_instanceId l \<noteq> dr_instanceId r"
  shows "drain_stands r (touch_container_at (store_lease m l) i t)"
  using assms js_set_values_subset [of "m_activityLeases m" "l_id l" l]
  by (auto simp: drain_stands_def store_lease_def blocks_drain_def)

lemma drain_stands_begin:
  assumes stands: "drain_stands r m" and spares: "spares_drain r (ABegin q)"
  shows "drain_stands r (fst (begin_draining m q)) \<and> (intrudes r (ABegin q) \<longrightarrow> \<not> snd (begin_draining m q))"
proof (cases "dr_instanceId q = dr_instanceId r")
  case True
  with stands obtain d where d: "js_get (m_drains m) (dr_instanceId q) = Some d" "owns_drain r d" "dr_expiresAt r \<le> d_expiresAt d"
    by (auto simp: drain_stands_def)
  have later: "d_expiresAt d > dr_at q" using d(3) spares True by simp
  show ?thesis
  proof (cases "owns_drain q d")
    case False
    with d later have "begin_draining m q = (m, False)" by (simp add: begin_draining_def)
    with stands show ?thesis by simp
  next
    case owner: True
    then have same: "dr_rolloutId q = dr_rolloutId r" "dr_attemptId q = dr_attemptId r" using d(2) by (simp_all add: owns_drain_def)
    with d later owner True spares stands show ?thesis
      by (auto simp: begin_draining_def Let_def drain_stands_def owns_drain_def)
  qed
next
  case False
  with stands show ?thesis
    by (auto simp: begin_draining_def Let_def drain_stands_def split: option.split)
qed

lemma drain_stands_call:
  assumes stands: "drain_stands r m" and spares: "spares_drain r e"
  shows "drain_stands r (activity_step m e) \<and> (intrudes r e \<longrightarrow> \<not> snd (activity_call m e))"
proof (cases e)
  case (AOpen l t)
  show ?thesis
  proof (cases "l_instanceId l = dr_instanceId r")
    case True
    with spares AOpen have "draining_now m (dr_instanceId r) t = (m, True)"
      using draining_now_same [OF stands] by simp
    with stands AOpen True show ?thesis by (simp add: activity_step_def try_open_lease_def)
  next
    case False
    with stands AOpen show ?thesis
      using draining_now_other [OF False, of m t]
      by (auto simp: activity_step_def try_open_lease_def split: prod.split intro: drain_stands_lease)
  qed
next
  case (ARenew l t)
  show ?thesis
  proof (cases "l_instanceId l = dr_instanceId r")
    case True
    with spares ARenew have "draining_now m (dr_instanceId r) t = (m, True)"
      using draining_now_same [OF stands] by simp
    with stands ARenew True show ?thesis by (simp add: activity_step_def renew_lease_def)
  next
    case False
    with stands ARenew show ?thesis
      using draining_now_other [OF False, of m t]
      by (auto simp: activity_step_def renew_lease_def split: prod.split intro: drain_stands_lease)
  qed
next
  case (ADelete i)
  with stands js_values_delete [of "m_activityLeases m" i] show ?thesis
    by (auto simp: activity_step_def delete_lease_def drain_stands_def)
next
  case (AClose i j t)
  with stands js_values_delete [of "m_activityLeases m" i] show ?thesis
    by (auto simp: activity_step_def close_lease_def delete_lease_def Let_def drain_stands_def split: option.split)
next
  case (ABegin q)
  with drain_stands_begin [OF stands] spares show ?thesis by (simp add: activity_step_def)
next
  case (AClear i ro a)
  with stands spares show ?thesis
    by (auto simp: activity_step_def clear_draining_def drain_stands_def owns_drain_def split: option.split)
next
  case (AAsk i t)
  with stands spares show ?thesis
    using draining_now_other [of i r m t] draining_now_same [OF stands, of t]
    by (cases "i = dr_instanceId r") (auto simp: activity_step_def is_draining_def)
qed

lemma drain_stands_run: "drain_stands r m \<Longrightarrow> list_all (spares_drain r) es \<Longrightarrow> drain_stands r (foldl activity_step m es)"
  by (induction es arbitrary: m) (auto dest: drain_stands_call)

lemma begun_drain_stands: "begin_draining m r = (m', True) \<Longrightarrow> drain_stands r m'"
  by (auto simp: begin_draining_def Let_def drain_stands_def owns_drain_def list_ex_iff split: if_splits option.splits)

text \<open>C9: a drained instance takes no work and has one owner. After a drain has been granted, in every run of
  calls of the activity store that come before it expires and do not release it (nor let its
  owner shorten it), every attempt to open or to renew a connection of the instance is refused,
  and so is the drain of any other batch or attempt; and if the drain was graceful, at no
  point of the run is a connection left with a live heartbeat that is an HTTP stream or a
  WebSocket with recent activity.\<close>

theorem drained_instance_takes_no_work:
  assumes "begin_draining m r = (m', True)" "list_all (spares_drain r) (before @ [e])"
  shows "(intrudes r e \<longrightarrow> \<not> snd (activity_call (foldl activity_step m' before) e))
    \<and> (dr_mode r = Graceful \<longrightarrow>
         \<not> list_ex (blocks_drain r) (js_values (m_activityLeases (foldl activity_step m' before))))"
proof -
  have "drain_stands r (foldl activity_step m' before)"
    using begun_drain_stands [OF assms(1)] assms(2) by (simp add: drain_stands_run)
  with drain_stands_call assms(2) show ?thesis by (auto simp: drain_stands_def list_ex_iff)
qed

text \<open>A store with one running instance, a connection, and the drain of an upgrade.\<close>

definition one_instance :: mem where
  "one_instance = fst (save_container empty_mem
     \<lparr>c_id = ''w1'', c_userId = ''u2'', c_appId = ''notes'', c_providerId = None, c_runtimeId = ''rt'',
      c_status = Running, c_endpoint = None, c_stopReason = None, c_createdAt = 1, c_updatedAt = 1,
      c_lastActivityAt = Instant 1, c_appVersionId = Some ''v1'', c_imageArtifactId = None,
      c_imageReference = Some ''img:1''\<rparr>)"

definition sample_lease :: "string \<Rightarrow> instant \<Rightarrow> activity_lease" where
  "sample_lease i t = \<lparr>l_id = i, l_instanceId = ''w1'', l_kind = Http, l_openedAt = t, l_heartbeatAt = t, l_lastActivityAt = t\<rparr>"

definition sample_drain :: drain_request where
  "sample_drain = \<lparr>dr_instanceId = ''w1'', dr_rolloutId = ''r1'', dr_attemptId = ''a1'', dr_at = 100, dr_expiresAt = 1000,
     dr_heartbeatCutoff = 50, dr_websocketActivityCutoff = 40, dr_mode = Graceful\<rparr>"

lemma sample_connection:
  "snd (try_open_lease one_instance (sample_lease ''l1'' 20) 20)"
  "snd (begin_draining (activity_step one_instance (AOpen (sample_lease ''l1'' 20) 20)) sample_drain)"
  by code_simp+

theorem drained_instance_takes_no_work_witness:
  "\<not> snd (activity_call (fst (begin_draining (activity_step one_instance (AOpen (sample_lease ''l1'' 20) 20)) sample_drain))
     (AOpen (sample_lease ''l2'' 120) 120))"
  using drained_instance_takes_no_work [of "activity_step one_instance (AOpen (sample_lease ''l1'' 20) 20)" sample_drain
      "fst (begin_draining (activity_step one_instance (AOpen (sample_lease ''l1'' 20) 20)) sample_drain)" "[]"
      "AOpen (sample_lease ''l2'' 120) 120"] sample_connection(2)
  by (simp add: prod_eq_iff) (simp add: sample_drain_def sample_lease_def)

end
