(* ===== verification/Instance_Activity.thy ===== *)
theory Instance_Activity
  imports Memory_Activity Rollout_Effects
begin

text \<open>
  Connection activity and upgrades, \<open>backend/src/instance-upgrade-activity.ts\<close>: the tracker of
  proxied connections and their lease sessions, the admission of an upgrade, and the policy that
  decides when an instance is idle. A session runs its operations one after another through a
  promise chain; here the chain is a queue, and one step runs the operation at its head, store
  call included. Stamps of leases are instants (the program makes them itself), and intervals
  are whole milliseconds. Shown: a closed session leaves no lease behind, and an instance is
  found idle only across a whole quiet window of equal counters.
\<close>

text \<open>None stands for an absent or not finite number.\<close>

definition positive_duration :: "int option \<Rightarrow> int \<Rightarrow> int" where
  "positive_duration v fallback = (case v of None \<Rightarrow> fallback | Some n \<Rightarrow> if n > 0 then n else fallback)"

section \<open>Sessions of connections\<close>

datatype activity_error = InstanceDraining | StoreFailed string

datatype queued = QRenew | QTouch | QClose instant

record lease_session =
  ls_lease :: activity_lease
  ls_queue :: "queued list"
  ls_closed :: bool
  ls_failure :: "activity_error option"
  ls_touchQueued :: bool
  ls_activityTouched :: bool
  ls_lastActivityWriteAt :: instant
  ls_aborted :: "activity_error option"
  ls_reports :: "activity_error list"

record tracker_options =
  to_heartbeatIntervalMs :: int
  to_activityTouchIntervalMs :: int

definition new_tracker_options :: "int option \<Rightarrow> int option \<Rightarrow> tracker_options" where
  "new_tracker_options heartbeatIntervalMs activityTouchIntervalMs =
     (let heartbeat = positive_duration heartbeatIntervalMs 15000
      in \<lparr>to_heartbeatIntervalMs = heartbeat,
          to_activityTouchIntervalMs = positive_duration activityTouchIntervalMs heartbeat\<rparr>)"

definition new_session :: "activity_lease \<Rightarrow> lease_session" where
  "new_session lease =
     \<lparr>ls_lease = lease, ls_queue = [], ls_closed = False, ls_failure = None, ls_touchQueued = False,
      ls_activityTouched = False, ls_lastActivityWriteAt = l_openedAt lease, ls_aborted = None, ls_reports = []\<rparr>"

definition enqueue :: "queued \<Rightarrow> lease_session \<Rightarrow> lease_session" where
  "enqueue q s = s\<lparr>ls_queue := ls_queue s @ [q]\<rparr>"

definition session_heartbeat :: "lease_session \<Rightarrow> lease_session" where
  "session_heartbeat s = enqueue QRenew s"

definition activity_write_due :: "tracker_options \<Rightarrow> lease_session \<Rightarrow> instant \<Rightarrow> bool" where
  "activity_write_due opts s now \<longleftrightarrow>
     \<not> ls_activityTouched s \<or> now - ls_lastActivityWriteAt s \<ge> to_activityTouchIntervalMs opts"

text \<open>The second component is the error with which \<open>touch\<close> rejects at once, if it does.\<close>

definition session_touch :: "tracker_options \<Rightarrow> lease_session \<Rightarrow> instant \<Rightarrow> lease_session \<times> activity_error option" where
  "session_touch opts s now =
     (if ls_closed s then (s, None)
      else if ls_failure s \<noteq> None then (s, ls_failure s)
      else if \<not> activity_write_due opts s now then (s, None)
      else if ls_touchQueued s then (s, None)
      else (enqueue QTouch (s\<lparr>ls_touchQueued := True\<rparr>), None))"

text \<open>\<open>#closePromise\<close> is set exactly when \<open>#closed\<close> is.\<close>

definition session_close :: "lease_session \<Rightarrow> instant \<Rightarrow> lease_session" where
  "session_close s now = (if ls_closed s then s else enqueue (QClose now) (s\<lparr>ls_closed := True\<rparr>))"

definition report_failure :: "activity_error \<Rightarrow> lease_session \<Rightarrow> lease_session" where
  "report_failure e s = (if ls_reports s \<noteq> [] then s else s\<lparr>ls_reports := [e]\<rparr>)"

definition abort_session :: "activity_error \<Rightarrow> lease_session \<Rightarrow> lease_session" where
  "abort_session e s = (if ls_aborted s = None then s\<lparr>ls_aborted := Some e\<rparr> else s)"

definition fail_session :: "activity_error \<Rightarrow> instant \<Rightarrow> lease_session \<Rightarrow> lease_session" where
  "fail_session e now s =
     (if ls_failure s \<noteq> None then s
      else let s1 = abort_session e (s\<lparr>ls_failure := Some e\<rparr>);
               s2 = (if e = InstanceDraining then s1 else report_failure e s1)
           in session_close s2 now)"

text \<open>
  \<open>#renewNow\<close>: \<open>fault\<close> is the error of the store, if it throws. The result says whether the
  renewal went through; otherwise it was skipped or the session has failed.
\<close>

definition renew_now ::
  "bool \<Rightarrow> instant \<Rightarrow> string option \<Rightarrow> lease_session \<Rightarrow> mem \<Rightarrow> lease_session \<times> mem \<times> bool" where
  "renew_now activity now fault s m =
     (if ls_closed s \<or> ls_failure s \<noteq> None then (s, m, False)
      else case ls_aborted s of
        Some e \<Rightarrow> (fail_session e now s, m, False)
      | None \<Rightarrow>
          (let lease = (ls_lease s)\<lparr>l_heartbeatAt := now,
                 l_lastActivityAt := (if activity then now else l_lastActivityAt (ls_lease s))\<rparr>;
               s1 = s\<lparr>ls_lease := lease\<rparr>
           in case fault of
                Some e \<Rightarrow> (fail_session (StoreFailed e) now s1, m, False)
              | None \<Rightarrow>
                  (let (m1, renewed) = renew_lease m lease now
                   in if renewed then (s1, m1, True) else (fail_session InstanceDraining now s1, m1, False))))"

fun run_queued ::
  "tracker_options \<Rightarrow> queued \<Rightarrow> instant \<Rightarrow> instant \<Rightarrow> string option \<Rightarrow> lease_session \<Rightarrow> mem \<Rightarrow> lease_session \<times> mem" where
  "run_queued opts QRenew now now' fault s m = (let (s1, m1, _) = renew_now False now' fault s m in (s1, m1))"
| "run_queued opts QTouch now now' fault s m =
     (if ls_closed s \<or> ls_failure s \<noteq> None \<or> \<not> activity_write_due opts s now
      then (s\<lparr>ls_touchQueued := False\<rparr>, m)
      else let (s1, m1, renewed) = renew_now True now' fault s m;
               s2 = (if renewed then s1\<lparr>ls_activityTouched := True,
                       ls_lastActivityWriteAt := l_lastActivityAt (ls_lease s1)\<rparr> else s1)
           in (s2\<lparr>ls_touchQueued := False\<rparr>, m1))"
| "run_queued opts (QClose closedAt) now now' fault s m =
     (case fault of
        Some e \<Rightarrow> ((if ls_failure s \<noteq> None then report_failure (StoreFailed e) s else s), m)
      | None \<Rightarrow> (s, close_lease m (l_id (ls_lease s)) (l_instanceId (ls_lease s)) closedAt))"

definition run_next ::
  "tracker_options \<Rightarrow> instant \<Rightarrow> instant \<Rightarrow> string option \<Rightarrow> lease_session \<Rightarrow> mem \<Rightarrow> lease_session \<times> mem" where
  "run_next opts now now' fault s m =
     (case ls_queue s of
        [] \<Rightarrow> (s, m)
      | q # qs \<Rightarrow> run_queued opts q now now' fault (s\<lparr>ls_queue := qs\<rparr>) m)"

section \<open>The tracker\<close>

text \<open>
  \<open>active\<close> holds the instance and kind of the open connections; the sessions are kept by their
  lease ids, which are random.
\<close>

record tracker =
  tk_active :: "(string, string \<times> activity_kind) js_map"
  tk_sessions :: "(string, lease_session) js_map"

definition empty_tracker :: tracker where
  "empty_tracker = \<lparr>tk_active = [], tk_sessions = []\<rparr>"

definition new_lease :: "string \<Rightarrow> string \<Rightarrow> activity_kind \<Rightarrow> instant \<Rightarrow> activity_lease" where
  "new_lease i instanceId kind openedAt =
     \<lparr>l_id = i, l_instanceId = instanceId, l_kind = kind, l_openedAt = openedAt, l_heartbeatAt = openedAt,
      l_lastActivityAt = openedAt\<rparr>"

definition tracker_open ::
  "string \<Rightarrow> string \<Rightarrow> activity_kind \<Rightarrow> instant \<Rightarrow> tracker \<Rightarrow> mem \<Rightarrow> tracker \<times> mem \<times> (activity_error, string) res" where
  "tracker_open i instanceId kind openedAt tr m =
     (let lease = new_lease i instanceId kind openedAt;
          (m1, opened) = try_open_lease m lease openedAt
      in if \<not> opened then (tr, m1, Inl InstanceDraining)
         else (\<lparr>tk_active = js_set (tk_active tr) i (instanceId, kind),
                tk_sessions = js_set (tk_sessions tr) i (new_session lease)\<rparr>, m1, Inr i))"

text \<open>A change of the session with id \<open>i\<close>; a session that closes leaves the active ones (\<open>onClose\<close>).\<close>

definition on_session :: "string \<Rightarrow> (lease_session \<Rightarrow> lease_session) \<Rightarrow> tracker \<Rightarrow> tracker" where
  "on_session i f tr =
     (case js_get (tk_sessions tr) i of
        None \<Rightarrow> tr
      | Some s \<Rightarrow>
          \<lparr>tk_active = (if ls_closed (f s) then js_delete (tk_active tr) i else tk_active tr),
           tk_sessions = js_set (tk_sessions tr) i (f s)\<rparr>)"

definition tracker_heartbeat :: "string \<Rightarrow> tracker \<Rightarrow> tracker" where
  "tracker_heartbeat i = on_session i session_heartbeat"

definition tracker_touch :: "tracker_options \<Rightarrow> instant \<Rightarrow> string \<Rightarrow> tracker \<Rightarrow> tracker" where
  "tracker_touch opts now i = on_session i (\<lambda>s. fst (session_touch opts s now))"

definition tracker_close :: "instant \<Rightarrow> string \<Rightarrow> tracker \<Rightarrow> tracker" where
  "tracker_close now i = on_session i (\<lambda>s. session_close s now)"

definition tracker_run_next ::
  "tracker_options \<Rightarrow> instant \<Rightarrow> instant \<Rightarrow> string option \<Rightarrow> string \<Rightarrow> tracker \<Rightarrow> mem \<Rightarrow> tracker \<times> mem" where
  "tracker_run_next opts now now' fault i tr m =
     (case js_get (tk_sessions tr) i of
        None \<Rightarrow> (tr, m)
      | Some s \<Rightarrow>
          let (s1, m1) = run_next opts now now' fault s m in (on_session i (\<lambda>_. s1) tr, m1))"

definition abort_matches :: "string \<Rightarrow> activity_kind option \<Rightarrow> string \<times> activity_kind \<Rightarrow> bool" where
  "abort_matches instanceId kind active \<longleftrightarrow>
     fst active = instanceId \<and> (case kind of None \<Rightarrow> True | Some k \<Rightarrow> snd active = k)"

definition tracker_abort :: "string \<Rightarrow> activity_kind option \<Rightarrow> tracker \<Rightarrow> tracker" where
  "tracker_abort instanceId kind tr =
     tr\<lparr>tk_sessions := js_update_each
       (\<lambda>i s. case js_get (tk_active tr) i of
          None \<Rightarrow> s
        | Some active \<Rightarrow> if abort_matches instanceId kind active then abort_session InstanceDraining s else s)
       (tk_sessions tr)\<rparr>"

text \<open>
  \<open>run\<close>: the operation between opening and closing is an argument, with the heartbeats of the
  timer in it; closing is queued whatever the operation returns.
\<close>

definition tracker_run ::
  "string \<Rightarrow> string \<Rightarrow> activity_kind \<Rightarrow> instant \<Rightarrow> instant
     \<Rightarrow> (string \<Rightarrow> tracker \<Rightarrow> mem \<Rightarrow> tracker \<times> mem \<times> 'a) \<Rightarrow> tracker \<Rightarrow> mem \<Rightarrow> tracker \<times> mem \<times> (activity_error, 'a) res" where
  "tracker_run i instanceId kind openedAt closedAt operation tr m =
     (case tracker_open i instanceId kind openedAt tr m of
        (tr1, m1, Inl e) \<Rightarrow> (tr1, m1, Inl e)
      | (tr1, m1, Inr handle) \<Rightarrow>
          (let (tr2, m2, x) = operation handle tr1 m1 in (tracker_close closedAt handle tr2, m2, Inr x)))"

section \<open>Admission\<close>

record admission_options =
  ao_leaseTimeoutMs :: int
  ao_quietWindowMs :: int
  ao_drainTtlMs :: int

definition new_admission_options :: "int option \<Rightarrow> int option \<Rightarrow> int option \<Rightarrow> admission_options" where
  "new_admission_options leaseTimeoutMs quietWindowMs drainTtlMs =
     \<lparr>ao_leaseTimeoutMs = positive_duration leaseTimeoutMs 45000,
      ao_quietWindowMs = positive_duration quietWindowMs 60000,
      ao_drainTtlMs = positive_duration drainTtlMs (2 * 60 * 60000)\<rparr>"

definition admission_request ::
  "admission_options \<Rightarrow> instant \<Rightarrow> string \<Rightarrow> string \<Rightarrow> string \<Rightarrow> drain_mode \<Rightarrow> drain_request" where
  "admission_request opts now instanceId rolloutId attemptId mode =
     \<lparr>dr_instanceId = instanceId, dr_rolloutId = rolloutId, dr_attemptId = attemptId, dr_at = now,
      dr_expiresAt = now + ao_drainTtlMs opts, dr_heartbeatCutoff = now - ao_leaseTimeoutMs opts,
      dr_websocketActivityCutoff = now - ao_quietWindowMs opts, dr_mode = mode\<rparr>"

definition admission_begin ::
  "admission_options \<Rightarrow> instant \<Rightarrow> string \<Rightarrow> string \<Rightarrow> string \<Rightarrow> drain_mode \<Rightarrow> tracker \<Rightarrow> mem \<Rightarrow> tracker \<times> mem \<times> bool" where
  "admission_begin opts now instanceId rolloutId attemptId mode tr m =
     (let (m1, admitted) = begin_draining m (admission_request opts now instanceId rolloutId attemptId mode)
      in if admitted
         then (tracker_abort instanceId (if mode = Force then None else Some WebSocket) tr, m1, True)
         else (tr, m1, False))"

definition admission_clear :: "string \<Rightarrow> string \<Rightarrow> string \<Rightarrow> mem \<Rightarrow> mem" where
  "admission_clear instanceId rolloutId attemptId m = clear_draining m instanceId rolloutId attemptId"

section \<open>The policy\<close>

text \<open>Counters and load as the runtime measures them; supported readings are finite numbers.\<close>

record activity_metrics =
  am_networkRxBytes :: rat
  am_networkTxBytes :: rat
  am_cpuPercent :: rat

record observation =
  ob_sampledAt :: instant
  ob_metrics :: activity_metrics

record ready_observation =
  ro_sampledAt :: instant
  ro_metrics :: activity_metrics
  ro_rolloutId :: string
  ro_attemptId :: "string option"
  ro_lastActivityAt :: stamp

record policy_options =
  po_quietWindowMs :: int
  po_leaseTimeoutMs :: int
  po_busyCpuPercent :: rat

definition new_policy_options :: "int option \<Rightarrow> int option \<Rightarrow> rat option \<Rightarrow> policy_options" where
  "new_policy_options quietWindowMs leaseTimeoutMs busyCpuPercent =
     \<lparr>po_quietWindowMs = positive_duration quietWindowMs 60000,
      po_leaseTimeoutMs = positive_duration leaseTimeoutMs 45000,
      po_busyCpuPercent = (case busyCpuPercent of None \<Rightarrow> 5 | Some p \<Rightarrow> p)\<rparr>"

record activity_policy =
  ap_observations :: "(string, observation) js_map"
  ap_ready :: "(string, ready_observation) js_map"

definition empty_policy :: activity_policy where
  "empty_policy = \<lparr>ap_observations = [], ap_ready = []\<rparr>"

definition clear_observations :: "string \<Rightarrow> activity_policy \<Rightarrow> activity_policy" where
  "clear_observations i p =
     \<lparr>ap_observations = js_delete (ap_observations p) i, ap_ready = js_delete (ap_ready p) i\<rparr>"

definition not_ready :: "string \<Rightarrow> assessment" where
  "not_ready reason = \<lparr>as_ready = False, as_reason = Some reason\<rparr>"

definition ready_now :: assessment where
  "ready_now = \<lparr>as_ready = True, as_reason = None\<rparr>"

text \<open>The connections that make an instance busy, with the reason; both methods begin with this.\<close>

definition busy_lease :: "policy_options \<Rightarrow> mem \<Rightarrow> string \<Rightarrow> instant \<Rightarrow> string option" where
  "busy_lease opts m i now =
     (let leases = list_active_leases m i (now - po_leaseTimeoutMs opts)
      in if list_ex (\<lambda>l. l_kind l = Http) leases then Some ''active_stream''
         else if list_ex (\<lambda>l. l_kind l = WebSocket \<and> l_lastActivityAt l > now - po_quietWindowMs opts) leases
         then Some ''active_websocket'' else None)"

definition same_counters :: "activity_metrics \<Rightarrow> activity_metrics \<Rightarrow> bool" where
  "same_counters a b \<longleftrightarrow> am_networkRxBytes a = am_networkRxBytes b \<and> am_networkTxBytes a = am_networkTxBytes b"

definition low_cpu :: "policy_options \<Rightarrow> activity_metrics \<Rightarrow> bool" where
  "low_cpu opts s \<longleftrightarrow> am_cpuPercent s \<le> po_busyCpuPercent opts"

text \<open>The second half of \<open>assess\<close>, with a reading of the runtime.\<close>

definition assess_sample ::
  "policy_options \<Rightarrow> activity_policy \<Rightarrow> instant \<Rightarrow> container \<Rightarrow> rollout_item \<Rightarrow> activity_metrics \<Rightarrow> activity_policy \<times> assessment" where
  "assess_sample opts p now c it metrics =
     (let i = c_id c;
          previous = js_get (ap_observations p) i;
          unchanged = (case previous of None \<Rightarrow> False | Some o' \<Rightarrow> same_counters (ob_metrics o') metrics);
          elapsed = (case previous of None \<Rightarrow> 0 | Some o' \<Rightarrow> now - ob_sampledAt o');
          quiet = (previous \<noteq> None \<and> elapsed \<ge> po_quietWindowMs opts);
          low = (low_cpu opts metrics \<and> (case previous of None \<Rightarrow> True | Some o' \<Rightarrow> low_cpu opts (ob_metrics o')))
      in if unchanged \<and> quiet \<and> low
         then (p\<lparr>ap_ready := js_set (ap_ready p) i
                \<lparr>ro_sampledAt = now, ro_metrics = metrics, ro_rolloutId = i_rolloutId it,
                 ro_attemptId = i_attemptId it, ro_lastActivityAt = c_lastActivityAt c\<rparr>\<rparr>, ready_now)
         else (let p1 = p\<lparr>ap_ready := js_delete (ap_ready p) i\<rparr>
               in (if previous = None \<or> \<not> unchanged \<or> \<not> low \<or> elapsed < 0
                   then p1\<lparr>ap_observations := js_set (ap_observations p1) i \<lparr>ob_sampledAt = now, ob_metrics = metrics\<rparr>\<rparr>
                   else p1, not_ready ''activity_observation'')))"

definition policy_assess ::
  "policy_options \<Rightarrow> activity_policy \<Rightarrow> instant \<Rightarrow> mem \<Rightarrow> container \<Rightarrow> rollout_item \<Rightarrow> activity_metrics capability
     \<Rightarrow> activity_policy \<times> (rollout_error, assessment) res" where
  "policy_assess opts p now m c it reading =
     (let i = c_id c
      in case busy_lease opts m i now of
           Some reason \<Rightarrow> (clear_observations i p, Inr (not_ready reason))
         | None \<Rightarrow>
             (case date_parse (c_lastActivityAt c) of
                None \<Rightarrow> (clear_observations i p, Inr (not_ready ''activity_timestamp_invalid''))
              | Some persisted \<Rightarrow>
                  if persisted > now - po_quietWindowMs opts
                  then (clear_observations i p, Inr (not_ready ''recent_activity''))
                  else (case reading of
                          Unsupported \<Rightarrow> (clear_observations i p, Inr (not_ready ''activity_metrics_unsupported''))
                        | Unavailable e \<Rightarrow> (p, Inl e)
                        | Supported metrics \<Rightarrow>
                            (let (p1, a) = assess_sample opts p now c it metrics in (p1, Inr a)))))"

definition confirm_sample ::
  "policy_options \<Rightarrow> activity_policy \<Rightarrow> instant \<Rightarrow> string \<Rightarrow> ready_observation \<Rightarrow> activity_metrics \<Rightarrow> activity_policy \<times> assessment" where
  "confirm_sample opts p now i ready metrics =
     (let p1 = p\<lparr>ap_ready := js_delete (ap_ready p) i\<rparr>
      in if same_counters (ro_metrics ready) metrics \<and> low_cpu opts (ro_metrics ready) \<and> low_cpu opts metrics
         then (p1\<lparr>ap_observations := js_delete (ap_observations p1) i\<rparr>, ready_now)
         else (p1\<lparr>ap_observations := js_set (ap_observations p1) i \<lparr>ob_sampledAt = now, ob_metrics = metrics\<rparr>\<rparr>,
               not_ready ''docker_activity_resumed''))"

definition policy_confirm ::
  "policy_options \<Rightarrow> activity_policy \<Rightarrow> instant \<Rightarrow> mem \<Rightarrow> container \<Rightarrow> rollout_item \<Rightarrow> activity_metrics capability
     \<Rightarrow> activity_policy \<times> (rollout_error, assessment) res" where
  "policy_confirm opts p now m c it reading =
     (let i = c_id c
      in case js_get (ap_ready p) i of
           None \<Rightarrow> (clear_observations i p, Inr (not_ready ''activity_confirmation_missing''))
         | Some ready \<Rightarrow>
             if ro_rolloutId ready \<noteq> i_rolloutId it \<or> ro_attemptId ready \<noteq> i_attemptId it
             then (clear_observations i p, Inr (not_ready ''activity_confirmation_missing''))
             else (case busy_lease opts m i now of
                Some reason \<Rightarrow> (clear_observations i p, Inr (not_ready reason))
              | None \<Rightarrow>
                  if date_parse (c_lastActivityAt c) = None
                  then (clear_observations i p, Inr (not_ready ''activity_timestamp_invalid''))
                  else if c_lastActivityAt c \<noteq> ro_lastActivityAt ready
                  then (clear_observations i p, Inr (not_ready ''recent_activity''))
                  else (case reading of
                          Unsupported \<Rightarrow> (clear_observations i p, Inr (not_ready ''activity_metrics_unsupported''))
                        | Unavailable e \<Rightarrow> (p, Inl e)
                        | Supported metrics \<Rightarrow>
                            (let (p1, a) = confirm_sample opts p now i ready metrics in (p1, Inr a)))))"

section \<open>Runs of a session\<close>

text \<open>
  Everything that can happen to a session and the store. \<open>SNext\<close> runs the operation at the head of
  the queue, at two readings of the clock and with the error of the store, if its call throws;
  \<open>SOther\<close> is a call of the store by somebody else.
\<close>

datatype session_event =
    SHeartbeat
  | STouch instant
  | SClose instant
  | SAbort activity_error
  | SNext instant instant "string option"
  | SOther activity_event

fun session_step :: "tracker_options \<Rightarrow> lease_session \<times> mem \<Rightarrow> session_event \<Rightarrow> lease_session \<times> mem" where
  "session_step opts (s, m) SHeartbeat = (session_heartbeat s, m)"
| "session_step opts (s, m) (STouch now) = (fst (session_touch opts s now), m)"
| "session_step opts (s, m) (SClose now) = (session_close s now, m)"
| "session_step opts (s, m) (SAbort e) = (abort_session e s, m)"
| "session_step opts (s, m) (SNext now now' fault) = run_next opts now now' fault s m"
| "session_step opts (s, m) (SOther e) = (s, activity_step m e)"

text \<open>The ids of leases are random: nobody else opens or renews a lease with this id.\<close>

fun foreign :: "string \<Rightarrow> session_event \<Rightarrow> bool" where
  "foreign i (SOther (AOpen l _)) = (l_id l \<noteq> i)"
| "foreign i (SOther (ARenew l _)) = (l_id l \<noteq> i)"
| "foreign i _ = True"

fun is_close :: "queued \<Rightarrow> bool" where
  "is_close (QClose _) = True"
| "is_close _ = False"

text \<open>The close write of the session throws, in this step, and in one of the steps of a run.\<close>

fun close_fails :: "lease_session \<Rightarrow> session_event \<Rightarrow> bool" where
  "close_fails s (SNext _ _ (Some _)) = (case ls_queue s of q # _ \<Rightarrow> is_close q | [] \<Rightarrow> False)"
| "close_fails s _ = False"

fun close_failed :: "tracker_options \<Rightarrow> lease_session \<times> mem \<Rightarrow> session_event list \<Rightarrow> bool" where
  "close_failed opts sm [] = False"
| "close_failed opts sm (e # es) = (close_fails (fst sm) e \<or> close_failed opts (session_step opts sm e) es)"

text \<open>The flag says whether the close write has thrown.\<close>

definition session_inv :: "bool \<Rightarrow> string \<Rightarrow> string \<Rightarrow> lease_session \<times> mem \<Rightarrow> bool" where
  "session_inv f i j = (\<lambda>(s, m).
     l_id (ls_lease s) = i \<and> l_instanceId (ls_lease s) = j
     \<and> (\<forall>l. js_get (m_activityLeases m) i = Some l \<longrightarrow> l_instanceId l = j)
     \<and> (ls_failure s \<noteq> None \<longrightarrow> ls_closed s \<and> ls_aborted s \<noteq> None)
     \<and> length (filter is_close (ls_queue s)) \<le> (if ls_closed s then 1 else 0)
     \<and> (ls_closed s \<and> filter is_close (ls_queue s) = [] \<longrightarrow> js_get (m_activityLeases m) i = None \<or> f))"

lemma session_inv_other:
  assumes "session_inv f i j (s, m)" "foreign i (SOther e)"
  shows "session_inv f i j (s, activity_step m e)"
proof -
  have "js_get (m_activityLeases (activity_step m e)) i = js_get (m_activityLeases m) i
      \<or> js_get (m_activityLeases (activity_step m e)) i = None"
    using assms(2)
    by (cases e)
      (auto simp: activity_step_def try_open_lease_def renew_lease_def store_lease_def draining_now_def delete_lease_def
        close_lease_def begin_draining_def clear_draining_def is_draining_def Let_def split: option.split prod.split)
  with assms(1) show ?thesis by (auto simp: session_inv_def)
qed

lemma session_inv_close: "session_inv f i j (s, m) \<Longrightarrow> session_inv f i j (session_close s now, m)"
  by (auto simp: session_inv_def session_close_def enqueue_def)

lemma session_inv_fail:
  assumes "session_inv f i j (s, m)"
  shows "session_inv f i j (fail_session e now s, m)"
  using assms
  by (auto simp: session_inv_def fail_session_def session_close_def enqueue_def abort_session_def report_failure_def Let_def)

lemma session_inv_renew:
  assumes inv: "session_inv f i j (s, m)"
  shows "session_inv f i j (case renew_now activity now fault s m of (s1, m1, _) \<Rightarrow> (s1, m1))"
proof (cases "ls_closed s \<or> ls_failure s \<noteq> None \<or> ls_aborted s \<noteq> None")
  case True
  with inv show ?thesis by (auto simp: renew_now_def intro: session_inv_fail)
next
  case False
  define s1 where "s1 = s\<lparr>ls_lease := (ls_lease s)\<lparr>l_heartbeatAt := now,
      l_lastActivityAt := (if activity then now else l_lastActivityAt (ls_lease s))\<rparr>\<rparr>"
  obtain m1 renewed where r: "renew_lease m (ls_lease s1) now = (m1, renewed)" by fastforce
  have lease: "l_id (ls_lease s1) = i" "l_instanceId (ls_lease s1) = j" using inv by (auto simp: session_inv_def s1_def)
  have "js_get (m_activityLeases m1) i = js_get (m_activityLeases m) i \<or> js_get (m_activityLeases m1) i = Some (ls_lease s1)"
    using r lease by (auto simp: renew_lease_def store_lease_def draining_now_def split: if_splits option.splits prod.splits)
  then have m1: "session_inv f i j (s1, m1)" using inv False lease by (auto simp: session_inv_def s1_def)
  have m: "session_inv f i j (s1, m)" using inv False lease by (auto simp: session_inv_def s1_def)
  have "renew_now activity now fault s m =
      (case fault of Some e \<Rightarrow> (fail_session (StoreFailed e) now s1, m, False)
       | None \<Rightarrow> if renewed then (s1, m1, True) else (fail_session InstanceDraining now s1, m1, False))"
    using False r by (cases fault) (simp_all add: renew_now_def s1_def Let_def)
  then show ?thesis using m m1 by (auto intro: session_inv_fail split: option.split)
qed

lemma session_inv_irrelevant [simp]:
  "session_inv f i j (s\<lparr>ls_touchQueued := b\<rparr>, m) = session_inv f i j (s, m)"
  "session_inv f i j (s\<lparr>ls_activityTouched := b\<rparr>, m) = session_inv f i j (s, m)"
  "session_inv f i j (s\<lparr>ls_lastActivityWriteAt := t\<rparr>, m) = session_inv f i j (s, m)"
  by (simp_all add: session_inv_def)

lemma session_inv_weaken: "session_inv f i j sm \<Longrightarrow> session_inv (f \<or> g) i j sm"
  by (cases sm) (auto simp: session_inv_def)

lemma session_inv_next:
  assumes inv: "session_inv f i j (s, m)"
  shows "session_inv (f \<or> close_fails s (SNext now now' fault)) i j (run_next opts now now' fault s m)"
proof (cases "ls_queue s")
  case Nil
  with inv show ?thesis by (simp add: run_next_def session_inv_weaken)
next
  case (Cons q qs)
  let ?s = "s\<lparr>ls_queue := qs\<rparr>"
  show ?thesis
  proof (cases q)
    case QRenew
    with inv Cons have "session_inv f i j (?s, m)" by (auto simp: session_inv_def)
    from session_inv_weaken [OF session_inv_renew [OF this, of False now' fault]] QRenew Cons show ?thesis by (simp add: run_next_def Let_def)
  next
    case QTouch
    with inv Cons have "session_inv f i j (?s, m)" by (auto simp: session_inv_def)
    from this session_inv_renew [OF this, of True now' fault] QTouch Cons show ?thesis
      by (auto simp: run_next_def Let_def intro!: session_inv_weaken split: prod.splits)
  next
    case (QClose t)
    with inv Cons have closed: "ls_closed s" "filter is_close qs = []" by (auto simp: session_inv_def split: if_splits)
    have gone: "js_get (m_activityLeases (close_lease m i j t)) i = None"
      using inv by (auto simp: close_lease_def delete_lease_def session_inv_def Let_def split: option.split)
    show ?thesis
    proof (cases fault)
      case None
      with QClose Cons inv have "run_next opts now now' fault s m = (?s, close_lease m i j t)"
        by (simp add: run_next_def session_inv_def)
      with gone inv closed show ?thesis by (auto simp: session_inv_def)
    next
      case (Some e)
      with QClose Cons inv closed show ?thesis
        by (auto simp: run_next_def session_inv_def report_failure_def)
    qed
  qed
qed

lemma session_inv_step:
  "session_inv f i j sm \<Longrightarrow> foreign i e \<Longrightarrow> session_inv (f \<or> close_fails (fst sm) e) i j (session_step opts sm e)"
proof (cases sm)
  case (Pair s m)
  assume inv: "session_inv f i j sm" and e: "foreign i e"
  show ?thesis
  proof (cases e)
    case SHeartbeat
    with inv Pair show ?thesis by (auto simp: session_inv_def session_heartbeat_def enqueue_def)
  next
    case (STouch now)
    with inv Pair show ?thesis by (auto simp: session_inv_def session_touch_def enqueue_def)
  next
    case (SClose now)
    with inv Pair show ?thesis by (simp add: session_inv_close)
  next
    case (SAbort x)
    with inv Pair show ?thesis by (auto simp: session_inv_def abort_session_def)
  next
    case (SNext now now' fault)
    with inv Pair show ?thesis by (simp add: session_inv_next del: close_fails.simps(1))
  next
    case (SOther x)
    with inv Pair e show ?thesis using session_inv_other by simp
  qed
qed

lemma session_inv_run:
  "session_inv f i j sm \<Longrightarrow> list_all (foreign i) es \<Longrightarrow>
     session_inv (f \<or> close_failed opts sm es) i j (foldl (session_step opts) sm es)"
proof (induction es arbitrary: sm f)
  case (Cons e es)
  then have "session_inv (f \<or> close_fails (fst sm) e) i j (session_step opts sm e)"
    by (intro session_inv_step) simp_all
  with Cons.IH [of "f \<or> close_fails (fst sm) e" "session_step opts sm e"] Cons.prems(2) show ?case
    by (simp add: disj_assoc)
qed simp

lemma opened_session_inv:
  assumes "try_open_lease m lease t = (m1, True)"
  shows "session_inv False (l_id lease) (l_instanceId lease) (new_session lease, m1)"
  using assms
  by (auto simp: try_open_lease_def store_lease_def draining_now_def session_inv_def new_session_def
      split: if_splits prod.splits)

text \<open>C23: a connection that has ended leaves no trace. From the moment its lease has been opened, in every
  run of heartbeats, activity, aborts, closing and queued operations, each of whose store calls
  may throw, with any calls of the store by others in between: a session that has failed (because
  a drain refused its renewal or aborted it, or the renewal threw) is closed and its connection
  aborted; closing is queued at most once; and once a closed session has worked off its queue,
  the store holds no lease of it, however late a heartbeat comes, unless the one close write
  itself has thrown (that lease is left to its timeout).\<close>

theorem ended_connections_leave_no_lease:
  assumes "try_open_lease m lease t = (m1, True)" "list_all (foreign (l_id lease)) es"
    and "foldl (session_step opts) (new_session lease, m1) es = (s, m')"
  shows "(ls_failure s \<noteq> None \<longrightarrow> ls_closed s \<and> ls_aborted s \<noteq> None)
    \<and> length (filter is_close (ls_queue s)) \<le> 1
    \<and> (ls_closed s \<and> ls_queue s = [] \<longrightarrow> \<not> js_has (m_activityLeases m') (l_id lease)
        \<or> close_failed opts (new_session lease, m1) es)"
  using session_inv_run [OF opened_session_inv [OF assms(1)] assms(2), of opts] assms(3)
  by (auto simp: session_inv_def js_has_def split: if_splits)

text \<open>A connection whose activity write throws while a heartbeat is queued behind it: the session fails,
  and its close write works.\<close>

definition closing_events :: "session_event list" where
  "closing_events = [STouch 125, SHeartbeat, SNext 130 130 (Some ''disk full''), SHeartbeat, SClose 131,
     SNext 132 132 None, SNext 133 133 None, SNext 134 134 None]"

definition closing_run :: "lease_session \<times> mem" where
  "closing_run = foldl (session_step (new_tracker_options None None))
     (new_session (sample_lease ''l1'' 20), fst (try_open_lease one_instance (sample_lease ''l1'' 20) 20)) closing_events"

lemma closing_run_ends:
  "ls_closed (fst closing_run) \<and> ls_queue (fst closing_run) = []
   \<and> ls_failure (fst closing_run) = Some (StoreFailed ''disk full'')
   \<and> \<not> close_failed (new_tracker_options None None)
     (new_session (sample_lease ''l1'' 20), fst (try_open_lease one_instance (sample_lease ''l1'' 20) 20)) closing_events"
  by code_simp

theorem ended_connections_leave_no_lease_witness:
  "\<not> js_has (m_activityLeases (snd closing_run)) ''l1'' \<and> ls_aborted (fst closing_run) \<noteq> None"
proof -
  let ?l = "sample_lease ''l1'' 20"
  have opened: "try_open_lease one_instance ?l 20 = (fst (try_open_lease one_instance ?l 20), True)"
    using sample_connection(1) by (simp add: prod_eq_iff)
  have run: "foldl (session_step (new_tracker_options None None))
      (new_session ?l, fst (try_open_lease one_instance ?l 20)) closing_events
      = (fst closing_run, snd closing_run)" by (simp only: closing_run_def prod.collapse)
  have i: "l_id ?l = ''l1''" by (simp add: sample_lease_def)
  have others: "list_all (foreign (l_id ?l)) closing_events" by (simp add: closing_events_def)
  from ended_connections_leave_no_lease [OF opened others run] closing_run_ends show ?thesis by (simp add: i)
qed

section \<open>Runs of the policy\<close>

datatype policy_event =
    PAssess instant mem container rollout_item "activity_metrics capability"
  | PConfirm instant mem container rollout_item "activity_metrics capability"

fun policy_call :: "policy_options \<Rightarrow> activity_policy \<Rightarrow> policy_event \<Rightarrow> activity_policy \<times> (rollout_error, assessment) res" where
  "policy_call opts p (PAssess now m c it reading) = policy_assess opts p now m c it reading"
| "policy_call opts p (PConfirm now m c it reading) = policy_confirm opts p now m c it reading"

definition policy_run :: "policy_options \<Rightarrow> policy_event list \<Rightarrow> activity_policy" where
  "policy_run opts es = foldl (\<lambda>p e. fst (policy_call opts p e)) empty_policy es"

fun event_instance :: "policy_event \<Rightarrow> string" where
  "event_instance (PAssess _ _ c _ _) = c_id c"
| "event_instance (PConfirm _ _ c _ _) = c_id c"

fun takes_sample :: "string \<Rightarrow> instant \<Rightarrow> activity_metrics \<Rightarrow> policy_event \<Rightarrow> bool" where
  "takes_sample i t x (PAssess now _ c _ reading) = (c_id c = i \<and> now = t \<and> reading = Supported x)"
| "takes_sample i t x (PConfirm now _ c _ reading) = (c_id c = i \<and> now = t \<and> reading = Supported x)"

text \<open>
  A call that shows no activity of the instance since the sample \<open>x\<close>: it is about another
  instance, or finds no busy connection, no recent activity and the counters of \<open>x\<close> at a low
  load, or the runtime could not be read.
\<close>

fun undisturbed :: "policy_options \<Rightarrow> string \<Rightarrow> activity_metrics \<Rightarrow> policy_event \<Rightarrow> bool" where
  "undisturbed opts i x (PAssess now m c it reading) =
     (c_id c = i \<longrightarrow> busy_lease opts m i now = None
        \<and> (case date_parse (c_lastActivityAt c) of None \<Rightarrow> False | Some t \<Rightarrow> t \<le> now - po_quietWindowMs opts)
        \<and> (case reading of Supported y \<Rightarrow> same_counters x y \<and> low_cpu opts x \<and> low_cpu opts y
            | Unavailable _ \<Rightarrow> True | Unsupported \<Rightarrow> False))"
| "undisturbed opts i x (PConfirm now m c it reading) =
     (c_id c = i \<longrightarrow> (case reading of Unavailable _ \<Rightarrow> True | _ \<Rightarrow> False))"

lemma clear_observations_get [simp]:
  "js_get (ap_observations (clear_observations i p)) k = (if k = i then None else js_get (ap_observations p) k)"
  "js_get (ap_ready (clear_observations i p)) k = (if k = i then None else js_get (ap_ready p) k)"
  by (simp_all add: clear_observations_def)

text \<open>One call: an observation it leaves is its own sample, or is an older one it does not disturb.\<close>

lemma observation_step:
  assumes "js_get (ap_observations (fst (policy_call opts p e))) i = Some o'"
  shows "takes_sample i (ob_sampledAt o') (ob_metrics o') e
    \<or> js_get (ap_observations p) i = Some o' \<and> undisturbed opts i (ob_metrics o') e"
proof (cases e)
  case (PAssess now m c it reading)
  show ?thesis
  proof (cases "c_id c = i")
    case False
    with assms PAssess show ?thesis
      by (auto simp: policy_assess_def assess_sample_def Let_def split: option.splits capability.splits if_splits)
  next
    case True
    with assms PAssess show ?thesis
      by (auto simp: policy_assess_def assess_sample_def Let_def split: option.splits capability.splits if_splits)
  qed
next
  case (PConfirm now m c it reading)
  with assms show ?thesis
    by (cases "c_id c = i")
      (auto simp: policy_confirm_def confirm_sample_def Let_def split: option.splits capability.splits if_splits)
qed

lemma observation_origin:
  "js_get (ap_observations (policy_run opts es)) i = Some o' \<Longrightarrow>
   \<exists>pre e mid. es = pre @ e # mid \<and> takes_sample i (ob_sampledAt o') (ob_metrics o') e
     \<and> list_all (undisturbed opts i (ob_metrics o')) mid"
proof (induction es rule: rev_induct)
  case Nil
  then show ?case by (simp add: policy_run_def empty_policy_def)
next
  case (snoc e es)
  from snoc.prems have "js_get (ap_observations (fst (policy_call opts (policy_run opts es) e))) i = Some o'"
    by (simp add: policy_run_def)
  from observation_step [OF this] show ?case
  proof
    assume "takes_sample i (ob_sampledAt o') (ob_metrics o') e"
    then have "es @ [e] = es @ e # [] \<and> takes_sample i (ob_sampledAt o') (ob_metrics o') e
      \<and> list_all (undisturbed opts i (ob_metrics o')) []" by simp
    then show ?thesis by blast
  next
    assume old: "js_get (ap_observations (policy_run opts es)) i = Some o' \<and> undisturbed opts i (ob_metrics o') e"
    then obtain pre e0 mid where "es = pre @ e0 # mid" "takes_sample i (ob_sampledAt o') (ob_metrics o') e0"
      "list_all (undisturbed opts i (ob_metrics o')) mid" using snoc.IH by blast
    then have "es @ [e] = pre @ e0 # (mid @ [e]) \<and> takes_sample i (ob_sampledAt o') (ob_metrics o') e0
      \<and> list_all (undisturbed opts i (ob_metrics o')) (mid @ [e])" using old by simp
    then show ?thesis by blast
  qed
qed

text \<open>C22: an instance is called idle only across a whole quiet window. If after any history of calls an
  assessment finds an instance ready, then at that moment it has no HTTP stream, no WebSocket
  active within the window and no recorded activity within the window, and there was an earlier
  reading of the runtime, at least a quiet window before, with the same network counters and,
  as now, a low load; and no call on the instance in between showed a busy connection, recent
  activity, other counters or a higher load.\<close>

theorem idle_needs_a_quiet_window:
  assumes "policy_assess opts (policy_run opts es) now m c it reading = (p, Inr a)" "as_ready a"
  shows "\<exists>x pre e mid t x0. reading = Supported x \<and> es = pre @ e # mid \<and> takes_sample (c_id c) t x0 e
    \<and> t + po_quietWindowMs opts \<le> now \<and> list_all (undisturbed opts (c_id c) x0) mid
    \<and> undisturbed opts (c_id c) x0 (PAssess now m c it reading)"
proof -
  from assms obtain x o' where x: "reading = Supported x" "js_get (ap_observations (policy_run opts es)) (c_id c) = Some o'"
    "now - ob_sampledAt o' \<ge> po_quietWindowMs opts" "undisturbed opts (c_id c) (ob_metrics o') (PAssess now m c it reading)"
    by (auto simp: policy_assess_def assess_sample_def not_ready_def Let_def split: option.splits capability.splits if_splits)
  from observation_origin [OF x(2)] obtain pre e mid where "es = pre @ e # mid"
    "takes_sample (c_id c) (ob_sampledAt o') (ob_metrics o') e" "list_all (undisturbed opts (c_id c) (ob_metrics o')) mid" by blast
  moreover have "ob_sampledAt o' + po_quietWindowMs opts \<le> now" using x(3) by simp
  ultimately show ?thesis using x(1,4) by blast
qed

text \<open>Two readings of an instance without connections, a quiet window apart.\<close>

definition idle_instance :: container where
  "idle_instance = \<lparr>c_id = ''w1'', c_userId = ''u2'', c_appId = ''notes'', c_providerId = None, c_runtimeId = ''rt'',
      c_status = Running, c_endpoint = None, c_stopReason = None, c_createdAt = 1, c_updatedAt = 1,
      c_lastActivityAt = Instant 1, c_appVersionId = Some ''v1'', c_imageArtifactId = None,
      c_imageReference = Some ''img:1''\<rparr>"

definition quiet_reading :: "activity_metrics capability" where
  "quiet_reading = Supported \<lparr>am_networkRxBytes = 10, am_networkTxBytes = 20, am_cpuPercent = 1\<rparr>"

definition first_reading :: policy_event where
  "first_reading = PAssess 100000 one_instance idle_instance (sample_item ''r1'' 1 IAssessing) quiet_reading"

lemma second_reading:
  "snd (policy_assess (new_policy_options None None None) (policy_run (new_policy_options None None None) [first_reading])
     170000 one_instance idle_instance (sample_item ''r1'' 1 IAssessing) quiet_reading) = Inr ready_now"
  by code_simp

theorem idle_needs_a_quiet_window_witness:
  "\<exists>x pre e mid t x0. quiet_reading = Supported x \<and> [first_reading] = pre @ e # mid \<and> takes_sample ''w1'' t x0 e
    \<and> t + 60000 \<le> 170000"
proof -
  let ?opts = "new_policy_options None None None"
  obtain p where p: "policy_assess ?opts (policy_run ?opts [first_reading]) 170000 one_instance idle_instance
      (sample_item ''r1'' 1 IAssessing) quiet_reading = (p, Inr ready_now)"
    using second_reading by (metis prod.collapse)
  have "c_id idle_instance = ''w1''" "po_quietWindowMs ?opts = 60000" "as_ready ready_now"
    by (simp_all add: idle_instance_def new_policy_options_def positive_duration_def ready_now_def)
  with idle_needs_a_quiet_window [OF p] show ?thesis by metis
qed

section \<open>Confirming after the drain\<close>

lemma ready_step:
  assumes "js_get (ap_ready (fst (policy_call opts p e))) i = Some r"
  shows "js_get (ap_ready p) i = Some r
    \<or> (\<exists>t m c it. e = PAssess t m c it (Supported (ro_metrics r)) \<and> c_id c = i \<and> i_rolloutId it = ro_rolloutId r
        \<and> i_attemptId it = ro_attemptId r \<and> c_lastActivityAt c = ro_lastActivityAt r
        \<and> snd (policy_call opts p e) = Inr ready_now)"
proof (cases e)
  case (PAssess now m c it reading)
  with assms show ?thesis
    by (cases "c_id c = i")
      (auto simp: policy_assess_def assess_sample_def Let_def split: option.splits capability.splits if_splits)
next
  case (PConfirm now m c it reading)
  with assms show ?thesis
    by (cases "c_id c = i")
      (auto simp: policy_confirm_def confirm_sample_def Let_def split: option.splits capability.splits if_splits)
qed

lemma ready_origin:
  "js_get (ap_ready (policy_run opts es)) i = Some r \<Longrightarrow>
   \<exists>pre t m c it mid. es = pre @ PAssess t m c it (Supported (ro_metrics r)) # mid \<and> c_id c = i
     \<and> i_rolloutId it = ro_rolloutId r \<and> i_attemptId it = ro_attemptId r \<and> c_lastActivityAt c = ro_lastActivityAt r
     \<and> snd (policy_call opts (policy_run opts pre) (PAssess t m c it (Supported (ro_metrics r)))) = Inr ready_now"
proof (induction es rule: rev_induct)
  case Nil
  then show ?case by (simp add: policy_run_def empty_policy_def)
next
  case (snoc e es)
  from snoc.prems have "js_get (ap_ready (fst (policy_call opts (policy_run opts es) e))) i = Some r"
    by (simp add: policy_run_def)
  from ready_step [OF this] show ?case
  proof
    assume "js_get (ap_ready (policy_run opts es)) i = Some r"
    from snoc.IH [OF this] show ?thesis by (metis append_Cons append_assoc)
  next
    assume "\<exists>t m c it. e = PAssess t m c it (Supported (ro_metrics r)) \<and> c_id c = i \<and> i_rolloutId it = ro_rolloutId r
        \<and> i_attemptId it = ro_attemptId r \<and> c_lastActivityAt c = ro_lastActivityAt r
        \<and> snd (policy_call opts (policy_run opts es) e) = Inr ready_now"
    then show ?thesis by blast
  qed
qed

text \<open>
  Whatever the history, a confirmation after the drain is given only for the batch and the
  attempt an earlier assessment found ready, with the counters and the activity stamp of that
  assessment, a low load then and now, and no busy connection.
\<close>

theorem confirmation_rests_on_an_assessment:
  assumes "policy_confirm opts (policy_run opts es) now m c it reading = (p, Inr a)" "as_ready a"
  shows "\<exists>x x0 pre t m0 c0 it0 mid. reading = Supported x \<and> es = pre @ PAssess t m0 c0 it0 (Supported x0) # mid
    \<and> snd (policy_assess opts (policy_run opts pre) t m0 c0 it0 (Supported x0)) = Inr ready_now
    \<and> c_id c0 = c_id c \<and> i_rolloutId it0 = i_rolloutId it \<and> i_attemptId it0 = i_attemptId it
    \<and> c_lastActivityAt c0 = c_lastActivityAt c \<and> same_counters x0 x \<and> low_cpu opts x0 \<and> low_cpu opts x
    \<and> busy_lease opts m (c_id c) now = None"
proof -
  from assms obtain x r where x: "reading = Supported x" "js_get (ap_ready (policy_run opts es)) (c_id c) = Some r"
    "ro_rolloutId r = i_rolloutId it" "ro_attemptId r = i_attemptId it" "c_lastActivityAt c = ro_lastActivityAt r"
    "same_counters (ro_metrics r) x" "low_cpu opts (ro_metrics r)" "low_cpu opts x" "busy_lease opts m (c_id c) now = None"
    by (auto simp: policy_confirm_def confirm_sample_def not_ready_def Let_def split: option.splits capability.splits if_splits)
  from ready_origin [OF x(2)] x show ?thesis by (metis policy_call.simps(1))
qed

end
