(* ===== verification/Execution_Manager.thy ===== *)
theory Execution_Manager
  imports Memory_Workspaces Instance_Policy Actions
begin

text \<open>
  The workspace execution manager, \<open>backend/src/workspace-execution-manager.ts\<close>: the module that
  assigns generations and transactions of a workspace's execution, asks the provider to bring
  the environment to the desired state, and takes a workspace through the phases of its
  deletion. Its methods are actions on the store; every \<open>await\<close> and every call of the clock or of
  the id generator is an effect, counted, before which other processes may change the store
  (\<open>ew_env\<close>), and the provider, the storage and the drain answer by the count of the effect.
  The provider and the two storage ports are interfaces with implementations elsewhere; here
  they may answer anything. The log records what the manager has done, newest first.
\<close>

section \<open>Errors, requests and answers\<close>

datatype failure_class = FTransient | FPermanent | FInconsistent | FCancelled

text \<open>
  \<open>WorkspaceExecutionStateError\<close>, \<open>ProviderOperationError\<close>, what the store throws, the reason of
  an aborted signal, and any other error.
\<close>

datatype exec_error =
    StateError string
  | ProviderError string failure_class
  | StoreError workspace_error
  | SignalReason
  | OtherThrown string

record storage_ref =
  sr_id :: string
  sr_storageClass :: string
  sr_affinity :: string

record storage_binding =
  sb_storageId :: string
  sb_attachmentRef :: string
  sb_mountPath :: string
  sb_readOnly :: bool

record storage_request =
  sq_workspaceId :: string
  sq_ownerId :: string
  sq_providerId :: string
  sq_storageRef :: storage_ref

record catalog_row =
  cg_appId :: string
  cg_appVersionId :: "string option"
  cg_imageArtifactId :: "string option"
  cg_imageReference :: string

record provider_execution =
  pe_workspaceId :: string
  pe_ownerId :: string
  pe_environmentRef :: string
  pe_providerId :: "string option"
  pe_observedState :: observed_state
  pe_createdAt :: instant
  pe_catalogSnapshot :: "catalog_row option"
  pe_transactionRecovered :: bool

record environment_request =
  er_workspaceId :: string
  er_ownerId :: string
  er_providerId :: "string option"
  er_storageBindings :: "storage_binding list"

record reconcile_input =
  ri_workspaceId :: string
  ri_ownerId :: string
  ri_providerId :: "string option"
  ri_artifactKind :: "string option"
  ri_executionContract :: "string option option"
  ri_storageClass :: "string option"
  ri_appId :: string
  ri_appRevisionId :: "string option"
  ri_launchArtifactId :: "string option"
  ri_launchArtifactReference :: string
  ri_sourceCatalogSnapshot :: "catalog_row option"
  ri_launchProfile :: launch_profile
  ri_desiredState :: desired_state
  ri_replace :: bool
  ri_transactionKey :: "string option"

record reconcile_request =
  rq_environment :: environment_request
  rq_artifactKind :: "string option"
  rq_executionContract :: "string option option"
  rq_storageClass :: "string option"
  rq_appId :: string
  rq_appRevisionId :: "string option"
  rq_launchArtifactId :: "string option"
  rq_launchArtifactReference :: string
  rq_sourceCatalogSnapshot :: "catalog_row option"
  rq_launchProfile :: launch_profile
  rq_desiredState :: desired_state
  rq_desiredGeneration :: int
  rq_transactionId :: string
  rq_replace :: bool

datatype reconcile_status = RsProgressing | RsApplied | RsAwaitingFirstStart | RsRolledBack

record reconcile_result =
  rr_status :: reconcile_status
  rr_generation :: int
  rr_transactionId :: string
  rr_execution :: provider_execution

datatype inspection_status = InsPending | InsCommitted | InsNotFound | InsInconsistent
datatype acceptance = Accepted | AlreadyBaseline | AcceptNotFound

record deletion_input =
  di_workspaceId :: string
  di_transactionKey :: "string option"

section \<open>The world\<close>

text \<open>
  \<open>ew_transactions\<close> is None when the manager was built without a transaction port;
  \<open>ew_transportId\<close> is the provider id the control port answers for, None when it has none;
  \<open>ew_digest\<close> is the SHA-256 of the two texts with a zero byte between, in hexadecimal.
\<close>

record exec_world =
  ew_env :: "nat \<Rightarrow> mem \<Rightarrow> mem"
  ew_now :: "nat \<Rightarrow> instant"
  ew_id :: "nat \<Rightarrow> string"
  ew_aborted :: "nat \<Rightarrow> bool"
  ew_digest :: "string \<Rightarrow> string \<Rightarrow> string"
  ew_transportId :: "string option"
  ew_binding :: "nat \<Rightarrow> storage_request \<Rightarrow> (exec_error, storage_binding) res"
  ew_inspect :: "nat \<Rightarrow> string \<Rightarrow> string \<Rightarrow> (exec_error, provider_execution option) res"
  ew_observe :: "nat \<Rightarrow> environment_request \<Rightarrow> (exec_error, provider_execution option) res"
  ew_reconcile :: "nat \<Rightarrow> reconcile_request \<Rightarrow> (exec_error, reconcile_result) res"
  ew_remove :: "nat \<Rightarrow> environment_request \<Rightarrow> (exec_error, unit) res"
  ew_release :: "nat \<Rightarrow> storage_request \<Rightarrow> storage_binding \<Rightarrow> (exec_error, unit) res"
  ew_drain_begin :: "nat \<Rightarrow> string \<Rightarrow> string \<Rightarrow> (exec_error, bool) res"
  ew_drain_clear :: "nat \<Rightarrow> string \<Rightarrow> string \<Rightarrow> (exec_error, unit) res"
  ew_transactions :: "(string option
     \<times> (nat \<Rightarrow> string \<Rightarrow> string \<Rightarrow> string option \<Rightarrow> (exec_error, acceptance) res)
     \<times> (nat \<Rightarrow> string \<Rightarrow> string \<Rightarrow> string option \<Rightarrow> (exec_error, (inspection_status \<times> provider_execution option) option) res)) option"

text \<open>
  What is logged: the projections read, the writes (the projection a write was computed from and
  the one stored), the counted references, and the calls that act: a reconciliation and a release
  of storage when they are asked for and when they succeed, the others when they succeed.
\<close>

datatype exec_event =
    Got projection
  | Saved projection projection
  | Counted string string nat
  | Reconciling reconcile_request
  | Answered reconcile_request reconcile_result
  | Removed environment_request
  | Releasing storage_request storage_binding
  | Released storage_request
  | DrainBegan string string
  | DrainCleared string string

record exec_run =
  er_mem :: mem
  er_step :: nat
  er_log :: "exec_event list"

type_synonym 'a exec = "(exec_run, exec_error, 'a) action"

definition exec_note :: "exec_event \<Rightarrow> unit exec" where
  "exec_note e = (\<lambda>s. (s\<lparr>er_log := e # er_log s\<rparr>, Inr ()))"

definition exec_wait :: "exec_world \<Rightarrow> nat exec" where
  "exec_wait wd = (\<lambda>s. (s\<lparr>er_mem := ew_env wd (er_step s) (er_mem s), er_step := Suc (er_step s)\<rparr>, Inr (er_step s)))"

definition exec_clock :: "exec_world \<Rightarrow> instant exec" where
  "exec_clock wd = (\<lambda>s. (s\<lparr>er_step := Suc (er_step s)\<rparr>, Inr (ew_now wd (er_step s))))"

definition exec_fresh_id :: "exec_world \<Rightarrow> string exec" where
  "exec_fresh_id wd = (\<lambda>s. (s\<lparr>er_step := Suc (er_step s)\<rparr>, Inr (ew_id wd (er_step s))))"

definition exec_aborted :: "exec_world \<Rightarrow> bool exec" where
  "exec_aborted wd = (\<lambda>s. (s, Inr (ew_aborted wd (er_step s))))"

definition exec_throw_if_aborted :: "exec_world \<Rightarrow> unit exec" where
  "exec_throw_if_aborted wd = act_bind (exec_aborted wd) (\<lambda>b. if b then act_throw SignalReason else act_ret ())"

definition exec_call :: "exec_world \<Rightarrow> (nat \<Rightarrow> (exec_error, 'a) res) \<Rightarrow> 'a exec" where
  "exec_call wd f = act_bind (exec_wait wd) (\<lambda>n. act_of (f n))"

definition exec_read :: "exec_world \<Rightarrow> (mem \<Rightarrow> (workspace_error, 'a) res) \<Rightarrow> 'a exec" where
  "exec_read wd f = act_bind (exec_wait wd)
     (\<lambda>_ s. (s, case f (er_mem s) of Inl e \<Rightarrow> Inl (StoreError e) | Inr x \<Rightarrow> Inr x))"

text \<open>\<open>compareAndSaveWorkspaceExecution\<close>; the log keeps the projection a save replaced.\<close>

definition exec_save :: "exec_world \<Rightarrow> projection \<Rightarrow> projection \<Rightarrow> projection option exec" where
  "exec_save wd current nxt = act_bind (exec_wait wd)
     (\<lambda>_ s. case cas_execution (er_mem s) nxt (x_revision (p_execution current)) of
        (m, Inl e) \<Rightarrow> (s\<lparr>er_mem := m\<rparr>, Inl (StoreError e))
      | (m, Inr None) \<Rightarrow> (s\<lparr>er_mem := m\<rparr>, Inr None)
      | (m, Inr (Some saved)) \<Rightarrow> (s\<lparr>er_mem := m, er_log := Saved current saved # er_log s\<rparr>, Inr (Some saved)))"

text \<open>
  \<open>for (let attempt = 0; attempt < MAX_CAS_ATTEMPTS; ...)\<close>: the body ends the loop with \<open>Some\<close>;
  after the last attempt the code does what \<open>give_up\<close> says.
\<close>

definition max_cas_attempts :: nat where
  "max_cas_attempts = 8"

fun attempts :: "nat \<Rightarrow> 'a option exec \<Rightarrow> 'a exec \<Rightarrow> 'a exec" where
  "attempts 0 body giveUp = giveUp"
| "attempts (Suc n) body giveUp =
     act_bind body (\<lambda>r. case r of Some x \<Rightarrow> act_ret x | None \<Rightarrow> attempts n body giveUp)"

definition state_conflict :: "'a exec" where
  "state_conflict = act_throw (StateError ''workspace_execution_state_conflict'')"

section \<open>Helper functions\<close>

definition workspace_storage_ref :: "workspace \<Rightarrow> string \<Rightarrow> storage_ref" where
  "workspace_storage_ref w providerId =
     \<lparr>sr_id = w_storageRefId w, sr_storageClass = ''workspace-data'', sr_affinity = providerId\<rparr>"

definition execution_transaction_id ::
  "(string \<Rightarrow> string \<Rightarrow> string) \<Rightarrow> string \<Rightarrow> string \<Rightarrow> (exec_error, string) res" where
  "execution_transaction_id digest workspaceId transactionKey =
     (let normalized = js_trim transactionKey
      in if normalized = [] then Inl (StateError ''workspace_execution_transaction_key_required'')
         else let d = take 32 (digest workspaceId normalized)
              in Inr (take 8 d @ ''-'' @ take 4 (drop 8 d) @ ''-'' @ take 4 (drop 12 d) @ ''-''
                      @ take 4 (drop 16 d) @ ''-'' @ drop 20 d))"

definition completed_transaction :: "projection \<Rightarrow> reconcile_input \<Rightarrow> string \<Rightarrow> bool" where
  "completed_transaction p input transactionId \<longleftrightarrow>
     (let x = p_execution p
      in x_transactionId x = Some transactionId
         \<and> (x_transactionStatus x = TxApplied \<or> x_transactionStatus x = TxAwaitingFirstStart)
         \<and> x_deployedGeneration x = x_desiredGeneration x
         \<and> x_desiredState x = ri_desiredState input
         \<and> x_desiredAppRevisionId x = ri_appRevisionId input
         \<and> x_desiredLaunchArtifactId x = ri_launchArtifactId input
         \<and> x_desiredLaunchArtifactReference x = Some (ri_launchArtifactReference input))"

definition deletion_failure_code :: "exec_error \<Rightarrow> string" where
  "deletion_failure_code e =
     (case e of ProviderError code _ \<Rightarrow> code | StateError code \<Rightarrow> code | _ \<Rightarrow> ''workspace_deletion_failed'')"

definition check_active :: "projection \<Rightarrow> (exec_error, unit) res" where
  "check_active p =
     (if w_status (p_workspace p) \<noteq> WsActive
      then Inl (StateError (if w_status (p_workspace p) = WsDeleted then ''workspace_deleted'' else ''workspace_deleting''))
      else Inr ())"

definition check_reconcile_identity :: "projection \<Rightarrow> reconcile_input \<Rightarrow> string \<Rightarrow> (exec_error, unit) res" where
  "check_reconcile_identity p input providerId =
     (if w_status (p_workspace p) \<noteq> WsActive then Inl (StateError ''workspace_not_active'')
      else if w_ownerId (p_workspace p) \<noteq> ri_ownerId input \<or> w_appId (p_workspace p) \<noteq> ri_appId input
        \<or> x_providerId (p_execution p) \<noteq> providerId
      then Inl (StateError ''workspace_execution_identity_mismatch'') else Inr ())"

definition check_provider_execution :: "projection \<Rightarrow> provider_execution \<Rightarrow> (exec_error, unit) res" where
  "check_provider_execution p e =
     (if pe_workspaceId e \<noteq> w_id (p_workspace p) \<or> pe_ownerId e \<noteq> w_ownerId (p_workspace p)
        \<or> (pe_providerId e \<noteq> None \<and> pe_providerId e \<noteq> Some (x_providerId (p_execution p)))
        \<or> pe_environmentRef e = []
      then Inl (StateError ''provider_execution_identity_mismatch'') else Inr ())"

definition check_catalog_result :: "reconcile_input \<Rightarrow> provider_execution \<Rightarrow> (exec_error, unit) res" where
  "check_catalog_result input e =
     (case pe_catalogSnapshot e of
        None \<Rightarrow> Inr ()
      | Some c \<Rightarrow>
          if cg_appId c \<noteq> ri_appId input \<or> cg_appVersionId c \<noteq> ri_appRevisionId input
            \<or> cg_imageArtifactId c \<noteq> ri_launchArtifactId input \<or> cg_imageReference c \<noteq> ri_launchArtifactReference input
          then Inl (StateError ''provider_execution_catalog_mismatch'') else Inr ())"

definition compatible_observed_state :: "observed_state \<Rightarrow> (exec_error, container_status) res" where
  "compatible_observed_state st =
     (case st of Obs status \<Rightarrow> Inr status | _ \<Rightarrow> Inl (StateError ''provider_execution_state_unavailable''))"

definition check_legacy_identity :: "container \<Rightarrow> container \<Rightarrow> (exec_error, unit) res" where
  "check_legacy_identity cur nxt =
     (if c_id cur \<noteq> c_id nxt \<or> c_userId cur \<noteq> c_userId nxt \<or> c_appId cur \<noteq> c_appId nxt \<or> c_createdAt cur \<noteq> c_createdAt nxt
      then Inl (StateError ''workspace_execution_identity_mismatch'') else Inr ())"

definition same_legacy_container :: "container \<Rightarrow> container \<Rightarrow> bool" where
  "same_legacy_container l r \<longleftrightarrow>
     c_id l = c_id r \<and> c_userId l = c_userId r \<and> c_appId l = c_appId r \<and> c_runtimeId l = c_runtimeId r
     \<and> c_status l = c_status r \<and> c_endpoint l = c_endpoint r \<and> c_stopReason l = c_stopReason r
     \<and> c_createdAt l = c_createdAt r \<and> c_updatedAt l = c_updatedAt r \<and> c_lastActivityAt l = c_lastActivityAt r
     \<and> c_appVersionId l = c_appVersionId r \<and> c_imageArtifactId l = c_imageArtifactId r
     \<and> c_imageReference l = c_imageReference r"

text \<open>The provider id is left out towards a Docker transport (a transport without an id counts as one).\<close>

definition provider_route_argument :: "string option \<Rightarrow> string \<Rightarrow> string option" where
  "provider_route_argument transportId providerId =
     (let transportProviderId = (case transportId of Some i \<Rightarrow> i | None \<Rightarrow> ''docker'')
      in if providerId = ''docker'' \<and> transportProviderId = ''docker'' then None else Some providerId)"

text \<open>The check of the constructor on the two ports it is given.\<close>

definition check_manager_ports :: "string \<Rightarrow> string \<Rightarrow> (exec_error, unit) res" where
  "check_manager_ports releaserProviderId providerId =
     (if releaserProviderId \<noteq> providerId then Inl (StateError ''workspace_storage_release_provider_mismatch'') else Inr ())"

definition storage_request_for :: "projection \<Rightarrow> storage_request" where
  "storage_request_for p =
     \<lparr>sq_workspaceId = w_id (p_workspace p), sq_ownerId = w_ownerId (p_workspace p),
      sq_providerId = x_providerId (p_execution p),
      sq_storageRef = workspace_storage_ref (p_workspace p) (x_providerId (p_execution p))\<rparr>"

definition environment_request_for :: "exec_world \<Rightarrow> projection \<Rightarrow> storage_binding \<Rightarrow> environment_request" where
  "environment_request_for wd p binding =
     \<lparr>er_workspaceId = w_id (p_workspace p), er_ownerId = w_ownerId (p_workspace p),
      er_providerId = provider_route_argument (ew_transportId wd) (x_providerId (p_execution p)),
      er_storageBindings = [binding]\<rparr>"

section \<open>Reads\<close>

definition exec_projection :: "exec_world \<Rightarrow> string \<Rightarrow> projection exec" where
  "exec_projection wd workspaceId =
     act_bind (exec_read wd (\<lambda>m. get_projection m workspaceId))
       (\<lambda>r. case r of
          None \<Rightarrow> act_throw (StateError ''workspace_not_found'')
        | Some p \<Rightarrow> act_bind (exec_note (Got p)) (\<lambda>_. act_ret p))"

definition active_projection :: "exec_world \<Rightarrow> string \<Rightarrow> projection exec" where
  "active_projection wd workspaceId =
     act_bind (exec_projection wd workspaceId) (\<lambda>p. act_bind (act_of (check_active p)) (\<lambda>_. act_ret p))"

definition resolve_binding :: "exec_world \<Rightarrow> projection \<Rightarrow> storage_binding exec" where
  "resolve_binding wd p =
     act_bind (exec_call wd (\<lambda>n. ew_binding wd n (storage_request_for p)))
       (\<lambda>b. if sb_storageId b \<noteq> w_storageRefId (p_workspace p)
             then act_throw (StateError ''workspace_storage_binding_identity_mismatch'') else act_ret b)"

definition exec_inspect :: "exec_world \<Rightarrow> string \<Rightarrow> provider_execution option exec" where
  "exec_inspect wd workspaceId =
     act_bind (active_projection wd workspaceId)
       (\<lambda>p. exec_call wd (\<lambda>n. ew_inspect wd n workspaceId (x_providerId (p_execution p))))"

definition exec_observe :: "exec_world \<Rightarrow> string \<Rightarrow> provider_execution option exec" where
  "exec_observe wd workspaceId =
     act_bind (active_projection wd workspaceId) (\<lambda>p.
     act_bind (resolve_binding wd p) (\<lambda>b.
       exec_call wd (\<lambda>n. ew_observe wd n (environment_request_for wd p b\<lparr>er_workspaceId := workspaceId\<rparr>))))"

definition accept_deferred_execution :: "exec_world \<Rightarrow> string \<Rightarrow> string \<Rightarrow> acceptance exec" where
  "accept_deferred_execution wd workspaceId ownerId =
     act_bind (active_projection wd workspaceId) (\<lambda>p.
       case ew_transactions wd of
         None \<Rightarrow> act_ret AcceptNotFound
       | Some (transportId, accept, _) \<Rightarrow>
           exec_call wd (\<lambda>n. accept n workspaceId ownerId (provider_route_argument transportId (x_providerId (p_execution p)))))"

definition inspect_transaction ::
  "exec_world \<Rightarrow> string \<Rightarrow> string \<Rightarrow> (inspection_status \<times> provider_execution option) option exec" where
  "inspect_transaction wd workspaceId transactionKey =
     act_bind (active_projection wd workspaceId) (\<lambda>p.
       case ew_transactions wd of
         None \<Rightarrow> act_ret None
       | Some (transportId, _, inspect) \<Rightarrow>
           act_bind (act_of (execution_transaction_id (ew_digest wd) workspaceId transactionKey)) (\<lambda>t.
             exec_call wd (\<lambda>n. inspect n workspaceId t (provider_route_argument transportId (x_providerId (p_execution p))))))"

definition remove_environment :: "exec_world \<Rightarrow> projection \<Rightarrow> storage_binding \<Rightarrow> unit exec" where
  "remove_environment wd p b =
     (let request = environment_request_for wd p b
      in act_bind (exec_call wd (\<lambda>n. ew_remove wd n request)) (\<lambda>_. exec_note (Removed request)))"

definition exec_remove_environment :: "exec_world \<Rightarrow> string \<Rightarrow> unit exec" where
  "exec_remove_environment wd workspaceId =
     act_bind (exec_projection wd workspaceId) (\<lambda>p.
       if w_status (p_workspace p) = WsDeleted then act_throw (StateError ''workspace_deleted'')
       else act_bind (resolve_binding wd p) (\<lambda>b. remove_environment wd p b))"

section \<open>Bringing an execution to a desired state\<close>

definition with_intent :: "reconcile_input \<Rightarrow> string \<Rightarrow> instant \<Rightarrow> projection \<Rightarrow> projection" where
  "with_intent input transactionId now p =
     (let x = p_execution p;
          desiredGeneration =
            (if x_transactionId x = Some transactionId then x_desiredGeneration x
             else if ri_replace input then x_desiredGeneration x + 1 else x_desiredGeneration x)
      in p\<lparr>p_workspace := (p_workspace p)\<lparr>w_updatedAt := now\<rparr>,
           p_execution := x\<lparr>x_desiredGeneration := desiredGeneration,
             x_desiredState := ri_desiredState input,
             x_desiredAppRevisionId := ri_appRevisionId input,
             x_desiredLaunchArtifactId := ri_launchArtifactId input,
             x_desiredLaunchArtifactReference := Some (ri_launchArtifactReference input),
             x_transactionId := Some transactionId,
             x_transactionStatus := TxProgressing,
             x_updatedAt := now\<rparr>\<rparr>)"

definition persist_intent :: "exec_world \<Rightarrow> reconcile_input \<Rightarrow> string \<Rightarrow> projection exec" where
  "persist_intent wd input transactionId =
     attempts max_cas_attempts
       (act_bind (active_projection wd (ri_workspaceId input)) (\<lambda>current.
        let providerId = (case ri_providerId input of Some i \<Rightarrow> i | None \<Rightarrow> x_providerId (p_execution current))
        in act_bind (act_of (check_reconcile_identity current input providerId)) (\<lambda>_.
           if completed_transaction current input transactionId then act_ret (Some current)
           else act_bind (exec_clock wd) (\<lambda>now.
                  exec_save wd current (with_intent input transactionId now current)))))
       state_conflict"

definition with_result ::
  "reconcile_input \<Rightarrow> reconcile_result \<Rightarrow> instant \<Rightarrow> projection \<Rightarrow> (exec_error, projection) res" where
  "with_result input result now p =
     (let x = p_execution p; e = rr_execution result;
          running = (pe_observedState e = Obs Running)
      in rbind (compatible_observed_state (pe_observedState e)) (\<lambda>status.
         let p1 = p\<lparr>p_workspace := (p_workspace p)\<lparr>w_updatedAt := now\<rparr>,
               p_execution := x\<lparr>x_environmentRef := Some (pe_environmentRef e),
                 x_observedState := pe_observedState e, x_updatedAt := now,
                 x_legacyEndpoint := (if running then x_legacyEndpoint x else None)\<rparr>,
               p_runtimeId := pe_environmentRef e, p_status := status\<rparr>
         in if rr_status result = RsRolledBack
            then Inr (p1\<lparr>p_execution := (p_execution p1)\<lparr>x_transactionStatus := TxRolledBack\<rparr>\<rparr>)
            else rbind (check_catalog_result input e) (\<lambda>_.
              let x1 = (p_execution p1)\<lparr>x_deployedGeneration := rr_generation result,
                    x_launchArtifactId := ri_launchArtifactId input,
                    x_launchArtifactReference := Some (ri_launchArtifactReference input),
                    x_transactionStatus := (if rr_status result = RsAwaitingFirstStart
                      then TxAwaitingFirstStart else TxApplied)\<rparr>;
                  x2 = (if running then x1\<lparr>x_healthyGeneration := Some (rr_generation result), x_stopReason := None\<rparr> else x1)
              in Inr (p1\<lparr>p_workspace := (p_workspace p1)\<lparr>w_appRevisionId := ri_appRevisionId input\<rparr>,
                        p_execution := x2\<rparr>))))"

definition commit_result :: "exec_world \<Rightarrow> reconcile_input \<Rightarrow> reconcile_result \<Rightarrow> projection exec" where
  "commit_result wd input result =
     attempts max_cas_attempts
       (act_bind (active_projection wd (ri_workspaceId input)) (\<lambda>current.
        if x_transactionId (p_execution current) \<noteq> Some (rr_transactionId result)
           \<or> x_desiredGeneration (p_execution current) \<noteq> rr_generation result
        then if completed_transaction current input (rr_transactionId result) then act_ret (Some current)
             else act_throw (StateError ''workspace_execution_transaction_superseded'')
        else act_bind (act_of (check_provider_execution current (rr_execution result))) (\<lambda>_.
             act_bind (exec_clock wd) (\<lambda>now.
             act_bind (act_of (with_result input result now current)) (\<lambda>nxt.
               exec_save wd current nxt)))))
       state_conflict"

definition failure_status :: "exec_error \<Rightarrow> transaction_status" where
  "failure_status e = (case e of ProviderError _ FInconsistent \<Rightarrow> TxInconsistent | _ \<Rightarrow> TxFailed)"

definition with_failure :: "exec_error \<Rightarrow> instant \<Rightarrow> projection \<Rightarrow> projection" where
  "with_failure e now p =
     p\<lparr>p_workspace := (p_workspace p)\<lparr>w_updatedAt := now\<rparr>,
       p_execution := (p_execution p)\<lparr>x_transactionStatus := failure_status e, x_updatedAt := now\<rparr>\<rparr>"

definition record_provider_failure :: "exec_world \<Rightarrow> string \<Rightarrow> string \<Rightarrow> exec_error \<Rightarrow> unit exec" where
  "record_provider_failure wd workspaceId transactionId e =
     attempts max_cas_attempts
       (act_bind (exec_projection wd workspaceId) (\<lambda>current.
        if w_status (p_workspace current) \<noteq> WsActive then act_ret (Some ())
        else if x_transactionId (p_execution current) \<noteq> Some transactionId then act_ret (Some ())
        else act_bind (exec_clock wd) (\<lambda>now.
             act_bind (exec_save wd current (with_failure e now current)) (\<lambda>saved.
               act_ret (if saved = None then None else Some ())))))
       state_conflict"

definition reconcile_request_for ::
  "exec_world \<Rightarrow> reconcile_input \<Rightarrow> projection \<Rightarrow> string \<Rightarrow> storage_binding \<Rightarrow> reconcile_request" where
  "reconcile_request_for wd input intent transactionId binding =
     \<lparr>rq_environment = \<lparr>er_workspaceId = ri_workspaceId input, er_ownerId = ri_ownerId input,
        er_providerId = provider_route_argument (ew_transportId wd) (x_providerId (p_execution intent)),
        er_storageBindings = [binding]\<rparr>,
      rq_artifactKind = ri_artifactKind input, rq_executionContract = ri_executionContract input,
      rq_storageClass = ri_storageClass input, rq_appId = ri_appId input,
      rq_appRevisionId = ri_appRevisionId input, rq_launchArtifactId = ri_launchArtifactId input,
      rq_launchArtifactReference = ri_launchArtifactReference input,
      rq_sourceCatalogSnapshot = ri_sourceCatalogSnapshot input,
      rq_launchProfile = ri_launchProfile input, rq_desiredState = ri_desiredState input,
      rq_desiredGeneration = x_desiredGeneration (p_execution intent),
      rq_transactionId = transactionId, rq_replace = ri_replace input\<rparr>"

definition is_cancellation :: "exec_error \<Rightarrow> bool" where
  "is_cancellation e = (case e of ProviderError _ FCancelled \<Rightarrow> True | _ \<Rightarrow> False)"

definition apply_intent :: "exec_world \<Rightarrow> reconcile_input \<Rightarrow> string \<Rightarrow> projection \<Rightarrow> projection exec" where
  "apply_intent wd input transactionId intent =
     act_bind (resolve_binding wd intent) (\<lambda>binding.
     let request = reconcile_request_for wd input intent transactionId binding
     in act_bind (exec_note (Reconciling request)) (\<lambda>_.
        act_bind (exec_call wd (\<lambda>n. ew_reconcile wd n request)) (\<lambda>result.
        act_bind (exec_note (Answered request result)) (\<lambda>_.
        act_bind (exec_throw_if_aborted wd) (\<lambda>_.
          commit_result wd input result)))))"

definition exec_reconcile :: "exec_world \<Rightarrow> reconcile_input \<Rightarrow> projection exec" where
  "exec_reconcile wd input =
     act_bind (exec_throw_if_aborted wd) (\<lambda>_.
     if lp_imageReference (ri_launchProfile input) \<noteq> ri_launchArtifactReference input
     then act_throw (StateError ''launch_artifact_profile_mismatch'')
     else act_bind (active_projection wd (ri_workspaceId input)) (\<lambda>current.
       let expected = sr_storageClass (workspace_storage_ref (p_workspace current) (x_providerId (p_execution current)))
       in if ri_storageClass input \<noteq> None \<and> ri_storageClass input \<noteq> Some expected
          then act_throw (StateError ''workspace_storage_class_mismatch'')
          else act_bind
            (case ri_transactionKey input of
               None \<Rightarrow> exec_fresh_id wd
             | Some key \<Rightarrow> if key = [] then exec_fresh_id wd
                           else act_of (execution_transaction_id (ew_digest wd) (ri_workspaceId input) key)) (\<lambda>transactionId.
          act_bind (persist_intent wd input transactionId) (\<lambda>intent.
          if completed_transaction intent input transactionId then act_ret intent
          else act_case (apply_intent wd input transactionId intent)
            (\<lambda>e. if is_cancellation e then act_throw e
                 else act_bind (record_provider_failure wd (ri_workspaceId input) transactionId e) (\<lambda>_. act_throw e))
            act_ret))))"

section \<open>Legacy rows\<close>

definition with_legacy :: "container \<Rightarrow> projection \<Rightarrow> projection" where
  "with_legacy c p =
     (let x = p_execution p;
          inFlight = (x_transactionStatus x = TxRequested \<or> x_transactionStatus x = TxProgressing);
          x1 = x\<lparr>x_environmentRef := pending_runtime (c_runtimeId c), x_observedState := Obs (c_status c),
                 x_launchArtifactId := c_imageArtifactId c, x_launchArtifactReference := c_imageReference c,
                 x_legacyEndpoint := c_endpoint c, x_stopReason := c_stopReason c,
                 x_lastActivityAt := latest_timestamp (x_lastActivityAt x) (c_lastActivityAt c),
                 x_updatedAt := c_updatedAt c\<rparr>;
          x2 = (if inFlight then x1
                else x1\<lparr>x_desiredAppRevisionId := c_appVersionId c, x_desiredLaunchArtifactId := c_imageArtifactId c,
                        x_desiredLaunchArtifactReference := c_imageReference c,
                        x_desiredState := (if c_status c = Stopped then WantStopped else WantRunning)\<rparr>);
          x3 = (if c_status c = Running
                then x2\<lparr>x_healthyGeneration := Some (max (case x_healthyGeneration x of Some h \<Rightarrow> h | None \<Rightarrow> 0)
                                                          (x_deployedGeneration x))\<rparr>
                else x2)
      in p\<lparr>p_workspace := (p_workspace p)\<lparr>w_appRevisionId := c_appVersionId c, w_updatedAt := c_updatedAt c\<rparr>,
           p_execution := x3, p_runtimeId := c_runtimeId c, p_status := c_status c\<rparr>)"

definition persist_legacy_container :: "exec_world \<Rightarrow> container \<Rightarrow> unit exec" where
  "persist_legacy_container wd container =
     attempts max_cas_attempts
       (act_bind (active_projection wd (c_id container)) (\<lambda>current.
        case project_execution current of
          Inl e \<Rightarrow> act_throw (StoreError e)
        | Inr previous \<Rightarrow>
            act_bind (act_of (check_legacy_identity previous container)) (\<lambda>_.
            if same_legacy_container previous container then act_ret (Some ())
            else act_bind (exec_save wd current (with_legacy container current)) (\<lambda>saved.
                   act_ret (if saved = None then None else Some ())))))
       state_conflict"

section \<open>Deletion\<close>

definition with_deletion :: "string \<Rightarrow> instant \<Rightarrow> projection \<Rightarrow> projection" where
  "with_deletion transactionId now p =
     p\<lparr>p_workspace := (p_workspace p)\<lparr>w_status := WsDeleting, w_deletionTransactionId := Some transactionId,
         w_deletionPhase := Some PhDraining, w_deletionFailure := None, w_deletedAt := None, w_updatedAt := now\<rparr>,
       p_execution := (p_execution p)\<lparr>x_updatedAt := now\<rparr>\<rparr>"

definition with_phase :: "deletion_phase \<Rightarrow> instant \<Rightarrow> projection \<Rightarrow> projection" where
  "with_phase phase now p =
     p\<lparr>p_workspace := (p_workspace p)\<lparr>w_deletionPhase := Some phase, w_deletionFailure := None, w_updatedAt := now\<rparr>,
       p_execution := (p_execution p)\<lparr>x_updatedAt := now\<rparr>\<rparr>"

definition with_deletion_failure :: "exec_error \<Rightarrow> instant \<Rightarrow> projection \<Rightarrow> projection" where
  "with_deletion_failure e now p =
     p\<lparr>p_workspace := (p_workspace p)\<lparr>w_deletionFailure := Some (deletion_failure_code e), w_updatedAt := now\<rparr>,
       p_execution := (p_execution p)\<lparr>x_updatedAt := now\<rparr>\<rparr>"

definition deleted_projection :: "instant \<Rightarrow> projection \<Rightarrow> projection" where
  "deleted_projection now p =
     p\<lparr>p_workspace := (p_workspace p)\<lparr>w_status := WsDeleted, w_activeExecutionId := None, w_appRevisionId := None,
         w_deletionPhase := Some PhDeleted, w_deletionFailure := None, w_deletedAt := Some now, w_updatedAt := now\<rparr>,
       p_execution := (p_execution p)\<lparr>x_role := RoleRetired, x_environmentRef := None, x_desiredState := WantStopped,
         x_observedState := ObsAbsent, x_desiredAppRevisionId := None, x_desiredLaunchArtifactId := None,
         x_desiredLaunchArtifactReference := None, x_launchArtifactId := None, x_launchArtifactReference := None,
         x_transactionStatus := TxApplied, x_legacyEndpoint := None, x_stopReason := None,
         x_retiredAt := Some now, x_updatedAt := now\<rparr>,
       p_runtimeId := ''deleted'', p_status := Stopped\<rparr>"

definition begin_deletion :: "exec_world \<Rightarrow> deletion_input \<Rightarrow> projection exec" where
  "begin_deletion wd input =
     act_bind (act_of (execution_transaction_id (ew_digest wd) (di_workspaceId input)
                 (case di_transactionKey input of Some k \<Rightarrow> k | None \<Rightarrow> ''workspace-delete''))) (\<lambda>requested.
     attempts max_cas_attempts
       (act_bind (exec_projection wd (di_workspaceId input)) (\<lambda>current.
        if w_status (p_workspace current) \<noteq> WsActive then act_ret (Some current)
        else act_bind (exec_clock wd) (\<lambda>now. exec_save wd current (with_deletion requested now current))))
       state_conflict)"

definition advance_deletion :: "exec_world \<Rightarrow> projection \<Rightarrow> deletion_phase \<Rightarrow> deletion_phase \<Rightarrow> projection exec" where
  "advance_deletion wd current expectedPhase nextPhase =
     attempts max_cas_attempts
       (act_bind (exec_projection wd (w_id (p_workspace current))) (\<lambda>latest.
        if w_status (p_workspace latest) = WsDeleted then act_ret (Some latest)
        else if w_deletionTransactionId (p_workspace latest) \<noteq> w_deletionTransactionId (p_workspace current)
        then act_throw (StateError ''workspace_deletion_transaction_conflict'')
        else if w_deletionPhase (p_workspace latest) \<noteq> Some expectedPhase then act_ret (Some latest)
        else act_bind (exec_clock wd) (\<lambda>now. exec_save wd latest (with_phase nextPhase now latest))))
       state_conflict"

definition finalize_deletion :: "exec_world \<Rightarrow> projection \<Rightarrow> projection exec" where
  "finalize_deletion wd current =
     attempts max_cas_attempts
       (act_bind (exec_projection wd (w_id (p_workspace current))) (\<lambda>latest.
        if w_status (p_workspace latest) = WsDeleted then act_ret (Some latest)
        else if w_deletionTransactionId (p_workspace latest) \<noteq> w_deletionTransactionId (p_workspace current)
           \<or> w_deletionPhase (p_workspace latest) \<noteq> Some PhFinalizing
        then act_throw (StateError ''workspace_deletion_transaction_conflict'')
        else act_bind (exec_clock wd) (\<lambda>now. exec_save wd latest (deleted_projection now latest))))
       state_conflict"

definition record_deletion_failure :: "exec_world \<Rightarrow> projection \<Rightarrow> exec_error \<Rightarrow> unit exec" where
  "record_deletion_failure wd current e =
     attempts max_cas_attempts
       (act_bind (exec_read wd (\<lambda>m. get_projection m (w_id (p_workspace current)))) (\<lambda>r.
        case r of
          None \<Rightarrow> act_ret (Some ())
        | Some latest \<Rightarrow>
            act_bind (exec_note (Got latest)) (\<lambda>_.
            if w_status (p_workspace latest) \<noteq> WsDeleting
               \<or> w_deletionTransactionId (p_workspace latest) \<noteq> w_deletionTransactionId (p_workspace current)
            then act_ret (Some ())
            else act_bind (exec_clock wd) (\<lambda>now.
                 act_bind (exec_save wd latest (with_deletion_failure e now latest)) (\<lambda>saved.
                   act_ret (if saved = None then None else Some ()))))))
       (act_ret ())"

definition check_no_references :: "exec_world \<Rightarrow> projection \<Rightarrow> unit exec" where
  "check_no_references wd p =
     act_bind (exec_read wd (\<lambda>m. Inr (count_live_storage_references m (w_storageRefId (p_workspace p)) (w_id (p_workspace p)))))
       (\<lambda>n. act_bind (exec_note (Counted (w_storageRefId (p_workspace p)) (w_id (p_workspace p)) n)) (\<lambda>_.
          if n \<noteq> 0 then act_throw (StateError ''workspace_storage_still_referenced'') else act_ret ()))"

definition release_storage :: "exec_world \<Rightarrow> projection \<Rightarrow> storage_binding \<Rightarrow> unit exec" where
  "release_storage wd p b =
     act_bind (exec_note (Releasing (storage_request_for p) b)) (\<lambda>_.
     act_bind (exec_call wd (\<lambda>n. ew_release wd n (storage_request_for p) b)) (\<lambda>_.
       exec_note (Released (storage_request_for p))))"

text \<open>The body of the loop: the work of one phase, and the step to the next.\<close>

definition deletion_phase_step :: "exec_world \<Rightarrow> string \<Rightarrow> projection \<Rightarrow> string \<Rightarrow> deletion_phase \<Rightarrow> projection exec" where
  "deletion_phase_step wd workspaceId current transactionId phase =
     (if phase = PhDraining then
        act_bind (exec_call wd (\<lambda>n. ew_drain_begin wd n workspaceId transactionId)) (\<lambda>begun.
          if \<not> begun then act_throw (StateError ''workspace_deletion_drain_conflict'')
          else act_bind (exec_note (DrainBegan workspaceId transactionId)) (\<lambda>_.
               advance_deletion wd current PhDraining PhRemovingEnvironments))
      else if phase = PhRemovingEnvironments then
        act_bind (resolve_binding wd current) (\<lambda>binding.
        act_bind (check_no_references wd current) (\<lambda>_.
        act_bind (remove_environment wd current binding) (\<lambda>_.
          advance_deletion wd current PhRemovingEnvironments PhVerifyingReferences)))
      else if phase = PhVerifyingReferences then
        act_bind (check_no_references wd current) (\<lambda>_.
          advance_deletion wd current PhVerifyingReferences PhReleasingStorage)
      else if phase = PhReleasingStorage then
        act_bind (resolve_binding wd current) (\<lambda>binding.
        act_bind (check_no_references wd current) (\<lambda>_.
        act_bind (release_storage wd current binding) (\<lambda>_.
          advance_deletion wd current PhReleasingStorage PhFinalizing)))
      else finalize_deletion wd current)"

text \<open>
  \<open>while (current.workspace.status === "deleting")\<close>; the fuel bounds the rounds, and None says
  that it was not enough.
\<close>

fun deletion_loop :: "exec_world \<Rightarrow> nat \<Rightarrow> string \<Rightarrow> projection \<Rightarrow> projection option exec" where
  "deletion_loop wd 0 workspaceId current =
     act_ret (if w_status (p_workspace current) \<noteq> WsDeleting then Some current else None)"
| "deletion_loop wd (Suc fuel) workspaceId current =
     (if w_status (p_workspace current) \<noteq> WsDeleting then act_ret (Some current)
      else case (w_deletionTransactionId (p_workspace current), w_deletionPhase (p_workspace current)) of
        (Some transactionId, Some phase) \<Rightarrow>
          if transactionId = [] \<or> phase = PhDeleted
          then act_throw (StateError ''workspace_deletion_state_invalid'')
          else act_case (deletion_phase_step wd workspaceId current transactionId phase)
            (\<lambda>e. act_bind (exec_aborted wd) (\<lambda>aborted.
               if aborted then act_throw SignalReason
               else act_bind (record_deletion_failure wd current e) (\<lambda>_. act_throw e)))
            (deletion_loop wd fuel workspaceId)
      | _ \<Rightarrow> act_throw (StateError ''workspace_deletion_state_invalid''))"

declare deletion_loop.simps [simp del]

definition delete_workspace :: "exec_world \<Rightarrow> nat \<Rightarrow> deletion_input \<Rightarrow> projection option exec" where
  "delete_workspace wd fuel input =
     act_bind (exec_throw_if_aborted wd) (\<lambda>_.
     act_bind (begin_deletion wd input) (\<lambda>begun.
     act_bind (deletion_loop wd fuel (di_workspaceId input) begun) (\<lambda>r.
     case r of
       None \<Rightarrow> act_ret None
     | Some current \<Rightarrow>
         (case w_deletionTransactionId (p_workspace current) of
            None \<Rightarrow> act_ret (Some current)
          | Some t \<Rightarrow>
              if t = [] then act_ret (Some current)
              else act_bind (exec_call wd (\<lambda>n. ew_drain_clear wd n (w_id (p_workspace current)) t)) (\<lambda>_.
                   act_bind (exec_note (DrainCleared (w_id (p_workspace current)) t)) (\<lambda>_. act_ret (Some current)))))))"

end
