(* ===== verification/Execution_Safety.thy ===== *)
theory Execution_Safety
  imports Execution_Manager
begin

text \<open>
  What the workspace execution manager guarantees in every world, that is for every
  interference of other processes between its store accesses and every answer of the provider,
  the storage and the drain. Shown: each write moves a workspace along the machine of its
  deletion, after the work of the phase; the storage of a workspace is released only in its
  phase and right after no other workspace was found to use it; the provider sees only intents
  the store holds, and only the result of the current transaction is written back.
\<close>

section \<open>Rules for the effects\<close>

lemma after_True [simp]: "after a (\<lambda>_ _. True) (\<lambda>_ _. True) s"
  by (simp add: after_def split: prod.split sum.split)

lemma after_exec_note [simp]: "after (exec_note e) Q E s = Q () (s\<lparr>er_log := e # er_log s\<rparr>)"
  by (simp add: after_def exec_note_def)

lemma after_exec_wait: "after (exec_wait wd) Q E s =
    Q (er_step s) (s\<lparr>er_mem := ew_env wd (er_step s) (er_mem s), er_step := Suc (er_step s)\<rparr>)"
  by (simp add: after_def exec_wait_def)

lemma after_exec_clock [simp]:
  "after (exec_clock wd) Q E s = Q (ew_now wd (er_step s)) (s\<lparr>er_step := Suc (er_step s)\<rparr>)"
  by (simp add: after_def exec_clock_def)

lemma after_exec_fresh_id [simp]:
  "after (exec_fresh_id wd) Q E s = Q (ew_id wd (er_step s)) (s\<lparr>er_step := Suc (er_step s)\<rparr>)"
  by (simp add: after_def exec_fresh_id_def)

lemma after_exec_aborted [simp]: "after (exec_aborted wd) Q E s = Q (ew_aborted wd (er_step s)) s"
  by (simp add: after_def exec_aborted_def)

lemma after_exec_throw_if_aborted [simp]:
  "after (exec_throw_if_aborted wd) Q E s = (if ew_aborted wd (er_step s) then E SignalReason s else Q () s)"
  by (simp add: exec_throw_if_aborted_def)

lemma after_state_conflict [simp]:
  "after state_conflict Q E = E (StateError ''workspace_execution_state_conflict'')"
  by (simp add: state_conflict_def)

text \<open>A run seen from the store and the log: \<open>waited\<close> is a run after the environment had its turn.\<close>

definition waited :: "exec_world \<Rightarrow> exec_run \<Rightarrow> exec_run" where
  "waited wd s = s\<lparr>er_mem := ew_env wd (er_step s) (er_mem s), er_step := Suc (er_step s)\<rparr>"

lemma waited_log [simp]: "er_log (waited wd s) = er_log s"
  by (simp add: waited_def)

lemma after_exec_call:
  "after (exec_call wd f) Q E s = (case f (er_step s) of Inl e \<Rightarrow> E e (waited wd s) | Inr x \<Rightarrow> Q x (waited wd s))"
  by (simp add: exec_call_def after_exec_wait waited_def split: sum.split)

lemma after_exec_read:
  "after (exec_read wd f) Q E s =
     (case f (er_mem (waited wd s)) of Inl e \<Rightarrow> E (StoreError e) (waited wd s) | Inr x \<Rightarrow> Q x (waited wd s))"
  by (simp add: exec_read_def act_bind_def act_case_def exec_wait_def waited_def after_def act_throw_def split: sum.split)

lemma after_exec_save:
  "after (exec_save wd current nxt) Q E s =
     (case cas_execution (er_mem (waited wd s)) nxt (x_revision (p_execution current)) of
        (m, Inl e) \<Rightarrow> E (StoreError e) ((waited wd s)\<lparr>er_mem := m\<rparr>)
      | (m, Inr None) \<Rightarrow> Q None ((waited wd s)\<lparr>er_mem := m\<rparr>)
      | (m, Inr (Some saved)) \<Rightarrow>
          Q (Some saved) ((waited wd s)\<lparr>er_mem := m, er_log := Saved current saved # er_log (waited wd s)\<rparr>))"
  by (simp add: exec_save_def act_bind_def act_case_def exec_wait_def waited_def after_def act_throw_def
      split: prod.split sum.split option.split)

lemma after_attempts:
  assumes body: "\<And>s. I s \<Longrightarrow> after body (\<lambda>r s. case r of Some x \<Rightarrow> Q x s | None \<Rightarrow> I s) E s"
    and giveUp: "\<And>s. I s \<Longrightarrow> after giveUp Q E s" and start: "I s"
  shows "after (attempts n body giveUp) Q E s"
  using start
proof (induction n arbitrary: s)
  case 0
  then show ?case by (simp add: giveUp)
next
  case (Suc n)
  have "after body (\<lambda>r. after (case r of Some x \<Rightarrow> act_ret x | None \<Rightarrow> attempts n body giveUp) Q E) E s"
    by (rule after_mono [OF body [OF Suc.prems]]) (use Suc.IH in \<open>auto split: option.splits\<close>)
  then show ?case by simp
qed

text \<open>What a successful save stores is what was to be saved, with the next revision and a later activity stamp.\<close>

definition saved_as :: "projection \<Rightarrow> projection \<Rightarrow> projection \<Rightarrow> bool" where
  "saved_as current nxt q \<longleftrightarrow>
     (\<exists>t. q = set_activity t (nxt\<lparr>p_execution := (p_execution nxt)\<lparr>x_revision := x_revision (p_execution current) + 1\<rparr>\<rparr>))
     \<and> projection_valid q"

text \<open>What is relied on: other processes keep the invariant of the store, as its methods do.\<close>

definition exec_rely :: "exec_world \<Rightarrow> bool" where
  "exec_rely wd \<longleftrightarrow> (\<forall>n m. workspaces_inv m \<longrightarrow> workspaces_inv (ew_env wd n m))"

abbreviation mem_ok :: "exec_run \<Rightarrow> bool" where
  "mem_ok s \<equiv> workspaces_inv (er_mem s)"

lemma waited_ok: "exec_rely wd \<Longrightarrow> mem_ok s \<Longrightarrow> mem_ok (waited wd s)"
  by (simp add: exec_rely_def waited_def)

lemma exec_save_rule:
  assumes "exec_rely wd" "mem_ok s"
    and "\<And>s'. er_log s' = er_log s \<Longrightarrow> mem_ok s' \<Longrightarrow> Q None s'"
    and "\<And>e s'. er_log s' = er_log s \<Longrightarrow> mem_ok s' \<Longrightarrow> E e s'"
    and "\<And>q s'. saved_as current nxt q \<Longrightarrow> er_log s' = Saved current q # er_log s \<Longrightarrow> mem_ok s' \<Longrightarrow> Q (Some q) s'"
  shows "after (exec_save wd current nxt) Q E s"
proof -
  let ?cas = "cas_execution (er_mem (waited wd s)) nxt (x_revision (p_execution current))"
  have saved: "saved_as current nxt q" if "?cas = (m, Inr (Some q))" for m q
    using that by (rule cas_execution_Some) (auto simp: saved_as_def)
  have "workspaces_inv (fst ?cas)"
    using waited_ok [OF assms(1,2)] by (rule cas_execution_inv)
  then have "workspaces_inv m" if "?cas = (m, r)" for m r using that by simp
  with saved show ?thesis
    using assms(3-5) by (auto simp: after_exec_save split: prod.split sum.split option.split)
qed

lemma get_projection_stored:
  "get_projection m i = Inr (Some p) \<Longrightarrow> js_get (m_workspaceExecutions m) i = Some p \<and> projection_valid p"
  by (auto simp: get_projection_def require_projection_def rbind_Inr_iff project_execution_Inr
      split: option.splits if_splits)

lemma get_projection_id: "workspaces_inv m \<Longrightarrow> get_projection m i = Inr (Some p) \<Longrightarrow> w_id (p_workspace p) = i"
  using get_projection_stored [of m i p] by (simp add: workspaces_inv_def)

lemma exec_projection_rule:
  assumes "exec_rely wd" "mem_ok s"
    and "\<And>p s'. projection_valid p \<Longrightarrow> w_id (p_workspace p) = i \<Longrightarrow> er_log s' = Got p # er_log s \<Longrightarrow> mem_ok s' \<Longrightarrow> Q p s'"
    and "\<And>e s'. er_log s' = er_log s \<Longrightarrow> mem_ok s' \<Longrightarrow> E e s'"
  shows "after (exec_projection wd i) Q E s"
  using assms(3,4) waited_ok [OF assms(1,2)] get_projection_stored [of "er_mem (waited wd s)" i]
    get_projection_id [of "er_mem (waited wd s)" i]
  by (auto simp: exec_projection_def after_exec_read split: sum.split option.split)

lemma active_projection_rule:
  assumes "exec_rely wd" "mem_ok s"
    and "\<And>p s'. projection_valid p \<Longrightarrow> w_id (p_workspace p) = i \<Longrightarrow> w_status (p_workspace p) = WsActive
      \<Longrightarrow> er_log s' = Got p # er_log s \<Longrightarrow> mem_ok s' \<Longrightarrow> Q p s'"
    and "\<And>e p s'. er_log s' = er_log s \<or> er_log s' = Got p # er_log s \<Longrightarrow> mem_ok s' \<Longrightarrow> E e s'"
  shows "after (active_projection wd i) Q E s"
  unfolding active_projection_def after_bind
  by (rule exec_projection_rule [OF assms(1,2)]) (auto simp: check_active_def intro: assms(3,4))

lemma exec_call_rule:
  assumes "exec_rely wd" "mem_ok s"
    and "\<And>x s'. er_log s' = er_log s \<Longrightarrow> mem_ok s' \<Longrightarrow> Q x s'" "\<And>e s'. er_log s' = er_log s \<Longrightarrow> mem_ok s' \<Longrightarrow> E e s'"
  shows "after (exec_call wd f) Q E s"
  using assms(3,4) waited_ok [OF assms(1,2)] by (auto simp: after_exec_call split: sum.split)

lemma resolve_binding_rule:
  assumes "exec_rely wd" "mem_ok s"
    and "\<And>b s'. sb_storageId b = w_storageRefId (p_workspace p) \<Longrightarrow> er_log s' = er_log s \<Longrightarrow> mem_ok s' \<Longrightarrow> Q b s'"
    and "\<And>e s'. er_log s' = er_log s \<Longrightarrow> mem_ok s' \<Longrightarrow> E e s'"
  shows "after (resolve_binding wd p) Q E s"
  unfolding resolve_binding_def after_bind
  by (rule exec_call_rule [OF assms(1,2)]) (auto intro: assms(3,4))

lemma check_no_references_rule:
  assumes "exec_rely wd" "mem_ok s"
    and "\<And>s'. er_log s' = Counted (w_storageRefId (p_workspace p)) (w_id (p_workspace p)) 0 # er_log s \<Longrightarrow> mem_ok s' \<Longrightarrow> Q () s'"
    and "\<And>e n s'. er_log s' = Counted (w_storageRefId (p_workspace p)) (w_id (p_workspace p)) n # er_log s \<Longrightarrow> mem_ok s' \<Longrightarrow> E e s'"
  shows "after (check_no_references wd p) Q E s"
  using assms(3,4) waited_ok [OF assms(1,2)] by (auto simp: check_no_references_def after_exec_read)

section \<open>What justifies an event\<close>

text \<open>The phases of a deletion in their order.\<close>

fun phase_rank :: "deletion_phase \<Rightarrow> nat" where
  "phase_rank PhDraining = 0"
| "phase_rank PhRemovingEnvironments = 1"
| "phase_rank PhVerifyingReferences = 2"
| "phase_rank PhReleasingStorage = 3"
| "phase_rank PhFinalizing = 4"
| "phase_rank PhDeleted = 5"

text \<open>The machine a workspace goes through: live, the phases one by one under one transaction, deleted.\<close>

definition deletion_move :: "workspace \<Rightarrow> workspace \<Rightarrow> bool" where
  "deletion_move w v \<longleftrightarrow>
     w_id v = w_id w
     \<and> (case w_status w of
          WsActive \<Rightarrow> w_status v = WsActive \<or> w_status v = WsDeleting \<and> w_deletionPhase v = Some PhDraining
        | WsDeleting \<Rightarrow>
            w_deletionTransactionId v = w_deletionTransactionId w
            \<and> (\<exists>a b. w_deletionPhase w = Some a \<and> w_deletionPhase v = Some b
                 \<and> (phase_rank b = phase_rank a \<or> phase_rank b = Suc (phase_rank a))
                 \<and> (w_status v = WsDeleting \<or> w_status v = WsDeleted \<and> b = PhDeleted))
        | WsDeleted \<Rightarrow> False)"

text \<open>The work of a phase, as it shows in the log.\<close>

fun work_of :: "deletion_phase \<Rightarrow> string \<Rightarrow> exec_event \<Rightarrow> bool" where
  "work_of PhDraining i (DrainBegan j _) = (j = i)"
| "work_of PhRemovingEnvironments i (Removed r) = (er_workspaceId r = i)"
| "work_of PhVerifyingReferences i (Counted _ j n) = (j = i \<and> n = 0)"
| "work_of PhReleasingStorage i (Released r) = (sq_workspaceId r = i)"
| "work_of PhFinalizing _ _ = True"
| "work_of _ _ _ = False"

definition work_done :: "deletion_phase \<Rightarrow> string \<Rightarrow> exec_event list \<Rightarrow> bool" where
  "work_done phase i past \<longleftrightarrow> phase = PhFinalizing \<or> list_ex (work_of phase i) past"

text \<open>Generations: each of the three only moves as the protocol says.\<close>

definition generation_move :: "exec_event list \<Rightarrow> execution \<Rightarrow> execution \<Rightarrow> bool" where
  "generation_move past x y \<longleftrightarrow>
     (x_desiredGeneration y = x_desiredGeneration x
      \<or> x_desiredGeneration y = x_desiredGeneration x + 1 \<and> x_transactionId y \<noteq> x_transactionId x)
     \<and> (x_deployedGeneration y = x_deployedGeneration x
        \<or> x_deployedGeneration y = x_desiredGeneration x
          \<and> (\<exists>rq res. Answered rq res \<in> set past \<and> rr_generation res = x_desiredGeneration x
               \<and> x_transactionId x = Some (rr_transactionId res) \<and> rr_status res \<noteq> RsRolledBack))
     \<and> (x_healthyGeneration y = x_healthyGeneration x
        \<or> x_healthyGeneration y = Some (x_deployedGeneration y) \<and> x_observedState y = Obs Running)"

fun shown_projection :: "exec_event \<Rightarrow> projection option" where
  "shown_projection (Got p) = Some p"
| "shown_projection (Saved p q) = Some q"
| "shown_projection _ = None"

definition releases_safely :: "storage_request \<Rightarrow> storage_binding \<Rightarrow> exec_event list \<Rightarrow> bool" where
  "releases_safely rq b past \<longleftrightarrow>
     sb_storageId b = sr_id (sq_storageRef rq)
     \<and> (\<exists>e rest p. past = Counted (sr_id (sq_storageRef rq)) (sq_workspaceId rq) 0 # e # rest
          \<and> shown_projection e = Some p \<and> rq = storage_request_for p
          \<and> w_status (p_workspace p) = WsDeleting \<and> w_deletionPhase (p_workspace p) = Some PhReleasingStorage)"

definition intent_held :: "reconcile_request \<Rightarrow> exec_event list \<Rightarrow> bool" where
  "intent_held rq past \<longleftrightarrow>
     (\<exists>p q rest. past = Saved p q # rest
        \<and> w_status (p_workspace q) = WsActive
        \<and> w_ownerId (p_workspace q) = er_ownerId (rq_environment rq)
        \<and> x_transactionId (p_execution q) = Some (rq_transactionId rq)
        \<and> x_transactionStatus (p_execution q) = TxProgressing
        \<and> x_desiredGeneration (p_execution q) = rq_desiredGeneration rq
        \<and> x_desiredState (p_execution q) = rq_desiredState rq
        \<and> x_desiredAppRevisionId (p_execution q) = rq_appRevisionId rq
        \<and> x_desiredLaunchArtifactId (p_execution q) = rq_launchArtifactId rq
        \<and> x_desiredLaunchArtifactReference (p_execution q) = Some (rq_launchArtifactReference rq)
        \<and> (\<forall>b \<in> set (er_storageBindings (rq_environment rq)). sb_storageId b = w_storageRefId (p_workspace q)))"

fun justified :: "exec_event \<Rightarrow> exec_event list \<Rightarrow> bool" where
  "justified (Saved p q) past \<longleftrightarrow>
     Got p \<in> set past \<and> deletion_move (p_workspace p) (p_workspace q)
     \<and> (\<forall>a. w_deletionPhase (p_workspace p) = Some a \<and> w_deletionPhase (p_workspace q) \<noteq> Some a
           \<longrightarrow> work_done a (w_id (p_workspace p)) past)
     \<and> generation_move past (p_execution p) (p_execution q)"
| "justified (Releasing rq b) past = releases_safely rq b past"
| "justified (Released rq) past = (\<exists>b. Releasing rq b \<in> set past)"
| "justified (Reconciling rq) past = intent_held rq past"
| "justified _ past = True"

fun log_ok :: "exec_event list \<Rightarrow> bool" where
  "log_ok [] = True"
| "log_ok (e # past) = (justified e past \<and> log_ok past)"

lemma log_ok_split: "log_ok (later @ e # earlier) \<Longrightarrow> justified e earlier"
  by (induction later) auto

section \<open>Each write is justified\<close>

lemma saved_as_fields:
  assumes "saved_as c nxt q"
  shows "projection_valid q" "p_workspace q = p_workspace nxt"
    "x_desiredGeneration (p_execution q) = x_desiredGeneration (p_execution nxt)"
    "x_deployedGeneration (p_execution q) = x_deployedGeneration (p_execution nxt)"
    "x_healthyGeneration (p_execution q) = x_healthyGeneration (p_execution nxt)"
    "x_transactionId (p_execution q) = x_transactionId (p_execution nxt)"
    "x_transactionStatus (p_execution q) = x_transactionStatus (p_execution nxt)"
    "x_observedState (p_execution q) = x_observedState (p_execution nxt)"
    "x_desiredState (p_execution q) = x_desiredState (p_execution nxt)"
    "x_desiredAppRevisionId (p_execution q) = x_desiredAppRevisionId (p_execution nxt)"
    "x_desiredLaunchArtifactId (p_execution q) = x_desiredLaunchArtifactId (p_execution nxt)"
    "x_desiredLaunchArtifactReference (p_execution q) = x_desiredLaunchArtifactReference (p_execution nxt)"
    "x_providerId (p_execution q) = x_providerId (p_execution nxt)"
    "x_environmentRef (p_execution q) = x_environmentRef (p_execution nxt)"
    "x_launchArtifactReference (p_execution q) = x_launchArtifactReference (p_execution nxt)"
  using assms by (auto simp: saved_as_def set_activity_def)

text \<open>A write that leaves the generations alone, or moves them as \<open>generation_move\<close> says, and is no step of a deletion.\<close>

lemma live_write_ok:
  assumes "saved_as p nxt q" "projection_valid p" "w_status (p_workspace p) = WsActive" "Got p \<in> set past"
    and "w_status (p_workspace nxt) = WsActive" "w_id (p_workspace nxt) = w_id (p_workspace p)"
    and "generation_move past (p_execution p) (p_execution q)"
  shows "justified (Saved p q) past"
  using assms(2-7) saved_as_fields(2) [OF assms(1)]
  by (simp add: deletion_move_def projection_valid_def valid_deletion_state_def)

lemma saved_intent_ok:
  assumes "saved_as p (with_intent input t now p) q" "projection_valid p" "w_status (p_workspace p) = WsActive" "Got p \<in> set past"
  shows "justified (Saved p q) past"
  by (rule live_write_ok [OF assms])
    (auto simp: generation_move_def saved_as_fields [OF assms(1)] with_intent_def Let_def assms(3))

lemma with_result_fields:
  assumes "with_result input res now p = Inr nxt"
  shows "w_status (p_workspace nxt) = w_status (p_workspace p) \<and> w_id (p_workspace nxt) = w_id (p_workspace p)
    \<and> x_desiredGeneration (p_execution nxt) = x_desiredGeneration (p_execution p)
    \<and> x_transactionId (p_execution nxt) = x_transactionId (p_execution p)
    \<and> x_deployedGeneration (p_execution nxt) =
         (if rr_status res = RsRolledBack then x_deployedGeneration (p_execution p) else rr_generation res)
    \<and> x_observedState (p_execution nxt) = pe_observedState (rr_execution res)
    \<and> x_healthyGeneration (p_execution nxt) =
         (if rr_status res \<noteq> RsRolledBack \<and> pe_observedState (rr_execution res) = Obs Running
          then Some (rr_generation res) else x_healthyGeneration (p_execution p))"
proof (cases "rr_status res = RsRolledBack")
  case True
  with assms show ?thesis by (auto simp: with_result_def Let_def rbind_Inr_iff)
next
  case False
  with assms show ?thesis by (auto simp: with_result_def Let_def rbind_Inr_iff)
qed

lemma saved_result_ok:
  assumes "saved_as p nxt q" "with_result input res now p = Inr nxt" "projection_valid p"
    "w_status (p_workspace p) = WsActive" "Got p \<in> set past" "Answered rq res \<in> set past"
    "x_transactionId (p_execution p) = Some (rr_transactionId res)" "x_desiredGeneration (p_execution p) = rr_generation res"
  shows "justified (Saved p q) past"
proof (rule live_write_ok [OF assms(1,3-5)])
  show "generation_move past (p_execution p) (p_execution q)"
    using assms(6-8) by (auto simp: generation_move_def saved_as_fields [OF assms(1)] with_result_fields [OF assms(2)])
qed (simp_all add: with_result_fields [OF assms(2)] assms(4))

lemma saved_failure_ok:
  assumes "saved_as p (with_failure e now p) q" "projection_valid p" "w_status (p_workspace p) = WsActive" "Got p \<in> set past"
  shows "justified (Saved p q) past"
  by (rule live_write_ok [OF assms])
    (auto simp: generation_move_def saved_as_fields [OF assms(1)] with_failure_def assms(3))

lemma with_legacy_fields:
  "w_status (p_workspace (with_legacy c p)) = w_status (p_workspace p)"
  "w_id (p_workspace (with_legacy c p)) = w_id (p_workspace p)"
  "x_desiredGeneration (p_execution (with_legacy c p)) = x_desiredGeneration (p_execution p)"
  "x_deployedGeneration (p_execution (with_legacy c p)) = x_deployedGeneration (p_execution p)"
  "x_transactionId (p_execution (with_legacy c p)) = x_transactionId (p_execution p)"
  "x_observedState (p_execution (with_legacy c p)) = Obs (c_status c)"
  "x_healthyGeneration (p_execution (with_legacy c p)) =
     (if c_status c = Running
      then Some (max (case x_healthyGeneration (p_execution p) of Some h \<Rightarrow> h | None \<Rightarrow> 0) (x_deployedGeneration (p_execution p)))
      else x_healthyGeneration (p_execution p))"
  by (simp_all add: with_legacy_def Let_def)

lemma saved_legacy_ok:
  assumes "saved_as p (with_legacy c p) q" "projection_valid p" "w_status (p_workspace p) = WsActive" "Got p \<in> set past"
  shows "justified (Saved p q) past"
proof (rule live_write_ok [OF assms])
  note fields = saved_as_fields [OF assms(1)] with_legacy_fields
  have "case x_healthyGeneration (p_execution q) of None \<Rightarrow> True | Some h \<Rightarrow> h \<le> x_deployedGeneration (p_execution q)"
    using saved_as_fields(1) [OF assms(1)] by (auto simp: projection_valid_def not_less split: option.splits)
  then show "generation_move past (p_execution p) (p_execution q)"
    by (auto simp: generation_move_def fields)
qed (simp_all add: with_legacy_fields assms(3))

lemma saved_deletion_ok:
  assumes "saved_as p (with_deletion t now p) q" "projection_valid p" "w_status (p_workspace p) = WsActive" "Got p \<in> set past"
  shows "justified (Saved p q) past"
  using assms(2-4)
  by (auto simp: saved_as_fields [OF assms(1)] with_deletion_def deletion_move_def generation_move_def
      projection_valid_def valid_deletion_state_def)

lemma deleting_of_phase:
  "projection_valid p \<Longrightarrow> w_status (p_workspace p) \<noteq> WsDeleted \<Longrightarrow> w_deletionPhase (p_workspace p) = Some a
     \<Longrightarrow> w_status (p_workspace p) = WsDeleting \<and> a \<noteq> PhDeleted"
  by (cases "w_status (p_workspace p)") (auto simp: projection_valid_def valid_deletion_state_def split: if_splits)

lemma saved_phase_ok:
  assumes "saved_as p (with_phase b now p) q" "projection_valid p" "w_status (p_workspace p) \<noteq> WsDeleted"
    "w_deletionPhase (p_workspace p) = Some a" "phase_rank b = Suc (phase_rank a)" "Got p \<in> set past"
    "work_done a (w_id (p_workspace p)) past"
  shows "justified (Saved p q) past"
  using assms(3-7) deleting_of_phase [OF assms(2-4)]
  by (auto simp: saved_as_fields [OF assms(1)] with_phase_def deletion_move_def generation_move_def)

lemma saved_deleted_ok:
  assumes "saved_as p (deleted_projection now p) q" "projection_valid p" "w_status (p_workspace p) \<noteq> WsDeleted"
    "w_deletionPhase (p_workspace p) = Some PhFinalizing" "Got p \<in> set past"
  shows "justified (Saved p q) past"
  using assms(5) deleting_of_phase [OF assms(2-4)] assms(4)
  by (auto simp: saved_as_fields [OF assms(1)] deleted_projection_def deletion_move_def generation_move_def work_done_def)

lemma saved_deletion_failure_ok:
  assumes "saved_as p (with_deletion_failure e now p) q" "projection_valid p" "w_status (p_workspace p) = WsDeleting" "Got p \<in> set past"
  shows "justified (Saved p q) past"
  using assms(2-4)
  by (cases "w_deletionPhase (p_workspace p)")
    (auto simp: saved_as_fields [OF assms(1)] with_deletion_failure_def deletion_move_def generation_move_def
      projection_valid_def valid_deletion_state_def)

text \<open>Whatever a call does, whether it returns or throws, the log stays justified.\<close>

definition run_ok :: "exec_run \<Rightarrow> bool" where
  "run_ok s \<longleftrightarrow> mem_ok s \<and> log_ok (er_log s)"

text \<open>What \<open>persist_intent\<close> returns: the stored intent, or a transaction that is completed already.\<close>

definition intent_post :: "reconcile_input \<Rightarrow> string \<Rightarrow> projection \<Rightarrow> exec_run \<Rightarrow> bool" where
  "intent_post input t p s \<longleftrightarrow>
     run_ok s \<and> projection_valid p \<and> w_status (p_workspace p) = WsActive
     \<and> (completed_transaction p input t
        \<or> (\<exists>c now rest. er_log s = Saved c p # rest \<and> saved_as c (with_intent input t now c) p
             \<and> w_ownerId (p_workspace c) = ri_ownerId input))"

text \<open>The projection a loop of the deletion goes on with is the last one seen.\<close>

definition deletion_post :: "string \<Rightarrow> projection \<Rightarrow> exec_run \<Rightarrow> bool" where
  "deletion_post i p s \<longleftrightarrow>
     run_ok s \<and> projection_valid p \<and> w_id (p_workspace p) = i \<and> (\<exists>e rest. er_log s = e # rest \<and> shown_projection e = Some p)"

lemma saved_as_valid: "saved_as c nxt q \<Longrightarrow> projection_valid q"
  by (simp add: saved_as_def)

lemma saved_as_id [simp]: "saved_as c nxt q \<Longrightarrow> w_id (p_workspace q) = w_id (p_workspace nxt)"
  by (auto simp: saved_as_def)

lemma with_ids [simp]:
  "w_id (p_workspace (with_deletion t now p)) = w_id (p_workspace p)"
  "w_id (p_workspace (with_phase ph now p)) = w_id (p_workspace p)"
  "w_id (p_workspace (deleted_projection now p)) = w_id (p_workspace p)"
  by (simp_all add: with_deletion_def with_phase_def deleted_projection_def)

lemma saved_intent_active:
  assumes "saved_as p (with_intent input t now p) q" "w_status (p_workspace p) = WsActive"
  shows "projection_valid q \<and> w_status (p_workspace q) = WsActive"
  using saved_as_fields(1,2) [OF assms(1)] assms(2) by (simp add: with_intent_def Let_def)

lemma intent_post_saved:
  assumes "saved_as c (with_intent input t now c) q" "projection_valid c" "w_status (p_workspace c) = WsActive"
    "w_ownerId (p_workspace c) = ri_ownerId input" "er_log s' = Saved c q # past" "Got c \<in> set past" "log_ok past" "mem_ok s'"
  shows "intent_post input t q s'"
proof -
  have "justified (Saved c q) past" using assms(1-3,6) by (rule saved_intent_ok)
  with assms saved_intent_active [OF assms(1,3)] show ?thesis by (auto simp: intent_post_def run_ok_def)
qed

lemma persist_intent_ok:
  assumes rely: "exec_rely wd" and "run_ok s"
  shows "after (persist_intent wd input t) (intent_post input t) (\<lambda>_. run_ok) s"
  unfolding persist_intent_def
proof (rule after_attempts [where I = run_ok], unfold after_bind, goal_cases)
  case (1 s)
  have completed: "intent_post input t p s'"
    if "completed_transaction p input t" "projection_valid p" "w_status (p_workspace p) = WsActive"
      "er_log s' = Got p # er_log s" "mem_ok s'" for p s'
    using that 1 by (simp add: intent_post_def run_ok_def)
  show ?case
  proof (rule active_projection_rule [OF rely])
    fix p s' assume p: "projection_valid p" "w_id (p_workspace p) = ri_workspaceId input" "w_status (p_workspace p) = WsActive"
      "er_log s' = Got p # er_log s" "mem_ok s'"
    show "after (let providerId = (case ri_providerId input of Some i \<Rightarrow> i | None \<Rightarrow> x_providerId (p_execution p))
        in act_bind (act_of (check_reconcile_identity p input providerId)) (\<lambda>_.
           if completed_transaction p input t then act_ret (Some p)
           else act_bind (exec_clock wd) (\<lambda>now. exec_save wd p (with_intent input t now p))))
       (\<lambda>r s. case r of Some x \<Rightarrow> intent_post input t x s | None \<Rightarrow> run_ok s) (\<lambda>_. run_ok) s'"
      using p 1 completed
      by (auto simp: check_reconcile_identity_def Let_def run_ok_def simp del: justified.simps(1)
          intro!: exec_save_rule [OF rely] intent_post_saved)
  qed (use 1 in \<open>auto simp: run_ok_def\<close>)
qed (use assms in auto)

lemma commit_result_ok:
  assumes rely: "exec_rely wd" and "run_ok s" "\<exists>rq. Answered rq res \<in> set (er_log s)"
  shows "after (commit_result wd input res) (\<lambda>_. run_ok) (\<lambda>_. run_ok) s"
  unfolding commit_result_def
proof (rule after_attempts [where I = "\<lambda>s. run_ok s \<and> (\<exists>rq. Answered rq res \<in> set (er_log s))"], unfold after_bind, goal_cases)
  case (1 s)
  show ?case
    by (rule active_projection_rule [OF rely])
      (use 1 in \<open>auto simp: run_ok_def simp del: justified.simps(1) split: sum.splits
        intro!: exec_save_rule [OF rely] saved_result_ok\<close>)
qed (use assms in auto)

lemma record_provider_failure_ok:
  assumes rely: "exec_rely wd" and "run_ok s"
  shows "after (record_provider_failure wd i t e) (\<lambda>_. run_ok) (\<lambda>_. run_ok) s"
  unfolding record_provider_failure_def
proof (rule after_attempts [where I = run_ok], unfold after_bind, goal_cases)
  case (1 s)
  show ?case
    by (rule exec_projection_rule [OF rely])
      (use 1 in \<open>auto simp: run_ok_def simp del: justified.simps(1) intro!: exec_save_rule [OF rely] saved_failure_ok\<close>)
qed (use assms in auto)

lemma persist_legacy_ok:
  assumes rely: "exec_rely wd" and "run_ok s"
  shows "after (persist_legacy_container wd c) (\<lambda>_. run_ok) (\<lambda>_. run_ok) s"
  unfolding persist_legacy_container_def
proof (rule after_attempts [where I = run_ok], unfold after_bind, goal_cases)
  case (1 s)
  show ?case
    by (rule active_projection_rule [OF rely])
      (use 1 in \<open>auto simp: run_ok_def project_execution_def check_legacy_identity_def simp del: justified.simps(1)
        intro!: exec_save_rule [OF rely] saved_legacy_ok\<close>)
qed (use assms in auto)

lemma begin_deletion_ok:
  assumes rely: "exec_rely wd" and "run_ok s"
  shows "after (begin_deletion wd input) (deletion_post (di_workspaceId input)) (\<lambda>_. run_ok) s"
proof -
  have "after (attempts max_cas_attempts
       (act_bind (exec_projection wd (di_workspaceId input)) (\<lambda>current.
        if w_status (p_workspace current) \<noteq> WsActive then act_ret (Some current)
        else act_bind (exec_clock wd) (\<lambda>now. exec_save wd current (with_deletion t now current))))
       state_conflict) (deletion_post (di_workspaceId input)) (\<lambda>_. run_ok) s" for t
  proof (rule after_attempts [where I = run_ok], unfold after_bind, goal_cases)
    case (1 s)
    show ?case
      by (rule exec_projection_rule [OF rely])
        (use 1 in \<open>auto simp: run_ok_def deletion_post_def simp del: justified.simps(1)
          intro!: exec_save_rule [OF rely] saved_deletion_ok dest: saved_as_valid\<close>)
  qed (use assms in auto)
  with assms show ?thesis by (simp add: begin_deletion_def split: sum.split)
qed

lemma advance_deletion_ok:
  assumes rely: "exec_rely wd" and "run_ok s" "list_ex (work_of a (w_id (p_workspace c))) (er_log s)"
    and next_phase: "phase_rank b = Suc (phase_rank a)"
  shows "after (advance_deletion wd c a b) (deletion_post (w_id (p_workspace c))) (\<lambda>_. run_ok) s"
  unfolding advance_deletion_def
proof (rule after_attempts [where I = "\<lambda>s. run_ok s \<and> list_ex (work_of a (w_id (p_workspace c))) (er_log s)"],
    unfold after_bind, goal_cases)
  case (1 s)
  show ?case
    by (rule exec_projection_rule [OF rely])
      (use 1 next_phase in \<open>auto simp: run_ok_def deletion_post_def work_done_def simp del: justified.simps(1)
        intro!: exec_save_rule [OF rely] saved_phase_ok dest: saved_as_valid\<close>)
qed (use assms in auto)

lemma finalize_deletion_ok:
  assumes rely: "exec_rely wd" and "run_ok s"
  shows "after (finalize_deletion wd c) (deletion_post (w_id (p_workspace c))) (\<lambda>_. run_ok) s"
  unfolding finalize_deletion_def
proof (rule after_attempts [where I = run_ok], unfold after_bind, goal_cases)
  case (1 s)
  show ?case
    by (rule exec_projection_rule [OF rely])
      (use 1 in \<open>auto simp: run_ok_def deletion_post_def simp del: justified.simps(1)
        intro!: exec_save_rule [OF rely] saved_deleted_ok dest: saved_as_valid\<close>)
qed (use assms in auto)

lemma record_deletion_failure_ok:
  assumes rely: "exec_rely wd" and "run_ok s"
  shows "after (record_deletion_failure wd c e) (\<lambda>_. run_ok) (\<lambda>_. run_ok) s"
  unfolding record_deletion_failure_def
proof (rule after_attempts [where I = run_ok], unfold after_bind, goal_cases)
  case (1 s)
  then show ?case
    using waited_ok [OF rely, of s] get_projection_stored [of "er_mem (waited wd s)" "w_id (p_workspace c)"]
    by (auto simp: run_ok_def after_exec_read simp del: justified.simps(1) split: sum.split option.split
        intro!: exec_save_rule [OF rely] saved_deletion_failure_ok)
qed (use assms in auto)

lemma deletion_phase_step_ok:
  assumes rely: "exec_rely wd" and c: "deletion_post i c s" "w_status (p_workspace c) = WsDeleting" "w_deletionPhase (p_workspace c) = Some phase"
    and phase: "phase \<noteq> PhDeleted"
  shows "after (deletion_phase_step wd i c t phase) (deletion_post i) (\<lambda>_. run_ok) s"
proof -
  have i: "w_id (p_workspace c) = i" and run: "run_ok s" using c(1) by (simp_all add: deletion_post_def)
  note advance = advance_deletion_ok [OF rely, where c = c, unfolded i]
  show ?thesis
  proof (cases phase)
    case PhDraining
    with run show ?thesis
      by (auto simp: deletion_phase_step_def run_ok_def intro!: exec_call_rule [OF rely] advance)
  next
    case PhRemovingEnvironments
    with run show ?thesis
      by (auto simp: deletion_phase_step_def remove_environment_def environment_request_for_def i run_ok_def Let_def
          intro!: resolve_binding_rule [OF rely] check_no_references_rule [OF rely] exec_call_rule [OF rely] advance)
  next
    case PhVerifyingReferences
    with run show ?thesis
      by (auto simp: deletion_phase_step_def i run_ok_def intro!: check_no_references_rule [OF rely] advance)
  next
    case PhReleasingStorage
    obtain e rest where e: "er_log s = e # rest" "shown_projection e = Some c" using c(1) by (auto simp: deletion_post_def)
    have released: "releases_safely (storage_request_for c) b (Counted (w_storageRefId (p_workspace c)) i 0 # e # rest)"
      if "sb_storageId b = w_storageRefId (p_workspace c)" for b
      using that e(2) c(2,3) PhReleasingStorage i
      by (simp add: releases_safely_def storage_request_for_def workspace_storage_ref_def)
    have sq: "sq_workspaceId (storage_request_for c) = i" by (simp add: storage_request_for_def i)
    from PhReleasingStorage run e(1) show ?thesis
      by (auto simp: deletion_phase_step_def release_storage_def i run_ok_def released sq ex_disj_distrib
          intro!: resolve_binding_rule [OF rely] check_no_references_rule [OF rely] exec_call_rule [OF rely] advance)
  next
    case PhFinalizing
    with run show ?thesis
      using finalize_deletion_ok [OF rely run, of c] by (simp add: deletion_phase_step_def i)
  next
    case PhDeleted
    with phase show ?thesis by simp
  qed
qed

text \<open>What the loop and the whole deletion end with, out of fuel or not.\<close>

definition loop_post :: "string \<Rightarrow> projection option \<Rightarrow> exec_run \<Rightarrow> bool" where
  "loop_post i r s \<longleftrightarrow>
     run_ok s \<and> (\<forall>p. r = Some p \<longrightarrow> projection_valid p \<and> w_id (p_workspace p) = i \<and> w_status (p_workspace p) \<noteq> WsDeleting)"

lemma loop_post_simps:
  "loop_post i None s = run_ok s"
  "loop_post i (Some p) s = (run_ok s \<and> projection_valid p \<and> w_id (p_workspace p) = i \<and> w_status (p_workspace p) \<noteq> WsDeleting)"
  by (simp_all add: loop_post_def)

lemma deletion_loop_ok:
  assumes rely: "exec_rely wd"
  shows "deletion_post i c s \<Longrightarrow> after (deletion_loop wd fuel i c) (loop_post i) (\<lambda>_. run_ok) s"
proof (induction fuel arbitrary: c s)
  case 0
  then show ?case by (subst deletion_loop.simps) (simp add: deletion_post_def loop_post_simps)
next
  case (Suc fuel)
  have run: "run_ok s" using Suc.prems by (simp add: deletion_post_def)
  show ?case
  proof (cases "w_status (p_workspace c) = WsDeleting")
    case True
    have step: "after (act_case (deletion_phase_step wd i c t ph)
        (\<lambda>e. act_bind (exec_aborted wd) (\<lambda>aborted. if aborted then act_throw SignalReason
             else act_bind (record_deletion_failure wd c e) (\<lambda>_. act_throw e)))
        (deletion_loop wd fuel i)) (loop_post i) (\<lambda>_. run_ok) s"
      if "w_deletionPhase (p_workspace c) = Some ph" "ph \<noteq> PhDeleted" for t ph
      unfolding after_case
      by (rule after_mono [OF deletion_phase_step_ok [OF rely Suc.prems True that]])
        (auto intro: Suc.IH record_deletion_failure_ok [OF rely])
    show ?thesis
      using run step by (subst deletion_loop.simps) (auto simp: True simp del: after_case split: option.split)
  next
    case False
    with Suc.prems show ?thesis by (subst deletion_loop.simps) (simp add: deletion_post_def loop_post_simps)
  qed
qed

lemma delete_workspace_ok:
  assumes rely: "exec_rely wd" and "run_ok s"
  shows "after (delete_workspace wd fuel input) (loop_post (di_workspaceId input)) (\<lambda>_. run_ok) s"
proof -
  let ?i = "di_workspaceId input"
  have clear: "after (case r of None \<Rightarrow> act_ret None
         | Some current \<Rightarrow>
            (case w_deletionTransactionId (p_workspace current) of
               None \<Rightarrow> act_ret (Some current)
             | Some t \<Rightarrow>
                if t = [] then act_ret (Some current)
                else act_bind (exec_call wd (\<lambda>n. ew_drain_clear wd n (w_id (p_workspace current)) t)) (\<lambda>_.
                     act_bind (exec_note (DrainCleared (w_id (p_workspace current)) t)) (\<lambda>_. act_ret (Some current)))))
       (loop_post ?i) (\<lambda>_. run_ok) s" if "loop_post ?i r s" for r s
    using that by (auto simp: run_ok_def loop_post_def split: option.splits intro!: exec_call_rule [OF rely])
  have "after (deletion_loop wd fuel ?i c)
      (\<lambda>r. after (case r of None \<Rightarrow> act_ret None
         | Some current \<Rightarrow>
            (case w_deletionTransactionId (p_workspace current) of
               None \<Rightarrow> act_ret (Some current)
             | Some t \<Rightarrow>
                if t = [] then act_ret (Some current)
                else act_bind (exec_call wd (\<lambda>n. ew_drain_clear wd n (w_id (p_workspace current)) t)) (\<lambda>_.
                     act_bind (exec_note (DrainCleared (w_id (p_workspace current)) t)) (\<lambda>_. act_ret (Some current)))))
       (loop_post ?i) (\<lambda>_. run_ok)) (\<lambda>_. run_ok) s"
    if "deletion_post ?i c s" for c s
    by (rule after_mono [OF deletion_loop_ok [OF rely that]]) (auto intro: clear)
  from after_mono [OF begin_deletion_ok [OF assms] this] assms(2) show ?thesis
    unfolding delete_workspace_def after_bind by (simp add: run_ok_def)
qed

lemma apply_intent_ok:
  assumes rely: "exec_rely wd" and post: "intent_post input t p s" and incomplete: "\<not> completed_transaction p input t"
  shows "after (apply_intent wd input t p) (\<lambda>_. run_ok) (\<lambda>_. run_ok) s"
proof -
  from post incomplete obtain c now rest where c: "er_log s = Saved c p # rest" "saved_as c (with_intent input t now c) p"
    "w_ownerId (p_workspace c) = ri_ownerId input" and run: "run_ok s" and active: "w_status (p_workspace p) = WsActive"
    by (auto simp: intent_post_def)
  have owner: "w_ownerId (p_workspace p) = ri_ownerId input"
    using c(3) saved_as_fields(2) [OF c(2)] by (simp add: with_intent_def Let_def)
  have held: "intent_held (reconcile_request_for wd input p t b) (Saved c p # rest)"
    if "sb_storageId b = w_storageRefId (p_workspace p)" for b
    using that active owner
    by (simp add: intent_held_def reconcile_request_for_def saved_as_fields [OF c(2)])
      (simp add: with_intent_def Let_def)
  show ?thesis
    using run c(1) held unfolding apply_intent_def
    by (auto simp: run_ok_def Let_def ex_disj_distrib intro!: resolve_binding_rule [OF rely] exec_call_rule [OF rely] commit_result_ok [OF rely])
qed

lemma exec_reconcile_ok:
  assumes rely: "exec_rely wd" and run: "run_ok s"
  shows "after (exec_reconcile wd input) (\<lambda>_. run_ok) (\<lambda>_. run_ok) s"
proof -
  have tail: "after (act_bind (persist_intent wd input t) (\<lambda>intent.
          if completed_transaction intent input t then act_ret intent
          else act_case (apply_intent wd input t intent)
            (\<lambda>e. if is_cancellation e then act_throw e
                 else act_bind (record_provider_failure wd (ri_workspaceId input) t e) (\<lambda>_. act_throw e))
            act_ret)) (\<lambda>_. run_ok) (\<lambda>_. run_ok) s" if "run_ok s" for t s
  proof -
    have "after (apply_intent wd input t p) (\<lambda>_. run_ok)
        (\<lambda>e. after (if is_cancellation e then act_throw e
                 else act_bind (record_provider_failure wd (ri_workspaceId input) t e) (\<lambda>_. act_throw e)) (\<lambda>_. run_ok) (\<lambda>_. run_ok)) s'"
      if "intent_post input t p s'" "\<not> completed_transaction p input t" for p s'
      by (rule after_mono [OF apply_intent_ok [OF rely that]])
        (auto intro: record_provider_failure_ok [OF rely])
    then have rest: "after (if completed_transaction p input t then act_ret p
          else act_case (apply_intent wd input t p)
            (\<lambda>e. if is_cancellation e then act_throw e
                 else act_bind (record_provider_failure wd (ri_workspaceId input) t e) (\<lambda>_. act_throw e))
            act_ret) (\<lambda>_. run_ok) (\<lambda>_. run_ok) s'" if "intent_post input t p s'" for p s'
      using that by (cases "completed_transaction p input t") (simp_all add: intent_post_def)
    show ?thesis unfolding after_bind
      by (rule after_mono [OF persist_intent_ok [OF rely that]]) (use rest in auto)
  qed
  show ?thesis
    using run unfolding exec_reconcile_def
    by (auto simp: Let_def run_ok_def split: option.split sum.split intro!: active_projection_rule [OF rely] tail [unfolded after_bind])
qed

lemma exec_remove_environment_ok:
  assumes rely: "exec_rely wd" and run: "run_ok s"
  shows "after (exec_remove_environment wd i) (\<lambda>_. run_ok) (\<lambda>_. run_ok) s"
  using run by (auto simp: exec_remove_environment_def remove_environment_def run_ok_def Let_def
     intro!: exec_projection_rule [OF rely] resolve_binding_rule [OF rely] exec_call_rule [OF rely])

section \<open>Calls\<close>

datatype manager_call =
    McReconcile reconcile_input
  | McLegacy container
  | McRemove string
  | McDelete nat deletion_input

definition start_run :: "mem \<Rightarrow> exec_run" where
  "start_run m = \<lparr>er_mem = m, er_step = 0, er_log = []\<rparr>"

fun run_call :: "exec_world \<Rightarrow> mem \<Rightarrow> manager_call \<Rightarrow> exec_run" where
  "run_call wd m (McReconcile input) = fst (exec_reconcile wd input (start_run m))"
| "run_call wd m (McLegacy c) = fst (persist_legacy_container wd c (start_run m))"
| "run_call wd m (McRemove i) = fst (exec_remove_environment wd i (start_run m))"
| "run_call wd m (McDelete fuel input) = fst (delete_workspace wd fuel input (start_run m))"

definition call_log :: "exec_world \<Rightarrow> mem \<Rightarrow> manager_call \<Rightarrow> exec_event list" where
  "call_log wd m c = er_log (run_call wd m c)"

lemma after_run: "after a (\<lambda>_. P) (\<lambda>_. P) s \<Longrightarrow> P (fst (a s))"
  by (auto simp: after_def split: prod.splits sum.splits)

lemma run_call_ok:
  assumes "exec_rely wd" "workspaces_inv m"
  shows "run_ok (run_call wd m c)"
proof -
  have start: "run_ok (start_run m)" using assms(2) by (simp add: run_ok_def start_run_def)
  have delete: "after (delete_workspace wd fuel input) (\<lambda>_. run_ok) (\<lambda>_. run_ok) (start_run m)" for fuel input
    by (rule after_mono [OF delete_workspace_ok [OF assms(1) start]]) (auto simp: loop_post_def)
  show ?thesis
    using after_run [OF exec_reconcile_ok [OF assms(1) start]] after_run [OF persist_legacy_ok [OF assms(1) start]]
      after_run [OF exec_remove_environment_ok [OF assms(1) start]] after_run [OF delete]
    by (cases c) auto
qed

lemma call_log_ok: "exec_rely wd \<Longrightarrow> workspaces_inv m \<Longrightarrow> log_ok (call_log wd m c)"
  using run_call_ok [of wd m c] by (simp add: call_log_def run_ok_def)

section \<open>Properties\<close>

text \<open>A world without interference whose provider does what it is asked to.\<close>

definition calm_world :: exec_world where
  "calm_world = \<lparr>ew_env = (\<lambda>_ m. m), ew_now = (\<lambda>n. 100 + int n), ew_id = (\<lambda>_. ''tx''),
     ew_aborted = (\<lambda>_. False), ew_digest = (\<lambda>_ _. replicate 64 (CHR ''a'')), ew_transportId = Some ''docker'',
     ew_binding = (\<lambda>_ rq. Inr \<lparr>sb_storageId = sr_id (sq_storageRef rq), sb_attachmentRef = ''volume'',
        sb_mountPath = ''/data'', sb_readOnly = False\<rparr>),
     ew_inspect = (\<lambda>_ _ _. Inr None), ew_observe = (\<lambda>_ _. Inr None),
     ew_reconcile = (\<lambda>_ rq. Inr \<lparr>rr_status = RsApplied, rr_generation = rq_desiredGeneration rq,
        rr_transactionId = rq_transactionId rq,
        rr_execution = \<lparr>pe_workspaceId = er_workspaceId (rq_environment rq), pe_ownerId = er_ownerId (rq_environment rq),
          pe_environmentRef = ''rt2'', pe_providerId = None, pe_observedState = Obs Running, pe_createdAt = 1,
          pe_catalogSnapshot = None, pe_transactionRecovered = False\<rparr>\<rparr>),
     ew_remove = (\<lambda>_ _. Inr ()), ew_release = (\<lambda>_ _ _. Inr ()), ew_drain_begin = (\<lambda>_ _ _. Inr True),
     ew_drain_clear = (\<lambda>_ _ _. Inr ()), ew_transactions = None\<rparr>"

definition one_workspace :: mem where
  "one_workspace = fst (save_container empty_mem sample_container)"

definition sample_profile :: launch_profile where
  "sample_profile = \<lparr>lp_imageReference = ''img:2'', lp_memory = ''1g'', lp_cpus = ''1'', lp_pidsLimit = 100,
     lp_environment = [], lp_configFiles = []\<rparr>"

definition sample_input :: reconcile_input where
  "sample_input = \<lparr>ri_workspaceId = ''w1'', ri_ownerId = ''u1'', ri_providerId = None, ri_artifactKind = None,
     ri_executionContract = None, ri_storageClass = None, ri_appId = ''notes'', ri_appRevisionId = Some ''v2'',
     ri_launchArtifactId = None, ri_launchArtifactReference = ''img:2'', ri_sourceCatalogSnapshot = None,
     ri_launchProfile = sample_profile, ri_desiredState = WantRunning, ri_replace = True,
     ri_transactionKey = Some ''upgrade''\<rparr>"

lemma calm_rely: "exec_rely calm_world"
  by (simp add: exec_rely_def calm_world_def)

lemma one_workspace_ok: "workspaces_inv one_workspace"
  by (simp add: one_workspace_def save_container_inv workspaces_inv_empty)

lemma sample_reconcile_events:
  "list_ex (\<lambda>e. case e of Saved p q \<Rightarrow> x_deployedGeneration (p_execution q) = 2 | _ \<Rightarrow> False) (call_log calm_world one_workspace (McReconcile sample_input))"
  "list_ex (\<lambda>e. case e of Reconciling rq \<Rightarrow> rq_desiredGeneration rq = 2 | _ \<Rightarrow> False) (call_log calm_world one_workspace (McReconcile sample_input))"
  by code_simp+

lemma list_ex_event:
  assumes "list_ex P es"
  obtains later e earlier where "es = later @ e # earlier" "P e"
  using assms split_list [of _ es] by (fastforce simp: list_ex_iff)

text \<open>C10: the provider acts only on intents the store holds. In every world as before, when a
  reconciliation asks the provider to act, the last thing done before was a write the store
  accepted, and what it stored is the intent the provider is asked for: the workspace is live
  and belongs to the owner in the request, its execution is in progress under the transaction of
  the request, at the generation, desired state and artifact of the request, and every storage
  attached is the storage of the workspace.\<close>

theorem provider_acts_on_held_intents:
  assumes "exec_rely wd" "workspaces_inv m" "call_log wd m c = later @ Reconciling rq # earlier"
  shows "intent_held rq earlier"
  using call_log_ok [OF assms(1,2), of c] log_ok_split [of later "Reconciling rq" earlier] assms(3) by simp

theorem provider_acts_on_held_intents_witness:
  "\<exists>later rq earlier. call_log calm_world one_workspace (McReconcile sample_input) = later @ Reconciling rq # earlier
     \<and> intent_held rq earlier"
proof -
  from list_ex_event [OF sample_reconcile_events(2)] obtain later e earlier where
    "call_log calm_world one_workspace (McReconcile sample_input) = later @ e # earlier" "case e of Reconciling rq \<Rightarrow> rq_desiredGeneration rq = 2 | _ \<Rightarrow> False" .
  then obtain rq where
    e: "call_log calm_world one_workspace (McReconcile sample_input) = later @ Reconciling rq # earlier"
    by (cases e) auto
  from provider_acts_on_held_intents [OF calm_rely one_workspace_ok e] e show ?thesis by blast
qed

text \<open>C11: generations move as the protocol says. In every world as before, a write of any method of the
  manager raises the desired generation by one at most, and only for a new transaction; it
  records a generation as deployed only when the provider has answered in this call, not with a
  rollback, for the transaction the workspace is still in and for exactly its desired
  generation, so that an answer to a superseded transaction is never recorded; and it records
  as healthy only the deployed generation, of an execution observed running.\<close>

theorem generations_follow_the_protocol:
  assumes "exec_rely wd" "workspaces_inv m" "call_log wd m c = later @ Saved p q # earlier"
  shows "generation_move earlier (p_execution p) (p_execution q)"
  using call_log_ok [OF assms(1,2), of c] log_ok_split [of later "Saved p q" earlier] assms(3) by simp

theorem generations_follow_the_protocol_witness:
  "\<exists>later p q earlier. call_log calm_world one_workspace (McReconcile sample_input) = later @ Saved p q # earlier
     \<and> x_deployedGeneration (p_execution q) = 2 \<and> generation_move earlier (p_execution p) (p_execution q)"
proof -
  from list_ex_event [OF sample_reconcile_events(1)] obtain later e earlier where
    "call_log calm_world one_workspace (McReconcile sample_input) = later @ e # earlier" "case e of Saved p q \<Rightarrow> x_deployedGeneration (p_execution q) = 2 | _ \<Rightarrow> False" .
  then obtain p q where
    e: "call_log calm_world one_workspace (McReconcile sample_input) = later @ Saved p q # earlier" "x_deployedGeneration (p_execution q) = 2"
    by (cases e) auto
  from generations_follow_the_protocol [OF calm_rely one_workspace_ok e(1)] e show ?thesis by blast
qed

text \<open>Every row stays well formed. In every world as before, whatever the provider answers, after
  any call of the manager every stored execution is one the compatibility checks accept, under
  the id of its workspace, and has its legacy container row.\<close>

theorem manager_keeps_rows_well_formed:
  assumes "exec_rely wd" "workspaces_inv m" "js_get (m_workspaceExecutions (er_mem (run_call wd m c))) i = Some p"
  shows "projection_valid p \<and> w_id (p_workspace p) = i \<and> js_has (m_containers (er_mem (run_call wd m c))) i"
  using run_call_ok [OF assms(1,2), of c] assms(3) by (simp add: run_ok_def workspaces_inv_def)

lemma sample_row: "js_has (m_workspaceExecutions (er_mem (run_call calm_world one_workspace (McReconcile sample_input)))) ''w1''"
  by code_simp

theorem manager_keeps_rows_well_formed_witness:
  "\<exists>p. js_get (m_workspaceExecutions (er_mem (run_call calm_world one_workspace (McReconcile sample_input)))) ''w1'' = Some p
     \<and> projection_valid p"
proof -
  from sample_row obtain p where
    p: "js_get (m_workspaceExecutions (er_mem (run_call calm_world one_workspace (McReconcile sample_input)))) ''w1'' = Some p"
    by (auto simp: js_has_def)
  from manager_keeps_rows_well_formed [OF calm_rely one_workspace_ok p] p show ?thesis by blast
qed

section \<open>Undisturbed runs\<close>

text \<open>No other process acts on the store.\<close>

definition undisturbed :: "exec_world \<Rightarrow> bool" where
  "undisturbed wd \<longleftrightarrow> (\<forall>n m. ew_env wd n m = m)"

text \<open>The workspace \<open>i\<close> is stored as \<open>p\<close>.\<close>

definition holds_at :: "string \<Rightarrow> projection \<Rightarrow> exec_run \<Rightarrow> bool" where
  "holds_at i p s \<longleftrightarrow> mem_ok s \<and> js_get (m_workspaceExecutions (er_mem s)) i = Some p"

lemma holds_at_run [simp]: "holds_at i p (s\<lparr>er_log := l\<rparr>) = holds_at i p s" "holds_at i p (s\<lparr>er_step := k\<rparr>) = holds_at i p s"
  by (simp_all add: holds_at_def)

lemma undisturbed_waited: "undisturbed wd \<Longrightarrow> er_mem (waited wd s) = er_mem s"
  by (simp add: undisturbed_def waited_def)

lemma holds_at_facts:
  assumes "holds_at i p s"
  shows "projection_valid p" "w_id (p_workspace p) = i" "get_projection (er_mem s) i = Inr (Some p)"
  using assms by (auto simp: holds_at_def workspaces_inv_def get_projection_def require_projection_def project_execution_def)

lemma attempts_once:
  assumes "after body (\<lambda>r s. case r of Some x \<Rightarrow> Q x s | None \<Rightarrow> False) E s"
  shows "after (attempts max_cas_attempts body giveUp) Q E s"
proof -
  have "after (attempts (Suc n) body giveUp) Q E s" for n
    unfolding attempts.simps after_bind by (rule after_mono [OF assms]) (auto split: option.splits)
  from this [of 7] show ?thesis by (simp add: max_cas_attempts_def numeral_eq_Suc)
qed

text \<open>A write that is computed from the stored projection, and allowed, succeeds.\<close>

lemma exec_save_undisturbed:
  assumes quiet: "undisturbed wd" and p: "holds_at i p s" and nxt: "w_id (p_workspace nxt) = i" "transition_ok p nxt"
    "projection_valid (nxt\<lparr>p_execution := (p_execution nxt)\<lparr>x_revision := x_revision (p_execution p) + 1\<rparr>\<rparr>)"
    and Q: "\<And>q s' cs. saved_as p nxt q \<Longrightarrow> holds_at i q s' \<Longrightarrow> er_log s' = Saved p q # er_log s
      \<Longrightarrow> er_mem s' = (er_mem s)\<lparr>m_containers := cs, m_workspaceExecutions := js_set (m_workspaceExecutions (er_mem s)) i q\<rparr>
      \<Longrightarrow> Q (Some q) s'"
  shows "after (exec_save wd p nxt) Q E s"
proof -
  let ?m = "er_mem s"
  from p have get: "js_get (m_workspaceExecutions ?m) i = Some p" and inv: "workspaces_inv ?m" by (simp_all add: holds_at_def)
  have "js_has (m_containers ?m) i" using get inv by (auto simp: workspaces_inv_def)
  then obtain c where c: "js_get (m_containers ?m) i = Some c" by (auto simp: js_has_def)
  have "\<exists>m' q. cas_execution ?m nxt (x_revision (p_execution p)) = (m', Inr (Some q))"
    using get c nxt by (auto simp: cas_execution_def transition_ok_def project_execution_def Let_def)
  then obtain m' q where cas: "cas_execution ?m nxt (x_revision (p_execution p)) = (m', Inr (Some q))" by blast
  have inv': "workspaces_inv m'" using cas_execution_inv [OF inv, of nxt "x_revision (p_execution p)"] cas by simp
  from cas have saved: "saved_as p nxt q"
    by (rule cas_execution_Some) (unfold saved_as_def, blast)
  from cas have "\<exists>cs. m' = ?m\<lparr>m_containers := cs, m_workspaceExecutions := js_set (m_workspaceExecutions ?m) i q\<rparr>"
    by (rule cas_execution_Some) (use nxt(1) in blast)
  with saved obtain cs where m': "saved_as p nxt q" "m' = ?m\<lparr>m_containers := cs, m_workspaceExecutions := js_set (m_workspaceExecutions ?m) i q\<rparr>"
    by blast
  then have "holds_at i q ((waited wd s)\<lparr>er_mem := m', er_log := l\<rparr>)" for l using inv' by (simp add: holds_at_def)
  then show ?thesis using m' by (simp add: after_exec_save cas Q undisturbed_waited [OF quiet])
qed

lemma exec_projection_undisturbed:
  assumes "undisturbed wd" "holds_at i p s"
    and "\<And>s'. er_mem s' = er_mem s \<Longrightarrow> er_log s' = Got p # er_log s \<Longrightarrow> Q p s'"
  shows "after (exec_projection wd i) Q E s"
  using assms(3) holds_at_facts(3) [OF assms(2)]
  by (simp add: exec_projection_def after_exec_read undisturbed_waited [OF assms(1)])

lemma valid_bumped:
  "projection_valid p \<Longrightarrow> r \<ge> 1 \<Longrightarrow> projection_valid (p\<lparr>p_execution := (p_execution p)\<lparr>x_revision := r\<rparr>\<rparr>)"
  by (cases "x_healthyGeneration (p_execution p)") (simp_all add: projection_valid_def active_shape_def deleted_shape_def)

lemma valid_revision: "projection_valid p \<Longrightarrow> x_revision (p_execution p) + 1 \<ge> 1"
  by (simp add: projection_valid_def)

end
