(* ===== verification/Execution_Deletion.thy ===== *)
theory Execution_Deletion
  imports Execution_Safety
begin

text \<open>
  The deletion of a workspace, \<open>WorkspaceExecutionManager.deleteWorkspace\<close>: its loop ends after
  at most six rounds as long as no other process takes the deletion back; without interference
  and with ports that succeed it deletes the workspace; and in every world it walks its phases
  and releases the storage last.
\<close>

section \<open>The end of a deletion\<close>

text \<open>What is left of a deletion: a number that every write of the manager lowers.\<close>

definition left_of :: "workspace \<Rightarrow> nat" where
  "left_of w =
     (case w_status w of
        WsActive \<Rightarrow> 7
      | WsDeleting \<Rightarrow> 6 - (case w_deletionPhase w of Some a \<Rightarrow> phase_rank a | None \<Rightarrow> 0)
      | WsDeleted \<Rightarrow> 0)"

definition deletion_left :: "string \<Rightarrow> mem \<Rightarrow> nat" where
  "deletion_left i m = (case js_get (m_workspaceExecutions m) i of None \<Rightarrow> 0 | Some p \<Rightarrow> left_of (p_workspace p))"

text \<open>Other processes do not take the deletion of the workspace back, or create it again.\<close>

definition deletion_rely :: "string \<Rightarrow> exec_world \<Rightarrow> bool" where
  "deletion_rely i wd \<longleftrightarrow> (\<forall>n m. deletion_left i (ew_env wd n m) \<le> deletion_left i m)"

abbreviation run_left :: "string \<Rightarrow> exec_run \<Rightarrow> nat" where
  "run_left i s \<equiv> deletion_left i (er_mem s)"

lemma waited_left: "deletion_rely i wd \<Longrightarrow> run_left i (waited wd s) \<le> run_left i s"
  by (simp add: deletion_rely_def waited_def)

text \<open>Runs that have not gained: the invariant of the store, and no more left than \<open>n\<close>.\<close>

definition still_left :: "string \<Rightarrow> nat \<Rightarrow> exec_run \<Rightarrow> bool" where
  "still_left i n s \<longleftrightarrow> mem_ok s \<and> run_left i s \<le> n"

lemma waited_still_left: "exec_rely wd \<Longrightarrow> deletion_rely i wd \<Longrightarrow> still_left i n s \<Longrightarrow> still_left i n (waited wd s)"
  using waited_left [of i wd s] by (auto simp: still_left_def waited_ok)

lemma exec_projection_left:
  assumes rely: "exec_rely wd" "deletion_rely i wd" and "still_left i n s"
    and Q: "\<And>p s'. projection_valid p \<Longrightarrow> w_id (p_workspace p) = i \<Longrightarrow> left_of (p_workspace p) \<le> n
      \<Longrightarrow> still_left i (left_of (p_workspace p)) s' \<Longrightarrow> Q p s'"
  shows "after (exec_projection wd i) Q (\<lambda>_ _. True) s"
proof -
  have w: "still_left i n (waited wd s)" using rely assms(3) by (rule waited_still_left)
  have "Q p ((waited wd s)\<lparr>er_log := Got p # er_log (waited wd s)\<rparr>)" if got: "get_projection (er_mem (waited wd s)) i = Inr (Some p)" for p
  proof (rule Q)
    from get_projection_stored [OF got] have "js_get (m_workspaceExecutions (er_mem (waited wd s))) i = Some p" by simp
    with w show "left_of (p_workspace p) \<le> n" "still_left i (left_of (p_workspace p)) ((waited wd s)\<lparr>er_log := Got p # er_log (waited wd s)\<rparr>)"
      by (simp_all add: still_left_def deletion_left_def)
  qed (use w got get_projection_stored [OF got] get_projection_id [OF _ got] in \<open>auto simp: still_left_def\<close>)
  then show ?thesis by (auto simp: exec_projection_def after_exec_read split: sum.split option.split)
qed

lemma exec_save_left:
  assumes rely: "exec_rely wd" "deletion_rely i wd" and "still_left i n s" and i: "w_id (p_workspace nxt) = i"
    and Q: "\<And>q s'. projection_valid q \<Longrightarrow> p_workspace q = p_workspace nxt \<Longrightarrow> still_left i (left_of (p_workspace nxt)) s' \<Longrightarrow> Q (Some q) s'"
    and "\<And>s'. still_left i n s' \<Longrightarrow> Q None s'"
  shows "after (exec_save wd current nxt) Q (\<lambda>_ _. True) s"
proof -
  let ?cas = "cas_execution (er_mem (waited wd s)) nxt (x_revision (p_execution current))"
  have w: "still_left i n (waited wd s)" using rely assms(3) by (rule waited_still_left)
  then have inv: "workspaces_inv (fst ?cas)" by (simp add: still_left_def cas_execution_inv)
  have saved: "projection_valid q \<and> p_workspace q = p_workspace nxt \<and> deletion_left i m = left_of (p_workspace nxt)"
    if "?cas = (m, Inr (Some q))" for m q
    using that by (rule cas_execution_Some) (auto simp: deletion_left_def i)
  have unsaved: "m = er_mem (waited wd s)" if "?cas = (m, Inr None)" for m
    using cas_execution_unchanged [OF that] by simp
  show ?thesis
    using saved unsaved inv w
    by (auto simp: after_exec_save still_left_def split: prod.split sum.split option.split intro!: Q assms(6))
qed

lemma exec_call_left:
  assumes "exec_rely wd" "deletion_rely i wd" "still_left i n s" and "\<And>x s'. still_left i n s' \<Longrightarrow> Q x s'"
  shows "after (exec_call wd f) Q (\<lambda>_ _. True) s"
  using waited_still_left [OF assms(1-3)] by (auto simp: after_exec_call split: sum.split intro!: assms(4))

lemma exec_read_left:
  assumes "exec_rely wd" "deletion_rely i wd" "still_left i n s" and "\<And>x s'. still_left i n s' \<Longrightarrow> Q x s'"
  shows "after (exec_read wd f) Q (\<lambda>_ _. True) s"
  using waited_still_left [OF assms(1-3)] by (auto simp: after_exec_read split: sum.split intro!: assms(4))

lemma resolve_binding_left:
  assumes "exec_rely wd" "deletion_rely i wd" "still_left i n s" and "\<And>x s'. still_left i n s' \<Longrightarrow> Q x s'"
  shows "after (resolve_binding wd p) Q (\<lambda>_ _. True) s"
  unfolding resolve_binding_def after_bind by (rule exec_call_left [OF assms(1-3)]) (auto intro: assms(4))

lemma still_left_log [simp]: "still_left i n (s\<lparr>er_log := l\<rparr>) = still_left i n s" "still_left i n (s\<lparr>er_step := k\<rparr>) = still_left i n s"
  by (simp_all add: still_left_def)

lemma check_no_references_left:
  assumes "exec_rely wd" "deletion_rely i wd" "still_left i n s" and "\<And>s'. still_left i n s' \<Longrightarrow> Q () s'"
  shows "after (check_no_references wd p) Q (\<lambda>_ _. True) s"
  unfolding check_no_references_def after_bind by (rule exec_read_left [OF assms(1-3)]) (auto intro: assms(4))

text \<open>One round lowers what is left.\<close>

definition nearer :: "string \<Rightarrow> nat \<Rightarrow> projection \<Rightarrow> exec_run \<Rightarrow> bool" where
  "nearer i n p s \<longleftrightarrow> projection_valid p \<and> w_id (p_workspace p) = i \<and> left_of (p_workspace p) < n \<and> still_left i (left_of (p_workspace p)) s"

lemma left_of_deleting:
  assumes "projection_valid p" "left_of (p_workspace p) \<le> 6" "w_status (p_workspace p) \<noteq> WsDeleted"
  obtains a where "w_status (p_workspace p) = WsDeleting" "w_deletionPhase (p_workspace p) = Some a" "a \<noteq> PhDeleted"
    "left_of (p_workspace p) = 6 - phase_rank a"
  using assms
  by (cases "w_status (p_workspace p)"; cases "w_deletionPhase (p_workspace p)")
    (auto simp: left_of_def projection_valid_def valid_deletion_state_def split: if_splits)

lemma phase_rank_bound: "a \<noteq> PhDeleted \<Longrightarrow> phase_rank a \<le> 4"
  by (cases a) simp_all

lemma phase_rank_inj: "phase_rank a = phase_rank b \<Longrightarrow> a = b"
  by (cases a; cases b) simp_all

text \<open>A projection read at another phase than expected has less left.\<close>

lemma other_phase_nearer:
  assumes "projection_valid p" "w_id (p_workspace p) = i" "left_of (p_workspace p) \<le> 6 - phase_rank a" "a \<noteq> PhDeleted"
    "w_deletionPhase (p_workspace p) \<noteq> Some a" "still_left i (left_of (p_workspace p)) s"
  shows "nearer i (6 - phase_rank a) p s"
proof (cases "w_status (p_workspace p) = WsDeleted")
  case True
  then have "left_of (p_workspace p) = 0" by (simp add: left_of_def)
  with assms phase_rank_bound [OF assms(4)] show ?thesis by (simp add: nearer_def)
next
  case False
  have "left_of (p_workspace p) \<le> 6" using assms(3) by simp
  from left_of_deleting [OF assms(1) this False] obtain b where
    b: "w_deletionPhase (p_workspace p) = Some b" "b \<noteq> PhDeleted" "left_of (p_workspace p) = 6 - phase_rank b" by metis
  with assms(5) phase_rank_inj [of a b] have "phase_rank b \<noteq> phase_rank a" by auto
  with assms b phase_rank_bound [OF assms(4)] phase_rank_bound [OF b(2)] show ?thesis by (simp add: nearer_def)
qed

lemma advance_deletion_left:
  assumes rely: "exec_rely wd" "deletion_rely (w_id (p_workspace c)) wd"
    and "still_left (w_id (p_workspace c)) (6 - phase_rank a) s" "a \<noteq> PhDeleted" "phase_rank b = Suc (phase_rank a)"
  shows "after (advance_deletion wd c a b) (nearer (w_id (p_workspace c)) (6 - phase_rank a)) (\<lambda>_ _. True) s"
  unfolding advance_deletion_def
proof (rule after_attempts [where I = "still_left (w_id (p_workspace c)) (6 - phase_rank a)"], unfold after_bind, goal_cases)
  case (1 s)
  show ?case
  proof (rule exec_projection_left [OF rely 1])
    fix p s' assume p: "projection_valid p" "w_id (p_workspace p) = w_id (p_workspace c)"
      "left_of (p_workspace p) \<le> 6 - phase_rank a" "still_left (w_id (p_workspace c)) (left_of (p_workspace p)) s'"
    have deleted: "nearer (w_id (p_workspace c)) (6 - phase_rank a) p s'" if "w_status (p_workspace p) = WsDeleted"
      using that p phase_rank_bound [OF assms(4)] by (simp add: nearer_def left_of_def)
    have saved: "nearer (w_id (p_workspace c)) (6 - phase_rank a) q s2"
      if "w_status (p_workspace p) \<noteq> WsDeleted" "w_deletionPhase (p_workspace p) = Some a" "projection_valid q"
        "p_workspace q = p_workspace (with_phase b now p)"
        "still_left (w_id (p_workspace c)) (left_of (p_workspace (with_phase b now p))) s2" for q s2 now
      using that p assms(5) phase_rank_bound [OF assms(4)] deleting_of_phase [OF p(1) that(1,2)]
      by (simp add: nearer_def left_of_def with_phase_def)
    have other: "nearer (w_id (p_workspace c)) (6 - phase_rank a) p s'" if "w_deletionPhase (p_workspace p) \<noteq> Some a"
      using other_phase_nearer [OF p(1,2,3) assms(4) that p(4)] .
    have again: "still_left (w_id (p_workspace c)) (6 - phase_rank a) s2"
      if "still_left (w_id (p_workspace c)) (left_of (p_workspace p)) s2" for s2
      using that p(3) by (simp add: still_left_def)
    show "after (if w_status (p_workspace p) = WsDeleted then act_ret (Some p)
        else if w_deletionTransactionId (p_workspace p) \<noteq> w_deletionTransactionId (p_workspace c)
        then act_throw (StateError ''workspace_deletion_transaction_conflict'')
        else if w_deletionPhase (p_workspace p) \<noteq> Some a then act_ret (Some p)
        else act_bind (exec_clock wd) (\<lambda>now. exec_save wd p (with_phase b now p)))
       (\<lambda>r s. case r of Some x \<Rightarrow> nearer (w_id (p_workspace c)) (6 - phase_rank a) x s
           | None \<Rightarrow> still_left (w_id (p_workspace c)) (6 - phase_rank a) s) (\<lambda>_ _. True) s'"
      using p deleted other by (auto intro!: exec_save_left [OF rely] saved again)
  qed
qed (use assms in auto)

lemma finalize_deletion_left:
  assumes rely: "exec_rely wd" "deletion_rely (w_id (p_workspace c)) wd" and "still_left (w_id (p_workspace c)) (6 - phase_rank PhFinalizing) s"
  shows "after (finalize_deletion wd c) (nearer (w_id (p_workspace c)) (6 - phase_rank PhFinalizing)) (\<lambda>_ _. True) s"
  unfolding finalize_deletion_def
proof (rule after_attempts [where I = "still_left (w_id (p_workspace c)) (6 - phase_rank PhFinalizing)"], unfold after_bind, goal_cases)
  case (1 s)
  show ?case
    by (rule exec_projection_left [OF rely 1])
      (auto simp: nearer_def left_of_def deleted_projection_def still_left_def intro!: exec_save_left [OF rely])
qed (use assms in auto)

lemma deletion_phase_step_left:
  assumes rely: "exec_rely wd" "deletion_rely (w_id (p_workspace c)) wd"
    and s: "still_left (w_id (p_workspace c)) (6 - phase_rank ph) s" and ph: "ph \<noteq> PhDeleted"
  shows "after (deletion_phase_step wd i c t ph) (nearer (w_id (p_workspace c)) (6 - phase_rank ph)) (\<lambda>_ _. True) s"
proof (cases ph)
  case PhDraining
  with s show ?thesis
    by (auto simp: deletion_phase_step_def
        intro!: exec_call_left [OF rely s] advance_deletion_left [OF rely, of PhDraining, simplified])
next
  case PhRemovingEnvironments
  with s show ?thesis
    by (auto simp: deletion_phase_step_def remove_environment_def Let_def intro!: resolve_binding_left [OF rely]
        check_no_references_left [OF rely] exec_call_left [OF rely]
        advance_deletion_left [OF rely, of PhRemovingEnvironments, simplified])
next
  case PhVerifyingReferences
  with s show ?thesis
    by (auto simp: deletion_phase_step_def intro!: check_no_references_left [OF rely]
        advance_deletion_left [OF rely, of PhVerifyingReferences, simplified])
next
  case PhReleasingStorage
  with s show ?thesis
    by (auto simp: deletion_phase_step_def release_storage_def intro!: resolve_binding_left [OF rely]
        check_no_references_left [OF rely] exec_call_left [OF rely]
        advance_deletion_left [OF rely, of PhReleasingStorage, simplified])
next
  case PhFinalizing
  with s show ?thesis using finalize_deletion_left [OF rely] by (simp add: deletion_phase_step_def)
next
  case PhDeleted
  with ph show ?thesis by simp
qed

definition ended :: "string \<Rightarrow> projection option \<Rightarrow> bool" where
  "ended i r \<longleftrightarrow> (\<exists>p. r = Some p \<and> projection_valid p \<and> w_id (p_workspace p) = i \<and> w_status (p_workspace p) = WsDeleted)"

lemma deletion_loop_ends:
  assumes rely: "exec_rely wd" "deletion_rely i wd"
  shows "projection_valid c \<Longrightarrow> w_id (p_workspace c) = i \<Longrightarrow> left_of (p_workspace c) \<le> fuel \<Longrightarrow> left_of (p_workspace c) \<le> 6
    \<Longrightarrow> still_left i (left_of (p_workspace c)) s \<Longrightarrow> after (deletion_loop wd fuel i c) (\<lambda>r _. ended i r) (\<lambda>_ _. True) s"
proof (induction fuel arbitrary: c s)
  case 0
  have deleted: "w_status (p_workspace c) = WsDeleted"
  proof (rule ccontr)
    assume "w_status (p_workspace c) \<noteq> WsDeleted"
    from left_of_deleting [OF 0(1) 0(4) this] obtain a where
      a: "a \<noteq> PhDeleted" "left_of (p_workspace c) = 6 - phase_rank a" by metis
    with phase_rank_bound [OF a(1)] 0(3) show False by simp
  qed
  with 0 show ?case by (subst deletion_loop.simps) (simp add: ended_def)
next
  case (Suc fuel)
  show ?case
  proof (cases "w_status (p_workspace c) = WsDeleted")
    case True
    with Suc.prems show ?thesis by (subst deletion_loop.simps) (simp add: ended_def)
  next
    case False
    from left_of_deleting [OF Suc.prems(1,4) False] obtain a where a: "w_status (p_workspace c) = WsDeleting"
      "w_deletionPhase (p_workspace c) = Some a" "a \<noteq> PhDeleted" "left_of (p_workspace c) = 6 - phase_rank a" by metis
    have step: "after (act_case (deletion_phase_step wd i c t a)
        (\<lambda>e. act_bind (exec_aborted wd) (\<lambda>aborted. if aborted then act_throw SignalReason
             else act_bind (record_deletion_failure wd c e) (\<lambda>_. act_throw e)))
        (deletion_loop wd fuel i)) (\<lambda>r _. ended i r) (\<lambda>_ _. True) s" for t
    proof -
      have "after (deletion_loop wd fuel i p) (\<lambda>r _. ended i r) (\<lambda>_ _. True) s2"
        if "nearer i (left_of (p_workspace c)) p s2" for p s2
        using that Suc.prems(3,4) by (intro Suc.IH) (auto simp: nearer_def)
      moreover have "after (act_bind (exec_aborted wd) (\<lambda>aborted. if aborted then act_throw SignalReason
             else act_bind (record_deletion_failure wd c e) (\<lambda>_. act_throw e))) (\<lambda>r _. ended i r) (\<lambda>_ _. True) s2" for e s2
        by (auto simp: after_def [of "record_deletion_failure wd c e"] split: prod.split sum.split)
      ultimately show ?thesis
        unfolding after_case
        using after_mono [OF deletion_phase_step_left [OF rely(1), of c a s i t]] rely(2) Suc.prems(2,5) a(3,4) by simp
    qed
    show ?thesis
      using step by (subst deletion_loop.simps) (auto simp: a simp del: after_case split: option.split)
  qed
qed

lemma begin_deletion_left:
  assumes rely: "exec_rely wd" "deletion_rely (di_workspaceId input) wd" and "mem_ok s"
  shows "after (begin_deletion wd input) (nearer (di_workspaceId input) 7) (\<lambda>_ _. True) s"
proof -
  let ?i = "di_workspaceId input"
  have "after (attempts max_cas_attempts
       (act_bind (exec_projection wd ?i) (\<lambda>current.
        if w_status (p_workspace current) \<noteq> WsActive then act_ret (Some current)
        else act_bind (exec_clock wd) (\<lambda>now. exec_save wd current (with_deletion t now current))))
       state_conflict) (nearer ?i 7) (\<lambda>_ _. True) s" for t
  proof (rule after_attempts [where I = "still_left ?i 7"], unfold after_bind, goal_cases)
    case (1 s)
    show ?case
    proof (rule exec_projection_left [OF rely 1])
      fix p s' assume p: "projection_valid p" "w_id (p_workspace p) = ?i" "left_of (p_workspace p) \<le> 7"
        "still_left ?i (left_of (p_workspace p)) s'"
      have begun: "left_of (p_workspace (with_deletion t now p)) = 6" for now
        by (simp add: left_of_def with_deletion_def)
      have found: "nearer ?i 7 p s'" if "w_status (p_workspace p) \<noteq> WsActive"
        using that p by (auto simp: nearer_def left_of_def split: workspace_status.splits)
      have saved: "nearer ?i 7 q s2" if "projection_valid q" "p_workspace q = p_workspace (with_deletion t now p)"
        "still_left ?i (left_of (p_workspace (with_deletion t now p))) s2" for q s2 now
        using that begun [of now] p(2) by (simp add: nearer_def)
      have again: "still_left ?i 7 s2" if "still_left ?i (left_of (p_workspace p)) s2" for s2
        using that p(3) by (simp add: still_left_def)
      show "after (if w_status (p_workspace p) \<noteq> WsActive then act_ret (Some p)
          else act_bind (exec_clock wd) (\<lambda>now. exec_save wd p (with_deletion t now p)))
         (\<lambda>r s. case r of Some x \<Rightarrow> nearer ?i 7 x s | None \<Rightarrow> still_left ?i 7 s) (\<lambda>_ _. True) s'"
        using p found by (auto intro!: exec_save_left [OF rely] saved again)
    qed
  next
    case 3
    have "left_of w \<le> 7" for w by (auto simp: left_of_def split: workspace_status.split)
    with assms show ?case by (auto simp: still_left_def deletion_left_def split: option.split)
  qed simp
  then show ?thesis by (simp add: begin_deletion_def split: sum.split)
qed

text \<open>C19: deleting a workspace comes to an end. As long as the other processes keep the invariant of
  the store and do not take the deletion of this workspace back or create it again, six rounds
  of the loop are enough, whatever they do otherwise and whatever the ports answer: the call
  returns the workspace deleted, or throws, and never goes on for ever; in particular two
  processes deleting the same workspace cannot keep each other busy.\<close>

theorem deletion_comes_to_an_end:
  assumes "exec_rely wd" "deletion_rely (di_workspaceId input) wd" "workspaces_inv m"
  shows "case snd (delete_workspace wd 6 input (start_run m)) of Inl e \<Rightarrow> True | Inr r \<Rightarrow> ended (di_workspaceId input) r"
proof -
  let ?i = "di_workspaceId input"
  let ?clear = "\<lambda>r. case r of None \<Rightarrow> act_ret None
         | Some current \<Rightarrow>
            (case w_deletionTransactionId (p_workspace current) of
               None \<Rightarrow> act_ret (Some current)
             | Some t \<Rightarrow>
                if t = [] then act_ret (Some current)
                else act_bind (exec_call wd (\<lambda>n. ew_drain_clear wd n (w_id (p_workspace current)) t)) (\<lambda>_.
                     act_bind (exec_note (DrainCleared (w_id (p_workspace current)) t)) (\<lambda>_. act_ret (Some current))))"
  have clear: "after (?clear r) (\<lambda>r _. ended ?i r) (\<lambda>_ _. True) s" if "ended ?i r" for r s
    using that by (auto simp: ended_def after_exec_call split: option.split sum.split)
  have loop: "after (deletion_loop wd 6 ?i c) (\<lambda>r. after (?clear r) (\<lambda>r _. ended ?i r) (\<lambda>_ _. True)) (\<lambda>_ _. True) s"
    if "nearer ?i 7 c s" for c s
    by (rule after_mono [OF deletion_loop_ends [OF assms(1,2), of c 6 s]])
      (use that clear in \<open>auto simp: nearer_def\<close>)
  have "after (delete_workspace wd 6 input) (\<lambda>r _. ended ?i r) (\<lambda>_ _. True) (start_run m)"
    using after_mono [OF begin_deletion_left [OF assms(1,2), of "start_run m"] loop] assms(3)
    unfolding delete_workspace_def after_bind by (simp add: start_run_def)
  then show ?thesis by (auto simp: after_def split: prod.splits sum.splits)
qed

definition sample_deletion :: deletion_input where
  "sample_deletion = \<lparr>di_workspaceId = ''w1'', di_transactionKey = None\<rparr>"

theorem deletion_comes_to_an_end_witness:
  "case snd (delete_workspace calm_world 6 sample_deletion (start_run one_workspace)) of Inl e \<Rightarrow> True | Inr r \<Rightarrow> ended ''w1'' r"
proof -
  have "deletion_rely (di_workspaceId sample_deletion) calm_world" by (simp add: deletion_rely_def calm_world_def)
  from deletion_comes_to_an_end [OF calm_rely this one_workspace_ok] show ?thesis by (simp add: sample_deletion_def cong: sum.case_cong)
qed

section \<open>A deletion without interference\<close>

text \<open>Nobody else acts, the call is not aborted, and the storage and the drain do what they are asked to.\<close>

definition calm_deletion :: "exec_world \<Rightarrow> bool" where
  "calm_deletion wd \<longleftrightarrow>
     (\<forall>n m. ew_env wd n m = m) \<and> (\<forall>n. \<not> ew_aborted wd n)
     \<and> (\<forall>n rq. \<exists>b. ew_binding wd n rq = Inr b \<and> sb_storageId b = sr_id (sq_storageRef rq))
     \<and> (\<forall>n rq. ew_remove wd n rq = Inr ()) \<and> (\<forall>n rq b. ew_release wd n rq b = Inr ())
     \<and> (\<forall>n i t. ew_drain_begin wd n i t = Inr True) \<and> (\<forall>n i t. ew_drain_clear wd n i t = Inr ())"

text \<open>The workspace \<open>i\<close> is stored as \<open>p\<close>, and no other live workspace refers to its storage.\<close>

definition unshared :: "mem \<Rightarrow> string \<Rightarrow> string \<Rightarrow> bool" where
  "unshared m storageRefId i \<longleftrightarrow> count_live_storage_references m storageRefId i = 0"

definition stored :: "string \<Rightarrow> projection \<Rightarrow> exec_run \<Rightarrow> bool" where
  "stored i p s \<longleftrightarrow> mem_ok s \<and> js_get (m_workspaceExecutions (er_mem s)) i = Some p
     \<and> unshared (er_mem s) (w_storageRefId (p_workspace p)) i"

lemma stored_log [simp]: "stored i p (s\<lparr>er_log := l\<rparr>) = stored i p s" "stored i p (s\<lparr>er_step := k\<rparr>) = stored i p s"
  by (simp_all add: stored_def)

lemma stored_waited: "calm_deletion wd \<Longrightarrow> stored i p (waited wd s) = stored i p s"
  by (simp add: stored_def calm_deletion_def waited_def)

lemma stored_facts:
  assumes "stored i p s"
  shows "projection_valid p" "w_id (p_workspace p) = i" "get_projection (er_mem s) i = Inr (Some p)"
    "count_live_storage_references (er_mem s) (w_storageRefId (p_workspace p)) i = 0"
  using assms by (auto simp: stored_def workspaces_inv_def unshared_def get_projection_def require_projection_def project_execution_def)

lemma unshared_set:
  "unshared m sid i \<Longrightarrow> w_id (p_workspace q) = i
     \<Longrightarrow> unshared (m\<lparr>m_containers := cs, m_workspaceExecutions := js_set (m_workspaceExecutions m) i q\<rparr>) sid i"
  using js_set_values_subset [of "m_workspaceExecutions m" i q]
  by (auto simp: unshared_def count_live_storage_references_def filter_empty_conv)

text \<open>A write that is computed from the stored projection, and allowed, succeeds.\<close>

lemma exec_save_calm:
  assumes calm: "calm_deletion wd" and p: "stored i p s" and nxt: "w_id (p_workspace nxt) = i" "transition_ok p nxt"
    "projection_valid (nxt\<lparr>p_execution := (p_execution nxt)\<lparr>x_revision := x_revision (p_execution p) + 1\<rparr>\<rparr>)"
    "w_storageRefId (p_workspace nxt) = w_storageRefId (p_workspace p)"
    and Q: "\<And>q s'. p_workspace q = p_workspace nxt \<Longrightarrow> stored i q s' \<Longrightarrow> er_log s' = Saved p q # er_log s \<Longrightarrow> Q (Some q) s'"
  shows "after (exec_save wd p nxt) Q E s"
proof (rule exec_save_undisturbed [OF _ _ nxt(1-3)])
  show "undisturbed wd" using calm by (simp add: calm_deletion_def undisturbed_def)
  show "holds_at i p s" using p by (simp add: stored_def holds_at_def)
  fix q s' cs assume q: "saved_as p nxt q" "holds_at i q s'" "er_log s' = Saved p q # er_log s"
    "er_mem s' = (er_mem s)\<lparr>m_containers := cs, m_workspaceExecutions := js_set (m_workspaceExecutions (er_mem s)) i q\<rparr>"
  have ws: "p_workspace q = p_workspace nxt" using saved_as_fields(2) [OF q(1)] .
  moreover have "stored i q s'"
    using q(2,4) p nxt(1,4) ws unshared_set [of "er_mem s" "w_storageRefId (p_workspace p)" i q cs]
    by (simp add: stored_def holds_at_def)
  ultimately show "Q (Some q) s'" using q(3) by (rule Q)
qed

lemma exec_projection_calm:
  assumes "calm_deletion wd" "stored i p s"
    and "\<And>s'. stored i p s' \<Longrightarrow> er_log s' = Got p # er_log s \<Longrightarrow> Q p s'"
  shows "after (exec_projection wd i) Q E s"
  using assms(3) stored_waited [OF assms(1), of i p s] stored_facts(3) [of i p "waited wd s"] assms(2)
  by (simp add: exec_projection_def after_exec_read)

lemma exec_call_calm:
  assumes "calm_deletion wd" "stored i p s" "\<And>n. f n = Inr x"
    and "\<And>s'. stored i p s' \<Longrightarrow> er_log s' = er_log s \<Longrightarrow> Q x s'"
  shows "after (exec_call wd f) Q E s"
  using assms stored_waited [OF assms(1), of i p s] by (simp add: after_exec_call)

lemma resolve_binding_calm:
  assumes "calm_deletion wd" "stored i p s"
    and "\<And>b s'. stored i p s' \<Longrightarrow> er_log s' = er_log s \<Longrightarrow> Q b s'"
  shows "after (resolve_binding wd p) Q E s"
proof -
  from assms(1) have "\<exists>b. ew_binding wd (er_step s) (storage_request_for p) = Inr b
    \<and> sb_storageId b = sr_id (sq_storageRef (storage_request_for p))" by (simp add: calm_deletion_def)
  then obtain b where b: "ew_binding wd (er_step s) (storage_request_for p) = Inr b"
    "sb_storageId b = sr_id (sq_storageRef (storage_request_for p))" by blast
  then have "sb_storageId b = w_storageRefId (p_workspace p)" by (simp add: storage_request_for_def workspace_storage_ref_def)
  with b assms(2,3) stored_waited [OF assms(1), of i p s] show ?thesis
    by (simp add: resolve_binding_def after_exec_call)
qed

lemma check_no_references_calm:
  assumes "calm_deletion wd" "stored i p s"
    and "\<And>s'. stored i p s' \<Longrightarrow> er_log s' = Counted (w_storageRefId (p_workspace p)) i 0 # er_log s \<Longrightarrow> Q () s'"
  shows "after (check_no_references wd p) Q E s"
  using assms(3) stored_waited [OF assms(1), of i p s] stored_facts(2,4) [of i p "waited wd s"] assms(2)
  by (simp add: check_no_references_def after_exec_read)

text \<open>The projections a deletion writes may replace the one they are computed from.\<close>

lemma with_deletion_valid:
  assumes "projection_valid p" "w_status (p_workspace p) = WsActive" "t \<noteq> []"
  shows "projection_valid (with_deletion t now p) \<and> transition_ok p (with_deletion t now p)"
proof -
  have "projection_valid (with_deletion t now p)"
    using assms by (cases "x_healthyGeneration (p_execution p)")
      (auto simp: projection_valid_def active_shape_def deleted_shape_def valid_deletion_state_def with_deletion_def)
  with assms show ?thesis by (simp add: transition_ok_iff with_deletion_def valid_status_transition_def)
qed

lemma with_phase_valid:
  assumes "projection_valid p" "w_status (p_workspace p) = WsDeleting" "b \<noteq> PhDeleted"
  shows "projection_valid (with_phase b now p) \<and> transition_ok p (with_phase b now p)"
proof -
  have "projection_valid (with_phase b now p)"
    using assms by (cases "x_healthyGeneration (p_execution p)")
      (auto simp: projection_valid_def active_shape_def deleted_shape_def valid_deletion_state_def with_phase_def split: if_splits)
  with assms show ?thesis by (simp add: transition_ok_iff with_phase_def valid_status_transition_def)
qed

lemma deleted_projection_valid:
  assumes "projection_valid p" "w_status (p_workspace p) = WsDeleting"
  shows "projection_valid (deleted_projection now p) \<and> transition_ok p (deleted_projection now p)"
proof -
  have "projection_valid (deleted_projection now p)"
    using assms by (cases "x_healthyGeneration (p_execution p)")
      (auto simp: projection_valid_def active_shape_def deleted_shape_def valid_deletion_state_def deleted_projection_def split: if_splits)
  with assms show ?thesis by (simp add: transition_ok_iff deleted_projection_def valid_status_transition_def)
qed

lemma stored_revision: "stored i p s \<Longrightarrow> x_revision (p_execution p) + 1 \<ge> 1"
  using stored_facts(1) by (fastforce simp: projection_valid_def)

text \<open>A round without interference: the workspace is stored in the phase \<open>a\<close> of its deletion.\<close>

definition in_phase :: "string \<Rightarrow> string \<Rightarrow> deletion_phase \<Rightarrow> projection \<Rightarrow> exec_run \<Rightarrow> bool" where
  "in_phase i t a p s \<longleftrightarrow> stored i p s \<and> w_status (p_workspace p) = WsDeleting
     \<and> w_deletionTransactionId (p_workspace p) = Some t \<and> w_deletionPhase (p_workspace p) = Some a"

definition log_kept :: "exec_run \<Rightarrow> exec_run \<Rightarrow> bool" where
  "log_kept s s' \<longleftrightarrow> set (er_log s) \<subseteq> set (er_log s')"

lemma advance_deletion_calm:
  assumes calm: "calm_deletion wd" and c: "in_phase i t a c s" and b: "b \<noteq> PhDeleted"
    and Q: "\<And>q s'. in_phase i t b q s' \<Longrightarrow> log_kept s s' \<Longrightarrow> Q q s'"
  shows "after (advance_deletion wd c a b) Q E s"
  unfolding advance_deletion_def
proof (rule attempts_once, unfold after_bind)
  have st: "stored i c s" and c': "w_status (p_workspace c) = WsDeleting" "w_deletionPhase (p_workspace c) = Some a"
    using c by (simp_all add: in_phase_def)
  note facts = stored_facts [OF st]
  note ok = with_phase_valid [OF facts(1) c'(1) b]
  have save: "after (exec_save wd c (with_phase b now c)) (\<lambda>r s. case r of None \<Rightarrow> False | Some x \<Rightarrow> Q x s) E s2"
    if "stored i c s2" "er_log s2 = Got c # er_log s" for s2 now
    by (rule exec_save_calm [OF calm that(1)])
      (use ok valid_bumped [of "with_phase b now c"] stored_revision [OF that(1)] facts c that(2) in
        \<open>auto simp: with_phase_def in_phase_def log_kept_def intro!: Q\<close>)
  show "after (exec_projection wd (w_id (p_workspace c)))
     (\<lambda>latest. after (if w_status (p_workspace latest) = WsDeleted then act_ret (Some latest)
        else if w_deletionTransactionId (p_workspace latest) \<noteq> w_deletionTransactionId (p_workspace c)
        then act_throw (StateError ''workspace_deletion_transaction_conflict'')
        else if w_deletionPhase (p_workspace latest) \<noteq> Some a then act_ret (Some latest)
        else act_bind (exec_clock wd) (\<lambda>now. exec_save wd latest (with_phase b now latest)))
        (\<lambda>r s. case r of None \<Rightarrow> False | Some x \<Rightarrow> Q x s) E) E s"
    unfolding facts(2) by (rule exec_projection_calm [OF calm st]) (use c' save in auto)
qed

lemma log_kept_trans: "log_kept s s1 \<Longrightarrow> log_kept s1 s2 \<Longrightarrow> log_kept s s2"
  by (auto simp: log_kept_def)

lemma work_kept: "list_ex P (er_log s) \<Longrightarrow> log_kept s s' \<Longrightarrow> list_ex P (er_log s')"
  by (auto simp: log_kept_def list_ex_iff)

lemma deletion_round_calm:
  assumes calm: "calm_deletion wd" and c: "in_phase i t a c s" and t: "t \<noteq> []"
    and ab: "phase_rank b = Suc (phase_rank a)" "b \<noteq> PhDeleted"
    and Q: "\<And>q s'. in_phase i t b q s' \<Longrightarrow> log_kept s s' \<Longrightarrow> list_ex (work_of a i) (er_log s')
      \<Longrightarrow> after (deletion_loop wd n i q) Q E s'"
  shows "after (deletion_loop wd (Suc n) i c) Q E s"
proof -
  have st: "stored i c s" and c': "w_status (p_workspace c) = WsDeleting" "w_deletionPhase (p_workspace c) = Some a"
    "w_deletionTransactionId (p_workspace c) = Some t"
    using c by (simp_all add: in_phase_def)
  have i: "w_id (p_workspace c) = i" using stored_facts [OF st] by simp
  have sq: "sq_workspaceId (storage_request_for c) = i" "er_workspaceId (environment_request_for wd c x) = i" for x
    using i by (simp_all add: storage_request_for_def environment_request_for_def)
  have ports: "\<And>n rq. ew_remove wd n rq = Inr ()" "\<And>n rq b. ew_release wd n rq b = Inr ()" "\<And>n i t. ew_drain_begin wd n i t = Inr True"
    using calm by (simp_all add: calm_deletion_def)
  have advance: "after (advance_deletion wd c a b) (\<lambda>q. after (deletion_loop wd n i q) Q E) E' s2"
    if "stored i c s2" "log_kept s s2" "list_ex (work_of a i) (er_log s2)" for s2 E'
    by (rule advance_deletion_calm [OF calm _ ab(2)])
      (use that c' in \<open>auto simp: in_phase_def intro: log_kept_trans work_kept intro!: Q\<close>)
  have "a \<noteq> PhDeleted" "a \<noteq> PhFinalizing" using ab by (cases b; auto)+
  then have "after (deletion_phase_step wd i c t a) (\<lambda>q. after (deletion_loop wd n i q) Q E) E' s" for E'
  proof (cases a)
    case PhDraining
    with ab(1) have b: "b = PhRemovingEnvironments" by (cases b) auto
    with PhDraining b show ?thesis
      by (auto simp: deletion_phase_step_def ports log_kept_def intro!: exec_call_calm [OF calm st] advance [unfolded PhDraining b])
  next
    case PhRemovingEnvironments
    with ab(1) have b: "b = PhVerifyingReferences" by (cases b) auto
    with PhRemovingEnvironments b show ?thesis
      by (auto simp: deletion_phase_step_def remove_environment_def Let_def ports sq log_kept_def
        intro!: resolve_binding_calm [OF calm st] check_no_references_calm [OF calm] exec_call_calm [OF calm] advance [unfolded PhRemovingEnvironments b])
  next
    case PhVerifyingReferences
    with ab(1) have b: "b = PhReleasingStorage" by (cases b) auto
    with PhVerifyingReferences b show ?thesis
      by (auto simp: deletion_phase_step_def log_kept_def intro!: check_no_references_calm [OF calm st] advance [unfolded PhVerifyingReferences b])
  next
    case PhReleasingStorage
    with ab(1) have b: "b = PhFinalizing" by (cases b) auto
    with PhReleasingStorage b show ?thesis
      by (auto simp: deletion_phase_step_def release_storage_def ports sq log_kept_def
        intro!: resolve_binding_calm [OF calm st] check_no_references_calm [OF calm] exec_call_calm [OF calm] advance [unfolded PhReleasingStorage b])
  qed simp_all
  with c' t \<open>a \<noteq> PhDeleted\<close> show ?thesis by (simp add: deletion_loop.simps(2))
qed

lemma deletion_finish_calm:
  assumes calm: "calm_deletion wd" and c: "in_phase i t PhFinalizing c s" and t: "t \<noteq> []"
    and Q: "\<And>q s'. stored i q s' \<Longrightarrow> w_status (p_workspace q) = WsDeleted \<Longrightarrow> w_deletionTransactionId (p_workspace q) = Some t
      \<Longrightarrow> log_kept s s' \<Longrightarrow> Q (Some q) s'"
  shows "after (deletion_loop wd (Suc (Suc n)) i c) Q E s"
proof -
  have st: "stored i c s" and c': "w_status (p_workspace c) = WsDeleting" "w_deletionPhase (p_workspace c) = Some PhFinalizing"
    "w_deletionTransactionId (p_workspace c) = Some t" using c by (simp_all add: in_phase_def)
  note facts = stored_facts [OF st]
  note ok = deleted_projection_valid [OF facts(1) c'(1)]
  have "after (finalize_deletion wd c) (\<lambda>q. after (deletion_loop wd (Suc n) i q) Q E) E' s" for E'
    unfolding finalize_deletion_def
  proof (rule attempts_once, unfold after_bind)
    have save: "after (exec_save wd c (deleted_projection now c))
       (\<lambda>r s. case r of None \<Rightarrow> False | Some q \<Rightarrow> after (deletion_loop wd (Suc n) i q) Q E s) E' s2"
      if "stored i c s2" "er_log s2 = Got c # er_log s" for s2 now
      by (rule exec_save_calm [OF calm that(1)])
        (use ok valid_bumped [of "deleted_projection now c"] stored_revision [OF that(1)] facts c' that(2) in
          \<open>auto simp: deleted_projection_def log_kept_def deletion_loop.simps(2) intro!: Q\<close>)
    show "after (exec_projection wd (w_id (p_workspace c)))
       (\<lambda>latest. after (if w_status (p_workspace latest) = WsDeleted then act_ret (Some latest)
          else if w_deletionTransactionId (p_workspace latest) \<noteq> w_deletionTransactionId (p_workspace c)
             \<or> w_deletionPhase (p_workspace latest) \<noteq> Some PhFinalizing
          then act_throw (StateError ''workspace_deletion_transaction_conflict'')
          else act_bind (exec_clock wd) (\<lambda>now. exec_save wd latest (deleted_projection now latest)))
          (\<lambda>r s. case r of None \<Rightarrow> False | Some q \<Rightarrow> after (deletion_loop wd (Suc n) i q) Q E s) E') E' s"
      unfolding facts(2) by (rule exec_projection_calm [OF calm st]) (use c' save in auto)
  qed
  with c' t show ?thesis by (simp add: deletion_loop.simps(2) [of wd "Suc n"] deletion_phase_step_def)
qed

lemma begin_deletion_calm:
  assumes calm: "calm_deletion wd" and p: "stored (di_workspaceId input) p s" "w_status (p_workspace p) = WsActive"
    and t: "execution_transaction_id (ew_digest wd) (di_workspaceId input)
      (case di_transactionKey input of Some k \<Rightarrow> k | None \<Rightarrow> ''workspace-delete'') = Inr t" "t \<noteq> []"
    and Q: "\<And>q s'. in_phase (di_workspaceId input) t PhDraining q s' \<Longrightarrow> Q q s'"
  shows "after (begin_deletion wd input) Q E s"
proof -
  note facts = stored_facts [OF p(1)]
  note ok = with_deletion_valid [OF facts(1) p(2) t(2)]
  have "after (attempts max_cas_attempts
       (act_bind (exec_projection wd (di_workspaceId input)) (\<lambda>current.
        if w_status (p_workspace current) \<noteq> WsActive then act_ret (Some current)
        else act_bind (exec_clock wd) (\<lambda>now. exec_save wd current (with_deletion t now current))))
       state_conflict) Q E s"
  proof (rule attempts_once, unfold after_bind)
    have save: "after (exec_save wd p (with_deletion t now p)) (\<lambda>r s. case r of None \<Rightarrow> False | Some q \<Rightarrow> Q q s) E s2"
      if "stored (di_workspaceId input) p s2" for s2 now
      by (rule exec_save_calm [OF calm that])
        (use ok valid_bumped [of "with_deletion t now p"] stored_revision [OF that] facts in
          \<open>auto simp: with_deletion_def in_phase_def intro!: Q\<close>)
    show "after (exec_projection wd (di_workspaceId input))
       (\<lambda>current. after (if w_status (p_workspace current) \<noteq> WsActive then act_ret (Some current)
          else act_bind (exec_clock wd) (\<lambda>now. exec_save wd current (with_deletion t now current)))
          (\<lambda>r s. case r of None \<Rightarrow> False | Some q \<Rightarrow> Q q s) E) E s"
      by (rule exec_projection_calm [OF calm p(1)]) (use p(2) save in auto)
  qed
  with t(1) show ?thesis by (simp add: begin_deletion_def)
qed

lemma work_done_kept: "work_done a i (er_log s) \<Longrightarrow> log_kept s s' \<Longrightarrow> work_done a i (er_log s')"
  by (auto simp: work_done_def intro: work_kept)

lemma deletion_loop_calm:
  assumes calm: "calm_deletion wd" and c: "in_phase i t PhDraining c s" and t: "t \<noteq> []"
    and Q: "\<And>q s'. stored i q s' \<Longrightarrow> w_status (p_workspace q) = WsDeleted \<Longrightarrow> w_deletionTransactionId (p_workspace q) = Some t
      \<Longrightarrow> (\<And>a. a \<noteq> PhDeleted \<Longrightarrow> work_done a i (er_log s')) \<Longrightarrow> Q (Some q) s'"
  shows "after (deletion_loop wd 6 i c) Q E s"
proof -
  have "after (deletion_loop wd (Suc (Suc (Suc (Suc (Suc (Suc 0)))))) i c) Q E s"
  proof (rule deletion_round_calm [OF calm c t, where b = PhRemovingEnvironments])
    fix q1 s1 assume 1: "in_phase i t PhRemovingEnvironments q1 s1" "list_ex (work_of PhDraining i) (er_log s1)"
    show "after (deletion_loop wd (Suc (Suc (Suc (Suc (Suc 0))))) i q1) Q E s1"
    proof (rule deletion_round_calm [OF calm 1(1) t, where b = PhVerifyingReferences])
      fix q2 s2 assume 2: "in_phase i t PhVerifyingReferences q2 s2" "log_kept s1 s2" "list_ex (work_of PhRemovingEnvironments i) (er_log s2)"
      show "after (deletion_loop wd (Suc (Suc (Suc (Suc 0)))) i q2) Q E s2"
      proof (rule deletion_round_calm [OF calm 2(1) t, where b = PhReleasingStorage])
        fix q3 s3 assume 3: "in_phase i t PhReleasingStorage q3 s3" "log_kept s2 s3" "list_ex (work_of PhVerifyingReferences i) (er_log s3)"
        show "after (deletion_loop wd (Suc (Suc (Suc 0))) i q3) Q E s3"
        proof (rule deletion_round_calm [OF calm 3(1) t, where b = PhFinalizing])
          fix q4 s4 assume 4: "in_phase i t PhFinalizing q4 s4" "log_kept s3 s4" "list_ex (work_of PhReleasingStorage i) (er_log s4)"
          have done4: "work_done a i (er_log s4)" if "a \<noteq> PhDeleted" for a
            using that 1(2) 2(2,3) 3(2,3) 4(2,3) by (cases a) (auto simp: work_done_def intro: work_kept log_kept_trans)
          show "after (deletion_loop wd (Suc (Suc 0)) i q4) Q E s4"
            by (rule deletion_finish_calm [OF calm 4(1) t])
              (use done4 in \<open>auto intro!: Q intro: work_done_kept\<close>)
        qed simp_all
      qed simp_all
    qed simp_all
  qed simp_all
  then show ?thesis by (simp add: numeral_eq_Suc)
qed

lemma delete_workspace_calm:
  assumes calm: "calm_deletion wd" and m: "workspaces_inv m" "js_get (m_workspaceExecutions m) (di_workspaceId input) = Some p"
    "w_status (p_workspace p) = WsActive" "unshared m (w_storageRefId (p_workspace p)) (di_workspaceId input)"
    and key: "\<forall>k. di_transactionKey input = Some k \<longrightarrow> js_trim k \<noteq> []"
  shows "\<exists>s q t. delete_workspace wd 6 input (start_run m) = (s, Inr (Some q))
    \<and> get_projection (er_mem s) (di_workspaceId input) = Inr (Some q) \<and> w_status (p_workspace q) = WsDeleted
    \<and> (\<forall>a. a \<noteq> PhDeleted \<longrightarrow> work_done a (di_workspaceId input) (er_log s))
    \<and> DrainCleared (di_workspaceId input) t \<in> set (er_log s)"
proof -
  let ?i = "di_workspaceId input"
  have start: "stored ?i p (start_run m)" using m by (simp add: stored_def start_run_def)
  have "js_trim ''workspace-delete'' \<noteq> []" by code_simp
  with key obtain t where t: "execution_transaction_id (ew_digest wd) ?i
      (case di_transactionKey input of Some k \<Rightarrow> k | None \<Rightarrow> ''workspace-delete'') = Inr t" "t \<noteq> []"
    by (cases "di_transactionKey input") (simp_all add: execution_transaction_id_def Let_def)
  have clear: "\<And>n i t. ew_drain_clear wd n i t = Inr ()" and go: "\<not> ew_aborted wd n" for n
    using calm by (simp_all add: calm_deletion_def)
  let ?Q = "\<lambda>r s. \<exists>q t. r = Some q \<and> get_projection (er_mem s) ?i = Inr (Some q) \<and> w_status (p_workspace q) = WsDeleted
    \<and> (\<forall>a. a \<noteq> PhDeleted \<longrightarrow> work_done a ?i (er_log s)) \<and> DrainCleared ?i t \<in> set (er_log s)"
  have "after (delete_workspace wd 6 input) ?Q (\<lambda>_ _. False) (start_run m)"
    unfolding delete_workspace_def after_bind after_exec_throw_if_aborted if_not_P [OF go]
  proof (rule begin_deletion_calm [OF calm start m(3) t], rule deletion_loop_calm [OF calm _ t(2)])
    fix q s assume q: "stored ?i q s" "w_status (p_workspace q) = WsDeleted" "w_deletionTransactionId (p_workspace q) = Some t"
      "\<And>a. a \<noteq> PhDeleted \<Longrightarrow> work_done a ?i (er_log s)"
    have work: "work_done a ?i (DrainCleared ?i t # er_log s)" if "a \<noteq> PhDeleted" for a
      using q(4) [OF that] by (auto simp: work_done_def)
    have i: "w_id (p_workspace q) = ?i" using stored_facts [OF q(1)] by simp
    show "after (case Some q of None \<Rightarrow> act_ret None
         | Some current \<Rightarrow>
            (case w_deletionTransactionId (p_workspace current) of
               None \<Rightarrow> act_ret (Some current)
             | Some t \<Rightarrow>
                if t = [] then act_ret (Some current)
                else act_bind (exec_call wd (\<lambda>n. ew_drain_clear wd n (w_id (p_workspace current)) t)) (\<lambda>_.
                     act_bind (exec_note (DrainCleared (w_id (p_workspace current)) t)) (\<lambda>_. act_ret (Some current)))))
       ?Q (\<lambda>_ _. False) s"
      using q(2,3) t(2) work stored_facts(3)
      by (auto simp: clear i intro!: exec_call_calm [OF calm q(1)])
  qed
  then show ?thesis by (auto simp: after_def split: prod.splits sum.splits)
qed

text \<open>C20: undisturbed, a deletion succeeds. If no other process acts, the call is not aborted, and the
  provider, the storage and the drain do what they are asked to, then deleting a live workspace
  whose storage no other live workspace uses returns the workspace deleted: the store then holds
  this projection, the work of every phase has been done, and the drain has been cleared.\<close>

theorem undisturbed_deletion_succeeds:
  assumes calm: "calm_deletion wd" and m: "workspaces_inv m" "js_get (m_workspaceExecutions m) (di_workspaceId input) = Some p"
    "w_status (p_workspace p) = WsActive" "unshared m (w_storageRefId (p_workspace p)) (di_workspaceId input)"
    and key: "\<forall>k. di_transactionKey input = Some k \<longrightarrow> js_trim k \<noteq> []"
  shows "\<exists>s q t. delete_workspace wd 6 input (start_run m) = (s, Inr (Some q))
    \<and> get_projection (er_mem s) (di_workspaceId input) = Inr (Some q) \<and> w_status (p_workspace q) = WsDeleted
    \<and> (\<forall>a. a \<noteq> PhDeleted \<longrightarrow> work_done a (di_workspaceId input) (er_log s))
    \<and> DrainCleared (di_workspaceId input) t \<in> set (er_log s)"
  using assms by (rule delete_workspace_calm)

lemma sample_stored:
  "js_get (m_workspaceExecutions one_workspace) ''w1'' = Some sample_projection
   \<and> w_status (p_workspace sample_projection) = WsActive
   \<and> count_live_storage_references one_workspace (w_storageRefId (p_workspace sample_projection)) ''w1'' = 0"
  by code_simp

lemma calm_world_deletion: "calm_deletion calm_world"
  by (simp add: calm_deletion_def calm_world_def)

lemma sample_deletion_done:
  "\<exists>s q. delete_workspace calm_world 6 sample_deletion (start_run one_workspace) = (s, Inr (Some q))
    \<and> (\<forall>a. a \<noteq> PhDeleted \<longrightarrow> work_done a ''w1'' (er_log s))"
  using delete_workspace_calm [OF calm_world_deletion one_workspace_ok, of sample_deletion sample_projection] sample_stored
  by (auto simp: sample_deletion_def unshared_def)

theorem undisturbed_deletion_succeeds_witness:
  "\<exists>s q. delete_workspace calm_world 6 sample_deletion (start_run one_workspace) = (s, Inr (Some q))
    \<and> w_status (p_workspace q) = WsDeleted \<and> (\<forall>a. a \<noteq> PhDeleted \<longrightarrow> work_done a ''w1'' (er_log s))"
  using undisturbed_deletion_succeeds [OF calm_world_deletion one_workspace_ok, of sample_deletion sample_projection] sample_stored
  by (auto simp: sample_deletion_def unshared_def)

section \<open>The phases, and the storage\<close>

text \<open>C18: a deletion goes through its phases, each after its work. In every world in which the other
  processes keep the invariant of the store, every write of every method of the manager is
  computed from a projection it has read, and moves the workspace as follows: a live workspace
  stays live or enters the draining phase; a workspace being deleted keeps its deletion
  transaction and stays in its phase or enters the next one, and only the last phase ends with
  a deleted workspace; a deleted workspace is never written. And a phase is left only after its
  work has been done in the same call: the drain was begun, the environment was removed, no
  other workspace was found to use the storage, the storage was released.\<close>

theorem deletion_walks_its_phases:
  assumes "exec_rely wd" "workspaces_inv m" "call_log wd m c = later @ Saved p q # earlier"
  shows "Got p \<in> set earlier \<and> deletion_move (p_workspace p) (p_workspace q)
    \<and> (\<forall>a. w_deletionPhase (p_workspace p) = Some a \<and> w_deletionPhase (p_workspace q) \<noteq> Some a
        \<longrightarrow> work_done a (w_id (p_workspace p)) earlier)"
proof -
  have "justified (Saved p q) earlier"
    using call_log_ok [OF assms(1,2), of c] log_ok_split [of later "Saved p q" earlier] assms(3) by simp
  then show ?thesis by simp
qed

lemma sample_deletion_begins:
  "list_ex (\<lambda>e. case e of Saved p q \<Rightarrow> w_status (p_workspace q) = WsDeleting | _ \<Rightarrow> False)
     (call_log calm_world one_workspace (McDelete 0 sample_deletion))"
  by code_simp

theorem deletion_walks_its_phases_witness:
  "\<exists>later p q earlier. call_log calm_world one_workspace (McDelete 0 sample_deletion) = later @ Saved p q # earlier
     \<and> w_status (p_workspace q) = WsDeleting \<and> Got p \<in> set earlier \<and> deletion_move (p_workspace p) (p_workspace q)"
proof -
  from list_ex_event [OF sample_deletion_begins] obtain later e earlier where
    "call_log calm_world one_workspace (McDelete 0 sample_deletion) = later @ e # earlier"
    "case e of Saved p q \<Rightarrow> w_status (p_workspace q) = WsDeleting | _ \<Rightarrow> False" .
  then obtain p q where
    e: "call_log calm_world one_workspace (McDelete 0 sample_deletion) = later @ Saved p q # earlier" "w_status (p_workspace q) = WsDeleting"
    by (cases e) auto
  from deletion_walks_its_phases [OF calm_rely one_workspace_ok e(1)] e show ?thesis by blast
qed

text \<open>C17: storage is released only at the end. In every world as before, when any method of the manager
  releases the storage of a workspace, then the last projection it has seen of the workspace is
  in the releasing phase of its deletion, the storage released is that of this projection and of
  the binding, and the last thing done before was to count the other live workspaces that refer
  to this storage, and there was none.\<close>

theorem storage_released_last:
  assumes "exec_rely wd" "workspaces_inv m" "call_log wd m c = later @ Releasing rq b # earlier"
  shows "releases_safely rq b earlier"
  using call_log_ok [OF assms(1,2), of c] log_ok_split [of later "Releasing rq b" earlier] assms(3) by simp

theorem storage_released_last_witness:
  "\<exists>later rq b earlier. call_log calm_world one_workspace (McDelete 6 sample_deletion) = later @ Releasing rq b # earlier
     \<and> releases_safely rq b earlier"
proof -
  let ?log = "call_log calm_world one_workspace (McDelete 6 sample_deletion)"
  obtain s q where s: "delete_workspace calm_world 6 sample_deletion (start_run one_workspace) = (s, Inr (Some q))"
    "\<forall>a. a \<noteq> PhDeleted \<longrightarrow> work_done a ''w1'' (er_log s)"
    using sample_deletion_done by blast
  then have "list_ex (work_of PhReleasingStorage ''w1'') ?log" by (auto simp: call_log_def work_done_def)
  from list_ex_event [OF this] obtain l e r where "?log = l @ e # r" "work_of PhReleasingStorage ''w1'' e" .
  then obtain rq where "?log = l @ Released rq # r" by (cases e) auto
  moreover have "log_ok ?log" using calm_rely one_workspace_ok by (rule call_log_ok)
  ultimately obtain b where "Releasing rq b \<in> set r" using log_ok_split [of l "Released rq" r] by auto
  then obtain l' r' where "r = l' @ Releasing rq b # r'" using split_list by metis
  with \<open>?log = l @ Released rq # r\<close> have e: "?log = (l @ Released rq # l') @ Releasing rq b # r'" by simp
  from storage_released_last [OF calm_rely one_workspace_ok e] e show ?thesis by blast
qed

end
