(* ===== verification/Execution_Outcomes.thy ===== *)
theory Execution_Outcomes
  imports Execution_Safety
begin

text \<open>
  What a reconciliation leaves behind, \<open>WorkspaceExecutionManager.reconcile\<close>: in every world the
  projection it returns is settled and is what the store holds; without interference a repeated
  call is answered from the store, and a failure of the provider is recorded with nothing else
  changed. Two lemmas show where the code departs from its documentation.
\<close>

section \<open>What is returned is stored\<close>

definition settled :: "projection \<Rightarrow> bool" where
  "settled p \<longleftrightarrow> w_status (p_workspace p) = WsActive \<and> x_transactionId (p_execution p) \<noteq> None
     \<and> (x_transactionStatus (p_execution p) = TxRolledBack
        \<or> (x_transactionStatus (p_execution p) = TxApplied \<or> x_transactionStatus (p_execution p) = TxAwaitingFirstStart)
          \<and> x_deployedGeneration (p_execution p) = x_desiredGeneration (p_execution p))"

lemma exec_save_held:
  assumes rely: "exec_rely wd" "mem_ok s" and i: "w_id (p_workspace nxt) = i"
    and none: "\<And>s'. mem_ok s' \<Longrightarrow> Q None s'"
    and some: "\<And>q s'. saved_as current nxt q \<Longrightarrow> holds_at i q s' \<Longrightarrow> Q (Some q) s'"
  shows "after (exec_save wd current nxt) Q (\<lambda>_ _. True) s"
proof -
  let ?cas = "cas_execution (er_mem (waited wd s)) nxt (x_revision (p_execution current))"
  have inv: "workspaces_inv (fst ?cas)" using waited_ok [OF rely] by (rule cas_execution_inv)
  have "saved_as current nxt q" if "?cas = (m, Inr (Some q))" for m q
    using that by (rule cas_execution_Some) (unfold saved_as_def, blast)
  moreover have "js_get (m_workspaceExecutions m) i = Some q" if "?cas = (m, Inr (Some q))" for m q
    using that by (rule cas_execution_Some) (simp add: i)
  ultimately show ?thesis
    using inv by (auto simp: after_exec_save holds_at_def split: prod.split sum.split option.split intro!: none some)
qed

lemma exec_projection_held:
  assumes rely: "exec_rely wd" "mem_ok s" and Q: "\<And>p s'. holds_at i p s' \<Longrightarrow> projection_valid p \<Longrightarrow> w_id (p_workspace p) = i \<Longrightarrow> Q p s'"
  shows "after (exec_projection wd i) Q (\<lambda>_ _. True) s"
  using waited_ok [OF rely] get_projection_stored [of "er_mem (waited wd s)" i] get_projection_id [of "er_mem (waited wd s)" i]
  by (auto simp: exec_projection_def after_exec_read holds_at_def split: sum.split option.split intro!: Q)

lemma active_projection_held:
  assumes rely: "exec_rely wd" "mem_ok s" and Q: "\<And>p s'. holds_at i p s' \<Longrightarrow> projection_valid p \<Longrightarrow> w_id (p_workspace p) = i
    \<Longrightarrow> w_status (p_workspace p) = WsActive \<Longrightarrow> Q p s'"
  shows "after (active_projection wd i) Q (\<lambda>_ _. True) s"
  unfolding active_projection_def after_bind
  by (rule exec_projection_held [OF rely]) (auto simp: check_active_def intro: Q)

lemma exec_call_held:
  assumes rely: "exec_rely wd" "mem_ok s" and Q: "\<And>x s'. mem_ok s' \<Longrightarrow> Q x s'"
  shows "after (exec_call wd f) Q (\<lambda>_ _. True) s"
  using waited_ok [OF rely] by (auto simp: after_exec_call split: sum.split intro!: Q)

lemma holds_at_ok: "holds_at i p s \<Longrightarrow> mem_ok s"
  by (simp add: holds_at_def)

lemma completed_settled:
  "completed_transaction p input t \<Longrightarrow> w_status (p_workspace p) = WsActive \<Longrightarrow> settled p"
  by (auto simp: completed_transaction_def settled_def Let_def)

lemma with_result_more:
  assumes "with_result input res now p = Inr nxt"
  shows "x_transactionStatus (p_execution nxt) = (if rr_status res = RsRolledBack then TxRolledBack
      else if rr_status res = RsAwaitingFirstStart then TxAwaitingFirstStart else TxApplied)
    \<and> x_desiredState (p_execution nxt) = x_desiredState (p_execution p)
    \<and> x_desiredAppRevisionId (p_execution nxt) = x_desiredAppRevisionId (p_execution p)
    \<and> x_desiredLaunchArtifactId (p_execution nxt) = x_desiredLaunchArtifactId (p_execution p)
    \<and> x_desiredLaunchArtifactReference (p_execution nxt) = x_desiredLaunchArtifactReference (p_execution p)
    \<and> x_providerId (p_execution nxt) = x_providerId (p_execution p)
    \<and> w_ownerId (p_workspace nxt) = w_ownerId (p_workspace p) \<and> w_appId (p_workspace nxt) = w_appId (p_workspace p)"
proof (cases "rr_status res = RsRolledBack")
  case True
  with assms show ?thesis by (auto simp: with_result_def Let_def rbind_Inr_iff)
next
  case False
  then show ?thesis
  proof (cases "pe_observedState (rr_execution res) = Obs Running")
    case True
    with False assms show ?thesis by (auto simp: with_result_def Let_def rbind_Inr_iff)
  next
    case stopped: False
    with False assms show ?thesis by (auto simp: with_result_def Let_def rbind_Inr_iff)
  qed
qed

lemma with_result_settled:
  assumes "saved_as p nxt q" "with_result input res now p = Inr nxt" "w_status (p_workspace p) = WsActive"
    "x_transactionId (p_execution p) = Some t" "x_desiredGeneration (p_execution p) = rr_generation res"
  shows "settled q"
  using assms(3-5) with_result_fields [OF assms(2)] with_result_more [OF assms(2)]
  by (auto simp: settled_def saved_as_fields [OF assms(1)])

definition outcome :: "string \<Rightarrow> projection \<Rightarrow> exec_run \<Rightarrow> bool" where
  "outcome i p s \<longleftrightarrow> holds_at i p s \<and> settled p"

lemma commit_result_outcome:
  assumes rely: "exec_rely wd" and "mem_ok s"
  shows "after (commit_result wd input res) (outcome (ri_workspaceId input)) (\<lambda>_ _. True) s"
  unfolding commit_result_def
proof (rule after_attempts [where I = mem_ok], unfold after_bind, goal_cases)
  case (1 s)
  show ?case
  proof (rule active_projection_held [OF rely 1])
    fix p s' assume p: "holds_at (ri_workspaceId input) p s'" "projection_valid p" "w_id (p_workspace p) = ri_workspaceId input"
      "w_status (p_workspace p) = WsActive"
    have save: "after (exec_save wd p nxt)
        (\<lambda>r s. case r of None \<Rightarrow> mem_ok s | Some x \<Rightarrow> outcome (ri_workspaceId input) x s) (\<lambda>_ _. True) (s'\<lparr>er_step := k\<rparr>)"
      if "with_result input res now p = Inr nxt" "x_transactionId (p_execution p) = Some (rr_transactionId res)"
        "x_desiredGeneration (p_execution p) = rr_generation res" for now nxt k
    proof (rule exec_save_held [OF rely])
      fix q s2 assume "saved_as p nxt q" "holds_at (ri_workspaceId input) q s2"
      with with_result_settled [OF this(1) that(1) p(4) that(2,3)]
      show "case Some q of None \<Rightarrow> mem_ok s2 | Some x \<Rightarrow> outcome (ri_workspaceId input) x s2" by (simp add: outcome_def)
    qed (use p with_result_fields [OF that(1)] in \<open>auto simp: holds_at_ok\<close>)
    have completed: "outcome (ri_workspaceId input) p s'" if "completed_transaction p input (rr_transactionId res)"
      using completed_settled [OF that p(4)] p(1) by (simp add: outcome_def)
    show "after (if x_transactionId (p_execution p) \<noteq> Some (rr_transactionId res)
           \<or> x_desiredGeneration (p_execution p) \<noteq> rr_generation res
        then if completed_transaction p input (rr_transactionId res) then act_ret (Some p)
             else act_throw (StateError ''workspace_execution_transaction_superseded'')
        else act_bind (act_of (check_provider_execution p (rr_execution res))) (\<lambda>_.
             act_bind (exec_clock wd) (\<lambda>now.
             act_bind (act_of (with_result input res now p)) (\<lambda>nxt. exec_save wd p nxt))))
        (\<lambda>r s. case r of None \<Rightarrow> mem_ok s | Some x \<Rightarrow> outcome (ri_workspaceId input) x s) (\<lambda>_ _. True) s'"
      using save completed by (auto split: sum.split)
  qed
qed (use assms in auto)

lemma persist_intent_outcome:
  assumes rely: "exec_rely wd" and "mem_ok s"
  shows "after (persist_intent wd input t)
    (\<lambda>p s. holds_at (ri_workspaceId input) p s \<and> w_status (p_workspace p) = WsActive) (\<lambda>_ _. True) s"
  unfolding persist_intent_def
proof (rule after_attempts [where I = mem_ok], unfold after_bind, goal_cases)
  case (1 s)
  show ?case
  proof (rule active_projection_held [OF rely 1])
    fix p s' assume p: "holds_at (ri_workspaceId input) p s'" "projection_valid p" "w_id (p_workspace p) = ri_workspaceId input"
      "w_status (p_workspace p) = WsActive"
    have save: "after (exec_save wd p (with_intent input t now p))
        (\<lambda>r s. case r of None \<Rightarrow> mem_ok s
          | Some p \<Rightarrow> holds_at (ri_workspaceId input) p s \<and> w_status (p_workspace p) = WsActive) (\<lambda>_ _. True) (s'\<lparr>er_step := k\<rparr>)" for now k
    proof (rule exec_save_held [OF rely])
      show "w_id (p_workspace (with_intent input t now p)) = ri_workspaceId input" using p by (simp add: with_intent_def Let_def)
    qed (use p saved_intent_active in \<open>auto simp: holds_at_ok\<close>)
    show "after (let providerId = (case ri_providerId input of Some i \<Rightarrow> i | None \<Rightarrow> x_providerId (p_execution p))
        in act_bind (act_of (check_reconcile_identity p input providerId)) (\<lambda>_.
           if completed_transaction p input t then act_ret (Some p)
           else act_bind (exec_clock wd) (\<lambda>now. exec_save wd p (with_intent input t now p))))
       (\<lambda>r s. case r of None \<Rightarrow> mem_ok s
          | Some p \<Rightarrow> holds_at (ri_workspaceId input) p s \<and> w_status (p_workspace p) = WsActive) (\<lambda>_ _. True) s'"
      using p save by (auto simp: Let_def split: sum.split)
  qed
qed (use assms in auto)

lemma exec_reconcile_outcome:
  assumes rely: "exec_rely wd" and ok: "mem_ok s"
  shows "after (exec_reconcile wd input) (outcome (ri_workspaceId input)) (\<lambda>_ _. True) s"
proof -
  let ?i = "ri_workspaceId input"
  have applied: "after (apply_intent wd input t p) (outcome ?i) (\<lambda>e. after
      (if is_cancellation e then act_throw e else act_bind (record_provider_failure wd ?i t e) (\<lambda>_. act_throw e))
      (outcome ?i) (\<lambda>_ _. True)) s" if "mem_ok s" for t p s
  proof -
    have handled: "after (if is_cancellation e then act_throw e else act_bind (record_provider_failure wd ?i t e) (\<lambda>_. act_throw e))
      (outcome ?i) (\<lambda>_ _. True) s" for e s
      by simp
    have "after (apply_intent wd input t p) (outcome ?i) (\<lambda>_ _. True) s"
      using that unfolding apply_intent_def resolve_binding_def
      by (auto simp: Let_def intro!: exec_call_held [OF rely] commit_result_outcome [OF rely])
    then show ?thesis by (rule after_mono) (auto intro: handled)
  qed
  have rest: "after (if completed_transaction p input t then act_ret p
          else act_case (apply_intent wd input t p)
            (\<lambda>e. if is_cancellation e then act_throw e
                 else act_bind (record_provider_failure wd ?i t e) (\<lambda>_. act_throw e))
            act_ret) (outcome ?i) (\<lambda>_ _. True) s"
    if "holds_at ?i p s" "w_status (p_workspace p) = WsActive" for p t s
  proof (cases "completed_transaction p input t")
    case True
    with that completed_settled [OF True that(2)] show ?thesis by (simp add: outcome_def)
  next
    case False
    with applied [of s t p] that show ?thesis by (simp add: holds_at_ok)
  qed
  have persist: "after (persist_intent wd input t) (\<lambda>p. after (if completed_transaction p input t then act_ret p
          else act_case (apply_intent wd input t p)
            (\<lambda>e. if is_cancellation e then act_throw e
                 else act_bind (record_provider_failure wd ?i t e) (\<lambda>_. act_throw e))
            act_ret) (outcome ?i) (\<lambda>_ _. True)) (\<lambda>_ _. True) s" if "mem_ok s" for t s
    by (rule after_mono [OF persist_intent_outcome [OF rely that]]) (use rest in auto)
  show ?thesis
    using ok persist unfolding exec_reconcile_def
    by (auto simp: Let_def split: option.split sum.split intro!: active_projection_held [OF rely] dest: holds_at_ok)
qed

text \<open>What a reconciliation returns is settled, and is what the store holds. In every world in
  which the other processes keep the invariant of the store, whatever the provider answers: if
  \<open>reconcile\<close> returns a projection then the workspace is live, its transaction is applied or
  awaits its first start with the desired generation deployed, or is rolled back, never still in
  progress or failed; and at that moment the store holds exactly this projection.\<close>

theorem reconcile_returns_the_settled_state:
  assumes "exec_rely wd" "workspaces_inv m" "exec_reconcile wd input (start_run m) = (s, Inr p)"
  shows "settled p \<and> get_projection (er_mem s) (ri_workspaceId input) = Inr (Some p)"
proof -
  have "after (exec_reconcile wd input) (outcome (ri_workspaceId input)) (\<lambda>_ _. True) (start_run m)"
    using assms(1,2) by (intro exec_reconcile_outcome) (simp_all add: start_run_def)
  with assms(3) have "outcome (ri_workspaceId input) p s" by (simp add: after_def)
  then show ?thesis using holds_at_facts(3) by (auto simp: outcome_def)
qed

lemma sample_reconcile_returns: "\<exists>s p. exec_reconcile calm_world sample_input (start_run one_workspace) = (s, Inr p)"
proof -
  have "case snd (exec_reconcile calm_world sample_input (start_run one_workspace)) of Inl _ \<Rightarrow> False | Inr _ \<Rightarrow> True" by code_simp
  then show ?thesis by (cases "exec_reconcile calm_world sample_input (start_run one_workspace)") (auto split: sum.splits)
qed

theorem reconcile_returns_the_settled_state_witness:
  "\<exists>s p. exec_reconcile calm_world sample_input (start_run one_workspace) = (s, Inr p)
     \<and> settled p \<and> get_projection (er_mem s) ''w1'' = Inr (Some p)"
proof -
  from sample_reconcile_returns obtain s p where r: "exec_reconcile calm_world sample_input (start_run one_workspace) = (s, Inr p)" by blast
  have "ri_workspaceId sample_input = ''w1''" by (simp add: sample_input_def)
  with reconcile_returns_the_settled_state [OF calm_rely one_workspace_ok r] r show ?thesis by auto
qed

section \<open>Undisturbed reconciliations\<close>

text \<open>The request is for this workspace, and its transaction and desired state are those of the request.\<close>

definition accepted :: "reconcile_input \<Rightarrow> projection \<Rightarrow> bool" where
  "accepted input p \<longleftrightarrow>
     w_status (p_workspace p) = WsActive \<and> w_ownerId (p_workspace p) = ri_ownerId input
     \<and> w_appId (p_workspace p) = ri_appId input
     \<and> (\<forall>i. ri_providerId input = Some i \<longrightarrow> x_providerId (p_execution p) = i)"

definition intended :: "reconcile_input \<Rightarrow> string \<Rightarrow> projection \<Rightarrow> bool" where
  "intended input t p \<longleftrightarrow>
     accepted input p \<and> x_transactionId (p_execution p) = Some t
     \<and> x_desiredState (p_execution p) = ri_desiredState input
     \<and> x_desiredAppRevisionId (p_execution p) = ri_appRevisionId input
     \<and> x_desiredLaunchArtifactId (p_execution p) = ri_launchArtifactId input
     \<and> x_desiredLaunchArtifactReference (p_execution p) = Some (ri_launchArtifactReference input)"

text \<open>The checks that do not depend on the store.\<close>

definition well_formed_input :: "exec_world \<Rightarrow> reconcile_input \<Rightarrow> string \<Rightarrow> bool" where
  "well_formed_input wd input t \<longleftrightarrow>
     lp_imageReference (ri_launchProfile input) = ri_launchArtifactReference input
     \<and> (\<forall>c. ri_storageClass input = Some c \<longrightarrow> c = ''workspace-data'')
     \<and> (\<exists>k. ri_transactionKey input = Some k \<and> k \<noteq> []
          \<and> execution_transaction_id (ew_digest wd) (ri_workspaceId input) k = Inr t)"

lemma check_identity_accepted:
  "check_reconcile_identity p input (case ri_providerId input of Some i \<Rightarrow> i | None \<Rightarrow> x_providerId (p_execution p)) =
     (if accepted input p then Inr () else if w_status (p_workspace p) \<noteq> WsActive then Inl (StateError ''workspace_not_active'')
      else Inl (StateError ''workspace_execution_identity_mismatch''))"
  by (auto simp: check_reconcile_identity_def accepted_def split: option.split)

lemma undisturbed_rely: "undisturbed wd \<Longrightarrow> exec_rely wd"
  by (simp add: undisturbed_def exec_rely_def)

lemma undisturbed_holds: "undisturbed wd \<Longrightarrow> holds_at i p (waited wd s) = holds_at i p s"
  by (simp add: holds_at_def undisturbed_waited)

lemma active_projection_undisturbed:
  assumes "undisturbed wd" "holds_at i p s"
    and "\<And>s'. w_status (p_workspace p) = WsActive \<Longrightarrow> er_mem s' = er_mem s \<Longrightarrow> er_log s' = Got p # er_log s \<Longrightarrow> Q p s'"
    and "\<And>s' e. w_status (p_workspace p) \<noteq> WsActive \<Longrightarrow> E e s'"
  shows "after (active_projection wd i) Q E s"
  unfolding active_projection_def after_bind
  by (rule exec_projection_undisturbed [OF assms(1,2)]) (auto simp: check_active_def intro: assms(3,4))

lemma exec_call_undisturbed:
  assumes "undisturbed wd"
    and "\<And>x s'. f (er_step s) = Inr x \<Longrightarrow> er_mem s' = er_mem s \<Longrightarrow> er_log s' = er_log s \<Longrightarrow> Q x s'"
    and "\<And>e s'. f (er_step s) = Inl e \<Longrightarrow> er_mem s' = er_mem s \<Longrightarrow> er_log s' = er_log s \<Longrightarrow> E e s'"
  shows "after (exec_call wd f) Q E s"
  using assms(2,3) undisturbed_waited [OF assms(1), of s] by (auto simp: after_exec_call split: sum.split)

lemma exec_save_quiet:
  assumes quiet: "undisturbed wd" and p: "holds_at i p s" and i: "w_id (p_workspace nxt) = i"
    and none: "\<And>s'. holds_at i p s' \<Longrightarrow> Q None s'"
    and some: "\<And>q s'. saved_as current nxt q \<Longrightarrow> holds_at i q s' \<Longrightarrow> Q (Some q) s'"
  shows "after (exec_save wd current nxt) Q (\<lambda>_ _. True) s"
proof -
  let ?cas = "cas_execution (er_mem s) nxt (x_revision (p_execution current))"
  have inv: "workspaces_inv (fst ?cas)" using p by (simp add: holds_at_def cas_execution_inv)
  have "saved_as current nxt q" if "?cas = (m, Inr (Some q))" for m q
    using that by (rule cas_execution_Some) (unfold saved_as_def, blast)
  moreover have "js_get (m_workspaceExecutions m) i = Some q" if "?cas = (m, Inr (Some q))" for m q
    using that by (rule cas_execution_Some) (simp add: i)
  moreover have "m = er_mem s" if "?cas = (m, Inr None)" for m using cas_execution_unchanged [OF that] by simp
  ultimately show ?thesis
    using inv p by (auto simp: after_exec_save undisturbed_waited [OF quiet] holds_at_def
        split: prod.split sum.split option.split intro!: none some)
qed

lemma saved_intent_intended:
  assumes "saved_as p (with_intent input t now p) q" "accepted input p"
  shows "intended input t q"
  using assms(2) unfolding intended_def accepted_def saved_as_fields [OF assms(1)] by (simp add: with_intent_def Let_def)

lemma persist_intent_quiet:
  assumes quiet: "undisturbed wd" and p: "holds_at (ri_workspaceId input) p s"
  shows "after (persist_intent wd input t)
    (\<lambda>q s. holds_at (ri_workspaceId input) q s \<and> intended input t q) (\<lambda>_ _. True) s"
  unfolding persist_intent_def
proof (rule after_attempts [where I = "holds_at (ri_workspaceId input) p"], unfold after_bind, goal_cases)
  case (1 s)
  have i: "w_id (p_workspace p) = ri_workspaceId input" using holds_at_facts [OF p] by simp
  show ?case
  proof (rule active_projection_undisturbed [OF quiet 1])
    fix s' :: exec_run assume s': "w_status (p_workspace p) = WsActive" "er_mem s' = er_mem s"
    have save: "after (exec_save wd p (with_intent input t now p))
        (\<lambda>r s. case r of None \<Rightarrow> holds_at (ri_workspaceId input) p s
          | Some q \<Rightarrow> holds_at (ri_workspaceId input) q s \<and> intended input t q) (\<lambda>_ _. True) (s'\<lparr>er_step := k\<rparr>)"
      if "accepted input p" for now k
    proof (rule exec_save_quiet [OF quiet])
      show "holds_at (ri_workspaceId input) p (s'\<lparr>er_step := k\<rparr>)" using 1 s'(2) by (simp add: holds_at_def)
      show "w_id (p_workspace (with_intent input t now p)) = ri_workspaceId input" using i by (simp add: with_intent_def Let_def)
    qed (use that saved_intent_intended in auto)
    have "intended input t p" if "accepted input p" "completed_transaction p input t"
      using that by (auto simp: intended_def completed_transaction_def Let_def)
    moreover have "holds_at (ri_workspaceId input) p s'" using 1 s'(2) by (simp add: holds_at_def)
    ultimately show "after (let providerId = (case ri_providerId input of Some i \<Rightarrow> i | None \<Rightarrow> x_providerId (p_execution p))
        in act_bind (act_of (check_reconcile_identity p input providerId)) (\<lambda>_.
           if completed_transaction p input t then act_ret (Some p)
           else act_bind (exec_clock wd) (\<lambda>now. exec_save wd p (with_intent input t now p))))
       (\<lambda>r s. case r of None \<Rightarrow> holds_at (ri_workspaceId input) p s
          | Some q \<Rightarrow> holds_at (ri_workspaceId input) q s \<and> intended input t q) (\<lambda>_ _. True) s'"
      using save by (simp add: Let_def check_identity_accepted)
  qed simp
qed (use p in auto)

lemma commit_result_quiet:
  assumes quiet: "undisturbed wd" and p: "holds_at (ri_workspaceId input) p s" "intended input t p"
  shows "after (commit_result wd input res)
    (\<lambda>q s. holds_at (ri_workspaceId input) q s \<and> intended input t q
       \<and> (x_transactionStatus (p_execution q) = TxRolledBack \<or> completed_transaction q input t)) (\<lambda>_ _. True) s"
  unfolding commit_result_def
proof (rule after_attempts [where I = "holds_at (ri_workspaceId input) p"], unfold after_bind, goal_cases)
  case (1 s)
  let ?Q = "\<lambda>r s. case r of None \<Rightarrow> holds_at (ri_workspaceId input) p s
      | Some q \<Rightarrow> holds_at (ri_workspaceId input) q s \<and> intended input t q
         \<and> (x_transactionStatus (p_execution q) = TxRolledBack \<or> completed_transaction q input t)"
  have i: "w_id (p_workspace p) = ri_workspaceId input" using holds_at_facts [OF p(1)] by simp
  have tx: "x_transactionId (p_execution p) = Some t" using p(2) by (simp add: intended_def)
  show ?case
  proof (rule active_projection_undisturbed [OF quiet 1])
    fix s' :: exec_run assume s': "w_status (p_workspace p) = WsActive" "er_mem s' = er_mem s"
    have held: "holds_at (ri_workspaceId input) p s'" using 1 s'(2) by (simp add: holds_at_def)
    have save: "after (exec_save wd p nxt) ?Q (\<lambda>_ _. True) (s'\<lparr>er_step := k\<rparr>)"
      if "with_result input res now p = Inr nxt" "x_desiredGeneration (p_execution p) = rr_generation res" for now k nxt
    proof (rule exec_save_quiet [OF quiet])
      note fields = with_result_fields [OF that(1)] with_result_more [OF that(1)]
      show "w_id (p_workspace nxt) = ri_workspaceId input" using i fields by simp
      fix q s2 assume q: "saved_as p nxt q" "holds_at (ri_workspaceId input) q s2"
      have "intended input t q"
        using p(2) fields unfolding intended_def accepted_def saved_as_fields [OF q(1)] by simp
      moreover have "x_transactionStatus (p_execution q) = TxRolledBack \<or> completed_transaction q input t"
        using p(2) fields that(2) unfolding intended_def completed_transaction_def Let_def saved_as_fields [OF q(1)] by simp
      ultimately show "?Q (Some q) s2" using q(2) by simp
    qed (use held in auto)
    have completed: "?Q (Some p) s'" if "completed_transaction p input t"
      using that held p(2) by simp
    show "after (if x_transactionId (p_execution p) \<noteq> Some (rr_transactionId res)
           \<or> x_desiredGeneration (p_execution p) \<noteq> rr_generation res
        then if completed_transaction p input (rr_transactionId res) then act_ret (Some p)
             else act_throw (StateError ''workspace_execution_transaction_superseded'')
        else act_bind (act_of (check_provider_execution p (rr_execution res))) (\<lambda>_.
             act_bind (exec_clock wd) (\<lambda>now.
             act_bind (act_of (with_result input res now p)) (\<lambda>nxt. exec_save wd p nxt)))) ?Q (\<lambda>_ _. True) s'"
      using save completed tx by (auto simp: completed_transaction_def Let_def split: sum.split)
  qed simp
qed (use p in auto)

definition quiet_post :: "exec_world \<Rightarrow> reconcile_input \<Rightarrow> projection \<Rightarrow> exec_run \<Rightarrow> bool" where
  "quiet_post wd input q s \<longleftrightarrow> (\<exists>t. holds_at (ri_workspaceId input) q s \<and> well_formed_input wd input t \<and> intended input t q
     \<and> (x_transactionStatus (p_execution q) = TxRolledBack \<or> completed_transaction q input t))"

lemma exec_reconcile_quiet:
  assumes quiet: "undisturbed wd" and p: "holds_at (ri_workspaceId input) p s" and key: "ri_transactionKey input = Some k" "k \<noteq> []"
  shows "after (exec_reconcile wd input)
    (quiet_post wd input) (\<lambda>_ _. True) s"
proof -
  let ?i = "ri_workspaceId input"
  let ?Q = "quiet_post wd input"
  have commit: "after (commit_result wd input res) ?Q (\<lambda>_ _. True) s2"
    if "well_formed_input wd input t" "holds_at ?i q s2" "intended input t q" for t q s2 res
    by (rule after_mono [OF commit_result_quiet [OF quiet that(2,3)]]) (use that(1) in \<open>auto simp: quiet_post_def\<close>)
  have applied: "after (apply_intent wd input t q) ?Q (\<lambda>_ _. True) s2"
    if "well_formed_input wd input t" "holds_at ?i q s2" "intended input t q" for t q s2
  proof -
    have held: "holds_at ?i q s3" if "er_mem s3 = er_mem s2" for s3 :: exec_run
      using that \<open>holds_at ?i q s2\<close> by (simp add: holds_at_def)
    show ?thesis unfolding apply_intent_def resolve_binding_def
      by (auto simp: Let_def intro!: exec_call_undisturbed [OF quiet] commit [OF that(1) held that(3)])
  qed
  have persist: "after (persist_intent wd input t) (\<lambda>q. after (if completed_transaction q input t then act_ret q
          else act_case (apply_intent wd input t q)
            (\<lambda>e. if is_cancellation e then act_throw e
                 else act_bind (record_provider_failure wd ?i t e) (\<lambda>_. act_throw e))
            act_ret) ?Q (\<lambda>_ _. True)) (\<lambda>_ _. True) s2" if "well_formed_input wd input t" "holds_at ?i p s2" for t s2
  proof (rule after_mono [OF persist_intent_quiet [OF quiet that(2)]])
    fix q s3 assume q: "holds_at ?i q s3 \<and> intended input t q"
    have "after (apply_intent wd input t q) ?Q (\<lambda>e. after (if is_cancellation e then act_throw e
           else act_bind (record_provider_failure wd ?i t e) (\<lambda>_. act_throw e)) ?Q (\<lambda>_ _. True)) s3"
      by (rule after_mono [OF applied [OF that(1)]]) (use q in auto)
    then show "after (if completed_transaction q input t then act_ret q
          else act_case (apply_intent wd input t q)
            (\<lambda>e. if is_cancellation e then act_throw e
                 else act_bind (record_provider_failure wd ?i t e) (\<lambda>_. act_throw e))
            act_ret) ?Q (\<lambda>_ _. True) s3"
      using q that(1) by (cases "completed_transaction q input t") (simp_all, auto simp: quiet_post_def)
  qed auto
  have storage: "sr_storageClass (workspace_storage_ref w x) = ''workspace-data''" for w x by (simp add: workspace_storage_ref_def)
  have held: "holds_at ?i p s3" if "er_mem s3 = er_mem s" for s3 :: exec_run
    using that p by (simp add: holds_at_def)
  show ?thesis
    unfolding exec_reconcile_def
    by (auto simp: Let_def storage key well_formed_input_def split: sum.split
        intro!: active_projection_undisturbed [OF quiet p] persist [unfolded after_bind] held)
qed

text \<open>A completed transaction is answered from the store.\<close>

lemma exec_reconcile_completed:
  assumes quiet: "undisturbed wd" and go: "\<forall>n. \<not> ew_aborted wd n" and p: "holds_at (ri_workspaceId input) p s"
    and input: "well_formed_input wd input t" "accepted input p" "completed_transaction p input t"
  shows "after (exec_reconcile wd input)
    (\<lambda>q s'. q = p \<and> er_mem s' = er_mem s \<and> er_log s' = Got p # Got p # er_log s) (\<lambda>_ _. False) s"
proof -
  let ?Q = "\<lambda>q s'. q = p \<and> er_mem s' = er_mem s \<and> er_log s' = Got p # Got p # er_log s"
  have active: "w_status (p_workspace p) = WsActive" using input(2) by (simp add: accepted_def)
  have persist: "after (persist_intent wd input t) ?Q (\<lambda>_ _. False) s2"
    if "er_mem s2 = er_mem s" "er_log s2 = Got p # er_log s" for s2
    unfolding persist_intent_def
  proof (rule attempts_once, unfold after_bind)
    have held: "holds_at (ri_workspaceId input) p s2" using that(1) p by (simp add: holds_at_def)
    show "after (active_projection wd (ri_workspaceId input))
       (\<lambda>current. after (let providerId = (case ri_providerId input of Some i \<Rightarrow> i | None \<Rightarrow> x_providerId (p_execution current))
        in act_bind (act_of (check_reconcile_identity current input providerId)) (\<lambda>_.
           if completed_transaction current input t then act_ret (Some current)
           else act_bind (exec_clock wd) (\<lambda>now. exec_save wd current (with_intent input t now current))))
         (\<lambda>r s. case r of None \<Rightarrow> False | Some x \<Rightarrow> ?Q x s) (\<lambda>_ _. False)) (\<lambda>_ _. False) s2"
      by (rule active_projection_undisturbed [OF quiet held])
        (use input(2,3) active that in \<open>auto simp: Let_def check_identity_accepted\<close>)
  qed
  have rest: "after (persist_intent wd input t) (\<lambda>q. after (if completed_transaction q input t then act_ret q
          else act_case (apply_intent wd input t q)
            (\<lambda>e. if is_cancellation e then act_throw e
                 else act_bind (record_provider_failure wd (ri_workspaceId input) t e) (\<lambda>_. act_throw e))
            act_ret) ?Q (\<lambda>_ _. False)) (\<lambda>_ _. False) s2"
    if "er_mem s2 = er_mem s" "er_log s2 = Got p # er_log s" for s2
    by (rule after_mono [OF persist [OF that]]) (use input(3) in auto)
  from input(1) obtain k where k: "ri_transactionKey input = Some k" "k \<noteq> []"
    "execution_transaction_id (ew_digest wd) (ri_workspaceId input) k = Inr t" and
    static: "lp_imageReference (ri_launchProfile input) = ri_launchArtifactReference input"
    "ri_storageClass input = None \<or> ri_storageClass input = Some ''workspace-data''"
    by (cases "ri_storageClass input") (auto simp: well_formed_input_def)
  have storage: "sr_storageClass (workspace_storage_ref w x) = ''workspace-data''" for w x by (simp add: workspace_storage_ref_def)
  show ?thesis
    unfolding exec_reconcile_def
    using go static active k
    by (auto simp: Let_def storage intro!: active_projection_undisturbed [OF quiet p] rest [unfolded after_bind])
qed

lemma exec_reconcile_needs_stored:
  assumes quiet: "undisturbed wd" and ok: "mem_ok s"
  shows "after (exec_reconcile wd input) (\<lambda>_ _. \<exists>p. holds_at (ri_workspaceId input) p s) (\<lambda>_ _. True) s"
proof (cases "\<exists>p. holds_at (ri_workspaceId input) p s")
  case False
  have "after (active_projection wd (ri_workspaceId input)) (\<lambda>_ _. False) (\<lambda>_ _. True) s"
    using False ok get_projection_stored [of "er_mem s" "ri_workspaceId input"]
    by (auto simp: active_projection_def exec_projection_def after_exec_read undisturbed_waited [OF quiet] holds_at_def
        split: sum.split option.split)
  then have none: "after (active_projection wd (ri_workspaceId input)) Q (\<lambda>_ _. True) s" for Q
    by (rule after_mono) auto
  show ?thesis unfolding exec_reconcile_def by (auto simp: Let_def split: option.split intro!: none)
qed simp

text \<open>C21: a repeated reconciliation is answered from the store. Without interference, when a call with a
  transaction key has returned a projection that is not rolled back, the same call again returns
  the same projection without asking the provider or the storage and without writing: it only
  reads the workspace, and the store is as before. (A rolled back transaction is tried again.)\<close>

theorem repeated_reconcile_is_silent:
  assumes "undisturbed wd" "\<forall>n. \<not> ew_aborted wd n" "ri_transactionKey input = Some k" "k \<noteq> []"
    "workspaces_inv m" "exec_reconcile wd input (start_run m) = (s, Inr p)" "x_transactionStatus (p_execution p) \<noteq> TxRolledBack"
  shows "\<exists>s2. exec_reconcile wd input (start_run (er_mem s)) = (s2, Inr p) \<and> er_mem s2 = er_mem s \<and> er_log s2 = [Got p, Got p]"
proof -
  let ?i = "ri_workspaceId input"
  have "\<exists>p0. holds_at ?i p0 (start_run m)"
    using exec_reconcile_needs_stored [OF assms(1), of "start_run m" input] assms(5,6)
    by (simp add: start_run_def after_def)
  then obtain p0 where "holds_at ?i p0 (start_run m)" ..
  from exec_reconcile_quiet [OF assms(1) this assms(3,4)] assms(6,7) obtain t
    where t: "holds_at ?i p s" "well_formed_input wd input t" "intended input t p" "completed_transaction p input t"
    by (auto simp: after_def quiet_post_def)
  have "holds_at ?i p (start_run (er_mem s))" using t(1) by (simp add: holds_at_def start_run_def)
  from exec_reconcile_completed [OF assms(1,2) this t(2) _ t(4)] t(3)
  show ?thesis by (auto simp: after_def start_run_def intended_def split: prod.splits sum.splits)
qed

lemma sample_reconcile_applied:
  "case snd (exec_reconcile calm_world sample_input (start_run one_workspace)) of
     Inl _ \<Rightarrow> False | Inr p \<Rightarrow> x_transactionStatus (p_execution p) = TxApplied"
  by code_simp

theorem repeated_reconcile_is_silent_witness:
  "\<exists>s p s2. exec_reconcile calm_world sample_input (start_run one_workspace) = (s, Inr p)
     \<and> exec_reconcile calm_world sample_input (start_run (er_mem s)) = (s2, Inr p) \<and> er_log s2 = [Got p, Got p]"
proof -
  obtain s p where r: "exec_reconcile calm_world sample_input (start_run one_workspace) = (s, Inr p)"
      "x_transactionStatus (p_execution p) = TxApplied"
    using sample_reconcile_applied
    by (cases "exec_reconcile calm_world sample_input (start_run one_workspace)") (auto split: sum.splits)
  have "undisturbed calm_world" "\<forall>n. \<not> ew_aborted calm_world n" by (simp_all add: undisturbed_def calm_world_def)
  from repeated_reconcile_is_silent [OF this _ _ one_workspace_ok r(1)] r
  show ?thesis by (auto simp: sample_input_def)
qed

section \<open>Departures from the documented protocol\<close>

text \<open>
  \<open>docs/workspace-execution-gateway-architecture.md\<close> lets a provider answer \<open>progressing\<close> for a long
  operation and keeps the transaction in progress; the manager records that answer as applied,
  with the generation deployed.
\<close>

lemma progressing_is_recorded_as_applied:
  assumes "with_result input (r\<lparr>rr_status := RsProgressing\<rparr>) now p = Inr q"
  shows "x_transactionStatus (p_execution q) = TxApplied \<and> x_deployedGeneration (p_execution q) = rr_generation r"
  using with_result_more [OF assms] with_result_fields [OF assms] by simp

text \<open>
  The same document keeps a transaction in progress over a \<open>transient\<close> failure, within its budget
  of retries; the manager records every failure except an inconsistent or cancelled one as failed.
\<close>

lemma transient_failure_is_recorded_as_failed:
  "x_transactionStatus (p_execution (with_failure (ProviderError code FTransient) now p)) = TxFailed"
  by (simp add: with_failure_def failure_status_def)

end
