(* ===== verification/Execution_Reconciler.thy ===== *)
theory Execution_Reconciler
  imports Execution_Safety Js_Text
begin

text \<open>
  The reconciler of desired states, \<open>backend/src/workspace-execution-reconciler.ts\<close>: one pass over
  the listed workspaces, each that needs it reconciled under its own lease with a few attempts.
  The list, the inputs, the leases, the signals and \<open>reconcile\<close> itself are oracles indexed by the
  effects counted so far. Shown: the report adds up, and \<open>reconcile\<close> is asked only for workspaces
  that need it, under both leases and within a bound.
\<close>

section \<open>Options, errors and reports\<close>

datatype recon_error =
    RcProvider string failure_class
  | RcThrown "string option" bool
  | RcAborted

text \<open>An \<open>RcThrown\<close> is any other error, with its \<open>code\<close> if it is a text, and \<open>retryable === true\<close>.\<close>

definition default_retryable :: "recon_error \<Rightarrow> bool" where
  "default_retryable e = (case e of RcProvider _ c \<Rightarrow> c = FTransient | RcThrown _ b \<Rightarrow> b | RcAborted \<Rightarrow> False)"

definition recon_error_code :: "recon_error \<Rightarrow> string" where
  "recon_error_code e = (case e of
     RcProvider code _ \<Rightarrow> code | RcThrown (Some code) _ \<Rightarrow> code | _ \<Rightarrow> ''workspace_reconcile_failed'')"

definition positive_bound :: "js_num option \<Rightarrow> nat \<Rightarrow> int \<Rightarrow> nat" where
  "positive_bound value fallback maximum =
     (case value of
        None \<Rightarrow> fallback
      | Some v \<Rightarrow> (case safe_integer (JNum v) of
          None \<Rightarrow> fallback
        | Some n \<Rightarrow> if n > 0 \<and> n \<le> maximum then nat n else fallback))"

record recon_options =
  rp_maxItems :: nat
  rp_maxAttempts :: nat
  rp_retryDelayMs :: nat
  rp_isRetryable :: "recon_error \<Rightarrow> bool"

definition new_recon_options ::
  "js_num option \<Rightarrow> js_num option \<Rightarrow> js_num option \<Rightarrow> (recon_error \<Rightarrow> bool) option \<Rightarrow> recon_options" where
  "new_recon_options maxItems maxAttempts retryDelayMs isRetryable =
     \<lparr>rp_maxItems = positive_bound maxItems 100 10000, rp_maxAttempts = positive_bound maxAttempts 3 10,
      rp_retryDelayMs = positive_bound retryDelayMs 100 60000,
      rp_isRetryable = (case isRetryable of None \<Rightarrow> default_retryable | Some f \<Rightarrow> f)\<rparr>"

datatype entry_status = EntryReconciled | EntrySkipped | EntryFailed | EntryBusy

record recon_entry =
  en_workspaceId :: string
  en_status :: entry_status
  en_attempts :: nat
  en_reason :: "string option"

record recon_report =
  rr_scanned :: nat
  rr_selected :: nat
  rr_reconciled :: nat
  rr_skipped :: nat
  rr_failed :: nat
  rr_busy :: nat
  rr_entries :: "recon_entry list"

definition empty_report :: recon_report where
  "empty_report = \<lparr>rr_scanned = 0, rr_selected = 0, rr_reconciled = 0, rr_skipped = 0, rr_failed = 0, rr_busy = 0, rr_entries = []\<rparr>"

section \<open>Which workspaces need it\<close>

definition stuck_transaction :: "transaction_status \<Rightarrow> bool" where
  "stuck_transaction st \<longleftrightarrow> st \<in> {TxFailed, TxInconsistent, TxRolledBack}"

definition needs_reconciliation :: "projection \<Rightarrow> bool" where
  "needs_reconciliation p =
     (let w = p_workspace p; x = p_execution p
      in if w_status w \<noteq> WsActive \<or> x_role x \<noteq> RoleActive then False
         else if stuck_transaction (x_transactionStatus x) then False
         else if x_transactionStatus x = TxRequested \<or> x_transactionStatus x = TxProgressing then True
         else if x_desiredGeneration x > x_deployedGeneration x then True
         else if x_desiredState x = WantRunning then x_observedState x \<noteq> Obs Running
         else x_observedState x \<noteq> Obs Stopped \<and> x_observedState x \<noteq> ObsAbsent)"

fun workspace_status_name :: "workspace_status \<Rightarrow> string" where
  "workspace_status_name WsActive = ''active''"
| "workspace_status_name WsDeleting = ''deleting''"
| "workspace_status_name WsDeleted = ''deleted''"

fun execution_role_name :: "execution_role \<Rightarrow> string" where
  "execution_role_name RoleActive = ''active''"
| "execution_role_name RoleCandidate = ''candidate''"
| "execution_role_name RolePrevious = ''previous''"
| "execution_role_name RoleRetired = ''retired''"

fun transaction_status_name :: "transaction_status \<Rightarrow> string" where
  "transaction_status_name TxRequested = ''requested''"
| "transaction_status_name TxProgressing = ''progressing''"
| "transaction_status_name TxApplied = ''applied''"
| "transaction_status_name TxAwaitingFirstStart = ''awaiting_first_start''"
| "transaction_status_name TxRolledBack = ''rolled_back''"
| "transaction_status_name TxFailed = ''failed''"
| "transaction_status_name TxInconsistent = ''inconsistent''"

definition skip_reason :: "projection \<Rightarrow> string" where
  "skip_reason p =
     (let w = p_workspace p; x = p_execution p
      in if w_status w \<noteq> WsActive then ''workspace_'' @ workspace_status_name (w_status w)
         else if x_role x \<noteq> RoleActive then ''execution_'' @ execution_role_name (x_role x)
         else if stuck_transaction (x_transactionStatus x) then ''transaction_'' @ transaction_status_name (x_transactionStatus x)
         else ''already_converged'')"

section \<open>The pass\<close>

text \<open>
  \<open>rw_aborted\<close> is the caller's signal combined with that of the run's lease, \<open>rw_lost\<close> the signal
  of the lease of a workspace; a lease that is refused is \<open>Inr False\<close>.
\<close>

record recon_world =
  rw_lease :: "nat \<Rightarrow> string \<Rightarrow> (recon_error, bool) res"
  rw_aborted :: "nat \<Rightarrow> bool"
  rw_lost :: "nat \<Rightarrow> bool"
  rw_list :: "nat \<Rightarrow> (recon_error, projection list) res"
  rw_input :: "nat \<Rightarrow> projection \<Rightarrow> (recon_error, reconcile_input) res"
  rw_reconcile :: "nat \<Rightarrow> reconcile_input \<Rightarrow> (recon_error, projection) res"
  rw_compare :: "string \<Rightarrow> string \<Rightarrow> int"

datatype recon_event = RcGranted string | RcAsked projection reconcile_input | RcPaused nat

record recon_run =
  rn_step :: nat
  rn_log :: "recon_event list"

type_synonym 'a recon = "(recon_run, recon_error, 'a) action"

definition recon_note :: "recon_event \<Rightarrow> unit recon" where
  "recon_note e = (\<lambda>s. (s\<lparr>rn_log := e # rn_log s\<rparr>, Inr ()))"

definition recon_call :: "(nat \<Rightarrow> (recon_error, 'a) res) \<Rightarrow> 'a recon" where
  "recon_call f = (\<lambda>s. (s\<lparr>rn_step := Suc (rn_step s)\<rparr>, f (rn_step s)))"

definition recon_throw_if :: "(nat \<Rightarrow> bool) \<Rightarrow> unit recon" where
  "recon_throw_if sig = (\<lambda>s. (s, if sig (rn_step s) then Inl RcAborted else Inr ()))"

definition workspace_signal :: "recon_world \<Rightarrow> nat \<Rightarrow> bool" where
  "workspace_signal wd n \<longleftrightarrow> rw_aborted wd n \<or> rw_lost wd n"

text \<open>\<open>#withLease\<close>: None when the lease was not to be had.\<close>

definition recon_lease :: "recon_world \<Rightarrow> string \<Rightarrow> 'a recon \<Rightarrow> 'a option recon" where
  "recon_lease wd name operation =
     act_bind (recon_call (\<lambda>n. rw_lease wd n name)) (\<lambda>granted.
     if granted then act_bind (recon_note (RcGranted name)) (\<lambda>_. act_bind operation (\<lambda>x. act_ret (Some x)))
     else act_ret None)"

definition recon_delay :: "recon_world \<Rightarrow> nat \<Rightarrow> unit recon" where
  "recon_delay wd ms =
     act_bind (recon_throw_if (workspace_signal wd)) (\<lambda>_. act_bind (recon_note (RcPaused ms)) (\<lambda>_.
     act_bind (recon_call (\<lambda>_. Inr ())) (\<lambda>_. recon_throw_if (workspace_signal wd))))"

definition reconcile_attempt :: "recon_world \<Rightarrow> projection \<Rightarrow> projection recon" where
  "reconcile_attempt wd p =
     act_bind (recon_call (\<lambda>n. rw_input wd n p)) (\<lambda>input.
     act_bind (recon_throw_if (workspace_signal wd)) (\<lambda>_.
     act_bind (recon_note (RcAsked p input)) (\<lambda>_.
       recon_call (\<lambda>n. rw_reconcile wd n input))))"

definition entry_for :: "projection \<Rightarrow> entry_status \<Rightarrow> nat \<Rightarrow> string option \<Rightarrow> recon_entry" where
  "entry_for p st n reason = \<lparr>en_workspaceId = w_id (p_workspace p), en_status = st, en_attempts = n, en_reason = reason\<rparr>"

text \<open>\<open>reconcile_from k\<close> is the loop with \<open>k\<close> attempts to come; \<open>made\<close> are over.\<close>

fun reconcile_from :: "nat \<Rightarrow> recon_world \<Rightarrow> recon_options \<Rightarrow> projection \<Rightarrow> nat \<Rightarrow> recon_entry recon" where
  "reconcile_from 0 wd opts p made = act_ret (entry_for p EntryFailed made (Some ''workspace_reconcile_failed''))"
| "reconcile_from (Suc k) wd opts p made =
     act_bind (recon_throw_if (workspace_signal wd)) (\<lambda>_.
     act_case (reconcile_attempt wd p)
       (\<lambda>e. act_bind (recon_throw_if (workspace_signal wd)) (\<lambda>_.
          if \<not> rp_isRetryable opts e \<or> k = 0
          then act_ret (entry_for p EntryFailed (Suc made) (Some (recon_error_code e)))
          else act_bind (recon_delay wd (rp_retryDelayMs opts * Suc made)) (\<lambda>_. reconcile_from k wd opts p (Suc made))))
       (\<lambda>_. act_ret (entry_for p EntryReconciled (Suc made) None)))"

definition reconcile_one :: "recon_world \<Rightarrow> recon_options \<Rightarrow> projection \<Rightarrow> recon_entry recon" where
  "reconcile_one wd opts p = reconcile_from (rp_maxAttempts opts) wd opts p 0"

definition workspace_lease_name :: "projection \<Rightarrow> string" where
  "workspace_lease_name p = ''workspace-execution-reconcile:'' @ w_id (p_workspace p)"

definition counted_entry :: "recon_entry \<Rightarrow> recon_report \<Rightarrow> recon_report" where
  "counted_entry e r =
     (let r' = (case en_status e of
            EntrySkipped \<Rightarrow> r\<lparr>rr_skipped := rr_skipped r + 1\<rparr>
          | EntryBusy \<Rightarrow> r\<lparr>rr_selected := rr_selected r + 1, rr_busy := rr_busy r + 1\<rparr>
          | EntryReconciled \<Rightarrow> r\<lparr>rr_selected := rr_selected r + 1, rr_reconciled := rr_reconciled r + 1\<rparr>
          | EntryFailed \<Rightarrow> r\<lparr>rr_selected := rr_selected r + 1, rr_failed := rr_failed r + 1\<rparr>)
      in r'\<lparr>rr_entries := rr_entries r @ [e]\<rparr>)"

definition reconcile_next :: "recon_world \<Rightarrow> recon_options \<Rightarrow> projection \<Rightarrow> recon_entry recon" where
  "reconcile_next wd opts p =
     act_bind (recon_throw_if (rw_aborted wd)) (\<lambda>_.
     if \<not> needs_reconciliation p then act_ret (entry_for p EntrySkipped 0 (Some (skip_reason p)))
     else act_bind (recon_lease wd (workspace_lease_name p) (reconcile_one wd opts p)) (\<lambda>r.
       act_ret (case r of None \<Rightarrow> entry_for p EntryBusy 0 (Some ''lease_busy'') | Some e \<Rightarrow> e)))"

fun reconcile_each :: "recon_world \<Rightarrow> recon_options \<Rightarrow> projection list \<Rightarrow> recon_report \<Rightarrow> recon_report recon" where
  "reconcile_each wd opts [] r = act_ret r"
| "reconcile_each wd opts (p # ps) r =
     act_bind (reconcile_next wd opts p) (\<lambda>e. reconcile_each wd opts ps (counted_entry e r))"

definition recon_pass :: "recon_world \<Rightarrow> recon_options \<Rightarrow> recon_report recon" where
  "recon_pass wd opts =
     act_bind (recon_throw_if (rw_aborted wd)) (\<lambda>_.
     act_bind (recon_call (rw_list wd)) (\<lambda>listed.
     let projections = sort_by (\<lambda>a b. rw_compare wd (w_id (p_workspace a)) (w_id (p_workspace b))) listed
     in reconcile_each wd opts (take (rp_maxItems opts) projections) (empty_report\<lparr>rr_scanned := length projections\<rparr>)))"

definition recon_run_once :: "recon_world \<Rightarrow> recon_options \<Rightarrow> recon_report recon" where
  "recon_run_once wd opts =
     act_bind (recon_lease wd ''workspace-execution-reconciler'' (recon_pass wd opts)) (\<lambda>r.
       act_ret (case r of None \<Rightarrow> empty_report | Some x \<Rightarrow> x))"

section \<open>Rules\<close>

lemma after_recon_note [simp]: "after (recon_note e) Q E s = Q () (s\<lparr>rn_log := e # rn_log s\<rparr>)"
  by (simp add: after_def recon_note_def)

lemma after_recon_call [simp]: "after (recon_call f) Q E s =
    (case f (rn_step s) of Inl e \<Rightarrow> E e (s\<lparr>rn_step := Suc (rn_step s)\<rparr>) | Inr x \<Rightarrow> Q x (s\<lparr>rn_step := Suc (rn_step s)\<rparr>))"
  by (simp add: after_def recon_call_def split: sum.split)

lemma after_recon_throw_if [simp]: "after (recon_throw_if sig) Q E s = (if sig (rn_step s) then E RcAborted s else Q () s)"
  by (simp add: after_def recon_throw_if_def)

text \<open>Attempts made of an entry, and the counters of a report.\<close>

definition entry_ok :: "nat \<Rightarrow> recon_entry \<Rightarrow> bool" where
  "entry_ok m e \<longleftrightarrow> (if en_status e = EntryReconciled \<or> en_status e = EntryFailed then 1 \<le> en_attempts e \<and> en_attempts e \<le> m
     else en_attempts e = 0)"

lemma entry_for_simps [simp]:
  "en_workspaceId (entry_for p st n r) = w_id (p_workspace p)"
  "entry_ok m (entry_for p EntrySkipped 0 r)" "entry_ok m (entry_for p EntryBusy 0 r)"
  "entry_ok m (entry_for p EntryReconciled n r) = (1 \<le> n \<and> n \<le> m)" "entry_ok m (entry_for p EntryFailed n r) = (1 \<le> n \<and> n \<le> m)"
  by (simp_all add: entry_for_def entry_ok_def)

definition entries_with :: "entry_status \<Rightarrow> recon_report \<Rightarrow> nat" where
  "entries_with st r = length (filter (\<lambda>e. en_status e = st) (rr_entries r))"

definition report_ok :: "nat \<Rightarrow> recon_report \<Rightarrow> bool" where
  "report_ok m r \<longleftrightarrow> rr_selected r = rr_reconciled r + rr_failed r + rr_busy r \<and> length (rr_entries r) = rr_skipped r + rr_selected r
     \<and> rr_reconciled r = entries_with EntryReconciled r \<and> rr_skipped r = entries_with EntrySkipped r
     \<and> rr_failed r = entries_with EntryFailed r \<and> rr_busy r = entries_with EntryBusy r
     \<and> (\<forall>e \<in> set (rr_entries r). entry_ok m e)"

lemma counted_report: "report_ok m r \<Longrightarrow> entry_ok m e \<Longrightarrow> report_ok m (counted_entry e r)"
  by (cases "en_status e") (auto simp: report_ok_def counted_entry_def entries_with_def)

lemma counted_lists: "rr_scanned (counted_entry e r) = rr_scanned r" "rr_entries (counted_entry e r) = rr_entries r @ [e]"
  by (cases "en_status e"; simp add: counted_entry_def)+

fun is_ask :: "recon_event \<Rightarrow> bool" where
  "is_ask (RcAsked _ _) = True" | "is_ask _ = False"

definition asked :: "recon_event list \<Rightarrow> nat" where
  "asked l = length (filter is_ask l)"

lemma asked_simps [simp]: "asked [] = 0" "asked (RcAsked p input # l) = Suc (asked l)" "asked (RcGranted name # l) = asked l"
  "asked (RcPaused ms # l) = asked l"
  by (simp_all add: asked_def)

text \<open>Each question is justified by what was granted before.\<close>

fun asks_justified :: "recon_event list \<Rightarrow> bool" where
  "asks_justified [] = True"
| "asks_justified (RcAsked p input # l) = (needs_reconciliation p \<and> RcGranted (workspace_lease_name p) \<in> set l
     \<and> RcGranted ''workspace-execution-reconciler'' \<in> set l \<and> asks_justified l)"
| "asks_justified (_ # l) = asks_justified l"

lemma asks_justified_split: "asks_justified (later @ RcAsked p input # earlier) \<Longrightarrow>
    needs_reconciliation p \<and> RcGranted (workspace_lease_name p) \<in> set earlier
    \<and> RcGranted ''workspace-execution-reconciler'' \<in> set earlier"
proof (induction later)
  case (Cons e later)
  then show ?case by (cases e) auto
qed simp

definition in_pass :: "nat \<Rightarrow> recon_run \<Rightarrow> bool" where
  "in_pass n s \<longleftrightarrow> asks_justified (rn_log s) \<and> RcGranted ''workspace-execution-reconciler'' \<in> set (rn_log s) \<and> asked (rn_log s) \<le> n"

lemma in_pass_later: "in_pass n s \<Longrightarrow> n \<le> n' \<Longrightarrow> in_pass n' s"
  by (auto simp: in_pass_def)

lemma reconcile_from_pass:
  assumes "in_pass n s" "needs_reconciliation p" "RcGranted (workspace_lease_name p) \<in> set (rn_log s)"
    "made + k \<le> m" "k \<noteq> 0 \<or> made \<noteq> 0"
  shows "after (reconcile_from k wd opts p made)
     (\<lambda>e s. in_pass (n + k) s \<and> en_workspaceId e = w_id (p_workspace p) \<and> entry_ok m e) (\<lambda>_. in_pass (n + k)) s"
  using assms
proof (induction k arbitrary: n s made)
  case 0
  then show ?case by auto
next
  case (Suc k)
  have kept: "in_pass N t"
    if "Suc n \<le> N" "rn_log t = l \<or> (\<exists>ms. rn_log t = RcPaused ms # l)" "l = rn_log s \<or> (\<exists>input. l = RcAsked p input # rn_log s)"
    for t l N
    using that Suc.prems by (auto simp: in_pass_def)
  have known: "in_pass N t" if "Suc n \<le> N" "rn_log t = rn_log s \<or> (\<exists>input. rn_log t = RcAsked p input # rn_log s)
      \<or> (\<exists>ms. rn_log t = RcPaused ms # rn_log s) \<or> (\<exists>ms input. rn_log t = RcPaused ms # RcAsked p input # rn_log s)" for t N
    using that kept [of N t "rn_log s"] kept [of N t "RcAsked p _ # rn_log s"] by blast
  have again: "after (reconcile_from k wd opts p (Suc made))
      (\<lambda>e s. in_pass (Suc (n + k)) s \<and> en_workspaceId e = w_id (p_workspace p) \<and> entry_ok m e) (\<lambda>_. in_pass (Suc (n + k))) t"
    if "rn_log t = RcPaused ms # l" "l = rn_log s \<or> (\<exists>input. l = RcAsked p input # rn_log s)" for t ms l
  proof -
    have "RcGranted (workspace_lease_name p) \<in> set (rn_log t)" using that Suc.prems(3) by auto
    then show ?thesis
      using Suc.IH [of "Suc n" t "Suc made"] kept [OF order_refl _ that(2), of t] that(1) Suc.prems(2,4) by simp
  qed
  show ?case
    using Suc.prems(4) by (auto simp: reconcile_attempt_def recon_delay_def intro!: known again split: sum.split)
qed

lemma reconcile_next_pass:
  assumes "in_pass n s" "rp_maxAttempts opts \<noteq> 0"
  shows "after (reconcile_next wd opts p)
     (\<lambda>e s. in_pass (n + rp_maxAttempts opts) s \<and> en_workspaceId e = w_id (p_workspace p) \<and> entry_ok (rp_maxAttempts opts) e)
     (\<lambda>_. in_pass (n + rp_maxAttempts opts)) s"
proof -
  let ?m = "rp_maxAttempts opts"
  have same: "in_pass (n + ?m) t" if "rn_log t = rn_log s" for t
    using assms(1) that by (auto simp: in_pass_def)
  have one: "after (reconcile_one wd opts p)
      (\<lambda>e s. in_pass (n + ?m) s \<and> en_workspaceId e = w_id (p_workspace p) \<and> entry_ok ?m e) (\<lambda>_. in_pass (n + ?m)) t"
    if "needs_reconciliation p" "rn_log t = RcGranted (workspace_lease_name p) # rn_log s" for t
    unfolding reconcile_one_def using assms that
    by (intro reconcile_from_pass) (auto simp: in_pass_def)
  show ?thesis
    using one by (auto simp: reconcile_next_def recon_lease_def intro!: same split: sum.split)
qed

lemma reconcile_each_pass:
  assumes "in_pass n s" "rp_maxAttempts opts \<noteq> 0" "report_ok (rp_maxAttempts opts) r"
  shows "after (reconcile_each wd opts ps r)
     (\<lambda>r' s. in_pass (n + length ps * rp_maxAttempts opts) s \<and> report_ok (rp_maxAttempts opts) r' \<and> rr_scanned r' = rr_scanned r
        \<and> map en_workspaceId (rr_entries r') = map en_workspaceId (rr_entries r) @ map (\<lambda>p. w_id (p_workspace p)) ps)
     (\<lambda>_. in_pass (n + length ps * rp_maxAttempts opts)) s"
  using assms
proof (induction ps arbitrary: n s r)
  case (Cons p ps)
  let ?m = "rp_maxAttempts opts"
  let ?n = "n + length (p # ps) * ?m"
  have rest: "after (reconcile_each wd opts ps (counted_entry e r))
     (\<lambda>r' s. in_pass ?n s \<and> report_ok ?m r' \<and> rr_scanned r' = rr_scanned r
        \<and> map en_workspaceId (rr_entries r') = map en_workspaceId (rr_entries r) @ map (\<lambda>p. w_id (p_workspace p)) (p # ps))
     (\<lambda>_. in_pass ?n) t"
    if "in_pass (n + ?m) t \<and> en_workspaceId e = w_id (p_workspace p) \<and> entry_ok ?m e" for e t
  proof -
    have e: "in_pass (n + ?m) t" "en_workspaceId e = w_id (p_workspace p)" "entry_ok ?m e" using that by simp_all
    show ?thesis
      using Cons.IH [OF e(1) Cons.prems(2) counted_report [OF Cons.prems(3) e(3)]] e(2)
      by (simp add: counted_lists add.assoc)
  qed
  have "after (reconcile_next wd opts p) (\<lambda>e. after (reconcile_each wd opts ps (counted_entry e r))
     (\<lambda>r' s. in_pass ?n s \<and> report_ok ?m r' \<and> rr_scanned r' = rr_scanned r
        \<and> map en_workspaceId (rr_entries r') = map en_workspaceId (rr_entries r) @ map (\<lambda>p. w_id (p_workspace p)) (p # ps))
     (\<lambda>_. in_pass ?n)) (\<lambda>_. in_pass ?n) s"
    by (rule after_mono [OF reconcile_next_pass [OF Cons.prems(1,2)]]) (rule rest, auto elim: in_pass_later)
  then show ?case by simp
qed simp

lemma recon_run_once_pass:
  assumes "rn_log s = []" "rp_maxAttempts opts \<noteq> 0"
  shows "after (recon_run_once wd opts)
     (\<lambda>r s. asks_justified (rn_log s) \<and> asked (rn_log s) \<le> rp_maxItems opts * rp_maxAttempts opts
        \<and> report_ok (rp_maxAttempts opts) r \<and> length (rr_entries r) = min (rr_scanned r) (rp_maxItems opts))
     (\<lambda>_ s. asks_justified (rn_log s) \<and> asked (rn_log s) \<le> rp_maxItems opts * rp_maxAttempts opts) s"
proof -
  let ?m = "rp_maxAttempts opts"
  let ?N = "rp_maxItems opts * ?m"
  have fresh: "in_pass 0 t" if "rn_log t = [RcGranted ''workspace-execution-reconciler'']" for t
    using that by (simp add: in_pass_def)
  have start: "report_ok ?m (empty_report\<lparr>rr_scanned := k\<rparr>)" for k
    by (simp add: report_ok_def empty_report_def entries_with_def)
  have each: "after (reconcile_each wd opts (take (rp_maxItems opts) ps) (empty_report\<lparr>rr_scanned := length ps\<rparr>))
     (\<lambda>r s. asks_justified (rn_log s) \<and> asked (rn_log s) \<le> ?N \<and> report_ok ?m r \<and> length (rr_entries r) = min (rr_scanned r) (rp_maxItems opts))
     (\<lambda>_ s. asks_justified (rn_log s) \<and> asked (rn_log s) \<le> ?N) t"
    if "rn_log t = [RcGranted ''workspace-execution-reconciler'']" for t ps
  proof (rule after_mono [OF reconcile_each_pass [OF fresh [OF that] assms(2) start]])
    have less: "length (take (rp_maxItems opts) ps) * ?m \<le> ?N" by simp
    show "asks_justified (rn_log u) \<and> asked (rn_log u) \<le> ?N \<and> report_ok ?m r \<and> length (rr_entries r) = min (rr_scanned r) (rp_maxItems opts)"
      if "in_pass (0 + length (take (rp_maxItems opts) ps) * ?m) u \<and> report_ok ?m r \<and> rr_scanned r = rr_scanned (empty_report\<lparr>rr_scanned := length ps\<rparr>)
        \<and> map en_workspaceId (rr_entries r) = map en_workspaceId (rr_entries (empty_report\<lparr>rr_scanned := length ps\<rparr>))
            @ map (\<lambda>p. w_id (p_workspace p)) (take (rp_maxItems opts) ps)" for r u
    proof -
      have "length (rr_entries r) = length (take (rp_maxItems opts) ps)"
        using that by (metis (no_types, lifting) append_Nil empty_report_def length_map list.simps(8) recon_report.select_convs(7) recon_report.surjective recon_report.update_convs(1))
      moreover have "asked (rn_log u) \<le> ?N" using that less by (auto simp: in_pass_def intro: le_trans)
      ultimately show ?thesis using that by (auto simp: in_pass_def min.commute)
    qed
    show "asks_justified (rn_log u) \<and> asked (rn_log u) \<le> ?N" if "in_pass (0 + length (take (rp_maxItems opts) ps) * ?m) u" for u
      using that less by (auto simp: in_pass_def intro: le_trans)
  qed
  have idle: "report_ok ?m empty_report" "length (rr_entries empty_report) = min (rr_scanned empty_report) (rp_maxItems opts)"
    by (simp_all add: report_ok_def empty_report_def entries_with_def)
  show ?thesis
    using assms(1) each idle by (simp add: recon_run_once_def recon_lease_def recon_pass_def Let_def split: sum.split)
qed

lemma positive_bound_range: "0 < fallback \<Longrightarrow> int fallback \<le> maximum \<Longrightarrow> 0 < positive_bound v fallback maximum \<and> int (positive_bound v fallback maximum) \<le> maximum"
  by (auto simp: positive_bound_def split: option.split)

section \<open>A sample pass\<close>

text \<open>
  A pass over two workspaces that need it, one of which is busy; the other is answered in the second attempt.
\<close>

definition wanting :: "string \<Rightarrow> projection" where
  "wanting i = (let p = sample_projection
     in p\<lparr>p_workspace := (p_workspace p)\<lparr>w_id := i\<rparr>, p_execution := (p_execution p)\<lparr>x_desiredGeneration := 9\<rparr>\<rparr>)"

definition sample_recon_world :: recon_world where
  "sample_recon_world = \<lparr>rw_lease = \<lambda>_ name. Inr (name \<noteq> ''workspace-execution-reconcile:b''), rw_aborted = \<lambda>_. False,
     rw_lost = \<lambda>_. False, rw_list = \<lambda>_. Inr [wanting ''a'', wanting ''b''], rw_input = \<lambda>_ _. Inr sample_input,
     rw_reconcile = \<lambda>n _. if n < 5 then Inl (RcProvider ''provider_busy'' FTransient) else Inr (wanting ''a''),
     rw_compare = \<lambda>_ _. 0\<rparr>"

definition sample_recon_options :: recon_options where
  "sample_recon_options = new_recon_options None None None None"

definition recon_start :: recon_run where
  "recon_start = \<lparr>rn_step = 0, rn_log = []\<rparr>"

definition recon_end :: "recon_run \<times> (recon_error, recon_report) res" where
  "recon_end = recon_run_once sample_recon_world sample_recon_options recon_start"

text \<open>For evaluating the pass: the equations of the actions, to be used on a state only.\<close>

lemmas recon_code [code] =
  act_ret_def [THEN fun_cong] act_throw_def [THEN fun_cong] act_case_def [THEN fun_cong] act_bind_def [THEN fun_cong]
  recon_note_def [THEN fun_cong] recon_call_def [THEN fun_cong] recon_throw_if_def [THEN fun_cong]
  recon_lease_def [THEN fun_cong] recon_delay_def [THEN fun_cong] reconcile_attempt_def [THEN fun_cong]
  reconcile_from.simps [THEN fun_cong] reconcile_one_def [THEN fun_cong] reconcile_next_def [THEN fun_cong]
  reconcile_each.simps [THEN fun_cong] recon_pass_def [THEN fun_cong] recon_run_once_def [THEN fun_cong]

lemma recon_end_outcome:
  "case snd recon_end of Inr r \<Rightarrow> rr_reconciled r = 1 \<and> rr_busy r = 1 | Inl _ \<Rightarrow> False"
  "list_ex is_ask (rn_log (fst recon_end))"
  by code_simp+

lemma recon_start_log: "rn_log recon_start = []"
  by (simp add: recon_start_def)

section \<open>Guarantees\<close>

text \<open>A pass reports what it did. Whatever the options, the leases and \<open>reconcile\<close> answer, a pass that
  returns lists the first of the workspaces scanned, as many as the bound allows; those selected are the
  reconciled, the failed and the busy ones; each counter is the number of entries with its
  status; and an entry was attempted between once and ten times, or not at all when it was
  skipped or busy.\<close>

theorem pass_report_adds_up:
  assumes "rn_log s = []" "opts = new_recon_options maxItems maxAttempts delay retryable"
    "recon_run_once wd opts s = (s', Inr r)"
  shows "length (rr_entries r) = min (rr_scanned r) (rp_maxItems opts)
     \<and> length (rr_entries r) = rr_skipped r + rr_selected r \<and> rr_selected r = rr_reconciled r + rr_failed r + rr_busy r
     \<and> rr_reconciled r = length (filter (\<lambda>e. en_status e = EntryReconciled) (rr_entries r))
     \<and> rr_failed r = length (filter (\<lambda>e. en_status e = EntryFailed) (rr_entries r))
     \<and> (\<forall>e \<in> set (rr_entries r). if en_status e \<in> {EntryReconciled, EntryFailed} then 1 \<le> en_attempts e \<and> en_attempts e \<le> 10
          else en_attempts e = 0)"
proof -
  have m: "rp_maxAttempts opts \<noteq> 0" "rp_maxAttempts opts \<le> 10"
    using positive_bound_range [of 3 10 maxAttempts] by (simp_all add: assms(2) new_recon_options_def)
  from recon_run_once_pass [OF assms(1) m(1), of wd] have "report_ok (rp_maxAttempts opts) r"
    and len: "length (rr_entries r) = min (rr_scanned r) (rp_maxItems opts)"
    by (simp_all add: after_def assms(3))
  then show ?thesis using m(2) by (auto simp: report_ok_def entries_with_def entry_ok_def)
qed

theorem pass_report_adds_up_witness:
  "\<exists>s r. recon_end = (s, Inr r) \<and> rr_reconciled r = 1 \<and> length (rr_entries r) = rr_skipped r + rr_selected r"
proof -
  obtain r where r: "snd recon_end = Inr r" "rr_reconciled r = 1"
    using recon_end_outcome(1) by (cases "snd recon_end") auto
  then have run: "recon_end = (fst recon_end, Inr r)" by (metis prod.collapse)
  from pass_report_adds_up [OF recon_start_log sample_recon_options_def run [unfolded recon_end_def]] run r(2) show ?thesis by blast
qed

text \<open>C40: a pass asks within bounds. In every pass, also one that fails, \<open>reconcile\<close> is asked only for a
  workspace that needs it, after the lease of the pass and that of the workspace were granted,
  and at most as often as attempts are allowed for each of the workspaces a pass may take, a
  hundred thousand times at most.\<close>

theorem pass_asks_within_bounds:
  assumes "rn_log s = []" "opts = new_recon_options maxItems maxAttempts delay retryable"
    "rn_log (fst (recon_run_once wd opts s)) = later @ RcAsked p input # earlier"
  shows "needs_reconciliation p \<and> RcGranted (workspace_lease_name p) \<in> set earlier
     \<and> RcGranted ''workspace-execution-reconciler'' \<in> set earlier
     \<and> asked (rn_log (fst (recon_run_once wd opts s))) \<le> rp_maxItems opts * rp_maxAttempts opts
     \<and> rp_maxItems opts * rp_maxAttempts opts \<le> 100000"
proof -
  have m: "rp_maxAttempts opts \<noteq> 0" "rp_maxAttempts opts \<le> 10" "rp_maxItems opts \<le> 10000"
    using positive_bound_range [of 3 10 maxAttempts] positive_bound_range [of 100 10000 maxItems]
    by (simp_all add: assms(2) new_recon_options_def)
  from recon_run_once_pass [OF assms(1) m(1), of wd]
  have "asks_justified (rn_log (fst (recon_run_once wd opts s)))"
    "asked (rn_log (fst (recon_run_once wd opts s))) \<le> rp_maxItems opts * rp_maxAttempts opts"
    by (simp_all add: after_def split: prod.splits sum.splits)
  moreover have "rp_maxItems opts * rp_maxAttempts opts \<le> 100000" using mult_le_mono [OF m(3,2)] by simp
  ultimately show ?thesis using asks_justified_split unfolding assms(3) by blast
qed

theorem pass_asks_within_bounds_witness:
  "\<exists>p input. RcAsked p input \<in> set (rn_log (fst recon_end)) \<and> needs_reconciliation p"
proof -
  obtain p input where "RcAsked p input \<in> set (rn_log (fst recon_end))"
    using recon_end_outcome(2) by (auto simp: list_ex_iff elim!: is_ask.elims)
  then obtain later earlier where split: "rn_log (fst recon_end) = later @ RcAsked p input # earlier" by (auto dest: split_list)
  from pass_asks_within_bounds [OF recon_start_log sample_recon_options_def split [unfolded recon_end_def]] split show ?thesis by auto
qed

end
