(* ===== verification/Auth_Rate_Limit.thy ===== *)
theory Auth_Rate_Limit
  imports Js_Prelude
begin

text \<open>
  The limiter of local authentication attempts, \<open>backend/src/auth/local-auth-rate-limit.ts\<close>: two
  counters per attempt, of its source and of its account, each in a window that opens with the
  first attempt it counts. The clock is an argument of \<open>consume\<close>. Operation names contain no
  colon, so that the keys of different counters differ.
\<close>

section \<open>Policies and state\<close>

datatype auth_operation =
    Login | Register | PasswordSetup | PasswordChange | ExternalPasswordCode | ExternalPasswordChange

fun auth_operation_name :: "auth_operation \<Rightarrow> string" where
  "auth_operation_name Login = ''login''"
| "auth_operation_name Register = ''register''"
| "auth_operation_name PasswordSetup = ''password-setup''"
| "auth_operation_name PasswordChange = ''password-change''"
| "auth_operation_name ExternalPasswordCode = ''external-password-code''"
| "auth_operation_name ExternalPasswordChange = ''external-password-change''"

record rate_policy =
  rl_windowMs :: int
  rl_attemptsPerSource :: int
  rl_attemptsPerAccount :: int

definition rate_policy_of :: "int \<Rightarrow> int \<Rightarrow> int \<Rightarrow> rate_policy" where
  "rate_policy_of window source account = \<lparr>rl_windowMs = window, rl_attemptsPerSource = source, rl_attemptsPerAccount = account\<rparr>"

fun default_rate_policies :: "auth_operation \<Rightarrow> rate_policy" where
  "default_rate_policies Login = rate_policy_of (15 * 60000) 60 10"
| "default_rate_policies Register = rate_policy_of (60 * 60000) 20 3"
| "default_rate_policies PasswordSetup = rate_policy_of (15 * 60000) 30 5"
| "default_rate_policies PasswordChange = rate_policy_of (15 * 60000) 60 10"
| "default_rate_policies ExternalPasswordCode = rate_policy_of (15 * 60000) 30 5"
| "default_rate_policies ExternalPasswordChange = rate_policy_of (15 * 60000) 30 10"

record attempt_bucket =
  ab_count :: int
  ab_expiresAt :: instant

record rate_limiter =
  rt_buckets :: "(string, attempt_bucket) js_map"
  rt_attemptsSinceCleanup :: nat

definition fresh_limiter :: rate_limiter where
  "fresh_limiter = \<lparr>rt_buckets = [], rt_attemptsSinceCleanup = 0\<rparr>"

section \<open>An attempt\<close>

definition source_key :: "auth_operation \<Rightarrow> string \<Rightarrow> string" where
  "source_key op source = auth_operation_name op @ '':source:'' @ (if js_trim source = [] then ''unknown'' else js_trim source)"

definition account_key :: "auth_operation \<Rightarrow> string \<Rightarrow> string" where
  "account_key op account = auth_operation_name op @ '':account:'' @ js_lower (js_trim account)"

definition rate_dimensions :: "rate_policy \<Rightarrow> auth_operation \<Rightarrow> string \<Rightarrow> string \<Rightarrow> (string \<times> int) list" where
  "rate_dimensions policy op source account =
     [(source_key op source, rl_attemptsPerSource policy), (account_key op account, rl_attemptsPerAccount policy)]"

definition clean_buckets :: "instant \<Rightarrow> rate_limiter \<Rightarrow> rate_limiter" where
  "clean_buckets now st =
     (if Suc (rt_attemptsSinceCleanup st) \<ge> 256
      then \<lparr>rt_buckets = js_delete_each (\<lambda>_ b. ab_expiresAt b \<le> now) (rt_buckets st), rt_attemptsSinceCleanup = 0\<rparr>
      else st\<lparr>rt_attemptsSinceCleanup := Suc (rt_attemptsSinceCleanup st)\<rparr>)"

definition current_bucket :: "int \<Rightarrow> instant \<Rightarrow> (string, attempt_bucket) js_map \<Rightarrow> string \<Rightarrow> attempt_bucket" where
  "current_bucket window now buckets key =
     (let opened = \<lparr>ab_count = 0, ab_expiresAt = now + window\<rparr>
      in case js_get buckets key of
           Some b \<Rightarrow> if ab_expiresAt b > now then b else opened
         | None \<Rightarrow> opened)"

definition consume ::
  "(auth_operation \<Rightarrow> rate_policy) \<Rightarrow> rate_limiter \<Rightarrow> instant \<Rightarrow> auth_operation \<Rightarrow> string \<Rightarrow> string \<Rightarrow> rate_limiter \<times> bool" where
  "consume policies st now op source account =
     (let st1 = clean_buckets now st;
          policy = policies op;
          dimensions = rate_dimensions policy op source account;
          buckets = map (\<lambda>(key, _). current_bucket (rl_windowMs policy) now (rt_buckets st1) key) dimensions
      in if list_ex (\<lambda>(bucket, (_, limit)). ab_count bucket \<ge> limit) (zip buckets dimensions) then (st1, False)
         else (st1\<lparr>rt_buckets := fold (\<lambda>((key, _), bucket) bs. js_set bs key (bucket\<lparr>ab_count := ab_count bucket + 1\<rparr>))
                     (zip dimensions buckets) (rt_buckets st1)\<rparr>, True))"

section \<open>One counter\<close>

text \<open>The dimension a key counts: the operation with its window and limit.\<close>

datatype rate_counter = OfSource auth_operation string | OfAccount auth_operation string

fun counter_key :: "rate_counter \<Rightarrow> string" where
  "counter_key (OfSource op s) = source_key op s"
| "counter_key (OfAccount op a) = account_key op a"

fun counter_limit :: "(auth_operation \<Rightarrow> rate_policy) \<Rightarrow> rate_counter \<Rightarrow> int" where
  "counter_limit policies (OfSource op s) = rl_attemptsPerSource (policies op)"
| "counter_limit policies (OfAccount op a) = rl_attemptsPerAccount (policies op)"

fun counter_operation :: "rate_counter \<Rightarrow> auth_operation" where
  "counter_operation (OfSource op s) = op"
| "counter_operation (OfAccount op a) = op"

record attempt =
  at_now :: instant
  at_operation :: auth_operation
  at_source :: string
  at_account :: string

definition counts :: "rate_counter \<Rightarrow> attempt \<Rightarrow> bool" where
  "counts k a \<longleftrightarrow> counter_key k = source_key (at_operation a) (at_source a)
     \<or> counter_key k = account_key (at_operation a) (at_account a)"

definition consume_attempt :: "(auth_operation \<Rightarrow> rate_policy) \<Rightarrow> rate_limiter \<Rightarrow> attempt \<Rightarrow> rate_limiter \<times> bool" where
  "consume_attempt policies st a = consume policies st (at_now a) (at_operation a) (at_source a) (at_account a)"

text \<open>The attempts of a run that are let through.\<close>

fun admitted :: "(auth_operation \<Rightarrow> rate_policy) \<Rightarrow> rate_limiter \<Rightarrow> attempt list \<Rightarrow> attempt list" where
  "admitted policies st [] = []"
| "admitted policies st (a # as) =
     (case consume_attempt policies st a of (st', ok) \<Rightarrow> (if ok then [a] else []) @ admitted policies st' as)"

lemma colon_free: "CHR '':'' \<notin> set (auth_operation_name op)"
  by (cases op) auto

lemma colon_split:
  "CHR '':'' \<notin> set xs \<Longrightarrow> CHR '':'' \<notin> set ys \<Longrightarrow> xs @ CHR '':'' # us = ys @ CHR '':'' # vs \<longleftrightarrow> xs = ys \<and> us = vs"
proof (induction xs arbitrary: ys)
  case Nil
  then show ?case by (cases ys) auto
next
  case (Cons x xs)
  then show ?case by (cases ys) auto
qed

lemma operation_name_inj: "auth_operation_name p = auth_operation_name q \<longleftrightarrow> p = q"
  by (cases p; cases q) auto

lemma keys_differ [simp]: "source_key p s \<noteq> account_key q a" "account_key q a \<noteq> source_key p s"
  using colon_split [OF colon_free [of p] colon_free [of q]]
  by (auto simp: source_key_def account_key_def dest: sym)

lemma source_key_operation: "source_key p s = source_key q s' \<Longrightarrow> p = q"
  using colon_split [OF colon_free [of p] colon_free [of q]] by (simp add: source_key_def operation_name_inj)

lemma account_key_operation: "account_key p s = account_key q s' \<Longrightarrow> p = q"
  using colon_split [OF colon_free [of p] colon_free [of q]] by (simp add: account_key_def operation_name_inj)

lemma counts_operation: "counts k a \<Longrightarrow> at_operation a = counter_operation k"
  by (cases k) (auto simp: counts_def dest: source_key_operation account_key_operation)

section \<open>The specification\<close>

text \<open>
  Counters as a function from keys, never cleaned: an expired counter is one that is not there.
\<close>

type_synonym counters = "string \<Rightarrow> (int \<times> instant) option"

definition unexpired :: "instant \<Rightarrow> (int \<times> instant) option \<Rightarrow> (int \<times> instant) option" where
  "unexpired now b = (case b of Some (n, e) \<Rightarrow> if e > now then Some (n, e) else None | None \<Rightarrow> None)"

definition used :: "(int \<times> instant) option \<Rightarrow> int" where
  "used b = (case b of Some (n, _) \<Rightarrow> n | None \<Rightarrow> 0)"

definition counted :: "int \<Rightarrow> instant \<Rightarrow> (int \<times> instant) option \<Rightarrow> (int \<times> instant) option" where
  "counted window now b = Some (case b of Some (n, e) \<Rightarrow> (n + 1, e) | None \<Rightarrow> (1, now + window))"

definition spec_consume :: "(auth_operation \<Rightarrow> rate_policy) \<Rightarrow> counters \<Rightarrow> attempt \<Rightarrow> counters \<times> bool" where
  "spec_consume policies c a =
     (let policy = policies (at_operation a);
          sk = source_key (at_operation a) (at_source a); ak = account_key (at_operation a) (at_account a);
          sb = unexpired (at_now a) (c sk); ab = unexpired (at_now a) (c ak)
      in if used sb \<ge> rl_attemptsPerSource policy \<or> used ab \<ge> rl_attemptsPerAccount policy then (c, False)
         else (c(sk := counted (rl_windowMs policy) (at_now a) sb, ak := counted (rl_windowMs policy) (at_now a) ab), True))"

fun spec_admitted :: "(auth_operation \<Rightarrow> rate_policy) \<Rightarrow> counters \<Rightarrow> attempt list \<Rightarrow> attempt list" where
  "spec_admitted policies c [] = []"
| "spec_admitted policies c (a # as) =
     (case spec_consume policies c a of (c', ok) \<Rightarrow> (if ok then [a] else []) @ spec_admitted policies c' as)"

text \<open>What a limiter holds at a time, as counters of the specification.\<close>

definition counters_at :: "rate_limiter \<Rightarrow> instant \<Rightarrow> counters" where
  "counters_at st now key =
     unexpired now (map_option (\<lambda>b. (ab_count b, ab_expiresAt b)) (js_get (rt_buckets st) key))"

definition agrees :: "instant \<Rightarrow> rate_limiter \<Rightarrow> counters \<Rightarrow> bool" where
  "agrees now st c \<longleftrightarrow> js_wf (rt_buckets st) \<and> counters_at st now = (\<lambda>key. unexpired now (c key))"

lemma unexpired_later: "now \<le> t \<Longrightarrow> unexpired t (unexpired now b) = unexpired t b"
  by (auto simp: unexpired_def split: option.split)

lemma agrees_later:
  assumes "agrees now st c" "now \<le> t"
  shows "agrees t st c"
proof -
  have "counters_at st t key = unexpired t (counters_at st now key)" for key
    using unexpired_later [OF assms(2)] by (simp add: counters_at_def)
  then show ?thesis using assms by (simp add: agrees_def unexpired_later fun_eq_iff)
qed

lemma counters_at_clean: "js_wf (rt_buckets st) \<Longrightarrow> counters_at (clean_buckets now st) now = counters_at st now"
  by (auto simp: counters_at_def unexpired_def clean_buckets_def fun_eq_iff split: option.split)

lemma wf_clean: "js_wf (rt_buckets st) \<Longrightarrow> js_wf (rt_buckets (clean_buckets now st))"
  by (simp add: clean_buckets_def)

lemma current_bucket_counter:
  "ab_count (current_bucket w now (rt_buckets st) key) = used (counters_at st now key)"
  "Some (used (counters_at st now key) + 1, ab_expiresAt (current_bucket w now (rt_buckets st) key))
     = counted w now (counters_at st now key)"
  by (auto simp: current_bucket_def counters_at_def unexpired_def used_def counted_def Let_def split: option.split)

lemma counters_at_set:
  "counters_at (st\<lparr>rt_buckets := js_set (js_set (rt_buckets st) k b) k' b'\<rparr>) now =
     (counters_at st now)(k := unexpired now (Some (ab_count b, ab_expiresAt b)), k' := unexpired now (Some (ab_count b', ab_expiresAt b')))"
  by (auto simp: counters_at_def fun_eq_iff)

lemma consume_attempt_eq:
  "consume_attempt policies st a =
     (let st1 = clean_buckets (at_now a) st; policy = policies (at_operation a);
          sk = source_key (at_operation a) (at_source a); ak = account_key (at_operation a) (at_account a);
          sb = current_bucket (rl_windowMs policy) (at_now a) (rt_buckets st1) sk;
          ab = current_bucket (rl_windowMs policy) (at_now a) (rt_buckets st1) ak
      in if ab_count sb \<ge> rl_attemptsPerSource policy \<or> ab_count ab \<ge> rl_attemptsPerAccount policy then (st1, False)
         else (st1\<lparr>rt_buckets := js_set (js_set (rt_buckets st1) sk (sb\<lparr>ab_count := ab_count sb + 1\<rparr>)) ak
                 (ab\<lparr>ab_count := ab_count ab + 1\<rparr>)\<rparr>, True))"
  by (simp add: consume_attempt_def consume_def rate_dimensions_def Let_def)

lemma consume_refines:
  assumes agree: "agrees (at_now a) st c" and steps: "consume_attempt policies st a = (st', ok)" "spec_consume policies c a = (c', ok')"
  shows "ok' = ok \<and> agrees (at_now a) st' c'"
proof -
  let ?now = "at_now a" and ?st = "clean_buckets (at_now a) st"
  have wf: "js_wf (rt_buckets ?st)" and at: "counters_at ?st ?now = (\<lambda>key. unexpired ?now (c key))"
    using agree by (simp_all add: counters_at_clean wf_clean agrees_def)
  have bumped: "Some (used (unexpired ?now (c key)) + 1, ab_expiresAt (current_bucket w ?now (rt_buckets ?st) key))
     = counted w ?now (unexpired ?now (c key))" for w key
    using current_bucket_counter(2) [of ?st ?now key w] by (simp add: at)
  show ?thesis
  proof (cases ok)
    case True
    with steps show ?thesis
      unfolding consume_attempt_eq spec_consume_def agrees_def
      by (auto simp: Let_def current_bucket_counter bumped at wf counters_at_set fun_eq_iff split: if_splits)
  next
    case False
    with steps show ?thesis
      unfolding consume_attempt_eq spec_consume_def agrees_def
      by (auto simp: Let_def current_bucket_counter at wf split: if_splits)
  qed
qed

lemma admitted_refines:
  assumes "sorted (map at_now as)"
  shows "admitted policies fresh_limiter as = spec_admitted policies (\<lambda>_. None) as"
proof -
  have "admitted policies st as = spec_admitted policies c as"
    if "agrees now st c" "sorted (map at_now as)" "\<forall>a \<in> set as. now \<le> at_now a" for now st c
    using that
  proof (induction as arbitrary: now st c)
    case (Cons a as)
    obtain st' ok c' ok' where steps: "consume_attempt policies st a = (st', ok)" "spec_consume policies c a = (c', ok')"
      by fastforce
    have "agrees (at_now a) st c" using Cons.prems agrees_later by auto
    from consume_refines [OF this steps] have "ok' = ok" "agrees (at_now a) st' c'" by auto
    with Cons.IH [of "at_now a" st' c'] Cons.prems steps show ?case by simp
  qed simp
  moreover have "agrees now fresh_limiter (\<lambda>_. None)" for now
    by (simp add: agrees_def counters_at_def fresh_limiter_def unexpired_def fun_eq_iff)
  moreover have "\<exists>now. \<forall>a \<in> set as. now \<le> at_now a"
    using assms by (cases as) auto
  ultimately show ?thesis using assms by blast
qed


definition guess :: "instant \<Rightarrow> attempt" where
  "guess t = \<lparr>at_now = t, at_operation = Register, at_source = ''10.0.0.1'', at_account = '' Ann@example.org''\<rparr>"


section \<open>How many attempts a window admits\<close>

text \<open>
  How many attempts of one counter with window \<open>w\<close> and limit \<open>l\<close> may still be let through in
  \<open>[t, t + w)\<close>, from the time \<open>now\<close> on with the counter at \<open>b\<close>.
\<close>

definition room :: "int \<Rightarrow> int \<Rightarrow> instant \<Rightarrow> instant \<Rightarrow> (int \<times> instant) option \<Rightarrow> int" where
  "room w l t now b =
     (if now \<ge> t + w then 0
      else case b of
        Some (n, e) \<Rightarrow> if e \<ge> t + w then l - n else if e \<ge> t then 2 * l - n else 2 * l
      | None \<Rightarrow> if now \<ge> t then l else 2 * l)"

definition within_limit :: "int \<Rightarrow> (int \<times> instant) option \<Rightarrow> bool" where
  "within_limit l b \<longleftrightarrow> (case b of Some (n, _) \<Rightarrow> 0 \<le> n \<and> n \<le> l | None \<Rightarrow> True)"

lemma room_nonneg: "0 \<le> l \<Longrightarrow> within_limit l b \<Longrightarrow> 0 \<le> room w l t now b"
  by (auto simp: room_def within_limit_def split: option.split)

lemma room_later:
  "0 \<le> l \<Longrightarrow> within_limit l b \<Longrightarrow> now \<le> now' \<Longrightarrow> room w l t now' (unexpired now' b) \<le> room w l t now (unexpired now b)"
  by (auto simp: room_def within_limit_def unexpired_def split: option.split)

lemma room_counted:
  "0 < w \<Longrightarrow> 0 < l \<or> b \<noteq> None \<Longrightarrow> used b < l \<Longrightarrow> within_limit l b \<Longrightarrow> unexpired now b = b
   \<Longrightarrow> (if t \<le> now \<and> now < t + w then 1 else 0) + room w l t now (counted w now b) \<le> room w l t now b"
  by (auto simp: room_def within_limit_def counted_def used_def unexpired_def split: option.splits if_splits)

text \<open>One step of the specification, seen from one counter.\<close>

lemma spec_consume_counter:
  assumes "spec_consume policies c a = (c', ok)"
  shows "c' (counter_key k) =
      (if ok \<and> counts k a
       then counted (rl_windowMs (policies (counter_operation k))) (at_now a) (unexpired (at_now a) (c (counter_key k)))
       else c (counter_key k))"
    and "ok \<Longrightarrow> counts k a \<Longrightarrow> used (unexpired (at_now a) (c (counter_key k))) < counter_limit policies k"
proof -
  have op: "counts k a \<Longrightarrow> at_operation a = counter_operation k" by (rule counts_operation)
  have limit: "counts k a \<Longrightarrow> counter_key k = source_key (at_operation a) (at_source a) \<Longrightarrow> counter_limit policies k = rl_attemptsPerSource (policies (at_operation a))"
    "counts k a \<Longrightarrow> counter_key k = account_key (at_operation a) (at_account a) \<Longrightarrow> counter_limit policies k = rl_attemptsPerAccount (policies (at_operation a))"
    using op by (cases k; simp)+
  show "c' (counter_key k) =
      (if ok \<and> counts k a
       then counted (rl_windowMs (policies (counter_operation k))) (at_now a) (unexpired (at_now a) (c (counter_key k)))
       else c (counter_key k))"
  proof (cases "ok \<and> counts k a")
    case True
    with assms have "c' = c(source_key (at_operation a) (at_source a) :=
          counted (rl_windowMs (policies (at_operation a))) (at_now a) (unexpired (at_now a) (c (source_key (at_operation a) (at_source a)))),
        account_key (at_operation a) (at_account a) :=
          counted (rl_windowMs (policies (at_operation a))) (at_now a) (unexpired (at_now a) (c (account_key (at_operation a) (at_account a)))))"
      by (simp add: spec_consume_def Let_def split: if_splits)
    moreover have "at_operation a = counter_operation k" using True by (simp add: op)
    ultimately show ?thesis using True by (cases "counter_key k = source_key (at_operation a) (at_source a)") (auto simp: counts_def)
  next
    case False
    with assms show ?thesis by (auto simp: spec_consume_def Let_def counts_def split: if_splits)
  qed
  show "ok \<Longrightarrow> counts k a \<Longrightarrow> used (unexpired (at_now a) (c (counter_key k))) < counter_limit policies k"
  proof -
    assume ok and counts: "counts k a"
    with assms have lt:
      "used (unexpired (at_now a) (c (source_key (at_operation a) (at_source a)))) < rl_attemptsPerSource (policies (at_operation a))"
      "used (unexpired (at_now a) (c (account_key (at_operation a) (at_account a)))) < rl_attemptsPerAccount (policies (at_operation a))"
      by (simp_all add: spec_consume_def Let_def split: if_splits)
    from counts show ?thesis
      unfolding counts_def using lt limit [OF counts] by metis
  qed
qed

lemma unexpired_counted: "0 < w \<Longrightarrow> unexpired now (counted w now (unexpired now b)) = counted w now (unexpired now b)"
  by (auto simp: unexpired_def counted_def split: option.split)

lemma within_counted: "within_limit l (unexpired now b) \<Longrightarrow> used (unexpired now b) < l \<Longrightarrow> within_limit l (counted w now (unexpired now b))"
  by (auto simp: within_limit_def counted_def used_def split: option.splits)

lemma within_unexpired: "within_limit l b \<Longrightarrow> within_limit l (unexpired now b)"
  by (auto simp: within_limit_def unexpired_def split: option.split)

lemma spec_admitted_room:
  assumes "sorted (map at_now as)" "\<forall>a \<in> set as. now \<le> at_now a" "0 < w" "0 \<le> l"
    "w = rl_windowMs (policies (counter_operation k))" "l = counter_limit policies k" "within_limit l (c (counter_key k))"
  shows "int (length (filter (\<lambda>a. counts k a \<and> t \<le> at_now a \<and> at_now a < t + w) (spec_admitted policies c as)))
     \<le> room w l t now (unexpired now (c (counter_key k)))"
  using assms
proof (induction as arbitrary: now c)
  case Nil
  then show ?case by (simp add: room_nonneg within_unexpired)
next
  case (Cons a as)
  let ?k = "counter_key k" and ?now = "at_now a"
  obtain c' ok where step: "spec_consume policies c a = (c', ok)" by fastforce
  note c' = spec_consume_counter(1) [OF step, of k] and lt = spec_consume_counter(2) [OF step, of k]
  have within: "within_limit l (c' ?k)"
    using Cons.prems c' lt within_counted [of l ?now "c ?k" w] within_unexpired [of l "c ?k" ?now] by auto
  have "(if ok \<and> counts k a \<and> t \<le> ?now \<and> ?now < t + w then 1 else 0) + room w l t ?now (unexpired ?now (c' ?k))
      \<le> room w l t ?now (unexpired ?now (c ?k))"
  proof (cases "ok \<and> counts k a")
    case True
    then have "used (unexpired ?now (c ?k)) < l" using lt Cons.prems(6) by simp
    moreover from this have "0 < l \<or> unexpired ?now (c ?k) \<noteq> None" by (auto simp: used_def split: option.splits)
    moreover have "unexpired ?now (unexpired ?now (c ?k)) = unexpired ?now (c ?k)" by (simp add: unexpired_later)
    ultimately show ?thesis
      using True c' Cons.prems(3,5,7) room_counted [of w l "unexpired ?now (c ?k)" ?now t]
      by (simp add: unexpired_counted within_unexpired)
  qed (use c' in auto)
  moreover have "room w l t ?now (unexpired ?now (c ?k)) \<le> room w l t now (unexpired now (c ?k))"
    using Cons.prems by (intro room_later) auto
  moreover have "int (length (filter (\<lambda>a. counts k a \<and> t \<le> at_now a \<and> at_now a < t + w) (spec_admitted policies c' as)))
     \<le> room w l t ?now (unexpired ?now (c' ?k))"
    using Cons.prems within by (intro Cons.IH) auto
  ultimately show ?case by (auto simp: step split: if_splits)
qed

text \<open>No window lets more than twice the limit through. Whatever attempts arrive, at times that do
  not go back, in every interval as long as the window of an operation at most twice its limit
  of attempts are let through from one source, and on one account.\<close>

theorem attempts_are_limited:
  assumes "sorted (map at_now as)" "0 < rl_windowMs (policies (counter_operation k))" "0 \<le> counter_limit policies k"
  shows "int (length (filter (\<lambda>a. counts k a \<and> t \<le> at_now a \<and> at_now a < t + rl_windowMs (policies (counter_operation k)))
       (admitted policies fresh_limiter as))) \<le> 2 * counter_limit policies k"
proof -
  note refines = admitted_refines [OF assms(1), of policies]
  obtain now where now: "\<forall>a \<in> set as. now \<le> at_now a" using assms(1) by (cases as) auto
  from spec_admitted_room [OF assms(1) now assms(2,3) refl refl, of "\<lambda>_. None" t] assms(3)
  have "int (length (filter (\<lambda>a. counts k a \<and> t \<le> at_now a \<and> at_now a < t + rl_windowMs (policies (counter_operation k)))
       (spec_admitted policies (\<lambda>_. None) as))) \<le> 2 * counter_limit policies k"
    by (auto simp: within_limit_def room_def unexpired_def split: if_splits)
  then show ?thesis by (simp add: refines)
qed

theorem attempts_are_limited_witness:
  "int (length (filter (\<lambda>a. counts (OfAccount Register ''ann@example.org'') a \<and> 1 \<le> at_now a \<and> at_now a < 1 + 3600000)
     (admitted default_rate_policies fresh_limiter [guess 0, guess 1, guess 2, guess 3600000, guess 3600000, guess 3600000]))) \<le> 2 * 3"
proof -
  let ?k = "OfAccount Register ''ann@example.org''"
  have w: "rl_windowMs (default_rate_policies (counter_operation ?k)) = 3600000" and l: "counter_limit default_rate_policies ?k = 3"
    by (simp_all add: rate_policy_of_def)
  have side: "0 < rl_windowMs (default_rate_policies (counter_operation ?k))" "0 \<le> counter_limit default_rate_policies ?k"
    unfolding w l by simp_all
  have "sorted (map at_now [guess 0, guess 1, guess 2, guess 3600000, guess 3600000, guess 3600000])" by (simp add: guess_def)
  from attempts_are_limited [OF this side, of 1] show ?thesis unfolding w l .
qed

end
