(* ===== verification/Rollout_Cohort.thy ===== *)
theory Rollout_Cohort
  imports Js_Text
begin

text \<open>
  Rollout cohorts and error budgets, \<open>backend/src/rollout-cohort.ts\<close>: the pure decisions how the
  instances of a rollout are grouped and whether the next group may start. Numbers arrive as
  JavaScript numbers; the failure rate is the quotient as a double (\<open>js_double\<close>).
\<close>

section \<open>Policies and answers\<close>

record cohort_policy =
  cp_canarySize :: "js_num option"
  cp_batchSize :: js_num
  cp_maxFailureRate :: js_num
  cp_maxFailures :: js_num
  cp_pauseOnErrorBudget :: "bool option"

record cohort_limits =
  cl_canarySize :: nat
  cl_batchSize :: nat
  cl_maxFailureRate :: rat
  cl_maxFailures :: nat
  cl_pauseOnErrorBudget :: bool

record cohort =
  co_index :: nat
  co_canary :: bool
  co_instanceIds :: "string list"

datatype gate_decision =
    GateWait
  | GatePromote js_num
  | GatePauseBudget js_num
  | GatePauseAttention js_num
  | GateAbort js_num

record gate_input =
  gi_cohortSize :: js_num
  gi_completed :: js_num
  gi_succeeded :: js_num
  gi_failed :: js_num
  gi_needsAttention :: "js_num option"

datatype cohort_error = InvalidCohortPolicy | InvalidCohortIds

section \<open>Validation\<close>

text \<open>A safe integer of at least \<open>lo\<close>.\<close>

definition count_at_least :: "nat \<Rightarrow> js_num \<Rightarrow> (cohort_error, nat) res" where
  "count_at_least lo v =
     (case safe_integer (JNum v) of
        None \<Rightarrow> Inl InvalidCohortPolicy
      | Some n \<Rightarrow> if n < int lo then Inl InvalidCohortPolicy else Inr (nat n))"

definition failure_rate_limit :: "js_num \<Rightarrow> (cohort_error, rat) res" where
  "failure_rate_limit v =
     (case v of
        NotFinite \<Rightarrow> Inl InvalidCohortPolicy
      | Finite q \<Rightarrow> if q < 0 \<or> q > 1 then Inl InvalidCohortPolicy else Inr q)"

definition normalize_cohort_policy :: "cohort_policy \<Rightarrow> (cohort_error, cohort_limits) res" where
  "normalize_cohort_policy p =
     rbind (count_at_least 0 (case cp_canarySize p of Some v \<Rightarrow> v | None \<Rightarrow> Finite 0)) (\<lambda>canary.
     rbind (count_at_least 1 (cp_batchSize p)) (\<lambda>batch.
     rbind (failure_rate_limit (cp_maxFailureRate p)) (\<lambda>rate.
     rbind (count_at_least 0 (cp_maxFailures p)) (\<lambda>failures.
       Inr \<lparr>cl_canarySize = canary, cl_batchSize = batch, cl_maxFailureRate = rate, cl_maxFailures = failures,
            cl_pauseOnErrorBudget = (case cp_pauseOnErrorBudget p of Some b \<Rightarrow> b | None \<Rightarrow> True)\<rparr>))))"

fun normalize_cohort_ids :: "string list \<Rightarrow> string list \<Rightarrow> (cohort_error, string list) res" where
  "normalize_cohort_ids seen [] = Inr []"
| "normalize_cohort_ids seen (v # vs) =
     (let i = js_trim v
      in if i = [] \<or> length i > 256 \<or> list_ex js_control i \<or> i \<in> set seen then Inl InvalidCohortIds
         else rbind (normalize_cohort_ids (i # seen) vs) (\<lambda>is. Inr (i # is)))"

section \<open>Grouping\<close>

text \<open>The loop over the offsets, \<open>n\<close> being positive; the list is what is left from the offset on.\<close>

function cohort_batches :: "nat \<Rightarrow> nat \<Rightarrow> string list \<Rightarrow> cohort list" where
  "cohort_batches index n ids =
     (if ids = [] \<or> n = 0 then []
      else \<lparr>co_index = index, co_canary = False, co_instanceIds = take n ids\<rparr> # cohort_batches (Suc index) n (drop n ids))"
  by pat_completeness auto
termination by (relation "measure (\<lambda>(_, _, ids). length ids)") (auto simp: neq_Nil_conv)

declare cohort_batches.simps [simp del]

definition partition_cohorts :: "string list \<Rightarrow> cohort_policy \<Rightarrow> (cohort_error, cohort list) res" where
  "partition_cohorts instanceIds p =
     rbind (normalize_cohort_ids [] instanceIds) (\<lambda>ids.
     rbind (normalize_cohort_policy p) (\<lambda>l.
       let canarySize = min (cl_canarySize l) (length ids)
       in Inr (if ids = [] then []
               else if canarySize > 0
               then \<lparr>co_index = 0, co_canary = True, co_instanceIds = take canarySize ids\<rparr>
                    # cohort_batches 1 (cl_batchSize l) (drop canarySize ids)
               else cohort_batches 0 (cl_batchSize l) ids)))"

section \<open>The gate\<close>

definition exceeds_rate :: "js_num \<Rightarrow> rat \<Rightarrow> bool" where
  "exceeds_rate rate limit = (case rate of Finite q \<Rightarrow> q > limit | NotFinite \<Rightarrow> False)"

definition evaluate_gate :: "gate_input \<Rightarrow> cohort_policy \<Rightarrow> (cohort_error, gate_decision) res" where
  "evaluate_gate i p =
     rbind (normalize_cohort_policy p) (\<lambda>l.
     rbind (count_at_least 1 (gi_cohortSize i)) (\<lambda>cohortSize.
     rbind (count_at_least 0 (gi_completed i)) (\<lambda>completed.
     rbind (count_at_least 0 (gi_succeeded i)) (\<lambda>succeeded.
     rbind (count_at_least 0 (gi_failed i)) (\<lambda>failed.
     rbind (count_at_least 0 (case gi_needsAttention i of Some v \<Rightarrow> v | None \<Rightarrow> Finite 0)) (\<lambda>needsAttention.
       if completed > cohortSize \<or> succeeded + failed > completed \<or> needsAttention > completed
       then Inl InvalidCohortPolicy
       else if completed < cohortSize then Inr GateWait
       else let failureRate = js_double (of_nat failed / of_nat cohortSize)
            in if needsAttention > 0 then Inr (GatePauseAttention failureRate)
               else if failed > cl_maxFailures l then Inr (GateAbort failureRate)
               else if cl_pauseOnErrorBudget l \<and> exceeds_rate failureRate (cl_maxFailureRate l)
               then Inr (GatePauseBudget failureRate)
               else Inr (GatePromote failureRate)))))))"

section \<open>Properties\<close>

lemma count_at_least_Inr: "count_at_least lo v = Inr n \<Longrightarrow> lo \<le> n \<and> v = Finite (of_nat n)"
  by (cases v) (auto simp: count_at_least_def split: option.splits if_splits)

lemma normalize_cohort_ids_Inr:
  "normalize_cohort_ids seen vs = Inr ids \<Longrightarrow>
     ids = map js_trim vs \<and> distinct ids \<and> set ids \<inter> set seen = {} \<and> (\<forall>i \<in> set ids. i \<noteq> [] \<and> length i \<le> 256)"
proof (induction vs arbitrary: seen ids)
  case (Cons v vs)
  let ?i = "js_trim v"
  from Cons.prems obtain rest where rest: "normalize_cohort_ids (?i # seen) vs = Inr rest" "ids = ?i # rest"
    "?i \<noteq> []" "length ?i \<le> 256" "?i \<notin> set seen"
    by (auto simp: Let_def rbind_Inr_iff split: if_splits)
  note IH = Cons.IH [OF rest(1)]
  have "set rest \<inter> set (?i # seen) = {}" using IH by blast
  then have "?i \<notin> set rest" "set rest \<inter> set seen = {}" by auto
  moreover have "rest = map js_trim vs" "distinct rest" "\<forall>i \<in> set rest. i \<noteq> [] \<and> length i \<le> 256" using IH by blast+
  ultimately show ?case using rest(2-5) by simp
qed simp

lemma cohort_batches_Nil [simp]: "cohort_batches i n [] = []"
  by (subst cohort_batches.simps) simp

lemma cohort_batches_step:
  "ids \<noteq> [] \<Longrightarrow> n > 0 \<Longrightarrow>
     cohort_batches i n ids = \<lparr>co_index = i, co_canary = False, co_instanceIds = take n ids\<rparr> # cohort_batches (Suc i) n (drop n ids)"
  by (subst cohort_batches.simps) simp

lemma cohort_batches_all:
  assumes "n > 0"
  shows "concat (map co_instanceIds (cohort_batches i n ids)) = ids
    \<and> map co_index (cohort_batches i n ids) = [i..<i + length (cohort_batches i n ids)]
    \<and> (\<forall>c \<in> set (cohort_batches i n ids). \<not> co_canary c \<and> co_instanceIds c \<noteq> [] \<and> length (co_instanceIds c) \<le> n)"
proof (induction "length ids" arbitrary: i ids rule: less_induct)
  case less
  show ?case
  proof (cases "ids = []")
    case False
    note IH = less [of "drop n ids" "Suc i"]
    have "length (drop n ids) < length ids" using False assms by (cases ids) auto
    with IH have IH: "concat (map co_instanceIds (cohort_batches (Suc i) n (drop n ids))) = drop n ids"
      "map co_index (cohort_batches (Suc i) n (drop n ids)) = [Suc i..<Suc i + length (cohort_batches (Suc i) n (drop n ids))]"
      "\<forall>c \<in> set (cohort_batches (Suc i) n (drop n ids)). \<not> co_canary c \<and> co_instanceIds c \<noteq> [] \<and> length (co_instanceIds c) \<le> n"
      by blast+
    show ?thesis using False assms IH(1,3)
      by (simp add: cohort_batches_step IH(2) upt_conv_Cons del: upt_Suc)
  qed simp
qed

text \<open>Cohorts partition the instances. Whatever ids and policy are given, the cohorts of an accepted
  request hold, in the order given, every trimmed id once; they are numbered from zero, none is
  empty, only the first can be the canary, of at most the canary size, and all others have at
  most the batch size.\<close>

theorem cohorts_partition_the_instances:
  assumes "partition_cohorts vs p = Inr cs"
  shows "concat (map co_instanceIds cs) = map js_trim vs \<and> distinct (map js_trim vs)
     \<and> map co_index cs = [0..<length cs]
     \<and> (\<exists>l. normalize_cohort_policy p = Inr l
          \<and> (\<forall>c \<in> set cs. co_instanceIds c \<noteq> [] \<and> (co_canary c \<longrightarrow> co_index c = 0)
               \<and> length (co_instanceIds c) \<le> (if co_canary c then cl_canarySize l else cl_batchSize l)))"
proof -
  from assms obtain ids l where n: "normalize_cohort_ids [] vs = Inr ids" "normalize_cohort_policy p = Inr l"
    and cs: "cs = (let canarySize = min (cl_canarySize l) (length ids)
       in if ids = [] then []
          else if canarySize > 0
          then \<lparr>co_index = 0, co_canary = True, co_instanceIds = take canarySize ids\<rparr>
               # cohort_batches 1 (cl_batchSize l) (drop canarySize ids)
          else cohort_batches 0 (cl_batchSize l) ids)"
    by (auto simp: partition_cohorts_def rbind_Inr_iff Let_def)
  have batch: "cl_batchSize l > 0"
    using n(2) by (auto simp: normalize_cohort_policy_def rbind_Inr_iff dest!: count_at_least_Inr)
  note all = cohort_batches_all [OF batch]
  have "concat (map co_instanceIds cs) = ids"
    using all by (simp add: cs Let_def)
  moreover have "map co_index cs = [0..<length cs]"
  proof (cases "ids \<noteq> [] \<and> min (cl_canarySize l) (length ids) > 0")
    case True
    with all [of 1 "drop (min (cl_canarySize l) (length ids)) ids"] show ?thesis
      by (simp add: cs Let_def upt_conv_Cons del: upt_Suc)
  next
    case False
    with all [of 0 ids] show ?thesis by (auto simp: cs Let_def)
  qed
  moreover have "co_instanceIds c \<noteq> [] \<and> (co_canary c \<longrightarrow> co_index c = 0)
      \<and> length (co_instanceIds c) \<le> (if co_canary c then cl_canarySize l else cl_batchSize l)" if "c \<in> set cs" for c
  proof (cases "c \<in> set (cohort_batches 1 (cl_batchSize l) (drop (min (cl_canarySize l) (length ids)) ids))
      \<or> c \<in> set (cohort_batches 0 (cl_batchSize l) ids)")
    case True
    with all show ?thesis by auto
  next
    case False
    with that have "ids \<noteq> []" "cl_canarySize l > 0" "c = \<lparr>co_index = 0, co_canary = True, co_instanceIds = take (min (cl_canarySize l) (length ids)) ids\<rparr>"
      by (auto simp: cs Let_def split: if_splits)
    then show ?thesis by simp
  qed
  ultimately show ?thesis using normalize_cohort_ids_Inr [OF n(1)] n(2) by metis
qed

definition sample_cohorts :: cohort_policy where
  "sample_cohorts = \<lparr>cp_canarySize = Some (Finite 1), cp_batchSize = Finite 2, cp_maxFailureRate = Finite (1/5),
     cp_maxFailures = Finite 1, cp_pauseOnErrorBudget = None\<rparr>"

theorem cohorts_partition_the_instances_witness:
  "\<exists>cs. partition_cohorts ['' a'', ''b'', ''c'', ''d''] sample_cohorts = Inr cs
     \<and> length cs = 3 \<and> concat (map co_instanceIds cs) = [''a'', ''b'', ''c'', ''d'']"
proof -
  have "case partition_cohorts ['' a'', ''b'', ''c'', ''d''] sample_cohorts of Inl _ \<Rightarrow> False | Inr cs \<Rightarrow> length cs = 3" by code_simp
  then obtain cs where cs: "partition_cohorts ['' a'', ''b'', ''c'', ''d''] sample_cohorts = Inr cs" "length cs = 3"
    by (auto split: sum.splits)
  have "map js_trim ['' a'', ''b'', ''c'', ''d''] = [''a'', ''b'', ''c'', ''d'']" by code_simp
  with cohorts_partition_the_instances [OF cs(1)] cs show ?thesis by auto
qed

text \<open>The gate opens only for a healthy cohort. When the next cohort is promoted, every instance of
  this one is through, none needs attention, at most the allowed number has failed, and where
  the budget pauses a rollout the rounded failure rate is within it; an input that counts more
  instances than there are is refused.\<close>

theorem gate_promotes_healthy_cohorts:
  assumes "evaluate_gate i p = Inr (GatePromote rate)"
  shows "\<exists>l size failed. normalize_cohort_policy p = Inr l
     \<and> gi_cohortSize i = Finite (of_nat size) \<and> gi_completed i = gi_cohortSize i \<and> size > 0
     \<and> gi_needsAttention i \<in> {None, Some (Finite 0)}
     \<and> gi_failed i = Finite (of_nat failed) \<and> failed \<le> size \<and> failed \<le> cl_maxFailures l
     \<and> rate = js_double (of_nat failed / of_nat size)
     \<and> (cl_pauseOnErrorBudget l \<longrightarrow> \<not> exceeds_rate rate (cl_maxFailureRate l))"
proof -
  from assms obtain l size completed succeeded failed attention where
    l: "normalize_cohort_policy p = Inr l" and
    n: "count_at_least 1 (gi_cohortSize i) = Inr size" "count_at_least 0 (gi_completed i) = Inr completed"
      "count_at_least 0 (gi_succeeded i) = Inr succeeded" "count_at_least 0 (gi_failed i) = Inr failed"
      "count_at_least 0 (case gi_needsAttention i of Some v \<Rightarrow> v | None \<Rightarrow> Finite 0) = Inr attention" and
    d: "\<not> (completed > size \<or> succeeded + failed > completed \<or> attention > completed)" "\<not> completed < size" "\<not> attention > 0"
      "\<not> failed > cl_maxFailures l" "rate = js_double (of_nat failed / of_nat size)"
      "\<not> (cl_pauseOnErrorBudget l \<and> exceeds_rate rate (cl_maxFailureRate l))"
    by (auto simp: evaluate_gate_def rbind_Inr_iff Let_def split: if_splits)
  show ?thesis
    using l d count_at_least_Inr [OF n(1)] count_at_least_Inr [OF n(2)] count_at_least_Inr [OF n(4)] count_at_least_Inr [OF n(5)]
    by (intro exI [of _ l] exI [of _ size] exI [of _ failed]) (auto split: option.splits)
qed

theorem gate_promotes_healthy_cohorts_witness:
  "\<exists>rate. evaluate_gate \<lparr>gi_cohortSize = Finite 10, gi_completed = Finite 10, gi_succeeded = Finite 10, gi_failed = Finite 0,
       gi_needsAttention = None\<rparr> sample_cohorts = Inr (GatePromote rate) \<and> \<not> exceeds_rate rate (1/5)"
proof -
  let ?i = "\<lparr>gi_cohortSize = Finite 10, gi_completed = Finite 10, gi_succeeded = Finite 10, gi_failed = Finite 0, gi_needsAttention = None\<rparr>"
  have i: "evaluate_gate ?i sample_cohorts = Inr (GatePromote (js_double 0))"
    by (simp add: evaluate_gate_def normalize_cohort_policy_def sample_cohorts_def count_at_least_def failure_rate_limit_def
        max_safe_integer_def exceeds_rate_def js_double_def)
  have l: "normalize_cohort_policy sample_cohorts = Inr l \<Longrightarrow> cl_pauseOnErrorBudget l \<and> cl_maxFailureRate l = 1/5" for l
    by (auto simp: normalize_cohort_policy_def sample_cohorts_def failure_rate_limit_def rbind_Inr_iff)
  from gate_promotes_healthy_cohorts [OF i] i l show ?thesis by fastforce
qed

end
