(* ===== verification/Memory_Config.thy ===== *)
theory Memory_Config
  imports Memory_Store Versioned_Store Instance_Policy
begin

text \<open>
  Configuration in the memory adapter (\<open>persistence/memory.ts\<close>): revisions with their history,
  forwarding policies, the provisioning policy, the audit log and the monitoring buffers. The
  clock, the id of an audit event and the redaction of its metadata are arguments.
\<close>

section \<open>Configuration revisions\<close>

datatype config_error = ConfigRevisionConflict | PolicyNotInitialized | PolicyInvalid policy_error

definition get_config_revision :: "mem \<Rightarrow> string \<Rightarrow> config_revision option" where
  "get_config_revision m key = js_get (m_configRevisions m) key"

definition config_history :: "mem \<Rightarrow> string \<Rightarrow> config_snapshot list" where
  "config_history m key = (case js_get (m_configHistory m) key of Some h \<Rightarrow> h | None \<Rightarrow> [])"

definition current_revision :: "mem \<Rightarrow> string \<Rightarrow> nat" where
  "current_revision m key = (case get_config_revision m key of Some c \<Rightarrow> cr_revision c | None \<Rightarrow> 0)"

definition config_payload :: "config_input \<Rightarrow> js_val" where
  "config_payload input = (if ci_payload input = JUndef then JNull else ci_payload input)"

definition next_config_revision :: "mem \<Rightarrow> string \<Rightarrow> config_input \<Rightarrow> instant \<Rightarrow> config_revision" where
  "next_config_revision m key input now =
     \<lparr>cr_key = key, cr_revision = current_revision m key + 1,
      cr_updatedBy = (case ci_updatedBy input of
          Some u \<Rightarrow> if js_trim u = [] then ''system'' else js_trim u | None \<Rightarrow> ''system''),
      cr_updatedAt = now,
      cr_effect = (case ci_effect input of Some e \<Rightarrow> e | None \<Rightarrow> Immediate),
      cr_effectiveAt = (case ci_effectiveAt input of Some t \<Rightarrow> t | None \<Rightarrow> Some now)\<rparr>"

definition save_config_revision :: "mem \<Rightarrow> string \<Rightarrow> config_input \<Rightarrow> instant \<Rightarrow> mem \<times> (config_error, config_revision) res" where
  "save_config_revision m key input now =
     (if ci_expectedRevision input \<noteq> None \<and> ci_expectedRevision input \<noteq> Some (current_revision m key)
      then (m, Inl ConfigRevisionConflict)
      else let r = next_config_revision m key input now;
               history = take 100 (\<lparr>cs_revision = r, cs_payload = config_payload input\<rparr> # config_history m key)
           in (m\<lparr>m_configRevisions := js_set (m_configRevisions m) key r,
                 m_configHistory := js_set (m_configHistory m) key history\<rparr>, Inr r))"

definition list_config_revisions :: "mem \<Rightarrow> string \<Rightarrow> js_num option \<Rightarrow> config_snapshot list" where
  "list_config_revisions m key limit =
     take (clamp_limit (case limit of Some l \<Rightarrow> l | None \<Rightarrow> Finite 50)) (config_history m key)"

definition get_config_snapshot :: "mem \<Rightarrow> string \<Rightarrow> nat \<Rightarrow> config_snapshot option" where
  "get_config_snapshot m key revision = find (\<lambda>s. cr_revision (cs_revision s) = revision) (config_history m key)"

section \<open>Forwarding policies\<close>

definition upsert_forwarding_policy ::
  "mem \<Rightarrow> forwarding_policy \<Rightarrow> config_input \<Rightarrow> instant \<Rightarrow> mem \<times> (config_error, forwarding_policy) res" where
  "upsert_forwarding_policy m policy revision now =
     (let updated = policy\<lparr>fp_updatedAt := now\<rparr>;
          payload = JObj [(''targetBaseUrl'', JStr (fp_targetBaseUrl policy)),
                          (''allowedHosts'', JArr (map JStr (fp_allowedHosts policy))),
                          (''enabled'', JBool (fp_enabled policy))]
      in case save_config_revision m (''forwarding:'' @ fp_id policy)
           (revision\<lparr>ci_updatedBy := Some (fp_updatedBy policy), ci_effect := Some Immediate, ci_payload := payload\<rparr>) now of
           (m1, Inl e) \<Rightarrow> (m1, Inl e)
         | (m1, Inr _) \<Rightarrow> (m1\<lparr>m_forwardingPolicies := js_set (m_forwardingPolicies m1) (fp_id policy) updated\<rparr>, Inr updated))"

definition list_forwarding_policies :: "mem \<Rightarrow> forwarding_policy list" where
  "list_forwarding_policies m = js_values (m_forwardingPolicies m)"

section \<open>The provisioning policy\<close>

text \<open>
  The adapter with its two policy fields: the stored policy, and the fallback the composition
  root injected. \<open>policy_snapshot\<close> is the value a policy is as an object.
\<close>

record policy_store =
  ps_mem :: mem
  ps_policy :: "provisioning_policy option"
  ps_fallback :: "provisioning_policy option"

definition get_provisioning_policy :: "policy_store \<Rightarrow> (config_error, provisioning_policy) res" where
  "get_provisioning_policy ps =
     (let normalized = (\<lambda>p fallback. case normalize_policy_with (policy_snapshot p) fallback of
            Inl e \<Rightarrow> Inl (PolicyInvalid e) | Inr q \<Rightarrow> Inr q)
      in case ps_policy ps of
           Some p \<Rightarrow> normalized p (case ps_fallback ps of Some f \<Rightarrow> f | None \<Rightarrow> p)
         | None \<Rightarrow> (case ps_fallback ps of None \<Rightarrow> Inl PolicyNotInitialized | Some f \<Rightarrow> normalized f f))"

definition save_provisioning_policy ::
  "policy_store \<Rightarrow> provisioning_policy \<Rightarrow> config_input \<Rightarrow> instant \<Rightarrow> policy_store \<times> (config_error, provisioning_policy) res" where
  "save_provisioning_policy ps policy revision now =
     (case save_config_revision (ps_mem ps) ''instance-policy'' (revision\<lparr>ci_payload := policy_snapshot policy\<rparr>) now of
        (m, Inl e) \<Rightarrow> (ps\<lparr>ps_mem := m\<rparr>, Inl e)
      | (m, Inr _) \<Rightarrow> (ps\<lparr>ps_mem := m, ps_policy := Some policy,
            ps_fallback := (case ps_fallback ps of Some f \<Rightarrow> Some f | None \<Rightarrow> Some policy)\<rparr>, Inr policy))"

definition initialize_policy :: "policy_store \<Rightarrow> js_val option \<Rightarrow> policy_env \<Rightarrow> policy_store \<times> (config_error, unit) res" where
  "initialize_policy ps defaults env =
     (case defaults of
        Some (JObj (f # fs)) \<Rightarrow>
          if ps_policy ps = None
          then (case policy_from_defaults (JObj (f # fs)) env of
                  Inl e \<Rightarrow> (ps, Inl (PolicyInvalid e))
                | Inr p \<Rightarrow> (ps\<lparr>ps_policy := Some p, ps_fallback := Some p\<rparr>, Inr ()))
          else (ps, Inr ())
      | _ \<Rightarrow> (ps, Inr ()))"

section \<open>Audit log and monitoring buffers\<close>

record audit_filter =
  af_actorUserId :: "string option"
  af_action :: "string option"
  af_resourceType :: "string option"
  af_resourceId :: "string option"
  af_from :: "instant option"
  af_to :: "instant option"
  af_offset :: "js_num option"
  af_limit :: "js_num option"

text \<open>A filter that is absent or empty lets every value through.\<close>

definition text_filter :: "string option \<Rightarrow> string option \<Rightarrow> bool" where
  "text_filter f v \<longleftrightarrow> \<not> js_truthy f \<or> v = f"

definition audit_matches :: "audit_filter \<Rightarrow> audit_event \<Rightarrow> bool" where
  "audit_matches f e \<longleftrightarrow>
     text_filter (af_actorUserId f) (ae_actorUserId e) \<and> text_filter (af_action f) (Some (ae_action e))
     \<and> text_filter (af_resourceType f) (Some (ae_resourceType e)) \<and> text_filter (af_resourceId f) (ae_resourceId e)
     \<and> (case af_from f of None \<Rightarrow> True | Some t \<Rightarrow> ae_createdAt e \<ge> t)
     \<and> (case af_to f of None \<Rightarrow> True | Some t \<Rightarrow> ae_createdAt e \<le> t)"

definition list_audit_events :: "mem \<Rightarrow> audit_filter \<Rightarrow> audit_event list" where
  "list_audit_events m f =
     take (clamp_limit (case af_limit f of Some l \<Rightarrow> l | None \<Rightarrow> Finite 100))
       (drop (clamp_offset (af_offset f)) (filter (audit_matches f) (m_auditEvents m)))"

text \<open>The buffers of runtime samples and of health checks: per key the newest 120, newest first.\<close>

definition record_buffered :: "'a \<Rightarrow> string \<Rightarrow> (string, 'a list) js_map \<Rightarrow> (string, 'a list) js_map" where
  "record_buffered sample key buffers =
     js_set buffers key (take 120 (sample # (case js_get buffers key of Some xs \<Rightarrow> xs | None \<Rightarrow> [])))"

definition list_buffered :: "(string, 'a list) js_map \<Rightarrow> string \<Rightarrow> js_num option \<Rightarrow> 'a list" where
  "list_buffered buffers key limit =
     take (clamp_limit (case limit of Some l \<Rightarrow> l | None \<Rightarrow> Finite 60))
       (case js_get buffers key of Some xs \<Rightarrow> xs | None \<Rightarrow> [])"

definition list_latest_samples :: "(string, 'a list) js_map \<Rightarrow> string list \<Rightarrow> 'a list" where
  "list_latest_samples buffers instanceIds =
     concat (map (\<lambda>i. case js_get buffers i of Some (x # _) \<Rightarrow> [x] | _ \<Rightarrow> []) instanceIds)"

definition list_health_checks ::
  "('a \<Rightarrow> instant) \<Rightarrow> (string, 'a list) js_map \<Rightarrow> string option \<Rightarrow> js_num option \<Rightarrow> 'a list" where
  "list_health_checks checkedAt buffers target limit =
     (case target of
        Some (t # ts) \<Rightarrow> list_buffered buffers (t # ts) limit
      | _ \<Rightarrow> take (clamp_limit (case limit of Some l \<Rightarrow> l | None \<Rightarrow> Finite 60))
               (newest_first checkedAt (concat (js_values buffers))))"

section \<open>Revisions are versioned, histories unbroken\<close>

text \<open>
  A revision as a versioned value: a key without a row counts as at revision zero, a write
  carries the fields of the row it stores, and names the revision it is based on.
\<close>

definition config_row :: "mem \<Rightarrow> string \<Rightarrow> config_revision option" where
  "config_row m key = Some (case get_config_revision m key of Some c \<Rightarrow> c | None \<Rightarrow> initial_config_revision key)"

definition config_write :: "config_revision \<Rightarrow> nat \<Rightarrow> config_input" where
  "config_write v expected = \<lparr>ci_updatedBy = Some (cr_updatedBy v), ci_effect = Some (cr_effect v),
     ci_effectiveAt = Some (cr_effectiveAt v), ci_expectedRevision = Some expected, ci_payload = JNull\<rparr>"

definition config_cas :: "mem \<Rightarrow> config_revision \<Rightarrow> nat \<Rightarrow> mem \<times> config_revision option" where
  "config_cas m v expected =
     (case save_config_revision m (cr_key v) (config_write v expected) (cr_updatedAt v) of
        (m', Inl _) \<Rightarrow> (m', None) | (m', Inr w) \<Rightarrow> (m', Some w))"

lemma config_cas_eq:
  "config_cas m v r =
     (if current_revision m (cr_key v) = r
      then (let w = next_config_revision m (cr_key v) (config_write v r) (cr_updatedAt v)
            in (fst (save_config_revision m (cr_key v) (config_write v r) (cr_updatedAt v)), Some w))
      else (m, None))"
  by (auto simp: config_cas_def save_config_revision_def Let_def config_write_def)

lemma get_saved_revision:
  "get_config_revision (fst (save_config_revision m key input now)) k =
     (if k = key \<and> (ci_expectedRevision input = None \<or> ci_expectedRevision input = Some (current_revision m key))
      then Some (next_config_revision m key input now) else get_config_revision m k)"
  by (auto simp: save_config_revision_def get_config_revision_def Let_def)

interpretation configs: versioned_store config_row config_cas cr_key cr_revision
proof (unfold_locales, goal_cases)
  case (1 s v r s' w)
  then show ?case
    by (auto simp: config_cas_eq config_row_def current_revision_def initial_config_revision_def Let_def
        split: if_splits option.splits)
next
  case (2 s v r s' w)
  then show ?case
    by (auto simp: config_cas_eq config_row_def get_saved_revision config_write_def Let_def split: if_splits)
next
  case (3 s v r s' w)
  then show ?case by (auto simp: config_cas_eq next_config_revision_def Let_def split: if_splits)
next
  case (4 s v r s')
  then show ?case by (auto simp: config_cas_eq Let_def split: if_splits)
next
  case (5 k v s r)
  then show ?case by (simp add: config_cas_eq config_row_def get_saved_revision Let_def)
qed

text \<open>The revisions of a history, newest first: consecutive, down to one or to the last hundred.\<close>

definition consecutive :: "nat \<Rightarrow> nat list \<Rightarrow> bool" where
  "consecutive cur rs \<longleftrightarrow> length rs \<le> 100 \<and> length rs \<le> cur \<and> (\<forall>i < length rs. rs ! i = cur - i)
     \<and> (length rs < cur \<longrightarrow> length rs = 100)"

definition configs_inv :: "mem \<Rightarrow> bool" where
  "configs_inv m \<longleftrightarrow>
     (\<forall>key. consecutive (current_revision m key) (map (cr_revision \<circ> cs_revision) (config_history m key))
        \<and> (\<forall>s \<in> set (config_history m key). cr_key (cs_revision s) = key)
        \<and> (config_history m key \<noteq> [] \<longrightarrow> get_config_revision m key = Some (cs_revision (hd (config_history m key)))))"

lemma consecutive_next:
  assumes "consecutive cur rs"
  shows "consecutive (Suc cur) (take 100 (Suc cur # rs))"
  using assms by (auto simp: consecutive_def min_def nth_Cons' Suc_diff_le)

lemma configs_inv_empty: "configs_inv empty_mem"
  by (auto simp: configs_inv_def empty_mem_def consecutive_def current_revision_def get_config_revision_def config_history_def
      initial_config_revision_def)

lemma save_config_revision_inv:
  assumes inv: "configs_inv m"
  shows "configs_inv (fst (save_config_revision m key input now))"
proof (cases "ci_expectedRevision input \<noteq> None \<and> ci_expectedRevision input \<noteq> Some (current_revision m key)")
  case True
  then show ?thesis using inv by (simp add: save_config_revision_def)
next
  case False
  let ?r = "next_config_revision m key input now"
  let ?h = "take 100 (\<lparr>cs_revision = ?r, cs_payload = config_payload input\<rparr> # config_history m key)"
  let ?m = "fst (save_config_revision m key input now)"
  have m: "get_config_revision ?m k = (if k = key then Some ?r else get_config_revision m k)"
    "config_history ?m k = (if k = key then ?h else config_history m k)" for k
    using False by (auto simp: save_config_revision_def get_config_revision_def config_history_def Let_def)
  have r: "cr_revision ?r = Suc (current_revision m key)" "cr_key ?r = key" by (simp_all add: next_config_revision_def)
  have cur: "current_revision ?m k = (if k = key then Suc (current_revision m key) else current_revision m k)" for k
    by (simp add: current_revision_def [of ?m] m r(1) current_revision_def [of m k])
  have old: "consecutive (current_revision m k) (map (cr_revision \<circ> cs_revision) (config_history m k))"
    "\<forall>s \<in> set (config_history m k). cr_key (cs_revision s) = k"
    "config_history m k \<noteq> [] \<longrightarrow> get_config_revision m k = Some (cs_revision (hd (config_history m k)))" for k
    using inv by (auto simp: configs_inv_def)
  have "consecutive (Suc (current_revision m key)) (map (cr_revision \<circ> cs_revision) ?h)"
    using consecutive_next [OF old(1) [of key]] r(1) by (simp add: take_map)
  moreover have "\<forall>s \<in> set ?h. cr_key (cs_revision s) = key"
    using old(2) [of key] r(2) by (auto dest: in_set_takeD)
  ultimately show ?thesis
    using old by (simp add: configs_inv_def m cur)
qed

text \<open>No configuration write is lost. Of the writes two administrators base on the same revision
  of a key, at most one is accepted, whatever is written to this and other keys in between; the
  other is refused as a conflict.\<close>

theorem config_no_lost_update:
  assumes "config_cas m v r = (m1, Some w)" "cr_key v' = cr_key v"
  shows "snd (config_cas (cas_run config_cas m1 ws) v' r) = None"
  using assms by (rule configs.cas_no_lost_update)

definition sample_revision :: config_revision where
  "sample_revision = (initial_config_revision ''instance-policy'')\<lparr>cr_updatedBy := ''ann''\<rparr>"

lemma sample_config_write: "\<exists>m w. config_cas empty_mem sample_revision 0 = (m, Some w)"
  by (simp add: config_cas_eq current_revision_def get_config_revision_def sample_revision_def empty_mem_def
      initial_config_revision_def Let_def)

theorem config_no_lost_update_witness:
  "\<exists>m. snd (config_cas empty_mem sample_revision 0) \<noteq> None \<and> snd (config_cas m sample_revision 0) = None"
proof -
  from sample_config_write obtain m w where w: "config_cas empty_mem sample_revision 0 = (m, Some w)" by blast
  from config_no_lost_update [OF w refl, of "[]"] w show ?thesis by auto
qed

text \<open>Histories are unbroken. After any sequence of writes to the configuration, accepted or refused,
  the history of every key lists its revisions without a gap, from the current one down to the
  first or to the hundredth before it, so that each of them can be read back and rolled back to.\<close>

theorem config_history_is_unbroken:
  assumes "m = foldl (\<lambda>m (key, input, now). fst (save_config_revision m key input now)) empty_mem ws"
    "1 \<le> n" "n \<le> current_revision m key" "current_revision m key < n + 100"
  shows "\<exists>s. get_config_snapshot m key n = Some s \<and> cr_revision (cs_revision s) = n \<and> cr_key (cs_revision s) = key"
proof -
  have "configs_inv (foldl (\<lambda>m (key, input, now). fst (save_config_revision m key input now)) m0 ws)" if "configs_inv m0" for m0
    using that by (induction ws arbitrary: m0) (auto simp: save_config_revision_inv)
  then have inv: "configs_inv m" using assms(1) configs_inv_empty by simp
  let ?h = "config_history m key"
  let ?i = "current_revision m key - n"
  have c: "consecutive (current_revision m key) (map (cr_revision \<circ> cs_revision) ?h)" and
    keys: "\<forall>s \<in> set ?h. cr_key (cs_revision s) = key" using inv by (auto simp: configs_inv_def)
  have i: "?i < length ?h" using c assms(2-4) by (auto simp: consecutive_def)
  then have "cr_revision (cs_revision (?h ! ?i)) = n" using c assms(3) by (auto simp: consecutive_def)
  then have "\<exists>s \<in> set ?h. cr_revision (cs_revision s) = n" using i nth_mem by blast
  then obtain s where "get_config_snapshot m key n = Some s"
    unfolding get_config_snapshot_def by (metis (mono_tags, lifting) find_None_iff option.exhaust)
  then show ?thesis using keys by (auto simp: get_config_snapshot_def find_Some_iff)
qed

theorem config_history_is_unbroken_witness:
  "\<exists>s. get_config_snapshot (foldl (\<lambda>m (key, input, now). fst (save_config_revision m key input now)) empty_mem
      [(''forwarding:default'', config_write sample_revision 0, 1), (''forwarding:default'', config_write sample_revision 1, 2)])
      ''forwarding:default'' 1 = Some s \<and> cr_revision (cs_revision s) = 1"
proof -
  let ?ws = "[(''forwarding:default'', config_write sample_revision 0, 1), (''forwarding:default'', config_write sample_revision 1, 2)]"
  have two: "current_revision (foldl (\<lambda>m (key, input, now). fst (save_config_revision m key input now)) empty_mem ?ws) ''forwarding:default'' = 2"
    by code_simp
  from config_history_is_unbroken [OF refl, of 1 ?ws "''forwarding:default''"] two show ?thesis by auto
qed

end
