(* ===== verification/Memory_Catalog.thy ===== *)
theory Memory_Catalog
  imports Memory_Store Machine Js_Text
begin

text \<open>
  The catalog in the memory adapter (\<open>persistence/memory.ts\<close>): applications, their versions,
  build strategies, uploaded packages, image builds and image artifacts. \<open>localeCompare\<close> on
  names is an argument (\<open>collate\<close>); on time stamps it is the order of instants. A method that
  throws has the code of its error as result.
\<close>

section \<open>Applications\<close>

definition catalog_id :: "string \<Rightarrow> string" where
  "catalog_id s = js_lower (js_trim s)"

definition list_apps :: "(string \<Rightarrow> string \<Rightarrow> int) \<Rightarrow> mem \<Rightarrow> app_definition list" where
  "list_apps collate m = sort_by (\<lambda>l r. collate (app_name l) (app_name r)) (js_values (m_apps m))"

definition get_app :: "mem \<Rightarrow> string \<Rightarrow> app_definition option" where
  "get_app m appId = js_get (m_apps m) (catalog_id appId)"

definition create_app :: "mem \<Rightarrow> app_definition \<Rightarrow> mem \<times> app_definition option" where
  "create_app m app =
     (let i = catalog_id (app_id app); v = app\<lparr>app_id := i\<rparr>
      in if js_has (m_apps m) i then (m, None) else (m\<lparr>m_apps := js_set (m_apps m) i v\<rparr>, Some v))"

definition update_app :: "mem \<Rightarrow> app_definition \<Rightarrow> mem \<times> app_definition option" where
  "update_app m app =
     (let i = catalog_id (app_id app); v = app\<lparr>app_id := i\<rparr>
      in if \<not> js_has (m_apps m) i then (m, None) else (m\<lparr>m_apps := js_set (m_apps m) i v\<rparr>, Some v))"

section \<open>Versions\<close>

definition version_revision :: "app_version \<Rightarrow> nat" where
  "version_revision v = (case v_revision v of Some n \<Rightarrow> n | None \<Rightarrow> 0)"

definition version_packages :: "app_version \<Rightarrow> build_package_ref list" where
  "version_packages v = (case v_packages v of Some ps \<Rightarrow> ps | None \<Rightarrow> [])"

definition packages_for_version :: "(string \<Rightarrow> string \<Rightarrow> int) \<Rightarrow> app_version \<Rightarrow> build_package_ref list" where
  "packages_for_version collate v = sort_by (\<lambda>a b. collate (bp_key a) (bp_key b)) (version_packages v)"

definition packages_for_strategy :: "(string \<Rightarrow> string \<Rightarrow> int) \<Rightarrow> app_version \<Rightarrow> build_strategy \<Rightarrow> build_package_ref list" where
  "packages_for_strategy collate v strategy =
     filter (\<lambda>e. bp_key e \<in> set (map pq_key (bs_packageRequirements strategy))) (packages_for_version collate v)"

definition with_version_packages :: "(string \<Rightarrow> string \<Rightarrow> int) \<Rightarrow> app_version \<Rightarrow> app_version" where
  "with_version_packages collate v = v\<lparr>v_packages := Some (packages_for_version collate v)\<rparr>"

text \<open>The versions of an application, newest revision first.\<close>

definition versions_of :: "mem \<Rightarrow> string \<Rightarrow> app_version list" where
  "versions_of m app = sort_key (\<lambda>v. - int (version_revision v)) (filter (\<lambda>v. v_appId v = app) (js_values (m_appVersions m)))"

definition list_app_versions :: "mem \<Rightarrow> string \<Rightarrow> app_version list" where
  "list_app_versions m appId = versions_of m (catalog_id appId)"

definition get_app_version :: "mem \<Rightarrow> string \<Rightarrow> app_version option" where
  "get_app_version m i = js_get (m_appVersions m) i"

text \<open>Some entry names a package (by a truthy id) that is not stored.\<close>

definition missing_package :: "mem \<Rightarrow> build_package_ref list \<Rightarrow> bool" where
  "missing_package m ps \<longleftrightarrow>
     list_ex (\<lambda>p. case bp_packageId p of Some i \<Rightarrow> i \<noteq> [] \<and> \<not> js_has (m_buildPackages m) i | None \<Rightarrow> False) ps"

definition next_version_revision :: "mem \<Rightarrow> string \<Rightarrow> nat" where
  "next_version_revision m app =
     fold max (map version_revision (filter (\<lambda>v. v_appId v = app) (js_values (m_appVersions m)))) 0 + 1"

definition save_app_version ::
  "(string \<Rightarrow> string \<Rightarrow> int) \<Rightarrow> mem \<Rightarrow> app_version \<Rightarrow> mem \<times> (string, app_version option) res" where
  "save_app_version collate m v =
     (if \<not> js_has (m_apps m) (v_appId v) then (m, Inl ''app_not_found'')
      else if missing_package m (version_packages v) then (m, Inl ''build_package_not_found'')
      else if list_ex (\<lambda>x. v_appId x = v_appId v \<and> v_version x = v_version v \<and> v_id x \<noteq> v_id v) (js_values (m_appVersions m))
      then (m, Inr None)
      else let nextRevision = next_version_revision m (v_appId v);
               revision = (case js_get (m_appVersions m) (v_id v) of
                   Some c \<Rightarrow> if v_appId c = v_appId v
                             then (case v_revision c of Some n \<Rightarrow> n | None \<Rightarrow> nextRevision) else nextRevision
                 | None \<Rightarrow> nextRevision);
               w = with_version_packages collate (v\<lparr>v_revision := Some revision\<rparr>)
           in (m\<lparr>m_appVersions := js_set (m_appVersions m) (v_id w) w\<rparr>, Inr (Some w)))"

definition current_version :: "app_version list \<Rightarrow> app_version option" where
  "current_version vs =
     (case find (\<lambda>v. v_status v = VActive) vs of Some v \<Rightarrow> Some v | None \<Rightarrow> find (\<lambda>v. v_status v = VLegacy) vs)"

definition activated :: "string \<Rightarrow> string \<Rightarrow> instant \<Rightarrow> app_version \<Rightarrow> app_version" where
  "activated app versionId now v =
     (if v_appId v \<noteq> app then v
      else if v_id v = versionId then v\<lparr>v_status := VActive, v_activatedAt := Some now\<rparr>
      else if v_status v = VActive
      then v\<lparr>v_status := (if js_truthy (v_imageReference v) then VImageReady else VUploaded), v_activatedAt := None\<rparr>
      else v)"

text \<open>\<open>expected\<close> is None when the argument is left out, and \<open>Some None\<close> for null.\<close>

definition activate_app_version ::
  "mem \<Rightarrow> instant \<Rightarrow> string \<Rightarrow> string \<Rightarrow> string option option \<Rightarrow> mem \<times> app_version option" where
  "activate_app_version m now appId versionId expected =
     (let app = catalog_id appId
      in case js_get (m_appVersions m) versionId of
           None \<Rightarrow> (m, None)
         | Some target \<Rightarrow>
             if v_appId target \<noteq> app then (m, None)
             else if expected \<noteq> None \<and> expected \<noteq> Some (map_option v_id (current_version (versions_of m app))) then (m, None)
             else let versions = js_update_each (\<lambda>_. activated app versionId now) (m_appVersions m)
                  in (m\<lparr>m_appVersions := versions\<rparr>, js_get versions versionId))"

section \<open>Strategies and packages\<close>

definition list_build_strategies :: "(string \<Rightarrow> string \<Rightarrow> int) \<Rightarrow> mem \<Rightarrow> build_strategy list" where
  "list_build_strategies collate m = sort_by (\<lambda>l r. collate (bs_name l) (bs_name r)) (js_values (m_buildStrategies m))"

definition get_build_strategy :: "mem \<Rightarrow> string \<Rightarrow> build_strategy option" where
  "get_build_strategy m i = js_get (m_buildStrategies m) (catalog_id i)"

definition save_build_strategy :: "mem \<Rightarrow> build_strategy \<Rightarrow> mem \<times> build_strategy" where
  "save_build_strategy m s =
     (let v = s\<lparr>bs_id := catalog_id (bs_id s)\<rparr> in (m\<lparr>m_buildStrategies := js_set (m_buildStrategies m) (bs_id v) v\<rparr>, v))"

definition optional_take :: "js_num option \<Rightarrow> 'a list \<Rightarrow> 'a list" where
  "optional_take limit xs = (case limit of None \<Rightarrow> xs | Some l \<Rightarrow> take (clamp_limit l) xs)"

text \<open>A filter by an optional id, normalised; an empty one lets every value through.\<close>

definition id_filter :: "string option \<Rightarrow> string \<Rightarrow> bool" where
  "id_filter f v \<longleftrightarrow> (case f of Some i \<Rightarrow> catalog_id i = [] \<or> v = catalog_id i | None \<Rightarrow> True)"

definition list_build_packages :: "mem \<Rightarrow> string option \<Rightarrow> string option \<Rightarrow> js_num option \<Rightarrow> build_package list" where
  "list_build_packages m strategyId key limit =
     optional_take limit (newest_first pk_createdAt
       (filter (\<lambda>p. id_filter strategyId (pk_strategyId p) \<and> id_filter key (pk_key p)) (js_values (m_buildPackages m))))"

definition get_build_package :: "mem \<Rightarrow> string \<Rightarrow> build_package option" where
  "get_build_package m i = js_get (m_buildPackages m) i"

definition create_build_package :: "mem \<Rightarrow> build_package \<Rightarrow> mem \<times> (string, build_package option) res" where
  "create_build_package m p =
     (if js_has (m_buildPackages m) (pk_id p) then (m, Inr None)
      else if \<not> js_has (m_buildStrategies m) (pk_strategyId p) then (m, Inl ''build_strategy_not_found'')
      else (m\<lparr>m_buildPackages := js_set (m_buildPackages m) (pk_id p) p\<rparr>, Inr (Some p)))"

definition references_package :: "string \<Rightarrow> build_package_ref list \<Rightarrow> bool" where
  "references_package i ps \<longleftrightarrow> list_ex (\<lambda>p. bp_packageId p = Some i) ps"

definition delete_build_package :: "mem \<Rightarrow> string \<Rightarrow> mem \<times> build_package option" where
  "delete_build_package m i =
     (case js_get (m_buildPackages m) i of
        None \<Rightarrow> (m, None)
      | Some p \<Rightarrow>
          if list_ex (\<lambda>v. references_package i (version_packages v)) (js_values (m_appVersions m))
            \<or> list_ex (\<lambda>b. references_package i (ib_packages b)) (js_values (m_imageBuilds m))
          then (m, None)
          else (m\<lparr>m_buildPackages := js_delete (m_buildPackages m) i\<rparr>, Some p))"

section \<open>Builds\<close>

definition list_image_builds :: "mem \<Rightarrow> string option \<Rightarrow> js_num option \<Rightarrow> image_build list" where
  "list_image_builds m strategyId limit =
     optional_take limit (newest_first ib_createdAt (filter (\<lambda>b. id_filter strategyId (ib_strategyId b)) (js_values (m_imageBuilds m))))"

definition get_image_build :: "mem \<Rightarrow> string \<Rightarrow> image_build option" where
  "get_image_build m i = js_get (m_imageBuilds m) i"

definition create_image_build :: "mem \<Rightarrow> image_build \<Rightarrow> mem \<times> (string, image_build option) res" where
  "create_image_build m b =
     (if js_has (m_imageBuilds m) (ib_id b) then (m, Inr None)
      else if \<not> js_has (m_buildStrategies m) (ib_strategyId b) then (m, Inl ''build_strategy_not_found'')
      else if (case ib_sourceAppVersionId b of Some i \<Rightarrow> i \<noteq> [] \<and> \<not> js_has (m_appVersions m) i | None \<Rightarrow> False)
      then (m, Inl ''app_version_not_found'')
      else if (case ib_operationId b of Some i \<Rightarrow> i \<noteq> [] \<and> \<not> js_has (m_operations m) i | None \<Rightarrow> False)
      then (m, Inl ''operation_not_found'')
      else if missing_package m (ib_packages b) then (m, Inl ''build_package_not_found'')
      else (m\<lparr>m_imageBuilds := js_set (m_imageBuilds m) (ib_id b) b\<rparr>, Inr (Some b)))"

definition update_image_build :: "mem \<Rightarrow> image_build \<Rightarrow> image_build_status \<Rightarrow> mem \<times> image_build option" where
  "update_image_build m b expectedStatus =
     (case js_get (m_imageBuilds m) (ib_id b) of
        None \<Rightarrow> (m, None)
      | Some c \<Rightarrow> if ib_status c \<noteq> expectedStatus then (m, None)
                  else (m\<lparr>m_imageBuilds := js_set (m_imageBuilds m) (ib_id b) b\<rparr>, Some b))"

text \<open>A build left queued or building whose operation is not open any more.\<close>

definition build_interrupted :: "mem \<Rightarrow> image_build \<Rightarrow> bool" where
  "build_interrupted m b \<longleftrightarrow>
     (ib_status b = BQueued \<or> ib_status b = BBuilding)
     \<and> \<not> (case ib_operationId b of
            None \<Rightarrow> False
          | Some i \<Rightarrow> i \<noteq> [] \<and> (case js_get (m_operations m) i of
                None \<Rightarrow> False | Some op \<Rightarrow> o_status op = OQueued \<or> o_status op = ORunning))"

definition recover_image_builds :: "mem \<Rightarrow> instant \<Rightarrow> mem \<times> nat" where
  "recover_image_builds m finishedAt =
     (m\<lparr>m_imageBuilds := js_update_each (\<lambda>_ b. if build_interrupted m b
          then b\<lparr>ib_status := BFailed, ib_error := Some ''image_build_interrupted'', ib_finishedAt := Some finishedAt\<rparr> else b)
        (m_imageBuilds m)\<rparr>,
      length (filter (build_interrupted m) (js_values (m_imageBuilds m))))"

definition complete_image_build ::
  "mem \<Rightarrow> image_build \<Rightarrow> image_artifact \<Rightarrow> image_build_status \<Rightarrow> mem \<times> (image_build \<times> image_artifact) option" where
  "complete_image_build m b a expectedStatus =
     (case js_get (m_imageBuilds m) (ib_id b) of
        None \<Rightarrow> (m, None)
      | Some c \<Rightarrow>
          if ib_status c \<noteq> expectedStatus \<or> ia_buildId a \<noteq> ib_id b then (m, None)
          else if js_has (m_imageArtifacts m) (ia_id a)
            \<or> list_ex (\<lambda>x. ia_buildId x = ia_buildId a) (js_values (m_imageArtifacts m)) then (m, None)
          else (m\<lparr>m_imageBuilds := js_set (m_imageBuilds m) (ib_id b) b,
                  m_imageArtifacts := js_set (m_imageArtifacts m) (ia_id a) a\<rparr>, Some (b, a)))"

section \<open>Artifacts\<close>

definition get_image_artifact :: "mem \<Rightarrow> string \<Rightarrow> image_artifact option" where
  "get_image_artifact m i = js_get (m_imageArtifacts m) i"


definition list_image_artifacts :: "mem \<Rightarrow> js_num option \<Rightarrow> image_artifact list" where
  "list_image_artifacts m limit = optional_take limit (newest_first ia_createdAt (js_values (m_imageArtifacts m)))"

definition rollout_references :: "string \<Rightarrow> image_artifact \<Rightarrow> rollout_item \<Rightarrow> bool" where
  "rollout_references i a it \<longleftrightarrow>
     retains_rollout_target it
     \<and> (i_sourceImageArtifactId it = Some i
        \<or> i_sourceImageReference it = Some (ia_imageReference a) \<or> i_sourceImageReference it = Some (ia_imageId a)
        \<or> i_targetImageArtifactId it = Some i
        \<or> i_targetImageReference it = ia_imageReference a \<or> i_targetImageReference it = ia_imageId a)"

definition artifact_referenced :: "mem \<Rightarrow> string \<Rightarrow> image_artifact \<Rightarrow> bool" where
  "artifact_referenced m i a \<longleftrightarrow>
     list_ex (\<lambda>v. v_imageArtifactId v = Some i) (js_values (m_appVersions m))
     \<or> list_ex (\<lambda>c. c_imageArtifactId c = Some i) (js_values (m_containers m))
     \<or> list_ex (rollout_references i a) (js_values (m_upgradeRolloutItems m))"

definition delete_image_artifact :: "mem \<Rightarrow> string \<Rightarrow> mem \<times> image_artifact option" where
  "delete_image_artifact m i =
     (case js_get (m_imageArtifacts m) i of
        None \<Rightarrow> (m, None)
      | Some a \<Rightarrow> if artifact_referenced m i a then (m, None)
                  else (m\<lparr>m_imageArtifacts := js_delete (m_imageArtifacts m) i\<rparr>, Some a))"

definition bind_app_version_artifact :: "mem \<Rightarrow> string \<Rightarrow> string \<Rightarrow> string \<Rightarrow> mem \<times> app_version option" where
  "bind_app_version_artifact m appId versionId artifactId =
     (case (js_get (m_apps m) (catalog_id appId), js_get (m_appVersions m) versionId, js_get (m_imageArtifacts m) artifactId) of
        (Some app, Some v, Some a) \<Rightarrow>
          if app_status app \<noteq> AppActive \<or> v_appId v \<noteq> app_id app \<or> v_status v \<noteq> VUploaded then (m, None)
          else let w = v\<lparr>v_imageArtifactId := Some (ia_id a), v_imageReference := Some (ia_imageId a),
                         v_runtimeContract := Some (ia_runtimeContract a), v_status := VImageReady\<rparr>
               in (m\<lparr>m_appVersions := js_set (m_appVersions m) versionId w\<rparr>, Some w)
      | _ \<Rightarrow> (m, None))"

section \<open>Consistency of the catalog\<close>

datatype catalog_op =
    CoCreateApp app_definition
  | CoUpdateApp app_definition
  | CoSaveVersion app_version
  | CoActivate instant string string "string option option"
  | CoBind string string string
  | CoSaveStrategy build_strategy
  | CoCreatePackage build_package
  | CoDeletePackage string
  | CoCreateBuild image_build
  | CoUpdateBuild image_build image_build_status
  | CoRecoverBuilds instant
  | CoCompleteBuild image_build image_artifact image_build_status
  | CoDeleteArtifact string

text \<open>
  What the callers observe: a version is activated only by activation, and a write to a build
  keeps the packages the build was created with.
\<close>

fun catalog_op_ok :: "mem \<Rightarrow> catalog_op \<Rightarrow> bool" where
  "catalog_op_ok m (CoSaveVersion v) = (v_status v \<noteq> VActive)"
| "catalog_op_ok m (CoUpdateBuild b s) =
     (case js_get (m_imageBuilds m) (ib_id b) of Some c \<Rightarrow> ib_packages b = ib_packages c | None \<Rightarrow> True)"
| "catalog_op_ok m (CoCompleteBuild b a s) =
     (case js_get (m_imageBuilds m) (ib_id b) of Some c \<Rightarrow> ib_packages b = ib_packages c | None \<Rightarrow> True)"
| "catalog_op_ok m _ = True"

fun catalog_do :: "(string \<Rightarrow> string \<Rightarrow> int) \<Rightarrow> mem \<Rightarrow> catalog_op \<Rightarrow> mem" where
  "catalog_do collate m (CoCreateApp a) = fst (create_app m a)"
| "catalog_do collate m (CoUpdateApp a) = fst (update_app m a)"
| "catalog_do collate m (CoSaveVersion v) = fst (save_app_version collate m v)"
| "catalog_do collate m (CoActivate now a v e) = fst (activate_app_version m now a v e)"
| "catalog_do collate m (CoBind a v i) = fst (bind_app_version_artifact m a v i)"
| "catalog_do collate m (CoSaveStrategy s) = fst (save_build_strategy m s)"
| "catalog_do collate m (CoCreatePackage p) = fst (create_build_package m p)"
| "catalog_do collate m (CoDeletePackage i) = fst (delete_build_package m i)"
| "catalog_do collate m (CoCreateBuild b) = fst (create_image_build m b)"
| "catalog_do collate m (CoUpdateBuild b s) = fst (update_image_build m b s)"
| "catalog_do collate m (CoRecoverBuilds t) = fst (recover_image_builds m t)"
| "catalog_do collate m (CoCompleteBuild b a s) = fst (complete_image_build m b a s)"
| "catalog_do collate m (CoDeleteArtifact i) = fst (delete_image_artifact m i)"

definition catalog_step :: "(string \<Rightarrow> string \<Rightarrow> int) \<Rightarrow> mem \<Rightarrow> catalog_op \<Rightarrow> mem" where
  "catalog_step collate m c = (if catalog_op_ok m c then catalog_do collate m c else m)"

text \<open>Versions: under their id, of a stored application, with a revision; no two of one
  application share a revision or a label, and at most one is active.\<close>

definition version_ok :: "(string, app_definition) js_map \<Rightarrow> string \<Rightarrow> app_version \<Rightarrow> bool" where
  "version_ok apps i v \<longleftrightarrow> v_id v = i \<and> js_has apps (v_appId v) \<and> (\<exists>n. v_revision v = Some (Suc n))"

definition versions_apart :: "app_version \<Rightarrow> app_version \<Rightarrow> bool" where
  "versions_apart v w \<longleftrightarrow> v_appId v = v_appId w \<longrightarrow>
     v_revision v \<noteq> v_revision w \<and> v_version v \<noteq> v_version w \<and> \<not> (v_status v = VActive \<and> v_status w = VActive)"

definition versions_inv :: "mem \<Rightarrow> bool" where
  "versions_inv m \<longleftrightarrow> js_wf (m_appVersions m)
     \<and> (\<forall>i v. js_get (m_appVersions m) i = Some v \<longrightarrow> version_ok (m_apps m) i v)
     \<and> (\<forall>i j v w. js_get (m_appVersions m) i = Some v \<longrightarrow> js_get (m_appVersions m) j = Some w \<longrightarrow> i \<noteq> j \<longrightarrow> versions_apart v w)"

text \<open>References: packages named by versions and builds are stored, and a build has one artifact.\<close>

definition references_inv :: "mem \<Rightarrow> bool" where
  "references_inv m \<longleftrightarrow> js_wf (m_appVersions m) \<and> js_wf (m_imageBuilds m) \<and> js_wf (m_imageArtifacts m)
     \<and> (\<forall>i v. js_get (m_appVersions m) i = Some v \<longrightarrow> \<not> missing_package m (version_packages v))
     \<and> (\<forall>i b. js_get (m_imageBuilds m) i = Some b \<longrightarrow> ib_id b = i \<and> \<not> missing_package m (ib_packages b))
     \<and> (\<forall>i a. js_get (m_imageArtifacts m) i = Some a \<longrightarrow> ia_id a = i \<and> js_has (m_imageBuilds m) (ia_buildId a))
     \<and> (\<forall>i j a b. js_get (m_imageArtifacts m) i = Some a \<longrightarrow> js_get (m_imageArtifacts m) j = Some b \<longrightarrow> i \<noteq> j
          \<longrightarrow> ia_buildId a \<noteq> ia_buildId b)"

lemma versions_inv_cong:
  "m_appVersions m' = m_appVersions m \<Longrightarrow> (\<And>i. js_has (m_apps m) i \<Longrightarrow> js_has (m_apps m') i) \<Longrightarrow> versions_inv m \<Longrightarrow> versions_inv m'"
  by (auto simp: versions_inv_def version_ok_def)

lemma list_ex_values: "js_wf m \<Longrightarrow> list_ex P (js_values m) \<longleftrightarrow> (\<exists>k v. js_get m k = Some v \<and> P v)"
  by (simp add: list_ex_iff Bex_def js_in_values_iff) blast

lemma fold_max_bound:
  fixes xs :: "nat list"
  shows "x \<in> set xs \<Longrightarrow> x \<le> fold max xs n" and "n \<le> fold max xs n"
proof -
  have ge: "n \<le> fold max xs n" for n :: nat and xs by (induction xs arbitrary: n) (auto intro: order_trans [OF max.cobounded2])
  then show "n \<le> fold max xs n" .
  show "x \<in> set xs \<Longrightarrow> x \<le> fold max xs n"
    by (induction xs arbitrary: n) (auto intro: order_trans [OF max.cobounded1 ge])
qed

lemma next_revision_fresh:
  assumes "js_wf (m_appVersions m)" "js_get (m_appVersions m) i = Some w" "v_appId w = app"
  shows "version_revision w < next_version_revision m app"
proof -
  have "version_revision w \<in> set (map version_revision (filter (\<lambda>v. v_appId v = app) (js_values (m_appVersions m))))"
    using assms by (auto simp: js_in_values_iff)
  from fold_max_bound(1) [OF this, of 0] show ?thesis by (simp add: next_version_revision_def)
qed

lemma save_app_version_Some:
  assumes "save_app_version collate m v = (m', Inr (Some w))"
  shows "js_has (m_apps m) (v_appId v)" "\<not> missing_package m (version_packages v)"
    "\<not> list_ex (\<lambda>x. v_appId x = v_appId v \<and> v_version x = v_version v \<and> v_id x \<noteq> v_id v) (js_values (m_appVersions m))"
    "m' = m\<lparr>m_appVersions := js_set (m_appVersions m) (v_id v) w\<rparr>"
    "\<exists>r. w = with_version_packages collate (v\<lparr>v_revision := Some r\<rparr>)
       \<and> (r = next_version_revision m (v_appId v)
          \<or> (\<exists>c. js_get (m_appVersions m) (v_id v) = Some c \<and> v_appId c = v_appId v \<and> v_revision c = Some r))"
  using assms by (auto simp: save_app_version_def Let_def with_version_packages_def split: if_splits option.splits)

lemma save_app_version_unchanged:
  "snd (save_app_version collate m v) \<noteq> Inr (Some w) \<Longrightarrow> (\<forall>w. snd (save_app_version collate m v) \<noteq> Inr (Some w))
    \<Longrightarrow> fst (save_app_version collate m v) = m"
  by (auto simp: save_app_version_def Let_def split: if_splits)

lemma js_get_save_cases:
  assumes "js_get (js_set ms k w) i = Some v"
  obtains "i = k" "v = w" | "i \<noteq> k" "js_get ms i = Some v"
  using assms by (auto split: if_splits)

lemma set_version_inv:
  assumes inv: "versions_inv m" and ok: "version_ok (m_apps m) k w"
    and apart: "\<And>i v. js_get (m_appVersions m) i = Some v \<Longrightarrow> i \<noteq> k \<Longrightarrow> versions_apart v w"
  shows "versions_inv (m\<lparr>m_appVersions := js_set (m_appVersions m) k w\<rparr>)"
proof -
  have sym: "versions_apart v u = versions_apart u v" for u v by (auto simp: versions_apart_def)
  show ?thesis
    using inv ok apart sym unfolding versions_inv_def
    by (auto elim!: js_get_save_cases simp del: js_get_set)
qed

lemma save_app_version_inv:
  assumes inv: "versions_inv m" and st: "v_status v \<noteq> VActive"
  shows "versions_inv (fst (save_app_version collate m v))"
proof (cases "\<exists>w. snd (save_app_version collate m v) = Inr (Some w)")
  case False
  then show ?thesis using inv save_app_version_unchanged by (metis)
next
  case True
  then obtain m' w where s: "save_app_version collate m v = (m', Inr (Some w))"
    by (cases "save_app_version collate m v") auto
  note facts = save_app_version_Some [OF s]
  from facts(5) obtain r where w: "w = with_version_packages collate (v\<lparr>v_revision := Some r\<rparr>)"
    and r: "r = next_version_revision m (v_appId v)
      \<or> (\<exists>c. js_get (m_appVersions m) (v_id v) = Some c \<and> v_appId c = v_appId v \<and> v_revision c = Some r)" by blast
  have wf: "js_wf (m_appVersions m)" using inv by (simp add: versions_inv_def)
  have fields: "v_id w = v_id v" "v_appId w = v_appId v" "v_version w = v_version v" "v_status w = v_status v" "v_revision w = Some r"
    by (simp_all add: w with_version_packages_def)
  have "\<exists>n. r = Suc n"
    using r
  proof
    assume "\<exists>c. js_get (m_appVersions m) (v_id v) = Some c \<and> v_appId c = v_appId v \<and> v_revision c = Some r"
    then obtain c where "js_get (m_appVersions m) (v_id v) = Some c" "v_revision c = Some r" by blast
    with inv have "version_ok (m_apps m) (v_id v) c" by (simp add: versions_inv_def)
    with \<open>v_revision c = Some r\<close> show ?thesis by (auto simp: version_ok_def)
  qed (simp add: next_version_revision_def)
  then have ok: "version_ok (m_apps m) (v_id v) w" using facts(1) fields by (auto simp: version_ok_def)
  have "versions_apart u w" if u: "js_get (m_appVersions m) i = Some u" "i \<noteq> v_id v" for i u
  proof -
    have id: "v_id u = i" using inv u by (auto simp: versions_inv_def version_ok_def)
    have "v_version u \<noteq> v_version v" if "v_appId u = v_appId v"
      using facts(3) u id that by (auto simp: list_ex_values [OF wf])
    moreover have "v_revision u \<noteq> Some r" if app: "v_appId u = v_appId v"
      using r
    proof
      assume "r = next_version_revision m (v_appId v)"
      with next_revision_fresh [OF wf u(1) app] show ?thesis by (auto simp: version_revision_def)
    next
      assume "\<exists>c. js_get (m_appVersions m) (v_id v) = Some c \<and> v_appId c = v_appId v \<and> v_revision c = Some r"
      then obtain c where "js_get (m_appVersions m) (v_id v) = Some c" "v_appId c = v_appId v" "v_revision c = Some r" by blast
      with inv u app show ?thesis unfolding versions_inv_def versions_apart_def by metis
    qed
    ultimately show ?thesis using st fields by (auto simp: versions_apart_def)
  qed
  from set_version_inv [OF inv ok this] s facts(4) show ?thesis by simp
qed

lemma activated_fields [simp]:
  "v_id (activated app i now v) = v_id v" "v_appId (activated app i now v) = v_appId v"
  "v_revision (activated app i now v) = v_revision v" "v_version (activated app i now v) = v_version v"
  "v_packages (activated app i now v) = v_packages v" "v_imageArtifactId (activated app i now v) = v_imageArtifactId v"
  by (simp_all add: activated_def)

lemma activate_inv:
  assumes "versions_inv m"
  shows "versions_inv (fst (activate_app_version m now appId versionId expected))"
proof -
  have apart: "versions_apart (activated app versionId now v) (activated app versionId now w)"
    if "versions_apart v w" "v_id v \<noteq> v_id w" for app v w
    using that by (auto simp: versions_apart_def activated_def)
  have "versions_inv (m\<lparr>m_appVersions := js_update_each (\<lambda>_. activated app versionId now) (m_appVersions m)\<rparr>)" for app
    using assms apart unfolding versions_inv_def version_ok_def by (auto simp: version_ok_def)
  then show ?thesis using assms by (auto simp: activate_app_version_def Let_def split: option.split)
qed

lemma bind_inv:
  assumes "versions_inv m"
  shows "versions_inv (fst (bind_app_version_artifact m appId versionId artifactId))"
proof -
  have "versions_inv (m\<lparr>m_appVersions := js_set (m_appVersions m) versionId
      (v\<lparr>v_imageArtifactId := x, v_imageReference := y, v_runtimeContract := z, v_status := VImageReady\<rparr>)\<rparr>)"
    if "js_get (m_appVersions m) versionId = Some v" for v x y z
    using assms that
    by (intro set_version_inv) (auto simp: versions_inv_def version_ok_def versions_apart_def)
  then show ?thesis using assms by (auto simp: bind_app_version_artifact_def Let_def split: option.split)
qed

lemma catalog_versions_inv: "versions_inv m \<Longrightarrow> versions_inv (catalog_step collate m c)"
proof (cases c)
  case (CoCreateApp a)
  assume "versions_inv m"
  then show ?thesis unfolding CoCreateApp
    by (auto simp: catalog_step_def create_app_def Let_def elim!: versions_inv_cong [rotated 2])
next
  case (CoUpdateApp a)
  assume "versions_inv m"
  then show ?thesis unfolding CoUpdateApp
    by (auto simp: catalog_step_def update_app_def Let_def elim!: versions_inv_cong [rotated 2])
qed (auto simp: catalog_step_def save_app_version_inv activate_inv bind_inv save_build_strategy_def create_build_package_def
    delete_build_package_def create_image_build_def update_image_build_def recover_image_builds_def complete_image_build_def
    delete_image_artifact_def Let_def elim!: versions_inv_cong [rotated 2] split: option.split)

lemma missing_package_iff:
  "missing_package m ps \<longleftrightarrow> (\<exists>p \<in> set ps. \<exists>i. bp_packageId p = Some i \<and> i \<noteq> [] \<and> \<not> js_has (m_buildPackages m) i)"
  by (auto simp: missing_package_def list_ex_iff split: option.splits)

lemma missing_package_sorted [simp]:
  "missing_package m (version_packages (with_version_packages collate v)) = missing_package m (version_packages v)"
  by (simp add: missing_package_iff with_version_packages_def packages_for_version_def version_packages_def)

lemma version_packages_revision [simp]: "version_packages (v\<lparr>v_revision := r\<rparr>) = version_packages v"
  by (simp add: version_packages_def)

lemma missing_package_more:
  "(\<And>i. js_has (m_buildPackages m) i \<Longrightarrow> js_has (m_buildPackages m') i) \<Longrightarrow> \<not> missing_package m ps \<Longrightarrow> \<not> missing_package m' ps"
  by (auto simp: missing_package_iff)

lemma missing_package_delete:
  "\<not> missing_package m ps \<Longrightarrow> \<not> references_package i ps
    \<Longrightarrow> \<not> missing_package (m\<lparr>m_buildPackages := js_delete (m_buildPackages m) i\<rparr>) ps"
  by (auto simp: missing_package_iff references_package_def list_ex_iff)

text \<open>Writes that leave the package map alone: a changed version or build must name stored packages.\<close>

lemma missing_package_same: "m_buildPackages m' = m_buildPackages m \<Longrightarrow> missing_package m' = missing_package m"
  by (simp add: missing_package_iff fun_eq_iff)

lemma set_version_references:
  assumes "references_inv m" "\<not> missing_package m (version_packages w)"
  shows "references_inv (m\<lparr>m_appVersions := js_set (m_appVersions m) k w\<rparr>)"
proof -
  have same: "missing_package (m\<lparr>m_appVersions := js_set (m_appVersions m) k w\<rparr>) = missing_package m"
    by (rule missing_package_same) simp
  show ?thesis using assms by (auto simp: references_inv_def same)
qed

lemma set_build_references:
  assumes "references_inv m" "\<not> missing_package m (ib_packages b)"
  shows "references_inv (m\<lparr>m_imageBuilds := js_set (m_imageBuilds m) (ib_id b) b\<rparr>)"
proof -
  have same: "missing_package (m\<lparr>m_imageBuilds := js_set (m_imageBuilds m) (ib_id b) b\<rparr>) = missing_package m"
    by (rule missing_package_same) simp
  show ?thesis using assms unfolding references_inv_def same by auto
qed

lemma set_artifact_references:
  assumes inv: "references_inv m" and build: "js_has (m_imageBuilds m) (ia_buildId a)"
    and fresh: "\<And>k x. js_get (m_imageArtifacts m) k = Some x \<Longrightarrow> ia_buildId x \<noteq> ia_buildId a"
  shows "references_inv (m\<lparr>m_imageArtifacts := js_set (m_imageArtifacts m) (ia_id a) a\<rparr>)"
proof -
  let ?m = "m\<lparr>m_imageArtifacts := js_set (m_imageArtifacts m) (ia_id a) a\<rparr>"
  have same: "missing_package ?m = missing_package m" by (rule missing_package_same) simp
  have apart: "ia_buildId x \<noteq> ia_buildId y"
    if "js_get (m_imageArtifacts ?m) i = Some x" "js_get (m_imageArtifacts ?m) j = Some y" "i \<noteq> j" for i j x y
  proof -
    have old: "js_get (m_imageArtifacts m) i = Some x \<Longrightarrow> js_get (m_imageArtifacts m) j = Some y \<Longrightarrow> ia_buildId x \<noteq> ia_buildId y"
      using inv that(3) unfolding references_inv_def by blast
    show ?thesis using that(1,2,3) old fresh [of i x] fresh [of j y] by (cases "i = ia_id a"; cases "j = ia_id a") simp_all
  qed
  have keys: "ia_id x = i \<and> js_has (m_imageBuilds m) (ia_buildId x)" if "js_get (m_imageArtifacts ?m) i = Some x" for i x
  proof -
    have old: "js_get (m_imageArtifacts m) i = Some x \<Longrightarrow> ia_id x = i \<and> js_has (m_imageBuilds m) (ia_buildId x)"
      using inv unfolding references_inv_def by blast
    show ?thesis using that old build by (cases "i = ia_id a") simp_all
  qed
  have base: "js_wf (m_appVersions m)" "js_wf (m_imageBuilds m)" "js_wf (m_imageArtifacts m)"
    "\<forall>i v. js_get (m_appVersions m) i = Some v \<longrightarrow> \<not> missing_package m (version_packages v)"
    "\<forall>i b. js_get (m_imageBuilds m) i = Some b \<longrightarrow> ib_id b = i \<and> \<not> missing_package m (ib_packages b)"
    using inv unfolding references_inv_def by blast+
  have "js_wf (m_imageArtifacts ?m)" "m_appVersions ?m = m_appVersions m" "m_imageBuilds ?m = m_imageBuilds m"
    using base(3) by simp_all
  with base(1,2,4,5) show ?thesis unfolding references_inv_def same
    by (intro conjI allI impI) (simp_all only: apart keys not_False_eq_True simp_thms)
qed

lemma references_inv_cong:
  assumes "references_inv m" "m_appVersions m' = m_appVersions m" "m_imageBuilds m' = m_imageBuilds m"
    "m_imageArtifacts m' = m_imageArtifacts m" "\<And>i. js_has (m_buildPackages m) i \<Longrightarrow> js_has (m_buildPackages m') i"
  shows "references_inv m'"
  using assms(1) missing_package_more [of m m'] assms(5) unfolding references_inv_def assms(2-4) by blast

lemma save_app_version_references:
  assumes "references_inv m"
  shows "references_inv (fst (save_app_version collate m v))"
proof (cases "\<exists>w. snd (save_app_version collate m v) = Inr (Some w)")
  case False
  then show ?thesis using assms save_app_version_unchanged by metis
next
  case True
  then obtain m' w where s: "save_app_version collate m v = (m', Inr (Some w))"
    by (cases "save_app_version collate m v") auto
  note facts = save_app_version_Some [OF s]
  have "\<not> missing_package m (version_packages w)"
    using facts(2,5) by auto
  from set_version_references [OF assms this] s facts(4) show ?thesis by simp
qed

lemma activate_references:
  assumes "references_inv m"
  shows "references_inv (fst (activate_app_version m now appId versionId expected))"
proof -
  have "references_inv (m\<lparr>m_appVersions := js_update_each (\<lambda>_. activated app versionId now) (m_appVersions m)\<rparr>)" for app
  proof -
    let ?m = "m\<lparr>m_appVersions := js_update_each (\<lambda>_. activated app versionId now) (m_appVersions m)\<rparr>"
    have same: "missing_package ?m = missing_package m" by (rule missing_package_same) simp
    have "version_packages (activated app versionId now v) = version_packages v" for v by (simp add: version_packages_def)
    then show ?thesis using assms by (auto simp: references_inv_def same)
  qed
  then show ?thesis using assms by (auto simp: activate_app_version_def Let_def split: option.split)
qed

lemma bind_references:
  assumes "references_inv m"
  shows "references_inv (fst (bind_app_version_artifact m appId versionId artifactId))"
proof -
  have "references_inv (m\<lparr>m_appVersions := js_set (m_appVersions m) versionId
      (v\<lparr>v_imageArtifactId := x, v_imageReference := y, v_runtimeContract := z, v_status := VImageReady\<rparr>)\<rparr>)"
    if "js_get (m_appVersions m) versionId = Some v" for v x y z
    using assms that by (intro set_version_references) (auto simp: references_inv_def version_packages_def)
  then show ?thesis using assms by (auto simp: bind_app_version_artifact_def Let_def split: option.split)
qed

lemma delete_package_references:
  assumes inv: "references_inv m"
  shows "references_inv (fst (delete_build_package m i))"
proof (cases "snd (delete_build_package m i)")
  case None
  then have "fst (delete_build_package m i) = m" by (auto simp: delete_build_package_def split: option.splits if_splits)
  then show ?thesis using inv by simp
next
  case (Some p)
  have wf: "js_wf (m_appVersions m)" "js_wf (m_imageBuilds m)" using inv by (simp_all add: references_inv_def)
  from Some have m: "fst (delete_build_package m i) = m\<lparr>m_buildPackages := js_delete (m_buildPackages m) i\<rparr>" and
    free: "js_get (m_appVersions m) k = Some v \<Longrightarrow> \<not> references_package i (version_packages v)"
      "js_get (m_imageBuilds m) k = Some b \<Longrightarrow> \<not> references_package i (ib_packages b)" for k v b
    by (auto simp: delete_build_package_def list_ex_values [OF wf(1)] list_ex_values [OF wf(2)] split: option.splits if_splits)
  show ?thesis
    using inv free missing_package_delete [of m _ i] by (auto simp: references_inv_def m)
qed

lemma recover_builds_references:
  assumes "references_inv m"
  shows "references_inv (fst (recover_image_builds m t))"
proof -
  let ?m = "fst (recover_image_builds m t)"
  have same: "missing_package ?m = missing_package m" by (rule missing_package_same) (simp add: recover_image_builds_def)
  show ?thesis using assms unfolding references_inv_def same by (auto simp: recover_image_builds_def js_has_def)
qed

lemma update_build_references:
  assumes "references_inv m" "catalog_op_ok m (CoUpdateBuild b s)"
  shows "references_inv (fst (update_image_build m b s))"
  using assms by (auto simp: update_image_build_def references_inv_def [of m] split: option.splits intro!: set_build_references)

lemma complete_build_references:
  assumes inv: "references_inv m" and ok: "catalog_op_ok m (CoCompleteBuild b a s)"
  shows "references_inv (fst (complete_image_build m b a s))"
proof (cases "snd (complete_image_build m b a s)")
  case None
  then have "fst (complete_image_build m b a s) = m" by (auto simp: complete_image_build_def split: option.splits if_splits)
  then show ?thesis using inv by simp
next
  case (Some r)
  have wf: "js_wf (m_imageArtifacts m)" using inv by (simp add: references_inv_def)
  let ?m1 = "m\<lparr>m_imageBuilds := js_set (m_imageBuilds m) (ib_id b) b\<rparr>"
  from Some obtain c where c: "js_get (m_imageBuilds m) (ib_id b) = Some c" and
    m: "fst (complete_image_build m b a s) = ?m1\<lparr>m_imageArtifacts := js_set (m_imageArtifacts m) (ia_id a) a\<rparr>" and
    a: "ia_buildId a = ib_id b" and none: "\<not> list_ex (\<lambda>x. ia_buildId x = ia_buildId a) (js_values (m_imageArtifacts m))"
    by (auto simp: complete_image_build_def split: option.splits if_splits)
  have fresh: "ia_buildId x \<noteq> ia_buildId a" if "js_get (m_imageArtifacts m) k = Some x" for k x
    using none js_get_in_values [OF that] by (auto simp: list_ex_iff)
  have "\<not> missing_package m (ib_packages b)" using inv ok c by (auto simp: references_inv_def)
  from set_build_references [OF inv this] have inv1: "references_inv ?m1" .
  have "references_inv (?m1\<lparr>m_imageArtifacts := js_set (m_imageArtifacts ?m1) (ia_id a) a\<rparr>)"
    by (rule set_artifact_references [OF inv1]) (use a fresh in auto)
  then show ?thesis by (simp add: m)
qed

lemma catalog_references_inv: "references_inv m \<Longrightarrow> references_inv (catalog_step collate m c)"
proof (cases c)
  case (CoCreateBuild b)
  assume "references_inv m"
  then show ?thesis unfolding CoCreateBuild
    by (auto simp: catalog_step_def create_image_build_def intro!: set_build_references)
next
  case (CoUpdateBuild b s)
  assume "references_inv m"
  then show ?thesis unfolding CoUpdateBuild catalog_step_def using update_build_references by auto
next
  case (CoCompleteBuild b a s)
  assume "references_inv m"
  then show ?thesis unfolding CoCompleteBuild catalog_step_def using complete_build_references by auto
next
  case (CoDeleteArtifact i)
  assume inv: "references_inv m"
  have "references_inv (m\<lparr>m_imageArtifacts := js_delete (m_imageArtifacts m) i\<rparr>)"
    using inv by (auto simp: references_inv_def missing_package_same [of "m\<lparr>m_imageArtifacts := js_delete (m_imageArtifacts m) i\<rparr>" m] split: if_splits)
  then show ?thesis unfolding CoDeleteArtifact using inv by (auto simp: catalog_step_def delete_image_artifact_def split: option.split)
qed (auto simp: catalog_step_def save_app_version_references activate_references bind_references delete_package_references
    recover_builds_references create_app_def update_app_def save_build_strategy_def create_build_package_def Let_def
    elim!: references_inv_cong)

interpretation catalog: machine "catalog_step collate" "\<lambda>m. m = empty_mem" "\<lambda>m. versions_inv m \<and> references_inv m" for collate
proof (unfold_locales, goal_cases)
  case 1
  then show ?case by (simp add: versions_inv_def references_inv_def empty_mem_def)
next
  case 2
  then show ?case by (simp add: catalog_versions_inv catalog_references_inv)
qed


definition notes_app :: app_definition where
  "notes_app = \<lparr>app_id = ''notes'', app_name = ''Notes'', app_description = [], app_authAdapterId = ''none'',
     app_status = AppActive, app_createdAt = 0, app_updatedAt = 0\<rparr>"

definition notes_version :: "string \<Rightarrow> string \<Rightarrow> app_version" where
  "notes_version i label = \<lparr>v_sourceKind = None, v_id = i, v_appId = ''notes'', v_revision = None, v_version = label,
     v_buildId = ''b'', v_packages = None, v_imageArtifactId = None, v_imageReference = Some ''img'', v_runtimeContract = None,
     v_status = VImageReady, v_createdAt = 0, v_activatedAt = None\<rparr>"

definition sample_catalog :: mem where
  "sample_catalog = foldl (catalog_step (\<lambda>_ _. 0)) empty_mem
     [CoCreateApp notes_app, CoSaveVersion (notes_version ''v1'' ''1.0''), CoSaveVersion (notes_version ''v2'' ''1.1''),
      CoActivate 5 ''notes'' ''v1'' None, CoActivate 6 ''notes'' ''v2'' (Some (Some ''v1''))]"


text \<open>C30: activation compares and swaps. An activation that names the version it replaces is granted
  only when that is the current version of the application, active or legacy, at that moment;
  then the named version is the active one and the current one, every other version that was
  active is not any more, and no other application is touched.\<close>

theorem activation_swaps_the_current_version:
  assumes inv: "m = foldl (catalog_step collate) empty_mem cs" and act: "activate_app_version m now appId i (Some e) = (m', Some w)"
  shows "map_option v_id (current_version (versions_of m (catalog_id appId))) = e
     \<and> v_id w = i \<and> v_status w = VActive \<and> v_activatedAt w = Some now
     \<and> (\<forall>j v. js_get (m_appVersions m') j = Some v \<and> v_appId v = catalog_id appId \<and> v_status v = VActive \<longrightarrow> j = i)
     \<and> (\<forall>j v. js_get (m_appVersions m) j = Some v \<and> v_appId v \<noteq> catalog_id appId \<longrightarrow> js_get (m_appVersions m') j = Some v)"
proof -
  have v: "versions_inv m" using catalog.run_inv [of empty_mem collate cs] inv by simp
  from act obtain t where t: "js_get (m_appVersions m) i = Some t" "v_appId t = catalog_id appId"
    and e: "map_option v_id (current_version (versions_of m (catalog_id appId))) = e"
    and m': "m' = m\<lparr>m_appVersions := js_update_each (\<lambda>_. activated (catalog_id appId) i now) (m_appVersions m)\<rparr>"
    and w: "w = activated (catalog_id appId) i now t"
    by (auto simp: activate_app_version_def Let_def split: option.splits if_splits)
  have ids: "v_id u = j" if "js_get (m_appVersions m) j = Some u" for j u
    using v that by (simp add: versions_inv_def version_ok_def)
  have "j = i" if "js_get (m_appVersions m') j = Some u" "v_appId u = catalog_id appId" "v_status u = VActive" for j u
  proof -
    from that(1) obtain u0 where u0: "js_get (m_appVersions m) j = Some u0" "u = activated (catalog_id appId) i now u0"
      by (auto simp: m')
    with that(2,3) have "v_id u0 = i" by (auto simp: activated_def split: if_splits)
    with ids [OF u0(1)] show ?thesis by simp
  qed
  moreover have "js_get (m_appVersions m') j = Some u" if "js_get (m_appVersions m) j = Some u" "v_appId u \<noteq> catalog_id appId" for j u
    using that by (simp add: m' activated_def)
  moreover have "v_id w = i" "v_status w = VActive" "v_activatedAt w = Some now" using w t ids by (auto simp: activated_def)
  ultimately show ?thesis using e by blast
qed

theorem activation_swaps_the_current_version_witness:
  "\<exists>m' w. activate_app_version sample_catalog 9 ''notes'' ''v1'' (Some (Some ''v2'')) = (m', Some w) \<and> v_status w = VActive"
proof -
  have "snd (activate_app_version sample_catalog 9 ''notes'' ''v1'' (Some (Some ''v2''))) \<noteq> None" by code_simp
  then obtain m' w where "activate_app_version sample_catalog 9 ''notes'' ''v1'' (Some (Some ''v2'')) = (m', Some w)"
    by (cases "activate_app_version sample_catalog 9 ''notes'' ''v1'' (Some (Some ''v2''))") auto
  from activation_swaps_the_current_version [OF sample_catalog_def this] this show ?thesis by blast
qed

end
