(* ===== verification/Instance_Lifecycle.thy ===== *)
theory Instance_Lifecycle
  imports Execution_Manager Rollout_Service Quota_Admission Memory_Users
begin

text \<open>
  The lifecycle of instances, \<open>backend/src/instance-lifecycle.ts\<close>: creating the instance of a
  user under the limits of the provisioning policy, starting, stopping, rebuilding and removing
  it, bringing its row in line with what the runtime answers, and stopping idle instances.
  The methods are actions; every \<open>await\<close> is an effect, counted, before which other processes may
  change the store and the quota ledger (\<open>lw_env\<close>, \<open>lw_quota_env\<close>). The queues the class keeps per
  user, per container and for all, and the capacity lock of the store, only take interleavings
  away, so waiting for one is an effect like any other. The store is the one of \<open>Memory_Store\<close>,
  except that \<open>updateContainer\<close>, which the composition routes to the store or to the execution
  manager, is the parameter \<open>lw_update\<close>; the quota port is the ledger of \<open>Quota_Admission\<close>, which
  a call may also fail to reach. The runtime, the catalog, the audit and the maintenance guard
  may answer anything.
\<close>

section \<open>Errors, instances and requests\<close>

datatype lifecycle_code =
    LcContainerNotFound | LcOwnerMismatch | LcProviderMismatch | LcCatalogMismatch | LcNotReady
  | LcObservationUnavailable | LcMaintenanceBusy | LcVersionNotReady | LcRebuildUnsupported
  | LcRunningLimit | LcTotalLimit

text \<open>What a container runtime says of an instance; its states are those of a row.\<close>

record container_instance =
  cx_instanceId :: string
  cx_ownerId :: string
  cx_providerId :: "string option"
  cx_runtimeId :: string
  cx_state :: container_status
  cx_endpoint :: "string option"
  cx_createdAt :: instant
  cx_catalogSnapshot :: "catalog_row option"
  cx_rebuildRecovered :: bool

text \<open>
  \<open>InstanceLifecycleError\<close>, \<open>QuotaAdmissionError\<close>, \<open>ContainerRebuildRollbackError\<close>, what the store
  throws, the reason of an aborted signal, and any other error.
\<close>

datatype life_error =
    LifecycleError lifecycle_code
  | QuotaFailed quota_error
  | RebuildRolledBack container_instance
  | LifeStore workspace_error
  | LifeAborted
  | LifeOther string

record provision_request =
  pv_instanceId :: string
  pv_ownerId :: string
  pv_providerId :: "string option"
  pv_executionContract :: "string option"
  pv_appId :: string
  pv_appVersionId :: "string option"
  pv_imageArtifactId :: "string option"
  pv_imageReference :: "string option"
  pv_sourceCatalogSnapshot :: "catalog_row option"
  pv_launchProfile :: launch_profile
  pv_start :: "bool option"
  pv_rebuildTransactionId :: "string option"

record runtime_metrics =
  rm_networkRxBytes :: js_num
  rm_networkTxBytes :: js_num
  rm_cpuPercent :: js_num
  rm_memoryWorkingSetBytes :: js_num
  rm_pids :: js_num
  rm_gpuUtilizationPercent :: "js_num option"

record pinned_target =
  pt_appVersionId :: "string option"
  pt_imageArtifactId :: "string option"
  pt_imageReference :: string
  pt_launchProfile :: launch_profile
  pt_executionContract :: "string option"

record rebuild_options =
  ro_useLatestVersion :: bool
  ro_target :: "pinned_target option"
  ro_targetState :: "desired_state option"
  ro_rebuildTransactionId :: "string option"

record reservation =
  rv_id :: string
  rv_policy :: provisioning_policy
  rv_pending :: container
  rv_launchTarget :: launch_target
  rv_quotaReserved :: bool

datatype reserve_outcome = AlreadyThere container | NewlyReserved reservation

datatype ensure_result =
    EnsuredExisting container | EnsuredCreated container | AlreadyInitialized | AutoCreateDisabled

record sweep_result =
  sw_checked :: nat
  sw_stopped :: nat
  sw_errors :: nat

section \<open>Activity of a runtime\<close>

text \<open>
  Metrics that passed the checks: all finite and not negative, the number of processes a safe
  integer. A baseline keeps them with the time of the sample.
\<close>

record load =
  ld_rx :: rat
  ld_tx :: rat
  ld_cpu :: rat
  ld_memory :: rat
  ld_pids :: int
  ld_gpu :: "rat option"

record activity_baseline =
  bl_sampledAt :: instant
  bl_load :: load

definition metric_value :: "js_num \<Rightarrow> rat option" where
  "metric_value v = (case v of Finite q \<Rightarrow> if q < 0 then None else Some q | NotFinite \<Rightarrow> None)"

definition checked_metrics :: "runtime_metrics \<Rightarrow> load option" where
  "checked_metrics m =
     (case (metric_value (rm_networkRxBytes m), metric_value (rm_networkTxBytes m), metric_value (rm_cpuPercent m),
            metric_value (rm_memoryWorkingSetBytes m), metric_value (rm_pids m), safe_integer (JNum (rm_pids m))) of
        (Some rx, Some tx, Some cpu, Some mem, Some _, Some pids) \<Rightarrow>
          (case rm_gpuUtilizationPercent m of
             None \<Rightarrow> Some \<lparr>ld_rx = rx, ld_tx = tx, ld_cpu = cpu, ld_memory = mem, ld_pids = pids, ld_gpu = None\<rparr>
           | Some g \<Rightarrow> (case metric_value g of
               None \<Rightarrow> None
             | Some gpu \<Rightarrow> Some \<lparr>ld_rx = rx, ld_tx = tx, ld_cpu = cpu, ld_memory = mem, ld_pids = pids, ld_gpu = Some gpu\<rparr>))
      | _ \<Rightarrow> None)"

text \<open>Sums and comparisons of doubles that are not negative: a sum too large is infinite.\<close>

definition js_plus :: "js_num \<Rightarrow> js_num \<Rightarrow> js_num" where
  "js_plus a b = (case (a, b) of (Finite x, Finite y) \<Rightarrow> js_double (x + y) | _ \<Rightarrow> NotFinite)"

definition js_at_least :: "js_num \<Rightarrow> js_num \<Rightarrow> bool" where
  "js_at_least a b = (case (a, b) of (Finite x, Finite y) \<Rightarrow> y \<le> x | (Finite _, NotFinite) \<Rightarrow> False | _ \<Rightarrow> True)"

definition positive_delta :: "rat \<Rightarrow> rat \<Rightarrow> js_num" where
  "positive_delta current previous = (if previous \<le> current then js_double (current - previous) else Finite 0)"

definition changed_by :: "rat \<Rightarrow> rat \<Rightarrow> rat \<Rightarrow> bool" where
  "changed_by bound current previous \<longleftrightarrow> js_at_least (js_double \<bar>current - previous\<bar>) (Finite bound)"

definition network_active :: "activity_baseline \<Rightarrow> instant \<Rightarrow> load \<Rightarrow> bool" where
  "network_active previous sampledAt l \<longleftrightarrow>
     (let elapsed = max 1 (sampledAt - bl_sampledAt previous)
      in js_at_least (js_plus (positive_delta (ld_rx l) (ld_rx (bl_load previous))) (positive_delta (ld_tx l) (ld_tx (bl_load previous))))
           (js_double (of_int (64 * 1024 * elapsed) / 60000)))"

definition compute_active :: "activity_baseline \<Rightarrow> load \<Rightarrow> bool" where
  "compute_active previous l \<longleftrightarrow>
     (let p = bl_load previous
      in ld_cpu l \<ge> 10
         \<or> (case ld_gpu l of None \<Rightarrow> False | Some g \<Rightarrow> g \<ge> 10)
         \<or> ld_cpu l \<ge> 2 \<and> changed_by 1 (ld_cpu l) (ld_cpu p)
         \<or> changed_by (16 * 1024 * 1024) (ld_memory l) (ld_memory p)
         \<or> \<bar>ld_pids l - ld_pids p\<bar> \<ge> 2
         \<or> (case ld_gpu l of None \<Rightarrow> False
            | Some g \<Rightarrow> g \<ge> 5 \<and> changed_by 2 g (case ld_gpu p of None \<Rightarrow> 0 | Some q \<Rightarrow> q)))"

definition load_active :: "provisioning_policy \<Rightarrow> activity_baseline \<Rightarrow> instant \<Rightarrow> load \<Rightarrow> bool" where
  "load_active policy previous sampledAt l \<longleftrightarrow>
     (if pp_detectNetworkActivity policy then network_active previous sampledAt l else False)
     \<or> (if pp_detectComputeActivity policy then compute_active previous l else False)"

section \<open>The world\<close>

text \<open>
  \<open>lw_now\<close> is the clock the class is given, \<open>lw_wall\<close> the clock of the process; \<open>lw_lease\<close> whether
  the maintenance guard grants an instance, \<open>lw_lease_lost\<close> its signal; \<open>lw_quota_fails\<close> a call
  that does not reach the ledger. The optional fields are the optional methods of the runtime and
  the store and the optional handler for deletions.
\<close>

record life_world =
  lw_env :: "nat \<Rightarrow> mem \<Rightarrow> mem"
  lw_quota_env :: "nat \<Rightarrow> quota_state \<Rightarrow> quota_state"
  lw_quota_fails :: "nat \<Rightarrow> life_error option"
  lw_now :: "nat \<Rightarrow> instant"
  lw_wall :: "nat \<Rightarrow> instant"
  lw_id :: "nat \<Rightarrow> string"
  lw_lease :: "nat \<Rightarrow> string \<Rightarrow> (life_error, bool) res"
  lw_lease_lost :: "nat \<Rightarrow> bool"
  lw_policy :: "nat \<Rightarrow> (life_error, provisioning_policy) res"
  lw_target :: "nat \<Rightarrow> string \<Rightarrow> (life_error, launch_target) res"
  lw_catalog_valid :: "(nat \<Rightarrow> catalog_row \<Rightarrow> (life_error, bool) res) option"
  lw_provider :: "nat \<Rightarrow> string \<Rightarrow> (life_error, string) res"
  lw_update :: "nat \<Rightarrow> container \<Rightarrow> mem \<Rightarrow> mem \<times> (life_error, unit) res"
  lw_observe :: "(nat \<Rightarrow> string \<Rightarrow> (life_error, container_instance option) res) option"
  lw_get :: "nat \<Rightarrow> string \<Rightarrow> (life_error, container_instance option) res"
  lw_provision :: "nat \<Rightarrow> provision_request \<Rightarrow> (life_error, container_instance) res"
  lw_start :: "nat \<Rightarrow> string \<Rightarrow> (life_error, container_instance) res"
  lw_stop :: "nat \<Rightarrow> string \<Rightarrow> (life_error, container_instance) res"
  lw_rebuild :: "(nat \<Rightarrow> provision_request \<Rightarrow> (life_error, container_instance) res) option"
  lw_remove :: "nat \<Rightarrow> string \<Rightarrow> string \<Rightarrow> (life_error, unit) res"
  lw_sample :: "nat \<Rightarrow> string \<Rightarrow> (life_error, runtime_metrics) res"
  lw_audit :: "nat \<Rightarrow> (life_error, unit) res"
  lw_delete_workspace :: "(nat \<Rightarrow> string \<Rightarrow> (life_error, string) res) option"
  lw_compare :: "string \<Rightarrow> string \<Rightarrow> int"

text \<open>
  What is logged, newest first: what was read (a row by its key, all rows, the policy, the clock),
  what the runtime answered, the writes of rows when they are asked for, the calls that act when
  they are asked for, and what has succeeded of a removal and of the quota ledger.
\<close>

datatype life_event =
    LRow string container
  | LRows "container list"
  | LPolicy provisioning_policy
  | LClock instant
  | LObserved container_instance
  | LSaving container
  | LUpdating container
  | LProvisioning provision_request
  | LRebuilding provision_request
  | LStarting string
  | LStopping string
  | LRemoved string string
  | LRowDeleted string
  | LWorkspaceDeleted string string
  | LReserved string
  | LQuota string quota_desired_state
  | LReleased string
  | LSampled string activity_baseline
  | LAudited string string

text \<open>\<open>lr_quota\<close> is None when the class was built without a quota port.\<close>

record life_run =
  lr_mem :: mem
  lr_quota :: "quota_state option"
  lr_baselines :: "(string, activity_baseline) js_map"
  lr_step :: nat
  lr_log :: "life_event list"

type_synonym 'a life = "(life_run, life_error, 'a) action"

definition life_note :: "life_event \<Rightarrow> unit life" where
  "life_note e = (\<lambda>s. (s\<lparr>lr_log := e # lr_log s\<rparr>, Inr ()))"

definition life_turn :: "life_world \<Rightarrow> life_run \<Rightarrow> life_run" where
  "life_turn wd s = s\<lparr>lr_mem := lw_env wd (lr_step s) (lr_mem s),
     lr_quota := map_option (lw_quota_env wd (lr_step s)) (lr_quota s), lr_step := Suc (lr_step s)\<rparr>"

definition life_wait :: "life_world \<Rightarrow> nat life" where
  "life_wait wd = (\<lambda>s. (life_turn wd s, Inr (lr_step s)))"

definition life_now :: "life_world \<Rightarrow> instant life" where
  "life_now wd = (\<lambda>s. (s\<lparr>lr_step := Suc (lr_step s), lr_log := LClock (lw_now wd (lr_step s)) # lr_log s\<rparr>,
     Inr (lw_now wd (lr_step s))))"

definition life_wall :: "life_world \<Rightarrow> instant life" where
  "life_wall wd = (\<lambda>s. (s\<lparr>lr_step := Suc (lr_step s)\<rparr>, Inr (lw_wall wd (lr_step s))))"

definition life_fresh_id :: "life_world \<Rightarrow> string life" where
  "life_fresh_id wd = (\<lambda>s. (s\<lparr>lr_step := Suc (lr_step s)\<rparr>, Inr (lw_id wd (lr_step s))))"

definition life_throw_if :: "abort_signal \<Rightarrow> unit life" where
  "life_throw_if sig = (\<lambda>s. (s, if sig (lr_step s) then Inl LifeAborted else Inr ()))"

definition life_call :: "life_world \<Rightarrow> (nat \<Rightarrow> (life_error, 'a) res) \<Rightarrow> 'a life" where
  "life_call wd f = act_bind (life_wait wd) (\<lambda>n. act_of (f n))"

definition life_read :: "life_world \<Rightarrow> (mem \<Rightarrow> (workspace_error, 'a) res) \<Rightarrow> 'a life" where
  "life_read wd f = act_bind (life_wait wd)
     (\<lambda>_ s. (s, case f (lr_mem s) of Inl e \<Rightarrow> Inl (LifeStore e) | Inr x \<Rightarrow> Inr x))"

definition life_write :: "life_world \<Rightarrow> (nat \<Rightarrow> mem \<Rightarrow> mem \<times> (life_error, 'a) res) \<Rightarrow> 'a life" where
  "life_write wd f = act_bind (life_wait wd)
     (\<lambda>n s. case f n (lr_mem s) of (m, r) \<Rightarrow> (s\<lparr>lr_mem := m\<rparr>, r))"

text \<open>A call of the quota port; nothing happens without one.\<close>

definition life_quota ::
  "life_world \<Rightarrow> (nat \<Rightarrow> quota_state \<Rightarrow> quota_state \<times> (quota_error, 'a) res) \<Rightarrow> 'a option life" where
  "life_quota wd f = (\<lambda>s.
     if lr_quota s = None then (s, Inr None)
     else act_bind (life_wait wd) (\<lambda>n s.
       case lw_quota_fails wd n of
         Some e \<Rightarrow> (s, Inl e)
       | None \<Rightarrow> (case lr_quota s of
           None \<Rightarrow> (s, Inr None)
         | Some q \<Rightarrow> (case f n q of
             (q', Inl e) \<Rightarrow> (s\<lparr>lr_quota := Some q'\<rparr>, Inl (QuotaFailed e))
           | (q', Inr x) \<Rightarrow> (s\<lparr>lr_quota := Some q'\<rparr>, Inr (Some x))))) s)"

definition never_aborted :: abort_signal where
  "never_aborted = (\<lambda>_. False)"

definition combined_signal :: "life_world \<Rightarrow> abort_signal \<Rightarrow> abort_signal" where
  "combined_signal wd caller = (\<lambda>n. lw_lease_lost wd n \<or> caller n)"

definition forget_baseline :: "string \<Rightarrow> unit life" where
  "forget_baseline i = (\<lambda>s. (s\<lparr>lr_baselines := js_delete (lr_baselines s) i\<rparr>, Inr ()))"

text \<open>The store: each read of a row is logged with its key.\<close>

definition life_container :: "life_world \<Rightarrow> string \<Rightarrow> container option life" where
  "life_container wd i = act_bind (life_read wd (\<lambda>m. get_container m i))
     (\<lambda>r. case r of None \<Rightarrow> act_ret None | Some c \<Rightarrow> act_bind (life_note (LRow i c)) (\<lambda>_. act_ret (Some c)))"

definition life_container_for_user :: "life_world \<Rightarrow> string \<Rightarrow> container option life" where
  "life_container_for_user wd userId = act_bind (life_read wd (\<lambda>m. get_container_for_user m userId))
     (\<lambda>r. case r of None \<Rightarrow> act_ret None | Some c \<Rightarrow> act_bind (life_note (LRow (c_id c) c)) (\<lambda>_. act_ret (Some c)))"

definition life_containers :: "life_world \<Rightarrow> container list life" where
  "life_containers wd = act_bind (life_read wd (\<lambda>m. list_containers m None))
     (\<lambda>rows. act_bind (life_note (LRows rows)) (\<lambda>_. act_ret rows))"

definition life_policy :: "life_world \<Rightarrow> provisioning_policy life" where
  "life_policy wd = act_bind (life_call wd (lw_policy wd)) (\<lambda>p. act_bind (life_note (LPolicy p)) (\<lambda>_. act_ret p))"

definition life_update :: "life_world \<Rightarrow> container \<Rightarrow> unit life" where
  "life_update wd c = act_bind (life_note (LUpdating c)) (\<lambda>_. life_write wd (\<lambda>n. lw_update wd n c))"

definition life_initialized :: "life_world \<Rightarrow> string \<Rightarrow> unit life" where
  "life_initialized wd userId = life_write wd (\<lambda>n m. (mark_user_app_initialized m userId (lw_wall wd n), Inr ()))"

definition life_audit :: "life_world \<Rightarrow> string \<Rightarrow> string \<Rightarrow> unit life" where
  "life_audit wd action i = act_bind (life_call wd (lw_audit wd)) (\<lambda>_. life_note (LAudited action i))"

text \<open>A question to the runtime whose answer is logged.\<close>

definition life_instance :: "life_world \<Rightarrow> (nat \<Rightarrow> (life_error, container_instance) res) \<Rightarrow> container_instance life" where
  "life_instance wd f = act_bind (life_call wd f) (\<lambda>x. act_bind (life_note (LObserved x)) (\<lambda>_. act_ret x))"

definition life_find_instance ::
  "life_world \<Rightarrow> (nat \<Rightarrow> (life_error, container_instance option) res) \<Rightarrow> container_instance option life" where
  "life_find_instance wd f = act_bind (life_call wd f)
     (\<lambda>r. case r of None \<Rightarrow> act_ret None | Some x \<Rightarrow> act_bind (life_note (LObserved x)) (\<lambda>_. act_ret (Some x)))"

section \<open>Leases and locks\<close>

definition with_lease :: "life_world \<Rightarrow> string \<Rightarrow> bool \<Rightarrow> abort_signal \<Rightarrow> (abort_signal \<Rightarrow> 'a life) \<Rightarrow> 'a life" where
  "with_lease wd i held caller operation =
     (if held then operation caller
      else act_bind (life_call wd (\<lambda>n. lw_lease wd n i)) (\<lambda>granted.
        if granted then operation (combined_signal wd caller)
        else act_throw (LifecycleError LcMaintenanceBusy)))"

text \<open>Waiting for the turn in a queue, and for the capacity lock of the store.\<close>

definition with_turn :: "life_world \<Rightarrow> 'a life \<Rightarrow> 'a life" where
  "with_turn wd operation = act_bind (life_wait wd) (\<lambda>_. operation)"

definition with_global :: "life_world \<Rightarrow> 'a life \<Rightarrow> 'a life" where
  "with_global wd operation = with_turn wd (with_turn wd operation)"

section \<open>Limits of a policy as quantities\<close>

definition parse_memory_bytes :: "string \<Rightarrow> int option" where
  "parse_memory_bytes text =
     (let t = js_trim text
      in if \<not> memory_pattern t then None
         else case js_number (memory_amount t) of
           NotFinite \<Rightarrow> None
         | Finite amount \<Rightarrow>
             (let bytes = amount * memory_multiplier (js_lower (memory_suffix t))
              in if bytes > 0 then safe_integer (JNum (Finite bytes)) else None))"

definition parse_cpu_millis :: "string \<Rightarrow> int option" where
  "parse_cpu_millis text =
     (let t = js_trim text
      in if \<not> decimal_pattern t then None
         else case js_number t of
           NotFinite \<Rightarrow> None
         | Finite cpus \<Rightarrow>
             (case js_double (cpus * 1000) of
                NotFinite \<Rightarrow> None
              | Finite millis \<Rightarrow> if millis > 0 then safe_integer (JNum (Finite millis)) else None))"

definition occupies :: "container \<Rightarrow> bool" where
  "occupies c \<longleftrightarrow> c_status c = Running \<or> c_status c = Creating"

definition occupied :: "container list \<Rightarrow> nat" where
  "occupied rows = length (filter occupies rows)"

section \<open>Rows and what the runtime says\<close>

definition catalog_snapshot_of :: "container \<Rightarrow> catalog_row option" where
  "catalog_snapshot_of c =
     (if \<not> js_truthy (c_imageReference c) then None
      else Some \<lparr>cg_appId = c_appId c, cg_appVersionId = c_appVersionId c, cg_imageArtifactId = c_imageArtifactId c,
                 cg_imageReference = the (c_imageReference c)\<rparr>)"

definition catalog_snapshots_equal :: "catalog_row \<Rightarrow> catalog_row \<Rightarrow> bool" where
  "catalog_snapshots_equal l r \<longleftrightarrow>
     cg_appId l = cg_appId r \<and> cg_appVersionId l = cg_appVersionId r
     \<and> cg_imageArtifactId l = cg_imageArtifactId r \<and> cg_imageReference l = cg_imageReference r"

definition assert_catalog :: "life_world \<Rightarrow> catalog_row option \<Rightarrow> unit life" where
  "assert_catalog wd snapshot =
     (case (snapshot, lw_catalog_valid wd) of
        (Some r, Some valid) \<Rightarrow> act_bind (life_call wd (\<lambda>n. valid n r))
          (\<lambda>ok. if ok then act_ret () else act_throw (LifecycleError LcCatalogMismatch))
      | _ \<Rightarrow> act_ret ())"

text \<open>The tests of \<open>#projectRuntimeInstance\<close> that need no other call.\<close>

definition check_instance :: "container \<Rightarrow> container_instance \<Rightarrow> catalog_row option \<Rightarrow> (life_error, unit) res" where
  "check_instance c x expected =
     (if cx_ownerId x \<noteq> c_userId c then Inl (LifecycleError LcOwnerMismatch)
      else if js_truthy (cx_providerId x)
        \<and> cx_providerId x \<noteq> Some (case c_providerId c of None \<Rightarrow> ''docker'' | Some p \<Rightarrow> p)
      then Inl (LifecycleError LcProviderMismatch)
      else case cx_catalogSnapshot x of
        None \<Rightarrow> Inr ()
      | Some r \<Rightarrow>
          if cg_appId r \<noteq> c_appId c then Inl (LifecycleError LcCatalogMismatch)
          else (case expected of
              None \<Rightarrow> Inr ()
            | Some e \<Rightarrow> if catalog_snapshots_equal r e then Inr () else Inl (LifecycleError LcCatalogMismatch)))"

definition stopped_unexpectedly :: "container \<Rightarrow> container_instance \<Rightarrow> stop_reason option \<Rightarrow> desired_state option \<Rightarrow> bool" where
  "stopped_unexpectedly c x stopReason expected \<longleftrightarrow>
     (case expected of
        Some WantRunning \<Rightarrow> cx_state x = Stopped
      | Some WantStopped \<Rightarrow> False
      | None \<Rightarrow> c_status c = Running \<and> cx_state x = Stopped \<and> stopReason = None)"

definition preserves_failure :: "container \<Rightarrow> container_instance \<Rightarrow> desired_state option \<Rightarrow> bool" where
  "preserves_failure c x expected \<longleftrightarrow>
     expected = None \<and> c_status c = Failed \<and> \<not> cx_rebuildRecovered x \<and> cx_state x = Stopped"

definition stamp_truthy :: "stamp option \<Rightarrow> bool" where
  "stamp_truthy t \<longleftrightarrow> t \<noteq> None \<and> t \<noteq> Some (Unparsable [])"

definition projected_row ::
  "container \<Rightarrow> container_instance \<Rightarrow> stop_reason option \<Rightarrow> desired_state option \<Rightarrow> stamp option \<Rightarrow> instant \<Rightarrow> container" where
  "projected_row c x stopReason expected latestActivityAt now =
     (let c' = (case cx_catalogSnapshot x of
            None \<Rightarrow> c
          | Some r \<Rightarrow> c\<lparr>c_appVersionId := cg_appVersionId r, c_imageArtifactId := cg_imageArtifactId r,
                        c_imageReference := Some (cg_imageReference r)\<rparr>);
          failed = (stopped_unexpectedly c x stopReason expected \<or> preserves_failure c x expected)
      in c'\<lparr>c_runtimeId := cx_runtimeId x,
           c_status := (if failed then Failed else cx_state x),
           c_endpoint := (if failed then None else cx_endpoint x),
           c_stopReason := (if failed \<or> cx_state x = Failed then Some StopFailure
                            else if cx_state x = Running then None else stopReason),
           c_updatedAt := now,
           c_lastActivityAt := (if stamp_truthy latestActivityAt
              then latest_timestamp (c_lastActivityAt c) (the latestActivityAt) else c_lastActivityAt c)\<rparr>)"

definition project_instance ::
  "life_world \<Rightarrow> container \<Rightarrow> container_instance \<Rightarrow> stop_reason option \<Rightarrow> desired_state option \<Rightarrow> stamp option
   \<Rightarrow> catalog_row option \<Rightarrow> container life" where
  "project_instance wd c x stopReason expected latestActivityAt expectedSnapshot =
     act_bind (act_of (check_instance c x expectedSnapshot)) (\<lambda>_.
     act_bind (assert_catalog wd (case cx_catalogSnapshot x of Some r \<Rightarrow> Some r | None \<Rightarrow> catalog_snapshot_of c)) (\<lambda>_.
     act_bind (life_now wd) (\<lambda>now.
       act_ret (projected_row c x stopReason expected latestActivityAt now))))"

definition persist_instance ::
  "life_world \<Rightarrow> container \<Rightarrow> container_instance \<Rightarrow> stop_reason option \<Rightarrow> desired_state option \<Rightarrow> catalog_row option
   \<Rightarrow> container life" where
  "persist_instance wd c x stopReason expected expectedSnapshot =
     act_bind (life_container wd (c_id c)) (\<lambda>latest.
     act_bind (project_instance wd c x stopReason expected (map_option c_lastActivityAt latest) expectedSnapshot) (\<lambda>updated.
     act_bind (life_update wd updated) (\<lambda>_.
     act_bind (if c_status updated \<noteq> Running then forget_baseline (c_id c) else act_ret ()) (\<lambda>_.
       act_ret updated))))"

text \<open>
  \<open>for (let attempt = 0; !instance && attempt < 3; ...)\<close>: asking again after a pause, while the
  instance is missing.
\<close>

fun ask_again :: "nat \<Rightarrow> life_world \<Rightarrow> abort_signal \<Rightarrow> container_instance option life \<Rightarrow> container_instance option life" where
  "ask_again 0 wd sig ask = act_ret None"
| "ask_again (Suc n) wd sig ask =
     act_bind (life_throw_if sig) (\<lambda>_. act_bind (life_wait wd) (\<lambda>_. act_bind (life_throw_if sig) (\<lambda>_.
     act_bind ask (\<lambda>r. case r of Some x \<Rightarrow> act_ret (Some x) | None \<Rightarrow> ask_again n wd sig ask))))"

definition missing_retries :: nat where
  "missing_retries = 3"

definition sync_record :: "life_world \<Rightarrow> abort_signal \<Rightarrow> container \<Rightarrow> container life" where
  "sync_record wd sig c =
     act_bind (life_throw_if sig) (\<lambda>_.
     act_bind (life_find_instance wd (\<lambda>n. lw_get wd n (c_id c))) (\<lambda>first.
     act_bind (case first of
          Some x \<Rightarrow> act_ret (Some x)
        | None \<Rightarrow> if c_status c = Failed then act_ret None
                 else ask_again missing_retries wd sig (life_find_instance wd (\<lambda>n. lw_get wd n (c_id c)))) (\<lambda>found.
     case found of
       None \<Rightarrow> if c_status c = Failed then act_ret c else act_throw (LifecycleError LcObservationUnavailable)
     | Some x \<Rightarrow> persist_instance wd c x (c_stopReason c) None None)))"

text \<open>
  \<open>#waitForCreation\<close> polls every 100 ms for at most two minutes: 1200 polls, unless the clock ends
  the loop before.
\<close>

definition creation_polls :: nat where
  "creation_polls = 1200"

fun poll_creation :: "nat \<Rightarrow> life_world \<Rightarrow> abort_signal \<Rightarrow> instant \<Rightarrow> string \<Rightarrow> container \<Rightarrow> container life" where
  "poll_creation 0 wd sig deadline i current =
     (if c_status current = Creating then act_throw (LifecycleError LcNotReady) else act_ret current)"
| "poll_creation (Suc n) wd sig deadline i current =
     (if c_status current \<noteq> Creating then act_ret current
      else act_bind (life_wall wd) (\<lambda>t.
        if t \<ge> deadline then act_throw (LifecycleError LcNotReady)
        else act_bind (life_throw_if sig) (\<lambda>_. act_bind (life_wait wd) (\<lambda>_. act_bind (life_throw_if sig) (\<lambda>_.
          act_bind (life_container wd i) (\<lambda>r.
          case r of None \<Rightarrow> act_throw (LifecycleError LcContainerNotFound)
          | Some refreshed \<Rightarrow> poll_creation n wd sig deadline i refreshed))))))"

definition wait_for_creation :: "life_world \<Rightarrow> abort_signal \<Rightarrow> container \<Rightarrow> container life" where
  "wait_for_creation wd sig c =
     (if c_status c \<noteq> Creating then act_ret c
      else act_bind (life_wall wd) (\<lambda>t. poll_creation creation_polls wd sig (t + 120000) (c_id c) c))"

text \<open>The row that a method reads first, or the error that there is none.\<close>

definition existing_container :: "life_world \<Rightarrow> string \<Rightarrow> container life" where
  "existing_container wd i = act_bind (life_container wd i)
     (\<lambda>r. case r of None \<Rightarrow> act_throw (LifecycleError LcContainerNotFound) | Some c \<Rightarrow> act_ret c)"

definition current_container :: "life_world \<Rightarrow> abort_signal \<Rightarrow> string \<Rightarrow> container life" where
  "current_container wd sig i =
     act_bind (life_throw_if sig) (\<lambda>_.
     act_bind (life_container wd i) (\<lambda>r.
     act_bind (life_throw_if sig) (\<lambda>_.
     case r of None \<Rightarrow> act_throw (LifecycleError LcContainerNotFound) | Some c \<Rightarrow> act_ret c)))"

definition life_sync :: "life_world \<Rightarrow> string \<Rightarrow> bool \<Rightarrow> abort_signal \<Rightarrow> container life" where
  "life_sync wd i held caller = with_lease wd i held caller (\<lambda>sig. with_turn wd (
     act_bind (current_container wd sig i) (\<lambda>c.
     act_bind (wait_for_creation wd sig c) (sync_record wd sig))))"

definition life_read_container :: "life_world \<Rightarrow> string \<Rightarrow> abort_signal \<Rightarrow> container life" where
  "life_read_container wd i sig =
     act_bind (current_container wd sig i) (\<lambda>c.
     act_bind (wait_for_creation wd sig c) (\<lambda>settled.
     case lw_observe wd of
       None \<Rightarrow> act_ret settled
     | Some observe \<Rightarrow>
         act_bind (life_find_instance wd (\<lambda>n. observe n i)) (\<lambda>first.
         act_bind (case first of
              Some x \<Rightarrow> act_ret (Some x)
            | None \<Rightarrow> ask_again missing_retries wd sig (life_find_instance wd (\<lambda>n. observe n i))) (\<lambda>found.
         act_bind (life_throw_if sig) (\<lambda>_.
         case found of
           None \<Rightarrow> if c_status settled = Failed then act_ret settled else act_throw (LifecycleError LcObservationUnavailable)
         | Some x \<Rightarrow> project_instance wd settled x (c_stopReason settled) None None None)))))"

section \<open>Quota\<close>

definition release_quota :: "life_world \<Rightarrow> string \<Rightarrow> unit life" where
  "release_quota wd i =
     act_case (life_quota wd (\<lambda>_ q. case quota_release q i of (q', b) \<Rightarrow> (q', Inr b)))
       (\<lambda>_. act_case (life_audit wd ''quota.release.failed'' i) (\<lambda>_. act_ret ()) act_ret)
       (\<lambda>r. case r of None \<Rightarrow> act_ret () | Some _ \<Rightarrow> life_note (LReleased i))"

definition move_quota :: "life_world \<Rightarrow> string \<Rightarrow> quota_desired_state \<Rightarrow> bool option life" where
  "move_quota wd i desired =
     act_bind (life_quota wd (\<lambda>_ q. quota_transition q i desired))
       (\<lambda>r. act_bind (if r = Some True then life_note (LQuota i desired) else act_ret ()) (\<lambda>_. act_ret r))"

text \<open>The compensation of a move, whose failure is ignored.\<close>

definition move_quota_back :: "life_world \<Rightarrow> bool \<Rightarrow> string \<Rightarrow> quota_desired_state \<Rightarrow> unit life" where
  "move_quota_back wd moved i desired =
     (if moved then act_case (move_quota wd i desired) (\<lambda>_. act_ret ()) (\<lambda>_. act_ret ()) else act_ret ())"

section \<open>Starting and stopping\<close>

definition quota_for_start :: "life_world \<Rightarrow> string \<Rightarrow> bool life" where
  "quota_for_start wd i = act_bind (move_quota wd i QRunning)
     (\<lambda>r. if r = Some False then act_throw (QuotaFailed (QuotaError QuotaReservationNotFound None None))
          else act_ret (r = Some True))"

definition quota_not_found :: "life_error \<Rightarrow> bool" where
  "quota_not_found e = (case e of QuotaFailed (QuotaError QuotaReservationNotFound _ _) \<Rightarrow> True | _ \<Rightarrow> False)"

text \<open>The \<open>catch\<close> of \<open>#startLocked\<close>.\<close>

definition start_failed :: "life_world \<Rightarrow> abort_signal \<Rightarrow> string \<Rightarrow> container \<Rightarrow> bool \<Rightarrow> life_error \<Rightarrow> container life" where
  "start_failed wd sig i current quotaTransitioned e =
     act_bind (life_throw_if sig) (\<lambda>_.
     if quota_not_found e then act_throw e
     else act_bind (move_quota_back wd quotaTransitioned i QStopped) (\<lambda>_.
       act_bind (case e of
            RebuildRolledBack x \<Rightarrow> act_bind (life_note (LObserved x)) (\<lambda>_. act_ret (Some x))
          | _ \<Rightarrow> act_case (life_find_instance wd (\<lambda>n. lw_get wd n i)) (\<lambda>_. act_ret None) act_ret) (\<lambda>recovered.
       act_bind (life_throw_if sig) (\<lambda>_.
       act_bind (case recovered of
            Some x \<Rightarrow> if cx_ownerId x = c_userId current
                     then act_bind (persist_instance wd current x (c_stopReason current) None None) (\<lambda>_. act_ret ())
                     else act_ret ()
          | None \<Rightarrow> act_ret ()) (\<lambda>_. act_throw e)))))"

text \<open>
  The last write is returned as a promise out of the \<open>try\<close> block, so its failure does not pass
  through the \<open>catch\<close>.
\<close>

definition bring_up :: "life_world \<Rightarrow> abort_signal \<Rightarrow> string \<Rightarrow> container \<Rightarrow> container life" where
  "bring_up wd sig i current =
     act_case (quota_for_start wd i) (start_failed wd sig i current False) (\<lambda>moved.
     act_case (act_bind (life_note (LStarting i)) (\<lambda>_.
               act_bind (life_instance wd (\<lambda>n. lw_start wd n i)) (\<lambda>x.
               act_bind (life_throw_if sig) (\<lambda>_. act_ret x))))
       (start_failed wd sig i current moved)
       (\<lambda>x. persist_instance wd current x (c_stopReason current) (Some WantRunning) None))"

definition start_stopped :: "life_world \<Rightarrow> abort_signal \<Rightarrow> string \<Rightarrow> container \<Rightarrow> container life" where
  "start_stopped wd sig i current =
     act_bind (life_policy wd) (\<lambda>policy.
     act_bind (life_containers wd) (\<lambda>rows.
     if int (occupied rows) \<ge> pp_maxRunningInstances policy then act_throw (LifecycleError LcRunningLimit)
     else act_bind (forget_baseline i) (\<lambda>_. bring_up wd sig i current)))"

definition start_locked :: "life_world \<Rightarrow> abort_signal \<Rightarrow> string \<Rightarrow> container life" where
  "start_locked wd sig i = with_global wd (
     act_bind (current_container wd sig i) (\<lambda>row.
     act_bind (wait_for_creation wd sig row) (\<lambda>settled.
     act_bind (sync_record wd sig settled) (\<lambda>current.
     if c_status current = Running then act_ret current
     else if c_status current \<noteq> Stopped then act_throw (LifecycleError LcNotReady)
     else act_bind (life_container wd i) (\<lambda>r.
       act_bind (life_throw_if sig) (\<lambda>_.
       case r of
         None \<Rightarrow> act_throw (LifecycleError LcContainerNotFound)
       | Some fresh \<Rightarrow>
           if c_status fresh = Running then sync_record wd sig fresh
           else if c_status fresh \<noteq> Stopped then act_throw (LifecycleError LcNotReady)
           else start_stopped wd sig i current))))))"

definition life_start :: "life_world \<Rightarrow> string \<Rightarrow> bool \<Rightarrow> abort_signal \<Rightarrow> container life" where
  "life_start wd i held caller = with_lease wd i held caller (\<lambda>sig. with_turn wd (start_locked wd sig i))"

definition bring_down :: "life_world \<Rightarrow> abort_signal \<Rightarrow> string \<Rightarrow> container \<Rightarrow> stop_reason \<Rightarrow> container life" where
  "bring_down wd sig i current reason =
     act_bind (move_quota wd i QStopped) (\<lambda>moved.
     act_case (act_bind (life_note (LStopping i)) (\<lambda>_.
               act_bind (life_instance wd (\<lambda>n. lw_stop wd n i)) (\<lambda>x.
               act_bind (life_throw_if sig) (\<lambda>_. act_ret x))))
       (\<lambda>e. act_bind (move_quota_back wd (moved = Some True) i QRunning) (\<lambda>_. act_throw e))
       (\<lambda>x. persist_instance wd current x (Some reason) None None))"

definition stop_locked :: "life_world \<Rightarrow> abort_signal \<Rightarrow> string \<Rightarrow> stop_reason \<Rightarrow> container life" where
  "stop_locked wd sig i reason = with_global wd (
     act_bind (current_container wd sig i) (\<lambda>row.
     act_bind (wait_for_creation wd sig row) (\<lambda>settled.
     act_bind (sync_record wd sig settled) (\<lambda>current.
     if c_status current = Stopped
     then act_bind (life_now wd) (\<lambda>now.
       let stopped = current\<lparr>c_stopReason := Some reason, c_updatedAt := now\<rparr>
       in act_bind (life_update wd stopped) (\<lambda>_. act_ret stopped))
     else if c_status current \<noteq> Running then act_throw (LifecycleError LcNotReady)
     else bring_down wd sig i current reason))))"

definition life_stop :: "life_world \<Rightarrow> string \<Rightarrow> stop_reason \<Rightarrow> bool \<Rightarrow> abort_signal \<Rightarrow> container life" where
  "life_stop wd i reason held caller =
     with_lease wd i held caller (\<lambda>sig. with_turn wd (stop_locked wd sig i reason))"

section \<open>Creating the instance of a user\<close>

definition no_live_workspace :: "life_world \<Rightarrow> string \<Rightarrow> unit life" where
  "no_live_workspace wd userId =
     act_bind (life_read wd (\<lambda>m. Inr (get_live_execution_for_user m userId)))
       (\<lambda>live. if live = None then act_ret () else act_throw (LifecycleError LcNotReady))"

definition quota_request_for :: "string \<Rightarrow> string \<Rightarrow> string \<Rightarrow> int \<Rightarrow> int \<Rightarrow> int \<Rightarrow> js_val" where
  "quota_request_for i userId providerId cpuMillis memoryBytes pidsLimit = JObj
     [(''reservationId'', JStr i), (''userId'', JStr userId), (''providerId'', JStr providerId),
      (''desiredState'', JStr ''running''), (''cpuMillis'', JInt cpuMillis), (''memoryBytes'', JInt memoryBytes),
      (''pidsLimit'', JInt pidsLimit)]"

definition reserve_quota :: "life_world \<Rightarrow> string \<Rightarrow> string \<Rightarrow> string \<Rightarrow> provisioning_policy \<Rightarrow> bool life" where
  "reserve_quota wd i userId providerId policy = (\<lambda>s.
     if lr_quota s = None then (s, Inr False)
     else (case (parse_memory_bytes (pp_memory policy), parse_cpu_millis (pp_cpus policy)) of
        (Some memoryBytes, Some cpuMillis) \<Rightarrow>
          act_bind (life_quota wd (\<lambda>n q. quota_reserve q (lw_wall wd n)
            (quota_request_for i userId providerId cpuMillis memoryBytes (pp_pidsLimit policy))))
            (\<lambda>_. act_bind (life_note (LReserved i)) (\<lambda>_. act_ret True)) s
      | _ \<Rightarrow> (s, Inl (QuotaFailed quota_conflict))))"

definition pending_row :: "string \<Rightarrow> string \<Rightarrow> string \<Rightarrow> string \<Rightarrow> launch_target \<Rightarrow> instant \<Rightarrow> container" where
  "pending_row i userId appId providerId target now =
     \<lparr>c_id = i, c_userId = userId, c_appId = appId, c_providerId = Some providerId, c_runtimeId = ''pending'',
      c_status = Creating, c_endpoint = None, c_stopReason = None, c_createdAt = now, c_updatedAt = now,
      c_lastActivityAt = Instant now, c_appVersionId = Some (v_id (lt_version target)),
      c_imageArtifactId = v_imageArtifactId (lt_version target), c_imageReference = Some (lt_imageReference target)\<rparr>"

definition life_save :: "life_world \<Rightarrow> container \<Rightarrow> unit life" where
  "life_save wd c = act_bind (life_note (LSaving c)) (\<lambda>_. life_write wd (\<lambda>_ m.
     case save_container m c of (m', Inl e) \<Rightarrow> (m', Inl (LifeStore e)) | (m', Inr ()) \<Rightarrow> (m', Inr ())))"

type_synonym authorization = "(nat \<Rightarrow> string \<Rightarrow> (life_error, unit) res) option"

definition authorize_app :: "life_world \<Rightarrow> authorization \<Rightarrow> string \<Rightarrow> unit life" where
  "authorize_app wd authorize appId =
     (case authorize of None \<Rightarrow> act_ret () | Some f \<Rightarrow> life_call wd (\<lambda>n. f n appId))"

definition within_capacity :: "provisioning_policy \<Rightarrow> container list \<Rightarrow> (life_error, unit) res" where
  "within_capacity policy rows =
     (if int (length rows) \<ge> pp_maxTotalInstances policy then Inl (LifecycleError LcTotalLimit)
      else if int (occupied rows) \<ge> pp_maxRunningInstances policy then Inl (LifecycleError LcRunningLimit)
      else Inr ())"

definition reserve_new :: "life_world \<Rightarrow> string \<Rightarrow> string \<Rightarrow> provisioning_policy \<Rightarrow> launch_target \<Rightarrow> reservation life" where
  "reserve_new wd userId appId policy target =
     act_bind (life_fresh_id wd) (\<lambda>i.
     act_bind (life_call wd (\<lambda>n. lw_provider wd n appId)) (\<lambda>providerId.
     act_bind (reserve_quota wd i userId providerId policy) (\<lambda>quotaReserved.
     act_bind (life_now wd) (\<lambda>now.
     let pending = pending_row i userId appId providerId target now
     in act_case (life_save wd pending)
          (\<lambda>e. act_bind (if quotaReserved then release_quota wd i else act_ret ()) (\<lambda>_. act_throw e))
          (\<lambda>_. act_ret \<lparr>rv_id = i, rv_policy = policy, rv_pending = pending, rv_launchTarget = target,
                        rv_quotaReserved = quotaReserved\<rparr>)))))"

definition reserve_provision :: "life_world \<Rightarrow> string \<Rightarrow> string \<Rightarrow> authorization \<Rightarrow> reserve_outcome life" where
  "reserve_provision wd userId appId authorize = with_global wd (
     act_bind (life_container_for_user wd userId) (\<lambda>existing.
     case existing of
       Some c \<Rightarrow> act_ret (AlreadyThere c)
     | None \<Rightarrow>
         act_bind (no_live_workspace wd userId) (\<lambda>_.
         act_bind (authorize_app wd authorize appId) (\<lambda>_.
         act_bind (life_policy wd) (\<lambda>policy.
         act_bind (life_call wd (\<lambda>n. lw_target wd n appId)) (\<lambda>target.
         act_bind (life_containers wd) (\<lambda>rows.
         act_bind (act_of (within_capacity policy rows)) (\<lambda>_.
         act_bind (reserve_new wd userId appId policy target) (\<lambda>r. act_ret (NewlyReserved r))))))))))"

definition provision_request_for :: "life_world \<Rightarrow> string \<Rightarrow> reservation \<Rightarrow> provision_request" where
  "provision_request_for wd userId r =
     \<lparr>pv_instanceId = rv_id r, pv_ownerId = userId,
      pv_providerId = (if js_truthy (c_providerId (rv_pending r)) then c_providerId (rv_pending r) else None),
      pv_executionContract = v_runtimeContract (lt_version (rv_launchTarget r)), pv_appId = c_appId (rv_pending r),
      pv_appVersionId = c_appVersionId (rv_pending r), pv_imageArtifactId = c_imageArtifactId (rv_pending r),
      pv_imageReference = c_imageReference (rv_pending r), pv_sourceCatalogSnapshot = None,
      pv_launchProfile = to_launch_profile (lw_compare wd) (rv_policy r) (lt_imageReference (rv_launchTarget r)),
      pv_start = None, pv_rebuildTransactionId = None\<rparr>"

definition failed_container :: "container \<Rightarrow> instant \<Rightarrow> container" where
  "failed_container c now = c\<lparr>c_status := Failed, c_endpoint := None, c_stopReason := Some StopFailure, c_updatedAt := now\<rparr>"

definition update_failed :: "life_world \<Rightarrow> container \<Rightarrow> unit life" where
  "update_failed wd c = act_bind (life_now wd) (\<lambda>now. life_update wd (failed_container c now))"

definition create_instance :: "life_world \<Rightarrow> string \<Rightarrow> reservation \<Rightarrow> container life" where
  "create_instance wd userId r =
     act_bind (act_case
       (act_bind (life_note (LProvisioning (provision_request_for wd userId r))) (\<lambda>_.
        act_bind (life_instance wd (\<lambda>n. lw_provision wd n (provision_request_for wd userId r))) (\<lambda>x.
          persist_instance wd (rv_pending r) x (c_stopReason (rv_pending r)) None None)))
       (\<lambda>e. act_bind (act_finally (update_failed wd (rv_pending r))
               (if rv_quotaReserved r then release_quota wd (rv_id r) else act_ret ())) (\<lambda>_. act_throw e))
       act_ret) (\<lambda>c.
     act_bind (life_initialized wd userId) (\<lambda>_. act_ret c))"

definition return_existing :: "life_world \<Rightarrow> container \<Rightarrow> string \<Rightarrow> bool \<Rightarrow> container life" where
  "return_existing wd c userId startExisting =
     act_bind (wait_for_creation wd never_aborted c) (\<lambda>row.
     act_bind (life_initialized wd userId) (\<lambda>_.
     act_bind (life_sync wd (c_id row) False never_aborted) (\<lambda>current.
     if startExisting \<and> c_status current = Stopped then life_start wd (c_id current) False never_aborted
     else act_ret current)))"

text \<open>The container, and whether it was created.\<close>

definition provision_locked ::
  "life_world \<Rightarrow> string \<Rightarrow> string \<Rightarrow> bool \<Rightarrow> authorization \<Rightarrow> (container \<times> bool) life" where
  "provision_locked wd userId appId startExisting authorize =
     act_bind (life_container_for_user wd userId) (\<lambda>existing.
     case existing of
       Some c \<Rightarrow> act_bind (return_existing wd c userId startExisting) (\<lambda>c. act_ret (c, False))
     | None \<Rightarrow>
         act_bind (no_live_workspace wd userId) (\<lambda>_.
         act_bind (reserve_provision wd userId appId authorize) (\<lambda>outcome.
         case outcome of
           AlreadyThere c \<Rightarrow> act_bind (return_existing wd c userId startExisting) (\<lambda>c. act_ret (c, False))
         | NewlyReserved r \<Rightarrow> act_bind (create_instance wd userId r) (\<lambda>c. act_ret (c, True)))))"

definition provision_for_user ::
  "life_world \<Rightarrow> string \<Rightarrow> string \<Rightarrow> bool \<Rightarrow> authorization \<Rightarrow> (container \<times> bool) life" where
  "provision_for_user wd userId appId startExisting authorize =
     with_turn wd (provision_locked wd userId appId startExisting authorize)"

definition ensure_default :: "life_world \<Rightarrow> user \<Rightarrow> authorization \<Rightarrow> ensure_result life" where
  "ensure_default wd u authorize = with_turn wd (
     act_bind (life_container_for_user wd (u_id u)) (\<lambda>existing.
     case existing of
       Some c \<Rightarrow> act_bind (return_existing wd c (u_id u) False) (\<lambda>c. act_ret (EnsuredExisting c))
     | None \<Rightarrow>
         act_bind (no_live_workspace wd (u_id u)) (\<lambda>_.
         act_bind (life_read wd (\<lambda>m. Inr (get_user m (u_id u)))) (\<lambda>stored.
         let currentUser = (case stored of Some u' \<Rightarrow> u' | None \<Rightarrow> u)
         in if u_appInitializedAt currentUser \<noteq> None then act_ret AlreadyInitialized
            else act_bind (life_policy wd) (\<lambda>policy.
              if \<not> pp_autoCreateOnFirstVisit policy then act_ret AutoCreateDisabled
              else act_bind (provision_locked wd (u_id currentUser) (pp_defaultAppId policy) False authorize)
                (\<lambda>(c, created). act_ret (if created then EnsuredCreated c else EnsuredExisting c)))))))"

section \<open>Rebuilding\<close>

text \<open>What a rebuild is to bring about: the catalog snapshot, the execution contract, the profile.\<close>

record rebuild_goal =
  rg_appVersionId :: "string option"
  rg_imageArtifactId :: "string option"
  rg_imageReference :: "string option"
  rg_executionContract :: "string option"

definition rebuild_goal_for :: "life_world \<Rightarrow> rebuild_options \<Rightarrow> container \<Rightarrow> rebuild_goal life" where
  "rebuild_goal_for wd opts current =
     (case ro_target opts of
        Some t \<Rightarrow>
          if lp_imageReference (pt_launchProfile t) \<noteq> pt_imageReference t
          then act_throw (LifecycleError LcVersionNotReady)
          else act_ret \<lparr>rg_appVersionId = pt_appVersionId t, rg_imageArtifactId = pt_imageArtifactId t,
                        rg_imageReference = Some (pt_imageReference t), rg_executionContract = pt_executionContract t\<rparr>
      | None \<Rightarrow>
          if ro_useLatestVersion opts
          then act_bind (life_call wd (\<lambda>n. lw_target wd n (c_appId current))) (\<lambda>latest.
            act_ret \<lparr>rg_appVersionId = Some (v_id (lt_version latest)), rg_imageArtifactId = v_imageArtifactId (lt_version latest),
                     rg_imageReference = Some (lt_imageReference latest),
                     rg_executionContract = v_runtimeContract (lt_version latest)\<rparr>)
          else act_ret \<lparr>rg_appVersionId = c_appVersionId current, rg_imageArtifactId = c_imageArtifactId current,
                        rg_imageReference = c_imageReference current, rg_executionContract = None\<rparr>)"

text \<open>
  The row a rebuild starts from: a rollout names its target, so the runtime is not asked; a
  missing or foreign instance leaves the row as it was recorded.
\<close>

definition rebuild_source :: "life_world \<Rightarrow> abort_signal \<Rightarrow> rebuild_options \<Rightarrow> container \<Rightarrow> container life" where
  "rebuild_source wd sig opts settled =
     (if ro_target opts \<noteq> None \<or> ro_useLatestVersion opts then act_ret settled
      else act_case (sync_record wd sig settled)
        (\<lambda>e. if e = LifecycleError LcObservationUnavailable \<or> e = LifecycleError LcCatalogMismatch
             then act_ret settled else act_throw e)
        act_ret)"

definition rebuild_profile :: "life_world \<Rightarrow> rebuild_options \<Rightarrow> string \<Rightarrow> launch_profile life" where
  "rebuild_profile wd opts imageReference =
     (case ro_target opts of
        Some t \<Rightarrow> act_ret (pt_launchProfile t)
      | None \<Rightarrow> act_bind (life_policy wd) (\<lambda>policy. act_ret (to_launch_profile (lw_compare wd) policy imageReference)))"

definition rebuild_should_run :: "rebuild_options \<Rightarrow> bool \<Rightarrow> container \<Rightarrow> bool" where
  "rebuild_should_run opts wasRecordedRunning current \<longleftrightarrow>
     (case ro_targetState opts of
        Some st \<Rightarrow> st = WantRunning
      | None \<Rightarrow> c_status current = Running \<or> c_status current = Failed \<and> wasRecordedRunning)"

definition rebuild_request_for ::
  "container \<Rightarrow> rebuild_options \<Rightarrow> rebuild_goal \<Rightarrow> launch_profile \<Rightarrow> bool \<Rightarrow> provision_request" where
  "rebuild_request_for current opts goal launchProfile shouldRun =
     \<lparr>pv_instanceId = c_id current, pv_ownerId = c_userId current,
      pv_providerId = (if js_truthy (c_providerId current) then c_providerId current else None),
      pv_executionContract = rg_executionContract goal, pv_appId = c_appId current,
      pv_appVersionId = rg_appVersionId goal, pv_imageArtifactId = rg_imageArtifactId goal,
      pv_imageReference = rg_imageReference goal, pv_sourceCatalogSnapshot = catalog_snapshot_of current,
      pv_launchProfile = launchProfile, pv_start = Some shouldRun,
      pv_rebuildTransactionId = ro_rebuildTransactionId opts\<rparr>"

definition rebuild_committed ::
  "life_world \<Rightarrow> abort_signal \<Rightarrow> string \<Rightarrow> (nat \<Rightarrow> provision_request \<Rightarrow> (life_error, container_instance) res)
   \<Rightarrow> container \<Rightarrow> rebuild_goal \<Rightarrow> catalog_row \<Rightarrow> provision_request \<Rightarrow> bool \<Rightarrow> container life" where
  "rebuild_committed wd sig i rebuild current goal expectedSnapshot rq shouldRun =
     act_bind (life_note (LRebuilding rq)) (\<lambda>_.
     act_bind (life_instance wd (\<lambda>n. rebuild n rq)) (\<lambda>built.
     act_bind (life_throw_if sig) (\<lambda>_.
     act_bind (if \<not> shouldRun \<and> cx_state built = Running
               then act_bind (life_note (LStopping (c_id current))) (\<lambda>_. life_instance wd (\<lambda>n. lw_stop wd n (c_id current)))
               else act_ret built) (\<lambda>x.
     act_bind (life_throw_if sig) (\<lambda>_.
     act_bind (case cx_catalogSnapshot x of
          Some r \<Rightarrow> if catalog_snapshots_equal r expectedSnapshot then act_ret ()
                   else act_throw (LifecycleError LcCatalogMismatch)
        | None \<Rightarrow> act_ret ()) (\<lambda>_.
     act_bind (persist_instance wd
         (current\<lparr>c_appVersionId := rg_appVersionId goal, c_imageArtifactId := rg_imageArtifactId goal,
                  c_imageReference := rg_imageReference goal\<rparr>)
         x (c_stopReason current) (Some (if shouldRun then WantRunning else WantStopped)) (Some expectedSnapshot)) (\<lambda>updated.
     act_bind (forget_baseline i) (\<lambda>_.
     act_bind (life_audit wd ''container.rebuild'' i) (\<lambda>_.
       act_ret updated)))))))))"

definition foreign_snapshot :: "container \<Rightarrow> container_instance \<Rightarrow> catalog_row \<Rightarrow> bool" where
  "foreign_snapshot current x expectedSnapshot \<longleftrightarrow>
     (case cx_catalogSnapshot x of
        None \<Rightarrow> False
      | Some r \<Rightarrow> \<not> catalog_snapshots_equal r expectedSnapshot
          \<and> (case catalog_snapshot_of current of None \<Rightarrow> True | Some c \<Rightarrow> \<not> catalog_snapshots_equal r c))"

definition rebuild_recovery ::
  "life_world \<Rightarrow> abort_signal \<Rightarrow> container \<Rightarrow> catalog_row \<Rightarrow> life_error \<Rightarrow> unit life" where
  "rebuild_recovery wd sig current expectedSnapshot e =
     act_bind (case e of
          RebuildRolledBack x \<Rightarrow> act_bind (life_note (LObserved x)) (\<lambda>_. act_ret (Some x))
        | _ \<Rightarrow> life_find_instance wd (\<lambda>n. lw_get wd n (c_id current))) (\<lambda>recovered.
     case recovered of
       None \<Rightarrow> update_failed wd current
     | Some x \<Rightarrow>
         if cx_ownerId x \<noteq> c_userId current \<or> foreign_snapshot current x expectedSnapshot
         then update_failed wd current
         else act_bind (persist_instance wd current x (c_stopReason current) None
             (Some (case cx_catalogSnapshot x of Some r \<Rightarrow> r | None \<Rightarrow> expectedSnapshot))) (\<lambda>_. act_ret ()))"

definition rebuild_failed ::
  "life_world \<Rightarrow> abort_signal \<Rightarrow> container \<Rightarrow> catalog_row \<Rightarrow> life_error \<Rightarrow> container life" where
  "rebuild_failed wd sig current expectedSnapshot e =
     act_bind (life_throw_if sig) (\<lambda>_.
     act_bind (act_try (rebuild_recovery wd sig current expectedSnapshot e)
        (\<lambda>_. act_bind (life_throw_if sig) (\<lambda>_. update_failed wd current))) (\<lambda>_.
       act_throw e))"

definition rebuild_to ::
  "life_world \<Rightarrow> abort_signal \<Rightarrow> string \<Rightarrow> rebuild_options \<Rightarrow> bool
   \<Rightarrow> (nat \<Rightarrow> provision_request \<Rightarrow> (life_error, container_instance) res) \<Rightarrow> container \<Rightarrow> container life" where
  "rebuild_to wd sig i opts wasRecordedRunning rebuild current =
     act_bind (rebuild_goal_for wd opts current) (\<lambda>goal.
     if \<not> js_truthy (rg_imageReference goal) then act_throw (LifecycleError LcVersionNotReady)
     else let expectedSnapshot = \<lparr>cg_appId = c_appId current, cg_appVersionId = rg_appVersionId goal,
              cg_imageArtifactId = rg_imageArtifactId goal, cg_imageReference = the (rg_imageReference goal)\<rparr>
       in act_bind (assert_catalog wd (Some expectedSnapshot)) (\<lambda>_.
          act_bind (rebuild_profile wd opts (the (rg_imageReference goal))) (\<lambda>launchProfile.
          let shouldRun = rebuild_should_run opts wasRecordedRunning current
          in act_case (rebuild_committed wd sig i rebuild current goal expectedSnapshot
                (rebuild_request_for current opts goal launchProfile shouldRun) shouldRun)
              (rebuild_failed wd sig current expectedSnapshot) act_ret)))"

definition rebuild_locked :: "life_world \<Rightarrow> abort_signal \<Rightarrow> string \<Rightarrow> rebuild_options \<Rightarrow> container life" where
  "rebuild_locked wd sig i opts = with_global wd (
     act_bind (life_throw_if sig) (\<lambda>_.
     if ro_useLatestVersion opts \<and> ro_target opts \<noteq> None then act_throw (LifecycleError LcVersionNotReady)
     else act_bind (current_container wd sig i) (\<lambda>row.
       case lw_rebuild wd of
         None \<Rightarrow> act_throw (LifecycleError LcRebuildUnsupported)
       | Some rebuild \<Rightarrow>
           act_bind (wait_for_creation wd sig row) (\<lambda>settled.
           act_bind (rebuild_source wd sig opts settled) (\<lambda>current.
             rebuild_to wd sig i opts (c_status row = Running) rebuild current)))))"

definition life_rebuild :: "life_world \<Rightarrow> string \<Rightarrow> rebuild_options \<Rightarrow> bool \<Rightarrow> abort_signal \<Rightarrow> container life" where
  "life_rebuild wd i opts held caller =
     with_lease wd i held caller (\<lambda>sig. with_turn wd (rebuild_locked wd sig i opts))"

section \<open>Removing\<close>

text \<open>What follows the removal of an instance or of its workspace.\<close>

definition after_removal :: "life_world \<Rightarrow> string \<Rightarrow> string \<Rightarrow> unit life" where
  "after_removal wd i ownerId =
     act_bind (release_quota wd i) (\<lambda>_.
     act_bind (forget_baseline i) (\<lambda>_.
     act_bind (life_initialized wd ownerId) (\<lambda>_.
       life_audit wd ''container.delete'' i)))"

definition remove_workspace :: "life_world \<Rightarrow> abort_signal \<Rightarrow> string \<Rightarrow> (nat \<Rightarrow> string \<Rightarrow> (life_error, string) res) \<Rightarrow> unit life" where
  "remove_workspace wd sig i deleteWorkspace = with_turn wd (with_global wd (
     act_bind (life_throw_if sig) (\<lambda>_.
     act_bind (life_call wd (\<lambda>n. deleteWorkspace n i)) (\<lambda>ownerId.
     act_bind (life_note (LWorkspaceDeleted i ownerId)) (\<lambda>_.
       after_removal wd i ownerId)))))"

definition remove_instance :: "life_world \<Rightarrow> abort_signal \<Rightarrow> string \<Rightarrow> unit life" where
  "remove_instance wd sig i =
     act_bind (current_container wd sig i) (\<lambda>_.
     with_turn wd (with_turn wd (with_global wd (
     act_bind (existing_container wd i) (\<lambda>row.
     act_bind (wait_for_creation wd sig row) (\<lambda>c.
     act_bind (life_throw_if sig) (\<lambda>_.
     act_bind (life_call wd (\<lambda>n. lw_remove wd n i (c_userId c))) (\<lambda>_.
     act_bind (life_note (LRemoved i (c_userId c))) (\<lambda>_.
     act_bind (life_throw_if sig) (\<lambda>_.
     act_bind (life_write wd (\<lambda>_ m. (delete_container m i, Inr ()))) (\<lambda>_.
     act_bind (life_note (LRowDeleted i)) (\<lambda>_.
       after_removal wd i (c_userId c)))))))))))))"

definition life_remove :: "life_world \<Rightarrow> string \<Rightarrow> bool \<Rightarrow> abort_signal \<Rightarrow> unit life" where
  "life_remove wd i held caller = with_lease wd i held caller (\<lambda>sig.
     case lw_delete_workspace wd of
       Some deleteWorkspace \<Rightarrow> remove_workspace wd sig i deleteWorkspace
     | None \<Rightarrow> remove_instance wd sig i)"

section \<open>Stopping idle instances\<close>

definition life_touch :: "life_world \<Rightarrow> string \<Rightarrow> instant \<Rightarrow> unit life" where
  "life_touch wd i t = life_write wd (\<lambda>_ m. (touch_container m i t, Inr ()))"

definition observe_activity :: "life_world \<Rightarrow> string \<Rightarrow> provisioning_policy \<Rightarrow> abort_signal \<Rightarrow> bool life" where
  "observe_activity wd i policy sig =
     act_bind (life_throw_if sig) (\<lambda>_.
     act_bind (life_now wd) (\<lambda>sampledAt.
     act_bind (life_call wd (\<lambda>n. lw_sample wd n i)) (\<lambda>metrics.
     act_bind (life_throw_if sig) (\<lambda>_.
     case checked_metrics metrics of
       None \<Rightarrow> act_throw (LifeOther ''runtime returned invalid activity metrics'')
     | Some l \<Rightarrow>
         act_bind (\<lambda>s. (s\<lparr>lr_baselines := js_set (lr_baselines s) i \<lparr>bl_sampledAt = sampledAt, bl_load = l\<rparr>,
                         lr_log := LSampled i \<lparr>bl_sampledAt = sampledAt, bl_load = l\<rparr> # lr_log s\<rparr>,
                       Inr (js_get (lr_baselines s) i))) (\<lambda>previous.
         case previous of
           None \<Rightarrow> act_bind (life_touch wd i sampledAt) (\<lambda>_. act_ret True)
         | Some b \<Rightarrow>
             if load_active policy b sampledAt l
             then act_bind (life_touch wd i sampledAt) (\<lambda>_. act_ret True) else act_ret False)))))"

definition last_activity :: "container \<Rightarrow> instant option" where
  "last_activity c =
     (if stamp_truthy (Some (c_lastActivityAt c)) then date_parse (c_lastActivityAt c) else Some (c_updatedAt c))"

text \<open>Whether a candidate was stopped, and whether the sweep counts an error for it.\<close>

definition sweep_running :: "life_world \<Rightarrow> abort_signal \<Rightarrow> provisioning_policy \<Rightarrow> instant \<Rightarrow> container \<Rightarrow> (bool \<times> bool) life" where
  "sweep_running wd sig policy threshold current =
     act_bind (if pp_detectNetworkActivity policy \<or> pp_detectComputeActivity policy
               then observe_activity wd (c_id current) policy sig
               else act_bind (forget_baseline (c_id current)) (\<lambda>_. act_ret False)) (\<lambda>active.
     if active then act_ret (False, False)
     else case last_activity current of
       None \<Rightarrow> act_ret (False, False)
     | Some t \<Rightarrow>
         if t > threshold then act_ret (False, False)
         else act_bind (stop_locked wd sig (c_id current) StopIdle) (\<lambda>_.
           act_case (life_audit wd ''container.idle_stop'' (c_id current)) (\<lambda>_. act_ret (True, True)) (\<lambda>_. act_ret (True, False))))"

definition sweep_candidate :: "life_world \<Rightarrow> provisioning_policy \<Rightarrow> instant \<Rightarrow> string \<Rightarrow> (bool \<times> bool) life" where
  "sweep_candidate wd policy threshold i =
     act_bind (life_call wd (\<lambda>n. lw_lease wd n i)) (\<lambda>granted.
     if \<not> granted then act_ret (False, False)
     else let sig = lw_lease_lost wd
       in act_bind (life_throw_if sig) (\<lambda>_. with_turn wd (
          act_bind (life_container wd i) (\<lambda>r.
          act_bind (life_throw_if sig) (\<lambda>_.
          case r of
            None \<Rightarrow> act_bind (forget_baseline i) (\<lambda>_. act_ret (False, False))
          | Some current \<Rightarrow>
              if c_status current \<noteq> Running then act_ret (False, False)
              else sweep_running wd sig policy threshold current)))))"

fun sweep_each :: "life_world \<Rightarrow> provisioning_policy \<Rightarrow> instant \<Rightarrow> container list \<Rightarrow> sweep_result \<Rightarrow> sweep_result life" where
  "sweep_each wd policy threshold [] r = act_ret r"
| "sweep_each wd policy threshold (c # cs) r =
     act_bind (act_case (sweep_candidate wd policy threshold (c_id c)) (\<lambda>_. act_ret (False, True)) act_ret) (\<lambda>(stopped, failed).
       sweep_each wd policy threshold cs
         (r\<lparr>sw_stopped := sw_stopped r + (if stopped then 1 else 0), sw_errors := sw_errors r + (if failed then 1 else 0)\<rparr>))"

definition sweep_idle :: "life_world \<Rightarrow> sweep_result life" where
  "sweep_idle wd =
     act_bind (life_policy wd) (\<lambda>policy.
     if pp_idleStopMinutes policy = 0 then act_ret \<lparr>sw_checked = 0, sw_stopped = 0, sw_errors = 0\<rparr>
     else act_bind (life_now wd) (\<lambda>now.
       act_bind (life_containers wd) (\<lambda>rows.
       let candidates = filter (\<lambda>c. c_status c = Running) rows
       in sweep_each wd policy (now - pp_idleStopMinutes policy * 60000) candidates
            \<lparr>sw_checked = length candidates, sw_stopped = 0, sw_errors = 0\<rparr>)))"

definition is_capacity_error :: "life_error \<Rightarrow> bool" where
  "is_capacity_error e \<longleftrightarrow> e = LifecycleError LcTotalLimit \<or> e = LifecycleError LcRunningLimit"

end
