(* ===== verification/Lifecycle_Rules.thy ===== *)
theory Lifecycle_Rules
  imports Instance_Lifecycle
begin

text \<open>
  What the instance lifecycle may do, and rules to show that it does nothing else. The log of a
  run justifies each event by what came before it: an instance is started or created only right
  after a look at the limits, a row is only written with the identity of a row read before and
  as running only when the runtime said so, the quota of an instance is released only after it is
  gone or was never made. \<open>life_ok\<close> is the judgement: from a log with \<open>P\<close>, the action leaves every
  event justified and, if it returns, a log with \<open>Q\<close>. The rules hold for every way to justify
  events that admits these ones; they are proved once for that contract.
\<close>

section \<open>What justifies an event\<close>

text \<open>The fields of a row that never change.\<close>

definition same_row :: "container \<Rightarrow> container \<Rightarrow> bool" where
  "same_row c d \<longleftrightarrow>
     c_id c = c_id d \<and> c_userId c = c_userId d \<and> c_appId c = c_appId d \<and> c_providerId c = c_providerId d
     \<and> c_createdAt c = c_createdAt d"

definition known_row :: "container \<Rightarrow> life_event list \<Rightarrow> bool" where
  "known_row c past \<longleftrightarrow> (\<exists>d. same_row c d \<and> ((\<exists>i. LRow i d \<in> set past) \<or> LSaving d \<in> set past))"

definition shown_running :: "container \<Rightarrow> life_event list \<Rightarrow> bool" where
  "shown_running c past \<longleftrightarrow>
     (\<exists>x. LObserved x \<in> set past \<and> cx_state x = Running \<and> cx_ownerId x = c_userId c
        \<and> cx_runtimeId x = c_runtimeId c \<and> cx_endpoint x = c_endpoint c
        \<and> (\<forall>r. cx_catalogSnapshot x = Some r \<longrightarrow>
             cg_appId r = c_appId c \<and> cg_appVersionId r = c_appVersionId c \<and> cg_imageArtifactId r = c_imageArtifactId c
             \<and> c_imageReference c = Some (cg_imageReference r)))"

definition row_derived :: "container \<Rightarrow> life_event list \<Rightarrow> bool" where
  "row_derived c past \<longleftrightarrow> known_row c past \<and> (c_status c = Running \<longrightarrow> shown_running c past)"

text \<open>
  A start: right before it the rows were counted below the limit of the policy, and before that
  the row of the instance was read as stopped; only the ledger may have been moved since.
\<close>

definition start_granted :: "string \<Rightarrow> life_event list \<Rightarrow> bool" where
  "start_granted i past \<longleftrightarrow>
     (\<exists>moved rows policy c earlier. past = moved @ LRows rows # LPolicy policy # LRow i c # earlier
        \<and> set moved \<subseteq> {LQuota i QRunning} \<and> c_status c = Stopped
        \<and> int (occupied rows) < pp_maxRunningInstances policy)"

text \<open>
  A creation: the row was stored as being created right before, under both limits of the policy,
  with the identity the runtime is given; only the clock and the ledger come in between.
\<close>

definition creation_granted :: "provision_request \<Rightarrow> life_event list \<Rightarrow> bool" where
  "creation_granted rq past \<longleftrightarrow>
     (\<exists>c now reserved rows policy earlier.
        past = LSaving c # LClock now # reserved @ LRows rows # LPolicy policy # earlier
        \<and> set reserved \<subseteq> {LReserved (pv_instanceId rq)}
        \<and> int (length rows) < pp_maxTotalInstances policy \<and> int (occupied rows) < pp_maxRunningInstances policy
        \<and> c_status c = Creating \<and> c_id c = pv_instanceId rq \<and> c_userId c = pv_ownerId rq \<and> c_appId c = pv_appId rq)"

definition quota_free :: "string \<Rightarrow> life_event list \<Rightarrow> bool" where
  "quota_free i past \<longleftrightarrow>
     LRowDeleted i \<in> set past \<or> (\<exists>owner. LWorkspaceDeleted i owner \<in> set past)
     \<or> (\<exists>c. LSaving c \<in> set past \<and> c_id c = i)"

fun life_justified :: "life_event \<Rightarrow> life_event list \<Rightarrow> bool" where
  "life_justified (LUpdating c) past = row_derived c past"
| "life_justified (LStarting i) past = start_granted i past"
| "life_justified (LProvisioning rq) past = creation_granted rq past"
| "life_justified (LRemoved i owner) past = (\<exists>c. c_userId c = owner \<and> known_row c past)"
| "life_justified (LRowDeleted i) past = (\<exists>owner. LRemoved i owner \<in> set past)"
| "life_justified (LReleased i) past = quota_free i past"
| "life_justified _ past = True"

text \<open>Events that need no justification in whatever way events are justified.\<close>

fun free_event :: "life_event \<Rightarrow> bool" where
  "free_event (LUpdating _) = False"
| "free_event (LStarting _) = False"
| "free_event (LProvisioning _) = False"
| "free_event (LRemoved _ _) = False"
| "free_event (LRowDeleted _) = False"
| "free_event (LReleased _) = False"
| "free_event (LStopping _) = False"
| "free_event _ = True"

section \<open>The judgement\<close>

fun log_justified :: "(life_event \<Rightarrow> life_event list \<Rightarrow> bool) \<Rightarrow> life_event list \<Rightarrow> bool" where
  "log_justified J [] = True"
| "log_justified J (e # past) = (J e past \<and> log_justified J past)"

lemma log_justified_split: "log_justified J (later @ e # earlier) \<Longrightarrow> J e earlier"
  by (induction later) auto

text \<open>A baseline of the activity is one of \<open>B\<close>, kept from before, or of a sample in the log.\<close>

definition baselines_sampled :: "(string, activity_baseline) js_map \<Rightarrow> life_run \<Rightarrow> bool" where
  "baselines_sampled B s \<longleftrightarrow>
     (\<forall>i b. js_get (lr_baselines s) i = Some b \<longrightarrow> js_get B i = Some b \<or> LSampled i b \<in> set (lr_log s))"

definition life_good :: "(life_event \<Rightarrow> life_event list \<Rightarrow> bool) \<Rightarrow> (string, activity_baseline) js_map \<Rightarrow> life_run \<Rightarrow> bool" where
  "life_good J B s \<longleftrightarrow> log_justified J (lr_log s) \<and> baselines_sampled B s"

definition life_ok ::
  "(life_event \<Rightarrow> life_event list \<Rightarrow> bool) \<Rightarrow> (string, activity_baseline) js_map \<Rightarrow> (life_event list \<Rightarrow> bool) \<Rightarrow> 'a life
   \<Rightarrow> ('a \<Rightarrow> life_event list \<Rightarrow> bool) \<Rightarrow> bool" where
  "life_ok J B P a Q \<longleftrightarrow>
     (\<forall>s. life_good J B s \<and> P (lr_log s) \<longrightarrow>
        (case a s of (s', r) \<Rightarrow> life_good J B s' \<and> (\<exists>l. lr_log s' = l @ lr_log s)
           \<and> (case r of Inr x \<Rightarrow> Q x (lr_log s') | Inl _ \<Rightarrow> True)))"

text \<open>What stays true when the log grows.\<close>

definition steady :: "(life_event list \<Rightarrow> bool) \<Rightarrow> bool" where
  "steady P \<longleftrightarrow> (\<forall>e l. P l \<longrightarrow> P (e # l))"

lemma steadyD: "steady P \<Longrightarrow> P l \<Longrightarrow> P (e # l)"
  by (simp add: steady_def)

lemma steady_append: "steady P \<Longrightarrow> P l \<Longrightarrow> P (l' @ l)"
  by (induction l') (auto simp: steady_def)

lemma steady_const [intro!]: "steady (\<lambda>_. b)"
  by (simp add: steady_def)

lemma steady_conj [intro!]: "steady P \<Longrightarrow> steady Q \<Longrightarrow> steady (\<lambda>l. P l \<and> Q l)"
  by (simp add: steady_def)

lemma steady_disj [intro!]: "steady P \<Longrightarrow> steady Q \<Longrightarrow> steady (\<lambda>l. P l \<or> Q l)"
  by (auto simp: steady_def)

lemma steady_ex [intro!]: "(\<And>x. steady (R x)) \<Longrightarrow> steady (\<lambda>l. \<exists>x. R x l)"
  unfolding steady_def by blast

lemma steady_mem [intro!]: "steady (\<lambda>l. e \<in> set l)"
  by (simp add: steady_def)

lemma steady_known [intro!]: "steady (known_row c)"
  by (auto simp: steady_def known_row_def)

lemma steady_shown [intro!]: "steady (shown_running c)"
  unfolding steady_def shown_running_def by (metis list.set_intros(2))

lemma steady_free [intro!]: "steady (quota_free i)"
  by (auto simp: steady_def quota_free_def)

lemma steady_derived [intro!]: "steady (row_derived c)"
  unfolding row_derived_def using steady_known steady_shown by (auto simp: steady_def)

lemma known_row_read: "LRow i c \<in> set l \<Longrightarrow> known_row c l"
  by (auto simp: known_row_def same_row_def)

lemma known_row_saved: "LSaving c \<in> set l \<Longrightarrow> known_row c l"
  by (auto simp: known_row_def same_row_def)

lemma known_row_same: "same_row c d \<Longrightarrow> known_row d past \<Longrightarrow> known_row c past"
  by (auto simp: known_row_def same_row_def)

lemma same_row_refl [simp]: "same_row c c"
  by (simp add: same_row_def)

lemma same_row_trans: "same_row c d \<Longrightarrow> same_row d e \<Longrightarrow> same_row c e"
  by (simp add: same_row_def)

section \<open>Rules for the effects\<close>

lemma life_good_note: "life_good J B s \<Longrightarrow> J e (lr_log s) \<Longrightarrow> life_good J B (s\<lparr>lr_log := e # lr_log s\<rparr>)"
  unfolding life_good_def baselines_sampled_def by simp blast

lemma life_okI:
  assumes "\<And>s s' r. life_good J B s \<Longrightarrow> P (lr_log s) \<Longrightarrow> a s = (s', r) \<Longrightarrow>
     life_good J B s' \<and> (\<exists>l. lr_log s' = l @ lr_log s) \<and> (\<forall>x. r = Inr x \<longrightarrow> Q x (lr_log s'))"
  shows "life_ok J B P a Q"
  unfolding life_ok_def
proof (intro allI impI)
  fix s assume s: "life_good J B s \<and> P (lr_log s)"
  obtain s' r where a: "a s = (s', r)" by (cases "a s")
  from assms [OF _ _ a] s show "case a s of (s', r) \<Rightarrow> life_good J B s' \<and> (\<exists>l. lr_log s' = l @ lr_log s)
      \<and> (case r of Inr x \<Rightarrow> Q x (lr_log s') | Inl _ \<Rightarrow> True)"
    by (auto simp: a split: sum.split)
qed

lemma life_okD:
  assumes "life_ok J B P a Q" "life_good J B s" "P (lr_log s)" "a s = (s', r)"
  shows "life_good J B s'" "\<exists>l. lr_log s' = l @ lr_log s" "r = Inr x \<Longrightarrow> Q x (lr_log s')"
proof -
  have "case a s of (s', r) \<Rightarrow> life_good J B s' \<and> (\<exists>l. lr_log s' = l @ lr_log s)
      \<and> (case r of Inr x \<Rightarrow> Q x (lr_log s') | Inl _ \<Rightarrow> True)"
    by (rule mp [OF assms(1) [unfolded life_ok_def, THEN spec, of s]]) (rule conjI [OF assms(2,3)])
  then show "life_good J B s'" "\<exists>l. lr_log s' = l @ lr_log s" "r = Inr x \<Longrightarrow> Q x (lr_log s')"
    unfolding assms(4) by auto
qed

lemma life_ok_weaken:
  assumes "life_ok J B P a Q" "\<And>l. P' l \<Longrightarrow> P l" "\<And>x l. Q x l \<Longrightarrow> Q' x l"
  shows "life_ok J B P' a Q'"
proof (rule life_okI)
  fix s s' r assume s: "life_good J B s" "P' (lr_log s)" "a s = (s', r)"
  note d = life_okD [OF assms(1) s(1) assms(2) [OF s(2)] s(3)]
  from d(1,2) d(3) [THEN assms(3)]
  show "life_good J B s' \<and> (\<exists>l. lr_log s' = l @ lr_log s) \<and> (\<forall>x. r = Inr x \<longrightarrow> Q' x (lr_log s'))"
    by blast
qed

lemma life_ok_post: "life_ok J B P a Q \<Longrightarrow> (\<And>x l. Q x l \<Longrightarrow> Q' x l) \<Longrightarrow> life_ok J B P a Q'"
  by (erule life_ok_weaken) auto

lemma life_ok_pre: "life_ok J B P a Q \<Longrightarrow> (\<And>l. P' l \<Longrightarrow> P l) \<Longrightarrow> life_ok J B P' a Q"
  by (erule life_ok_weaken) auto

lemma life_ok_ret: "(\<And>l. P l \<Longrightarrow> Q x l) \<Longrightarrow> life_ok J B P (act_ret x) Q"
  by (rule life_okI) (auto simp: act_ret_def)

lemma life_ok_throw: "life_ok J B P (act_throw e) Q"
  by (rule life_okI) (auto simp: act_throw_def)

lemma life_ok_case:
  assumes a: "life_ok J B P a Q" and R: "steady R" "\<And>l. P l \<Longrightarrow> R l"
    and h: "\<And>e. life_ok J B R (h e) T" and f: "\<And>x. life_ok J B (Q x) (f x) T"
  shows "life_ok J B P (act_case a h f) T"
proof (rule life_okI)
  fix s s'' r assume s: "life_good J B s" "P (lr_log s)" and run: "act_case a h f s = (s'', r)"
  obtain s' q where q: "a s = (s', q)" by (cases "a s")
  note first = life_okD [OF a s q]
  from first(2) obtain l where l: "lr_log s' = l @ lr_log s" by blast
  have R': "R (lr_log s')" unfolding l using R s(2) by (blast intro: steady_append)
  show "life_good J B s'' \<and> (\<exists>l. lr_log s'' = l @ lr_log s) \<and> (\<forall>x. r = Inr x \<longrightarrow> T x (lr_log s''))"
  proof (cases q)
    case (Inl e)
    with run q have "h e s' = (s'', r)" by (simp add: act_case_def)
    from life_okD [OF h first(1) R' this] l show ?thesis by auto
  next
    case (Inr x)
    with run q have "f x s' = (s'', r)" by (simp add: act_case_def)
    from life_okD [OF f first(1) first(3) [OF Inr] this] l show ?thesis by auto
  qed
qed

lemma life_ok_bind:
  assumes "life_ok J B P a Q" "\<And>x. life_ok J B (Q x) (f x) T"
  shows "life_ok J B P (act_bind a f) T"
  unfolding act_bind_def by (rule life_ok_case [where R = "\<lambda>_. True"]) (use assms in \<open>auto intro: life_ok_throw\<close>)

lemma bind_ret [simp]: "act_bind (act_ret x) f = f x"
  by (simp add: act_bind_def act_case_def act_ret_def fun_eq_iff)

lemma life_ok_any: "life_ok J B P a Q \<Longrightarrow> life_ok J B P a (\<lambda>_ _. True)"
  by (erule life_ok_post) simp

text \<open>An action that neither logs nor sets a baseline.\<close>

lemma life_ok_quiet:
  assumes "\<And>s. lr_log (fst (a s)) = lr_log s \<and> (\<forall>i b. js_get (lr_baselines (fst (a s))) i = Some b \<longrightarrow> js_get (lr_baselines s) i = Some b)"
  shows "life_ok J B P a (\<lambda>_. P)"
proof (rule life_okI)
  fix s s' r assume "life_good J B s" "P (lr_log s)" "a s = (s', r)"
  then show "life_good J B s' \<and> (\<exists>l. lr_log s' = l @ lr_log s) \<and> (\<forall>x. r = Inr x \<longrightarrow> P (lr_log s'))"
    using assms [of s] by (auto simp: life_good_def baselines_sampled_def)
qed

lemma life_ok_wait: "life_ok J B P (life_wait wd) (\<lambda>_. P)"
  by (rule life_ok_quiet) (simp add: life_wait_def life_turn_def)

lemma life_ok_wall: "life_ok J B P (life_wall wd) (\<lambda>_. P)"
  by (rule life_ok_quiet) (simp add: life_wall_def)

lemma life_ok_fresh_id: "life_ok J B P (life_fresh_id wd) (\<lambda>_. P)"
  by (rule life_ok_quiet) (simp add: life_fresh_id_def)

lemma life_ok_throw_if: "life_ok J B P (life_throw_if sig) (\<lambda>_. P)"
  by (rule life_ok_quiet) (simp add: life_throw_if_def)

lemma life_ok_forget: "life_ok J B P (forget_baseline i) (\<lambda>_. P)"
  by (rule life_ok_quiet) (auto simp: forget_baseline_def)

lemma life_ok_of: "life_ok J B P (act_of r) (\<lambda>x l. r = Inr x \<and> P l)"
  by (cases r) (auto simp: act_of_def intro: life_ok_ret life_ok_throw)

lemma life_ok_call: "life_ok J B P (life_call wd f) (\<lambda>_. P)"
  unfolding life_call_def by (rule life_ok_bind [OF life_ok_wait life_ok_post [OF life_ok_of]]) simp

lemma life_ok_read: "life_ok J B P (life_read wd f) (\<lambda>_. P)"
  unfolding life_read_def by (rule life_ok_bind [OF life_ok_wait life_ok_quiet]) (simp split: sum.split)

lemma life_ok_write: "life_ok J B P (life_write wd f) (\<lambda>_. P)"
  unfolding life_write_def by (rule life_ok_bind [OF life_ok_wait life_ok_quiet]) (simp split: prod.split)

lemma life_ok_quota: "life_ok J B P (life_quota wd f) (\<lambda>_. P)"
  by (rule life_ok_quiet)
    (auto simp: life_quota_def act_bind_def act_case_def act_throw_def life_wait_def life_turn_def
        split: option.split prod.split sum.split)

lemma life_ok_note:
  assumes "\<And>l. P l \<Longrightarrow> J e l"
  shows "life_ok J B P (life_note e) (\<lambda>_ l. \<exists>l0. l = e # l0 \<and> P l0)"
proof (rule life_okI)
  fix s s' r assume "life_good J B s" "P (lr_log s)" "life_note e s = (s', r)"
  then show "life_good J B s' \<and> (\<exists>l. lr_log s' = l @ lr_log s) \<and> (\<forall>x. r = Inr x \<longrightarrow> (\<exists>l0. lr_log s' = e # l0 \<and> P l0))"
    using assms life_good_note [of J B s e] by (auto simp: life_note_def)
qed

section \<open>Rules for the methods\<close>

text \<open>The log of a run that has just stored the row of a new instance.\<close>

definition reserved_state :: "(life_event list \<Rightarrow> bool) \<Rightarrow> string \<Rightarrow> reservation \<Rightarrow> life_event list \<Rightarrow> bool" where
  "reserved_state P userId r l \<longleftrightarrow>
     P l \<and> known_row (rv_pending r) l \<and> quota_free (rv_id r) l
     \<and> (\<forall>rq. pv_instanceId rq = rv_id r \<and> pv_ownerId rq = userId \<and> pv_appId rq = c_appId (rv_pending r) \<longrightarrow> creation_granted rq l)"

text \<open>The contract: what a way to justify events has to admit.\<close>

locale life_rules =
  fixes J :: "life_event \<Rightarrow> life_event list \<Rightarrow> bool"
    and B :: "(string, activity_baseline) js_map"
  assumes free: "free_event e \<Longrightarrow> J e l"
    and updating: "row_derived c l \<Longrightarrow> J (LUpdating c) l"
    and starting: "start_granted i l \<Longrightarrow> J (LStarting i) l"
    and provisioning: "creation_granted rq l \<Longrightarrow> J (LProvisioning rq) l"
    and removed: "known_row c l \<Longrightarrow> J (LRemoved i (c_userId c)) l"
    and row_deleted: "LRemoved i owner \<in> set l \<Longrightarrow> J (LRowDeleted i) l"
    and released: "quota_free i l \<Longrightarrow> J (LReleased i) l"
begin

lemma note_free: "free_event e \<Longrightarrow> life_ok J B P (life_note e) (\<lambda>_ l. \<exists>l0. l = e # l0 \<and> P l0)"
  by (rule life_ok_note) (rule free)

lemma note_kept: "(\<And>l. P l \<Longrightarrow> J e l) \<Longrightarrow> steady P \<Longrightarrow> life_ok J B P (life_note e) (\<lambda>_ l. P l \<and> e \<in> set l)"
  by (rule life_ok_post [OF life_ok_note]) (auto simp: steady_def)

lemma now_exact: "life_ok J B P (life_now wd) (\<lambda>t l. \<exists>l0. l = LClock t # l0 \<and> P l0)"
proof (rule life_okI)
  fix s s' r assume s: "life_good J B s" "P (lr_log s)" "life_now wd s = (s', r)"
  have "life_good J B (s\<lparr>lr_step := Suc (lr_step s)\<rparr>)" using s(1) by (simp add: life_good_def baselines_sampled_def)
  then have "life_good J B (s\<lparr>lr_step := Suc (lr_step s), lr_log := LClock t # lr_log s\<rparr>)" for t
    using life_good_note [of J B "s\<lparr>lr_step := Suc (lr_step s)\<rparr>" "LClock t"] free by simp
  then show "life_good J B s' \<and> (\<exists>l. lr_log s' = l @ lr_log s)
      \<and> (\<forall>x. r = Inr x \<longrightarrow> (\<exists>l0. lr_log s' = LClock x # l0 \<and> P l0))"
    using s(2,3) by (auto simp: life_now_def)
qed

lemma now_kept: "steady P \<Longrightarrow> life_ok J B P (life_now wd) (\<lambda>t l. P l \<and> LClock t \<in> set l)"
  by (rule life_ok_post [OF now_exact]) (auto simp: steady_def)

lemma container_exact:
  "life_ok J B P (life_container wd i) (\<lambda>r l. case r of None \<Rightarrow> P l | Some c \<Rightarrow> \<exists>l0. l = LRow i c # l0 \<and> P l0)"
  unfolding life_container_def
  by (rule life_ok_bind [OF life_ok_read])
    (auto split: option.split intro!: life_ok_ret life_ok_bind [OF note_free])

lemma container_kept:
  assumes "steady P"
  shows "life_ok J B P (life_container wd i) (\<lambda>r l. P l \<and> (\<forall>c. r = Some c \<longrightarrow> LRow i c \<in> set l \<and> known_row c l))"
  by (rule life_ok_post [OF container_exact]) (use assms in \<open>auto simp: steady_def intro: known_row_read split: option.splits\<close>)

lemma container_for_user_kept:
  assumes "steady P"
  shows "life_ok J B P (life_container_for_user wd u) (\<lambda>r l. P l \<and> (\<forall>c. r = Some c \<longrightarrow> known_row c l))"
  unfolding life_container_for_user_def
  by (rule life_ok_bind [OF life_ok_read])
    (use assms in \<open>auto split: option.split intro!: life_ok_ret life_ok_bind [OF note_free] simp: steady_def intro: known_row_read\<close>)

lemma containers_exact: "life_ok J B P (life_containers wd) (\<lambda>rows l. \<exists>l0. l = LRows rows # l0 \<and> P l0)"
  unfolding life_containers_def
  by (rule life_ok_bind [OF life_ok_read], rule life_ok_bind [OF note_free]) (auto intro: life_ok_ret)

lemma policy_exact: "life_ok J B P (life_policy wd) (\<lambda>p l. \<exists>l0. l = LPolicy p # l0 \<and> P l0)"
  unfolding life_policy_def
  by (rule life_ok_bind [OF life_ok_call], rule life_ok_bind [OF note_free]) (auto intro: life_ok_ret)

lemma policy_kept: "steady P \<Longrightarrow> life_ok J B P (life_policy wd) (\<lambda>p l. P l \<and> LPolicy p \<in> set l)"
  by (rule life_ok_post [OF policy_exact]) (auto simp: steady_def)

lemma instance_kept: "steady P \<Longrightarrow> life_ok J B P (life_instance wd f) (\<lambda>x l. P l \<and> LObserved x \<in> set l)"
  unfolding life_instance_def
  by (rule life_ok_bind [OF life_ok_call], rule life_ok_bind [OF note_free]) (auto simp: steady_def intro: life_ok_ret)

lemma find_instance_kept:
  "steady P \<Longrightarrow> life_ok J B P (life_find_instance wd f) (\<lambda>r l. P l \<and> (\<forall>x. r = Some x \<longrightarrow> LObserved x \<in> set l))"
  unfolding life_find_instance_def
  by (rule life_ok_bind [OF life_ok_call])
    (auto split: option.split simp: steady_def intro!: life_ok_ret life_ok_bind [OF note_free])

lemma audit_kept: "steady P \<Longrightarrow> life_ok J B P (life_audit wd a i) (\<lambda>_. P)"
  unfolding life_audit_def
  by (rule life_ok_bind [OF life_ok_call], rule life_ok_post [OF note_free]) (auto simp: steady_def)

lemma initialized_kept: "life_ok J B P (life_initialized wd u) (\<lambda>_. P)"
  unfolding life_initialized_def by (rule life_ok_write)

lemma update_kept:
  assumes "steady P" "\<And>l. P l \<Longrightarrow> row_derived c l"
  shows "life_ok J B P (life_update wd c) (\<lambda>_. P)"
  unfolding life_update_def
  by (rule life_ok_bind [OF life_ok_note], rule updating, rule assms(2), assumption)
    (rule life_ok_post [OF life_ok_write], use assms(1) in \<open>auto simp: steady_def\<close>)

lemma turn_ok: "life_ok J B P a Q \<Longrightarrow> life_ok J B P (with_turn wd a) Q"
  unfolding with_turn_def by (rule life_ok_bind [OF life_ok_wait])

lemma global_ok: "life_ok J B P a Q \<Longrightarrow> life_ok J B P (with_global wd a) Q"
  unfolding with_global_def by (intro turn_ok)

lemma lease_ok: "(\<And>sig. life_ok J B P (f sig) Q) \<Longrightarrow> life_ok J B P (with_lease wd i held caller f) Q"
  unfolding with_lease_def by (auto intro!: life_ok_bind [OF life_ok_call] life_ok_throw)

lemma assert_catalog_kept: "life_ok J B P (assert_catalog wd r) (\<lambda>_. P)"
  unfolding assert_catalog_def
  by (auto split: option.split intro!: life_ok_ret life_ok_throw life_ok_bind [OF life_ok_call])

lemma projected_derived:
  assumes "check_instance c x es = Inr ()" "known_row c l" "LObserved x \<in> set l"
  shows "row_derived (projected_row c x sr ex la now) l \<and> same_row (projected_row c x sr ex la now) c"
proof -
  let ?d = "projected_row c x sr ex la now"
  have same: "same_row ?d c"
    by (simp add: same_row_def projected_row_def Let_def split: option.split)
  have "shown_running ?d l" if r: "c_status ?d = Running"
    unfolding shown_running_def
    by (rule exI [of _ x])
      (use assms(1,3) r in \<open>auto simp: projected_row_def Let_def check_instance_def split: option.splits if_splits\<close>)
  with same assms(2) show ?thesis by (auto simp: row_derived_def intro: known_row_same)
qed

lemma project_kept:
  assumes "steady P" "\<And>l. P l \<Longrightarrow> known_row c l \<and> LObserved x \<in> set l"
  shows "life_ok J B P (project_instance wd c x sr ex la es) (\<lambda>d l. P l \<and> row_derived d l \<and> same_row d c)"
  unfolding project_instance_def
proof (rule life_ok_bind [OF life_ok_of], rule life_ok_bind [OF assert_catalog_kept], rule life_ok_bind [OF now_kept])
  fix y now
  show "steady (\<lambda>l. check_instance c x es = Inr y \<and> P l)" using assms(1) by (simp add: steady_def)
  show "life_ok J B (\<lambda>l. (check_instance c x es = Inr y \<and> P l) \<and> LClock now \<in> set l)
      (act_ret (projected_row c x sr ex la now)) (\<lambda>d l. P l \<and> row_derived d l \<and> same_row d c)"
    by (rule life_ok_ret) (use assms(2) projected_derived [of c x es] in fastforce)
qed

lemma persist_kept:
  assumes "steady P" "\<And>l. P l \<Longrightarrow> known_row c l \<and> LObserved x \<in> set l"
  shows "life_ok J B P (persist_instance wd c x sr ex es) (\<lambda>d l. P l \<and> known_row d l \<and> same_row d c)"
  unfolding persist_instance_def
proof (rule life_ok_bind [OF container_kept [OF assms(1)]], rule life_ok_bind [OF project_kept], goal_cases)
  case (1 latest)
  then show ?case using assms(1) by (cases latest) (auto intro!: steady_conj simp: steady_def known_row_def)
next
  case (2 latest l)
  then show ?case using assms(2) by blast
next
  case (3 latest d)
  show ?case
  proof (cases "same_row d c")
    case True
    have "life_ok J B (\<lambda>l. P l \<and> row_derived d l) (life_update wd d) (\<lambda>_ l. P l \<and> row_derived d l)"
      by (rule update_kept) (intro steady_conj assms(1) steady_derived, simp)
    then have "life_ok J B (\<lambda>l. P l \<and> row_derived d l)
        (act_bind (life_update wd d) (\<lambda>_. act_bind (if c_status d \<noteq> Running then forget_baseline (c_id c) else act_ret ()) (\<lambda>_. act_ret d)))
        (\<lambda>d l. P l \<and> known_row d l \<and> same_row d c)"
      by (rule life_ok_bind)
        (auto simp: True row_derived_def intro!: life_ok_bind [OF life_ok_forget] life_ok_ret)
    then show ?thesis by (rule life_ok_pre) simp
  next
    case False
    then show ?thesis by (auto simp: life_ok_def)
  qed
qed

lemma ask_again_kept:
  assumes "steady P" "life_ok J B P ask (\<lambda>r l. P l \<and> (\<forall>x. r = Some x \<longrightarrow> LObserved x \<in> set l))"
  shows "life_ok J B P (ask_again n wd sig ask) (\<lambda>r l. P l \<and> (\<forall>x. r = Some x \<longrightarrow> LObserved x \<in> set l))"
proof (induction n)
  case 0
  then show ?case by (auto intro: life_ok_ret)
next
  case (Suc n)
  have "life_ok J B P (act_bind ask (\<lambda>r. case r of Some x \<Rightarrow> act_ret (Some x) | None \<Rightarrow> ask_again n wd sig ask))
      (\<lambda>r l. P l \<and> (\<forall>x. r = Some x \<longrightarrow> LObserved x \<in> set l))"
  proof (rule life_ok_bind [OF assms(2)])
    fix r
    show "life_ok J B (\<lambda>l. P l \<and> (\<forall>x. r = Some x \<longrightarrow> LObserved x \<in> set l))
        (case r of Some x \<Rightarrow> act_ret (Some x) | None \<Rightarrow> ask_again n wd sig ask)
        (\<lambda>r l. P l \<and> (\<forall>x. r = Some x \<longrightarrow> LObserved x \<in> set l))"
      by (cases r) (use Suc.IH in \<open>auto intro: life_ok_ret life_ok_pre\<close>)
  qed
  then show ?case
    by (auto intro!: life_ok_bind [OF life_ok_throw_if] life_ok_bind [OF life_ok_wait])
qed

text \<open>Looking for an instance, again while it is missing and \<open>again\<close> holds.\<close>

lemma found_kept:
  assumes "steady P"
  shows "life_ok J B P (act_bind (life_find_instance wd f) (\<lambda>first. case first of Some x \<Rightarrow> act_ret (Some x)
      | None \<Rightarrow> if stop then act_ret None else ask_again n wd sig (life_find_instance wd f)))
    (\<lambda>r l. P l \<and> (\<forall>x. r = Some x \<longrightarrow> LObserved x \<in> set l))"
proof (rule life_ok_bind [OF find_instance_kept [OF assms]])
  fix r
  have "life_ok J B P (ask_again n wd sig (life_find_instance wd f)) (\<lambda>r l. P l \<and> (\<forall>x. r = Some x \<longrightarrow> LObserved x \<in> set l))"
    by (rule ask_again_kept [OF assms find_instance_kept [OF assms]])
  then show "life_ok J B (\<lambda>l. P l \<and> (\<forall>x. r = Some x \<longrightarrow> LObserved x \<in> set l))
      (case r of Some x \<Rightarrow> act_ret (Some x) | None \<Rightarrow> if stop then act_ret None else ask_again n wd sig (life_find_instance wd f))
      (\<lambda>r l. P l \<and> (\<forall>x. r = Some x \<longrightarrow> LObserved x \<in> set l))"
    by (cases r) (auto intro: life_ok_ret life_ok_pre)
qed

lemma bind_assoc: "act_bind (act_bind a f) g = act_bind a (\<lambda>x. act_bind (f x) g)"
  by (simp add: act_bind_def act_case_def act_throw_def fun_eq_iff split: prod.split sum.split)

lemma sync_kept:
  assumes "steady P" "\<And>l. P l \<Longrightarrow> known_row c l"
  shows "life_ok J B P (sync_record wd sig c) (\<lambda>d l. P l \<and> known_row d l \<and> same_row d c)"
  unfolding sync_record_def
proof (rule life_ok_bind [OF life_ok_throw_if], subst bind_assoc [symmetric], rule life_ok_bind [OF found_kept [OF assms(1)]])
  fix r :: "container_instance option"
  have "life_ok J B (\<lambda>l. P l \<and> LObserved x \<in> set l) (persist_instance wd c x (c_stopReason c) None None)
      (\<lambda>d l. P l \<and> known_row d l \<and> same_row d c)" for x
    by (rule life_ok_post [OF persist_kept]) (use assms in \<open>auto simp: steady_def\<close>)
  then show "life_ok J B (\<lambda>l. P l \<and> (\<forall>x. r = Some x \<longrightarrow> LObserved x \<in> set l))
      (case r of None \<Rightarrow> if c_status c = Failed then act_ret c else act_throw (LifecycleError LcObservationUnavailable)
       | Some x \<Rightarrow> persist_instance wd c x (c_stopReason c) None None)
      (\<lambda>d l. P l \<and> known_row d l \<and> same_row d c)"
    by (cases r) (use assms(2) in \<open>auto intro!: life_ok_ret life_ok_throw\<close>)
qed

lemma poll_kept:
  assumes "steady P" "\<And>l. P l \<Longrightarrow> known_row c l"
  shows "life_ok J B P (poll_creation n wd sig deadline i c) (\<lambda>d l. P l \<and> known_row d l)"
  using assms
proof (induction n arbitrary: P c)
  case 0
  then show ?case by (auto intro: life_ok_ret life_ok_throw)
next
  case (Suc n)
  have "life_ok J B P (life_container wd i) (\<lambda>r l. P l \<and> (\<forall>d. r = Some d \<longrightarrow> LRow i d \<in> set l \<and> known_row d l))"
    by (rule container_kept [OF Suc.prems(1)])
  moreover have "life_ok J B (\<lambda>l. P l \<and> LRow i d \<in> set l \<and> known_row d l) (poll_creation n wd sig deadline i d)
      (\<lambda>e l. P l \<and> known_row e l)" for d
    by (rule life_ok_post [OF Suc.IH]) (use Suc.prems(1) in \<open>auto simp: steady_def known_row_def\<close>)
  ultimately have "life_ok J B P (act_bind (life_container wd i) (\<lambda>r. case r of None \<Rightarrow> act_throw (LifecycleError LcContainerNotFound)
      | Some d \<Rightarrow> poll_creation n wd sig deadline i d)) (\<lambda>e l. P l \<and> known_row e l)"
    by (auto intro!: life_ok_bind life_ok_throw split: option.split)
  with Suc.prems(2) show ?case
    by (auto intro!: life_ok_ret life_ok_throw life_ok_bind [OF life_ok_wall] life_ok_bind [OF life_ok_throw_if] life_ok_bind [OF life_ok_wait])
qed

lemma creation_kept:
  assumes "steady P" "\<And>l. P l \<Longrightarrow> known_row c l"
  shows "life_ok J B P (wait_for_creation wd sig c) (\<lambda>d l. P l \<and> known_row d l)"
  unfolding wait_for_creation_def
  using assms by (auto intro!: life_ok_ret life_ok_bind [OF life_ok_wall] poll_kept)

lemma current_kept:
  assumes "steady P"
  shows "life_ok J B P (current_container wd sig i) (\<lambda>c l. P l \<and> LRow i c \<in> set l \<and> known_row c l)"
  unfolding current_container_def
  by (rule life_ok_bind [OF life_ok_throw_if], rule life_ok_bind [OF container_kept [OF assms]], rule life_ok_bind [OF life_ok_throw_if])
    (auto split: option.split intro: life_ok_ret life_ok_throw)

lemma existing_kept:
  assumes "steady P"
  shows "life_ok J B P (existing_container wd i) (\<lambda>c l. P l \<and> LRow i c \<in> set l \<and> known_row c l)"
  unfolding existing_container_def
  by (rule life_ok_bind [OF container_kept [OF assms]]) (auto split: option.split intro: life_ok_ret life_ok_throw)

text \<open>The beginning of most methods: the row, once it is created, brought in line with the runtime.\<close>

lemma settled_kept:
  assumes "steady P"
  shows "life_ok J B P (act_bind (current_container wd sig i) (wait_for_creation wd sig)) (\<lambda>c l. P l \<and> known_row c l)"
proof (rule life_ok_bind [OF current_kept [OF assms]])
  show "life_ok J B (\<lambda>l. P l \<and> LRow i c \<in> set l \<and> known_row c l) (wait_for_creation wd sig c) (\<lambda>c l. P l \<and> known_row c l)" for c
    by (rule life_ok_post [OF creation_kept]) (use assms in \<open>auto simp: steady_def known_row_def\<close>)
qed

lemma synced_kept:
  assumes "steady P"
  shows "life_ok J B P (act_bind (current_container wd sig i) (\<lambda>c. act_bind (wait_for_creation wd sig c) (sync_record wd sig)))
    (\<lambda>c l. P l \<and> known_row c l)"
  unfolding bind_assoc [symmetric]
proof (rule life_ok_bind [OF settled_kept [OF assms]])
  show "life_ok J B (\<lambda>l. P l \<and> known_row c l) (sync_record wd sig c) (\<lambda>c l. P l \<and> known_row c l)" for c
    by (rule life_ok_post [OF sync_kept]) (use assms in \<open>auto simp: steady_def known_row_def\<close>)
qed

lemma life_sync_kept:
  assumes "steady P"
  shows "life_ok J B P (life_sync wd i held caller) (\<lambda>c l. P l \<and> known_row c l)"
  unfolding life_sync_def using assms by (intro lease_ok turn_ok synced_kept)

lemma life_read_kept:
  assumes "steady P"
  shows "life_ok J B P (life_read_container wd i sig) (\<lambda>c l. P l)"
  unfolding life_read_container_def
proof (subst bind_assoc [symmetric], rule life_ok_bind [OF settled_kept [OF assms]], cases "lw_observe wd")
  case None
  then show "life_ok J B (\<lambda>l. P l \<and> known_row c l) (case lw_observe wd of None \<Rightarrow> act_ret c | Some observe \<Rightarrow> g observe c) (\<lambda>c. P)" for c g
    by (auto intro: life_ok_ret)
next
  case (Some observe)
  have found: "life_ok J B (\<lambda>l. P l \<and> known_row c l)
      (act_bind (life_find_instance wd (\<lambda>n. observe n i)) (\<lambda>first. case first of Some x \<Rightarrow> act_ret (Some x)
         | None \<Rightarrow> ask_again missing_retries wd sig (life_find_instance wd (\<lambda>n. observe n i))))
      (\<lambda>r l. (P l \<and> known_row c l) \<and> (\<forall>x. r = Some x \<longrightarrow> LObserved x \<in> set l))" for c
    using found_kept [of "\<lambda>l. P l \<and> known_row c l" wd "\<lambda>n. observe n i" False missing_retries sig] assms
    by (simp add: steady_conj steady_known)
  have project: "life_ok J B (\<lambda>l. P l \<and> known_row c l \<and> LObserved x \<in> set l)
      (project_instance wd c x (c_stopReason c) None None None) (\<lambda>d. P)" for c x
    by (rule life_ok_post [OF project_kept]) (use assms in \<open>auto intro!: steady_conj steady_known steady_mem\<close>)
  have "life_ok J B (\<lambda>l. P l \<and> known_row c l)
     (act_bind (life_find_instance wd (\<lambda>n. observe n i)) (\<lambda>first.
         act_bind (case first of Some x \<Rightarrow> act_ret (Some x)
            | None \<Rightarrow> ask_again missing_retries wd sig (life_find_instance wd (\<lambda>n. observe n i))) (\<lambda>found.
         act_bind (life_throw_if sig) (\<lambda>_.
         case found of
           None \<Rightarrow> if c_status c = Failed then act_ret c else act_throw (LifecycleError LcObservationUnavailable)
         | Some x \<Rightarrow> project_instance wd c x (c_stopReason c) None None None)))) (\<lambda>c. P)" for c
    unfolding bind_assoc [symmetric]
    by (rule life_ok_bind [OF found], rule life_ok_bind [OF life_ok_throw_if])
      (auto split: option.split intro!: life_ok_ret life_ok_throw project)
  with Some show "life_ok J B (\<lambda>l. P l \<and> known_row c l) (case lw_observe wd of None \<Rightarrow> act_ret c | Some observe \<Rightarrow>
      act_bind (life_find_instance wd (\<lambda>n. observe n i)) (\<lambda>first.
         act_bind (case first of Some x \<Rightarrow> act_ret (Some x)
            | None \<Rightarrow> ask_again missing_retries wd sig (life_find_instance wd (\<lambda>n. observe n i))) (\<lambda>found.
         act_bind (life_throw_if sig) (\<lambda>_.
         case found of
           None \<Rightarrow> if c_status c = Failed then act_ret c else act_throw (LifecycleError LcObservationUnavailable)
         | Some x \<Rightarrow> project_instance wd c x (c_stopReason c) None None None)))) (\<lambda>c. P)" for c
    by simp
qed

section \<open>Quota\<close>

lemma release_kept:
  assumes "steady P" "\<And>l. P l \<Longrightarrow> quota_free i l"
  shows "life_ok J B P (release_quota wd i) (\<lambda>_. P)"
  unfolding release_quota_def
proof (rule life_ok_case [where R = P, OF life_ok_quota assms(1)])
  show "life_ok J B P (act_case (life_audit wd ''quota.release.failed'' i) (\<lambda>_. act_ret ()) act_ret) (\<lambda>_. P)"
    by (rule life_ok_case [OF audit_kept assms(1)]) (auto intro: assms(1) life_ok_ret)
  show "life_ok J B P (case r of None \<Rightarrow> act_ret () | Some _ \<Rightarrow> life_note (LReleased i)) (\<lambda>_. P)" for r :: "bool option"
  proof (cases r)
    case (Some b)
    have "life_ok J B P (life_note (LReleased i)) (\<lambda>_ l. P l \<and> LReleased i \<in> set l)"
      by (rule note_kept [OF _ assms(1)]) (rule released, rule assms(2))
    then show ?thesis unfolding Some option.case by (rule life_ok_post) simp
  qed (auto intro: life_ok_ret)
qed simp

lemma move_exact:
  "life_ok J B P (move_quota wd i d) (\<lambda>r l. if r = Some True then \<exists>l0. l = LQuota i d # l0 \<and> P l0 else P l)"
  unfolding move_quota_def
  by (rule life_ok_bind [OF life_ok_quota]) (auto intro!: life_ok_bind [OF note_free] life_ok_ret)

lemma move_kept: "steady P \<Longrightarrow> life_ok J B P (move_quota wd i d) (\<lambda>_. P)"
  by (rule life_ok_post [OF move_exact]) (auto simp: steady_def split: if_splits)

lemma move_back_kept:
  assumes "steady P"
  shows "life_ok J B P (move_quota_back wd b i d) (\<lambda>_. P)"
  unfolding move_quota_back_def
  using assms by (auto intro!: life_ok_ret life_ok_case [OF move_kept])

section \<open>Starting and stopping\<close>

lemma start_failed_kept:
  assumes "steady P" "\<And>l. P l \<Longrightarrow> known_row current l"
  shows "life_ok J B P (start_failed wd sig i current b e) (\<lambda>d l. P l \<and> known_row d l)"
proof -
  have recovered: "life_ok J B P (case e of
        RebuildRolledBack x \<Rightarrow> act_bind (life_note (LObserved x)) (\<lambda>_. act_ret (Some x))
      | _ \<Rightarrow> act_case (life_find_instance wd (\<lambda>n. lw_get wd n i)) (\<lambda>_. act_ret None) act_ret)
    (\<lambda>r l. P l \<and> (\<forall>x. r = Some x \<longrightarrow> LObserved x \<in> set l))"
  proof -
    have got: "life_ok J B P (act_case (life_find_instance wd (\<lambda>n. lw_get wd n i)) (\<lambda>_. act_ret None) act_ret)
        (\<lambda>r l. P l \<and> (\<forall>x. r = Some x \<longrightarrow> LObserved x \<in> set l))"
      by (rule life_ok_case [OF find_instance_kept [OF assms(1)] assms(1)]) (auto intro: life_ok_ret)
    have told: "life_ok J B P (act_bind (life_note (LObserved x)) (\<lambda>_. act_ret (Some x)))
        (\<lambda>r l. P l \<and> (\<forall>x. r = Some x \<longrightarrow> LObserved x \<in> set l))" for x
      by (rule life_ok_bind [OF note_free]) (use assms(1) in \<open>auto simp: steady_def intro!: life_ok_ret\<close>)
    show ?thesis using got told by (cases e) simp_all
  qed
  have persist: "life_ok J B (\<lambda>l. P l \<and> LObserved x \<in> set l)
      (act_bind (persist_instance wd current x (c_stopReason current) None None) (\<lambda>_. act_ret ())) (\<lambda>_. P)" for x
    by (rule life_ok_bind [OF persist_kept]) (use assms in \<open>auto intro!: steady_conj steady_mem life_ok_ret\<close>)
  show ?thesis
    unfolding start_failed_def
    by (auto intro!: life_ok_bind [OF life_ok_throw_if] life_ok_throw life_ok_bind [OF move_back_kept [OF assms(1)]]
          life_ok_bind [OF recovered] life_ok_bind [where Q = "\<lambda>_. P"] life_ok_ret persist split: option.split)
qed

text \<open>The log of a run that may start the instance \<open>i\<close> now.\<close>

lemma bring_up_kept:
  assumes "steady P" "\<And>l. P l \<Longrightarrow> known_row current l" "c_status fresh = Stopped"
    "int (occupied rows) < pp_maxRunningInstances policy"
  shows "life_ok J B (\<lambda>l. \<exists>l0. l = LRows rows # LPolicy policy # LRow i fresh # l0 \<and> P l0)
     (bring_up wd sig i current) (\<lambda>d l. P l \<and> known_row d l)"
proof -
  let ?checked = "\<lambda>l. \<exists>l0. l = LRows rows # LPolicy policy # LRow i fresh # l0 \<and> P l0"
  let ?ready = "\<lambda>l. ?checked l \<or> (\<exists>l0. l = LQuota i QRunning # l0 \<and> ?checked l0)"
  have P: "?ready l \<Longrightarrow> P l" for l using assms(1) by (auto simp: steady_def)
  have granted_after: "start_granted i (m @ LRows rows # LPolicy policy # LRow i fresh # l0)" if "set m \<subseteq> {LQuota i QRunning}" for m l0
    unfolding start_granted_def
    by (intro exI [of _ m] exI [of _ rows] exI [of _ policy] exI [of _ fresh] exI [of _ l0] conjI refl that assms(3,4))
  have granted: "start_granted i l" if "?ready l" for l
    using that
  proof (elim disjE exE conjE)
    show "start_granted i l" if "l = LRows rows # LPolicy policy # LRow i fresh # l0" for l0
      using granted_after [of "[]" l0] that by simp
    show "start_granted i l" if "l = LQuota i QRunning # l1" "l1 = LRows rows # LPolicy policy # LRow i fresh # l0" for l1 l0
      using granted_after [of "[LQuota i QRunning]" l0] that by simp
  qed
  have quota: "life_ok J B ?checked (quota_for_start wd i) (\<lambda>_. ?ready)"
    unfolding quota_for_start_def
    by (rule life_ok_bind [OF move_exact]) (auto intro!: life_ok_throw life_ok_ret split: if_splits)
  have started: "life_ok J B ?ready (act_bind (life_note (LStarting i)) (\<lambda>_.
      act_bind (life_instance wd (\<lambda>n. lw_start wd n i)) (\<lambda>x. act_bind (life_throw_if sig) (\<lambda>_. act_ret x))))
    (\<lambda>x l. P l \<and> LObserved x \<in> set l)"
  proof (rule life_ok_bind [OF life_ok_note])
    show "?ready l \<Longrightarrow> J (LStarting i) l" for l by (rule starting [OF granted])
    have "life_ok J B P (act_bind (life_instance wd (\<lambda>n. lw_start wd n i)) (\<lambda>x. act_bind (life_throw_if sig) (\<lambda>_. act_ret x)))
        (\<lambda>x l. P l \<and> LObserved x \<in> set l)"
      by (rule life_ok_bind [OF instance_kept [OF assms(1)]]) (auto intro!: life_ok_bind [OF life_ok_throw_if] life_ok_ret)
    then show "life_ok J B (\<lambda>l. \<exists>l0. l = LStarting i # l0 \<and> ?ready l0)
       (act_bind (life_instance wd (\<lambda>n. lw_start wd n i)) (\<lambda>x. act_bind (life_throw_if sig) (\<lambda>_. act_ret x)))
       (\<lambda>x l. P l \<and> LObserved x \<in> set l)"
    proof (rule life_ok_pre)
      fix l assume "\<exists>l0. l = LStarting i # l0 \<and> ?ready l0"
      then obtain l0 where l: "l = LStarting i # l0" "?ready l0" by blast
      show "P l" unfolding l(1) by (rule steadyD [OF assms(1) P [OF l(2)]])
    qed
  qed
  have persist: "life_ok J B (\<lambda>l. P l \<and> LObserved x \<in> set l)
      (persist_instance wd current x (c_stopReason current) (Some WantRunning) None) (\<lambda>d l. P l \<and> known_row d l)" for x
    by (rule life_ok_post [OF persist_kept]) (use assms(1,2) in \<open>auto intro!: steady_conj steady_mem\<close>)
  note failed = start_failed_kept [OF assms(1,2)]
  show ?thesis
    unfolding bring_up_def
    by (rule life_ok_case [OF quota assms(1) _ failed life_ok_case [OF started assms(1) P failed persist]])
      (rule P, rule disjI1)
qed

lemma start_stopped_kept:
  assumes "steady P" "\<And>l. P l \<Longrightarrow> known_row current l" "c_status fresh = Stopped"
  shows "life_ok J B (\<lambda>l. \<exists>l0. l = LRow i fresh # l0 \<and> P l0) (start_stopped wd sig i current) (\<lambda>d l. P l \<and> known_row d l)"
  unfolding start_stopped_def
proof (rule life_ok_bind [OF policy_exact], rule life_ok_bind [OF containers_exact])
  fix policy rows
  have "life_ok J B (\<lambda>l. \<exists>l0. l = LRows rows # LPolicy policy # LRow i fresh # l0 \<and> P l0)
     (if int (occupied rows) \<ge> pp_maxRunningInstances policy then act_throw (LifecycleError LcRunningLimit)
      else act_bind (forget_baseline i) (\<lambda>_. bring_up wd sig i current)) (\<lambda>d l. P l \<and> known_row d l)"
    using bring_up_kept [OF assms, of rows policy i] by (auto intro!: life_ok_throw life_ok_bind [OF life_ok_forget])
  then show "life_ok J B (\<lambda>l. \<exists>l0. l = LRows rows # l0 \<and> (\<exists>l1. l0 = LPolicy policy # l1 \<and> (\<exists>l2. l1 = LRow i fresh # l2 \<and> P l2)))
     (if int (occupied rows) \<ge> pp_maxRunningInstances policy then act_throw (LifecycleError LcRunningLimit)
      else act_bind (forget_baseline i) (\<lambda>_. bring_up wd sig i current)) (\<lambda>d l. P l \<and> known_row d l)"
    by (rule life_ok_pre) auto
qed

lemma start_locked_kept:
  assumes "steady P"
  shows "life_ok J B P (start_locked wd sig i) (\<lambda>d l. P l \<and> known_row d l)"
proof -
  have fresh: "life_ok J B (\<lambda>l. case r of None \<Rightarrow> P l \<and> known_row current l
        | Some fresh \<Rightarrow> \<exists>l0. l = LRow i fresh # l0 \<and> P l0 \<and> known_row current l0)
     (case r of None \<Rightarrow> act_throw (LifecycleError LcContainerNotFound)
      | Some fresh \<Rightarrow>
           if c_status fresh = Running then sync_record wd sig fresh
           else if c_status fresh \<noteq> Stopped then act_throw (LifecycleError LcNotReady)
           else start_stopped wd sig i current) (\<lambda>d l. P l \<and> known_row d l)" for r current
  proof (cases r)
    case (Some f)
    have sync: "life_ok J B (\<lambda>l. P l \<and> known_row f l) (sync_record wd sig f) (\<lambda>d l. P l \<and> known_row d l)"
      by (rule life_ok_post [OF sync_kept]) (use assms in \<open>auto intro!: steady_conj steady_known\<close>)
    have grown: "P (LRow i f # l0) \<and> known_row f (LRow i f # l0)" if "P l0" for l0
      using assms that by (auto simp: steady_def intro: known_row_read)
    have "life_ok J B (\<lambda>l. \<exists>l0. l = LRow i f # l0 \<and> P l0 \<and> known_row current l0) (sync_record wd sig f) (\<lambda>d l. P l \<and> known_row d l)"
      by (rule life_ok_pre [OF sync]) (use grown in blast)
    moreover have "life_ok J B (\<lambda>l. \<exists>l0. l = LRow i f # l0 \<and> P l0 \<and> known_row current l0) (start_stopped wd sig i current)
        (\<lambda>d l. P l \<and> known_row d l)" if "c_status f = Stopped"
      by (rule life_ok_post [OF start_stopped_kept [where P = "\<lambda>l. P l \<and> known_row current l"]])
        (use assms that in \<open>auto intro!: steady_conj steady_known\<close>)
    ultimately show ?thesis using Some by (auto intro: life_ok_throw)
  qed (auto intro: life_ok_throw)
  have "life_ok J B (\<lambda>l. P l \<and> known_row current l)
     (if c_status current = Running then act_ret current
      else if c_status current \<noteq> Stopped then act_throw (LifecycleError LcNotReady)
      else act_bind (life_container wd i) (\<lambda>r. act_bind (life_throw_if sig) (\<lambda>_.
       case r of None \<Rightarrow> act_throw (LifecycleError LcContainerNotFound)
       | Some fresh \<Rightarrow>
           if c_status fresh = Running then sync_record wd sig fresh
           else if c_status fresh \<noteq> Stopped then act_throw (LifecycleError LcNotReady)
           else start_stopped wd sig i current))) (\<lambda>d l. P l \<and> known_row d l)" for current
    by (auto intro!: life_ok_ret life_ok_throw)
      (rule life_ok_bind [OF container_exact], rule life_ok_bind [OF life_ok_throw_if fresh])
  then show ?thesis
    unfolding start_locked_def
    by (intro global_ok) (simp only: bind_assoc [symmetric], rule life_ok_bind [OF synced_kept [OF assms, unfolded bind_assoc [symmetric]]])
qed

lemma life_start_kept: "steady P \<Longrightarrow> life_ok J B P (life_start wd i held caller) (\<lambda>d l. P l \<and> known_row d l)"
  unfolding life_start_def by (intro lease_ok turn_ok start_locked_kept)

lemma bring_down_kept:
  assumes "steady P" "\<And>l. P l \<Longrightarrow> known_row current l" "\<And>l. P l \<Longrightarrow> J (LStopping i) l"
  shows "life_ok J B P (bring_down wd sig i current reason) (\<lambda>d l. P l \<and> known_row d l)"
proof -
  have stopped: "life_ok J B P (act_bind (life_note (LStopping i)) (\<lambda>_.
      act_bind (life_instance wd (\<lambda>n. lw_stop wd n i)) (\<lambda>x. act_bind (life_throw_if sig) (\<lambda>_. act_ret x))))
    (\<lambda>x l. P l \<and> LObserved x \<in> set l)"
    by (rule life_ok_bind [OF life_ok_post [OF note_kept [OF assms(3,1)], where Q' = "\<lambda>_. P"]], assumption, simp,
        rule life_ok_bind [OF instance_kept [OF assms(1)]], rule life_ok_bind [OF life_ok_throw_if]) (auto intro: life_ok_ret)
  have persist: "life_ok J B (\<lambda>l. P l \<and> LObserved x \<in> set l)
      (persist_instance wd current x (Some reason) None None) (\<lambda>d l. P l \<and> known_row d l)" for x
    by (rule life_ok_post [OF persist_kept]) (use assms(1,2) in \<open>auto intro!: steady_conj steady_mem\<close>)
  show ?thesis
    unfolding bring_down_def
    by (rule life_ok_bind [OF move_kept [OF assms(1)]], rule life_ok_case [OF stopped assms(1) _ _ persist])
      (auto intro!: life_ok_bind [OF move_back_kept [OF assms(1)]] life_ok_throw)
qed

lemma stop_locked_kept:
  assumes "steady P" "\<And>l. P l \<Longrightarrow> J (LStopping i) l"
  shows "life_ok J B P (stop_locked wd sig i reason) (\<lambda>d l. P l \<and> known_row d l)"
proof -
  have stopped: "life_ok J B (\<lambda>l. P l \<and> known_row current l)
     (act_bind (life_now wd) (\<lambda>now. let stopped = current\<lparr>c_stopReason := Some reason, c_updatedAt := now\<rparr>
        in act_bind (life_update wd stopped) (\<lambda>_. act_ret stopped))) (\<lambda>d l. P l \<and> known_row d l)"
    if "c_status current = Stopped" for current
  proof (rule life_ok_bind [OF now_kept], goal_cases)
    case (2 now)
    let ?d = "current\<lparr>c_stopReason := Some reason, c_updatedAt := now\<rparr>"
    have d: "known_row current l \<Longrightarrow> known_row ?d l" for l by (rule known_row_same) (simp_all add: same_row_def)
    have "life_ok J B (\<lambda>l. P l \<and> known_row current l) (life_update wd ?d) (\<lambda>_ l. P l \<and> known_row current l)"
      by (rule update_kept) (use assms(1) d that in \<open>auto intro!: steady_conj steady_known simp: row_derived_def\<close>)
    then have "life_ok J B (\<lambda>l. P l \<and> known_row current l) (act_bind (life_update wd ?d) (\<lambda>_. act_ret ?d)) (\<lambda>d l. P l \<and> known_row d l)"
      by (rule life_ok_bind) (use d in \<open>auto intro: life_ok_ret\<close>)
    then show ?case unfolding Let_def by (rule life_ok_pre) simp
  qed (use assms(1) in \<open>auto intro!: steady_conj steady_known\<close>)
  have down: "life_ok J B (\<lambda>l. P l \<and> known_row current l) (bring_down wd sig i current reason) (\<lambda>d l. P l \<and> known_row d l)" for current
    by (rule life_ok_post [OF bring_down_kept]) (use assms in \<open>auto intro!: steady_conj steady_known\<close>)
  show ?thesis
    unfolding stop_locked_def
    by (intro global_ok) (simp only: bind_assoc [symmetric],
        rule life_ok_bind [OF synced_kept [OF assms(1), unfolded bind_assoc [symmetric]]], auto intro!: stopped down life_ok_throw)
qed

lemma life_stop_kept:
  "steady P \<Longrightarrow> (\<And>l. P l \<Longrightarrow> J (LStopping i) l) \<Longrightarrow> life_ok J B P (life_stop wd i reason held caller) (\<lambda>d l. P l \<and> known_row d l)"
  unfolding life_stop_def by (intro lease_ok turn_ok stop_locked_kept)

section \<open>Creating\<close>

lemma note_first: "act_case (act_bind (life_note e) (\<lambda>_. a)) h f = act_bind (life_note e) (\<lambda>_. act_case a h f)"
  by (simp add: act_bind_def act_case_def life_note_def fun_eq_iff)

lemma update_failed_kept:
  assumes "steady P" "\<And>l. P l \<Longrightarrow> known_row c l"
  shows "life_ok J B P (update_failed wd c) (\<lambda>_. P)"
  unfolding update_failed_def
proof (rule life_ok_bind [OF life_ok_post [OF now_kept [OF assms(1)], where Q' = "\<lambda>_. P"]], goal_cases)
  case (2 now)
  have "known_row c l \<Longrightarrow> known_row (failed_container c now) l" for l
    by (rule known_row_same) (simp_all add: same_row_def failed_container_def)
  with assms show ?case by (intro update_kept) (auto simp: row_derived_def failed_container_def)
qed simp

text \<open>The log after the rows were listed below the limits of the policy.\<close>

lemma reserve_new_kept:
  assumes P: "steady P" and limits: "within_capacity policy rows = Inr ()"
  shows "life_ok J B (\<lambda>l. \<exists>l0. l = LRows rows # LPolicy policy # l0 \<and> P l0)
     (reserve_new wd userId appId policy target) (\<lambda>r. reserved_state P userId r)"
  unfolding reserve_new_def Let_def
proof (rule life_ok_bind [OF life_ok_fresh_id], rule life_ok_bind [OF life_ok_call])
  fix i providerId
  let ?listed = "\<lambda>l. \<exists>l0. l = LRows rows # LPolicy policy # l0 \<and> P l0"
  let ?reserved = "\<lambda>l. \<exists>m l0. l = m @ l0 \<and> set m \<subseteq> {LReserved i} \<and> ?listed l0"
  have quota: "life_ok J B ?listed (reserve_quota wd i userId providerId policy) (\<lambda>_. ?reserved)"
  proof (rule life_okI)
    fix s s' r assume s: "life_good J B s" "?listed (lr_log s)" "reserve_quota wd i userId providerId policy s = (s', r)"
    have asked: "life_ok J B ?listed (act_bind (life_quota wd f) (\<lambda>_. act_bind (life_note (LReserved i)) (\<lambda>_. act_ret True))) (\<lambda>_. ?reserved)"
      for f :: "nat \<Rightarrow> quota_state \<Rightarrow> quota_state \<times> (quota_error, quota_reservation) res"
      by (rule life_ok_bind [OF life_ok_quota], rule life_ok_bind [OF note_free], simp, rule life_ok_ret)
        (elim exE conjE, rule_tac x = "[LReserved i]" in exI, simp)
    have none: "?reserved (lr_log s)" using s(2) by (elim exE) (rule exI [of _ "[]"], simp)
    show "life_good J B s' \<and> (\<exists>l. lr_log s' = l @ lr_log s) \<and> (\<forall>x. r = Inr x \<longrightarrow> ?reserved (lr_log s'))"
    proof (cases "lr_quota s = None \<or> parse_memory_bytes (pp_memory policy) = None \<or> parse_cpu_millis (pp_cpus policy) = None")
      case True
      then have "s' = s" using s(3) by (auto simp: reserve_quota_def split: option.splits if_splits)
      with s(1) none show ?thesis by simp
    next
      case False
      then obtain memoryBytes cpuMillis where
        "parse_memory_bytes (pp_memory policy) = Some memoryBytes" "parse_cpu_millis (pp_cpus policy) = Some cpuMillis" "lr_quota s \<noteq> None"
        by auto
      with s(3) have run: "act_bind (life_quota wd (\<lambda>n q. quota_reserve q (lw_wall wd n)
            (quota_request_for i userId providerId cpuMillis memoryBytes (pp_pidsLimit policy))))
            (\<lambda>_. act_bind (life_note (LReserved i)) (\<lambda>_. act_ret True)) s = (s', r)"
        by (simp add: reserve_quota_def)
      from life_okD [OF asked s(1,2) run] show ?thesis by blast
    qed
  qed
  have grown: "P l" if "?reserved l" for l
    using that by (elim exE conjE) (simp add: steady_append [OF P] steadyD [OF P])
  show "life_ok J B ?listed (act_bind (reserve_quota wd i userId providerId policy) (\<lambda>quotaReserved.
      act_bind (life_now wd) (\<lambda>now.
        act_case (life_save wd (pending_row i userId appId providerId target now))
          (\<lambda>e. act_bind (if quotaReserved then release_quota wd i else act_ret ()) (\<lambda>_. act_throw e))
          (\<lambda>_. act_ret \<lparr>rv_id = i, rv_policy = policy, rv_pending = pending_row i userId appId providerId target now,
                        rv_launchTarget = target, rv_quotaReserved = quotaReserved\<rparr>))))
     (\<lambda>r. reserved_state P userId r)"
  proof (rule life_ok_bind [OF quota], rule life_ok_bind [OF now_exact], unfold life_save_def note_first, rule life_ok_bind [OF note_free])
    fix quotaReserved now
    let ?c = "pending_row i userId appId providerId target now"
    let ?saved = "\<lambda>l. \<exists>l0. l = LSaving ?c # l0 \<and> (\<exists>l1. l0 = LClock now # l1 \<and> ?reserved l1)"
    let ?kept = "\<lambda>l. P l \<and> LSaving ?c \<in> set l"
    have kept: "?kept l" if "?saved l" for l
    proof -
      from that obtain l1 where l: "l = LSaving ?c # LClock now # l1" and r: "?reserved l1" by blast
      from grown [OF r] have "P l" unfolding l by (intro steadyD [OF P])
      with l show ?thesis by simp
    qed
    have sk: "steady ?kept" by (intro steady_conj P steady_mem)
    have free: "quota_free i l" if "?kept l" for l
      using that by (auto simp: quota_free_def pending_row_def)
    have state: "reserved_state P userId \<lparr>rv_id = i, rv_policy = policy, rv_pending = ?c, rv_launchTarget = target, rv_quotaReserved = quotaReserved\<rparr> l"
      if s: "?saved l" for l
    proof -
      from s obtain m l0 where l: "l = LSaving ?c # LClock now # m @ LRows rows # LPolicy policy # l0" and m: "set m \<subseteq> {LReserved i}"
        by blast
      have "creation_granted rq l" if "pv_instanceId rq = i" "pv_ownerId rq = userId" "pv_appId rq = appId" for rq
        unfolding creation_granted_def
        by (intro exI [of _ ?c] exI [of _ now] exI [of _ m] exI [of _ rows] exI [of _ policy] exI [of _ l0] conjI l)
          (use m limits that in \<open>auto simp: pending_row_def within_capacity_def split: if_splits\<close>)
      with kept [OF s] free show ?thesis
        by (auto simp: reserved_state_def intro: known_row_saved) (simp add: pending_row_def)
    qed
    have release: "life_ok J B ?kept (act_bind (if quotaReserved then release_quota wd i else act_ret ()) (\<lambda>_. act_throw e)) Q" for e Q
      by (rule life_ok_bind [where Q = "\<lambda>_. ?kept"]) (auto intro!: life_ok_ret life_ok_throw release_kept sk free)
    show "life_ok J B ?saved
       (act_case (life_write wd (\<lambda>_ m. case save_container m ?c of (m', Inl e) \<Rightarrow> (m', Inl (LifeStore e)) | (m', Inr ()) \<Rightarrow> (m', Inr ())))
          (\<lambda>e. act_bind (if quotaReserved then release_quota wd i else act_ret ()) (\<lambda>_. act_throw e))
          (\<lambda>_. act_ret \<lparr>rv_id = i, rv_policy = policy, rv_pending = ?c, rv_launchTarget = target, rv_quotaReserved = quotaReserved\<rparr>))
       (\<lambda>r. reserved_state P userId r)"
      by (rule life_ok_case [OF life_ok_write sk kept release]) (assumption, rule life_ok_ret, rule state)
  qed simp
qed

lemma reserve_provision_kept:
  assumes P: "steady P"
  shows "life_ok J B P (reserve_provision wd userId appId authorize)
    (\<lambda>out l. case out of AlreadyThere c \<Rightarrow> P l \<and> known_row c l | NewlyReserved r \<Rightarrow> reserved_state P userId r l)"
proof -
  let ?Q = "\<lambda>out l. case out of AlreadyThere c \<Rightarrow> P l \<and> known_row c l | NewlyReserved r \<Rightarrow> reserved_state P userId r l"
  have new: "life_ok J B (\<lambda>l. \<exists>l0. l = LRows rows # LPolicy policy # l0 \<and> P l0)
      (act_bind (act_of (within_capacity policy rows)) (\<lambda>_. act_bind (reserve_new wd userId appId policy target) (\<lambda>r. act_ret (NewlyReserved r)))) ?Q"
    for policy rows target
  proof (cases "within_capacity policy rows")
    case (Inr u)
    then have "within_capacity policy rows = Inr ()" by simp
    from reserve_new_kept [OF P this] show ?thesis
      by (auto simp: Inr act_of_def intro!: life_ok_bind life_ok_ret)
  qed (auto simp: act_of_def act_bind_def act_case_def act_throw_def life_ok_def)
  have authorized: "life_ok J B P (authorize_app wd authorize appId) (\<lambda>_. P)"
    unfolding authorize_app_def by (auto split: option.split intro: life_ok_ret life_ok_call)
  have live: "life_ok J B P (no_live_workspace wd userId) (\<lambda>_. P)"
    unfolding no_live_workspace_def by (rule life_ok_bind [OF life_ok_read]) (auto intro: life_ok_ret life_ok_throw)
  have listed: "life_ok J B P (act_bind (life_policy wd) (\<lambda>policy. act_bind (life_call wd (\<lambda>n. lw_target wd n appId)) (\<lambda>target.
         act_bind (life_containers wd) (\<lambda>rows. act_bind (act_of (within_capacity policy rows)) (\<lambda>_.
         act_bind (reserve_new wd userId appId policy target) (\<lambda>r. act_ret (NewlyReserved r))))))) ?Q"
  proof (rule life_ok_bind [OF policy_exact], rule life_ok_bind [OF life_ok_call], rule life_ok_bind [OF containers_exact], rule life_ok_pre [OF new])
    fix policy target rows l
    assume "\<exists>l0. l = LRows rows # l0 \<and> (\<exists>l1. l0 = LPolicy policy # l1 \<and> P l1)"
    then show "\<exists>l0. l = LRows rows # LPolicy policy # l0 \<and> P l0" by blast
  qed
  have "life_ok J B (\<lambda>l. P l \<and> (\<forall>c. r = Some c \<longrightarrow> known_row c l))
     (case r of Some c \<Rightarrow> act_ret (AlreadyThere c)
      | None \<Rightarrow> act_bind (no_live_workspace wd userId) (\<lambda>_. act_bind (authorize_app wd authorize appId) (\<lambda>_.
         act_bind (life_policy wd) (\<lambda>policy. act_bind (life_call wd (\<lambda>n. lw_target wd n appId)) (\<lambda>target.
         act_bind (life_containers wd) (\<lambda>rows. act_bind (act_of (within_capacity policy rows)) (\<lambda>_.
         act_bind (reserve_new wd userId appId policy target) (\<lambda>r. act_ret (NewlyReserved r))))))))) ?Q" for r
    by (cases r) (auto intro: life_ok_ret life_ok_bind [OF live] life_ok_bind [OF authorized] listed)
  then show ?thesis
    unfolding reserve_provision_def by (intro global_ok) (rule life_ok_bind [OF container_for_user_kept [OF P]])
qed

lemma create_kept:
  assumes P: "steady P"
  shows "life_ok J B (reserved_state P userId r) (create_instance wd userId r) (\<lambda>c. P)"
proof -
  let ?rq = "provision_request_for wd userId r"
  let ?K = "\<lambda>l. P l \<and> known_row (rv_pending r) l \<and> quota_free (rv_id r) l"
  have K: "steady ?K" by (intro steady_conj P steady_known steady_free)
  have granted: "reserved_state P userId r l \<Longrightarrow> J (LProvisioning ?rq) l" for l
    by (rule provisioning) (simp add: reserved_state_def provision_request_for_def)
  have failed: "life_ok J B ?K (act_bind (act_finally (update_failed wd (rv_pending r))
      (if rv_quotaReserved r then release_quota wd (rv_id r) else act_ret ())) (\<lambda>_. act_throw e)) (\<lambda>c. P)" for e
  proof -
    define rel where "rel = (if rv_quotaReserved r then release_quota wd (rv_id r) else act_ret ())"
    have rel: "life_ok J B ?K rel (\<lambda>_. ?K)"
      using release_kept [OF K, of "rv_id r" wd] by (auto simp: rel_def intro: life_ok_ret)
    have upd: "life_ok J B ?K (update_failed wd (rv_pending r)) (\<lambda>_. ?K)" by (rule update_failed_kept [OF K]) simp
    have "life_ok J B ?K (act_finally (update_failed wd (rv_pending r)) rel) (\<lambda>_ _. True)"
      unfolding act_finally_def
      by (rule life_ok_case [OF upd K]) (auto intro!: life_ok_bind [OF rel] life_ok_throw life_ok_ret)
    then show ?thesis unfolding rel_def by (rule life_ok_bind) (rule life_ok_throw)
  qed
  have built: "life_ok J B ?K (act_bind (life_instance wd (\<lambda>n. lw_provision wd n ?rq)) (\<lambda>x.
          persist_instance wd (rv_pending r) x (c_stopReason (rv_pending r)) None None)) (\<lambda>c. P)"
  proof (rule life_ok_bind [OF instance_kept [OF K]])
    show "life_ok J B (\<lambda>l. ?K l \<and> LObserved x \<in> set l)
        (persist_instance wd (rv_pending r) x (c_stopReason (rv_pending r)) None None) (\<lambda>c. P)" for x
      by (rule life_ok_post [OF persist_kept]) (use K P in \<open>auto intro!: steady_conj steady_mem\<close>)
  qed
  have tried: "life_ok J B (\<lambda>l. \<exists>l0. l = LProvisioning ?rq # l0 \<and> reserved_state P userId r l0)
     (act_case (act_bind (life_instance wd (\<lambda>n. lw_provision wd n ?rq)) (\<lambda>x.
          persist_instance wd (rv_pending r) x (c_stopReason (rv_pending r)) None None))
       (\<lambda>e. act_bind (act_finally (update_failed wd (rv_pending r))
               (if rv_quotaReserved r then release_quota wd (rv_id r) else act_ret ())) (\<lambda>_. act_throw e))
       act_ret) (\<lambda>c. P)"
  proof (rule life_ok_pre [OF life_ok_case [OF built K _ failed]])
    fix l assume "\<exists>l0. l = LProvisioning ?rq # l0 \<and> reserved_state P userId r l0"
    then obtain l0 where l: "l = LProvisioning ?rq # l0" and "?K l0" by (auto simp: reserved_state_def)
    then show "?K l" unfolding l by (intro steadyD [OF K])
  qed (auto intro: life_ok_ret)
  show ?thesis
    unfolding create_instance_def note_first bind_assoc
    by (rule life_ok_bind [OF life_ok_note], rule granted, assumption, rule life_ok_bind [OF tried], rule life_ok_bind [OF initialized_kept])
      (auto intro: life_ok_ret)
qed

lemma return_existing_kept:
  assumes "steady P" "\<And>l. P l \<Longrightarrow> known_row c l"
  shows "life_ok J B P (return_existing wd c userId b) (\<lambda>c. P)"
  unfolding return_existing_def
  by (rule life_ok_bind [OF life_ok_post [OF creation_kept [OF assms], where Q' = "\<lambda>_. P"]], assumption, simp,
      rule life_ok_bind [OF initialized_kept], rule life_ok_bind [OF life_ok_post [OF life_sync_kept [OF assms(1)], where Q' = "\<lambda>_. P"]])
    (auto intro: life_ok_ret life_ok_post [OF life_start_kept [OF assms(1)]])

lemma provision_locked_kept:
  assumes P: "steady P"
  shows "life_ok J B P (provision_locked wd userId appId b authorize) (\<lambda>c. P)"
proof -
  have ex: "life_ok J B (\<lambda>l. P l \<and> known_row c l) (act_bind (return_existing wd c userId b) (\<lambda>c. act_ret (c, False))) (\<lambda>c. P)" for c
    by (rule life_ok_bind [OF return_existing_kept]) (use P in \<open>auto intro!: steady_conj steady_known life_ok_ret\<close>)
  have out: "life_ok J B (\<lambda>l. case out of AlreadyThere c \<Rightarrow> P l \<and> known_row c l | NewlyReserved r \<Rightarrow> reserved_state P userId r l)
      (case out of AlreadyThere c \<Rightarrow> act_bind (return_existing wd c userId b) (\<lambda>c. act_ret (c, False))
       | NewlyReserved r \<Rightarrow> act_bind (create_instance wd userId r) (\<lambda>c. act_ret (c, True))) (\<lambda>c. P)" for out
    by (cases out) (auto intro!: ex life_ok_bind [OF create_kept [OF P]] life_ok_ret)
  have live: "life_ok J B P (no_live_workspace wd userId) (\<lambda>_. P)"
    unfolding no_live_workspace_def by (rule life_ok_bind [OF life_ok_read]) (auto intro: life_ok_ret life_ok_throw)
  have "life_ok J B (\<lambda>l. P l \<and> (\<forall>c. r = Some c \<longrightarrow> known_row c l))
     (case r of Some c \<Rightarrow> act_bind (return_existing wd c userId b) (\<lambda>c. act_ret (c, False))
      | None \<Rightarrow> act_bind (no_live_workspace wd userId) (\<lambda>_. act_bind (reserve_provision wd userId appId authorize) (\<lambda>outcome.
         case outcome of AlreadyThere c \<Rightarrow> act_bind (return_existing wd c userId b) (\<lambda>c. act_ret (c, False))
         | NewlyReserved r \<Rightarrow> act_bind (create_instance wd userId r) (\<lambda>c. act_ret (c, True))))) (\<lambda>c. P)" for r
    by (cases r) (auto intro!: ex life_ok_bind [OF live] life_ok_bind [OF reserve_provision_kept [OF P]] out)
  then show ?thesis
    unfolding provision_locked_def by (rule life_ok_bind [OF container_for_user_kept [OF P]])
qed

lemma provision_kept: "steady P \<Longrightarrow> life_ok J B P (provision_for_user wd userId appId b authorize) (\<lambda>c. P)"
  unfolding provision_for_user_def by (intro turn_ok provision_locked_kept)

lemma ensure_kept:
  assumes P: "steady P"
  shows "life_ok J B P (ensure_default wd u authorize) (\<lambda>_. P)"
proof -
  have ex: "life_ok J B (\<lambda>l. P l \<and> known_row c l) (act_bind (return_existing wd c (u_id u) False) (\<lambda>c. act_ret (EnsuredExisting c))) (\<lambda>c. P)" for c
    by (rule life_ok_bind [OF return_existing_kept]) (use P in \<open>auto intro!: steady_conj steady_known life_ok_ret\<close>)
  have live: "life_ok J B P (no_live_workspace wd (u_id u)) (\<lambda>_. P)"
    unfolding no_live_workspace_def by (rule life_ok_bind [OF life_ok_read]) (auto intro: life_ok_ret life_ok_throw)
  have new: "life_ok J B P (act_bind (life_policy wd) (\<lambda>policy.
              if \<not> pp_autoCreateOnFirstVisit policy then act_ret AutoCreateDisabled
              else act_bind (provision_locked wd v (pp_defaultAppId policy) False authorize)
                (\<lambda>(c, created). act_ret (if created then EnsuredCreated c else EnsuredExisting c)))) (\<lambda>_. P)" for v
    by (rule life_ok_bind [OF life_ok_post [OF policy_kept [OF P], where Q' = "\<lambda>_. P"]])
      (auto intro!: life_ok_ret life_ok_bind [OF provision_locked_kept [OF P]] split: prod.split)
  have "life_ok J B (\<lambda>l. P l \<and> (\<forall>c. r = Some c \<longrightarrow> known_row c l))
     (case r of
       Some c \<Rightarrow> act_bind (return_existing wd c (u_id u) False) (\<lambda>c. act_ret (EnsuredExisting c))
     | None \<Rightarrow>
         act_bind (no_live_workspace wd (u_id u)) (\<lambda>_.
         act_bind (life_read wd (\<lambda>m. Inr (get_user m (u_id u)))) (\<lambda>stored.
         let currentUser = (case stored of Some u' \<Rightarrow> u' | None \<Rightarrow> u)
         in if u_appInitializedAt currentUser \<noteq> None then act_ret AlreadyInitialized
            else act_bind (life_policy wd) (\<lambda>policy.
              if \<not> pp_autoCreateOnFirstVisit policy then act_ret AutoCreateDisabled
              else act_bind (provision_locked wd (u_id currentUser) (pp_defaultAppId policy) False authorize)
                (\<lambda>(c, created). act_ret (if created then EnsuredCreated c else EnsuredExisting c)))))) (\<lambda>_. P)" for r
    unfolding Let_def
    by (cases r) (auto intro!: ex life_ok_bind [OF live] life_ok_bind [OF life_ok_read] life_ok_ret new)
  then show ?thesis
    unfolding ensure_default_def by (intro turn_ok) (rule life_ok_bind [OF container_for_user_kept [OF P]])
qed

end

end
