(* ===== verification/Lifecycle_Safety.thy ===== *)
theory Lifecycle_Safety
  imports Lifecycle_Rules
begin

text \<open>
  What the instance lifecycle guarantees in every world: for every interference of other
  processes, every answer of the runtime and every failure of the store, the catalog, the quota
  ledger or the audit. First the rules for rebuilding, removing and the idle sweep, then the two
  ways to justify events, and the guarantees.
\<close>

section \<open>What justifies stopping an idle instance\<close>

definition quiet_sample :: "(string, activity_baseline) js_map \<Rightarrow> provisioning_policy \<Rightarrow> string \<Rightarrow> life_event list \<Rightarrow> bool" where
  "quiet_sample B policy i past \<longleftrightarrow>
     (\<exists>b s. (js_get B i = Some b \<or> LSampled i b \<in> set past) \<and> LSampled i s \<in> set past
        \<and> \<not> load_active policy b (bl_sampledAt s) (bl_load s))"

definition idle_granted :: "(string, activity_baseline) js_map \<Rightarrow> string \<Rightarrow> life_event list \<Rightarrow> bool" where
  "idle_granted B i past \<longleftrightarrow>
     (\<exists>c k policy t a. LRow k c \<in> set past \<and> LPolicy policy \<in> set past \<and> LClock t \<in> set past
        \<and> c_id c = i \<and> c_status c = Running \<and> pp_idleStopMinutes policy \<noteq> 0
        \<and> last_activity c = Some a \<and> a \<le> t - pp_idleStopMinutes policy * 60000
        \<and> (pp_detectNetworkActivity policy \<or> pp_detectComputeActivity policy \<longrightarrow> quiet_sample B policy i past))"

lemma steady_quiet [intro!]: "steady (quiet_sample B policy i)"
  unfolding steady_def quiet_sample_def by (metis list.set_intros(2))

section \<open>Rebuilding, removing and sweeping\<close>

context life_rules begin

lemma goal_kept: "life_ok J B P (rebuild_goal_for wd opts c) (\<lambda>_. P)"
  unfolding rebuild_goal_for_def
  by (auto split: option.split intro!: life_ok_ret life_ok_throw life_ok_bind [OF life_ok_call])

lemma source_kept:
  assumes "steady P" "\<And>l. P l \<Longrightarrow> known_row c l"
  shows "life_ok J B P (rebuild_source wd sig opts c) (\<lambda>d l. P l \<and> known_row d l)"
  unfolding rebuild_source_def
  using assms
  by (auto intro!: life_ok_ret life_ok_throw life_ok_case [OF sync_kept assms(1)])

lemma profile_kept: "steady P \<Longrightarrow> life_ok J B P (rebuild_profile wd opts r) (\<lambda>_. P)"
  unfolding rebuild_profile_def
  by (auto split: option.split intro!: life_ok_ret life_ok_bind [OF policy_kept])

lemma committed_kept:
  assumes P: "steady P" and known: "\<And>l. P l \<Longrightarrow> known_row current l" and stopping: "\<And>i l. J (LStopping i) l"
  shows "life_ok J B P (rebuild_committed wd sig i rebuild current goal es rq run) (\<lambda>_. P)"
proof -
  let ?target = "current\<lparr>c_appVersionId := rg_appVersionId goal, c_imageArtifactId := rg_imageArtifactId goal,
                  c_imageReference := rg_imageReference goal\<rparr>"
  have target: "P l \<Longrightarrow> known_row ?target l" for l
    by (rule known_row_same [OF _ known]) (simp_all add: same_row_def)
  have noted: "life_ok J B P (life_note (LRebuilding rq)) (\<lambda>_. P)"
    by (rule life_ok_post [OF note_kept [OF free P]]) simp_all
  have stop: "life_ok J B (\<lambda>l. P l \<and> LObserved built \<in> set l)
     (if \<not> run \<and> cx_state built = Running
      then act_bind (life_note (LStopping k)) (\<lambda>_. life_instance wd f) else act_ret built)
     (\<lambda>x l. P l \<and> LObserved x \<in> set l)" for built k f
  proof -
    have "life_ok J B P (act_bind (life_note (LStopping k)) (\<lambda>_. life_instance wd f)) (\<lambda>x l. P l \<and> LObserved x \<in> set l)"
      by (rule life_ok_bind [OF life_ok_post [OF note_kept [OF stopping P], where Q' = "\<lambda>_. P"]], simp, rule instance_kept [OF P])
    then show ?thesis by (auto intro: life_ok_ret life_ok_pre)
  qed
  have checked: "life_ok J B Q (case cx_catalogSnapshot x of
          Some r \<Rightarrow> if catalog_snapshots_equal r es then act_ret () else act_throw (LifecycleError LcCatalogMismatch)
        | None \<Rightarrow> act_ret ()) (\<lambda>_. Q)" for x Q
    by (auto split: option.split intro: life_ok_ret life_ok_throw)
  have persist: "life_ok J B (\<lambda>l. P l \<and> LObserved x \<in> set l)
      (persist_instance wd ?target x (c_stopReason current) (Some (if run then WantRunning else WantStopped)) (Some es)) (\<lambda>_. P)" for x
    by (rule life_ok_post [OF persist_kept]) (use P target in \<open>auto intro!: steady_conj steady_mem\<close>)
  show ?thesis
    unfolding rebuild_committed_def
    by (rule life_ok_bind [OF noted], rule life_ok_bind [OF instance_kept [OF P]], rule life_ok_bind [OF life_ok_throw_if], rule life_ok_bind [OF stop],
       rule life_ok_bind [OF life_ok_throw_if], rule life_ok_bind [OF checked], rule life_ok_bind [OF persist],
       rule life_ok_bind [OF life_ok_forget], rule life_ok_bind [OF audit_kept [OF P]], rule life_ok_ret)
qed

lemma recovery_kept:
  assumes P: "steady P" and known: "\<And>l. P l \<Longrightarrow> known_row current l"
  shows "life_ok J B P (rebuild_recovery wd sig current es e) (\<lambda>_. P)"
proof -
  have found: "life_ok J B P (case e of
        RebuildRolledBack x \<Rightarrow> act_bind (life_note (LObserved x)) (\<lambda>_. act_ret (Some x))
      | _ \<Rightarrow> life_find_instance wd (\<lambda>n. lw_get wd n (c_id current))) (\<lambda>r l. P l \<and> (\<forall>x. r = Some x \<longrightarrow> LObserved x \<in> set l))"
  proof -
    have "life_ok J B P (act_bind (life_note (LObserved x)) (\<lambda>_. act_ret (Some x)))
        (\<lambda>r l. P l \<and> (\<forall>x. r = Some x \<longrightarrow> LObserved x \<in> set l))" for x
      by (rule life_ok_bind [OF note_free]) (use P in \<open>auto simp: steady_def intro!: life_ok_ret\<close>)
    then show ?thesis using find_instance_kept [OF P] by (cases e) simp_all
  qed
  have persist: "life_ok J B (\<lambda>l. P l \<and> LObserved x \<in> set l)
      (act_bind (persist_instance wd current x sr ex s) (\<lambda>_. act_ret ())) (\<lambda>_. P)" for x sr ex s
    by (rule life_ok_bind [OF persist_kept]) (use P known in \<open>auto intro!: steady_conj steady_mem life_ok_ret\<close>)
  have "life_ok J B (\<lambda>l. P l \<and> (\<forall>x. r = Some x \<longrightarrow> LObserved x \<in> set l))
     (case r of None \<Rightarrow> update_failed wd current
      | Some x \<Rightarrow> if cx_ownerId x \<noteq> c_userId current \<or> foreign_snapshot current x es then update_failed wd current
         else act_bind (persist_instance wd current x (c_stopReason current) None
             (Some (case cx_catalogSnapshot x of Some r \<Rightarrow> r | None \<Rightarrow> es))) (\<lambda>_. act_ret ())) (\<lambda>_. P)" for r
    by (cases r) (auto intro: persist life_ok_pre [OF update_failed_kept [OF P known]])
  then show ?thesis unfolding rebuild_recovery_def by (rule life_ok_bind [OF found])
qed

lemma rebuild_failed_kept:
  assumes P: "steady P" and known: "\<And>l. P l \<Longrightarrow> known_row current l"
  shows "life_ok J B P (rebuild_failed wd sig current es e) (\<lambda>_. P)"
proof -
  have "life_ok J B P (act_try (rebuild_recovery wd sig current es e)
        (\<lambda>_. act_bind (life_throw_if sig) (\<lambda>_. update_failed wd current))) (\<lambda>_. P)"
    unfolding act_try_def
    by (rule life_ok_case [OF recovery_kept [OF P known] P])
      (auto intro!: life_ok_ret life_ok_bind [OF life_ok_throw_if] update_failed_kept [OF P known])
  then show ?thesis
    unfolding rebuild_failed_def by (intro life_ok_bind [OF life_ok_throw_if] life_ok_bind life_ok_throw)
qed

lemma rebuild_to_kept:
  assumes P: "steady P" and known: "\<And>l. P l \<Longrightarrow> known_row current l" and stopping: "\<And>i l. J (LStopping i) l"
  shows "life_ok J B P (rebuild_to wd sig i opts b rebuild current) (\<lambda>_. P)"
proof -
  have "life_ok J B P (act_case (rebuild_committed wd sig i rebuild current goal es rq run) (rebuild_failed wd sig current es) act_ret) (\<lambda>_. P)"
    for goal es rq run
    by (rule life_ok_case [OF committed_kept [OF P known stopping] P _ rebuild_failed_kept [OF P known]]) (auto intro: life_ok_ret)
  then show ?thesis
    unfolding rebuild_to_def Let_def
    by (auto intro!: life_ok_bind [OF goal_kept] life_ok_throw life_ok_bind [OF assert_catalog_kept] life_ok_bind [OF profile_kept [OF P]])
qed

lemma rebuild_kept:
  assumes P: "steady P" and stopping: "\<And>i l. J (LStopping i) l"
  shows "life_ok J B P (life_rebuild wd i opts held caller) (\<lambda>_. P)"
proof -
  have source: "life_ok J B (\<lambda>l. P l \<and> known_row c l) (rebuild_source wd sig opts c) (\<lambda>d l. P l \<and> known_row d l)" for sig c
    by (rule life_ok_post [OF source_kept]) (use P in \<open>auto intro!: steady_conj steady_known\<close>)
  have target: "life_ok J B (\<lambda>l. P l \<and> known_row c l) (rebuild_to wd sig i opts b rebuild c) (\<lambda>_. P)" for sig b rebuild c
    by (rule life_ok_post [OF rebuild_to_kept]) (use P stopping in \<open>auto intro!: steady_conj steady_known\<close>)
  have settled: "life_ok J B (\<lambda>l. P l \<and> LRow i c \<in> set l \<and> known_row c l) (wait_for_creation wd sig c) (\<lambda>c l. P l \<and> known_row c l)" for sig c
    by (rule life_ok_post [OF creation_kept]) (use P in \<open>auto intro!: steady_conj steady_known steady_mem\<close>)
  show ?thesis
    unfolding life_rebuild_def rebuild_locked_def
    by (intro lease_ok turn_ok global_ok life_ok_bind [OF life_ok_throw_if])
      (auto split: option.split intro!: life_ok_throw life_ok_bind [OF current_kept [OF P]]
        life_ok_bind [OF settled] life_ok_bind [OF source] target)
qed

lemma after_removal_kept:
  assumes P: "steady P" and gone: "\<And>l. P l \<Longrightarrow> quota_free i l"
  shows "life_ok J B P (after_removal wd i owner) (\<lambda>_. P)"
  unfolding after_removal_def
  by (rule life_ok_bind [OF release_kept [OF P gone]], assumption, rule life_ok_bind [OF life_ok_forget],
      rule life_ok_bind [OF initialized_kept], rule audit_kept [OF P])

lemma remove_workspace_kept:
  assumes P: "steady P"
  shows "life_ok J B P (remove_workspace wd sig i f) (\<lambda>_. P)"
proof -
  have "life_ok J B (\<lambda>l. P l \<and> LWorkspaceDeleted i owner \<in> set l) (after_removal wd i owner) (\<lambda>_. P)" for owner
    by (rule life_ok_post [OF after_removal_kept]) (use P in \<open>auto intro!: steady_conj steady_mem simp: quota_free_def\<close>)
  moreover have "life_ok J B P (life_note (LWorkspaceDeleted i owner)) (\<lambda>_ l. P l \<and> LWorkspaceDeleted i owner \<in> set l)" for owner
    by (rule note_kept [OF free P]) simp
  ultimately show ?thesis
    unfolding remove_workspace_def
    by (intro turn_ok global_ok life_ok_bind [OF life_ok_throw_if] life_ok_bind [OF life_ok_call]) (rule life_ok_bind)
qed

lemma remove_instance_kept:
  assumes P: "steady P"
  shows "life_ok J B P (remove_instance wd sig i) (\<lambda>_. P)"
proof -
  have row: "life_ok J B P (current_container wd sig i) (\<lambda>_. P)"
    by (rule life_ok_post [OF current_kept [OF P]]) simp
  have settled: "life_ok J B (\<lambda>l. P l \<and> LRow i c \<in> set l \<and> known_row c l) (wait_for_creation wd sig c) (\<lambda>c l. P l \<and> known_row c l)" for c
    by (rule life_ok_post [OF creation_kept]) (use P in \<open>auto intro!: steady_conj steady_known steady_mem\<close>)
  have removed: "life_ok J B (\<lambda>l. P l \<and> known_row c l) (life_note (LRemoved i (c_userId c)))
      (\<lambda>_ l. P l \<and> LRemoved i (c_userId c) \<in> set l)" for c
    by (rule life_ok_post [OF note_kept]) (use P removed in \<open>auto intro!: steady_conj steady_known\<close>)
  have deleted: "life_ok J B (\<lambda>l. P l \<and> LRemoved i owner \<in> set l) (life_note (LRowDeleted i))
      (\<lambda>_ l. P l \<and> LRowDeleted i \<in> set l)" for owner
    by (rule life_ok_post [OF note_kept]) (use P row_deleted in \<open>auto intro!: steady_conj steady_mem\<close>)
  have after: "life_ok J B (\<lambda>l. P l \<and> LRowDeleted i \<in> set l) (after_removal wd i owner) (\<lambda>_. P)" for owner
    by (rule life_ok_post [OF after_removal_kept]) (use P in \<open>auto intro!: steady_conj steady_mem simp: quota_free_def\<close>)
  show ?thesis
    unfolding remove_instance_def
    by (rule life_ok_bind [OF row], intro turn_ok global_ok, rule life_ok_bind [OF existing_kept [OF P]], rule life_ok_bind [OF settled],
        rule life_ok_bind [OF life_ok_throw_if], rule life_ok_bind [OF life_ok_call], rule life_ok_bind [OF removed],
        rule life_ok_bind [OF life_ok_throw_if], rule life_ok_bind [OF life_ok_write], rule life_ok_bind [OF deleted], rule after)
qed

lemma remove_kept: "steady P \<Longrightarrow> life_ok J B P (life_remove wd i held caller) (\<lambda>_. P)"
  unfolding life_remove_def
  by (rule lease_ok) (auto split: option.split intro: remove_workspace_kept remove_instance_kept)

text \<open>
  The sweep stops an instance only after reading its row as running with old activity and, where
  activity is to be detected, after a sample that shows none.
\<close>

lemma observe_kept:
  assumes P: "steady P"
  shows "life_ok J B P (observe_activity wd i policy sig)
    (\<lambda>active l. P l \<and> (\<not> active \<longrightarrow> quiet_sample B policy i l))"
proof -
  let ?Q = "\<lambda>active l. P l \<and> (\<not> active \<longrightarrow> quiet_sample B policy i l)"
  have set: "life_ok J B P (\<lambda>s. (s\<lparr>lr_baselines := js_set (lr_baselines s) i b, lr_log := LSampled i b # lr_log s\<rparr>,
         Inr (js_get (lr_baselines s) i)))
      (\<lambda>previous l. P l \<and> LSampled i b \<in> set l \<and> (\<forall>p. previous = Some p \<longrightarrow> js_get B i = Some p \<or> LSampled i p \<in> set l))" for b
  proof (rule life_okI)
    fix s s' r assume s: "life_good J B s" "P (lr_log s)"
      "(s\<lparr>lr_baselines := js_set (lr_baselines s) i b, lr_log := LSampled i b # lr_log s\<rparr>, Inr (js_get (lr_baselines s) i)) = (s', r)"
    have base: "js_get (lr_baselines s) k = Some p \<Longrightarrow> js_get B k = Some p \<or> LSampled k p \<in> set (lr_log s)" for k p
      using s(1) by (auto simp: life_good_def baselines_sampled_def)
    have "baselines_sampled B (s\<lparr>lr_baselines := js_set (lr_baselines s) i b, lr_log := LSampled i b # lr_log s\<rparr>)"
      unfolding baselines_sampled_def
    proof (intro allI impI)
      fix k p assume "js_get (lr_baselines (s\<lparr>lr_baselines := js_set (lr_baselines s) i b, lr_log := LSampled i b # lr_log s\<rparr>)) k = Some p"
      then have "k = i \<and> p = b \<or> js_get (lr_baselines s) k = Some p" by (auto split: if_splits)
      with base show "js_get B k = Some p \<or> LSampled k p \<in> set (lr_log (s\<lparr>lr_baselines := js_set (lr_baselines s) i b, lr_log := LSampled i b # lr_log s\<rparr>))"
        by fastforce
    qed
    then have "life_good J B (s\<lparr>lr_baselines := js_set (lr_baselines s) i b, lr_log := LSampled i b # lr_log s\<rparr>)"
      using s(1) free [of "LSampled i b"] by (simp add: life_good_def)
    moreover have "\<forall>p. js_get (lr_baselines s) i = Some p \<longrightarrow> js_get B i = Some p \<or> LSampled i p \<in> set (LSampled i b # lr_log s)"
      using base by fastforce
    ultimately show "life_good J B s' \<and> (\<exists>l. lr_log s' = l @ lr_log s) \<and> (\<forall>x. r = Inr x \<longrightarrow>
        P (lr_log s') \<and> LSampled i b \<in> set (lr_log s') \<and> (\<forall>p. x = Some p \<longrightarrow> js_get B i = Some p \<or> LSampled i p \<in> set (lr_log s')))"
      using s(2,3) steadyD [OF P s(2)] by auto
  qed
  have touch: "life_ok J B R (act_bind (life_touch wd i t) (\<lambda>_. act_ret True)) ?Q" if "\<And>l. R l \<Longrightarrow> P l" for R t
    unfolding life_touch_def by (rule life_ok_bind [OF life_ok_write]) (use that in \<open>auto intro: life_ok_ret\<close>)
  have decided: "life_ok J B (\<lambda>l. P l \<and> LSampled i \<lparr>bl_sampledAt = t, bl_load = ld\<rparr> \<in> set l
       \<and> (\<forall>p. previous = Some p \<longrightarrow> js_get B i = Some p \<or> LSampled i p \<in> set l))
     (case previous of None \<Rightarrow> act_bind (life_touch wd i t) (\<lambda>_. act_ret True)
      | Some b \<Rightarrow> if load_active policy b t ld then act_bind (life_touch wd i t) (\<lambda>_. act_ret True) else act_ret False) ?Q"
    for previous t ld
  proof (cases "\<exists>b. previous = Some b \<and> \<not> load_active policy b t ld")
    case True
    then obtain b where b: "previous = Some b" "\<not> load_active policy b t ld" by blast
    have "life_ok J B (\<lambda>l. P l \<and> LSampled i \<lparr>bl_sampledAt = t, bl_load = ld\<rparr> \<in> set l
       \<and> (\<forall>p. previous = Some p \<longrightarrow> js_get B i = Some p \<or> LSampled i p \<in> set l)) (act_ret False) ?Q"
    proof (rule life_ok_ret, intro conjI impI)
      fix l assume l: "P l \<and> LSampled i \<lparr>bl_sampledAt = t, bl_load = ld\<rparr> \<in> set l
         \<and> (\<forall>p. previous = Some p \<longrightarrow> js_get B i = Some p \<or> LSampled i p \<in> set l)"
      then show "P l" by simp
      show "quiet_sample B policy i l"
        unfolding quiet_sample_def
        by (rule exI [of _ b], rule exI [of _ "\<lparr>bl_sampledAt = t, bl_load = ld\<rparr>"]) (use l b in simp)
    qed
    with b show ?thesis by simp
  next
    case False
    then show ?thesis by (cases previous) (auto intro: touch)
  qed
  show ?thesis
    unfolding observe_activity_def
    by (rule life_ok_bind [OF life_ok_throw_if], rule life_ok_bind [OF life_ok_post [OF now_kept [OF P], where Q' = "\<lambda>_. P"]], simp,
        rule life_ok_bind [OF life_ok_call], rule life_ok_bind [OF life_ok_throw_if])
      (auto split: option.split intro!: life_ok_throw life_ok_bind [OF set] decided)
qed

lemma sweep_running_kept:
  assumes P: "steady P" and stopping: "\<And>i l. idle_granted B i l \<Longrightarrow> J (LStopping i) l"
    and c: "\<And>l. P l \<Longrightarrow> LRow k c \<in> set l \<and> LPolicy policy \<in> set l \<and> LClock t \<in> set l"
    and on: "pp_idleStopMinutes policy \<noteq> 0" and running: "c_status c = Running"
  shows "life_ok J B P (sweep_running wd sig policy (t - pp_idleStopMinutes policy * 60000) c) (\<lambda>_. P)"
proof -
  let ?detect = "pp_detectNetworkActivity policy \<or> pp_detectComputeActivity policy"
  let ?idle = "\<lambda>l. P l \<and> (?detect \<longrightarrow> quiet_sample B policy (c_id c) l)"
  have sampled: "life_ok J B P (if ?detect then observe_activity wd (c_id c) policy sig
      else act_bind (forget_baseline (c_id c)) (\<lambda>_. act_ret False))
    (\<lambda>active l. P l \<and> (\<not> active \<and> ?detect \<longrightarrow> quiet_sample B policy (c_id c) l))"
    by (cases ?detect) (auto intro: life_ok_post [OF observe_kept [OF P]] life_ok_bind [OF life_ok_forget] life_ok_ret)
  have si: "steady ?idle" using P steady_quiet [of B policy "c_id c"] by (auto simp: steady_def)
  have granted: "J (LStopping (c_id c)) l" if "?idle l" "last_activity c = Some a" "a \<le> t - pp_idleStopMinutes policy * 60000" for a l
  proof (rule stopping)
    have events: "LRow k c \<in> set l" "LPolicy policy \<in> set l" "LClock t \<in> set l" using c that(1) by auto
    show "idle_granted B (c_id c) l"
      unfolding idle_granted_def
      by (intro exI [of _ c] exI [of _ k] exI [of _ policy] exI [of _ t] exI [of _ a] conjI events refl running on that(2,3))
        (use that(1) in simp)
  qed
  have stop: "life_ok J B ?idle (act_bind (stop_locked wd sig (c_id c) StopIdle) (\<lambda>_.
      act_case (life_audit wd ''container.idle_stop'' (c_id c)) (\<lambda>_. act_ret (True, True)) (\<lambda>_. act_ret (True, False)))) (\<lambda>_. P)"
    if "last_activity c = Some a" "a \<le> t - pp_idleStopMinutes policy * 60000" for a
  proof (rule life_ok_bind [OF life_ok_post [OF stop_locked_kept [OF si granted [OF _ that]], where Q' = "\<lambda>_. P"]])
    show "life_ok J B P (act_case (life_audit wd ''container.idle_stop'' (c_id c)) (\<lambda>_. act_ret (True, True)) (\<lambda>_. act_ret (True, False))) (\<lambda>_. P)"
      by (rule life_ok_case [OF audit_kept [OF P] P]) (auto intro: life_ok_ret)
  qed auto
  have quiet: "life_ok J B ?idle (case last_activity c of None \<Rightarrow> act_ret (False, False)
     | Some a \<Rightarrow> if a > t - pp_idleStopMinutes policy * 60000 then act_ret (False, False)
         else act_bind (stop_locked wd sig (c_id c) StopIdle) (\<lambda>_.
           act_case (life_audit wd ''container.idle_stop'' (c_id c)) (\<lambda>_. act_ret (True, True)) (\<lambda>_. act_ret (True, False)))) (\<lambda>_. P)"
    using stop by (auto split: option.split intro: life_ok_ret)
  show ?thesis
    unfolding sweep_running_def
  proof (rule life_ok_bind [OF sampled])
    fix active
    show "life_ok J B (\<lambda>l. P l \<and> (\<not> active \<and> ?detect \<longrightarrow> quiet_sample B policy (c_id c) l))
       (if active then act_ret (False, False)
        else case last_activity c of None \<Rightarrow> act_ret (False, False)
         | Some a \<Rightarrow> if a > t - pp_idleStopMinutes policy * 60000 then act_ret (False, False)
             else act_bind (stop_locked wd sig (c_id c) StopIdle) (\<lambda>_.
               act_case (life_audit wd ''container.idle_stop'' (c_id c)) (\<lambda>_. act_ret (True, True)) (\<lambda>_. act_ret (True, False)))) (\<lambda>_. P)"
    proof (cases active)
      case False
      show ?thesis unfolding if_not_P [OF False] by (rule life_ok_pre [OF quiet]) (use False in blast)
    qed (auto intro: life_ok_ret)
  qed
qed

lemma sweep_candidate_kept:
  assumes P: "steady P" and stopping: "\<And>i l. idle_granted B i l \<Longrightarrow> J (LStopping i) l"
    and past: "\<And>l. P l \<Longrightarrow> LPolicy policy \<in> set l \<and> LClock t \<in> set l" and on: "pp_idleStopMinutes policy \<noteq> 0"
  shows "life_ok J B P (sweep_candidate wd policy (t - pp_idleStopMinutes policy * 60000) i) (\<lambda>_. P)"
proof -
  have running: "life_ok J B (\<lambda>l. P l \<and> LRow i c \<in> set l \<and> known_row c l)
      (sweep_running wd sig policy (t - pp_idleStopMinutes policy * 60000) c) (\<lambda>_. P)" if "c_status c = Running" for sig c
    by (rule life_ok_post [OF sweep_running_kept [where k = i and t = t]])
      (use P stopping past on that in \<open>auto intro!: steady_conj steady_mem steady_known\<close>)
  have row: "life_ok J B (\<lambda>l. P l \<and> (\<forall>c. r = Some c \<longrightarrow> LRow i c \<in> set l \<and> known_row c l))
     (case r of None \<Rightarrow> act_bind (forget_baseline i) (\<lambda>_. act_ret (False, False))
      | Some current \<Rightarrow> if c_status current \<noteq> Running then act_ret (False, False)
          else sweep_running wd sig policy (t - pp_idleStopMinutes policy * 60000) current) (\<lambda>_. P)" for r sig
    by (cases r) (auto intro!: life_ok_bind [OF life_ok_forget] life_ok_ret running)
  have turn: "life_ok J B P (with_turn wd (act_bind (life_container wd i) (\<lambda>r. act_bind (life_throw_if sig) (\<lambda>_.
          case r of None \<Rightarrow> act_bind (forget_baseline i) (\<lambda>_. act_ret (False, False))
          | Some current \<Rightarrow> if c_status current \<noteq> Running then act_ret (False, False)
              else sweep_running wd sig policy (t - pp_idleStopMinutes policy * 60000) current)))) (\<lambda>_. P)" for sig
    by (rule turn_ok, rule life_ok_bind [OF container_kept [OF P]], rule life_ok_bind [OF life_ok_throw_if], rule row)
  show ?thesis
    unfolding sweep_candidate_def Let_def
    by (rule life_ok_bind [OF life_ok_call]) (auto intro!: life_ok_ret life_ok_bind [OF life_ok_throw_if] turn)
qed

lemma sweep_kept:
  assumes P: "steady P" and stopping: "\<And>i l. idle_granted B i l \<Longrightarrow> J (LStopping i) l"
  shows "life_ok J B P (sweep_idle wd) (\<lambda>_. P)"
proof -
  have each: "life_ok J B R (sweep_each wd policy (t - pp_idleStopMinutes policy * 60000) cs r) (\<lambda>_. R)"
    if R: "steady R" "\<And>l. R l \<Longrightarrow> LPolicy policy \<in> set l \<and> LClock t \<in> set l" "pp_idleStopMinutes policy \<noteq> 0"
    for R policy t cs r
  proof (induction cs arbitrary: r)
    case (Cons c cs)
    have "life_ok J B R (act_case (sweep_candidate wd policy (t - pp_idleStopMinutes policy * 60000) (c_id c))
        (\<lambda>_. act_ret (False, True)) act_ret) (\<lambda>_. R)"
      by (rule life_ok_case [OF sweep_candidate_kept [OF R(1) stopping R(2,3)] R(1)]) (auto intro: life_ok_ret)
    then show ?case by (auto intro!: life_ok_bind Cons.IH split: prod.split)
  qed (auto intro: life_ok_ret)
  have listed: "life_ok J B (\<lambda>l. (P l \<and> LPolicy policy \<in> set l) \<and> LClock now \<in> set l)
      (act_bind (life_containers wd) (\<lambda>rows. let candidates = filter (\<lambda>c. c_status c = Running) rows
       in sweep_each wd policy (now - pp_idleStopMinutes policy * 60000) candidates
            \<lparr>sw_checked = length candidates, sw_stopped = 0, sw_errors = 0\<rparr>)) (\<lambda>_. P)"
    if "pp_idleStopMinutes policy \<noteq> 0" for policy now
  proof -
    let ?R = "\<lambda>l. (P l \<and> LPolicy policy \<in> set l) \<and> LClock now \<in> set l"
    have R: "steady ?R" by (intro steady_conj P steady_mem)
    have rows: "life_ok J B ?R (life_containers wd) (\<lambda>_. ?R)"
      by (rule life_ok_post [OF containers_exact]) (use R in \<open>auto simp: steady_def\<close>)
    have sweeps: "life_ok J B ?R (sweep_each wd policy (now - pp_idleStopMinutes policy * 60000) cs r) (\<lambda>_. P)" for cs r
      by (rule life_ok_post [OF each [OF R _ that]]) auto
    show ?thesis unfolding Let_def by (rule life_ok_bind [OF rows sweeps])
  qed
  have "life_ok J B (\<lambda>l. P l \<and> LPolicy policy \<in> set l)
     (if pp_idleStopMinutes policy = 0 then act_ret \<lparr>sw_checked = 0, sw_stopped = 0, sw_errors = 0\<rparr>
      else act_bind (life_now wd) (\<lambda>now. act_bind (life_containers wd) (\<lambda>rows.
       let candidates = filter (\<lambda>c. c_status c = Running) rows
       in sweep_each wd policy (now - pp_idleStopMinutes policy * 60000) candidates
            \<lparr>sw_checked = length candidates, sw_stopped = 0, sw_errors = 0\<rparr>))) (\<lambda>_. P)" for policy
  proof (cases "pp_idleStopMinutes policy = 0")
    case False
    have "steady (\<lambda>l. P l \<and> LPolicy policy \<in> set l)" by (intro steady_conj P steady_mem)
    from life_ok_bind [OF now_kept [OF this] listed [OF False]] show ?thesis by (simp only: if_not_P [OF False])
  qed (auto intro: life_ok_ret)
  then show ?thesis unfolding sweep_idle_def by (rule life_ok_bind [OF policy_kept [OF P]])
qed

end

section \<open>Runs\<close>

text \<open>The calls of the class, in any order; an error ends a call, not the run.\<close>

datatype life_op =
    LoProvision string string bool authorization
  | LoEnsure user authorization
  | LoSync string bool abort_signal
  | LoRead string abort_signal
  | LoStart string bool abort_signal
  | LoStop string stop_reason bool abort_signal
  | LoRebuild string rebuild_options bool abort_signal
  | LoRemove string bool abort_signal
  | LoSweep

fun life_do :: "life_world \<Rightarrow> life_op \<Rightarrow> unit life" where
  "life_do wd (LoProvision u a b auth) = act_bind (provision_for_user wd u a b auth) (\<lambda>_. act_ret ())"
| "life_do wd (LoEnsure u auth) = act_bind (ensure_default wd u auth) (\<lambda>_. act_ret ())"
| "life_do wd (LoSync i held sig) = act_bind (life_sync wd i held sig) (\<lambda>_. act_ret ())"
| "life_do wd (LoRead i sig) = act_bind (life_read_container wd i sig) (\<lambda>_. act_ret ())"
| "life_do wd (LoStart i held sig) = act_bind (life_start wd i held sig) (\<lambda>_. act_ret ())"
| "life_do wd (LoStop i reason held sig) = act_bind (life_stop wd i reason held sig) (\<lambda>_. act_ret ())"
| "life_do wd (LoRebuild i opts held sig) = act_bind (life_rebuild wd i opts held sig) (\<lambda>_. act_ret ())"
| "life_do wd (LoRemove i held sig) = life_remove wd i held sig"
| "life_do wd LoSweep = act_bind (sweep_idle wd) (\<lambda>_. act_ret ())"

definition life_after :: "life_world \<Rightarrow> life_op list \<Rightarrow> life_run \<Rightarrow> life_run" where
  "life_after wd ops s = foldl (\<lambda>s op. fst (life_do wd op s)) s ops"

definition idle_justified :: "(string, activity_baseline) js_map \<Rightarrow> life_event \<Rightarrow> life_event list \<Rightarrow> bool" where
  "idle_justified B e past = (case e of LStopping i \<Rightarrow> idle_granted B i past | _ \<Rightarrow> life_justified e past)"

lemma free_justified: "free_event e \<Longrightarrow> life_justified e l"
  by (cases e) auto

lemma free_idle_justified: "free_event e \<Longrightarrow> idle_justified B e l"
  by (cases e) (auto simp: idle_justified_def)

interpretation calls: life_rules life_justified B for B
  by unfold_locales (auto simp: free_justified)

interpretation sweeps: life_rules "idle_justified B" B for B
  by unfold_locales (auto simp: free_idle_justified, auto simp: idle_justified_def)

lemma life_do_ok: "life_ok life_justified B (\<lambda>_. True) (life_do wd op) (\<lambda>_ _. True)"
proof -
  have then_ok: "life_ok life_justified B (\<lambda>_. True) (act_bind a (\<lambda>_. act_ret ())) (\<lambda>_ _. True)"
    if "life_ok life_justified B (\<lambda>_. True) a Q" for a Q
    by (rule life_ok_bind [OF that]) (rule life_ok_ret, simp)
  note T = steady_const [of True]
  show ?thesis
    by (cases op)
      (auto intro: then_ok [OF calls.provision_kept [OF T]] then_ok [OF calls.ensure_kept [OF T]] then_ok [OF calls.life_sync_kept [OF T]]
        then_ok [OF calls.life_read_kept [OF T]] then_ok [OF calls.life_start_kept [OF T]] then_ok [OF calls.life_stop_kept [OF T]]
        then_ok [OF calls.rebuild_kept [OF T]] calls.remove_kept [OF T] then_ok [OF calls.sweep_kept [OF T]])
qed

lemma life_good_start: "lr_log s = [] \<Longrightarrow> life_good J (lr_baselines s) s"
  by (simp add: life_good_def baselines_sampled_def)

lemma life_after_justified:
  assumes "lr_log s = []" "lr_log (life_after wd ops s) = later @ e # earlier"
  shows "life_justified e earlier"
proof -
  have "life_good life_justified B (foldl (\<lambda>s op. fst (life_do wd op s)) t ops)" if "life_good life_justified B t" for B t
    using that
  proof (induction ops arbitrary: t)
    case (Cons op ops)
    have "life_good life_justified B (fst (life_do wd op t))"
      by (rule life_okD(1) [OF life_do_ok [of B wd op] Cons.prems]) (rule TrueI, rule prod.collapse [symmetric])
    with Cons.IH show ?case by simp
  qed simp
  with life_good_start [OF assms(1)] have "log_justified life_justified (lr_log (life_after wd ops s))"
    by (auto simp: life_after_def life_good_def)
  then show ?thesis using assms(2) by (auto intro: log_justified_split)
qed

section \<open>A sample run\<close>

text \<open>For evaluating sample runs: the equations of the actions, to be used on a state only.\<close>

lemmas life_code [code] =
  act_ret_def [THEN fun_cong] act_throw_def [THEN fun_cong] act_case_def [THEN fun_cong] act_bind_def [THEN fun_cong]
  act_of_def [THEN fun_cong] life_note_def [THEN fun_cong] life_wait_def [THEN fun_cong] life_now_def [THEN fun_cong]
  life_wall_def [THEN fun_cong] life_fresh_id_def [THEN fun_cong] life_throw_if_def [THEN fun_cong]
  life_call_def [THEN fun_cong] life_read_def [THEN fun_cong] life_write_def [THEN fun_cong]
  life_quota_def [THEN fun_cong] forget_baseline_def [THEN fun_cong] life_container_def [THEN fun_cong]
  life_container_for_user_def [THEN fun_cong] life_containers_def [THEN fun_cong] life_policy_def [THEN fun_cong]
  life_update_def [THEN fun_cong] life_initialized_def [THEN fun_cong] life_audit_def [THEN fun_cong]
  life_instance_def [THEN fun_cong] life_find_instance_def [THEN fun_cong] with_lease_def [THEN fun_cong]
  with_turn_def [THEN fun_cong] with_global_def [THEN fun_cong] assert_catalog_def [THEN fun_cong]
  project_instance_def [THEN fun_cong] persist_instance_def [THEN fun_cong] ask_again.simps [THEN fun_cong]
  sync_record_def [THEN fun_cong] poll_creation.simps [THEN fun_cong] wait_for_creation_def [THEN fun_cong]
  existing_container_def [THEN fun_cong] current_container_def [THEN fun_cong] life_sync_def [THEN fun_cong]
  life_read_container_def [THEN fun_cong] release_quota_def [THEN fun_cong] move_quota_def [THEN fun_cong]
  move_quota_back_def [THEN fun_cong] quota_for_start_def [THEN fun_cong] start_failed_def [THEN fun_cong]
  bring_up_def [THEN fun_cong] start_stopped_def [THEN fun_cong] start_locked_def [THEN fun_cong]
  life_start_def [THEN fun_cong] bring_down_def [THEN fun_cong] stop_locked_def [THEN fun_cong]
  life_stop_def [THEN fun_cong] no_live_workspace_def [THEN fun_cong] reserve_quota_def [THEN fun_cong]
  life_save_def [THEN fun_cong] authorize_app_def [THEN fun_cong] reserve_new_def [THEN fun_cong]
  reserve_provision_def [THEN fun_cong] update_failed_def [THEN fun_cong] create_instance_def [THEN fun_cong]
  return_existing_def [THEN fun_cong] provision_locked_def [THEN fun_cong] provision_for_user_def [THEN fun_cong]
  ensure_default_def [THEN fun_cong] rebuild_goal_for_def [THEN fun_cong] rebuild_source_def [THEN fun_cong]
  rebuild_profile_def [THEN fun_cong] rebuild_committed_def [THEN fun_cong] rebuild_recovery_def [THEN fun_cong]
  rebuild_failed_def [THEN fun_cong] rebuild_to_def [THEN fun_cong] rebuild_locked_def [THEN fun_cong]
  life_rebuild_def [THEN fun_cong] after_removal_def [THEN fun_cong] remove_workspace_def [THEN fun_cong]
  remove_instance_def [THEN fun_cong] life_remove_def [THEN fun_cong] life_touch_def [THEN fun_cong]
  observe_activity_def [THEN fun_cong] sweep_running_def [THEN fun_cong] sweep_candidate_def [THEN fun_cong]
  sweep_each.simps [THEN fun_cong] sweep_idle_def [THEN fun_cong] life_do.simps [THEN fun_cong]


text \<open>
  The instance of \<open>u1\<close> is created, stopped, started and removed; the runtime reports it as stopped
  between the stop and the start.
\<close>

definition sample_instance :: "container_status \<Rightarrow> container_instance" where
  "sample_instance st = \<lparr>cx_instanceId = ''w1'', cx_ownerId = ''u1'', cx_providerId = None, cx_runtimeId = ''rt1'', cx_state = st,
     cx_endpoint = None, cx_createdAt = 0, cx_catalogSnapshot = None, cx_rebuildRecovered = False\<rparr>"

definition sample_target :: launch_target where
  "sample_target = \<lparr>lt_app = \<lparr>app_id = ''notes'', app_name = ''Notes'', app_description = '''', app_authAdapterId = ''none'',
       app_status = AppActive, app_createdAt = 0, app_updatedAt = 0\<rparr>,
     lt_version = \<lparr>v_sourceKind = None, v_id = ''v1'', v_appId = ''notes'', v_revision = Some 1, v_version = ''1.0'', v_buildId = ''b1'',
       v_packages = None, v_imageArtifactId = None, v_imageReference = Some ''img'', v_runtimeContract = None,
       v_status = VActive, v_createdAt = 0, v_activatedAt = Some 0\<rparr>,
     lt_imageReference = ''img''\<rparr>"

definition sample_world :: "(nat \<Rightarrow> container_status) \<Rightarrow> life_world" where
  "sample_world st = \<lparr>lw_env = \<lambda>_ m. m, lw_quota_env = \<lambda>_ q. q, lw_quota_fails = \<lambda>_. None, lw_now = int, lw_wall = int,
     lw_id = \<lambda>_. ''w1'', lw_lease = \<lambda>_ _. Inr True, lw_lease_lost = \<lambda>_. False,
     lw_policy = \<lambda>_. Inr base_policy, lw_target = \<lambda>_ _. Inr sample_target, lw_catalog_valid = None,
     lw_provider = \<lambda>_ _. Inr ''docker'',
     lw_update = \<lambda>_ c m. (case update_container m c of (m', Inl e) \<Rightarrow> (m', Inl (LifeStore e)) | (m', Inr ()) \<Rightarrow> (m', Inr ())),
     lw_observe = None, lw_get = \<lambda>n _. Inr (Some (sample_instance (st n))),
     lw_provision = \<lambda>_ _. Inr (sample_instance Running), lw_start = \<lambda>_ _. Inr (sample_instance Running),
     lw_stop = \<lambda>_ _. Inr (sample_instance Stopped), lw_rebuild = None, lw_remove = \<lambda>_ _ _. Inr (),
     lw_sample = \<lambda>_ _. Inr \<lparr>rm_networkRxBytes = Finite 0, rm_networkTxBytes = Finite 0, rm_cpuPercent = Finite 0,
        rm_memoryWorkingSetBytes = Finite 0, rm_pids = Finite 1, rm_gpuUtilizationPercent = None\<rparr>,
     lw_audit = \<lambda>_. Inr (), lw_delete_workspace = None, lw_compare = \<lambda>_ _. 0\<rparr>"

definition sample_run :: life_run where
  "sample_run = \<lparr>lr_mem = empty_mem, lr_quota = None, lr_baselines = [], lr_step = 0, lr_log = []\<rparr>"

text \<open>The first call of an instance that is stopped, and the creation of one.\<close>

definition stopped_row :: container where
  "stopped_row = \<lparr>c_id = ''w1'', c_userId = ''u1'', c_appId = ''notes'', c_providerId = None, c_runtimeId = ''rt1'', c_status = Stopped,
     c_endpoint = None, c_stopReason = Some StopManualUser, c_createdAt = 0, c_updatedAt = 0, c_lastActivityAt = Instant 0,
     c_appVersionId = Some ''v1'', c_imageArtifactId = None, c_imageReference = Some ''img''\<rparr>"

definition stopped_run :: life_run where
  "stopped_run = sample_run\<lparr>lr_mem := fst (save_container empty_mem stopped_row),
     lr_quota := Some \<lparr>qs_policy = \<lparr>qp_global = None, qp_tenants = None, qp_users = None, qp_providers = None\<rparr>,
       qs_reservations = [(''w1'', \<lparr>q_reservationId = ''w1'', q_userId = ''u1'', q_providerId = ''docker'', q_desiredState = QStopped,
          q_cpuMillis = 2000, q_memoryBytes = 1024, q_pidsLimit = 64, q_tenantId = None, q_volumeBytes = None,
          q_buildSlots = None, q_rolloutSlots = None\<rparr>)], qs_available = True\<rparr>\<rparr>"

definition started_end :: life_run where
  "started_end = life_after (sample_world (\<lambda>_. Stopped)) [LoStart ''w1'' False never_aborted, LoRemove ''w1'' False never_aborted] stopped_run"

definition created_end :: life_run where
  "created_end = life_after (sample_world (\<lambda>_. Running)) [LoProvision ''u1'' ''notes'' True None] sample_run"

text \<open>Events of a kind, to look for in a log.\<close>

fun is_start :: "life_event \<Rightarrow> bool" where
  "is_start (LStarting i) = (i = ''w1'')" | "is_start _ = False"

fun is_release :: "life_event \<Rightarrow> bool" where
  "is_release (LReleased i) = (i = ''w1'')" | "is_release _ = False"

fun is_creation :: "life_event \<Rightarrow> bool" where
  "is_creation (LSaving _) = True" | "is_creation (LWorkspaceDeleted _ _) = True" | "is_creation _ = False"

fun is_provision :: "life_event \<Rightarrow> bool" where
  "is_provision (LProvisioning _) = True" | "is_provision _ = False"

fun is_running :: "life_event \<Rightarrow> bool" where
  "is_running (LUpdating c) = (c_status c = Running)" | "is_running _ = False"

lemma started_end_events:
  "list_ex is_start (lr_log started_end)" "list_ex is_release (lr_log started_end)" "\<not> list_ex is_creation (lr_log started_end)"
  by code_simp+

lemma created_end_events:
  "list_ex is_provision (lr_log created_end)" "list_ex is_running (lr_log created_end)"
  by code_simp+

lemma sample_start_log: "lr_log sample_run = []" "lr_log stopped_run = []"
  by (simp_all add: sample_run_def stopped_run_def)

lemma occupied_eq: "occupied rows = length (filter (\<lambda>c. c_status c = Running \<or> c_status c = Creating) rows)"
proof -
  have "occupies = (\<lambda>c. c_status c = Running \<or> c_status c = Creating)" by (simp add: fun_eq_iff occupies_def)
  then show ?thesis by (simp add: occupied_def)
qed

lemma list_ex_split: "list_ex P l \<Longrightarrow> \<exists>e later earlier. P e \<and> l = later @ e # earlier"
  by (auto simp: list_ex_iff dest!: split_list)

lemma is_start_split: "list_ex is_start l \<Longrightarrow> \<exists>later earlier. l = later @ LStarting ''w1'' # earlier"
  by (drule list_ex_split) (auto elim!: is_start.elims)


lemma is_provision_split: "list_ex is_provision l \<Longrightarrow> \<exists>later rq earlier. l = later @ LProvisioning rq # earlier"
  by (drule list_ex_split) (auto elim!: is_provision.elims)

lemma is_running_split: "list_ex is_running l \<Longrightarrow> \<exists>later c earlier. l = later @ LUpdating c # earlier \<and> c_status c = Running"
  by (drule list_ex_split) (auto elim!: is_running.elims)

section \<open>Guarantees\<close>

text \<open>C25: no instance is started beyond the limit. In every run, whenever the runtime is asked to start an
  instance, the row of the instance was read as stopped, then the policy and all rows were read
  with fewer of them running or being created than the policy allows, and nothing but the quota
  ledger was touched in between.\<close>

theorem starts_within_capacity:
  assumes "lr_log s = []" "lr_log (life_after wd ops s) = later @ LStarting i # earlier"
  shows "\<exists>moved rows policy c rest. earlier = moved @ LRows rows # LPolicy policy # LRow i c # rest
     \<and> set moved \<subseteq> {LQuota i QRunning} \<and> c_status c = Stopped
     \<and> int (length (filter (\<lambda>c. c_status c = Running \<or> c_status c = Creating) rows)) < pp_maxRunningInstances policy"
  using life_after_justified [OF assms] by (simp only: life_justified.simps start_granted_def occupied_eq)

theorem starts_within_capacity_witness:
  "\<exists>later rows policy c rest moved. lr_log started_end = later @ LStarting ''w1'' # moved @ LRows rows # LPolicy policy # LRow ''w1'' c # rest
     \<and> c_status c = Stopped"
proof -
  obtain later earlier where split: "lr_log started_end = later @ LStarting ''w1'' # earlier"
    using is_start_split [OF started_end_events(1)] by blast
  from starts_within_capacity [OF sample_start_log(2) split [unfolded started_end_def]] split show ?thesis by fastforce
qed

text \<open>C24: no instance is created beyond the limits. In every run, whenever the runtime is asked to provision
  an instance, its row has just been stored as being created, for the same owner and application,
  after the policy and all rows were read with fewer rows than may exist and fewer of them running
  or being created than may run; only the clock and the quota ledger come in between.\<close>

theorem creations_within_capacity:
  assumes "lr_log s = []" "lr_log (life_after wd ops s) = later @ LProvisioning rq # earlier"
  shows "\<exists>c now reserved rows policy rest.
        earlier = LSaving c # LClock now # reserved @ LRows rows # LPolicy policy # rest
        \<and> set reserved \<subseteq> {LReserved (pv_instanceId rq)}
        \<and> int (length rows) < pp_maxTotalInstances policy
        \<and> int (length (filter (\<lambda>c. c_status c = Running \<or> c_status c = Creating) rows)) < pp_maxRunningInstances policy
        \<and> c_status c = Creating \<and> c_id c = pv_instanceId rq \<and> c_userId c = pv_ownerId rq \<and> c_appId c = pv_appId rq"
  using life_after_justified [OF assms] by (simp only: life_justified.simps creation_granted_def occupied_eq)

theorem creations_within_capacity_witness:
  "\<exists>rq c. LProvisioning rq \<in> set (lr_log created_end) \<and> LSaving c \<in> set (lr_log created_end)
     \<and> c_status c = Creating \<and> c_id c = pv_instanceId rq"
proof -
  obtain later rq earlier where split: "lr_log created_end = later @ LProvisioning rq # earlier"
    using is_provision_split [OF created_end_events(1)] by blast
  from creations_within_capacity [OF sample_start_log(1) split [unfolded created_end_def]] split show ?thesis by fastforce
qed

text \<open>C26: rows follow the runtime. Whenever a row is written back, a row with the same identity (instance,
  owner, application, provider, creation time) was read or stored before; and it is written as
  running only when the runtime said so of an instance of that owner, whose runtime id, endpoint
  and catalog snapshot the row takes.\<close>

theorem rows_follow_the_runtime:
  assumes "lr_log s = []" "lr_log (life_after wd ops s) = later @ LUpdating c # earlier"
  shows "(\<exists>d. c_id d = c_id c \<and> c_userId d = c_userId c \<and> c_appId d = c_appId c \<and> c_providerId d = c_providerId c
            \<and> c_createdAt d = c_createdAt c \<and> ((\<exists>i. LRow i d \<in> set earlier) \<or> LSaving d \<in> set earlier))
     \<and> (c_status c = Running \<longrightarrow> (\<exists>x. LObserved x \<in> set earlier \<and> cx_state x = Running \<and> cx_ownerId x = c_userId c
            \<and> cx_runtimeId x = c_runtimeId c \<and> cx_endpoint x = c_endpoint c
            \<and> (\<forall>r. cx_catalogSnapshot x = Some r \<longrightarrow> catalog_snapshot_of c = Some r \<or> cg_imageReference r = [])))"
proof -
  have "row_derived c earlier" using life_after_justified [OF assms] by simp
  then have known: "known_row c earlier" and run: "c_status c = Running \<longrightarrow> shown_running c earlier" by (auto simp: row_derived_def)
  have "catalog_snapshot_of c = Some r \<or> cg_imageReference r = []"
    if "cg_appId r = c_appId c" "cg_appVersionId r = c_appVersionId c" "cg_imageArtifactId r = c_imageArtifactId c"
       "c_imageReference c = Some (cg_imageReference r)" for r
    using that by (cases r) (auto simp: catalog_snapshot_of_def)
  with run have "c_status c = Running \<longrightarrow> (\<exists>x. LObserved x \<in> set earlier \<and> cx_state x = Running \<and> cx_ownerId x = c_userId c
            \<and> cx_runtimeId x = c_runtimeId c \<and> cx_endpoint x = c_endpoint c
            \<and> (\<forall>r. cx_catalogSnapshot x = Some r \<longrightarrow> catalog_snapshot_of c = Some r \<or> cg_imageReference r = []))"
    unfolding shown_running_def by metis
  with known show ?thesis unfolding known_row_def same_row_def by metis
qed

theorem rows_follow_the_runtime_witness:
  "\<exists>c x. LUpdating c \<in> set (lr_log created_end) \<and> LObserved x \<in> set (lr_log created_end) \<and> c_status c = Running
     \<and> cx_state x = Running \<and> cx_runtimeId x = c_runtimeId c"
proof -
  obtain later c earlier where split: "lr_log created_end = later @ LUpdating c # earlier" and c: "c_status c = Running"
    using is_running_split [OF created_end_events(2)] by blast
  from rows_follow_the_runtime [OF sample_start_log(1) split [unfolded created_end_def]] c obtain x where
    "LObserved x \<in> set earlier" "cx_state x = Running" "cx_runtimeId x = c_runtimeId c" by blast
  with split c show ?thesis by (intro exI [of _ c] exI [of _ x]) auto
qed








section \<open>Quota of a failed creation, and of a start that cannot be recorded\<close>

lemma released_quota:
  assumes "\<And>n. lw_quota_fails wd n = None"
  shows "after (release_quota wd i) (\<lambda>_ s. \<forall>q. lr_quota s = Some q \<longrightarrow> js_get (qs_reservations q) i = None)
     (\<lambda>_ s. \<forall>q. lr_quota s = Some q \<longrightarrow> js_get (qs_reservations q) i = None) s"
  by (auto simp: after_def release_quota_def act_case_def life_quota_def act_bind_def life_wait_def life_turn_def quota_release_def
      act_ret_def life_note_def assms split: option.splits)

text \<open>A failed creation holds no quota. When the ledger can be reached and creating a reserved instance
  fails, whatever the runtime and the store answered, even when the failure itself cannot be
  recorded in the row, the ledger has no reservation for the instance left.\<close>

theorem failed_creation_holds_no_quota:
  assumes "\<And>n. lw_quota_fails wd n = None" "create_instance wd userId r s = (s', Inl e)" "rv_quotaReserved r" "lr_quota s' = Some q"
  shows "js_get (qs_reservations q) (rv_id r) = None"
proof -
  let ?E = "\<lambda>_ s. \<forall>q. lr_quota s = Some q \<longrightarrow> js_get (qs_reservations q) (rv_id r) = None"
  have initialized: "after (life_initialized wd userId) Q ?E s" if "\<And>x s. Q x s" for Q s
    using that by (simp add: after_def life_initialized_def life_write_def act_bind_def act_case_def life_wait_def)
  note released = released_quota [OF assms(1)]
  have any: "after a Q E s" if "\<And>x s. Q x s" "\<And>e s. E e s" for a :: "'b life" and Q E s
    using that by (simp add: after_def split: prod.split sum.split)
  have "after (create_instance wd userId r) (\<lambda>_ _. True) ?E s"
    unfolding create_instance_def using assms(3)
    by (simp only: if_True after_bind after_case after_finally after_ret after_throw)
      (rule released | rule initialized | rule any | rule TrueI)+
  with assms(2,4) show ?thesis by (simp add: after_def)
qed

text \<open>A creation that the runtime refuses.\<close>

definition refusing_world :: life_world where
  "refusing_world = (sample_world (\<lambda>_. Running))\<lparr>lw_provision := \<lambda>_ _. Inl (LifeOther ''refused'')\<rparr>"

definition sample_reservation :: reservation where
  "sample_reservation = \<lparr>rv_id = ''w1'', rv_policy = base_policy, rv_pending = stopped_row\<lparr>c_status := Creating, c_stopReason := None\<rparr>,
     rv_launchTarget = sample_target, rv_quotaReserved = True\<rparr>"

definition failed_end :: "life_run \<times> (life_error, container) res" where
  "failed_end = create_instance refusing_world ''u1'' sample_reservation stopped_run"

lemma failed_end_outcome:
  "case failed_end of (s, r) \<Rightarrow> (case r of Inl _ \<Rightarrow> (case lr_quota s of None \<Rightarrow> False | Some _ \<Rightarrow> True) | Inr _ \<Rightarrow> False)"
  by code_simp

theorem failed_creation_holds_no_quota_witness:
  "\<exists>s e q. failed_end = (s, Inl e) \<and> lr_quota s = Some q \<and> js_get (qs_reservations q) ''w1'' = None"
proof -
  obtain s e q where run: "failed_end = (s, Inl e)" "lr_quota s = Some q"
    using failed_end_outcome by (auto split: prod.splits sum.splits option.splits)
  have reached: "lw_quota_fails refusing_world n = None" for n by (simp add: refusing_world_def sample_world_def)
  have held: "rv_quotaReserved sample_reservation" "rv_id sample_reservation = ''w1''" by (simp_all add: sample_reservation_def)
  from failed_creation_holds_no_quota [OF reached run(1) [unfolded failed_end_def] held(1) run(2)] run show ?thesis
    unfolding held(2) by blast
qed

text \<open>
  A start whose last write fails: the runtime has started the instance, the row still says stopped
  and the reservation stays with the running ones, since the failure bypasses the \<open>catch\<close>.
\<close>

definition unrecording_world :: life_world where
  "unrecording_world = (let wd = sample_world (\<lambda>_. Stopped)
     in wd\<lparr>lw_update := \<lambda>n c m. if c_status c = Running then (m, Inl (LifeOther ''store down'')) else lw_update wd n c m\<rparr>)"

lemma unrecorded_start_keeps_quota:
  "case life_start unrecording_world ''w1'' False never_aborted stopped_run of (s, r) \<Rightarrow>
     (case r of Inl (LifeOther _) \<Rightarrow> True | _ \<Rightarrow> False)
     \<and> (case lr_quota s of None \<Rightarrow> False | Some q \<Rightarrow>
          (case js_get (qs_reservations q) ''w1'' of None \<Rightarrow> False | Some x \<Rightarrow> q_desiredState x = QRunning))
     \<and> (case get_container (lr_mem s) ''w1'' of Inr (Some c) \<Rightarrow> c_status c = Stopped | _ \<Rightarrow> False)"
  by code_simp

end
