(* ===== verification/Portal_Maintenance.thy ===== *)
theory Portal_Maintenance
  imports Machine Js_Prelude
begin

text \<open>
  The coordinator of the periodic tasks, \<open>backend/src/portal-maintenance.ts\<close>: the upgrade worker
  and the idle sweep share the leases of instances, so one queue runs them, upgrades first. Each
  synchronous stretch of the class is a step: a request, \<open>stop\<close>, the end of the running task, and
  the callback that forgets the promise of a drain that is over. Shown: the coordinator refines a
  specification on its history, requests are served within two tasks, and the one gap there is.
\<close>

section \<open>The coordinator\<close>

datatype maintenance_task = UpgradeWorker | IdleSweep

text \<open>
  \<open>#draining\<close>: none, or a drain that waits for a task, or one whose loop has ended but whose promise is
  not yet forgotten (\<open>finally\<close> runs later).
\<close>

datatype drain_phase = Undrained | Draining maintenance_task | Settling

datatype maintenance_event =
    MRequested maintenance_task
  | MStarted maintenance_task
  | MEnded maintenance_task
  | MReported maintenance_task string
  | MStopped

text \<open>What has happened is logged, newest first.\<close>

record coordinator =
  mc_upgradeRequested :: bool
  mc_sweepRequested :: bool
  mc_stopped :: bool
  mc_phase :: drain_phase
  mc_log :: "maintenance_event list"

definition new_coordinator :: coordinator where
  "new_coordinator = \<lparr>mc_upgradeRequested = False, mc_sweepRequested = False, mc_stopped = False,
     mc_phase = Undrained, mc_log = []\<rparr>"

text \<open>One look at the loop condition of \<open>#drain\<close>, up to the next \<open>await\<close> or the end.\<close>

definition drain_round :: "coordinator \<Rightarrow> coordinator" where
  "drain_round s =
     (if mc_upgradeRequested s
      then s\<lparr>mc_upgradeRequested := False, mc_phase := Draining UpgradeWorker, mc_log := MStarted UpgradeWorker # mc_log s\<rparr>
      else if mc_sweepRequested s
      then s\<lparr>mc_sweepRequested := False, mc_phase := Draining IdleSweep, mc_log := MStarted IdleSweep # mc_log s\<rparr>
      else s\<lparr>mc_phase := Settling\<rparr>)"

definition ensure_drain :: "coordinator \<Rightarrow> coordinator" where
  "ensure_drain s = (if mc_phase s = Undrained then drain_round s else s)"

definition request_upgrade_run :: "coordinator \<Rightarrow> coordinator" where
  "request_upgrade_run s =
     (if mc_stopped s then s
      else ensure_drain (s\<lparr>mc_upgradeRequested := True, mc_log := MRequested UpgradeWorker # mc_log s\<rparr>))"

definition request_maintenance_cycle :: "coordinator \<Rightarrow> coordinator" where
  "request_maintenance_cycle s =
     (if mc_stopped s then s
      else ensure_drain (s\<lparr>mc_upgradeRequested := True, mc_sweepRequested := True,
             mc_log := MRequested IdleSweep # MRequested UpgradeWorker # mc_log s\<rparr>))"

definition stop_maintenance :: "coordinator \<Rightarrow> coordinator" where
  "stop_maintenance s = s\<lparr>mc_stopped := True, mc_upgradeRequested := False, mc_sweepRequested := False,
     mc_log := MStopped # mc_log s\<rparr>"

text \<open>\<open>#runTask\<close> after its await: an error is reported, and the loop goes on.\<close>

definition task_ended :: "string option \<Rightarrow> coordinator \<Rightarrow> coordinator" where
  "task_ended err s =
     (case mc_phase s of
        Draining t \<Rightarrow> drain_round (s\<lparr>mc_log :=
          (case err of None \<Rightarrow> [] | Some e \<Rightarrow> [MReported t e]) @ MEnded t # mc_log s\<rparr>)
      | _ \<Rightarrow> s)"

definition drain_settled :: "coordinator \<Rightarrow> coordinator" where
  "drain_settled s = (if mc_phase s = Settling then s\<lparr>mc_phase := Undrained\<rparr> else s)"

datatype maintenance_step = RequestUpgrade | RequestCycle | StopMaintenance | TaskEnds "string option" | DrainSettles

fun coordinate :: "coordinator \<Rightarrow> maintenance_step \<Rightarrow> coordinator" where
  "coordinate s RequestUpgrade = request_upgrade_run s"
| "coordinate s RequestCycle = request_maintenance_cycle s"
| "coordinate s StopMaintenance = stop_maintenance s"
| "coordinate s (TaskEnds err) = task_ended err s"
| "coordinate s DrainSettles = drain_settled s"

lemmas coordinator_defs = drain_round_def ensure_drain_def request_upgrade_run_def request_maintenance_cycle_def
  stop_maintenance_def task_ended_def drain_settled_def

section \<open>Specification on the history\<close>

text \<open>
  A task is wanted when it was requested after its last start and the coordinator has not been stopped
  since; a task runs from its start to its end.
\<close>

fun wanted :: "maintenance_task \<Rightarrow> maintenance_event list \<Rightarrow> bool" where
  "wanted t [] = False"
| "wanted t (MRequested u # l) = (u = t \<or> wanted t l)"
| "wanted t (MStarted u # l) = (u \<noteq> t \<and> wanted t l)"
| "wanted t (MStopped # l) = False"
| "wanted t (_ # l) = wanted t l"

fun underway :: "maintenance_event list \<Rightarrow> maintenance_task option" where
  "underway [] = None"
| "underway (MStarted t # l) = Some t"
| "underway (MEnded t # l) = None"
| "underway (_ # l) = underway l"

fun log_allowed :: "maintenance_event list \<Rightarrow> bool" where
  "log_allowed [] = True"
| "log_allowed (MStarted t # l) = (underway l = None \<and> wanted t l \<and> (t = IdleSweep \<longrightarrow> \<not> wanted UpgradeWorker l)
     \<and> MStopped \<notin> set l \<and> log_allowed l)"
| "log_allowed (MEnded t # l) = (underway l = Some t \<and> log_allowed l)"
| "log_allowed (_ # l) = log_allowed l"

lemma log_allowed_start:
  "log_allowed (later @ MStarted t # earlier) \<Longrightarrow>
     underway earlier = None \<and> wanted t earlier \<and> (t = IdleSweep \<longrightarrow> \<not> wanted UpgradeWorker earlier) \<and> MStopped \<notin> set earlier"
proof (induction later)
  case (Cons e later)
  then show ?case by (cases e) auto
qed simp

text \<open>The fields are the specification's view of the log.\<close>

definition coordinator_inv :: "coordinator \<Rightarrow> bool" where
  "coordinator_inv s \<longleftrightarrow>
     mc_upgradeRequested s = wanted UpgradeWorker (mc_log s) \<and> mc_sweepRequested s = wanted IdleSweep (mc_log s)
     \<and> mc_stopped s = (MStopped \<in> set (mc_log s)) \<and> (mc_stopped s \<longrightarrow> \<not> mc_upgradeRequested s \<and> \<not> mc_sweepRequested s)
     \<and> underway (mc_log s) = (case mc_phase s of Draining t \<Rightarrow> Some t | _ \<Rightarrow> None) \<and> log_allowed (mc_log s)"

lemma drain_round_inv: "coordinator_inv s \<Longrightarrow> underway (mc_log s) = None \<Longrightarrow> coordinator_inv (drain_round s)"
  by (auto simp: coordinator_inv_def drain_round_def)

lemma ensure_drain_inv: "coordinator_inv s \<Longrightarrow> coordinator_inv (ensure_drain s)"
proof (cases "mc_phase s = Undrained")
  case True
  moreover assume inv: "coordinator_inv s"
  ultimately have "underway (mc_log s) = None" by (simp add: coordinator_inv_def)
  with inv True show ?thesis by (simp add: ensure_drain_def drain_round_inv)
qed (simp add: ensure_drain_def)

lemma ended_inv:
  assumes "coordinator_inv s" "mc_phase s = Draining t"
  shows "coordinator_inv (task_ended err s)"
proof -
  let ?s = "s\<lparr>mc_phase := Settling, mc_log := (case err of None \<Rightarrow> [] | Some e \<Rightarrow> [MReported t e]) @ MEnded t # mc_log s\<rparr>"
  have "coordinator_inv ?s" using assms by (auto simp: coordinator_inv_def split: option.split)
  moreover have "underway (mc_log ?s) = None" by (simp split: option.split)
  ultimately have "coordinator_inv (drain_round ?s)" by (rule drain_round_inv)
  moreover have "task_ended err s = drain_round ?s" using assms(2) by (simp add: task_ended_def drain_round_def)
  ultimately show ?thesis by simp
qed

interpretation coordination: machine coordinate "\<lambda>s. s = new_coordinator" coordinator_inv
proof
  show "coordinator_inv s" if "s = new_coordinator" for s
    using that by (simp add: coordinator_inv_def new_coordinator_def)
  fix s e
  assume inv: "coordinator_inv s"
  show "coordinator_inv (coordinate s e)"
  proof (cases e)
    case RequestUpgrade
    have "coordinator_inv (s\<lparr>mc_upgradeRequested := True, mc_log := MRequested UpgradeWorker # mc_log s\<rparr>)" if "\<not> mc_stopped s"
      using inv that by (auto simp: coordinator_inv_def)
    then show ?thesis using inv RequestUpgrade by (auto simp: request_upgrade_run_def intro: ensure_drain_inv)
  next
    case RequestCycle
    have "coordinator_inv (s\<lparr>mc_upgradeRequested := True, mc_sweepRequested := True,
        mc_log := MRequested IdleSweep # MRequested UpgradeWorker # mc_log s\<rparr>)" if "\<not> mc_stopped s"
      using inv that by (auto simp: coordinator_inv_def)
    then show ?thesis using inv RequestCycle by (auto simp: request_maintenance_cycle_def intro: ensure_drain_inv)
  next
    case (TaskEnds err)
    then show ?thesis using inv by (cases "mc_phase s") (auto simp: ended_inv, auto simp: task_ended_def)
  qed (use inv in \<open>auto simp: coordinator_inv_def coordinator_defs\<close>)
qed

section \<open>Guarantees\<close>

text \<open>C39: tasks run one at a time, upgrades first. In every run of the coordinator, whenever a task is
  started no other is running, it was requested since its last start, the sweep only when no
  upgrade run is wanted, and never after a stop.\<close>

theorem tasks_take_turns:
  assumes "mc_log (foldl coordinate new_coordinator steps) = later @ MStarted t # earlier"
  shows "underway earlier = None \<and> wanted t earlier \<and> (t = IdleSweep \<longrightarrow> \<not> wanted UpgradeWorker earlier) \<and> MStopped \<notin> set earlier"
proof -
  have "coordinator_inv (foldl coordinate new_coordinator steps)" by (rule coordination.run_inv) simp
  then have "log_allowed (later @ MStarted t # earlier)" by (simp add: coordinator_inv_def assms)
  then show ?thesis by (rule log_allowed_start)
qed

theorem tasks_take_turns_witness:
  "mc_log (foldl coordinate new_coordinator [RequestCycle, TaskEnds None]) =
     [] @ MStarted IdleSweep # [MEnded UpgradeWorker, MStarted UpgradeWorker, MRequested IdleSweep, MRequested UpgradeWorker]
   \<and> \<not> wanted UpgradeWorker [MEnded UpgradeWorker, MStarted UpgradeWorker, MRequested IdleSweep, MRequested UpgradeWorker]"
proof -
  have run: "mc_log (foldl coordinate new_coordinator [RequestCycle, TaskEnds None]) =
     [] @ MStarted IdleSweep # [MEnded UpgradeWorker, MStarted UpgradeWorker, MRequested IdleSweep, MRequested UpgradeWorker]"
    by (simp add: coordinator_defs new_coordinator_def)
  from tasks_take_turns [OF run] run show ?thesis by simp
qed

text \<open>A request is served. In every run that is not in the short gap after a drain's loop has ended,
  a task that is wanted when a drain is under way has been started at the latest when two more
  tasks have ended, whether they fail or not.\<close>

theorem requests_are_served:
  assumes "s = foldl coordinate new_coordinator steps" "wanted t (mc_log s)" "mc_phase s = Draining u"
  shows "\<exists>l. mc_log (foldl coordinate s [TaskEnds a, TaskEnds b]) = l @ mc_log s \<and> MStarted t \<in> set l"
proof -
  have "coordinator_inv s" unfolding assms(1) by (rule coordination.run_inv) simp
  then have "mc_upgradeRequested s = wanted UpgradeWorker (mc_log s)" "mc_sweepRequested s = wanted IdleSweep (mc_log s)"
    by (simp_all add: coordinator_inv_def)
  then show ?thesis using assms(2,3) by (cases t) (auto simp: task_ended_def drain_round_def split: option.split)
qed

theorem requests_are_served_witness:
  "\<exists>l. mc_log (foldl coordinate (foldl coordinate new_coordinator [RequestCycle]) [TaskEnds (Some ''busy''), TaskEnds None])
       = l @ mc_log (foldl coordinate new_coordinator [RequestCycle]) \<and> MStarted IdleSweep \<in> set l"
proof -
  have "wanted IdleSweep (mc_log (foldl coordinate new_coordinator [RequestCycle]))"
    "mc_phase (foldl coordinate new_coordinator [RequestCycle]) = Draining UpgradeWorker"
    by (simp_all add: coordinator_defs new_coordinator_def)
  from requests_are_served [OF refl this] show ?thesis .
qed

text \<open>
  The gap: a request made after the loop of a drain has ended and before its promise is
  forgotten starts nothing. It is left wanted with nothing under way.
\<close>

lemma request_in_the_gap_is_left:
  assumes "s = foldl coordinate new_coordinator [RequestUpgrade, TaskEnds None, RequestUpgrade, DrainSettles]"
  shows "mc_phase s = Undrained \<and> \<not> mc_stopped s \<and> wanted UpgradeWorker (mc_log s)"
  unfolding assms by (simp add: coordinator_defs new_coordinator_def)

end
