(* ===== verification/Spec2Isabelle.thy ===== *)
theory Spec2Isabelle
  imports Quota_Admission Memory_Tenants Admin_Operations Rollout_Budget Rollout_Service Instance_Activity
    Execution_Deletion Execution_Outcomes Execution_Reconciler Auth_Rate_Limit Rollout_Cohort Memory_Config
    Memory_Catalog Lifecycle_Safety Portal_Maintenance
begin

text \<open>
  The control plane of OpenApp (TypeScript, \<open>backend/src\<close>). Users sign in, an administrator
  publishes applications as versioned images, and the control plane keeps one instance (a
  container, later a workspace with an execution) per user. All durable state is behind one
  interface, \<open>Persistence\<close>; the services are async methods over it that talk to container
  runtimes and execution providers.

  \<^bold>\<open>How the parts interact.\<close> \<open>InstanceLifecycle\<close> creates, starts, stops, rebuilds and removes
  instances: it checks the limits of the provisioning policy, moves a quota ledger along, calls the
  runtime and writes back rows. \<open>WorkspaceExecutionManager\<close> is its successor for workspaces:
  every wish is an intent with a generation, saved by compare-and-save before the provider is asked,
  and the reconciler repeats what is not settled. \<open>UpgradeRolloutService\<close> records batches of
  upgrades, \<open>UpgradeRolloutWorker\<close> carries them out item by item, behind a drain of the
  instance's connections, which the activity tracker leases in the same store. A coordinator runs
  the worker and the idle sweep in turn. Administrative tasks run under
  \<open>AdminOperationManager\<close>.

  \<^bold>\<open>Foundations.\<close>
  \<^item> \<open>Js_Prelude\<close>, \<open>Js_Text\<close>: what the code uses of JavaScript. A number is a rational or not finite and is
    rounded to a double where the code computes with fractions; untyped values are trees; a \<open>Map\<close> is
    an association list in insertion order; a method that throws returns \<open>Inl\<close>; null and absent are
    None; a time is its milliseconds, and a stored time of last activity may be unparsable.
  \<^item> \<open>Actions\<close>: async methods as functions from a state to a state and a result, with the
    weakest precondition \<open>after\<close> whose rewrite rules run through the code.
  \<^item> \<open>Machine\<close>: the contract of a step function with an invariant. \<open>Versioned_Store\<close>: the
    contract of a store with compare-and-save (a write names the revision it was computed from).
    Every part that has the contract interprets the locale on its own operations.
  \<^item> \<open>Models\<close>: the records and unions of \<open>models.ts\<close>, \<open>workspace-execution.ts\<close> and their neighbours.

  \<^bold>\<open>The store\<close> (\<open>persistence/memory.ts\<close>, \<open>MemoryPersistence\<close>): \<open>Memory_Store\<close> is its state, one map
  per private field; the methods are in \<open>Memory_Workspaces\<close> (rows, executions, compare-and-save),
  \<open>Memory_Users\<close> (accounts, credentials, sessions, with \<open>user-role-policy.ts\<close>), \<open>Memory_Tenants\<close>
  (with \<open>tenant-membership.ts\<close> and \<open>workspace-authorization.ts\<close>), \<open>Memory_Operations\<close>,
  \<open>Memory_Rollouts\<close>, \<open>Memory_Activity\<close> (leases and drains), \<open>Memory_Catalog\<close> (applications,
  versions, packages, builds, artifacts) and \<open>Memory_Config\<close> (revisions, policies, audit, buffers).
  Every method is one step, since none awaits anything. Shown: an invariant of each group and that
  every operation keeps it, no lost update between compare-and-saves, generations that never roll
  back, roles that only another user changes, who is a super administrator, workspaces that only
  their owner enters, sessions that end with the password, one active version.

  \<^bold>\<open>The services.\<close>
  \<^item> \<open>Workspace_Model\<close> (\<open>workspace-execution-model.ts\<close>): rows and executions translated into each other.
  \<^item> \<open>Quota_Admission\<close> (\<open>quota-admission.ts\<close>): the reservation ledger; usage never exceeds a limit.
  \<^item> \<open>Admin_Operations\<close> (\<open>admin-operations.ts\<close>): the manager; outcomes are final, a commit point
    excludes a cancellation.
  \<^item> \<open>Instance_Policy\<close> (\<open>instance-policy.ts\<close>): updates of the provisioning policy stay well formed.
  \<^item> \<open>Instance_Activity\<close> (\<open>instance-upgrade-activity.ts\<close>): sessions of connections, admission of
    upgrades, and when an instance is idle.
  \<^item> \<open>Rollout_Effects\<close>, \<open>Rollout_Worker\<close>, \<open>Rollout_Service\<close> (\<open>upgrade-rollouts.ts\<close>): worker and service as
    actions. \<open>Rollout_Rules\<close> states what the worker may log and a calculus for it,
    \<open>Rollout_Safety\<close> shows that every method keeps the rules, \<open>Rollout_Outcomes\<close> what it leaves
    behind (drains are released, retries are spaced, summaries reflect their items), and
    \<open>Rollout_Budget\<close> follows the count of failures over any number of whole runs. \<open>Rollout_Cohort\<close> (\<open>rollout-cohort.ts\<close>): cohorts and gate.
  \<^item> \<open>Execution_Manager\<close> (\<open>workspace-execution-manager.ts\<close>), with \<open>Execution_Safety\<close> (the log of
    writes and calls), \<open>Execution_Deletion\<close> (phases, termination, storage last) and
    \<open>Execution_Outcomes\<close> (what reconcile returns); \<open>Execution_Reconciler\<close>
    (\<open>workspace-execution-reconciler.ts\<close>): the pass over the workspaces.
  \<^item> \<open>Instance_Lifecycle\<close> (\<open>instance-lifecycle.ts\<close>), with \<open>Lifecycle_Rules\<close> (what may be logged, and the
    judgement \<open>life_ok\<close> with its rules) and \<open>Lifecycle_Safety\<close> (the guarantees: limits, rows that
    follow the runtime, quota, idle stops).
  \<^item> \<open>Auth_Rate_Limit\<close> (\<open>auth/local-auth-rate-limit.ts\<close>): the limiter refines plain counters.
  \<^item> \<open>Portal_Maintenance\<close> (\<open>portal-maintenance.ts\<close>): the coordinator refines a specification on its history.

  \<^bold>\<open>Interference and oracles.\<close> A service awaits between its accesses to the store, and anything may
  happen there. A \<open>world\<close> record holds, indexed by the number of effects so far, what other processes do
  to the store, the clock, fresh identifiers, signals, and what the runtime, the
  provider, the storage and the catalog answer. Guarantees of the services hold in every
  world, or in every world whose other writers keep the invariant of the store, and mostly speak about the log
  of what a run has read, asked and written, newest first. The witnesses evaluate sample worlds.

  \<^bold>\<open>Bounds and fuel.\<close> The retries of compare-and-save are the code's own (8 in the execution
  manager, 5 and 10 in the rollouts), as are the three further looks at a missing instance, the
  hundred revisions kept and the thousand operations. The deletion loop carries fuel; six rounds are
  proved enough. Polling for a creation ends by its deadline; 1200 polls of a tenth of a second
  are as many as fit before it. The reconciler's attempts recurse over the attempts left.

  \<^bold>\<open>What is not modelled.\<close> The PostgreSQL adapter (its logic is in SQL), the Docker runtime and the
  providers' adapters (oracles of the models), the HTTP portal, gateway and proxy, the
  sign-in providers, image builds and files, monitoring, plugins, the command line and the frontend: input and
  output, or code that a model can only restate. Queues of promises and locks in one process
  are steps or turns, and metadata of audit entries is left out.
\<close>

end
